(* ===== verification/Prelude.thy ===== *)
theory Prelude
  imports Complex_Main "HOL-Library.AList"
begin

section \<open>Shared types, automation and lemmas\<close>

text \<open>
  What every component theory uses: the exceptions the program raises, results that are either an
  exception or a value, the Python string methods, dictionaries in insertion order, timestamps,
  and the collections of facts the component proofs are run with.
\<close>

named_theorems py_defs \<open>definitions of small helpers, unfolded together\<close>
named_theorems guard_simps \<open>when a guarded operation returns a value\<close>

subsection \<open>Exceptions and results\<close>

text \<open>
  The exceptions of the modelled code. \<^verbatim>\<open>ValueError\<close> keeps its message; where the message
  interpolates a number, the number is the second argument of \<open>ValueErrorV\<close>. \<open>IntegrityError\<close> is
  what \<^verbatim>\<open>sqlite3\<close> raises when a constraint of the schema is violated.
\<close>

datatype exn =
    ValueError string
  | ValueErrorV string rat
  | KeyError string
  | TypeError string
  | RuntimeError string
  | IntegrityError string
  | SymbolMappingError string
  | ProviderError string
  | OtherError string

type_synonym 'a res = "exn + 'a"

definition res_bind :: "'a res \<Rightarrow> ('a \<Rightarrow> 'b res) \<Rightarrow> 'b res" where
  "res_bind m f = (case m of Inl e \<Rightarrow> Inl e | Inr x \<Rightarrow> f x)"

definition guard :: "bool \<Rightarrow> exn \<Rightarrow> 'b res \<Rightarrow> 'b res" where
  "guard bad e k = (if bad then Inl e else k)"

lemma res_bind_simps [simp]:
  "res_bind (Inl e) f = Inl e"
  "res_bind (Inr x) f = f x"
  by (simp_all add: res_bind_def)

lemma res_bind_Inr_iff [guard_simps]:
  "res_bind m f = Inr y \<longleftrightarrow> (\<exists>x. m = Inr x \<and> f x = Inr y)"
  by (cases m) auto

lemma res_bind_Inl_iff:
  "res_bind m f = Inl e \<longleftrightarrow> m = Inl e \<or> (\<exists>x. m = Inr x \<and> f x = Inl e)"
  by (cases m) auto

lemma guard_Inr_iff [guard_simps]: "guard bad e k = Inr y \<longleftrightarrow> \<not> bad \<and> k = Inr y"
  by (simp add: guard_def)

lemma guard_simps_bool [simp]:
  "guard True e k = Inl e"
  "guard False e k = k"
  by (simp_all add: guard_def)

text \<open>A loop body that may raise, run over a list: the first exception ends the loop.\<close>

fun res_map :: "('a \<Rightarrow> 'b res) \<Rightarrow> 'a list \<Rightarrow> 'b list res" where
  "res_map f [] = Inr []"
| "res_map f (x # xs) = res_bind (f x) (\<lambda>y. res_bind (res_map f xs) (\<lambda>ys. Inr (y # ys)))"

lemma res_map_Inr_iff:
  "res_map f xs = Inr ys \<longleftrightarrow> list_all2 (\<lambda>x y. f x = Inr y) xs ys"
  by (induction xs arbitrary: ys) (auto simp: guard_simps list_all2_Cons1)

lemma res_map_total:
  "\<forall>x \<in> set xs. \<exists>y. f x = Inr y \<Longrightarrow> \<exists>ys. res_map f xs = Inr ys"
  by (induction xs) (auto simp: guard_simps)

text \<open>
  An operation on shared state returns the state it leaves behind beside its result: what was
  changed before an exception stays changed. \<open>sbind\<close> is sequencing, \<open>stry\<close> is \<^verbatim>\<open>try: ... except: cleanup; raise\<close>.
\<close>

type_synonym ('s, 'a) sres = "'s \<times> 'a res"

definition sbind :: "('s, 'a) sres \<Rightarrow> ('a \<Rightarrow> 's \<Rightarrow> ('s, 'b) sres) \<Rightarrow> ('s, 'b) sres" where
  "sbind m f = (case snd m of Inl e \<Rightarrow> (fst m, Inl e) | Inr x \<Rightarrow> f x (fst m))"

definition stry :: "('s, 'a) sres \<Rightarrow> ('s \<Rightarrow> 's) \<Rightarrow> ('s, 'a) sres" where
  "stry m cleanup = (case snd m of Inl e \<Rightarrow> (cleanup (fst m), Inl e) | Inr x \<Rightarrow> m)"

lemma sbind_simps [simp]:
  "sbind (s, Inl e) f = (s, Inl e)"
  "sbind (s, Inr x) f = f x s"
  by (simp_all add: sbind_def)

lemma stry_simps [simp]:
  "stry (s, Inl e) c = (c s, Inl e)"
  "stry (s, Inr x) c = (s, Inr x)"
  by (simp_all add: stry_def)

lemma sbind_Inr_iff:
  "sbind m f = (s', Inr y) \<longleftrightarrow> (\<exists>s x. m = (s, Inr x) \<and> f x s = (s', Inr y))"
  by (cases m) (auto simp: sbind_def split: sum.splits)

lemma snd_sbind_Inr_iff:
  "snd (sbind m f) = Inr y \<longleftrightarrow> (\<exists>s x. m = (s, Inr x) \<and> snd (f x s) = Inr y)"
  by (cases m) (auto simp: sbind_def split: sum.splits)

text \<open>What every step preserves, the sequence preserves.\<close>

lemma sbind_inv:
  "P (fst m) \<Longrightarrow> (\<And>x s. m = (s, Inr x) \<Longrightarrow> P (fst (f x s))) \<Longrightarrow> P (fst (sbind m f))"
  by (cases m) (auto simp: sbind_def split: sum.splits)

subsection \<open>Strings\<close>

text \<open>
  Strings are lists of characters; the methods below act on ASCII text, which is all the
  identifiers and messages of the program use.
\<close>

definition is_space :: "char \<Rightarrow> bool" where
  "is_space c \<longleftrightarrow> c \<in> {CHR '' '', CHR 0x09, CHR 0x0A, CHR 0x0B, CHR 0x0C, CHR 0x0D,
     CHR 0x1C, CHR 0x1D, CHR 0x1E, CHR 0x1F}"

definition strip :: "string \<Rightarrow> string" where
  "strip s = rev (dropWhile is_space (rev (dropWhile is_space s)))"

definition upper_char :: "char \<Rightarrow> char" where
  "upper_char c = (if 97 \<le> (of_char c :: int) \<and> (of_char c :: int) \<le> 122
     then char_of ((of_char c :: int) - 32) else c)"

definition lower_char :: "char \<Rightarrow> char" where
  "lower_char c = (if 65 \<le> (of_char c :: int) \<and> (of_char c :: int) \<le> 90
     then char_of ((of_char c :: int) + 32) else c)"

definition upper :: "string \<Rightarrow> string" where
  "upper s = map upper_char s"

definition lower :: "string \<Rightarrow> string" where
  "lower s = map lower_char s"

lemma upper_Nil [simp]: "upper [] = []"
  by (simp add: upper_def)

lemma strip_eq_Nil_iff: "strip s = [] \<longleftrightarrow> list_all is_space s"
proof
  assume "strip s = []"
  then have "\<forall>c \<in> set (dropWhile is_space s). is_space c"
    by (simp add: strip_def)
  then have "dropWhile is_space s = []"
    using hd_dropWhile [of is_space s] by (metis hd_in_set)
  then show "list_all is_space s" by (simp add: list_all_iff)
next
  assume "list_all is_space s"
  then have "dropWhile is_space s = []" by (simp add: list_all_iff)
  then show "strip s = []" by (simp add: strip_def del: dropWhile_eq_Nil_conv)
qed

lemma strip_Nil [simp]: "strip [] = []"
  by (simp add: strip_def)

lemma strip_ConsI: "strip s \<noteq> [] \<Longrightarrow> s \<noteq> []"
  by auto

fun join :: "string \<Rightarrow> string list \<Rightarrow> string" where
  "join sep [] = []"
| "join sep [x] = x"
| "join sep (x # y # ys) = x @ sep @ join sep (y # ys)"

subsection \<open>Dictionaries\<close>

text \<open>
  A Python dictionary is an association list in insertion order with distinct keys:
  \<^verbatim>\<open>d.get(k)\<close> is \<open>map_of d k\<close>, \<^verbatim>\<open>d[k] = v\<close> is \<open>AList.update k v d\<close> (in place when the key is present,
  appended otherwise), \<^verbatim>\<open>d.pop(k, None)\<close> is \<open>AList.delete k d\<close>, and \<^verbatim>\<open>d.values()\<close> is \<open>map snd d\<close>.
\<close>

type_synonym ('k, 'v) dict = "('k \<times> 'v) list"

abbreviation dget :: "('k, 'v) dict \<Rightarrow> 'k \<Rightarrow> 'v option" where
  "dget \<equiv> map_of"

abbreviation dput :: "'k \<Rightarrow> 'v \<Rightarrow> ('k, 'v) dict \<Rightarrow> ('k, 'v) dict" where
  "dput \<equiv> AList.update"

abbreviation dpop :: "'k \<Rightarrow> ('k, 'v) dict \<Rightarrow> ('k, 'v) dict" where
  "dpop \<equiv> AList.delete"

definition dict_ok :: "('k, 'v) dict \<Rightarrow> bool" where
  "dict_ok d \<longleftrightarrow> distinct (map fst d)"

lemma dict_ok_Nil [simp]: "dict_ok []"
  by (simp add: dict_ok_def)

lemma dict_ok_dput [intro]: "dict_ok d \<Longrightarrow> dict_ok (dput k v d)"
  by (simp add: dict_ok_def distinct_update)

lemma dict_ok_dpop [intro]: "dict_ok d \<Longrightarrow> dict_ok (dpop k d)"
  by (simp add: dict_ok_def distinct_delete)

lemma dget_dput [simp]: "dget (dput k v d) k' = (if k' = k then Some v else dget d k')"
  by (simp add: update_conv')

lemma dget_dpop [simp]: "dget (dpop k d) k' = (if k' = k then None else dget d k')"
  by (simp add: delete_conv')

lemma dget_in_values: "dget d k = Some v \<Longrightarrow> v \<in> set (map snd d)"
  by (force dest: map_of_SomeD)

lemma dict_values_dget: "dict_ok d \<Longrightarrow> v \<in> set (map snd d) \<Longrightarrow> \<exists>k. dget d k = Some v"
  by (auto simp: dict_ok_def)

lemma set_dput: "dict_ok d \<Longrightarrow> set (dput k v d) = {(k, v)} \<union> {p \<in> set d. fst p \<noteq> k}"
  by (induction d) (auto simp: dict_ok_def image_iff)

text \<open>\<^verbatim>\<open>dict.fromkeys(xs)\<close> keeps the first occurrence of every element.\<close>

fun dedup_from :: "'a list \<Rightarrow> 'a list \<Rightarrow> 'a list" where
  "dedup_from seen [] = []"
| "dedup_from seen (x # xs) =
     (if x \<in> set seen then dedup_from seen xs else x # dedup_from (x # seen) xs)"

definition fromkeys :: "'a list \<Rightarrow> 'a list" where
  "fromkeys xs = dedup_from [] xs"

lemma set_dedup_from: "set (dedup_from seen xs) = set xs - set seen"
  by (induction seen xs rule: dedup_from.induct) auto

lemma distinct_dedup_from: "distinct (dedup_from seen xs)"
  by (induction seen xs rule: dedup_from.induct) (auto simp: set_dedup_from)

lemma fromkeys_set [simp]: "set (fromkeys xs) = set xs"
  by (simp add: fromkeys_def set_dedup_from)

lemma fromkeys_distinct [simp]: "distinct (fromkeys xs)"
  by (simp add: fromkeys_def distinct_dedup_from)

subsection \<open>Timestamps\<close>

text \<open>
  A \<^verbatim>\<open>datetime\<close> is an instant in microseconds; it is either timezone-aware (the instant is UTC) or
  naive. The clock is an argument of every operation that reads it.
\<close>

datatype datetime = Aware int | Naive int

fun is_aware :: "datetime \<Rightarrow> bool" where
  "is_aware (Aware t) = True"
| "is_aware (Naive t) = False"

fun instant :: "datetime \<Rightarrow> int" where
  "instant (Aware t) = t"
| "instant (Naive t) = t"

end
