(* ===== verification/Decimal28.thy ===== *)
theory Decimal28
  imports Prelude
begin

section \<open>Python decimal arithmetic\<close>

text \<open>
  The program computes with \<^verbatim>\<open>decimal.Decimal\<close> under the default context (28 digits,
  \<^verbatim>\<open>ROUND_HALF_EVEN\<close>). A finite \<^verbatim>\<open>Decimal\<close> is modelled by the rational number it denotes; every
  arithmetic operation computes the exact result and rounds it to 28 significant digits, as the
  General Decimal Arithmetic specification prescribes. Comparisons, \<^verbatim>\<open>min\<close> and \<^verbatim>\<open>max\<close> do not round.
  Not modelled: \<^verbatim>\<open>NaN\<close>, infinities, and the exponent limits (\<^verbatim>\<open>Emin\<close> and \<^verbatim>\<open>Emax\<close> are six digits
  long). Two texts of one number (\<^verbatim>\<open>1.0\<close> and \<^verbatim>\<open>1.00\<close>) are the same value here, as they are for
  \<^verbatim>\<open>==\<close> in Python. Division by zero raises in Python; every modelled call of \<open>ddiv\<close> is guarded by
  the source or by an explicit error branch.

  The first part defines rounding to \<open>p\<close> digits and proves that it is monotone, odd, idempotent,
  exact on numbers of at most \<open>p\<close> digits, and within half a unit in the last place. The locale
  \<open>decimal_context\<close> states what the components rely on, and is interpreted on the 28-digit context.
\<close>

subsection \<open>Decimal digits and decades\<close>

function ndigits :: "int \<Rightarrow> nat" where
  "ndigits n = (if n < 10 then 1 else Suc (ndigits (n div 10)))"
  by pat_completeness auto
termination
  by (relation "measure nat") auto

declare ndigits.simps [simp del]

lemma ndigits_pos: "0 < ndigits n"
  by (subst ndigits.simps) simp

lemma ndigits_upper: "n < 10 ^ ndigits n"
proof (induction n rule: ndigits.induct)
  case (1 n)
  show ?case
  proof (cases "n < 10")
    case True
    then show ?thesis by (simp add: ndigits.simps [of n])
  next
    case False
    with 1 have "n div 10 < 10 ^ ndigits (n div 10)" by simp
    then have "n < 10 * 10 ^ ndigits (n div 10)" by linarith
    with False show ?thesis by (simp add: ndigits.simps [of n])
  qed
qed

lemma ndigits_lower: "1 \<le> n \<Longrightarrow> 10 ^ (ndigits n - 1) \<le> n"
proof (induction n rule: ndigits.induct)
  case (1 n)
  show ?case
  proof (cases "n < 10")
    case True
    with 1 show ?thesis by (simp add: ndigits.simps [of n])
  next
    case False
    then have ge: "1 \<le> n div 10" by linarith
    with 1 False have "10 ^ (ndigits (n div 10) - 1) \<le> n div 10" by simp
    then have "10 * 10 ^ (ndigits (n div 10) - 1) \<le> n" by linarith
    then have "10 ^ Suc (ndigits (n div 10) - 1) \<le> n" by simp
    then have "10 ^ ndigits (n div 10) \<le> n"
      using ndigits_pos [of "n div 10"] by (simp del: power_Suc)
    with False show ?thesis by (simp add: ndigits.simps [of n])
  qed
qed

text \<open>The digits in chunks: the code equation that closed terms are evaluated with.\<close>

lemma ndigits_shift: "10 ^ k \<le> n \<Longrightarrow> ndigits n = k + ndigits (n div 10 ^ k)"
proof (induction k arbitrary: n)
  case (Suc k)
  have "1 \<le> (10 ^ k :: int)" by simp
  moreover have "10 * 10 ^ k \<le> n" using Suc.prems by simp
  ultimately have big: "\<not> n < 10" by linarith
  have "10 ^ k \<le> n div 10" using Suc.prems by simp
  then have "ndigits (n div 10) = k + ndigits (n div 10 div 10 ^ k)" by (rule Suc.IH)
  then show ?case using big by (simp add: ndigits.simps [of n] div_mult2_eq zdiv_zmult2_eq)
qed simp

lemma ndigits_small: "n < 10 \<Longrightarrow> ndigits n = 1" "10 \<le> n \<Longrightarrow> n < 100 \<Longrightarrow> ndigits n = 2"
proof -
  show one: "ndigits m = 1" if "m < 10" for m using that by (simp add: ndigits.simps [of m])
  show "ndigits n = 2" if "10 \<le> n" "n < 100"
    using that one [of "n div 10"] by (simp add: ndigits.simps [of n])
qed

lemma ndigits_code [code]:
  "ndigits n =
     (if 10000000000000000 \<le> n then 16 + ndigits (n div 10000000000000000)
      else if 100000000 \<le> n then 8 + ndigits (n div 100000000)
      else if 10000 \<le> n then 4 + ndigits (n div 10000)
      else if 100 \<le> n then 2 + ndigits (n div 100)
      else if 10 \<le> n then 2 else 1)"
  using ndigits_shift [of 16 n] ndigits_shift [of 8 n] ndigits_shift [of 4 n] ndigits_shift [of 2 n]
    ndigits_small [of n] by simp

definition p10 :: "int \<Rightarrow> rat" where
  "p10 e = (if 0 \<le> e then 10 ^ nat e else 1 / 10 ^ nat (- e))"

lemma p10_pos [simp]: "0 < p10 e"
  by (simp add: p10_def)

lemma p10_nonneg [simp]: "0 \<le> p10 e"
  by (rule less_imp_le [OF p10_pos])

lemma p10_neq_0 [simp]: "p10 e \<noteq> 0"
  by (metis p10_pos order_less_irrefl)

lemma p10_powi: "p10 e = 10 powi e"
  by (auto simp: p10_def power_int_def field_simps)

lemma p10_add: "p10 (a + b) = p10 a * p10 b"
  by (simp add: p10_powi power_int_add)

lemma p10_le: "a \<le> b \<Longrightarrow> p10 a \<le> p10 b"
  by (simp add: p10_powi power_int_increasing)

lemma p10_less_iff: "p10 a < p10 b \<longleftrightarrow> a < b"
proof
  show "p10 a < p10 b \<Longrightarrow> a < b" using p10_le [of b a] by (metis not_le)
  show "a < b \<Longrightarrow> p10 a < p10 b" by (simp add: p10_powi power_int_strict_increasing)
qed

definition decade :: "rat \<Rightarrow> int" where
  "decade x = (if 1 \<le> x then int (ndigits \<lfloor>x\<rfloor>) - 1 else - int (ndigits (\<lceil>1 / x\<rceil> - 1)))"

lemma decade_bounds:
  assumes "0 < x"
  shows "p10 (decade x) \<le> x" and "x < p10 (decade x + 1)"
proof -
  have "p10 (decade x) \<le> x \<and> x < p10 (decade x + 1)"
  proof (cases "1 \<le> x")
    case True
    let ?n = "\<lfloor>x\<rfloor>"
    have n: "1 \<le> ?n" using True by (simp add: le_floor_iff)
    have "(of_int (10 ^ (ndigits ?n - 1)) :: rat) \<le> of_int ?n"
      using ndigits_lower [OF n] by (simp only: of_int_le_iff)
    then have "(10 :: rat) ^ (ndigits ?n - 1) \<le> of_int ?n" by (simp only: of_int_power of_int_numeral)
    then have lo: "(10 :: rat) ^ (ndigits ?n - 1) \<le> x"
      using of_int_floor_le [of x] by (rule order_trans)
    have "?n + 1 \<le> 10 ^ ndigits ?n" using ndigits_upper [of ?n] by simp
    then have "(of_int (?n + 1) :: rat) \<le> of_int (10 ^ ndigits ?n)"
      by (simp only: of_int_le_iff)
    then have hi: "x < 10 ^ ndigits ?n"
      using floor_correct [of x] by simp
    have "nat (int (ndigits ?n) - 1) = ndigits ?n - 1" by simp
    then show ?thesis using True lo hi ndigits_pos [of ?n] by (simp add: decade_def p10_def)
  next
    case False
    let ?m = "\<lceil>1 / x\<rceil> - 1"
    have gt: "1 < 1 / x" using False assms by (simp add: field_simps)
    then have m: "1 \<le> ?m" by (simp add: less_ceiling_iff)
    have up: "1 / x \<le> of_int ?m + 1" using ceiling_correct [of "1 / x"] by simp
    have low: "of_int ?m < 1 / x" using ceiling_correct [of "1 / x"] by simp
    let ?k = "ndigits ?m"
    have "?m + 1 \<le> 10 ^ ?k" using ndigits_upper [of ?m] by simp
    then have "(of_int (?m + 1) :: rat) \<le> of_int (10 ^ ?k)" by (simp only: of_int_le_iff)
    then have "of_int ?m + 1 \<le> (10 :: rat) ^ ?k" by (simp only: of_int_power of_int_numeral of_int_add of_int_1)
    then have "1 / x \<le> 10 ^ ?k" using up by (rule order_trans [rotated])
    then have lo: "1 / 10 ^ ?k \<le> x" using assms by (simp add: field_simps)
    have "(of_int (10 ^ (?k - 1)) :: rat) \<le> of_int ?m"
      using ndigits_lower [OF m] by (simp only: of_int_le_iff)
    then have "10 ^ (?k - 1) \<le> (of_int ?m :: rat)" by (simp only: of_int_power of_int_numeral)
    then have "10 ^ (?k - 1) < 1 / x" using low by (rule le_less_trans)
    then have hi: "x < 1 / 10 ^ (?k - 1)" using assms by (simp add: field_simps)
    have kpos: "0 < ?k" by (rule ndigits_pos)
    then have "nat (- (1 - int ?k)) = ?k - 1" by simp
    then show ?thesis using False lo hi kpos
      by (cases "?k = 1") (auto simp: decade_def p10_def)
  qed
  then show "p10 (decade x) \<le> x" and "x < p10 (decade x + 1)" by auto
qed

lemma decade_unique:
  assumes "0 < x" "p10 e \<le> x" "x < p10 (e + 1)"
  shows "decade x = e"
proof -
  have "p10 e < p10 (decade x + 1)" "p10 (decade x) < p10 (e + 1)"
    using decade_bounds [OF assms(1)] assms by auto
  then show ?thesis by (simp add: p10_less_iff)
qed

lemma decade_mono:
  assumes "0 < x" "x \<le> y"
  shows "decade x \<le> decade y"
proof -
  have "p10 (decade x) < p10 (decade y + 1)"
    using decade_bounds(1) [OF assms(1)] decade_bounds(2) [of y] assms by simp
  then show ?thesis by (simp add: p10_less_iff)
qed

subsection \<open>Rounding half to even\<close>

definition half_even :: "rat \<Rightarrow> int" where
  "half_even y =
     (let f = \<lfloor>y\<rfloor>; r = y - of_int f
      in if r < 1 / 2 then f else if 1 / 2 < r then f + 1 else if even f then f else f + 1)"

lemma half_even_of_int [simp]: "half_even (of_int n) = n"
  by (simp add: half_even_def)

lemma half_even_cases: "half_even y = \<lfloor>y\<rfloor> \<or> half_even y = \<lfloor>y\<rfloor> + 1"
  by (simp add: half_even_def Let_def)

lemma half_even_error: "\<bar>of_int (half_even y) - y\<bar> \<le> 1 / 2"
proof -
  have "of_int \<lfloor>y\<rfloor> \<le> y" "y < of_int \<lfloor>y\<rfloor> + 1" using floor_correct [of y] by auto
  then show ?thesis by (auto simp: half_even_def Let_def abs_le_iff)
qed

lemma half_even_near:
  assumes "2 * \<bar>y - of_int m\<bar> < 1"
  shows "half_even y = m"
proof -
  have "\<bar>of_int (half_even y) - of_int m\<bar> < (1 :: rat)"
    using assms half_even_error [of y] abs_triangle_ineq [of "of_int (half_even y) - y" "y - of_int m"]
    by simp
  then have "(of_int \<bar>half_even y - m\<bar> :: rat) < of_int 1" by simp
  then have "\<bar>half_even y - m\<bar> < 1" by (simp only: of_int_less_iff)
  then show ?thesis by simp
qed

lemma half_even_mono:
  assumes "x \<le> y"
  shows "half_even x \<le> half_even y"
proof (cases "\<lfloor>x\<rfloor> = \<lfloor>y\<rfloor>")
  case True
  with assms show ?thesis by (auto simp: half_even_def Let_def)
next
  case False
  with assms have "\<lfloor>x\<rfloor> + 1 \<le> \<lfloor>y\<rfloor>" using floor_mono [of x y] by simp
  then show ?thesis using half_even_cases [of x] half_even_cases [of y] by auto
qed

lemma half_even_minus: "half_even (- y) = - half_even y"
proof (cases "y = of_int \<lfloor>y\<rfloor>")
  case True
  then obtain n where "y = of_int n" by blast
  then show ?thesis using half_even_of_int [of "- n"] by simp
next
  case False
  then have f: "\<lfloor>- y\<rfloor> = - \<lfloor>y\<rfloor> - 1"
    using floor_correct [of y] by (intro floor_unique) (auto simp: less_le)
  show ?thesis using floor_correct [of y] unfolding half_even_def Let_def f
    by (auto simp: algebra_simps)
qed

subsection \<open>Rounding to a number of significant digits\<close>

definition rnd_prec :: "nat \<Rightarrow> rat \<Rightarrow> rat" where
  "rnd_prec p x =
     (if x = 0 then 0
      else let e = decade \<bar>x\<bar> - int p + 1 in of_int (half_even (x / p10 e)) * p10 e)"

lemma rnd_prec_zero [simp]: "rnd_prec p 0 = 0"
  by (simp add: rnd_prec_def)

lemma rnd_prec_minus: "rnd_prec p (- x) = - rnd_prec p x"
  using half_even_minus [of "x / y" for y] by (simp add: rnd_prec_def Let_def)

lemma p10_is_int: "0 \<le> e \<Longrightarrow> p10 e = of_int (10 ^ nat e)"
  by (simp add: p10_def)

text \<open>The boundaries of a decade are kept.\<close>

lemma rnd_prec_decade:
  assumes "0 < x" "0 < p"
  shows "p10 (decade x) \<le> rnd_prec p x" and "rnd_prec p x \<le> p10 (decade x + 1)"
proof -
  let ?d = "decade x" and ?e = "decade x - int p + 1"
  have lo: "half_even (x / p10 ?e) \<ge> 10 ^ nat (int p - 1)"
  proof -
    have "p10 ?d = p10 (int p - 1) * p10 ?e" by (simp flip: p10_add)
    then have "of_int (10 ^ nat (int p - 1)) \<le> x / p10 ?e"
      using decade_bounds(1) [OF assms(1)] assms(2) by (simp add: field_simps p10_is_int)
    from half_even_mono [OF this] show ?thesis by (simp only: half_even_of_int)
  qed
  have hi: "half_even (x / p10 ?e) \<le> 10 ^ p"
  proof -
    have "p10 (?d + 1) = p10 (int p) * p10 ?e" by (simp flip: p10_add)
    then have "x / p10 ?e \<le> of_int (10 ^ p)"
      using decade_bounds(2) [OF assms(1)] by (simp add: field_simps p10_is_int)
    from half_even_mono [OF this] show ?thesis by (simp only: half_even_of_int)
  qed
  have r: "rnd_prec p x = of_int (half_even (x / p10 ?e)) * p10 ?e"
    using assms by (simp add: rnd_prec_def Let_def)
  have "of_int (10 ^ nat (int p - 1)) * p10 ?e \<le> of_int (half_even (x / p10 ?e)) * p10 ?e"
    using lo by (intro mult_right_mono) (simp_all only: of_int_le_iff p10_pos less_imp_le)
  moreover have "p10 ?d = p10 (int p - 1) * p10 ?e" by (simp flip: p10_add)
  ultimately show "p10 ?d \<le> rnd_prec p x" using r assms(2) by (simp add: p10_is_int)
  have "of_int (half_even (x / p10 ?e)) * p10 ?e \<le> of_int (10 ^ p) * p10 ?e"
    using hi by (intro mult_right_mono) (simp_all only: of_int_le_iff p10_pos less_imp_le)
  moreover have "p10 (?d + 1) = p10 (int p) * p10 ?e" by (simp flip: p10_add)
  ultimately show "rnd_prec p x \<le> p10 (?d + 1)" using r by (simp add: p10_is_int)
qed

lemma rnd_prec_pos:
  assumes "0 < x" "0 < p"
  shows "0 < rnd_prec p x"
  using rnd_prec_decade(1) [OF assms] p10_pos [of "decade x"] by linarith

lemma rnd_prec_mono_pos:
  assumes "0 < x" "x \<le> y" "0 < p"
  shows "rnd_prec p x \<le> rnd_prec p y"
proof (cases "decade x = decade y")
  case True
  then show ?thesis using assms
    by (auto simp: rnd_prec_def Let_def intro!: mult_right_mono half_even_mono divide_right_mono)
next
  case False
  then have "p10 (decade x + 1) \<le> p10 (decade y)"
    using decade_mono [OF assms(1,2)] by (intro p10_le) simp
  then show ?thesis
    using rnd_prec_decade(2) [OF assms(1,3)] rnd_prec_decade(1) [of y p] assms by linarith
qed

lemma rnd_prec_mono:
  assumes "x \<le> y" "0 < p"
  shows "rnd_prec p x \<le> rnd_prec p y"
proof -
  consider "0 < x" | "x \<le> 0" "0 \<le> y" | "y < 0" by linarith
  then show ?thesis
  proof cases
    case 1
    then show ?thesis using assms by (intro rnd_prec_mono_pos)
  next
    case 2
    have "rnd_prec p x \<le> 0"
      using 2(1) rnd_prec_pos [of "- x" p] assms(2) by (cases "x = 0") (auto simp: rnd_prec_minus)
    moreover have "0 \<le> rnd_prec p y"
      using 2(2) rnd_prec_pos [of y p] assms(2) by (cases "y = 0") auto
    ultimately show ?thesis by linarith
  next
    case 3
    then show ?thesis using assms rnd_prec_mono_pos [of "- y" "- x" p] by (simp add: rnd_prec_minus)
  qed
qed

definition representable :: "nat \<Rightarrow> rat \<Rightarrow> bool" where
  "representable p x \<longleftrightarrow> (\<exists>m e. x = of_int m * p10 e \<and> \<bar>m\<bar> < 10 ^ p)"

lemma rnd_prec_exact:
  assumes "x = of_int m * p10 e" "\<bar>m\<bar> < 10 ^ p" 
  shows "rnd_prec p x = x"
proof (cases "x = 0")
  case False
  let ?f = "decade \<bar>x\<bar> - int p + 1"
  have "\<bar>x\<bar> < p10 (int p) * p10 e"
  proof -
    have "(of_int \<bar>m\<bar> :: rat) < of_int (10 ^ p)" using assms(2) by (simp only: of_int_less_iff)
    then show ?thesis using assms(1) by (simp add: abs_mult p10_is_int abs_of_pos)
  qed
  then have "p10 (decade \<bar>x\<bar>) < p10 (int p + e)"
    using decade_bounds(1) [of "\<bar>x\<bar>"] False by (simp add: p10_add)
  then have "?f \<le> e" by (simp add: p10_less_iff)
  then have "p10 e = of_int (10 ^ nat (e - ?f)) * p10 ?f"
    by (simp only: p10_is_int [symmetric] p10_add [symmetric] diff_ge_0_iff_ge) simp
  then have "x = of_int (m * 10 ^ nat (e - ?f)) * p10 ?f"
    using assms(1) by simp
  then have "x / p10 ?f = of_int (m * 10 ^ nat (e - ?f))"
    using p10_pos [of ?f] by (metis nonzero_mult_div_cancel_right order_less_irrefl)
  then have "of_int (half_even (x / p10 ?f)) = x / p10 ?f" by (simp only: half_even_of_int)
  then show ?thesis using False p10_pos [of ?f] by (simp add: rnd_prec_def Let_def)
qed simp

lemma rnd_prec_representable:
  assumes "0 < p"
  shows "representable p (rnd_prec p x)"
proof -
  have pos: "representable p (rnd_prec p x)" if "0 < x" for x
  proof -
    let ?e = "decade x - int p + 1"
    let ?m = "half_even (x / p10 ?e)"
    have r: "rnd_prec p x = of_int ?m * p10 ?e" using that by (simp add: rnd_prec_def Let_def)
    have "of_int ?m * p10 ?e \<le> p10 (int p) * p10 ?e"
      using rnd_prec_decade(2) [OF that assms] r by (simp flip: p10_add)
    then have "(of_int ?m :: rat) \<le> of_int (10 ^ p)" by (simp add: p10_is_int)
    then have le: "?m \<le> 10 ^ p" by (simp only: of_int_le_iff)
    have "0 < rnd_prec p x" by (rule rnd_prec_pos [OF that assms])
    then have "(0 :: rat) < of_int ?m" using r p10_pos [of ?e] by (metis mult_less_cancel_right_disj mult_zero_left order_less_asym)
    then have m0: "0 < ?m" by simp
    show ?thesis
    proof (cases "?m = 10 ^ p")
      case True
      have "rnd_prec p x = of_int 1 * p10 (int p + ?e)"
        using r True by (simp only: p10_add) (simp add: p10_is_int)
      then show ?thesis unfolding representable_def using assms by (intro exI [of _ 1] exI [of _ "int p + ?e"]) simp
    next
      case False
      then show ?thesis unfolding representable_def using r le m0 by (intro exI [of _ ?m] exI [of _ ?e]) auto
    qed
  qed
  show ?thesis
  proof (cases "x < 0")
    case True
    then obtain m e where "rnd_prec p (- x) = of_int m * p10 e" "\<bar>m\<bar> < 10 ^ p"
      using pos [of "- x"] by (auto simp: representable_def)
    then have "rnd_prec p x = of_int (- m) * p10 e" "\<bar>- m\<bar> < 10 ^ p"
      by (auto simp: rnd_prec_minus)
    then show ?thesis unfolding representable_def by blast
  next
    case False
    then show ?thesis using pos [of x] by (cases "x = 0") (auto simp: representable_def intro: exI [of _ 0])
  qed
qed

lemma rnd_prec_error:
  assumes "0 < p"
  shows "\<bar>rnd_prec p x - x\<bar> \<le> \<bar>x\<bar> * p10 (1 - int p) / 2"
proof (cases "x = 0")
  case False
  let ?e = "decade \<bar>x\<bar> - int p + 1"
  have "rnd_prec p x - x = (of_int (half_even (x / p10 ?e)) - x / p10 ?e) * p10 ?e"
    using False p10_pos [of ?e] by (simp add: rnd_prec_def Let_def field_simps)
  then have "\<bar>rnd_prec p x - x\<bar> \<le> 1 / 2 * p10 ?e"
    using half_even_error [of "x / p10 ?e"] by (simp add: abs_mult abs_of_pos)
  also have "p10 ?e = p10 (decade \<bar>x\<bar>) * p10 (1 - int p)"
    by (simp add: algebra_simps flip: p10_add)
  also have "1 / 2 * (p10 (decade \<bar>x\<bar>) * p10 (1 - int p)) \<le> \<bar>x\<bar> * p10 (1 - int p) / 2"
    using decade_bounds(1) [of "\<bar>x\<bar>"] False by simp
  finally show ?thesis by simp
qed simp

subsection \<open>The default context and its operations\<close>

definition rnd :: "rat \<Rightarrow> rat" where
  "rnd = rnd_prec 28"


definition dadd :: "rat \<Rightarrow> rat \<Rightarrow> rat" where
  "dadd x y = rnd (x + y)"

definition dsub :: "rat \<Rightarrow> rat \<Rightarrow> rat" where
  "dsub x y = rnd (x - y)"

definition dmul :: "rat \<Rightarrow> rat \<Rightarrow> rat" where
  "dmul x y = rnd (x * y)"

definition ddiv :: "rat \<Rightarrow> rat \<Rightarrow> rat" where
  "ddiv x y = rnd (x / y)"

definition dneg :: "rat \<Rightarrow> rat" where
  "dneg x = rnd (- x)"

definition dabs :: "rat \<Rightarrow> rat" where
  "dabs x = rnd \<bar>x\<bar>"

definition dsum :: "rat list \<Rightarrow> rat" where
  "dsum xs = foldl dadd 0 xs"

definition dtrunc :: "rat \<Rightarrow> rat" where
  "dtrunc x = (if 0 \<le> x then of_int \<lfloor>x\<rfloor> else of_int \<lceil>x\<rceil>)"

subsection \<open>What the components rely on\<close>

locale decimal_context =
  fixes r :: "rat \<Rightarrow> rat"
  assumes mono: "x \<le> y \<Longrightarrow> r x \<le> r y"
    and neg: "r (- x) = - r x"
    and idem: "r (r x) = r x"
    and pos: "0 < x \<Longrightarrow> 0 < r x"
begin

lemma zero: "r 0 = 0"
  using neg [of 0] by simp

lemma pos_iff: "0 < r x \<longleftrightarrow> 0 < x"
proof
  assume "0 < r x"
  then show "0 < x" using mono [of x 0] zero by (metis not_le)
qed (rule pos)

lemma neg_iff: "r x < 0 \<longleftrightarrow> x < 0"
  using pos_iff [of "- x"] by (simp add: neg)

lemma nonneg_iff: "0 \<le> r x \<longleftrightarrow> 0 \<le> x"
  using neg_iff [of x] by linarith

lemma nonpos_iff: "r x \<le> 0 \<longleftrightarrow> x \<le> 0"
  using pos_iff [of x] by linarith

lemma eq_0_iff: "r x = 0 \<longleftrightarrow> x = 0"
  using pos_iff [of x] neg_iff [of x] by (metis zero linorder_neqE order_less_irrefl)

text \<open>A bound that is itself a value of the context passes through rounding.\<close>

lemma le_fixed: "x \<le> b \<Longrightarrow> r b = b \<Longrightarrow> r x \<le> b"
  using mono [of x b] by simp

lemma ge_fixed: "b \<le> x \<Longrightarrow> r b = b \<Longrightarrow> b \<le> r x"
  using mono [of b x] by simp

lemma less_imp_less: "r x < r y \<Longrightarrow> x < y"
  using mono [of y x] by (metis not_le)

lemma fold_add_ge:
  "\<forall>x \<in> set xs. 0 \<le> x \<Longrightarrow> r a = a \<Longrightarrow> a \<le> foldl (\<lambda>s x. r (s + x)) a xs"
proof (induction xs arbitrary: a)
  case (Cons x xs)
  have "a \<le> r (a + x)" using Cons.prems by (intro ge_fixed) auto
  also have "\<dots> \<le> foldl (\<lambda>s x. r (s + x)) (r (a + x)) xs"
    using Cons by (simp add: idem)
  finally show ?case by simp
qed simp

lemma fold_add_mono:
  "a \<le> b \<Longrightarrow> list_all2 (\<le>) xs ys \<Longrightarrow>
   foldl (\<lambda>s x. r (s + x)) a xs \<le> foldl (\<lambda>s x. r (s + x)) b ys"
proof (induction xs arbitrary: a b ys)
  case (Cons x xs)
  then obtain y ys' where "ys = y # ys'" "x \<le> y" "list_all2 (\<le>) xs ys'"
    by (auto simp: list_all2_Cons1)
  then show ?case using Cons.IH [of "r (a + x)" "r (b + y)" ys'] Cons.prems(1) mono by simp
qed simp

end

lemma rnd_prec_28: "(0::nat) < 28" by simp

interpretation dec: decimal_context rnd
proof
  show "rnd x \<le> rnd y" if "x \<le> y" for x y
    using rnd_prec_mono [OF that rnd_prec_28] by (simp add: rnd_def)
  show "rnd (- x) = - rnd x" for x by (simp add: rnd_def rnd_prec_minus)
  show "rnd (rnd x) = rnd x" for x
    using rnd_prec_representable [OF rnd_prec_28, of x] rnd_prec_exact
    by (auto simp: rnd_def representable_def)
  show "0 < rnd x" if "0 < x" for x
    using rnd_prec_pos [OF that rnd_prec_28] by (simp add: rnd_def)
qed
lemma dmul_mono_left: "0 \<le> c \<Longrightarrow> a \<le> b \<Longrightarrow> dmul c a \<le> dmul c b"
  unfolding dmul_def by (rule dec.mono) (rule mult_left_mono)

lemma dmul_mono_right: "0 \<le> c \<Longrightarrow> a \<le> b \<Longrightarrow> dmul a c \<le> dmul b c"
  unfolding dmul_def by (rule dec.mono) (rule mult_right_mono)

lemma ddiv_mono: "0 < c \<Longrightarrow> a \<le> b \<Longrightarrow> ddiv a c \<le> ddiv b c"
  unfolding ddiv_def by (rule dec.mono) (rule divide_right_mono, auto)

lemma dadd_mono: "a \<le> b \<Longrightarrow> c \<le> d \<Longrightarrow> dadd a c \<le> dadd b d"
  unfolding dadd_def by (rule dec.mono) (rule add_mono)

lemma dsub_mono: "a \<le> b \<Longrightarrow> d \<le> c \<Longrightarrow> dsub a c \<le> dsub b d"
  unfolding dsub_def by (rule dec.mono) (rule diff_mono)

text \<open>The sign of a rounded operation is the sign of the exact one.\<close>

lemmas dec_signs =
  dec.pos_iff dec.neg_iff dec.nonneg_iff dec.nonpos_iff dec.eq_0_iff

lemma dmul_signs [simp]:
  "0 < dmul x y \<longleftrightarrow> 0 < x * y" "0 \<le> dmul x y \<longleftrightarrow> 0 \<le> x * y"
  "dmul x y < 0 \<longleftrightarrow> x * y < 0" "dmul x y \<le> 0 \<longleftrightarrow> x * y \<le> 0" "dmul x y = 0 \<longleftrightarrow> x * y = 0"
  unfolding dmul_def by (rule dec_signs)+

lemma ddiv_signs [simp]:
  "0 < ddiv x y \<longleftrightarrow> 0 < x / y" "0 \<le> ddiv x y \<longleftrightarrow> 0 \<le> x / y"
  "ddiv x y < 0 \<longleftrightarrow> x / y < 0" "ddiv x y \<le> 0 \<longleftrightarrow> x / y \<le> 0" "ddiv x y = 0 \<longleftrightarrow> x / y = 0"
  unfolding ddiv_def by (rule dec_signs)+

lemma dsub_signs [simp]:
  "0 < dsub x y \<longleftrightarrow> y < x" "0 \<le> dsub x y \<longleftrightarrow> y \<le> x"
  "dsub x y < 0 \<longleftrightarrow> x < y" "dsub x y \<le> 0 \<longleftrightarrow> x \<le> y" "dsub x y = 0 \<longleftrightarrow> x = y"
  unfolding dsub_def by (simp_all add: dec_signs)

lemma dadd_signs:
  "0 < dadd x y \<longleftrightarrow> 0 < x + y" "0 \<le> dadd x y \<longleftrightarrow> 0 \<le> x + y"
  "dadd x y < 0 \<longleftrightarrow> x + y < 0" "dadd x y \<le> 0 \<longleftrightarrow> x + y \<le> 0" "dadd x y = 0 \<longleftrightarrow> x + y = 0"
  unfolding dadd_def by (rule dec_signs)+

lemma dabs_nonneg [simp]: "0 \<le> dabs x"
  by (simp add: dabs_def dec.nonneg_iff)

lemma dabs_pos_iff [simp]: "0 < dabs x \<longleftrightarrow> x \<noteq> 0"
  by (simp add: dabs_def dec.pos_iff)

lemma dneg_eq: "dneg x = - rnd x"
  by (simp add: dneg_def dec.neg)

lemma dsum_nonneg: "\<forall>x \<in> set xs. 0 \<le> x \<Longrightarrow> 0 \<le> dsum xs"
  using dec.fold_add_ge [of xs 0] by (simp add: dsum_def dadd_def [abs_def] dec.zero)

lemma dsum_mono: "list_all2 (\<le>) xs ys \<Longrightarrow> dsum xs \<le> dsum ys"
  using dec.fold_add_mono [of 0 0 xs ys] by (simp add: dsum_def dadd_def [abs_def])

lemma dtrunc_nonneg: "0 \<le> x \<Longrightarrow> 0 \<le> dtrunc x \<and> dtrunc x \<le> x \<and> x < dtrunc x + 1"
  using floor_correct [of x] by (simp add: dtrunc_def)

text \<open>Numbers of at most 28 digits are kept as they are, and every result is such a number.\<close>

lemma rnd_exact: "x = of_int m * p10 e \<Longrightarrow> \<bar>m\<bar> < 10 ^ 28 \<Longrightarrow> rnd x = x"
  unfolding rnd_def by (rule rnd_prec_exact)

lemma rnd_of_int: "\<bar>m\<bar> < 10 ^ 28 \<Longrightarrow> rnd (of_int m) = of_int m"
  by (rule rnd_exact [of _ m 0]) (simp_all add: p10_def)

lemma rnd_numeral [simp]:
  "rnd 1 = 1" "rnd 100 = 100"
  using rnd_of_int [of 1] rnd_of_int [of 100] by simp_all

lemma rnd_rel_error: "\<bar>rnd x - x\<bar> \<le> \<bar>x\<bar> * (5 / 10 ^ 28)"
  using rnd_prec_error [OF rnd_prec_28, of x] by (simp add: rnd_def p10_def)

text \<open>One rounding moves a non-negative value by at most the factor \<open>1 \<plusminus> eps\<close>.\<close>

definition eps :: rat where
  "eps = 5 / 10 ^ 28"

lemma eps_bounds [simp]: "0 < eps" "0 \<le> eps" "eps < 1" "eps \<le> 1" "eps \<noteq> 1" "0 < 1 - eps" "0 < 1 + eps"
  by (simp_all add: eps_def)

lemma rnd_near: "\<bar>rnd x - x\<bar> \<le> \<bar>x\<bar> * eps"
  unfolding eps_def by (rule rnd_rel_error)

lemma rnd_upper: "0 \<le> x \<Longrightarrow> rnd x \<le> x * (1 + eps)"
  using rnd_near [of x] by (simp add: algebra_simps abs_le_iff)

lemma rnd_lower: "0 \<le> x \<Longrightarrow> x * (1 - eps) \<le> rnd x"
  using rnd_near [of x] by (simp add: algebra_simps abs_le_iff)

lemma dmul_upper: "0 \<le> x \<Longrightarrow> 0 \<le> y \<Longrightarrow> dmul x y \<le> x * y * (1 + eps)"
  unfolding dmul_def by (rule rnd_upper) simp

lemma dmul_lower: "0 \<le> x \<Longrightarrow> 0 \<le> y \<Longrightarrow> x * y * (1 - eps) \<le> dmul x y"
  unfolding dmul_def by (rule rnd_lower) simp

lemma ddiv_upper: "0 \<le> x \<Longrightarrow> 0 \<le> y \<Longrightarrow> ddiv x y \<le> x / y * (1 + eps)"
  unfolding ddiv_def by (rule rnd_upper) simp

lemma ddiv_lower: "0 \<le> x \<Longrightarrow> 0 \<le> y \<Longrightarrow> x / y * (1 - eps) \<le> ddiv x y"
  unfolding ddiv_def by (rule rnd_lower) simp

text \<open>A rounded value is recognised by its decade and its distance to the exact one.\<close>

lemma rnd_cert:
  assumes "p10 (e + 27) \<le> x" "x < p10 (e + 28)" "2 * \<bar>x - of_int m * p10 e\<bar> < p10 e"
  shows "rnd x = of_int m * p10 e"
proof -
  have pos: "0 < x" using assms(1) p10_pos [of "e + 27"] by linarith
  have d: "decade x = e + 27" by (rule decade_unique) (use assms pos in \<open>simp_all add: add.assoc\<close>)
  have "2 * \<bar>x / p10 e - of_int m\<bar> < 1"
  proof -
    have "x / p10 e - of_int m = (x - of_int m * p10 e) / p10 e" by (simp add: field_simps)
    then show ?thesis using assms(3) by (simp add: abs_div_pos [symmetric] field_simps)
  qed
  then have "half_even (x / p10 e) = m" by (rule half_even_near)
  then show ?thesis using pos d by (simp add: rnd_def rnd_prec_def Let_def)
qed

text \<open>
  Evaluation of closed terms by the simplifier: a number of at most 22 digits before, and six after,
  the decimal point is left as it is.
\<close>

lemma rnd_short_numeral: "(numeral n :: int) < 10 ^ 28 \<Longrightarrow> rnd (numeral n) = numeral n"
  using rnd_of_int [of "numeral n"] by simp

lemma rnd_short_fraction:
  assumes "(1000000 :: int) mod numeral d = 0" "(numeral n :: int) < 10 ^ 22"
  shows "rnd (numeral n / numeral d) = numeral n / numeral d"
proof -
  have "numeral d dvd (1000000 :: int)" using assms(1) by (rule mod_eq_0_iff_dvd [THEN iffD1])
  then obtain k where k: "(1000000 :: int) = numeral d * k" by (rule dvdE)
  have d1: "(1 :: int) \<le> numeral d" by simp
  have kpos: "0 < k"
  proof (rule ccontr)
    assume "\<not> 0 < k"
    then have "numeral d * k \<le> 0" using d1 by (simp add: mult_nonneg_nonpos)
    then show False using k by linarith
  qed
  have "1 * k \<le> numeral d * k" using d1 kpos by (intro mult_right_mono) simp_all
  then have "k \<le> 10 ^ 6" using k by simp
  then have "numeral n * k < 10 ^ 22 * 10 ^ 6"
    using assms(2) kpos by (intro mult_less_le_imp_less) simp_all
  then have small: "\<bar>numeral n * k\<bar> < 10 ^ 28" using kpos by (simp add: abs_mult)
  have "(of_int (numeral d * k) :: rat) = of_int 1000000" using k by simp
  then have dk: "numeral d * of_int k = (1000000 :: rat)" by simp
  have "(numeral n / numeral d :: rat) = (numeral n * of_int k) / (numeral d * of_int k)"
    using kpos by simp
  also have "\<dots> = of_int (numeral n * k) * p10 (- 6)" unfolding dk by (simp add: p10_def)
  finally have "numeral n / numeral d = (of_int (numeral n * k) :: rat) * p10 (- 6)" .
  then show ?thesis using small by (rule rnd_exact)
qed

lemma rnd_short_unit:
  "(1000000 :: int) mod numeral d = 0 \<Longrightarrow> rnd (1 / numeral d) = 1 / numeral d"
  using rnd_short_fraction [of d Num.One] by simp

lemmas rnd_short = rnd_short_numeral rnd_short_fraction rnd_short_unit dec.neg dec.zero
lemmas dec_eval = dadd_def dsub_def dmul_def ddiv_def dneg_def dabs_def dsum_def rnd_short

subsection \<open>Amounts on a grid\<close>

text \<open>Sums of amounts on one decimal grid are exact while they fit 28 digits.\<close>

definition on_grid :: "int \<Rightarrow> rat \<Rightarrow> bool" where
  "on_grid k x \<longleftrightarrow> (\<exists>m. x = of_int m * p10 k)"

lemma on_grid_add: "on_grid k x \<Longrightarrow> on_grid k y \<Longrightarrow> on_grid k (x + y)"
  unfolding on_grid_def by (metis distrib_right of_int_add)

lemma on_grid_exact:
  assumes "on_grid k x" "\<bar>x\<bar> < 10 ^ 28 * p10 k"
  shows "rnd x = x"
proof -
  obtain m where m: "x = of_int m * p10 k" using assms(1) by (auto simp: on_grid_def)
  have "of_int \<bar>m\<bar> * p10 k < 10 ^ 28 * p10 k" using assms(2) p10_pos [of k] by (simp add: m abs_mult)
  then have "(of_int \<bar>m\<bar> :: rat) < of_int (10 ^ 28)" using p10_pos [of k] by simp
  then have "\<bar>m\<bar> < 10 ^ 28" by (simp only: of_int_less_iff)
  then show ?thesis by (rule rnd_exact [OF m])
qed

lemma dadd_assoc_grid:
  assumes "on_grid k a" "on_grid k b" "on_grid k c" "\<bar>a\<bar> + \<bar>b\<bar> + \<bar>c\<bar> < 10 ^ 28 * p10 k"
  shows "dadd (dadd a b) c = dadd a (dadd b c)"
proof -
  have "rnd (a + b) = a + b" "rnd (b + c) = b + c"
    using assms by (auto intro!: on_grid_exact [of k] on_grid_add)
  then show ?thesis by (simp add: dadd_def add.assoc)
qed

end
