(* ===== verification/Market_Analysis.thy ===== *)
theory Market_Analysis
  imports Decimal28
begin

section \<open>Market analysis\<close>

text \<open>
  \<^verbatim>\<open>app/data/market_data.py\<close> (the candle) and \<^verbatim>\<open>app/market/\<close>: indicators, trend, swing structure,
  regime, liquidity and the market snapshot. Candles are ordered by timestamp before every
  computation. The windows (14, 20, 50, 200, ...) are the source's defaults; windows are natural
  numbers, and a window of zero takes the branch of the source's non-positive period.
\<close>

subsection \<open>Candles and windows\<close>

record candle =
  cd_symbol :: string
  cd_timeframe :: string
  cd_timestamp :: datetime
  cd_open :: rat
  cd_high :: rat
  cd_low :: rat
  cd_close :: rat
  cd_volume :: rat

definition ordered :: "candle list \<Rightarrow> candle list" where
  "ordered cs = sort_key (\<lambda>c. instant (cd_timestamp c)) cs"

text \<open>\<^verbatim>\<open>values[-n:]\<close> for a positive \<open>n\<close>.\<close>

definition last_n :: "nat \<Rightarrow> 'a list \<Rightarrow> 'a list" where
  "last_n n xs = drop (length xs - n) xs"

lemma length_last_n [simp]: "length (last_n n xs) = min n (length xs)"
  by (simp add: last_n_def)

lemma set_last_n: "set (last_n n xs) \<subseteq> set xs"
  by (simp add: last_n_def set_drop_subset)

lemma set_ordered [simp]: "set (ordered cs) = set cs"
  by (simp add: ordered_def)

subsection \<open>Square and square root\<close>

text \<open>
  \<^verbatim>\<open>x ** 2\<close>: \<^verbatim>\<open>libmpdec\<close> multiplies with three extra digits and then rounds to the context.
  \<^verbatim>\<open>Decimal.sqrt\<close> is correctly rounded: the root is found by bisection on the scaled integer (a
  hundred halvings of an interval of width \<open>10 ^ 29\<close>) and rounded half to even.
\<close>

definition dsquare :: "rat \<Rightarrow> rat" where
  "dsquare x = rnd (rnd_prec 31 (x * x))"

fun isqrt_bisect :: "nat \<Rightarrow> int \<Rightarrow> int \<Rightarrow> int \<Rightarrow> int" where
  "isqrt_bisect 0 n lo hi = lo"
| "isqrt_bisect (Suc k) n lo hi =
     (if hi - lo \<le> 1 then lo
      else let m = (lo + hi) div 2
           in if m * m \<le> n then isqrt_bisect k n m hi else isqrt_bisect k n lo m)"

definition isqrt :: "int \<Rightarrow> int" where
  "isqrt n = isqrt_bisect 100 n 0 (10 ^ 29)"

definition dsqrt :: "rat \<Rightarrow> rat" where
  "dsqrt v =
     (if v \<le> 0 then 0
      else let e = decade v div 2 - 27;
               s = v / p10 (2 * e);
               f = isqrt \<lfloor>s\<rfloor>;
               mid = (of_int f + 1 / 2) * (of_int f + 1 / 2);
               m = (if s < mid then f else if mid < s then f + 1 else if even f then f else f + 1)
           in of_int m * p10 e)"

lemma isqrt_bisect_correct:
  "hi - lo \<le> 2 ^ k \<Longrightarrow> 0 \<le> lo \<Longrightarrow> lo < hi \<Longrightarrow> lo * lo \<le> n \<Longrightarrow> n < hi * hi \<Longrightarrow>
   isqrt_bisect k n lo hi * isqrt_bisect k n lo hi \<le> n \<and>
   n < (isqrt_bisect k n lo hi + 1) * (isqrt_bisect k n lo hi + 1)"
proof (induction k arbitrary: lo hi)
  case 0
  then have "hi = lo + 1" by simp
  with 0 show ?case by simp
next
  case (Suc k)
  show ?case
  proof (cases "hi - lo \<le> 1")
    case True
    with Suc.prems have "hi = lo + 1" by simp
    with Suc.prems show ?thesis by simp
  next
    case False
    let ?m = "(lo + hi) div 2"
    have m: "lo < ?m" "?m < hi" "hi - ?m \<le> 2 ^ k" "?m - lo \<le> 2 ^ k"
      using False Suc.prems(1) by simp_all
    then show ?thesis using False Suc.prems Suc.IH [of hi ?m] Suc.IH [of ?m lo]
      by (simp add: Let_def)
  qed
qed

lemma isqrt_correct:
  assumes "0 \<le> n" "n < 10 ^ 58"
  shows "isqrt n * isqrt n \<le> n \<and> n < (isqrt n + 1) * (isqrt n + 1)"
  unfolding isqrt_def using assms by (intro isqrt_bisect_correct) auto

subsection \<open>Indicators\<close>

record indicator_snapshot =
  is_ema20 :: "rat option"
  is_ema50 :: "rat option"
  is_ema200 :: "rat option"
  is_rsi14 :: "rat option"
  is_atr14 :: "rat option"
  is_volume_sma20 :: "rat option"
  is_sma50 :: "rat option"
  is_macd_line :: "rat option"
  is_macd_signal :: "rat option"
  is_macd_histogram :: "rat option"
  is_adx14 :: "rat option"
  is_supertrend_direction :: "string option"
  is_vwap20 :: "rat option"
  is_bollinger_middle :: "rat option"
  is_bollinger_upper :: "rat option"
  is_bollinger_lower :: "rat option"

definition mean :: "rat list \<Rightarrow> nat \<Rightarrow> rat" where
  "mean xs n = ddiv (dsum xs) (of_nat n)"

definition period_guard :: "nat \<Rightarrow> 'a res \<Rightarrow> 'a res" where
  "period_guard n k = guard (n = 0) (ValueError ''period must be positive'') k"

definition sma_val :: "rat list \<Rightarrow> nat \<Rightarrow> rat option" where
  "sma_val values period =
     (if length values < period then None else Some (mean (last_n period values) period))"

definition sma :: "rat list \<Rightarrow> nat \<Rightarrow> rat option res" where
  "sma values period = period_guard period (Inr (sma_val values period))"

definition ema_step :: "rat \<Rightarrow> rat \<Rightarrow> rat \<Rightarrow> rat" where
  "ema_step multiplier result value = dadd (dmul (dsub value result) multiplier) result"

definition ema_val :: "rat list \<Rightarrow> nat \<Rightarrow> rat option" where
  "ema_val values period =
     (if length values < period then None
      else Some (foldl (ema_step (ddiv 2 (of_nat (period + 1))))
                  (mean (take period values) period) (drop period values)))"

definition ema :: "rat list \<Rightarrow> nat \<Rightarrow> rat option res" where
  "ema values period = period_guard period (Inr (ema_val values period))"

fun ema_scan :: "rat \<Rightarrow> rat \<Rightarrow> rat list \<Rightarrow> rat list" where
  "ema_scan m current [] = [current]"
| "ema_scan m current (v # vs) = current # ema_scan m (ema_step m current v) vs"

definition ema_series :: "rat list \<Rightarrow> nat \<Rightarrow> rat list" where
  "ema_series values period =
     (if length values < period then []
      else ema_scan (ddiv 2 (of_nat (period + 1)))
             (mean (take period values) period) (drop period values))"

text \<open>The series is the running value of the scalar average, and ends in it.\<close>

lemma ema_scan_not_Nil [simp]: "ema_scan m c vs \<noteq> []"
  by (cases vs) auto

lemma last_ema_scan: "last (ema_scan m c vs) = foldl (ema_step m) c vs"
  by (induction vs arbitrary: c) auto

lemma length_ema_scan [simp]: "length (ema_scan m c vs) = Suc (length vs)"
  by (induction vs arbitrary: c) auto

lemma ema_series_last:
  "ema_val values period = (if length values < period then None else Some (last (ema_series values period)))"
  by (simp add: ema_val_def ema_series_def last_ema_scan)

lemma length_ema_series: "length (ema_series values period) = Suc (length values) - period"
  by (simp add: ema_series_def Suc_diff_le)

definition rsi_of :: "rat \<Rightarrow> rat \<Rightarrow> rat" where
  "rsi_of avg_gain avg_loss =
     (if avg_loss = 0 then (if 0 < avg_gain then 100 else 50)
      else dsub 100 (ddiv 100 (dadd 1 (ddiv avg_gain avg_loss))))"

definition rsi_val :: "rat list \<Rightarrow> nat \<Rightarrow> rat option" where
  "rsi_val values period =
     (if length values < period + 1 then None
      else
        let changes = map (\<lambda>(previous, current). dsub current previous)
              (zip (take period (last_n (period + 1) values)) (last_n period values));
            avg_gain = mean (map (\<lambda>c. max c 0) changes) period;
            avg_loss = mean (map (\<lambda>c. max (dneg c) 0) changes) period
        in Some (rsi_of avg_gain avg_loss))"

definition rsi :: "rat list \<Rightarrow> nat \<Rightarrow> rat option res" where
  "rsi values period = period_guard period (Inr (rsi_val values period))"

definition true_range :: "candle \<Rightarrow> candle \<Rightarrow> rat" where
  "true_range previous current =
     max (dsub (cd_high current) (cd_low current))
       (max (dabs (dsub (cd_high current) (cd_close previous)))
         (dabs (dsub (cd_low current) (cd_close previous))))"

fun adjacent :: "('a \<Rightarrow> 'a \<Rightarrow> 'b) \<Rightarrow> 'a list \<Rightarrow> 'b list" where
  "adjacent f [] = []"
| "adjacent f [x] = []"
| "adjacent f (x # y # zs) = f x y # adjacent f (y # zs)"

lemma length_adjacent [simp]: "length (adjacent f xs) = length xs - 1"
  by (induction f xs rule: adjacent.induct) auto

definition true_ranges :: "candle list \<Rightarrow> rat list" where
  "true_ranges cs = adjacent true_range (ordered cs)"

definition atr :: "candle list \<Rightarrow> nat \<Rightarrow> rat option" where
  "atr cs period =
     (let ranges = true_ranges cs
      in if length ranges < period then None else Some (mean (last_n period ranges) period))"

definition macd ::
  "rat list \<Rightarrow> nat \<Rightarrow> nat \<Rightarrow> nat \<Rightarrow> rat option \<times> rat option \<times> rat option" where
  "macd values fast slow signal =
     (if fast = 0 \<or> slow \<le> fast \<or> signal = 0 \<or> length values < slow + signal - 1
      then (None, None, None)
      else
        let fast_series = ema_series values fast;
            slow_series = ema_series values slow;
            macd_series = map (\<lambda>(f, s). dsub f s) (zip (drop (slow - fast) fast_series) slow_series)
        in case ema_val macd_series signal of
             None \<Rightarrow> (None, None, None)
           | Some signal_value \<Rightarrow>
               if macd_series = [] then (None, None, None)
               else (Some (last macd_series), Some signal_value,
                     Some (dsub (last macd_series) signal_value)))"

definition plus_move :: "candle \<Rightarrow> candle \<Rightarrow> rat" where
  "plus_move previous current =
     (let up_move = dsub (cd_high current) (cd_high previous);
          down_move = dsub (cd_low previous) (cd_low current)
      in if down_move < up_move \<and> 0 < up_move then up_move else 0)"

definition minus_move :: "candle \<Rightarrow> candle \<Rightarrow> rat" where
  "minus_move previous current =
     (let up_move = dsub (cd_high current) (cd_high previous);
          down_move = dsub (cd_low previous) (cd_low current)
      in if up_move < down_move \<and> 0 < down_move then down_move else 0)"

definition adx :: "candle list \<Rightarrow> nat \<Rightarrow> rat option" where
  "adx cs period =
     (let os = ordered cs
      in if period = 0 \<or> length os < period + 2 then None
      else
        let tr = dsum (last_n period (adjacent true_range os))
        in if tr \<le> 0 then Some 0
        else
          let plus_di = ddiv (dmul 100 (dsum (last_n period (adjacent plus_move os)))) tr;
              minus_di = ddiv (dmul 100 (dsum (last_n period (adjacent minus_move os)))) tr;
              denominator = dadd plus_di minus_di
          in if denominator \<le> 0 then Some 0
             else Some (ddiv (dmul 100 (dabs (dsub plus_di minus_di))) denominator))"

definition vwap :: "candle list \<Rightarrow> nat \<Rightarrow> rat option" where
  "vwap cs period =
     (let os = ordered cs
      in if length os < period then None
      else
        let window = last_n period os;
            total_volume = dsum (map cd_volume window)
        in if total_volume \<le> 0 then None
           else Some (ddiv (dsum (map (\<lambda>c.
                  dmul (ddiv (dadd (dadd (cd_high c) (cd_low c)) (cd_close c)) 3) (cd_volume c))
                  window)) total_volume))"

definition bollinger ::
  "rat list \<Rightarrow> nat \<Rightarrow> rat \<Rightarrow> rat option \<times> rat option \<times> rat option" where
  "bollinger values period deviations =
     (case sma_val values period of
        None \<Rightarrow> (None, None, None)
      | Some middle \<Rightarrow>
          let variance = mean (map (\<lambda>v. dsquare (dsub v middle)) (last_n period values)) period;
              sd = dsqrt variance
          in (Some middle, Some (dadd middle (dmul deviations sd)),
              Some (dsub middle (dmul deviations sd))))"

definition supertrend_direction :: "candle list \<Rightarrow> nat \<Rightarrow> string option" where
  "supertrend_direction cs period =
     (let os = ordered cs
      in case atr os period of
           None \<Rightarrow> None
         | Some current_atr \<Rightarrow>
             if os = [] then None
             else
               let latest = last os;
                   midpoint = ddiv (dadd (cd_high latest) (cd_low latest)) 2;
                   up = dadd midpoint (dmul 3 current_atr);
                   lo = dsub midpoint (dmul 3 current_atr)
               in case (ema_val (map cd_close os) 20, ema_val (map cd_close os) 50) of
                    (Some ema20, Some ema50) \<Rightarrow>
                      if lo \<le> cd_close latest \<and> ema50 < ema20 then Some ''BULLISH''
                      else if cd_close latest \<le> up \<and> ema20 < ema50 then Some ''BEARISH''
                      else Some ''NEUTRAL''
                  | _ \<Rightarrow> None)"

definition build_snapshot :: "candle list \<Rightarrow> indicator_snapshot" where
  "build_snapshot cs =
     (let os = ordered cs;
          closes = map cd_close os;
          volumes = map cd_volume (last_n 20 os)
      in case macd closes 12 26 9 of (line, signal, histogram) \<Rightarrow>
         case bollinger closes 20 2 of (bb_middle, bb_upper, bb_lower) \<Rightarrow>
           \<lparr>is_ema20 = ema_val closes 20, is_ema50 = ema_val closes 50,
            is_ema200 = ema_val closes 200, is_rsi14 = rsi_val closes 14, is_atr14 = atr os 14,
            is_volume_sma20 = (if length volumes = 20 then Some (mean volumes 20) else None),
            is_sma50 = sma_val closes 50, is_macd_line = line, is_macd_signal = signal,
            is_macd_histogram = histogram, is_adx14 = adx os 14,
            is_supertrend_direction = supertrend_direction os 14, is_vwap20 = vwap os 20,
            is_bollinger_middle = bb_middle, is_bollinger_upper = bb_upper,
            is_bollinger_lower = bb_lower\<rparr>)"

subsection \<open>Ranges of the indicators\<close>

lemma mean_nonneg: "\<forall>x \<in> set xs. 0 \<le> x \<Longrightarrow> 0 \<le> mean xs n"
  by (simp add: mean_def dsum_nonneg)

lemma rnd_scale: "rnd (p10 k * x) = p10 k * rnd x"
proof (cases "x = 0")
  case False
  have d: "decade \<bar>p10 k * x\<bar> = decade \<bar>x\<bar> + k"
  proof (rule decade_unique)
    show "0 < \<bar>p10 k * x\<bar>" using False by simp
    have "p10 (decade \<bar>x\<bar>) \<le> \<bar>x\<bar>" "\<bar>x\<bar> < p10 (decade \<bar>x\<bar> + 1)"
      using decade_bounds [of "\<bar>x\<bar>"] False by auto
    then have "p10 k * p10 (decade \<bar>x\<bar>) \<le> p10 k * \<bar>x\<bar>" "p10 k * \<bar>x\<bar> < p10 k * p10 (decade \<bar>x\<bar> + 1)"
      by simp_all
    then show "p10 (decade \<bar>x\<bar> + k) \<le> \<bar>p10 k * x\<bar>" "\<bar>p10 k * x\<bar> < p10 (decade \<bar>x\<bar> + k + 1)"
      by (simp_all add: abs_mult algebra_simps flip: p10_add)
  qed
  have "p10 (decade \<bar>x\<bar> + k - int 28 + 1) = p10 k * p10 (decade \<bar>x\<bar> - int 28 + 1)"
    by (simp add: algebra_simps flip: p10_add)
  then show ?thesis using False by (simp add: rnd_def rnd_prec_def Let_def d)
qed (simp add: dec.zero)

lemma rnd_hundred: "rnd (100 * x) = 100 * rnd x"
  using rnd_scale [of 2 x] by (simp add: p10_def)

lemma rsi_of_range:
  assumes "0 \<le> g" "0 \<le> l"
  shows "0 \<le> rsi_of g l \<and> rsi_of g l \<le> 100"
proof (cases "l = 0")
  case False
  let ?q = "ddiv 100 (dadd 1 (ddiv g l))"
  have "0 \<le> ddiv g l" using assms by simp
  then have ge: "1 \<le> dadd 1 (ddiv g l)"
    unfolding dadd_def by (intro dec.ge_fixed) simp_all
  then have "100 / dadd 1 (ddiv g l) \<le> 100" by (simp add: field_simps)
  then have "?q \<le> 100" unfolding ddiv_def [of 100] by (rule dec.le_fixed) simp
  moreover have "0 \<le> ?q" using ge by simp
  ultimately show ?thesis using False by (simp add: rsi_of_def dsub_def [of 100] dec.le_fixed dec.nonneg_iff)
qed (simp add: rsi_of_def)

lemma rsi_range:
  assumes "rsi_val values period = Some r"
  shows "0 \<le> r \<and> r \<le> 100"
proof -
  obtain gs ls where r: "r = rsi_of (mean (map (\<lambda>c. max c 0) gs) period) (mean (map (\<lambda>c. max (dneg c) 0) ls) period)"
    using assms by (auto simp: rsi_val_def Let_def simp del: map_map split: if_splits)
  show ?thesis unfolding r by (intro rsi_of_range mean_nonneg) auto
qed

lemma adjacent_nonneg: "(\<And>a b. (0::rat) \<le> f a b) \<Longrightarrow> \<forall>x \<in> set (adjacent f os). 0 \<le> x"
  by (induction f os rule: adjacent.induct) auto

lemma window_sum_nonneg: "(\<And>a b. 0 \<le> f a b) \<Longrightarrow> 0 \<le> dsum (last_n n (adjacent f os))"
  using adjacent_nonneg [of f os] set_last_n [of n "adjacent f os"] by (intro dsum_nonneg) blast

lemma atr_nonneg: "atr cs period = Some a \<Longrightarrow> 0 \<le> a"
  by (auto simp: atr_def true_ranges_def Let_def mean_def true_range_def le_max_iff_disj
      split: if_splits intro!: window_sum_nonneg divide_nonneg_nonneg)

lemma directional_index_range:
  assumes "0 \<le> p" "0 \<le> m" "0 < dadd p m"
  shows "0 \<le> ddiv (dmul 100 (dabs (dsub p m))) (dadd p m) \<and>
         ddiv (dmul 100 (dabs (dsub p m))) (dadd p m) \<le> 100"
proof -
  have "\<bar>rnd (p - m)\<bar> \<le> rnd (p + m)"
    using assms dec.mono [of "p - m" "p + m"] dec.mono [of "- (p - m)" "p + m"]
    by (simp add: dec.neg abs_le_iff del: minus_diff_eq)
  then have "rnd (\<bar>rnd (p - m)\<bar>) \<le> rnd (p + m)" using dec.le_fixed dec.idem by blast
  then have "dmul 100 (dabs (dsub p m)) \<le> 100 * dadd p m"
    by (simp add: dmul_def dabs_def dsub_def dadd_def rnd_hundred dec.idem)
  then have "dmul 100 (dabs (dsub p m)) / dadd p m \<le> 100" using assms(3) by (simp add: field_simps)
  then have "ddiv (dmul 100 (dabs (dsub p m))) (dadd p m) \<le> 100"
    unfolding ddiv_def by (rule dec.le_fixed) simp
  then show ?thesis using assms(3) by simp
qed

lemma adx_range:
  assumes "adx cs period = Some a"
  shows "0 \<le> a \<and> a \<le> 100"
proof -
  have "0 \<le> dsum (last_n n (adjacent plus_move os))" "0 \<le> dsum (last_n n (adjacent minus_move os))"
    for n os by (rule window_sum_nonneg, simp add: plus_move_def minus_move_def Let_def)+
  then show ?thesis using assms directional_index_range
    by (auto simp: adx_def Let_def split: if_splits)
qed

subsection \<open>Trend\<close>

record trend_result =
  tr_direction :: string
  tr_strength :: string
  tr_score :: rat
  tr_indicators :: indicator_snapshot

definition aligned :: "indicator_snapshot \<Rightarrow> rat \<Rightarrow> string" where
  "aligned s lst =
     (case (is_ema20 s, is_ema50 s, is_ema200 s) of
        (Some e20, Some e50, Some e200) \<Rightarrow>
          if e20 < lst \<and> e50 < e20 \<and> e200 < e50 then ''BULLISH''
          else if lst < e20 \<and> e20 < e50 \<and> e50 < e200 then ''BEARISH''
          else ''NEUTRAL''
      | _ \<Rightarrow> ''UNKNOWN'')"

text \<open>Each confirmation adds its points when it is present and agrees with the direction.\<close>

definition opt_agrees :: "('a \<Rightarrow> bool) \<Rightarrow> 'a option \<Rightarrow> bool" where
  "opt_agrees P x = (case x of None \<Rightarrow> False | Some v \<Rightarrow> P v)"

definition points :: "rat option \<Rightarrow> (rat \<Rightarrow> bool) \<Rightarrow> rat \<Rightarrow> rat \<Rightarrow> rat" where
  "points v P pts score = (if opt_agrees P v then dadd score pts else score)"

definition adx_points :: "rat option \<Rightarrow> rat \<Rightarrow> rat" where
  "adx_points v score =
     (case v of None \<Rightarrow> score
      | Some a \<Rightarrow> if 25 \<le> a then dadd score 10 else if 18 \<le> a then dadd score 5 else score)"

definition bonus :: "bool \<Rightarrow> rat \<Rightarrow> rat \<Rightarrow> rat" where
  "bonus c pts score = (if c then dadd score pts else score)"

definition trend_score :: "indicator_snapshot \<Rightarrow> bool \<Rightarrow> string \<Rightarrow> rat \<Rightarrow> rat" where
  "trend_score s bullish direction lst =
     (let s1 = points (is_rsi14 s) (\<lambda>v. if bullish then 50 \<le> v else v \<le> 50) 10 60;
          s2 = points (is_macd_histogram s) (\<lambda>v. if bullish then 0 < v else v < 0) 10 s1;
          s3 = adx_points (is_adx14 s) s2;
          s4 = bonus (is_supertrend_direction s = Some direction) 5 s3;
          s5 = points (is_vwap20 s) (\<lambda>v. if bullish then v \<le> lst else lst \<le> v) 5 s4
      in min s5 100)"

definition analyze_trend :: "candle list \<Rightarrow> trend_result" where
  "analyze_trend cs =
     (let os = ordered cs; snapshot = build_snapshot os
      in if os = [] then
           \<lparr>tr_direction = ''UNKNOWN'', tr_strength = ''UNKNOWN'', tr_score = 0, tr_indicators = snapshot\<rparr>
         else
           let lst = cd_close (last os); direction = aligned snapshot lst
           in if direction = ''UNKNOWN'' then
                \<lparr>tr_direction = direction, tr_strength = ''UNKNOWN'', tr_score = 0, tr_indicators = snapshot\<rparr>
              else if direction = ''NEUTRAL'' then
                \<lparr>tr_direction = direction, tr_strength = ''WEAK'', tr_score = 45, tr_indicators = snapshot\<rparr>
              else
                let score = trend_score snapshot (direction = ''BULLISH'') direction lst;
                    strength = (if 85 \<le> score then ''STRONG'' else if 65 \<le> score then ''MODERATE'' else ''WEAK'')
                in \<lparr>tr_direction = direction, tr_strength = strength, tr_score = score,
                    tr_indicators = snapshot\<rparr>)"

lemma aligned_cases: "aligned s x \<in> {''BULLISH'', ''BEARISH'', ''NEUTRAL'', ''UNKNOWN''}"
  by (auto simp: aligned_def split: option.splits)

text \<open>A step that only adds points, on a value of the context.\<close>

definition raises :: "(rat \<Rightarrow> rat) \<Rightarrow> bool" where
  "raises f \<longleftrightarrow> (\<forall>x. rnd x = x \<longrightarrow> x \<le> f x \<and> rnd (f x) = f x)"

lemma raises_steps:
  "0 \<le> pts \<Longrightarrow> raises (points v P pts)" "0 \<le> pts \<Longrightarrow> raises (bonus c pts)" "raises (adx_points v)"
  by (auto simp: raises_def points_def bonus_def adx_points_def dadd_def dec.idem
      intro: dec.ge_fixed split: option.split)

lemma raises_comp: "raises f \<Longrightarrow> raises g \<Longrightarrow> raises (f \<circ> g)"
  unfolding raises_def comp_def by (meson order_trans)

lemma trend_score_range: "60 \<le> trend_score s b d x \<and> trend_score s b d x \<le> 100"
proof -
  let ?f = "points (is_vwap20 s) (\<lambda>v. if b then v \<le> x else x \<le> v) 5 \<circ>
    (bonus (is_supertrend_direction s = Some d) 5 \<circ> (adx_points (is_adx14 s) \<circ>
    (points (is_macd_histogram s) (\<lambda>v. if b then 0 < v else v < 0) 10 \<circ>
     points (is_rsi14 s) (\<lambda>v. if b then 50 \<le> v else v \<le> 50) 10)))"
  have "raises ?f" by (intro raises_comp raises_steps) simp_all
  moreover have "rnd 60 = 60" using rnd_of_int [of 60] by simp
  ultimately have "60 \<le> ?f 60" unfolding raises_def by blast
  then show ?thesis unfolding trend_score_def Let_def comp_def by linarith
qed

lemma analyze_trend_directional:
  assumes "tr_direction (analyze_trend cs) = d" "d = ''BULLISH'' \<or> d = ''BEARISH''"
  shows "60 \<le> tr_score (analyze_trend cs) \<and> tr_score (analyze_trend cs) \<le> 100"
  using assms trend_score_range by (auto simp: analyze_trend_def Let_def split: if_splits)

lemma analyze_trend_range:
  "0 \<le> tr_score (analyze_trend cs) \<and> tr_score (analyze_trend cs) \<le> 100"
  using trend_score_range [of "build_snapshot (ordered cs)"]
  by (auto simp: analyze_trend_def Let_def) (meson order_trans zero_le_numeral)+

subsection \<open>Swing structure\<close>

record swing_point =
  sp_kind :: string
  sp_timestamp :: datetime
  sp_price :: rat
  sp_index :: nat

record structure_break =
  sb_direction :: string
  sb_kind :: string
  sb_level :: rat
  sb_timestamp :: datetime

record advanced_structure =
  as_swing_highs :: "swing_point list"
  as_swing_lows :: "swing_point list"
  as_trend :: string
  as_structure :: string
  as_last_break :: "structure_break option"
  as_support :: "rat option"
  as_resistance :: "rat option"
  as_score :: rat

definition structure_validate :: "candle list \<Rightarrow> nat \<Rightarrow> candle list res" where
  "structure_validate cs pivot =
     guard (pivot < 1) (ValueError ''pivot must be >= 1'')
       (let os = ordered cs
        in guard (\<not> distinct (map (instant \<circ> cd_timestamp) os)) (ValueError ''duplicate candle timestamps'')
             (Inr os))"

text \<open>The pivots before and after position \<open>i\<close>: \<^verbatim>\<open>ordered[i - pivot:i]\<close> and \<^verbatim>\<open>ordered[i + 1:i + pivot + 1]\<close>.\<close>

definition left_of :: "candle list \<Rightarrow> nat \<Rightarrow> nat \<Rightarrow> candle list" where
  "left_of os pivot i = take pivot (drop (i - pivot) os)"

definition right_of :: "candle list \<Rightarrow> nat \<Rightarrow> nat \<Rightarrow> candle list" where
  "right_of os pivot i = take pivot (drop (i + 1) os)"

definition is_swing_high :: "candle list \<Rightarrow> nat \<Rightarrow> nat \<Rightarrow> bool" where
  "is_swing_high os pivot i \<longleftrightarrow>
     Max (set (map cd_high (left_of os pivot i))) < cd_high (os ! i) \<and>
     Max (set (map cd_high (right_of os pivot i))) \<le> cd_high (os ! i)"

definition is_swing_low :: "candle list \<Rightarrow> nat \<Rightarrow> nat \<Rightarrow> bool" where
  "is_swing_low os pivot i \<longleftrightarrow>
     cd_low (os ! i) < Min (set (map cd_low (left_of os pivot i))) \<and>
     cd_low (os ! i) \<le> Min (set (map cd_low (right_of os pivot i)))"

definition swings_of ::
  "string \<Rightarrow> (candle \<Rightarrow> rat) \<Rightarrow> (nat \<Rightarrow> bool) \<Rightarrow> candle list \<Rightarrow> nat list \<Rightarrow> swing_point list" where
  "swings_of kind price P os is =
     map (\<lambda>i. \<lparr>sp_kind = kind, sp_timestamp = cd_timestamp (os ! i), sp_price = price (os ! i),
              sp_index = i\<rparr>) (filter P is)"

definition detect_swings ::
  "candle list \<Rightarrow> nat \<Rightarrow> (swing_point list \<times> swing_point list) res" where
  "detect_swings cs pivot =
     res_bind (structure_validate cs pivot) (\<lambda>os.
       let is = [pivot ..< length os - pivot]
       in Inr (swings_of ''HIGH'' cd_high (is_swing_high os pivot) os is,
               swings_of ''LOW'' cd_low (is_swing_low os pivot) os is))"

text \<open>\<^verbatim>\<open>xs[-1]\<close> and \<^verbatim>\<open>xs[-2]\<close>, for lists the caller has checked.\<close>

definition last_price :: "swing_point list \<Rightarrow> rat" where
  "last_price xs = sp_price (last xs)"

definition previous_price :: "swing_point list \<Rightarrow> rat" where
  "previous_price xs = sp_price (xs ! (length xs - 2))"

definition sequence_trend :: "swing_point list \<Rightarrow> swing_point list \<Rightarrow> string" where
  "sequence_trend highs lows =
     (if length highs < 2 \<or> length lows < 2 then ''UNKNOWN''
      else if previous_price highs < last_price highs \<and> previous_price lows < last_price lows then ''BULLISH''
      else if last_price highs < previous_price highs \<and> last_price lows < previous_price lows then ''BEARISH''
      else ''TRANSITION'')"

definition classify_structure ::
  "string \<Rightarrow> rat \<Rightarrow> rat \<Rightarrow> rat \<Rightarrow> datetime \<Rightarrow> string \<times> structure_break option" where
  "classify_structure trend close high low ts =
     (if high < close then
        let kind = (if trend = ''BULLISH'' then ''BOS'' else ''CHOCH'')
        in (kind, Some \<lparr>sb_direction = ''UP'', sb_kind = kind, sb_level = high, sb_timestamp = ts\<rparr>)
      else if close < low then
        let kind = (if trend = ''BEARISH'' then ''BOS'' else ''CHOCH'')
        in (kind, Some \<lparr>sb_direction = ''DOWN'', sb_kind = kind, sb_level = low, sb_timestamp = ts\<rparr>)
      else if trend = ''BULLISH'' then (''HIGHER_HIGH_HIGHER_LOW'', None)
      else if trend = ''BEARISH'' then (''LOWER_HIGH_LOWER_LOW'', None)
      else (''TRANSITION'', None))"

definition structure_score :: "string \<Rightarrow> string \<Rightarrow> rat" where
  "structure_score structure trend =
     (if structure = ''BOS'' then 90 else if structure = ''CHOCH'' then 85
      else if trend = ''BULLISH'' \<or> trend = ''BEARISH'' then 70 else 50)"

definition analyze_advanced_structure :: "candle list \<Rightarrow> nat \<Rightarrow> advanced_structure res" where
  "analyze_advanced_structure cs pivot =
     res_bind (structure_validate cs pivot) (\<lambda>os.
     res_bind (detect_swings os pivot) (\<lambda>(highs, lows).
       let trend = sequence_trend highs lows
       in if highs = [] \<or> lows = [] then
            Inr \<lparr>as_swing_highs = highs, as_swing_lows = lows, as_trend = trend,
                 as_structure = ''UNKNOWN'', as_last_break = None,
                 as_support = (if lows = [] then None else Some (last_price lows)),
                 as_resistance = (if highs = [] then None else Some (last_price highs)),
                 as_score = 0\<rparr>
          else
            let lst = last os
            in case classify_structure trend (cd_close lst) (last_price highs) (last_price lows)
                 (cd_timestamp lst) of (structure, break_event) \<Rightarrow>
              Inr \<lparr>as_swing_highs = highs, as_swing_lows = lows, as_trend = trend,
                   as_structure = structure, as_last_break = break_event,
                   as_support = Some (last_price lows), as_resistance = Some (last_price highs),
                   as_score = structure_score structure trend\<rparr>))"

lemma ordered_idem: "ordered (ordered cs) = ordered cs"
  unfolding ordered_def by (rule sort_key_id_if_sorted) simp

lemma sorted_ordered: "sorted (map (instant \<circ> cd_timestamp) (ordered cs))"
  by (simp add: ordered_def comp_def)

text \<open>A detected swing dominates its window.\<close>

lemma detect_swings_high:
  assumes "detect_swings cs pivot = Inr (highs, lows)" "s \<in> set highs"
  shows "pivot \<le> sp_index s \<and> sp_index s + pivot < length cs \<and>
    sp_price s = cd_high (ordered cs ! sp_index s) \<and>
    (\<forall>c \<in> set (left_of (ordered cs) pivot (sp_index s)). cd_high c < sp_price s) \<and>
    (\<forall>c \<in> set (right_of (ordered cs) pivot (sp_index s)). cd_high c \<le> sp_price s)"
proof -
  from assms have "sp_index s \<in> {pivot ..< length cs - pivot}"
    and sw: "is_swing_high (ordered cs) pivot (sp_index s)"
    and pr: "sp_price s = cd_high (ordered cs ! sp_index s)"
    by (auto simp: detect_swings_def structure_validate_def guard_simps Let_def swings_of_def ordered_def)
  then have i: "pivot \<le> sp_index s" "sp_index s + pivot < length cs" by auto
  then show ?thesis using sw pr
    by (auto simp: is_swing_high_def Max_less_iff Max_le_iff dest: less_le_trans)
       (metis (no_types, lifting) List.finite_set Max_ge image_eqI le_less_trans list.set_map,
        metis (no_types, lifting) List.finite_set Max_ge image_eqI order_trans list.set_map)
qed

lemma analyze_advanced_score:
  assumes "analyze_advanced_structure cs pivot = Inr r"
  shows "as_score r \<in> {0, 50, 70, 85, 90}"
proof -
  have "as_score r = 0 \<or> (\<exists>a b. as_score r = structure_score a b)"
    using assms unfolding analyze_advanced_structure_def res_bind_Inr_iff
    by (auto simp: guard_simps Let_def split: if_split_asm prod.split_asm) blast
  moreover have "structure_score a b \<in> {50, 70, 85, 90}" for a b
    by (simp add: structure_score_def)
  ultimately show ?thesis by (metis insert_iff)
qed

lemma structure_validate_total:
  "1 \<le> pivot \<Longrightarrow> distinct (map (instant \<circ> cd_timestamp) cs) \<Longrightarrow>
     structure_validate cs pivot = Inr (ordered cs)"
  by (auto simp: structure_validate_def guard_def Let_def ordered_def distinct_map)

lemma analyze_advanced_total:
  assumes "1 \<le> pivot" "distinct (map (instant \<circ> cd_timestamp) cs)"
  shows "\<exists>r. analyze_advanced_structure cs pivot = Inr r"
proof -
  have "distinct (map (instant \<circ> cd_timestamp) (ordered cs))"
    using assms(2) by (simp add: ordered_def distinct_map)
  then show ?thesis using assms
    by (auto simp: analyze_advanced_structure_def detect_swings_def structure_validate_total
        ordered_idem Let_def split: prod.splits)
qed

subsection \<open>Structure state\<close>

record structure_result =
  st_state :: string
  st_support :: "rat option"
  st_resistance :: "rat option"
  st_score :: rat

definition break_is_up :: "structure_break option \<Rightarrow> bool" where
  "break_is_up b = opt_agrees (\<lambda>x. sb_direction x = ''UP'') b"

definition structure_state :: "advanced_structure \<Rightarrow> rat \<Rightarrow> string" where
  "structure_state r lst =
     (if as_structure r = ''BOS'' then
        (if break_is_up (as_last_break r) then ''BREAKOUT_UP'' else ''BREAKOUT_DOWN'')
      else if as_structure r = ''CHOCH'' then
        (if break_is_up (as_last_break r) then ''CHOCH_UP'' else ''CHOCH_DOWN'')
      else if opt_agrees (\<lambda>v. lst \<le> dmul v (1005 / 1000)) (as_support r) then ''NEAR_SUPPORT''
      else if opt_agrees (\<lambda>v. dmul v (995 / 1000) \<le> lst) (as_resistance r) then ''NEAR_RESISTANCE''
      else if as_trend r = ''BULLISH'' then ''BULLISH_STRUCTURE''
      else if as_trend r = ''BEARISH'' then ''BEARISH_STRUCTURE''
      else if as_trend r = ''TRANSITION'' then ''TRANSITION''
      else ''RANGE'')"

definition analyze_structure :: "candle list \<Rightarrow> nat \<Rightarrow> structure_result res" where
  "analyze_structure cs lookback =
     guard (lookback < 3) (ValueError ''lookback must be >= 3'')
       (let os = ordered cs
        in if length os < lookback then
             Inr \<lparr>st_state = ''UNKNOWN'', st_support = None, st_resistance = None, st_score = 0\<rparr>
           else
             res_bind (analyze_advanced_structure (last_n lookback os) (max 1 (min 2 (lookback div 4))))
               (\<lambda>r. Inr \<lparr>st_state = structure_state r (cd_close (last os)), st_support = as_support r,
                       st_resistance = as_resistance r, st_score = as_score r\<rparr>))"

subsection \<open>Regime and liquidity\<close>

record regime_result =
  rg_regime :: string
  rg_volatility :: string
  rg_score :: rat

definition volatility_of :: "rat \<Rightarrow> string" where
  "volatility_of avg_range =
     (if 3 / 100 \<le> avg_range then ''HIGH'' else if avg_range \<le> 1 / 100 then ''LOW'' else ''NORMAL'')"

definition classify_regime :: "candle list \<Rightarrow> trend_result \<Rightarrow> regime_result" where
  "classify_regime cs trend =
     (let os = ordered cs
      in if os = [] \<or> tr_direction trend = ''UNKNOWN'' then
           \<lparr>rg_regime = ''UNKNOWN'', rg_volatility = ''UNKNOWN'', rg_score = 0\<rparr>
         else
           let ranges = map (\<lambda>c. ddiv (dsub (cd_high c) (cd_low c)) (cd_close c))
                          (filter (\<lambda>c. 0 < cd_close c) (last_n 20 os));
               avg_range = (if ranges = [] then 0 else mean ranges (length ranges));
               volatility = volatility_of avg_range;
               regime = (if tr_direction trend = ''BULLISH'' then ''TRENDING_BULL''
                         else if tr_direction trend = ''BEARISH'' then ''TRENDING_BEAR'' else ''RANGING'');
               score = (if volatility = ''HIGH'' then max 0 (dsub (tr_score trend) 10) else tr_score trend)
           in \<lparr>rg_regime = regime, rg_volatility = volatility, rg_score = score\<rparr>)"

record liquidity_result =
  lq_average_volume :: "rat option"
  lq_latest_volume :: "rat option"
  lq_volume_ratio :: "rat option"
  lq_score :: rat

text \<open>\<^verbatim>\<open>ordered[-period - 1:-1]\<close> is the window before the latest candle.\<close>

definition analyze_liquidity :: "candle list \<Rightarrow> nat \<Rightarrow> liquidity_result" where
  "analyze_liquidity cs period =
     (let os = ordered cs
      in if length os < period + 1 then
           \<lparr>lq_average_volume = None, lq_latest_volume = None, lq_volume_ratio = None, lq_score = 0\<rparr>
         else
           let baseline = mean (map cd_volume (butlast (last_n (period + 1) os))) period;
               latest = cd_volume (last os)
           in if baseline \<le> 0 then
                \<lparr>lq_average_volume = Some baseline, lq_latest_volume = Some latest,
                 lq_volume_ratio = None, lq_score = 0\<rparr>
              else
                let ratio = ddiv latest baseline
                in \<lparr>lq_average_volume = Some baseline, lq_latest_volume = Some latest,
                    lq_volume_ratio = Some ratio, lq_score = min 100 (dmul ratio 50)\<rparr>)"

lemma analyze_liquidity_range:
  "\<forall>c \<in> set cs. 0 \<le> cd_volume c \<Longrightarrow>
     0 \<le> lq_score (analyze_liquidity cs n) \<and> lq_score (analyze_liquidity cs n) \<le> 100"
proof -
  assume v: "\<forall>c \<in> set cs. 0 \<le> cd_volume c"
  have "0 \<le> cd_volume (last (ordered cs))" if "\<not> length (ordered cs) < Suc n"
    using that v by (metis last_in_set list.size(3) set_ordered zero_less_Suc)
  then show ?thesis by (auto simp: analyze_liquidity_def Let_def zero_le_divide_iff)
qed

lemma structure_state_cases:
  "structure_state r x \<in> {''BREAKOUT_UP'', ''BREAKOUT_DOWN'', ''CHOCH_UP'', ''CHOCH_DOWN'',
     ''NEAR_SUPPORT'', ''NEAR_RESISTANCE'', ''BULLISH_STRUCTURE'', ''BEARISH_STRUCTURE'',
     ''TRANSITION'', ''RANGE''}"
  by (simp add: structure_state_def)

lemma analyze_structure_score:
  "analyze_structure cs n = Inr r \<Longrightarrow> 0 \<le> st_score r \<and> st_score r \<le> 100"
  using analyze_advanced_score
  by (fastforce simp: analyze_structure_def guard_simps Let_def split: if_splits)

lemma analyze_structure_total:
  assumes "3 \<le> n" "distinct (map (instant \<circ> cd_timestamp) cs)"
  shows "\<exists>r. analyze_structure cs n = Inr r"
proof -
  have "distinct (map (instant \<circ> cd_timestamp) (last_n n (ordered cs)))"
    using assms(2) by (simp add: last_n_def drop_map [symmetric] distinct_drop ordered_def distinct_map
        inj_on_def)
  then obtain r where "analyze_advanced_structure (last_n n (ordered cs)) (max 1 (min 2 (n div 4))) = Inr r"
    using analyze_advanced_total [of "max 1 (min 2 (n div 4))"] by auto
  then show ?thesis using assms(1) by (auto simp: analyze_structure_def guard_def Let_def)
qed

subsection \<open>The market snapshot\<close>

record market_snapshot =
  mk_symbol :: string
  mk_timeframe :: string
  mk_indicators :: indicator_snapshot
  mk_trend :: trend_result
  mk_structure :: structure_result
  mk_regime :: regime_result
  mk_liquidity :: liquidity_result
  mk_score :: rat
  mk_advanced :: "advanced_structure option"

definition analyze_market :: "string \<Rightarrow> string \<Rightarrow> candle list \<Rightarrow> market_snapshot res" where
  "analyze_market symbol timeframe cs =
     (let trend = analyze_trend cs
      in res_bind (analyze_structure cs 20) (\<lambda>structure.
         res_bind (analyze_advanced_structure cs 2) (\<lambda>advanced.
           let liquidity = analyze_liquidity cs 20
           in Inr \<lparr>mk_symbol = symbol, mk_timeframe = timeframe, mk_indicators = build_snapshot cs,
                  mk_trend = trend, mk_structure = structure, mk_regime = classify_regime cs trend,
                  mk_liquidity = liquidity,
                  mk_score = ddiv (dadd (dadd (tr_score trend) (as_score advanced)) (lq_score liquidity)) 3,
                  mk_advanced = Some advanced\<rparr>)))"

text \<open>What a snapshot computed from candles guarantees to the strategy.\<close>

definition snapshot_ok :: "market_snapshot \<Rightarrow> bool" where
  "snapshot_ok m \<longleftrightarrow>
     0 \<le> tr_score (mk_trend m) \<and> tr_score (mk_trend m) \<le> 100 \<and>
     0 \<le> st_score (mk_structure m) \<and> st_score (mk_structure m) \<le> 100 \<and>
     (\<forall>a. mk_advanced m = Some a \<longrightarrow> 0 \<le> as_score a \<and> as_score a \<le> 100)"

lemma analyze_market_ok: "analyze_market s t cs = Inr m \<Longrightarrow> snapshot_ok m"
  using analyze_trend_range [of cs] analyze_structure_score [of cs 20] analyze_advanced_score [of cs 2]
  by (auto simp: analyze_market_def guard_simps Let_def snapshot_ok_def)

lemma analyze_market_total:
  assumes "distinct (map (instant \<circ> cd_timestamp) cs)"
  shows "\<exists>m. analyze_market s t cs = Inr m"
  using analyze_structure_total [of 20 cs] analyze_advanced_total [of 2 cs] assms
  by (auto simp: analyze_market_def Let_def)

end
