(* ===== verification/Strategy.thy ===== *)
theory Strategy
  imports Market_Analysis
begin

section \<open>The strategy layer\<close>

text \<open>
  \<^verbatim>\<open>app/strategy/\<close>: risk/reward, the score and confidence of an opportunity, the evidence built from
  four timeframes, and the strategy engine that turns snapshots into a signal or an error.
\<close>

subsection \<open>Risk and reward\<close>

record risk_reward =
  rr_entry :: rat
  rr_stop_loss :: rat
  rr_target :: rat
  rr_ratio :: rat

definition calculate_risk_reward :: "rat \<Rightarrow> rat \<Rightarrow> rat \<Rightarrow> string \<Rightarrow> risk_reward res" where
  "calculate_risk_reward entry stop_loss target direction =
     (if direction = ''LONG'' \<or> direction = ''SHORT'' then
        let (risk, reward) =
              (if direction = ''LONG'' then (dsub entry stop_loss, dsub target entry)
               else (dsub stop_loss entry, dsub entry target))
        in guard (risk \<le> 0 \<or> reward \<le> 0)
             (ValueError ''entry, stop loss and target are directionally invalid'')
             (Inr \<lparr>rr_entry = entry, rr_stop_loss = stop_loss, rr_target = target,
                   rr_ratio = ddiv reward risk\<rparr>)
      else Inl (ValueError ''direction must be LONG or SHORT''))"

lemma risk_reward_Inr_iff:
  "(\<exists>r. calculate_risk_reward e s t d = Inr r) \<longleftrightarrow>
     (d = ''LONG'' \<and> s < e \<and> e < t) \<or> (d = ''SHORT'' \<and> e < s \<and> t < e)"
  by (auto simp: calculate_risk_reward_def guard_simps)

lemma risk_reward_ratio_pos: "calculate_risk_reward e s t d = Inr r \<Longrightarrow> 0 < rr_ratio r"
  by (auto simp: calculate_risk_reward_def guard_simps split: if_splits)

subsection \<open>Score and confidence\<close>

record strategy_rules =
  sr_min_rr :: rat
  sr_min_score :: rat
  sr_min_confidence :: rat

definition default_rules :: strategy_rules where
  "default_rules = \<lparr>sr_min_rr = 5 / 2, sr_min_score = 90, sr_min_confidence = 90\<rparr>"

record score_breakdown =
  sc_htf_trend :: rat
  sc_structure :: rat
  sc_setup :: rat
  sc_confirmation :: rat
  sc_liquidity :: rat
  sc_volatility :: rat
  sc_rr_quality :: rat

definition score_values :: "score_breakdown \<Rightarrow> rat list" where
  "score_values b = [sc_htf_trend b, sc_structure b, sc_setup b, sc_confirmation b, sc_liquidity b,
     sc_volatility b, sc_rr_quality b]"

definition score_total :: "score_breakdown \<Rightarrow> rat" where
  "score_total b = min 100 (dsum (score_values b))"

definition score_weights :: "rat list" where
  "score_weights = [20, 15, 25, 15, 10, 5, 10]"

definition score_opportunity :: "score_breakdown \<Rightarrow> score_breakdown res" where
  "score_opportunity b =
     guard (\<exists>(v, w) \<in> set (zip (score_values b) score_weights). v < 0 \<or> w < v)
       (ValueError ''score component exceeds its allocated weight'') (Inr b)"

record confidence_result =
  cf_value :: rat
  cf_reasons :: "string list"

definition calculate_confidence :: "rat \<Rightarrow> rat \<Rightarrow> rat \<Rightarrow> rat \<Rightarrow> confidence_result res" where
  "calculate_confidence data_quality htf_alignment structure_quality confirmation_quality =
     guard (\<exists>v \<in> set [data_quality, htf_alignment, structure_quality, confirmation_quality]. v < 0 \<or> 100 < v)
       (ValueError ''confidence inputs must be between 0 and 100'')
       (let v = dadd (dadd (dadd (dmul data_quality (30 / 100)) (dmul htf_alignment (25 / 100)))
                  (dmul structure_quality (20 / 100))) (dmul confirmation_quality (25 / 100))
        in Inr \<lparr>cf_value = min 100 v,
                cf_reasons = map fst (filter (\<lambda>(n, q). 90 \<le> q)
                  [(''DATA'', data_quality), (''HTF'', htf_alignment), (''STRUCTURE'', structure_quality),
                   (''CONFIRMATION'', confirmation_quality)])\<rparr>)"

lemma confidence_total_iff:
  "(\<exists>c. calculate_confidence a b c' d = Inr c) \<longleftrightarrow>
     (\<forall>v \<in> {a, b, c', d}. 0 \<le> v \<and> v \<le> 100)"
  by (auto simp: calculate_confidence_def guard_simps Let_def not_less)

lemma confidence_range:
  assumes "calculate_confidence a b c d = Inr r"
  shows "0 \<le> cf_value r \<and> cf_value r \<le> 100"
proof -
  have "0 \<le> a" "0 \<le> b" "0 \<le> c" "0 \<le> d"
    using assms by (auto simp: calculate_confidence_def guard_simps)
  then have "0 \<le> dadd (dadd (dadd (dmul a (30 / 100)) (dmul b (25 / 100))) (dmul c (20 / 100))) (dmul d (25 / 100))"
    by (simp add: dadd_signs add_nonneg_nonneg)
  then show ?thesis using assms
    by (auto simp: calculate_confidence_def guard_simps Let_def)
qed

text \<open>Weakening one input never raises the confidence.\<close>

lemma confidence_mono:
  assumes "calculate_confidence a b c d = Inr r" "calculate_confidence a' b' c' d' = Inr r'"
    and "a \<le> a'" "b \<le> b'" "c \<le> c'" "d \<le> d'"
  shows "cf_value r \<le> cf_value r'"
proof -
  have "dadd (dadd (dadd (dmul a (30 / 100)) (dmul b (25 / 100))) (dmul c (20 / 100))) (dmul d (25 / 100))
      \<le> dadd (dadd (dadd (dmul a' (30 / 100)) (dmul b' (25 / 100))) (dmul c' (20 / 100))) (dmul d' (25 / 100))"
    using assms(3-6) by (intro dadd_mono dmul_mono_right) auto
  then show ?thesis using assms(1,2)
    by (auto simp: calculate_confidence_def guard_simps Let_def)
qed

subsection \<open>Evidence\<close>

definition clamp :: "rat \<Rightarrow> rat" where
  "clamp v = max 0 (min 100 v)"

definition weighted :: "rat \<Rightarrow> rat \<Rightarrow> rat" where
  "weighted quality weight = ddiv (dmul (clamp quality) weight) 100"

lemma clamp_range [simp]: "0 \<le> clamp v" "clamp v \<le> 100"
  by (auto simp: clamp_def)

lemma weighted_range:
  assumes "0 \<le> w" "rnd w = w"
  shows "0 \<le> weighted q w \<and> weighted q w \<le> w"
proof -
  have "clamp q * w \<le> 100 * w" using assms(1) by (intro mult_right_mono) simp_all
  then have "dmul (clamp q) w \<le> 100 * w"
    unfolding dmul_def by (rule dec.le_fixed) (simp add: rnd_hundred assms(2))
  then have "dmul (clamp q) w / 100 \<le> w" by simp
  then have "weighted q w \<le> w" unfolding weighted_def ddiv_def by (rule dec.le_fixed) (rule assms(2))
  moreover have "0 \<le> weighted q w" using assms(1) by (simp add: weighted_def)
  ultimately show ?thesis by simp
qed

record strategy_evidence =
  ev_data_quality :: rat
  ev_htf_alignment_quality :: rat
  ev_structure_quality :: rat
  ev_setup_quality :: rat
  ev_confirmation_quality :: rat
  ev_liquidity_quality :: rat
  ev_volatility_quality :: rat
  ev_rr_quality :: rat
  ev_score_breakdown :: score_breakdown
  ev_market_regime :: string
  ev_structure_state :: string
  ev_htf_trend :: string

definition present :: "'a option \<Rightarrow> nat" where
  "present x = (if x = None then 0 else 1)"

definition indicator_completeness :: "market_snapshot \<Rightarrow> rat" where
  "indicator_completeness m =
     (let i = mk_indicators m;
          base = [is_ema20 i, is_ema50 i, is_ema200 i, is_rsi14 i, is_atr14 i, is_volume_sma20 i];
          base_count = sum_list (map present base);
          quality = (if base_count = length base then 95
                     else dmul (ddiv (of_nat base_count) (of_nat (length base))) 90);
          extended_count = present (is_macd_histogram i) + present (is_adx14 i) +
            present (is_supertrend_direction i) + present (is_vwap20 i) + present (is_bollinger_middle i);
          quality = dadd quality (dmul (ddiv (of_nat extended_count) 5) 5)
      in clamp quality)"

definition data_quality :: "market_snapshot list \<Rightarrow> rat" where
  "data_quality ms = ddiv (dsum (map indicator_completeness ms)) (of_nat (length ms))"

definition htf_alignment :: "market_snapshot \<Rightarrow> market_snapshot \<Rightarrow> rat" where
  "htf_alignment daily four_hour =
     (if tr_direction (mk_trend daily) \<noteq> tr_direction (mk_trend four_hour) then 0
      else if tr_direction (mk_trend daily) \<notin> {''BULLISH'', ''BEARISH''} then 0
      else clamp (ddiv (dadd (tr_score (mk_trend daily)) (tr_score (mk_trend four_hour))) 2))"

definition startswith :: "string \<Rightarrow> string \<Rightarrow> bool" where
  "startswith s prefix \<longleftrightarrow> take (length prefix) s = prefix"

definition structure_quality :: "market_snapshot \<Rightarrow> market_snapshot \<Rightarrow> rat" where
  "structure_quality four_hour one_hour =
     (let quality = dadd (dmul (st_score (mk_structure four_hour)) (65 / 100))
                      (dmul (st_score (mk_structure one_hour)) (35 / 100));
          quality = (case mk_advanced four_hour of None \<Rightarrow> quality | Some a \<Rightarrow> max quality (as_score a));
          quality = (if startswith (st_state (mk_structure four_hour)) ''BREAKOUT'' then dadd quality 5
                     else if startswith (st_state (mk_structure four_hour)) ''CHOCH'' then dadd quality 2
                     else quality)
      in clamp quality)"

definition expected_trend :: "string \<Rightarrow> string" where
  "expected_trend direction = (if direction = ''LONG'' then ''BULLISH'' else ''BEARISH'')"

definition setup_quality ::
  "string \<Rightarrow> string \<Rightarrow> market_snapshot \<Rightarrow> market_snapshot \<Rightarrow> market_snapshot \<Rightarrow> rat" where
  "setup_quality setup direction four_hour one_hour fifteen =
     (let expected = expected_trend direction
      in if setup = ''BREAKOUT_RETEST'' then
           clamp (bonus (direction = ''SHORT'' \<and> st_state (mk_structure four_hour) = ''BREAKOUT_DOWN'') 5
             (bonus (direction = ''LONG'' \<and> st_state (mk_structure four_hour) = ''BREAKOUT_UP'') 5 90))
         else if setup = ''TREND_PULLBACK'' then
           clamp (bonus (tr_direction (mk_trend one_hour) = expected) 3
             (bonus (st_state (mk_structure one_hour) =
               (if direction = ''LONG'' then ''NEAR_SUPPORT'' else ''NEAR_RESISTANCE'')) 5 90))
         else if setup = ''CONTINUATION'' then
           clamp (dadd 74 (dmul (of_nat (length (filter (\<lambda>m. tr_direction (mk_trend m) = expected)
             [four_hour, one_hour, fifteen]))) 7))
         else 0)"

definition confirmation_quality :: "market_snapshot \<Rightarrow> string \<Rightarrow> rat" where
  "confirmation_quality fifteen direction =
     (let expected = expected_trend direction; bullish = (direction = ''LONG'');
          i = mk_indicators fifteen;
          q1 = (if tr_direction (mk_trend fifteen) = expected
                then bonus (85 \<le> tr_score (mk_trend fifteen)) 10 (dadd 0 60) else 0);
          q2 = points (is_rsi14 i) (\<lambda>v. if bullish then 50 \<le> v else v \<le> 50) 8 q1;
          q3 = points (is_macd_histogram i) (\<lambda>v. if bullish then 0 < v else v < 0) 8 q2;
          q4 = bonus (is_supertrend_direction i = Some expected) 6 q3;
          q5 = (case (is_vwap20 i, is_ema20 i) of
                  (Some v, Some e) \<Rightarrow> bonus (if bullish then v \<le> e else e \<le> v) 4 q4
                | _ \<Rightarrow> q4);
          q6 = points (lq_volume_ratio (mk_liquidity fifteen)) (\<lambda>v. 1 \<le> v) 4 q5
      in clamp q6)"

definition volatility_quality :: "market_snapshot \<Rightarrow> rat" where
  "volatility_quality m =
     (let v = rg_volatility (mk_regime m)
      in if v = ''NORMAL'' then 100 else if v = ''LOW'' then 75 else if v = ''HIGH'' then 50 else 25)"

definition rr_quality :: "rat \<Rightarrow> rat" where
  "rr_quality rr =
     (if 3 \<le> rr then 100 else if 275 / 100 \<le> rr then 90 else if 5 / 2 \<le> rr then 80
      else if 2 \<le> rr then 50 else 0)"

text \<open>
  The textual \<^verbatim>\<open>reasons\<close> of the evidence (each quality formatted with two decimals) are left out: no
  decision reads them.
\<close>

definition build_strategy_evidence ::
  "market_snapshot \<Rightarrow> market_snapshot \<Rightarrow> market_snapshot \<Rightarrow> market_snapshot \<Rightarrow> string \<Rightarrow> string \<Rightarrow> rat
    \<Rightarrow> strategy_evidence res" where
  "build_strategy_evidence daily four_hour one_hour fifteen setup direction rr =
     (let dq = data_quality [daily, four_hour, one_hour, fifteen];
          hq = htf_alignment daily four_hour;
          sq = structure_quality four_hour one_hour;
          uq = setup_quality setup direction four_hour one_hour fifteen;
          cq = confirmation_quality fifteen direction;
          lq = clamp (lq_score (mk_liquidity fifteen));
          vq = volatility_quality fifteen;
          rq = rr_quality rr
      in res_bind (score_opportunity \<lparr>sc_htf_trend = weighted hq 20, sc_structure = weighted sq 15,
             sc_setup = weighted uq 25, sc_confirmation = weighted cq 15, sc_liquidity = weighted lq 10,
             sc_volatility = weighted vq 5, sc_rr_quality = weighted rq 10\<rparr>)
           (\<lambda>b. Inr \<lparr>ev_data_quality = dq, ev_htf_alignment_quality = hq, ev_structure_quality = sq,
             ev_setup_quality = uq, ev_confirmation_quality = cq, ev_liquidity_quality = lq,
             ev_volatility_quality = vq, ev_rr_quality = rq, ev_score_breakdown = b,
             ev_market_regime = rg_regime (mk_regime fifteen),
             ev_structure_state = st_state (mk_structure four_hour),
             ev_htf_trend = tr_direction (mk_trend daily)\<rparr>))"

lemma score_guard_never_trips:
  "score_opportunity \<lparr>sc_htf_trend = weighted a 20, sc_structure = weighted b 15,
     sc_setup = weighted c 25, sc_confirmation = weighted d 15, sc_liquidity = weighted e 10,
     sc_volatility = weighted f 5, sc_rr_quality = weighted g 10\<rparr> = Inr \<lparr>sc_htf_trend = weighted a 20, sc_structure = weighted b 15,
     sc_setup = weighted c 25, sc_confirmation = weighted d 15, sc_liquidity = weighted e 10,
     sc_volatility = weighted f 5, sc_rr_quality = weighted g 10\<rparr>"
proof -
  have "rnd (of_int n) = of_int n" if "n \<in> {5, 10, 15, 20, 25}" for n
    using that by (intro rnd_of_int) auto
  from this [of 5] this [of 10] this [of 15] this [of 20] this [of 25]
  have "rnd 5 = 5" "rnd 10 = 10" "rnd 15 = 15" "rnd 20 = 20" "rnd 25 = 25" by simp_all
  then show ?thesis
    using weighted_range [of 5] weighted_range [of 10] weighted_range [of 15] weighted_range [of 20]
      weighted_range [of 25]
    by (simp add: score_opportunity_def score_values_def score_weights_def guard_def not_less)
qed

lemma build_strategy_evidence_total:
  "\<exists>ev. build_strategy_evidence daily four_hour one_hour fifteen setup direction rr = Inr ev"
  by (simp add: build_strategy_evidence_def Let_def score_guard_never_trips)

lemma indicator_completeness_range [simp]:
  "0 \<le> indicator_completeness m" "indicator_completeness m \<le> 100"
  by (simp_all add: indicator_completeness_def Let_def)

lemma data_quality_range:
  "0 \<le> data_quality [a, b, c, d] \<and> data_quality [a, b, c, d] \<le> 100"
proof -
  have r: "rnd 200 = 200" "rnd 300 = 300" "rnd 400 = 400"
    using rnd_of_int [of 200] rnd_of_int [of 300] rnd_of_int [of 400] by simp_all
  have "dsum (map indicator_completeness [a, b, c, d]) \<le> dsum [100, 100, 100, 100]"
    by (rule dsum_mono) simp
  also have "dsum [100, 100, 100, 100] = 400" by (simp add: dsum_def dadd_def r)
  finally have "data_quality [a, b, c, d] \<le> ddiv 400 4"
    unfolding data_quality_def by (simp add: ddiv_mono)
  moreover have "0 \<le> dsum (map indicator_completeness [a, b, c, d])" by (rule dsum_nonneg) simp
  ultimately show ?thesis by (simp add: data_quality_def ddiv_def dec.nonneg_iff)
qed

lemma evidence_qualities:
  assumes "build_strategy_evidence d f h q s dir rr = Inr ev"
  shows "0 \<le> ev_data_quality ev \<and> ev_data_quality ev \<le> 100"
    and "0 \<le> ev_htf_alignment_quality ev \<and> ev_htf_alignment_quality ev \<le> 100"
    and "0 \<le> ev_structure_quality ev \<and> ev_structure_quality ev \<le> 100"
    and "0 \<le> ev_confirmation_quality ev \<and> ev_confirmation_quality ev \<le> 100"
proof -
  have ev: "ev_data_quality ev = data_quality [d, f, h, q]" "ev_htf_alignment_quality ev = htf_alignment d f"
    "ev_structure_quality ev = structure_quality f h" "ev_confirmation_quality ev = confirmation_quality q dir"
    using assms by (auto simp: build_strategy_evidence_def Let_def score_guard_never_trips)
  show "0 \<le> ev_data_quality ev \<and> ev_data_quality ev \<le> 100" unfolding ev by (rule data_quality_range)
  show "0 \<le> ev_htf_alignment_quality ev \<and> ev_htf_alignment_quality ev \<le> 100"
    unfolding ev by (simp add: htf_alignment_def)
  show "0 \<le> ev_structure_quality ev \<and> ev_structure_quality ev \<le> 100"
    unfolding ev by (simp add: structure_quality_def Let_def)
  show "0 \<le> ev_confirmation_quality ev \<and> ev_confirmation_quality ev \<le> 100"
    unfolding ev by (simp add: confirmation_quality_def Let_def)
qed

subsection \<open>The strategy engine\<close>

datatype strategy_state =
    NO_TRADE | WAIT | SETUP_DETECTED | SIGNAL_GENERATED | READY_FOR_RISK_REVIEW | STRATEGY_REJECTED

record strategy_signal =
  sg_symbol :: string
  sg_direction :: string
  sg_setup :: string
  sg_state :: strategy_state
  sg_entry :: rat
  sg_stop_loss :: rat
  sg_target :: rat
  sg_rr :: rat
  sg_score :: rat
  sg_confidence :: rat
  sg_score_breakdown :: score_breakdown
  sg_confidence_result :: confidence_result
  sg_reasons :: "string list"
  sg_evidence :: "strategy_evidence option"
  sg_stop_loss_source :: string
  sg_stop_loss_buffer :: rat

definition direction_of :: "market_snapshot \<Rightarrow> market_snapshot \<Rightarrow> string option" where
  "direction_of daily four_hour =
     (if tr_direction (mk_trend daily) \<noteq> tr_direction (mk_trend four_hour) then None
      else if tr_direction (mk_trend daily) \<notin> {''BULLISH'', ''BEARISH''} then None
      else Some (if tr_direction (mk_trend daily) = ''BULLISH'' then ''LONG'' else ''SHORT''))"

text \<open>\<^verbatim>\<open>a or b\<close> on optional numbers: zero is falsy.\<close>

definition py_or :: "rat option \<Rightarrow> rat option \<Rightarrow> rat option" where
  "py_or a b = (case a of None \<Rightarrow> b | Some v \<Rightarrow> if v = 0 then b else Some v)"

text \<open>The last swing of the advanced structure, when there is one.\<close>

definition last_swing :: "(advanced_structure \<Rightarrow> swing_point list) \<Rightarrow> market_snapshot \<Rightarrow> rat option" where
  "last_swing side m = (case mk_advanced m of None \<Rightarrow> None
     | Some a \<Rightarrow> if side a = [] then None else Some (last_price (side a)))"

definition support_level :: "market_snapshot \<Rightarrow> rat option" where
  "support_level m = (case last_swing as_swing_lows m of None \<Rightarrow> st_support (mk_structure m) | x \<Rightarrow> x)"

definition resistance_level :: "market_snapshot \<Rightarrow> rat option" where
  "resistance_level m = (case last_swing as_swing_highs m of None \<Rightarrow> st_resistance (mk_structure m) | x \<Rightarrow> x)"

definition long_levels :: "rat \<Rightarrow> rat \<Rightarrow> rat \<Rightarrow> (rat \<times> rat \<times> rat) option" where
  "long_levels entry support buffer =
     (let stop = dsub support buffer
      in if stop \<le> 0 then None
         else let risk = dsub entry stop in Some (entry, stop, dadd entry (dmul risk (5 / 2))))"

definition short_levels :: "rat \<Rightarrow> rat \<Rightarrow> rat \<Rightarrow> (rat \<times> rat \<times> rat) option" where
  "short_levels entry resistance buffer =
     (let stop = dadd resistance buffer;
          risk = dsub stop entry;
          target = dsub entry (dmul risk (5 / 2))
      in if target \<le> 0 then None else Some (entry, stop, target))"

definition levels ::
  "market_snapshot \<Rightarrow> market_snapshot \<Rightarrow> market_snapshot \<Rightarrow> string \<Rightarrow> (rat \<times> rat \<times> rat) option" where
  "levels four_hour one_hour fifteen direction =
     (let buffer = dmul (case py_or (is_atr14 (mk_indicators four_hour)) (Some 0) of None \<Rightarrow> 0 | Some v \<Rightarrow> v) (25 / 100)
      in case (py_or (is_ema20 (mk_indicators fifteen)) (is_ema20 (mk_indicators one_hour)),
               support_level four_hour, resistance_level four_hour) of
           (Some entry, Some support, Some resistance) \<Rightarrow>
             if entry \<le> support \<or> resistance \<le> entry then None
             else if direction = ''LONG'' then long_levels entry support buffer
             else short_levels entry resistance buffer
         | _ \<Rightarrow> None)"

definition detect_setup ::
  "market_snapshot \<Rightarrow> market_snapshot \<Rightarrow> market_snapshot \<Rightarrow> string \<Rightarrow> string option" where
  "detect_setup four_hour one_hour fifteen direction =
     (let four_state = st_state (mk_structure four_hour);
          one_state = st_state (mk_structure one_hour);
          four_trend = tr_direction (mk_trend four_hour);
          one_trend = tr_direction (mk_trend one_hour);
          fifteen_trend = tr_direction (mk_trend fifteen)
      in if direction = ''LONG'' then
           (if four_state = ''BREAKOUT_UP'' \<and> one_state = ''NEAR_RESISTANCE'' then Some ''BREAKOUT_RETEST''
            else if one_trend = ''BULLISH'' \<and> one_state = ''NEAR_SUPPORT'' then Some ''TREND_PULLBACK''
            else if four_trend = ''BULLISH'' \<and> one_trend = ''BULLISH'' \<and> fifteen_trend = ''BULLISH''
              then Some ''CONTINUATION'' else None)
         else
           (if four_state = ''BREAKOUT_DOWN'' \<and> one_state = ''NEAR_SUPPORT'' then Some ''BREAKOUT_RETEST''
            else if one_trend = ''BEARISH'' \<and> one_state = ''NEAR_RESISTANCE'' then Some ''TREND_PULLBACK''
            else if four_trend = ''BEARISH'' \<and> one_trend = ''BEARISH'' \<and> fifteen_trend = ''BEARISH''
              then Some ''CONTINUATION'' else None))"

definition structural_level :: "market_snapshot \<Rightarrow> string \<Rightarrow> rat option" where
  "structural_level four_hour direction =
     (if direction = ''LONG'' \<and> last_swing as_swing_lows four_hour \<noteq> None then last_swing as_swing_lows four_hour
      else if direction = ''SHORT'' \<and> last_swing as_swing_highs four_hour \<noteq> None
        then last_swing as_swing_highs four_hour
      else if direction = ''LONG'' then st_support (mk_structure four_hour)
      else st_resistance (mk_structure four_hour))"

definition gate_reasons :: "strategy_rules \<Rightarrow> rat \<Rightarrow> rat \<Rightarrow> rat \<Rightarrow> string list" where
  "gate_reasons rules rr score confidence =
     (if rr < sr_min_rr rules then [''R:R below minimum''] else []) @
     (if score < sr_min_score rules then [''score below minimum''] else []) @
     (if confidence < sr_min_confidence rules then [''confidence below minimum''] else [])"

definition evaluate_strategy ::
  "market_snapshot \<Rightarrow> market_snapshot \<Rightarrow> market_snapshot \<Rightarrow> market_snapshot \<Rightarrow> strategy_rules
    \<Rightarrow> strategy_signal res" where
  "evaluate_strategy daily four_hour one_hour fifteen rules =
     (case direction_of daily four_hour of None \<Rightarrow> Inl (ValueError ''No aligned HTF direction'')
      | Some direction \<Rightarrow>
     (case detect_setup four_hour one_hour fifteen direction of None \<Rightarrow> Inl (ValueError ''No approved setup'')
      | Some setup \<Rightarrow>
     (case levels four_hour one_hour fifteen direction of
        None \<Rightarrow> Inl (ValueError ''No valid entry/SL/target levels'')
      | Some (entry, stop_loss, target) \<Rightarrow>
          let stop_buffer = (case structural_level four_hour direction of None \<Rightarrow> 0
                | Some l \<Rightarrow> dabs (dsub stop_loss l))
          in res_bind (calculate_risk_reward entry stop_loss target direction) (\<lambda>rr.
             res_bind (build_strategy_evidence daily four_hour one_hour fifteen setup direction (rr_ratio rr)) (\<lambda>ev.
             res_bind (calculate_confidence (ev_data_quality ev) (ev_htf_alignment_quality ev)
                 (ev_structure_quality ev) (ev_confirmation_quality ev)) (\<lambda>conf.
               let score = score_total (ev_score_breakdown ev);
                   reasons = gate_reasons rules (rr_ratio rr) score (cf_value conf)
               in Inr \<lparr>sg_symbol = mk_symbol daily, sg_direction = direction, sg_setup = setup,
                      sg_state = (if reasons = [] then READY_FOR_RISK_REVIEW else STRATEGY_REJECTED),
                      sg_entry = entry, sg_stop_loss = stop_loss, sg_target = target,
                      sg_rr = rr_ratio rr, sg_score = score, sg_confidence = cf_value conf,
                      sg_score_breakdown = ev_score_breakdown ev, sg_confidence_result = conf,
                      sg_reasons = reasons, sg_evidence = Some ev,
                      sg_stop_loss_source = ''LAST_CONFIRMED_SWING_PLUS_ATR_BUFFER'',
                      sg_stop_loss_buffer = stop_buffer\<rparr>))))))"

text \<open>
  The evidence and the confidence never raise, so a strategy evaluation fails only for lack of a
  direction, a setup, levels, or directionally valid levels.
\<close>

lemma confidence_of_evidence:
  "build_strategy_evidence d f h q s dir rr = Inr ev \<Longrightarrow>
   \<exists>c. calculate_confidence (ev_data_quality ev) (ev_htf_alignment_quality ev)
        (ev_structure_quality ev) (ev_confirmation_quality ev) = Inr c"
  using evidence_qualities [of d f h q s dir rr ev] by (simp add: confidence_total_iff)

lemma evaluate_strategy_Inr_iff:
  "(\<exists>s. evaluate_strategy d f h q rules = Inr s) \<longleftrightarrow>
     (\<exists>dir setup e sl t r. direction_of d f = Some dir \<and> detect_setup f h q dir = Some setup \<and>
        levels f h q dir = Some (e, sl, t) \<and> calculate_risk_reward e sl t dir = Inr r)"
proof
  assume "\<exists>s. evaluate_strategy d f h q rules = Inr s"
  then show "\<exists>dir setup e sl t r. direction_of d f = Some dir \<and> detect_setup f h q dir = Some setup \<and>
        levels f h q dir = Some (e, sl, t) \<and> calculate_risk_reward e sl t dir = Inr r"
    by (auto simp: evaluate_strategy_def guard_simps Let_def split: option.splits)
next
  assume "\<exists>dir setup e sl t r. direction_of d f = Some dir \<and> detect_setup f h q dir = Some setup \<and>
        levels f h q dir = Some (e, sl, t) \<and> calculate_risk_reward e sl t dir = Inr r"
  then obtain dir su e sl t r where parts:
      "direction_of d f = Some dir" "detect_setup f h q dir = Some su"
      "levels f h q dir = Some (e, sl, t)" "calculate_risk_reward e sl t dir = Inr r" by blast
  obtain ev where 2: "build_strategy_evidence d f h q su dir (rr_ratio r) = Inr ev"
    using build_strategy_evidence_total by blast
  obtain c where "calculate_confidence (ev_data_quality ev) (ev_htf_alignment_quality ev)
        (ev_structure_quality ev) (ev_confirmation_quality ev) = Inr c"
    using confidence_of_evidence [OF 2] by blast
  with parts 2 show "\<exists>s. evaluate_strategy d f h q rules = Inr s"
    by (simp add: evaluate_strategy_def Let_def)
qed

lemma evaluate_strategy_parts:
  assumes "evaluate_strategy d f h q rules = Inr s"
  obtains dir su rr ev conf where
    "direction_of d f = Some dir" "detect_setup f h q dir = Some su"
    "levels f h q dir = Some (sg_entry s, sg_stop_loss s, sg_target s)"
    "calculate_risk_reward (sg_entry s) (sg_stop_loss s) (sg_target s) dir = Inr rr"
    "build_strategy_evidence d f h q su dir (rr_ratio rr) = Inr ev"
    "calculate_confidence (ev_data_quality ev) (ev_htf_alignment_quality ev)
        (ev_structure_quality ev) (ev_confirmation_quality ev) = Inr conf"
    "sg_direction s = dir" "sg_rr s = rr_ratio rr" "sg_score s = score_total (ev_score_breakdown ev)"
    "sg_confidence s = cf_value conf"
    "sg_reasons s = gate_reasons rules (sg_rr s) (sg_score s) (sg_confidence s)"
    "sg_state s = (if sg_reasons s = [] then READY_FOR_RISK_REVIEW else STRATEGY_REJECTED)"
  using assms that by (auto simp: evaluate_strategy_def guard_simps Let_def split: option.splits)

lemma gate_reasons_Nil_iff:
  "gate_reasons rules rr score conf = [] \<longleftrightarrow>
     sr_min_rr rules \<le> rr \<and> sr_min_score rules \<le> score \<and> sr_min_confidence rules \<le> conf"
  by (simp add: gate_reasons_def not_less)

lemma levels_positive:
  assumes "levels f h q dir = Some (e, sl, t)" "calculate_risk_reward e sl t dir = Inr r"
  shows "0 < sl \<and> 0 < t"
proof -
  from assms(2) have d: "dir = ''LONG'' \<and> sl < e \<and> e < t \<or> dir = ''SHORT'' \<and> e < sl \<and> t < e"
    using risk_reward_Inr_iff by blast
  from assms(1) have "(dir = ''LONG'' \<longrightarrow> 0 < sl) \<and> (dir \<noteq> ''LONG'' \<longrightarrow> 0 < t)"
    by (auto simp: levels_def long_levels_def short_levels_def Let_def split: option.splits if_splits)
  with d show ?thesis by auto
qed

text \<open>On prices of at most 26 digits on a common grid the planned target is exact.\<close>

lemma grid_rnd: "x = of_int m * p10 g \<Longrightarrow> \<bar>m\<bar> < 10 ^ 28 \<Longrightarrow> rnd x = x"
  by (rule rnd_exact)

lemma long_levels_exact:
  assumes "entry = of_int a * p10 g" "stop = of_int b * p10 g" "\<bar>a\<bar> < 10 ^ 26" "\<bar>b\<bar> < 10 ^ 26" "b < a"
  shows "dadd entry (dmul (dsub entry stop) (5 / 2)) = entry + 5 / 2 * (entry - stop)"
    and "ddiv (dsub (dadd entry (dmul (dsub entry stop) (5 / 2))) entry) (dsub entry stop) = 5 / 2"
proof -
  have p: "p10 g = 10 * p10 (g - 1)" using p10_add [of 1 "g - 1"] by (simp add: p10_def [of 1])
  have 1: "rnd (entry - stop) = entry - stop"
    by (rule grid_rnd [of _ "a - b" g]) (use assms in \<open>auto simp: algebra_simps\<close>)
  have 2: "rnd ((entry - stop) * (5 / 2)) = (entry - stop) * (5 / 2)"
    by (rule grid_rnd [of _ "25 * (a - b)" "g - 1"]) (use assms in \<open>auto simp: p algebra_simps\<close>)
  have 3: "rnd (entry + (entry - stop) * (5 / 2)) = entry + (entry - stop) * (5 / 2)"
    by (rule grid_rnd [of _ "10 * a + 25 * (a - b)" "g - 1"]) (use assms in \<open>auto simp: p algebra_simps\<close>)
  have t: "dadd entry (dmul (dsub entry stop) (5 / 2)) = entry + (entry - stop) * (5 / 2)"
    by (simp only: dadd_def dmul_def dsub_def 1 2 3)
  then show "dadd entry (dmul (dsub entry stop) (5 / 2)) = entry + 5 / 2 * (entry - stop)"
    by (simp only: mult.commute)
  have "entry + (entry - stop) * (5 / 2) - entry = (entry - stop) * (5 / 2)" by simp
  then have 4: "dsub (entry + (entry - stop) * (5 / 2)) entry = (entry - stop) * (5 / 2)"
    by (simp only: dsub_def 2)
  have "entry - stop \<noteq> 0" using assms by simp
  then have 5: "(entry - stop) * (5 / 2) / (entry - stop) = 5 / 2"
    by (rule nonzero_mult_div_cancel_left)
  have "rnd (5 / 2) = 5 / 2" by (rule grid_rnd [of _ 25 "- 1"]) (simp_all add: p10_def)
  then show "ddiv (dsub (dadd entry (dmul (dsub entry stop) (5 / 2))) entry) (dsub entry stop) = 5 / 2"
    by (simp only: t 4) (simp only: dsub_def 1 ddiv_def 5)
qed

subsection \<open>A worked set of snapshots\<close>

text \<open>
  Four snapshots with every quality at its best: bullish trends with full scores, an upward breakout
  retested at resistance, swing support at \<open>low\<close>, entry \<open>ema\<close>, average true range \<open>atr\<close>.
\<close>

definition example_indicators :: "rat \<Rightarrow> rat \<Rightarrow> indicator_snapshot" where
  "example_indicators ema_v atr_v =
     \<lparr>is_ema20 = Some ema_v, is_ema50 = Some 90, is_ema200 = Some 80, is_rsi14 = Some 60,
      is_atr14 = Some atr_v, is_volume_sma20 = Some 1000, is_sma50 = Some 90, is_macd_line = Some 2,
      is_macd_signal = Some 1, is_macd_histogram = Some 1, is_adx14 = Some 30,
      is_supertrend_direction = Some ''BULLISH'', is_vwap20 = Some 100,
      is_bollinger_middle = Some 100, is_bollinger_upper = Some 110, is_bollinger_lower = Some 90\<rparr>"

definition example_snapshot :: "rat \<Rightarrow> rat \<Rightarrow> rat \<Rightarrow> string \<Rightarrow> market_snapshot" where
  "example_snapshot ema_v atr_v low state =
     (let i = example_indicators ema_v atr_v
      in \<lparr>mk_symbol = ''BTC'', mk_timeframe = ''4h'', mk_indicators = i,
          mk_trend = \<lparr>tr_direction = ''BULLISH'', tr_strength = ''STRONG'', tr_score = 100, tr_indicators = i\<rparr>,
          mk_structure = \<lparr>st_state = state, st_support = Some low, st_resistance = Some (2 * ema_v), st_score = 90\<rparr>,
          mk_regime = \<lparr>rg_regime = ''TRENDING_BULL'', rg_volatility = ''NORMAL'', rg_score = 100\<rparr>,
          mk_liquidity = \<lparr>lq_average_volume = Some 1000, lq_latest_volume = Some 2000,
            lq_volume_ratio = Some 2, lq_score = 100\<rparr>,
          mk_score = 100, mk_advanced = None\<rparr>)"

definition example_signal :: "rat \<Rightarrow> rat \<Rightarrow> rat \<Rightarrow> strategy_signal res" where
  "example_signal ema_v atr_v low =
     (let s = example_snapshot ema_v atr_v low
      in evaluate_strategy (s ''BREAKOUT_UP'') (s ''BREAKOUT_UP'') (s ''NEAR_RESISTANCE'')
           (s ''BREAKOUT_UP'') default_rules)"

end
