(* ===== verification/Core_Model.thy ===== *)
theory Core_Model
  imports Decimal28
begin

section \<open>Core: positions, profit and loss, the stop monitor, the runtime lifecycle\<close>

text \<open>
  \<^verbatim>\<open>app/core/enums.py\<close>, \<^verbatim>\<open>app/core/models.py\<close>, \<^verbatim>\<open>app/core/position_monitor.py\<close>, \<^verbatim>\<open>app/core/state.py\<close>,
  \<^verbatim>\<open>app/core/lifecycle.py\<close> and \<^verbatim>\<open>app/core/runtime.py\<close>. A \<^verbatim>\<open>Position\<close> is mutated in place by the
  program; here an operation returns the new record.
\<close>

subsection \<open>Enumerations and records\<close>

datatype position_side = LONG | SHORT

datatype position_status = POS_OPEN | POS_CLOSED | POS_STOPPED_OUT

datatype system_mode = MODE_PAPER | MODE_SHADOW

datatype cycle_status = CYCLE_STARTED | CYCLE_COMPLETED | CYCLE_FAILED

text \<open>
  The decision snapshot is a text that the journal later hands to \<^verbatim>\<open>json.loads\<close>; it is kept as what
  that call makes of it: the parsed value, or a text that is not JSON.
\<close>

datatype json =
    JNull
  | JBool bool
  | JNum rat
  | JStr string
  | JList "json list"
  | JObj "(string \<times> json) list"

datatype json_text = JsonText json | NotJson string

record position =
  pos_id :: string
  pos_symbol :: string
  pos_side :: position_side
  pos_entry_price :: rat
  pos_stop_loss :: rat
  pos_total_amount :: rat
  pos_quantity :: rat
  pos_leverage :: rat
  pos_take_profit :: "rat option"
  pos_status :: position_status
  pos_opened_at :: datetime
  pos_closed_at :: "datetime option"
  pos_exit_price :: "rat option"
  pos_realized_pnl :: "rat option"
  pos_close_reason :: "string option"
  pos_decision_snapshot :: "json_text option"

record position_close_result =
  pcr_position_id :: string
  pcr_exit_price :: rat
  pcr_realized_pnl :: rat
  pcr_reason :: string
  pcr_closed_at :: datetime

record 'n cycle_result =
  cyc_id :: string
  cyc_status :: cycle_status
  cyc_started_at :: datetime
  cyc_finished_at :: datetime
  cyc_monitored_positions :: int
  cyc_stopped_positions :: int
  cyc_notes :: "'n list"

definition is_open :: "position \<Rightarrow> bool" where
  "is_open p \<longleftrightarrow> pos_status p = POS_OPEN"

subsection \<open>Profit and loss\<close>

definition stop_was_crossed :: "position \<Rightarrow> rat \<Rightarrow> bool" where
  "stop_was_crossed p price =
     (if pos_side p = LONG then price \<le> pos_stop_loss p else pos_stop_loss p \<le> price)"

definition calculate_realized_pnl :: "position \<Rightarrow> rat \<Rightarrow> rat res" where
  "calculate_realized_pnl p exit_price =
     (if pos_entry_price p \<le> 0 \<or> pos_total_amount p < 0 \<or> pos_leverage p \<le> 0
      then Inl (ValueError ''Invalid position values for P&L calculation'')
      else
        let price_return = ddiv (dsub exit_price (pos_entry_price p)) (pos_entry_price p);
            price_return = (if pos_side p = SHORT then dneg price_return else price_return)
        in Inr (dmul (dmul (pos_total_amount p) price_return) (pos_leverage p)))"

definition pnl_inputs_ok :: "position \<Rightarrow> bool" where
  "pnl_inputs_ok p \<longleftrightarrow> 0 < pos_entry_price p \<and> 0 \<le> pos_total_amount p \<and> 0 < pos_leverage p"

lemma calculate_realized_pnl_Inr:
  "pnl_inputs_ok p \<Longrightarrow> \<exists>v. calculate_realized_pnl p x = Inr v"
  by (auto simp: calculate_realized_pnl_def pnl_inputs_ok_def Let_def)

text \<open>Rounding never changes the sign of the realised result.\<close>

lemma pnl_sign:
  assumes "calculate_realized_pnl p x = Inr v" "0 < pos_total_amount p"
  shows "0 < v \<longleftrightarrow> (if pos_side p = LONG then pos_entry_price p < x else x < pos_entry_price p)"
    and "v < 0 \<longleftrightarrow> (if pos_side p = LONG then x < pos_entry_price p else pos_entry_price p < x)"
  using assms
  by (cases "pos_side p";
      auto simp: calculate_realized_pnl_def Let_def dneg_def dec.pos_iff dec.neg_iff
        zero_less_mult_iff mult_less_0_iff zero_less_divide_iff divide_less_0_iff
        split: if_splits)+

text \<open>The short side is the exact mirror image of the long side.\<close>

lemma pnl_short_mirror:
  assumes "pos_side p = LONG" "calculate_realized_pnl p x = Inr v"
  shows "calculate_realized_pnl (p\<lparr>pos_side := SHORT\<rparr>) x = Inr (- v)"
  using assms
  by (auto simp: calculate_realized_pnl_def Let_def dmul_def ddiv_def dsub_def dneg_def dec.neg
      dec.idem split: if_splits)

lemma pnl_mono_long:
  assumes "pos_side p = LONG" "calculate_realized_pnl p x = Inr v"
    and "calculate_realized_pnl p y = Inr w" "x \<le> y"
  shows "v \<le> w"
proof -
  have e: "0 < pos_entry_price p" and l: "0 < pos_leverage p" and t: "0 \<le> pos_total_amount p"
    using assms(2) by (auto simp: calculate_realized_pnl_def split: if_splits)
  have "ddiv (dsub x (pos_entry_price p)) (pos_entry_price p)
      \<le> ddiv (dsub y (pos_entry_price p)) (pos_entry_price p)"
    using e assms(4) by (intro ddiv_mono dsub_mono) auto
  then show ?thesis using assms(1-3) l t
    by (auto simp: calculate_realized_pnl_def Let_def split: if_splits
        intro!: dmul_mono_left dmul_mono_right)
qed

subsection \<open>The stop monitor\<close>

text \<open>
  The loop of \<^verbatim>\<open>monitor_open_positions\<close>. The price of each symbol is asked in turn, so the provider is a
  function of the symbol and of the number of requests made before, and may raise; the clock is read
  at every close. A position already closed is left alone. An invalid price raises and leaves the positions
  handled so far closed, so the state is returned beside the result.
\<close>

record monitor_summary =
  ms_monitored :: nat
  ms_stopped_out :: nat
  ms_results :: "position_close_result list"

definition stop_out :: "position \<Rightarrow> rat \<Rightarrow> rat \<Rightarrow> datetime \<Rightarrow> position" where
  "stop_out p price pnl now = p\<lparr>pos_status := POS_STOPPED_OUT, pos_exit_price := Some price,
     pos_realized_pnl := Some pnl, pos_closed_at := Some now,
     pos_close_reason := Some ''STOP_LOSS''\<rparr>"

definition monitor_one ::
  "position \<Rightarrow> rat \<Rightarrow> datetime \<Rightarrow> (position \<times> position_close_result option) res" where
  "monitor_one p price now =
     guard (price \<le> 0) (ValueErrorV (''Invalid live price for '' @ pos_symbol p @ '': '') price)
      (if \<not> stop_was_crossed p price then Inr (p, None)
       else res_bind (calculate_realized_pnl p price) (\<lambda>pnl.
         Inr (stop_out p price pnl now,
              Some \<lparr>pcr_position_id = pos_id p, pcr_exit_price = price, pcr_realized_pnl = pnl,
                    pcr_reason = ''STOP_LOSS'', pcr_closed_at = now\<rparr>)))"

definition monitor_step ::
  "position \<Rightarrow> rat res \<Rightarrow> datetime \<Rightarrow> (position \<times> position_close_result option) res" where
  "monitor_step p quote now = res_bind quote (\<lambda>price. monitor_one p price now)"

fun monitor_loop ::
  "(nat \<Rightarrow> string \<Rightarrow> rat res) \<Rightarrow> (nat \<Rightarrow> datetime) \<Rightarrow> nat \<Rightarrow> position list
    \<Rightarrow> position list \<times> (nat \<times> position_close_result list) res" where
  "monitor_loop prices clock n [] = ([], Inr (n, []))"
| "monitor_loop prices clock n (p # ps) =
     (if pos_status p \<noteq> POS_OPEN then
        (case monitor_loop prices clock n ps of (ps', r) \<Rightarrow> (p # ps', r))
      else case monitor_step p (prices n (pos_symbol p)) (clock n) of
        Inl e \<Rightarrow> (p # ps, Inl e)
      | Inr (p', out) \<Rightarrow>
          (case monitor_loop prices clock (Suc n) ps of (ps', r) \<Rightarrow>
            (p' # ps', res_bind r (\<lambda>(k, outs).
               Inr (k, case out of None \<Rightarrow> outs | Some x \<Rightarrow> x # outs)))))"

definition monitor_open_positions ::
  "(nat \<Rightarrow> string \<Rightarrow> rat res) \<Rightarrow> (nat \<Rightarrow> datetime) \<Rightarrow> position list
    \<Rightarrow> position list \<times> monitor_summary res" where
  "monitor_open_positions prices clock ps =
     (case monitor_loop prices clock 0 ps of (ps', r) \<Rightarrow>
       (ps', res_bind r (\<lambda>(k, outs).
          Inr \<lparr>ms_monitored = k, ms_stopped_out = length outs, ms_results = outs\<rparr>)))"

lemma monitor_one_Inr:
  assumes "monitor_one p price now = Inr (p', out)"
  shows "0 < price"
    and "out = None \<Longrightarrow> p' = p \<and> \<not> stop_was_crossed p price"
    and "out = Some x \<Longrightarrow> stop_was_crossed p price \<and>
           calculate_realized_pnl p price = Inr (pcr_realized_pnl x) \<and>
           p' = stop_out p price (pcr_realized_pnl x) now \<and> pcr_exit_price x = price \<and>
           pcr_position_id x = pos_id p"
  using assms by (auto simp: monitor_one_def guard_simps split: if_splits)

text \<open>
  Whatever happens, also when a price raises: the list keeps its length and order, positions that
  were not open are untouched, and every position is either unchanged or stopped out.
\<close>

definition stopped_from :: "position \<Rightarrow> position \<Rightarrow> bool" where
  "stopped_from p p' \<longleftrightarrow> (\<exists>price pnl now. 0 < price \<and> stop_was_crossed p price \<and> is_open p \<and>
     calculate_realized_pnl p price = Inr pnl \<and> p' = stop_out p price pnl now)"

lemma monitor_loop_frame:
  "monitor_loop prices clock n ps = (ps', r) \<Longrightarrow>
   list_all2 (\<lambda>p p'. p' = p \<or> stopped_from p p') ps ps'"
proof (induction ps arbitrary: n ps' r)
  case (Cons p ps)
  show ?case
  proof (cases "pos_status p = POS_OPEN")
    case False
    with Cons show ?thesis by (auto split: prod.splits)
  next
    case True
    show ?thesis
    proof (cases "monitor_step p (prices n (pos_symbol p)) (clock n)")
      case (Inl e)
      with Cons True show ?thesis by (auto simp: list_all2_refl)
    next
      case (Inr q)
      then obtain p1 out where q: "monitor_step p (prices n (pos_symbol p)) (clock n) = Inr (p1, out)"
        by (cases q) auto
      obtain ps1 r1 where l: "monitor_loop prices clock (Suc n) ps = (ps1, r1)"
        by (cases "monitor_loop prices clock (Suc n) ps")
      have ps': "ps' = p1 # ps1" using Cons.prems True q l by simp
      from q obtain price where q': "monitor_one p price (clock n) = Inr (p1, out)"
        by (auto simp: monitor_step_def guard_simps)
      have "p1 = p \<or> stopped_from p p1"
      proof (cases out)
        case None
        then show ?thesis using monitor_one_Inr(2) [OF q'] by simp
      next
        case (Some x)
        then show ?thesis using monitor_one_Inr(1,3) [OF q'] True
          by (auto simp: stopped_from_def is_open_def)
      qed
      then show ?thesis using ps' Cons.IH [OF l] by simp
    qed
  qed
qed simp

lemma monitor_loop_count:
  "monitor_loop prices clock n ps = (ps', Inr (k, outs)) \<Longrightarrow>
   k = n + length (filter is_open ps) \<and> length outs + length (filter is_open ps') = length (filter is_open ps)"
proof (induction ps arbitrary: n ps' k outs)
  case (Cons p ps)
  show ?case
  proof (cases "pos_status p = POS_OPEN")
    case False
    with Cons show ?thesis by (auto simp: is_open_def split: prod.splits)
  next
    case True
    with Cons.prems obtain p1 out where
      q: "monitor_step p (prices n (pos_symbol p)) (clock n) = Inr (p1, out)"
      by (auto split: sum.splits)
    then obtain ps1 outs1 where
      l: "monitor_loop prices clock (Suc n) ps = (ps1, Inr (k, outs1))"
      and eqs: "ps' = p1 # ps1" "outs = (case out of None \<Rightarrow> outs1 | Some x \<Rightarrow> x # outs1)"
      using Cons.prems True by (auto simp: guard_simps split: prod.splits)
    from q obtain price where q': "monitor_one p price (clock n) = Inr (p1, out)"
      by (auto simp: monitor_step_def guard_simps)
    have "is_open p1 \<longleftrightarrow> out = None"
      using monitor_one_Inr(2,3) [OF q'] True by (cases out) (auto simp: is_open_def stop_out_def)
    then show ?thesis using Cons.IH [OF l] eqs True by (cases out) (auto simp: is_open_def)
  qed
qed simp

subsection \<open>Runtime lifecycle\<close>

datatype runtime_state =
    RS_CREATED | RS_INITIALIZING | RS_READY | RS_RUNNING | RS_SCANNING | RS_ANALYZING
  | RS_RISK_CHECK | RS_COMPLETED | RS_ERROR | RS_STOPPED

text \<open>\<^verbatim>\<open>LifecycleManager.transition\<close> stores any state it is given.\<close>

definition lifecycle_transition :: "runtime_state \<Rightarrow> runtime_state \<Rightarrow> runtime_state" where
  "lifecycle_transition current target = target"

record trading_runtime =
  tr_state :: runtime_state
  tr_running :: bool

definition runtime_new :: trading_runtime where
  "runtime_new = \<lparr>tr_state = RS_CREATED, tr_running = False\<rparr>"

definition runtime_initialize :: "trading_runtime \<Rightarrow> trading_runtime" where
  "runtime_initialize r =
     (let r1 = r\<lparr>tr_state := lifecycle_transition (tr_state r) RS_INITIALIZING\<rparr>
      in r1\<lparr>tr_state := lifecycle_transition (tr_state r1) RS_READY\<rparr>)"

text \<open>
  \<^verbatim>\<open>start_cycle\<close>: the scanner is looked up in the container; a scanner that raises leaves the runtime
  in state \<^verbatim>\<open>SCANNING\<close>. \<open>scan\<close> is what the container holds under \<^verbatim>\<open>scanner_engine\<close>.
\<close>

definition runtime_start_cycle ::
  "(unit \<Rightarrow> 'a list res) option \<Rightarrow> trading_runtime \<Rightarrow> trading_runtime \<times> 'a list res" where
  "runtime_start_cycle scan r =
     (let r1 = r\<lparr>tr_state := lifecycle_transition (tr_state r) RS_RUNNING\<rparr>;
          r2 = r1\<lparr>tr_state := lifecycle_transition (tr_state r1) RS_SCANNING\<rparr>
      in case (case scan of None \<Rightarrow> Inr [] | Some f \<Rightarrow> f ()) of
           Inl e \<Rightarrow> (r2, Inl e)
         | Inr xs \<Rightarrow> (r2\<lparr>tr_state := lifecycle_transition (tr_state r2) RS_COMPLETED\<rparr>, Inr xs))"

definition runtime_stop :: "trading_runtime \<Rightarrow> trading_runtime" where
  "runtime_stop r = r\<lparr>tr_running := False, tr_state := lifecycle_transition (tr_state r) RS_STOPPED\<rparr>"

end
