(* ===== verification/Universe_Model.thy ===== *)
theory Universe_Model
  imports Decimal28 "HOL-Library.List_Lexorder" "HOL-Library.Char_ord"
begin

section \<open>The instrument universe\<close>

text \<open>
  \<^verbatim>\<open>app/universe/\<close>: contract specifications, instruments, eligibility, the instrument registry, the
  provider symbol mapping and the scope policy.
\<close>

subsection \<open>Contract specifications and instruments\<close>

record contract_spec =
  cs_symbol :: string
  cs_price_tick :: rat
  cs_quantity_step :: rat
  cs_min_quantity :: rat
  cs_min_notional :: "rat option"
  cs_max_leverage :: "rat option"

definition opt_holds :: "('a \<Rightarrow> bool) \<Rightarrow> 'a option \<Rightarrow> bool" where
  "opt_holds P x = (case x of None \<Rightarrow> False | Some v \<Rightarrow> P v)"

lemma opt_holds_simps [simp]:
  "opt_holds P None \<longleftrightarrow> False" "opt_holds P (Some v) \<longleftrightarrow> P v"
  by (simp_all add: opt_holds_def)

definition contract_validate :: "contract_spec \<Rightarrow> unit res" where
  "contract_validate c =
     guard (cs_price_tick c \<le> 0) (ValueError ''price_tick must be positive'')
    (guard (cs_quantity_step c \<le> 0) (ValueError ''quantity_step must be positive'')
    (guard (cs_min_quantity c < 0) (ValueError ''min_quantity cannot be negative'')
    (guard (opt_holds (\<lambda>v. v < 0) (cs_min_notional c)) (ValueError ''min_notional cannot be negative'')
    (guard (opt_holds (\<lambda>v. v < 1) (cs_max_leverage c)) (ValueError ''max_leverage must be >= 1'')
    (Inr ())))))"

datatype asset_class = CRYPTO | EQUITY | COMMODITY | FOREX

record instrument =
  in_symbol :: string
  in_asset_class :: asset_class
  in_base_asset :: string
  in_quote_asset :: string
  in_tradable :: bool
  in_min_quantity :: "rat option"
  in_quantity_step :: "rat option"
  in_price_tick :: "rat option"

definition instrument_validate :: "instrument \<Rightarrow> unit res" where
  "instrument_validate i =
     guard (in_symbol i = [] \<or> in_base_asset i = [] \<or> in_quote_asset i = [])
       (ValueError ''Instrument identifiers cannot be empty'')
    (guard (opt_holds (\<lambda>v. v < 0) (in_min_quantity i)) (ValueError ''min_quantity cannot be negative'')
    (guard (opt_holds (\<lambda>v. v \<le> 0) (in_quantity_step i)) (ValueError ''quantity_step must be positive'')
    (guard (opt_holds (\<lambda>v. v \<le> 0) (in_price_tick i)) (ValueError ''price_tick must be positive'')
    (Inr ()))))"

subsection \<open>Eligibility and cross-validation\<close>

text \<open>\<^verbatim>\<open>except ValueError as exc: reasons.append(str(exc))\<close>.\<close>

definition error_reasons :: "unit res \<Rightarrow> string list" where
  "error_reasons r = (case r of Inl (ValueError m) \<Rightarrow> [m] | _ \<Rightarrow> [])"

record verdict =
  vd_ok :: bool
  vd_reasons :: "string list"

definition verdict_of :: "string list \<Rightarrow> verdict" where
  "verdict_of rs = \<lparr>vd_ok = (rs = []), vd_reasons = rs\<rparr>"

definition check_instrument_eligibility :: "instrument \<Rightarrow> verdict" where
  "check_instrument_eligibility i =
     verdict_of (error_reasons (instrument_validate i) @
       (if \<not> in_tradable i then [''instrument is not tradable''] else []))"

definition validate_instrument_contract :: "instrument \<Rightarrow> contract_spec option \<Rightarrow> verdict" where
  "validate_instrument_contract i spec =
     verdict_of (error_reasons (instrument_validate i) @
       (case spec of None \<Rightarrow> []
        | Some c \<Rightarrow> error_reasons (contract_validate c) @
            (if upper (cs_symbol c) \<noteq> upper (in_symbol i)
             then [''contract spec symbol does not match instrument''] else []) @
            (if opt_holds (\<lambda>v. v \<noteq> cs_quantity_step c) (in_quantity_step i)
             then [''instrument quantity_step conflicts with contract spec''] else [])))"

lemma contract_validate_Inr_iff [guard_simps]:
  "contract_validate c = Inr () \<longleftrightarrow> 0 < cs_price_tick c \<and> 0 < cs_quantity_step c \<and>
     0 \<le> cs_min_quantity c \<and> \<not> opt_holds (\<lambda>v. v < 0) (cs_min_notional c) \<and>
     \<not> opt_holds (\<lambda>v. v < 1) (cs_max_leverage c)"
  by (auto simp: contract_validate_def guard_simps)

lemma validate_raises_ValueError:
  "contract_validate c = Inl e \<Longrightarrow> \<exists>m. e = ValueError m"
  "instrument_validate i = Inl e \<Longrightarrow> \<exists>m. e = ValueError m"
  by (auto simp: contract_validate_def instrument_validate_def guard_def split: if_splits)

lemma error_reasons_Nil_iff:
  "error_reasons (contract_validate c) = [] \<longleftrightarrow> contract_validate c = Inr ()"
  "error_reasons (instrument_validate i) = [] \<longleftrightarrow> instrument_validate i = Inr ()"
  using validate_raises_ValueError
  by (auto simp: error_reasons_def split: sum.splits exn.splits)

lemma contract_verdict_ok:
  "vd_ok (validate_instrument_contract i (Some c)) \<longleftrightarrow>
     instrument_validate i = Inr () \<and> contract_validate c = Inr () \<and>
     upper (cs_symbol c) = upper (in_symbol i) \<and>
     \<not> opt_holds (\<lambda>v. v \<noteq> cs_quantity_step c) (in_quantity_step i)"
  by (simp add: validate_instrument_contract_def verdict_of_def error_reasons_Nil_iff)

subsection \<open>Scope policy\<close>

definition excluded_project_base_assets :: "string set" where
  "excluded_project_base_assets = {''BTCDEGEN'', ''ETHDEGEN'', ''SOLDEGEN'', ''XMR''}"

definition is_project_base_asset :: "string \<Rightarrow> bool" where
  "is_project_base_asset b \<longleftrightarrow> upper (strip b) \<notin> excluded_project_base_assets"

subsection \<open>Instrument registry\<close>

fun registry_add :: "(string, instrument) dict \<Rightarrow> instrument list \<Rightarrow> (string, instrument) dict res" where
  "registry_add reg [] = Inr reg"
| "registry_add reg (i # is) =
     res_bind (instrument_validate i) (\<lambda>_.
       if dget reg (upper (in_symbol i)) \<noteq> None
       then Inl (ValueError (''Duplicate instrument: '' @ in_symbol i))
       else registry_add (dput (upper (in_symbol i)) i reg) is)"

definition registry_from_instruments :: "instrument list \<Rightarrow> (string, instrument) dict res" where
  "registry_from_instruments is = registry_add [] is"

definition registry_get :: "(string, instrument) dict \<Rightarrow> string \<Rightarrow> instrument res" where
  "registry_get reg s = (case dget reg (upper s) of
     None \<Rightarrow> Inl (ValueError (''Unknown instrument: '' @ s)) | Some i \<Rightarrow> Inr i)"

definition registry_maybe_get :: "(string, instrument) dict \<Rightarrow> string \<Rightarrow> instrument option" where
  "registry_maybe_get reg s = dget reg (upper s)"

definition registry_all :: "(string, instrument) dict \<Rightarrow> bool \<Rightarrow> instrument list" where
  "registry_all reg tradable_only =
     (let values = map snd reg;
          values = (if tradable_only then filter in_tradable values else values)
      in sort_key in_symbol values)"

definition registry_by_asset_class ::
  "(string, instrument) dict \<Rightarrow> asset_class \<Rightarrow> bool \<Rightarrow> instrument list" where
  "registry_by_asset_class reg c tradable_only =
     filter (\<lambda>i. in_asset_class i = c) (registry_all reg tradable_only)"

text \<open>A registry maps the upper-cased symbol of each valid instrument to it, and nothing else.\<close>

definition registry_ok :: "(string, instrument) dict \<Rightarrow> bool" where
  "registry_ok reg \<longleftrightarrow> dict_ok reg \<and>
     (\<forall>k i. dget reg k = Some i \<longrightarrow> k = upper (in_symbol i) \<and> instrument_validate i = Inr ())"

lemma registry_add_Cons_Inr:
  "registry_add reg (i # is) = Inr reg' \<longleftrightarrow> instrument_validate i = Inr () \<and>
     dget reg (upper (in_symbol i)) = None \<and>
     registry_add (dput (upper (in_symbol i)) i reg) is = Inr reg'"
  by (auto simp: guard_simps)

declare registry_add.simps(2) [simp del]

lemma registry_add_ok:
  "registry_ok reg \<Longrightarrow> registry_add reg is = Inr reg' \<Longrightarrow> registry_ok reg'"
proof (induction "is" arbitrary: reg)
  case (Cons i "is")
  then have v: "instrument_validate i = Inr ()"
    and r: "registry_add (dput (upper (in_symbol i)) i reg) is = Inr reg'"
    unfolding registry_add_Cons_Inr by auto
  have "registry_ok (dput (upper (in_symbol i)) i reg)"
    using Cons.prems(1) v unfolding registry_ok_def by (auto split: if_splits)
  then show ?case using r by (rule Cons.IH)
qed simp

lemma registry_add_fresh:
  "registry_add reg is = Inr reg' \<Longrightarrow> \<forall>i \<in> set is. dget reg (upper (in_symbol i)) = None"
proof (induction "is" arbitrary: reg)
  case (Cons i "is")
  then have n: "dget reg (upper (in_symbol i)) = None"
    and r: "registry_add (dput (upper (in_symbol i)) i reg) is = Inr reg'"
    unfolding registry_add_Cons_Inr by auto
  then show ?case using Cons.IH [OF r] by (auto split: if_splits)
qed simp

lemma registry_add_distinct:
  "registry_add reg is = Inr reg' \<Longrightarrow> distinct (map (upper \<circ> in_symbol) is)"
proof (induction "is" arbitrary: reg)
  case (Cons i "is")
  then have r: "registry_add (dput (upper (in_symbol i)) i reg) is = Inr reg'"
    unfolding registry_add_Cons_Inr by simp
  then have "\<forall>j \<in> set is. upper (in_symbol j) \<noteq> upper (in_symbol i)"
    using registry_add_fresh [OF r] by (auto split: if_splits)
  then show ?case using Cons.IH [OF r] by force
qed simp

lemma registry_add_lookup:
  "registry_add reg is = Inr reg' \<Longrightarrow>
     dget reg' k = (case dget reg k of Some i \<Rightarrow> Some i
       | None \<Rightarrow> find (\<lambda>i. upper (in_symbol i) = k) is)"
proof (induction "is" arbitrary: reg)
  case Nil
  then show ?case by (auto split: option.splits)
next
  case (Cons i "is")
  then have "dget reg (upper (in_symbol i)) = None"
    and "registry_add (dput (upper (in_symbol i)) i reg) is = Inr reg'"
    unfolding registry_add_Cons_Inr by auto
  then show ?case using Cons.IH [of "dput (upper (in_symbol i)) i reg"]
    by (auto split: option.splits)
qed

lemma registry_values:
  "registry_ok reg \<Longrightarrow> i \<in> set (registry_all reg t) \<longleftrightarrow>
     dget reg (upper (in_symbol i)) = Some i \<and> (t \<longrightarrow> in_tradable i)"
  using dict_values_dget [of reg i] dget_in_values [of reg _ i]
  by (auto simp: registry_all_def registry_ok_def Let_def)

subsection \<open>Provider symbol mapping\<close>

record symbol_mapping =
  sm_canonical :: string
  sm_provider :: string
  sm_provider_symbol :: string

definition mapping_key :: "string \<Rightarrow> string \<Rightarrow> string \<times> string" where
  "mapping_key canonical provider = (upper canonical, lower provider)"

fun mapper_add ::
  "(string \<times> string, symbol_mapping) dict \<Rightarrow> symbol_mapping list
    \<Rightarrow> (string \<times> string, symbol_mapping) dict res" where
  "mapper_add m [] = Inr m"
| "mapper_add m (x # xs) =
     (let k = mapping_key (sm_canonical x) (sm_provider x)
      in if dget m k \<noteq> None
         then Inl (SymbolMappingError (''Duplicate mapping: '' @ fst k @ '','' @ snd k))
         else mapper_add (dput k x m) xs)"

definition to_provider ::
  "(string \<times> string, symbol_mapping) dict \<Rightarrow> string \<Rightarrow> string \<Rightarrow> string res" where
  "to_provider m canonical provider =
     (case dget m (mapping_key canonical provider) of
        None \<Rightarrow> Inl (SymbolMappingError (''No mapping for '' @ canonical @ '' on '' @ provider))
      | Some x \<Rightarrow> Inr (sm_provider_symbol x))"

definition has_mapping :: "(string \<times> string, symbol_mapping) dict \<Rightarrow> string \<Rightarrow> string \<Rightarrow> bool" where
  "has_mapping m canonical provider \<longleftrightarrow> dget m (mapping_key canonical provider) \<noteq> None"

lemma to_provider_total_iff: "(\<exists>s. to_provider m c p = Inr s) \<longleftrightarrow> has_mapping m c p"
  by (auto simp: to_provider_def has_mapping_def split: option.splits)

end
