(* ===== verification/Risk.thy ===== *)
theory Risk
  imports Strategy Core_Model Universe_Model
begin

section \<open>Risk: budgets, sizing, the Storm limit and the assessment of a signal\<close>

text \<open>
  \<^verbatim>\<open>app/risk/risk_math.py\<close>, \<^verbatim>\<open>risk_policy.py\<close>, \<^verbatim>\<open>position_sizing.py\<close>, \<^verbatim>\<open>storm.py\<close>,
  \<^verbatim>\<open>risk_engine.py\<close>, \<^verbatim>\<open>integration.py\<close>, \<^verbatim>\<open>risk_pipeline.py\<close>, \<^verbatim>\<open>app/portfolio/account.py\<close> and
  \<^verbatim>\<open>app/execution/risk_reservation.py\<close>. All amounts are 28-digit decimals.
\<close>

subsection \<open>Open risk and budgets\<close>

definition candidate_risk_amount :: "rat \<Rightarrow> rat \<Rightarrow> rat \<Rightarrow> rat \<Rightarrow> rat res" where
  "candidate_risk_amount total_amount entry stop_loss leverage =
     guard (total_amount < 0 \<or> entry \<le> 0 \<or> stop_loss \<le> 0 \<or> leverage \<le> 0)
       (ValueError ''risk inputs must be positive and amount non-negative'')
       (Inr (dmul (ddiv (dmul total_amount (dabs (dsub entry stop_loss))) entry) leverage))"

definition position_open_risk :: "position \<Rightarrow> rat res" where
  "position_open_risk p =
     (if pos_status p \<noteq> POS_OPEN then Inr 0
      else candidate_risk_amount (pos_total_amount p) (pos_entry_price p) (pos_stop_loss p)
             (pos_leverage p))"

definition aggregate_open_risk :: "position list \<Rightarrow> rat res" where
  "aggregate_open_risk ps = res_bind (res_map position_open_risk ps) (\<lambda>rs. Inr (dsum rs))"

definition risk_budget_amount :: "rat \<Rightarrow> rat \<Rightarrow> rat res" where
  "risk_budget_amount equity percent =
     guard (equity \<le> 0) (ValueError ''equity must be positive'')
      (guard (percent < 0 \<or> 100 < percent) (ValueError ''risk percent must be between 0 and 100'')
        (Inr (ddiv (dmul equity percent) 100)))"

definition available_aggregate_risk :: "rat \<Rightarrow> rat \<Rightarrow> rat \<Rightarrow> rat res" where
  "available_aggregate_risk equity max_aggregate_percent committed_risk =
     guard (committed_risk < 0) (ValueError ''committed_risk cannot be negative'')
      (res_bind (risk_budget_amount equity max_aggregate_percent) (\<lambda>b.
        Inr (max 0 (dsub b committed_risk))))"

record account =
  acc_starting_equity :: rat
  acc_realized_pnl :: rat

definition account_equity :: "account \<Rightarrow> rat" where
  "account_equity a = dadd (acc_starting_equity a) (acc_realized_pnl a)"

definition apply_realized_pnl :: "account \<Rightarrow> rat \<Rightarrow> account" where
  "apply_realized_pnl a pnl = a\<lparr>acc_realized_pnl := dadd (acc_realized_pnl a) pnl\<rparr>"

subsection \<open>Policy\<close>

record risk_policy =
  rp_per_trade :: rat
  rp_aggregate :: rat
  rp_storm :: rat
  rp_futures :: rat
  rp_correlated :: rat

definition default_policy :: risk_policy where
  "default_policy = \<lparr>rp_per_trade = 1, rp_aggregate = 4, rp_storm = 10, rp_futures = 50,
     rp_correlated = 2\<rparr>"

definition percent_ok :: "rat \<Rightarrow> bool" where
  "percent_ok x \<longleftrightarrow> 0 < x \<and> x \<le> 100"

definition risk_policy_validate :: "risk_policy \<Rightarrow> unit res" where
  "risk_policy_validate p =
     guard (\<not> percent_ok (rp_per_trade p))
       (ValueError ''max_risk_per_trade_percent must be between 0 and 100'')
     (guard (\<not> percent_ok (rp_aggregate p))
       (ValueError ''max_aggregate_open_risk_percent must be between 0 and 100'')
     (guard (\<not> percent_ok (rp_storm p))
       (ValueError ''max_storm_sl_loss_percent_of_position_amount must be between 0 and 100'')
     (guard (\<not> percent_ok (rp_futures p))
       (ValueError ''max_futures_capital_percent must be between 0 and 100'')
     (guard (\<not> percent_ok (rp_correlated p))
       (ValueError ''max_correlated_risk_percent must be between 0 and 100'')
       (Inr ())))))"

subsection \<open>Sizing\<close>

definition round_quantity :: "rat \<Rightarrow> rat \<Rightarrow> rat res" where
  "round_quantity quantity step =
     guard (quantity < 0 \<or> step \<le> 0)
       (ValueError ''quantity and step must be non-negative/positive'')
       (Inr (dmul (dtrunc (ddiv quantity step)) step))"

definition calculate_position_size ::
  "rat \<Rightarrow> rat \<Rightarrow> rat \<Rightarrow> rat \<Rightarrow> rat \<Rightarrow> contract_spec \<Rightarrow> (rat \<times> rat) res" where
  "calculate_position_size equity entry stop_loss leverage risk_percent contract =
     guard (equity \<le> 0 \<or> entry \<le> 0 \<or> leverage \<le> 0 \<or> risk_percent \<le> 0)
       (ValueError ''equity, entry, leverage and risk_percent must be positive'')
       (let distance = ddiv (dabs (dsub entry stop_loss)) entry
        in guard (distance \<le> 0) (ValueError ''entry and stop_loss must differ'')
         (let risk_amount = ddiv (dmul equity risk_percent) 100;
              total_amount = ddiv risk_amount (dmul distance leverage)
          in res_bind (round_quantity (ddiv total_amount entry) (cs_quantity_step contract))
               (\<lambda>quantity.
                 if quantity < cs_min_quantity contract then Inr (0, 0)
                 else Inr (quantity, dmul quantity entry))))"

definition storm_sl_loss_percent :: "rat \<Rightarrow> rat \<Rightarrow> rat \<Rightarrow> rat res" where
  "storm_sl_loss_percent entry stop_loss leverage =
     guard (entry \<le> 0 \<or> leverage \<le> 0) (ValueError ''entry and leverage must be positive'')
      (guard (stop_loss \<le> 0) (ValueError ''stop_loss must be positive'')
        (Inr (dmul (dmul (ddiv (dabs (dsub entry stop_loss)) entry) 100) leverage)))"

subsection \<open>The assessment\<close>

record risk_assessment =
  ra_approved :: bool
  ra_reasons :: "string list"
  ra_equity :: rat
  ra_existing_open_risk :: rat
  ra_new_risk :: rat
  ra_aggregate_risk :: rat
  ra_risk_percent :: rat
  ra_quantity :: rat
  ra_total_amount :: rat
  ra_storm_sl_loss_percent :: "rat option"
  ra_futures_capital_percent :: rat
  ra_leverage :: rat
  ra_reserved_pending_risk :: rat

definition rejected_early :: "string \<Rightarrow> rat \<Rightarrow> rat \<Rightarrow> rat \<Rightarrow> risk_assessment" where
  "rejected_early reason equity leverage reserved = \<lparr>ra_approved = False, ra_reasons = [reason],
     ra_equity = equity, ra_existing_open_risk = 0, ra_new_risk = 0, ra_aggregate_risk = 0,
     ra_risk_percent = 0, ra_quantity = 0, ra_total_amount = 0, ra_storm_sl_loss_percent = None,
     ra_futures_capital_percent = 0, ra_leverage = leverage, ra_reserved_pending_risk = reserved\<rparr>"

definition open_futures :: "position list \<Rightarrow> rat" where
  "open_futures ps = dsum (map pos_total_amount
     (filter (\<lambda>p. 1 < pos_leverage p \<and> pos_status p = POS_OPEN) ps))"

definition storm_loss_of ::
  "string option \<Rightarrow> rat \<Rightarrow> rat \<Rightarrow> rat \<Rightarrow> rat option res" where
  "storm_loss_of provider entry stop_loss leverage =
     (case provider of
        None \<Rightarrow> Inr None
      | Some p \<Rightarrow>
         if upper p = ''STORM''
         then res_bind (storm_sl_loss_percent entry stop_loss leverage) (\<lambda>x. Inr (Some x))
         else Inr None)"

definition futures_percent :: "instrument \<Rightarrow> position list \<Rightarrow> rat \<Rightarrow> rat \<Rightarrow> rat \<Rightarrow> rat" where
  "futures_percent ins ps total_amount equity leverage =
     (if in_asset_class ins = CRYPTO \<and> 1 < leverage
      then dmul (ddiv (dadd (open_futures ps) total_amount) equity) 100
      else 0)"

definition min_reasons :: "contract_spec \<Rightarrow> rat \<Rightarrow> rat \<Rightarrow> string list" where
  "min_reasons contract quantity total_amount =
     (if quantity \<le> 0 \<or> total_amount \<le> 0
      then [''minimum quantity/contract step prevents a valid position''] else []) @
     (case cs_min_notional contract of
        None \<Rightarrow> []
      | Some m \<Rightarrow> if total_amount < m then [''position notional is below contract minimum''] else [])"

definition storm_reasons :: "risk_policy \<Rightarrow> rat option \<Rightarrow> string list" where
  "storm_reasons policy loss =
     (case loss of
        None \<Rightarrow> []
      | Some x \<Rightarrow> if rp_storm policy < x
                 then [''Storm SL loss exceeds hard 10% position-amount limit''] else [])"

definition limit_reasons ::
  "risk_policy \<Rightarrow> rat \<Rightarrow> rat \<Rightarrow> rat \<Rightarrow> rat \<Rightarrow> rat \<Rightarrow> rat \<Rightarrow> string list" where
  "limit_reasons policy futures risk_percent aggregate aggregate_budget correlated correlated_budget =
     (if rp_futures policy < futures then [''futures capital exceeds portfolio limit''] else []) @
     (if rp_per_trade policy < risk_percent then [''new trade risk exceeds per-trade limit''] else []) @
     (if aggregate_budget < aggregate then [''aggregate open risk exceeds portfolio limit''] else []) @
     (if correlated_budget < correlated then [''correlated risk exceeds portfolio limit''] else [])"

text \<open>
  \<^verbatim>\<open>assess_risk\<close>: the early rejections in their order, then sizing with the smaller of the per-trade budget
  and what the aggregate budget has left, then every limit, each of which adds its reason. The
  futures limit is only checked for a leveraged crypto instrument; otherwise the percentage is 0,
  below every valid limit.
\<close>

definition assess_risk ::
  "account \<Rightarrow> position list \<Rightarrow> strategy_signal \<Rightarrow> instrument \<Rightarrow> contract_spec \<Rightarrow> rat \<Rightarrow> risk_policy
    \<Rightarrow> string option \<Rightarrow> rat \<Rightarrow> rat \<Rightarrow> risk_assessment res" where
  "assess_risk acc ps sg ins contract leverage policy provider correlated_open_risk reserved =
     res_bind (risk_policy_validate policy) (\<lambda>_.
     guard (reserved < 0 \<or> correlated_open_risk < 0)
       (ValueError ''reserved and correlated risk cannot be negative'')
     (if sg_state sg \<noteq> READY_FOR_RISK_REVIEW
      then Inr (rejected_early ''strategy signal is not READY_FOR_RISK_REVIEW''
             (account_equity acc) leverage reserved)
      else
     guard (account_equity acc \<le> 0 \<or> leverage \<le> 0)
       (ValueError ''account equity and leverage must be positive'')
     (res_bind (contract_validate contract) (\<lambda>_.
      if opt_holds (\<lambda>m. m < leverage) (cs_max_leverage contract)
      then Inr (rejected_early ''leverage exceeds contract maximum''
             (account_equity acc) leverage reserved)
      else
     guard (sg_entry sg \<le> 0 \<or> sg_stop_loss sg \<le> 0 \<or> sg_entry sg = sg_stop_loss sg)
       (ValueError ''invalid signal levels'')
     (let equity = account_equity acc in
      res_bind (aggregate_open_risk ps) (\<lambda>existing.
      let committed = dadd existing reserved in
      res_bind (risk_budget_amount equity (rp_per_trade policy)) (\<lambda>risk_budget.
      res_bind (available_aggregate_risk equity (rp_aggregate policy) committed) (\<lambda>available.
      if available \<le> 0
      then Inr ((rejected_early ''aggregate open-risk budget exhausted'' equity leverage reserved)
             \<lparr>ra_existing_open_risk := existing, ra_aggregate_risk := committed,
              ra_risk_percent := dmul (ddiv committed equity) 100\<rparr>)
      else
      let sizing_percent = dmul (ddiv (min risk_budget available) equity) 100 in
      res_bind (calculate_position_size equity (sg_entry sg) (sg_stop_loss sg) leverage
                  sizing_percent contract) (\<lambda>(quantity, total_amount).
      res_bind (candidate_risk_amount total_amount (sg_entry sg) (sg_stop_loss sg) leverage) (\<lambda>new_risk.
      let risk_percent = dmul (ddiv new_risk equity) 100 in
      res_bind (storm_loss_of provider (sg_entry sg) (sg_stop_loss sg) leverage) (\<lambda>storm_loss.
      let futures = futures_percent ins ps total_amount equity leverage;
          aggregate = dadd committed new_risk in
      res_bind (risk_budget_amount equity (rp_aggregate policy)) (\<lambda>aggregate_budget.
      res_bind (risk_budget_amount equity (rp_correlated policy)) (\<lambda>correlated_budget.
      let reasons = min_reasons contract quantity total_amount @ storm_reasons policy storm_loss @
            limit_reasons policy futures risk_percent aggregate aggregate_budget
              (dadd correlated_open_risk new_risk) correlated_budget in
      Inr \<lparr>ra_approved = (reasons = []), ra_reasons = reasons, ra_equity = equity,
           ra_existing_open_risk = existing, ra_new_risk = new_risk, ra_aggregate_risk = aggregate,
           ra_risk_percent = risk_percent, ra_quantity = quantity, ra_total_amount = total_amount,
           ra_storm_sl_loss_percent = storm_loss, ra_futures_capital_percent = futures,
           ra_leverage = leverage, ra_reserved_pending_risk = reserved\<rparr>)))))))))))))"

subsection \<open>The risk gate of the staged pipeline\<close>

text \<open>
  \<^verbatim>\<open>RiskIntegration\<close> reads a signal mapping with \<^verbatim>\<open>.get(key, default)\<close>; an absent key is \<open>None\<close> and a
  number stands for itself.
\<close>

record risk_signal =
  rsg_symbol :: "string option"
  rsg_risk_score :: "rat option"
  rsg_position_size :: "rat option"

record risk_decision =
  rd_symbol :: string
  rd_approved :: bool
  rd_risk_score :: rat
  rd_reason :: string
  rd_position_size :: rat

definition or_default :: "'a \<Rightarrow> 'a option \<Rightarrow> 'a" where
  "or_default d x = (case x of None \<Rightarrow> d | Some v \<Rightarrow> v)"

definition risk_integration_evaluate :: "rat \<Rightarrow> risk_signal list \<Rightarrow> risk_decision list" where
  "risk_integration_evaluate max_risk_score sigs = map (\<lambda>s.
     let score = or_default 0 (rsg_risk_score s); approved = score \<le> max_risk_score in
     \<lparr>rd_symbol = or_default [] (rsg_symbol s), rd_approved = approved, rd_risk_score = score,
      rd_reason = (if approved then ''APPROVED'' else ''RISK_LIMIT_EXCEEDED''),
      rd_position_size = or_default 0 (rsg_position_size s)\<rparr>) sigs"

record approved_risk_package =
  ap_symbol :: string
  ap_approved :: bool
  ap_risk_score :: rat
  ap_position_size :: rat
  ap_state :: string

definition risk_pipeline_evaluate :: "risk_decision \<Rightarrow> approved_risk_package" where
  "risk_pipeline_evaluate d =
     (if \<not> rd_approved d
      then \<lparr>ap_symbol = rd_symbol d, ap_approved = False, ap_risk_score = rd_risk_score d,
            ap_position_size = 0, ap_state = ''REJECTED''\<rparr>
      else \<lparr>ap_symbol = rd_symbol d, ap_approved = True, ap_risk_score = rd_risk_score d,
            ap_position_size = rd_position_size d, ap_state = ''APPROVED_FOR_EXECUTION''\<rparr>)"

subsection \<open>Lemmas on the risk arithmetic\<close>

lemma candidate_risk_Inr [guard_simps]:
  "candidate_risk_amount t e s l = Inr r \<longleftrightarrow> 0 \<le> t \<and> 0 < e \<and> 0 < s \<and> 0 < l \<and>
     r = dmul (ddiv (dmul t (dabs (dsub e s))) e) l"
  by (auto simp: candidate_risk_amount_def guard_simps)

lemma candidate_risk_nonneg: "candidate_risk_amount t e s l = Inr r \<Longrightarrow> 0 \<le> r"
  by (auto simp: guard_simps)

lemma candidate_risk_mono:
  "candidate_risk_amount t e s l = Inr r \<Longrightarrow> candidate_risk_amount t' e s l = Inr r' \<Longrightarrow>
   t \<le> t' \<Longrightarrow> r \<le> r'"
  by (auto simp: guard_simps intro!: dmul_mono_right ddiv_mono)

lemma position_open_risk_nonneg: "position_open_risk p = Inr r \<Longrightarrow> 0 \<le> r"
  by (auto simp: position_open_risk_def candidate_risk_nonneg split: if_splits)

lemma aggregate_open_risk_nonneg: "aggregate_open_risk ps = Inr r \<Longrightarrow> 0 \<le> r"
  by (auto simp: aggregate_open_risk_def guard_simps res_map_Inr_iff list_all2_conv_all_nth
      in_set_conv_nth intro!: dsum_nonneg) (metis position_open_risk_nonneg)

definition risk_inputs_ok :: "position \<Rightarrow> bool" where
  "risk_inputs_ok p \<longleftrightarrow> pos_status p = POS_OPEN \<longrightarrow>
     0 \<le> pos_total_amount p \<and> 0 < pos_entry_price p \<and> 0 < pos_stop_loss p \<and> 0 < pos_leverage p"

lemma position_open_risk_total: "risk_inputs_ok p \<Longrightarrow> \<exists>r. position_open_risk p = Inr r"
  by (simp add: risk_inputs_ok_def position_open_risk_def candidate_risk_Inr)

lemma aggregate_open_risk_total:
  "list_all risk_inputs_ok ps \<Longrightarrow> \<exists>r. aggregate_open_risk ps = Inr r"
  using res_map_total [of ps position_open_risk] position_open_risk_total
  by (auto simp: aggregate_open_risk_def list_all_iff)

lemma risk_budget_Inr [guard_simps]:
  "risk_budget_amount e p = Inr b \<longleftrightarrow> 0 < e \<and> 0 \<le> p \<and> p \<le> 100 \<and> b = ddiv (dmul e p) 100"
  by (auto simp: risk_budget_amount_def guard_simps)

lemma available_Inr [guard_simps]:
  "available_aggregate_risk e p c = Inr a \<longleftrightarrow>
     0 \<le> c \<and> 0 < e \<and> 0 \<le> p \<and> p \<le> 100 \<and> a = max 0 (dsub (ddiv (dmul e p) 100) c)"
  by (auto simp: available_aggregate_risk_def guard_simps)

lemma round_quantity_Inr [guard_simps]:
  "round_quantity q s = Inr r \<longleftrightarrow> 0 \<le> q \<and> 0 < s \<and> r = dmul (dtrunc (ddiv q s)) s"
  by (auto simp: round_quantity_def guard_simps)

lemma round_quantity_bounds:
  assumes "round_quantity q s = Inr r"
  shows "0 \<le> r" and "r \<le> q * (1 + eps) ^ 2"
proof -
  from assms have q: "0 \<le> q" and s: "0 < s" and r: "r = dmul (dtrunc (ddiv q s)) s"
    by (auto simp: guard_simps)
  have t: "0 \<le> dtrunc (ddiv q s)" "dtrunc (ddiv q s) \<le> ddiv q s"
    using q s dtrunc_nonneg [of "ddiv q s"] by simp_all
  show "0 \<le> r" using r t s by simp
  have "r \<le> dtrunc (ddiv q s) * s * (1 + eps)" using r t s dmul_upper by simp
  also have "\<dots> \<le> (q / s * (1 + eps)) * s * (1 + eps)"
    using t(2) ddiv_upper [of q s] q s by (intro mult_right_mono) simp_all
  also have "\<dots> = q * (1 + eps) ^ 2" using s by (simp add: power2_eq_square)
  finally show "r \<le> q * (1 + eps) ^ 2" .
qed

lemma position_size_parts:
  assumes "calculate_position_size eq e s l pct c = Inr (q, t)"
  shows "0 < eq" "0 < e" "0 < l" "0 < pct" "e \<noteq> s"
    and "q = 0 \<and> t = 0 \<or>
      cs_min_quantity c \<le> q \<and> t = dmul q e \<and>
      round_quantity (ddiv (ddiv (ddiv (dmul eq pct) 100)
        (dmul (ddiv (dabs (dsub e s)) e) l)) e) (cs_quantity_step c) = Inr q"
  using assms by (auto simp: calculate_position_size_def Let_def guard_simps not_le divide_le_0_iff
      split: if_splits)

text \<open>Pulling one rounding factor at a time out of the chain of the sizing formula.\<close>

lemma chain_upper:
  fixes x y c :: rat
  shows "x \<le> y * f \<Longrightarrow> 0 \<le> c \<Longrightarrow> x * c \<le> y * c * f"
  using mult_right_mono [of x "y * f" c] by (simp add: mult_ac)

lemma candidate_risk_upper:
  assumes "candidate_risk_amount t e s l = Inr r"
  shows "r \<le> t * (dabs (dsub e s) * l / e) * (1 + eps) ^ 3"
proof -
  let ?D = "dabs (dsub e s)"
  from assms have pos: "0 \<le> t" "0 < e" "0 < l" and r: "r = dmul (ddiv (dmul t ?D) e) l"
    by (auto simp: guard_simps)
  have a: "dmul t ?D \<le> t * ?D * (1 + eps)" using pos by (intro dmul_upper) simp_all
  have "ddiv (dmul t ?D) e \<le> dmul t ?D / e * (1 + eps)" using pos by (intro ddiv_upper) simp_all
  also have "\<dots> \<le> t * ?D * (1 + eps) / e * (1 + eps)"
    using a pos by (intro mult_right_mono divide_right_mono) simp_all
  finally have b: "ddiv (dmul t ?D) e \<le> t * ?D * (1 + eps) / e * (1 + eps)" .
  have "r \<le> ddiv (dmul t ?D) e * l * (1 + eps)" unfolding r using pos by (intro dmul_upper) simp_all
  also have "\<dots> \<le> t * ?D * (1 + eps) / e * (1 + eps) * l * (1 + eps)"
    using b pos by (intro mult_right_mono) simp_all
  also have "\<dots> = t * (?D * l / e) * (1 + eps) ^ 3" by (simp add: power3_eq_cube field_simps)
  finally show ?thesis .
qed

lemma sizing_denominator_lower:
  assumes "0 < e" "0 < l" "0 \<le> D"
  shows "D * l / e * (1 - eps) ^ 2 \<le> dmul (ddiv D e) l"
proof -
  have "D * l / e * (1 - eps) ^ 2 = D / e * (1 - eps) * l * (1 - eps)"
    by (simp add: power2_eq_square)
  also have "\<dots> \<le> ddiv D e * l * (1 - eps)"
    using assms ddiv_lower [of D e] by (intro mult_right_mono) simp_all
  also have "\<dots> \<le> dmul (ddiv D e) l" using assms by (intro dmul_lower) simp_all
  finally show ?thesis .
qed

lemma collect_factors:
  fixes x y e l u :: rat
  shows "e \<noteq> 0 \<Longrightarrow> x / e * u * u ^ 2 * e * u * l = x * l * u ^ 4" and "y * u * u ^ 4 = y * u ^ 5"
  by (simp_all add: eval_nat_numeral)

lemma sized_total_upper:
  assumes "round_quantity (ddiv (ddiv ra L) e) st = Inr q" "0 \<le> ra" "0 < L" "0 < e"
  shows "dmul q e * L \<le> ra * (1 + eps) ^ 5"
proof -
  let ?T = "ddiv ra L"
  have T: "?T * L \<le> ra * (1 + eps)"
    using ddiv_upper [of ra L] assms by (simp add: field_simps)
  have "q \<le> ddiv ?T e * (1 + eps) ^ 2" using assms(1) by (rule round_quantity_bounds)
  also have "\<dots> \<le> ?T / e * (1 + eps) * (1 + eps) ^ 2"
    using assms ddiv_upper [of ?T e] by (intro mult_right_mono) simp_all
  finally have q: "q \<le> ?T / e * (1 + eps) * (1 + eps) ^ 2" .
  have "dmul q e * L \<le> q * e * (1 + eps) * L"
    using dmul_upper [of q e] round_quantity_bounds(1) [OF assms(1)] assms by (intro mult_right_mono) simp_all
  also have "\<dots> \<le> ?T / e * (1 + eps) * (1 + eps) ^ 2 * e * (1 + eps) * L"
    using q assms by (intro mult_right_mono) simp_all
  also have "\<dots> = ?T * L * (1 + eps) ^ 4" using assms(4) by (intro collect_factors) simp
  also have "\<dots> \<le> ra * (1 + eps) * (1 + eps) ^ 4" using T by (intro mult_right_mono) simp_all
  also have "\<dots> = ra * (1 + eps) ^ 5" by (rule collect_factors)
  finally show ?thesis .
qed

lemma square_slack:
  fixes x a :: rat
  assumes "0 \<le> x" "x \<le> 1 / 10000" "0 \<le> a" "a \<le> 10"
  shows "(1 + a * x) ^ 2 \<le> 1 + (2 * a + 1 / 10) * x"
proof -
  have "a * a \<le> 10 * 10" using assms by (intro mult_mono) simp_all
  then have "(a * a) * (x * x) \<le> 100 * (x * x)" by (intro mult_right_mono) simp_all
  moreover have "100 * (x * x) \<le> 1 / 10 * x"
    using mult_left_mono [of "x" "1 / 1000" x] assms by simp
  moreover have "(1 + a * x) ^ 2 = 1 + 2 * a * x + (a * a) * (x * x)"
    by (simp add: power2_eq_square algebra_simps)
  ultimately show ?thesis by (simp add: algebra_simps)
qed

lemma rounding_slack: "(1 + eps) ^ 10 \<le> (1 + 1 / 10 ^ 26) * (1 - eps) ^ 2"
proof -
  have e: "0 \<le> eps" "eps \<le> 1 / 10000" by (simp_all add: eps_def)
  have p: "0 \<le> 1 + eps" by simp
  have s1: "(1 + eps) ^ 2 \<le> 1 + (21 / 10) * eps" using square_slack [of eps 1] e by simp
  have s2: "((1 + eps) ^ 2) ^ 2 \<le> (1 + (21 / 10) * eps) ^ 2" using s1 by (intro power_mono) simp_all
  have s3: "(1 + (21 / 10) * eps) ^ 2 \<le> 1 + (43 / 10) * eps" using square_slack [of eps "21/10"] e by simp
  have s4: "(((1 + eps) ^ 2) ^ 2) ^ 2 \<le> (1 + (43 / 10) * eps) ^ 2" using s2 s3 by (intro power_mono) simp_all
  have s5: "(1 + (43 / 10) * eps) ^ 2 \<le> 1 + (87 / 10) * eps" using square_slack [of eps "43/10"] e by simp
  have "(1 + eps) ^ 10 = (((1 + eps) ^ 2) ^ 2) ^ 2 * (1 + eps) ^ 2"
    by (simp add: power_mult [symmetric] power_add [symmetric])
  also have "\<dots> \<le> (1 + (87 / 10) * eps) * (1 + (21 / 10) * eps)"
    using s1 s4 s5 e by (intro mult_mono) simp_all
  finally have l: "(1 + eps) ^ 10 \<le> 1 + (108 / 10) * eps + (1827 / 100) * (eps * eps)"
    by (simp add: field_simps)
  have ee: "eps * eps \<le> 1 / 10000 * eps" "0 \<le> eps * eps" "0 \<le> eps * (eps * eps)"
    using e mult_right_mono [of eps "1 / 10000" eps] by simp_all
  have r: "(1 + 1 / 10 ^ 26) * (1 - eps) ^ 2 = 1 + 18 * eps - 39 * (eps * eps) + 20 * (eps * (eps * eps))"
  proof -
    have d: "(1 / 10 ^ 26 :: rat) = 20 * eps" by (simp add: eps_def)
    show ?thesis unfolding d by (simp add: power2_eq_square algebra_simps)
  qed
  show ?thesis unfolding r using l ee e by linarith
qed
lemma budget_upper:
  "0 \<le> eq \<Longrightarrow> 0 \<le> pct \<Longrightarrow> ddiv (dmul eq pct) 100 \<le> eq * pct / 100 * (1 + eps) ^ 2"
  using order_trans [OF ddiv_upper [of "dmul eq pct" 100]
      mult_right_mono [OF divide_right_mono [OF dmul_upper [of eq pct], of 100], of "1 + eps"]]
  by (simp add: power2_eq_square mult.assoc)

text \<open>The position that is sized never risks more than the requested share of the equity, up to rounding.\<close>

lemma sized_risk:
  assumes "calculate_position_size eq e s l pct c = Inr (q, t)"
    and "candidate_risk_amount t e s l = Inr r"
  shows "r \<le> eq * pct / 100 * (1 + 1 / 10 ^ 26)"
proof -
  let ?D = "dabs (dsub e s)" and ?ra = "ddiv (dmul eq pct) 100"
  let ?L = "dmul (ddiv ?D e) l"
  note pos = position_size_parts(1-5) [OF assms(1)]
  have b: "0 \<le> eq * pct / 100" using pos by simp
  show ?thesis
  proof (cases "t = 0")
    case True
    then have "r = 0" using assms(2) by (auto simp: guard_simps dmul_def ddiv_def dec.zero)
    then show ?thesis using b by simp
  next
    case False
    with position_size_parts(6) [OF assms(1)]
    have t: "t = dmul q e" and q: "round_quantity (ddiv (ddiv ?ra ?L) e) (cs_quantity_step c) = Inr q"
      by auto
    have L: "0 < ?L" using pos by simp
    have tL: "t * ?L \<le> ?ra * (1 + eps) ^ 5"
      unfolding t using pos by (intro sized_total_upper [OF q _ L]) simp_all
    have t0: "0 \<le> t" using assms(2) by (simp add: guard_simps)
    have "r * (1 - eps) ^ 2 \<le> t * (?D * l / e) * (1 + eps) ^ 3 * (1 - eps) ^ 2"
      using candidate_risk_upper [OF assms(2)] by (intro mult_right_mono) simp_all
    also have "\<dots> = t * (?D * l / e * (1 - eps) ^ 2) * (1 + eps) ^ 3" by (simp add: mult_ac)
    also have "\<dots> \<le> t * ?L * (1 + eps) ^ 3"
      using t0 pos sizing_denominator_lower [of e l ?D] by (intro mult_right_mono mult_left_mono) simp_all
    also have "\<dots> \<le> ?ra * (1 + eps) ^ 5 * (1 + eps) ^ 3" using tL by (intro mult_right_mono) simp_all
    also have "\<dots> \<le> eq * pct / 100 * (1 + eps) ^ 2 * (1 + eps) ^ 5 * (1 + eps) ^ 3"
      using budget_upper [of eq pct] pos by (intro mult_right_mono) simp_all
    also have "\<dots> = eq * pct / 100 * (1 + eps) ^ 10" by (simp add: power_add [symmetric] mult.assoc)
    also have "\<dots> \<le> eq * pct / 100 * ((1 + 1 / 10 ^ 26) * (1 - eps) ^ 2)"
      using b rounding_slack by (intro mult_left_mono) simp_all
    finally have "r * (1 - eps) ^ 2 \<le> eq * pct / 100 * (1 + 1 / 10 ^ 26) * (1 - eps) ^ 2"
      by (simp add: mult.assoc)
    then show ?thesis by (rule mult_right_le_imp_le) simp
  qed
qed

subsection \<open>What an assessment guarantees\<close>

text \<open>An assessment is an early rejection, or it has passed through sizing and every limit.\<close>

definition sized_assessment ::
  "account \<Rightarrow> position list \<Rightarrow> strategy_signal \<Rightarrow> instrument \<Rightarrow> contract_spec \<Rightarrow> rat \<Rightarrow> risk_policy
    \<Rightarrow> rat \<Rightarrow> rat \<Rightarrow> risk_assessment \<Rightarrow> bool" where
  "sized_assessment acc ps sg ins c leverage policy correlated reserved a \<longleftrightarrow>
     (\<exists>available.
       available_aggregate_risk (account_equity acc) (rp_aggregate policy)
         (dadd (ra_existing_open_risk a) reserved) = Inr available \<and> 0 < available \<and>
       calculate_position_size (account_equity acc) (sg_entry sg) (sg_stop_loss sg) leverage
         (dmul (ddiv (min (ddiv (dmul (account_equity acc) (rp_per_trade policy)) 100) available)
            (account_equity acc)) 100) c = Inr (ra_quantity a, ra_total_amount a)) \<and>
     aggregate_open_risk ps = Inr (ra_existing_open_risk a) \<and>
     candidate_risk_amount (ra_total_amount a) (sg_entry sg) (sg_stop_loss sg) leverage = Inr (ra_new_risk a) \<and>
     ra_risk_percent a = dmul (ddiv (ra_new_risk a) (account_equity acc)) 100 \<and>
     ra_futures_capital_percent a =
       futures_percent ins ps (ra_total_amount a) (account_equity acc) leverage \<and>
     ra_aggregate_risk a = dadd (dadd (ra_existing_open_risk a) reserved) (ra_new_risk a) \<and>
     ra_reasons a = min_reasons c (ra_quantity a) (ra_total_amount a) @
       storm_reasons policy (ra_storm_sl_loss_percent a) @
       limit_reasons policy (ra_futures_capital_percent a) (ra_risk_percent a) (ra_aggregate_risk a)
         (ddiv (dmul (account_equity acc) (rp_aggregate policy)) 100)
         (dadd correlated (ra_new_risk a))
         (ddiv (dmul (account_equity acc) (rp_correlated policy)) 100)"

lemma assess_risk_cases:
  assumes "assess_risk acc ps sg ins c leverage policy provider correlated reserved = Inr a"
  obtains (early) "\<not> ra_approved a" "\<exists>r. ra_reasons a = [r]"
  | (sized) "sg_state sg = READY_FOR_RISK_REVIEW" "0 < account_equity acc" "0 < leverage"
      "\<not> opt_holds (\<lambda>m. m < leverage) (cs_max_leverage c)"
      "contract_validate c = Inr ()" "risk_policy_validate policy = Inr ()"
      "storm_loss_of provider (sg_entry sg) (sg_stop_loss sg) leverage = Inr (ra_storm_sl_loss_percent a)"
      "sized_assessment acc ps sg ins c leverage policy correlated reserved a"
      "ra_approved a \<longleftrightarrow> ra_reasons a = []"
proof (cases "sg_state sg = READY_FOR_RISK_REVIEW \<and> \<not> opt_holds (\<lambda>m. m < leverage) (cs_max_leverage c)")
  case False
  with assms have "\<not> ra_approved a \<and> (\<exists>r. ra_reasons a = [r])"
    by (auto simp: assess_risk_def guard_simps rejected_early_def split: if_splits)
  then show ?thesis using early by blast
next
  case True
  let ?E = "account_equity acc"
  from assms True obtain existing available where pre:
      "risk_policy_validate policy = Inr ()" "contract_validate c = Inr ()" "0 < ?E" "0 < leverage"
      "aggregate_open_risk ps = Inr existing"
      "available_aggregate_risk ?E (rp_aggregate policy) (dadd existing reserved) = Inr available"
    by (auto simp: assess_risk_def Let_def res_bind_Inr_iff guard_Inr_iff not_le simp del: dadd_signs)
  note unf = assms [unfolded assess_risk_def Let_def, simplified pre True res_bind_simps if_False simp_thms not_True_eq_False]
  show ?thesis
  proof (cases "available \<le> 0")
    case True
    then have "\<not> ra_approved a \<and> (\<exists>r. ra_reasons a = [r])"
      using unf by (auto simp: guard_Inr_iff res_bind_Inr_iff rejected_early_def)
    then show ?thesis using early by blast
  next
    case False
    obtain q t where qt: "calculate_position_size ?E (sg_entry sg) (sg_stop_loss sg) leverage
         (dmul (ddiv (min (ddiv (dmul ?E (rp_per_trade policy)) 100) available) ?E) 100) c = Inr (q, t)"
      using unf False by (auto simp: guard_Inr_iff res_bind_Inr_iff risk_budget_Inr)
    show ?thesis
      using unf False pre True qt
      by (intro sized) (auto simp: guard_Inr_iff res_bind_Inr_iff risk_budget_Inr sized_assessment_def)
  qed
qed

lemma no_reasons_iff:
  "min_reasons c q t = [] \<longleftrightarrow> 0 < q \<and> 0 < t \<and> \<not> opt_holds (\<lambda>m. t < m) (cs_min_notional c)"
  "storm_reasons policy x = [] \<longleftrightarrow> \<not> opt_holds (\<lambda>l. rp_storm policy < l) x"
  "limit_reasons policy fu rp ag ab co cb = [] \<longleftrightarrow>
     fu \<le> rp_futures policy \<and> rp \<le> rp_per_trade policy \<and> ag \<le> ab \<and> co \<le> cb"
  by (auto simp: min_reasons_def storm_reasons_def limit_reasons_def split: option.splits)

lemma assess_risk_reasons:
  assumes "assess_risk acc ps sg ins c leverage policy provider correlated reserved = Inr a"
  shows "ra_approved a \<longleftrightarrow> ra_reasons a = []"
  using assms by (cases rule: assess_risk_cases) auto

lemma position_size_total:
  assumes "0 < eq" "0 < e" "0 < l" "0 < pct" "e \<noteq> s" "0 < cs_quantity_step c"
  obtains q t where "calculate_position_size eq e s l pct c = Inr (q, t)" "0 \<le> t"
proof -
  let ?x = "ddiv (ddiv (ddiv (dmul eq pct) 100) (dmul (ddiv (dabs (dsub e s)) e) l)) e"
  obtain q where q: "round_quantity ?x (cs_quantity_step c) = Inr q"
    using assms by (simp add: guard_simps)
  note q0 = round_quantity_bounds(1) [OF q]
  show thesis
    using assms q q0 that [of "if q < cs_min_quantity c then 0 else q" "if q < cs_min_quantity c then 0 else dmul q e"]
    by (simp add: calculate_position_size_def Let_def guard_def divide_le_0_iff not_le split: if_splits)
qed

lemma storm_loss_total:
  "0 < e \<Longrightarrow> 0 < s \<Longrightarrow> 0 < l \<Longrightarrow> \<exists>x. storm_loss_of provider e s l = Inr x"
  by (auto simp: storm_loss_of_def storm_sl_loss_percent_def split: option.splits)

lemma policy_bounds:
  "risk_policy_validate policy = Inr () \<longleftrightarrow> percent_ok (rp_per_trade policy) \<and>
     percent_ok (rp_aggregate policy) \<and> percent_ok (rp_storm policy) \<and> percent_ok (rp_futures policy) \<and>
     percent_ok (rp_correlated policy)"
  by (auto simp: risk_policy_validate_def guard_simps)

text \<open>Valid inputs are always assessed: no check inside raises.\<close>

lemma assess_risk_answers:
  assumes "risk_policy_validate policy = Inr ()" "0 \<le> reserved" "0 \<le> correlated"
    and "0 < account_equity acc" "0 < leverage" "contract_validate c = Inr ()"
    and "0 < sg_entry sg" "0 < sg_stop_loss sg" "sg_entry sg \<noteq> sg_stop_loss sg"
    and "list_all risk_inputs_ok ps"
  shows "\<exists>a. assess_risk acc ps sg ins c leverage policy provider correlated reserved = Inr a"
proof -
  let ?E = "account_equity acc"
  obtain ex where ex: "aggregate_open_risk ps = Inr ex" "0 \<le> ex"
    using aggregate_open_risk_total [OF assms(10)] aggregate_open_risk_nonneg by blast
  have com: "0 \<le> dadd ex reserved" using ex assms(2) by (simp add: dadd_signs)
  from assms(1) have pol: "percent_ok (rp_per_trade policy)" "percent_ok (rp_aggregate policy)"
    "percent_ok (rp_correlated policy)" by (auto simp: policy_bounds)
  let ?b = "ddiv (dmul ?E (rp_per_trade policy)) 100"
  let ?av = "max 0 (dsub (ddiv (dmul ?E (rp_aggregate policy)) 100) (dadd ex reserved))"
  have bud: "risk_budget_amount ?E (rp_per_trade policy) = Inr ?b" "0 < ?b"
    "\<exists>b. risk_budget_amount ?E (rp_aggregate policy) = Inr b"
    "\<exists>b. risk_budget_amount ?E (rp_correlated policy) = Inr b"
    using pol assms(4) by (auto simp: guard_simps percent_ok_def)
  have av: "available_aggregate_risk ?E (rp_aggregate policy) (dadd ex reserved) = Inr ?av"
    using pol assms(4) com by (auto simp: guard_simps percent_ok_def)
  have st: "0 < cs_quantity_step c" using assms(6) by (auto simp: contract_validate_def guard_simps)
  show ?thesis
  proof (cases "?av \<le> 0")
    case True
    then show ?thesis using assms ex bud av
      by (auto simp: assess_risk_def guard_def Let_def simp del: max.bounded_iff)
  next
    case False
    let ?pct = "dmul (ddiv (min ?b ?av) ?E) 100"
    have "0 < ?pct" using False bud(2) assms(4) by (simp add: zero_less_mult_iff zero_less_divide_iff)
    then obtain q t where qt: "calculate_position_size ?E (sg_entry sg) (sg_stop_loss sg) leverage ?pct c = Inr (q, t)"
      and t: "0 \<le> t"
      using position_size_total [of ?E "sg_entry sg" leverage ?pct "sg_stop_loss sg" c] assms st by blast
    obtain r where r: "candidate_risk_amount t (sg_entry sg) (sg_stop_loss sg) leverage = Inr r"
      using t assms by (auto simp: guard_simps)
    obtain x where x: "storm_loss_of provider (sg_entry sg) (sg_stop_loss sg) leverage = Inr x"
      using storm_loss_total assms by blast
    obtain b2 b3 where b: "risk_budget_amount ?E (rp_aggregate policy) = Inr b2"
      "risk_budget_amount ?E (rp_correlated policy) = Inr b3" using bud by blast
    show ?thesis unfolding assess_risk_def Let_def
      by (simp only: assms(1) ex bud(1) av b r x qt res_bind_simps prod.case)
        (use assms in \<open>auto simp: guard_def\<close>)
  qed
qed

end
