(* ===== verification/Portfolio.thy ===== *)
theory Portfolio
  imports Risk
begin

section \<open>Portfolio: correlation, exposure and the portfolio gate\<close>

text \<open>
  \<^verbatim>\<open>app/portfolio/correlation.py\<close>, \<^verbatim>\<open>exposure.py\<close> and \<^verbatim>\<open>portfolio_engine.py\<close> (\<^verbatim>\<open>account.py\<close> is in the
  theory \<open>Risk\<close>).
\<close>

subsection \<open>Correlation\<close>

definition validate_correlation :: "rat \<Rightarrow> unit res" where
  "validate_correlation v =
     guard (v < - 1 \<or> 1 < v) (ValueError ''correlation must be between -1 and 1'') (Inr ())"

record correlation_pair =
  cp_first :: string
  cp_second :: string
  cp_coefficient :: rat

definition correlation_pair_make :: "string \<Rightarrow> string \<Rightarrow> rat \<Rightarrow> correlation_pair res" where
  "correlation_pair_make first second coefficient =
     res_bind (validate_correlation coefficient) (\<lambda>_.
     guard (strip first = [] \<or> strip second = []) (ValueError ''correlation symbols must not be empty'')
       (Inr \<lparr>cp_first = first, cp_second = second, cp_coefficient = coefficient\<rparr>))"

text \<open>The \<^verbatim>\<open>for\<close> loop of \<^verbatim>\<open>coefficient\<close>: the first pair with these two symbols, in either order.\<close>

fun find_pair :: "correlation_pair list \<Rightarrow> string \<Rightarrow> string \<Rightarrow> rat" where
  "find_pair [] a b = 0"
| "find_pair (p # ps) a b =
     (if {upper (cp_first p), upper (cp_second p)} = {a, b} then cp_coefficient p else find_pair ps a b)"

definition coefficient :: "correlation_pair list \<Rightarrow> string \<Rightarrow> string \<Rightarrow> rat" where
  "coefficient pairs first second =
     (if upper first = upper second then 1 else find_pair pairs (upper first) (upper second))"

definition correlation_risk_multiplier :: "rat \<Rightarrow> rat res" where
  "correlation_risk_multiplier v = res_bind (validate_correlation v) (\<lambda>_. Inr (max 0 v))"

definition correlated_risk :: "rat \<Rightarrow> rat \<Rightarrow> rat \<Rightarrow> rat res" where
  "correlated_risk new_risk existing_risk correlation =
     guard (new_risk < 0 \<or> existing_risk < 0) (ValueError ''risk cannot be negative'')
      (res_bind (correlation_risk_multiplier correlation) (\<lambda>m.
        Inr (dadd new_risk (dmul existing_risk m))))"

record correlation_exposure =
  ce_candidate_symbol :: string
  ce_correlated_risk :: rat
  ce_members :: "string list"

fun exposure_loop ::
  "correlation_pair list \<Rightarrow> string \<Rightarrow> rat \<Rightarrow> position list \<Rightarrow> rat \<Rightarrow> string list
    \<Rightarrow> (rat \<times> string list) res" where
  "exposure_loop pairs cand threshold [] tot members = Inr (tot, members)"
| "exposure_loop pairs cand threshold (p # ps) tot members =
     (if pos_status p \<noteq> POS_OPEN then exposure_loop pairs cand threshold ps tot members
      else res_bind (correlation_risk_multiplier (coefficient pairs cand (pos_symbol p))) (\<lambda>c.
        if c \<le> 0 then exposure_loop pairs cand threshold ps tot members
        else res_bind (position_open_risk p) (\<lambda>r.
          exposure_loop pairs cand threshold ps (dadd tot (dmul r c))
            (if threshold \<le> c then members @ [pos_symbol p] else members))))"

definition candidate_exposure ::
  "correlation_pair list \<Rightarrow> string \<Rightarrow> rat \<Rightarrow> position list \<Rightarrow> rat \<Rightarrow> correlation_exposure res" where
  "candidate_exposure pairs cand new_risk ps threshold =
     guard (new_risk < 0) (ValueError ''new_risk cannot be negative'')
      (res_bind (validate_correlation threshold) (\<lambda>_.
       res_bind (exposure_loop pairs cand threshold ps new_risk [cand]) (\<lambda>(tot, members).
         Inr \<lparr>ce_candidate_symbol = cand, ce_correlated_risk = tot,
              ce_members = fromkeys members\<rparr>)))"

lemma multiplier_Inr [guard_simps]:
  "correlation_risk_multiplier v = Inr m \<longleftrightarrow> - 1 \<le> v \<and> v \<le> 1 \<and> m = max 0 v"
  by (auto simp: correlation_risk_multiplier_def validate_correlation_def guard_simps)

lemma find_pair_sym: "find_pair pairs a b = find_pair pairs b a"
  by (induction pairs) (auto simp: insert_commute)

lemma coefficient_sym: "coefficient pairs a b = coefficient pairs b a"
  by (auto simp: coefficient_def find_pair_sym)

definition pairs_ok :: "correlation_pair list \<Rightarrow> bool" where
  "pairs_ok ps = list_all (\<lambda>p. - 1 \<le> cp_coefficient p \<and> cp_coefficient p \<le> 1) ps"

lemma correlation_pair_make_ok:
  "correlation_pair_make a b c = Inr p \<Longrightarrow> pairs_ok [p]"
  by (auto simp: correlation_pair_make_def validate_correlation_def guard_simps pairs_ok_def)

lemma coefficient_range: "pairs_ok pairs \<Longrightarrow> - 1 \<le> coefficient pairs a b \<and> coefficient pairs a b \<le> 1"
proof -
  have "list_all (\<lambda>p. - 1 \<le> cp_coefficient p \<and> cp_coefficient p \<le> 1) pairs \<Longrightarrow>
      - 1 \<le> find_pair pairs x y \<and> find_pair pairs x y \<le> 1" for x y
    by (induction pairs) auto
  then show "pairs_ok pairs \<Longrightarrow> ?thesis" by (auto simp: coefficient_def pairs_ok_def)
qed

subsection \<open>The correlation loop\<close>

lemma exposure_loop_total:
  "pairs_ok pairs \<Longrightarrow> list_all risk_inputs_ok ps \<Longrightarrow>
   \<exists>t ms. exposure_loop pairs cand th ps tot members = Inr (t, ms)"
proof (induction ps arbitrary: tot members)
  case (Cons p ps)
  obtain r where "position_open_risk p = Inr r"
    using Cons.prems(2) position_open_risk_total by auto
  then show ?case using Cons coefficient_range [OF Cons.prems(1), of cand "pos_symbol p"]
    by (auto simp: correlation_risk_multiplier_def validate_correlation_def guard_def)
qed simp

text \<open>Starting from rounded values the running total never falls.\<close>

lemma dadd_ge: "rnd x = x \<Longrightarrow> 0 \<le> y \<Longrightarrow> x \<le> dadd x y"
  unfolding dadd_def by (metis add.commute add_increasing2 dec.mono order_refl add_le_cancel_left add_0)

lemma exposure_loop_ge:
  "exposure_loop pairs cand th ps tot members = Inr (t, ms) \<Longrightarrow> rnd tot = tot \<Longrightarrow>
   tot \<le> t \<and> rnd t = t"
proof (induction ps arbitrary: tot members)
  case (Cons p ps)
  let ?c = "max 0 (coefficient pairs cand (pos_symbol p))"
  show ?case
  proof (cases "pos_status p = POS_OPEN \<and> 0 < ?c")
    case False
    with Cons show ?thesis by (auto simp: guard_simps split: if_splits)
  next
    case True
    with Cons.prems obtain r ms' where r: "position_open_risk p = Inr r"
      and l: "exposure_loop pairs cand th ps (dadd tot (dmul r ?c)) ms' = Inr (t, ms)"
      by (auto simp: guard_simps not_le split: if_splits)
    have "tot \<le> dadd tot (dmul r ?c)"
      using True position_open_risk_nonneg [OF r] Cons.prems(2) by (intro dadd_ge) simp_all
    moreover have "rnd (dadd tot (dmul r ?c)) = dadd tot (dmul r ?c)"
      by (simp add: dadd_def dec.idem)
    ultimately show ?thesis using Cons.IH [OF l] by auto
  qed
qed simp

lemma exposure_loop_mono:
  "exposure_loop pairs cand th ps tot members = Inr (t, ms) \<Longrightarrow> tot' \<le> tot \<Longrightarrow>
   \<exists>t'. exposure_loop pairs cand th ps tot' members = Inr (t', ms) \<and> t' \<le> t"
proof (induction ps arbitrary: tot tot' members)
  case (Cons p ps)
  let ?c = "max 0 (coefficient pairs cand (pos_symbol p))"
  show ?case
  proof (cases "pos_status p = POS_OPEN \<and> 0 < ?c")
    case False
    with Cons show ?thesis by (auto simp: guard_simps split: if_splits)
  next
    case True
    with Cons.prems(1) obtain r where r: "position_open_risk p = Inr r"
      "correlation_risk_multiplier (coefficient pairs cand (pos_symbol p)) = Inr ?c"
      and l: "exposure_loop pairs cand th ps (dadd tot (dmul r ?c))
        (if th \<le> ?c then members @ [pos_symbol p] else members) = Inr (t, ms)"
      by (auto simp: guard_simps not_le split: if_splits)
    from Cons.IH [OF l dadd_mono [OF Cons.prems(2) order_refl]] show ?thesis
      using True r by (simp del: max.strict_boundedE add: not_le [symmetric] del: less_max_iff_disj max_less_iff_conj)
  qed
qed simp

lemma exposure_loop_members:
  "exposure_loop pairs cand th ps tot members = Inr (t, ms) \<Longrightarrow>
   set ms = set members \<union> {pos_symbol p | p. p \<in> set ps \<and> is_open p \<and>
     0 < coefficient pairs cand (pos_symbol p) \<and> th \<le> coefficient pairs cand (pos_symbol p)}"
proof (induction ps arbitrary: tot members)
  case (Cons p ps)
  then show ?case
    by (auto simp: guard_simps is_open_def not_le max_def split: if_splits)
qed simp

subsection \<open>Exposure\<close>

record exposure =
  ex_symbol :: string
  ex_notional :: rat
  ex_risk :: rat

definition build_exposure :: "position list \<Rightarrow> exposure list res" where
  "build_exposure ps = res_map (\<lambda>p. res_bind (position_open_risk p) (\<lambda>r.
     Inr \<lparr>ex_symbol = pos_symbol p, ex_notional = pos_total_amount p, ex_risk = r\<rparr>))
     (filter is_open ps)"

definition total_notional :: "position list \<Rightarrow> rat" where
  "total_notional ps = dsum (map pos_total_amount (filter is_open ps))"

definition total_risk :: "position list \<Rightarrow> rat res" where
  "total_risk ps = res_bind (res_map position_open_risk ps) (\<lambda>rs. Inr (dsum rs))"

record exposure_state =
  xs_gross :: rat
  xs_net :: rat
  xs_collateral :: rat
  xs_futures :: rat
  xs_risk :: rat
  xs_by_symbol :: "(string, rat) dict"
  xs_by_asset_class :: "(string, rat) dict"
  xs_by_quote :: "(string, rat) dict"

record exposure_snapshot = exposure_state +
  xs_pending_reserved :: rat
  xs_margin_utilization :: rat

text \<open>\<^verbatim>\<open>d[k] = d.get(k, 0) + v\<close>, and the same guarded by a label that may be missing or empty.\<close>

definition add_to :: "'k \<Rightarrow> rat \<Rightarrow> ('k, rat) dict \<Rightarrow> ('k, rat) dict" where
  "add_to k v d = dput k (dadd (or_default 0 (dget d k)) v) d"

definition add_label :: "string option \<Rightarrow> rat \<Rightarrow> (string, rat) dict \<Rightarrow> (string, rat) dict" where
  "add_label l v d = (case l of None \<Rightarrow> d | Some k \<Rightarrow> if k = [] then d else add_to k v d)"

definition exposure_step ::
  "(string, string) dict \<Rightarrow> (string, string) dict \<Rightarrow> position \<Rightarrow> exposure_state \<Rightarrow> exposure_state res" where
  "exposure_step classes quotes p s =
     (if pos_status p \<noteq> POS_OPEN then Inr s
      else
        let m = dmul (pos_total_amount p) (pos_leverage p);
            signed = (if pos_side p = LONG then m else dneg m)
        in res_bind (position_open_risk p) (\<lambda>r. Inr \<lparr>
          xs_gross = dadd (xs_gross s) m,
          xs_net = dadd (xs_net s) signed,
          xs_collateral = dadd (xs_collateral s) (pos_total_amount p),
          xs_futures = (if 1 < pos_leverage p then dadd (xs_futures s) (pos_total_amount p) else xs_futures s),
          xs_risk = dadd (xs_risk s) r,
          xs_by_symbol = add_to (pos_symbol p) signed (xs_by_symbol s),
          xs_by_asset_class = add_label (dget classes (pos_symbol p)) m (xs_by_asset_class s),
          xs_by_quote = add_label (dget quotes (pos_symbol p)) signed (xs_by_quote s)\<rparr>))"

fun snapshot_loop ::
  "(string, string) dict \<Rightarrow> (string, string) dict \<Rightarrow> position list \<Rightarrow> exposure_state \<Rightarrow> exposure_state res" where
  "snapshot_loop classes quotes [] s = Inr s"
| "snapshot_loop classes quotes (p # ps) s =
     res_bind (exposure_step classes quotes p s) (snapshot_loop classes quotes ps)"

definition exposure_zero :: exposure_state where
  "exposure_zero = \<lparr>xs_gross = 0, xs_net = 0, xs_collateral = 0, xs_futures = 0, xs_risk = 0,
     xs_by_symbol = [], xs_by_asset_class = [], xs_by_quote = []\<rparr>"

definition build_exposure_snapshot ::
  "position list \<Rightarrow> rat \<Rightarrow> rat \<Rightarrow> (string, string) dict \<Rightarrow> (string, string) dict
    \<Rightarrow> exposure_snapshot res" where
  "build_exposure_snapshot ps equity pending classes quotes =
     guard (equity \<le> 0) (ValueError ''equity must be positive'')
      (guard (pending < 0) (ValueError ''pending_reserved_risk cannot be negative'')
       (res_bind (snapshot_loop classes quotes ps exposure_zero) (\<lambda>s.
         Inr \<lparr>xs_gross = xs_gross s, xs_net = xs_net s, xs_collateral = xs_collateral s,
              xs_futures = xs_futures s, xs_risk = xs_risk s, xs_by_symbol = xs_by_symbol s,
              xs_by_asset_class = xs_by_asset_class s, xs_by_quote = xs_by_quote s,
              xs_pending_reserved = pending,
              xs_margin_utilization = dmul (ddiv (xs_collateral s) equity) 100\<rparr>)))"

text \<open>The gross exposure bounds the net exposure, whatever is rounded.\<close>

lemma add_label_ok: "dict_ok d \<Longrightarrow> dict_ok (add_label l v d)"
  by (auto simp: add_label_def add_to_def split: option.splits)

definition exposure_inv :: "exposure_state \<Rightarrow> bool" where
  "exposure_inv s \<longleftrightarrow> 0 \<le> xs_gross s \<and> - xs_gross s \<le> xs_net s \<and> xs_net s \<le> xs_gross s \<and>
     0 \<le> xs_risk s \<and> 0 \<le> xs_futures s \<and> xs_futures s \<le> xs_collateral s \<and>
     rnd (xs_collateral s) = xs_collateral s \<and>
     dict_ok (xs_by_symbol s) \<and> dict_ok (xs_by_asset_class s) \<and> dict_ok (xs_by_quote s)"

lemma net_step:
  assumes "- g \<le> n" "n \<le> g" "0 \<le> m" "rnd m = m" "x = m \<or> x = dneg m"
  shows "- dadd g m \<le> dadd n x" "dadd n x \<le> dadd g m"
proof -
  have x: "- m \<le> x" "x \<le> m" using assms(3-5) by (auto simp: dneg_eq)
  have "- dadd g m = rnd (- (g + m))" unfolding dadd_def by (rule dec.neg [symmetric])
  also have "\<dots> \<le> dadd n x" unfolding dadd_def using assms x by (intro dec.mono) simp
  finally show "- dadd g m \<le> dadd n x" .
  show "dadd n x \<le> dadd g m" using assms x by (intro dadd_mono) simp_all
qed

lemma exposure_step_inv:
  assumes "exposure_step classes quotes p s = Inr s'" "exposure_inv s"
  shows "exposure_inv s'"
proof (cases "pos_status p = POS_OPEN")
  case False
  with assms show ?thesis by (simp add: exposure_step_def)
next
  case True
  let ?m = "dmul (pos_total_amount p) (pos_leverage p)"
  let ?x = "if pos_side p = LONG then ?m else dneg ?m"
  from assms(1) True obtain r where r: "position_open_risk p = Inr r"
    by (auto simp: exposure_step_def Let_def guard_simps)
  then have pos: "0 \<le> pos_total_amount p" "0 < pos_leverage p"
    using True by (auto simp: position_open_risk_def guard_simps)
  have m: "0 \<le> ?m" using pos by simp
  have mm: "rnd ?m = ?m" by (simp add: dmul_def dec.idem)
  have inv: "0 \<le> xs_gross s" "- xs_gross s \<le> xs_net s" "xs_net s \<le> xs_gross s" "0 \<le> xs_risk s"
    "0 \<le> xs_futures s" "xs_futures s \<le> xs_collateral s" "rnd (xs_collateral s) = xs_collateral s"
    "dict_ok (xs_by_symbol s)" "dict_ok (xs_by_asset_class s)" "dict_ok (xs_by_quote s)"
    using assms(2) by (simp_all add: exposure_inv_def)
  have s': "xs_gross s' = dadd (xs_gross s) ?m" "xs_net s' = dadd (xs_net s) ?x"
    "xs_risk s' = dadd (xs_risk s) r" "xs_collateral s' = dadd (xs_collateral s) (pos_total_amount p)"
    "xs_futures s' = (if 1 < pos_leverage p then dadd (xs_futures s) (pos_total_amount p) else xs_futures s)"
    "xs_by_symbol s' = add_to (pos_symbol p) ?x (xs_by_symbol s)"
    "xs_by_asset_class s' = add_label (dget classes (pos_symbol p)) ?m (xs_by_asset_class s)"
    "xs_by_quote s' = add_label (dget quotes (pos_symbol p)) ?x (xs_by_quote s)"
    using assms(1) True r by (auto simp: exposure_step_def Let_def)
  have "?x = ?m \<or> ?x = dneg ?m" by simp
  from net_step [OF inv(2,3) m mm this]
  have net: "- dadd (xs_gross s) ?m \<le> dadd (xs_net s) ?x" "dadd (xs_net s) ?x \<le> dadd (xs_gross s) ?m" .
  have col: "xs_collateral s \<le> dadd (xs_collateral s) (pos_total_amount p)"
    using inv(7) pos(1) by (rule dadd_ge)
  have fut: "xs_futures s' \<le> xs_collateral s'" "0 \<le> xs_futures s'"
    unfolding s' using inv pos col by (auto intro: dadd_mono simp: dadd_signs)
  have "0 \<le> xs_gross s'" "0 \<le> xs_risk s'" unfolding s'
    using inv m position_open_risk_nonneg [OF r] by (auto simp: dadd_signs)
  moreover have "rnd (xs_collateral s') = xs_collateral s'" unfolding s' by (simp add: dadd_def dec.idem)
  moreover have "dict_ok (xs_by_symbol s')" "dict_ok (xs_by_asset_class s')" "dict_ok (xs_by_quote s')"
    unfolding s' using inv by (auto simp: add_to_def intro: add_label_ok)
  ultimately show ?thesis using net fut unfolding exposure_inv_def s'(1,2) by simp
qed

lemma snapshot_loop_inv:
  "snapshot_loop classes quotes ps s = Inr s' \<Longrightarrow> exposure_inv s \<Longrightarrow> exposure_inv s'"
  by (induction ps arbitrary: s) (auto simp: guard_simps dest: exposure_step_inv)

lemma exposure_zero_inv: "exposure_inv exposure_zero"
  by (simp add: exposure_inv_def exposure_zero_def dec.zero)

subsection \<open>The portfolio gate\<close>

record portfolio_policy =
  pp_aggregate :: rat
  pp_correlated :: rat
  pp_futures :: rat

definition default_portfolio_policy :: portfolio_policy where
  "default_portfolio_policy = \<lparr>pp_aggregate = 4, pp_correlated = 2, pp_futures = 50\<rparr>"

definition portfolio_policy_validate :: "portfolio_policy \<Rightarrow> unit res" where
  "portfolio_policy_validate p =
     guard (\<not> percent_ok (pp_aggregate p)) (ValueError ''max_aggregate_risk_percent must be between 0 and 100'')
    (guard (\<not> percent_ok (pp_correlated p)) (ValueError ''max_correlated_risk_percent must be between 0 and 100'')
    (guard (\<not> percent_ok (pp_futures p)) (ValueError ''max_futures_capital_percent must be between 0 and 100'')
     (Inr ())))"

record portfolio_assessment =
  pa_approved :: bool
  pa_aggregate_risk :: rat
  pa_aggregate_risk_percent :: rat
  pa_correlated_risk :: rat
  pa_correlated_risk_percent :: rat
  pa_notional :: rat
  pa_reasons :: "string list"
  pa_futures_capital_percent :: rat
  pa_reserved_pending_risk :: rat
  pa_correlation_members :: "string list"

definition percent_of :: "rat \<Rightarrow> rat \<Rightarrow> rat" where
  "percent_of x equity = dmul (ddiv x equity) 100"

definition portfolio_reasons :: "portfolio_policy \<Rightarrow> rat \<Rightarrow> rat \<Rightarrow> rat \<Rightarrow> string list" where
  "portfolio_reasons policy aggregate_pct correlated_pct futures_pct =
     (if pp_aggregate policy < aggregate_pct then [''aggregate open risk exceeds portfolio limit''] else []) @
     (if pp_correlated policy < correlated_pct then [''correlated risk exceeds portfolio limit''] else []) @
     (if pp_futures policy < futures_pct then [''futures capital exceeds portfolio limit''] else [])"

definition correlation_of ::
  "string option \<Rightarrow> correlation_pair list option \<Rightarrow> rat \<Rightarrow> position list \<Rightarrow> rat \<Rightarrow> rat
    \<Rightarrow> (rat \<times> string list) res" where
  "correlation_of cand matrix new_risk ps existing_risk correlation =
     (case (matrix, cand) of
        (Some pairs, Some c) \<Rightarrow>
          if c = [] then res_bind (correlated_risk new_risk existing_risk correlation) (\<lambda>r. Inr (r, []))
          else res_bind (candidate_exposure pairs c new_risk ps (3 / 5)) (\<lambda>e.
                 Inr (ce_correlated_risk e, ce_members e))
      | _ \<Rightarrow> res_bind (correlated_risk new_risk existing_risk correlation) (\<lambda>r. Inr (r, [])))"

definition assess_portfolio ::
  "rat \<Rightarrow> position list \<Rightarrow> rat \<Rightarrow> rat \<Rightarrow> rat \<Rightarrow> portfolio_policy \<Rightarrow> rat \<Rightarrow> rat \<Rightarrow> string option
    \<Rightarrow> correlation_pair list option \<Rightarrow> portfolio_assessment res" where
  "assess_portfolio equity ps new_risk new_notional correlation policy new_futures reserved cand matrix =
     guard (equity \<le> 0 \<or> new_risk < 0 \<or> new_notional < 0 \<or> new_futures < 0 \<or> reserved < 0)
       (ValueError ''equity and portfolio values must be valid'')
     (res_bind (portfolio_policy_validate policy) (\<lambda>_.
      res_bind (total_risk ps) (\<lambda>existing_risk.
      let aggregate = dadd (dadd existing_risk reserved) new_risk in
      res_bind (correlation_of cand matrix new_risk ps existing_risk correlation) (\<lambda>(correlated, members).
      let aggregate_pct = percent_of aggregate equity;
          correlated_pct = percent_of correlated equity;
          futures_pct = percent_of (dadd (open_futures ps) new_futures) equity;
          reasons = portfolio_reasons policy aggregate_pct correlated_pct futures_pct in
      Inr \<lparr>pa_approved = (reasons = []), pa_aggregate_risk = aggregate,
           pa_aggregate_risk_percent = aggregate_pct, pa_correlated_risk = correlated,
           pa_correlated_risk_percent = correlated_pct,
           pa_notional = dadd (total_notional ps) new_notional, pa_reasons = reasons,
           pa_futures_capital_percent = futures_pct, pa_reserved_pending_risk = reserved,
           pa_correlation_members = members\<rparr>))))"

lemma percent_of_mono: "0 < e \<Longrightarrow> x \<le> y \<Longrightarrow> percent_of x e \<le> percent_of y e"
  unfolding percent_of_def by (intro dmul_mono_right ddiv_mono) simp_all

lemma correlation_of_mono:
  assumes "correlation_of cand matrix r ps ex k = Inr (c, ms)" "0 \<le> r'" "r' \<le> r"
  shows "\<exists>c'. correlation_of cand matrix r' ps ex k = Inr (c', ms) \<and> c' \<le> c"
proof -
  have a: "\<exists>c'. correlated_risk r' ex k = Inr c' \<and> c' \<le> x" if "correlated_risk r ex k = Inr x" for x
    using that assms(2,3) by (auto simp: correlated_risk_def guard_simps intro: dadd_mono)
  have b: "\<exists>e'. candidate_exposure pairs s r' ps th = Inr e' \<and> ce_correlated_risk e' \<le> ce_correlated_risk e \<and>
      ce_members e' = ce_members e"
    if "candidate_exposure pairs s r ps th = Inr e" for pairs s th e
    using that assms(2) exposure_loop_mono [of pairs s th ps r "[s]" _ _ r', OF _ assms(3)]
    by (fastforce simp: candidate_exposure_def guard_simps)
  show ?thesis using assms(1) a b unfolding correlation_of_def
    by (fastforce simp: guard_simps split: option.splits if_splits)
qed

lemma portfolio_reasons_Nil:
  "portfolio_reasons policy a c f = [] \<longleftrightarrow>
     a \<le> pp_aggregate policy \<and> c \<le> pp_correlated policy \<and> f \<le> pp_futures policy"
  by (auto simp: portfolio_reasons_def)

lemma assess_portfolio_Inr:
  assumes "assess_portfolio equity ps new_risk new_notional k policy nf reserved cand matrix = Inr a"
  obtains existing where "total_risk ps = Inr existing" "0 < equity" "0 \<le> new_risk" "0 \<le> reserved" "0 \<le> nf"
    "0 \<le> new_notional" "portfolio_policy_validate policy = Inr ()"
    "correlation_of cand matrix new_risk ps existing k = Inr (pa_correlated_risk a, pa_correlation_members a)"
    "pa_aggregate_risk a = dadd (dadd existing reserved) new_risk"
    "pa_aggregate_risk_percent a = percent_of (pa_aggregate_risk a) equity"
    "pa_correlated_risk_percent a = percent_of (pa_correlated_risk a) equity"
    "pa_futures_capital_percent a = percent_of (dadd (open_futures ps) nf) equity"
    "pa_reasons a = portfolio_reasons policy (pa_aggregate_risk_percent a)
       (pa_correlated_risk_percent a) (pa_futures_capital_percent a)"
    "pa_approved a \<longleftrightarrow> pa_reasons a = []"
  using assms by (auto simp: assess_portfolio_def Let_def guard_simps)

text \<open>A candidate with less risk than an approved one is approved as well.\<close>

lemma assess_portfolio_mono:
  assumes a: "assess_portfolio equity ps r n k policy nf reserved cand matrix = Inr a" "pa_approved a"
    and r: "0 \<le> r'" "r' \<le> r"
  shows "\<exists>b. assess_portfolio equity ps r' n k policy nf reserved cand matrix = Inr b \<and> pa_approved b"
proof (rule assess_portfolio_Inr [OF a(1)])
  fix existing
  assume h: "total_risk ps = Inr existing" "0 < equity" "0 \<le> r" "0 \<le> reserved" "0 \<le> nf" "0 \<le> n"
    "portfolio_policy_validate policy = Inr ()"
    and c: "correlation_of cand matrix r ps existing k = Inr (pa_correlated_risk a, pa_correlation_members a)"
    and ag: "pa_aggregate_risk a = dadd (dadd existing reserved) r"
      "pa_aggregate_risk_percent a = percent_of (pa_aggregate_risk a) equity"
      "pa_correlated_risk_percent a = percent_of (pa_correlated_risk a) equity"
      "pa_futures_capital_percent a = percent_of (dadd (open_futures ps) nf) equity"
    and rs: "pa_reasons a = portfolio_reasons policy (pa_aggregate_risk_percent a)
       (pa_correlated_risk_percent a) (pa_futures_capital_percent a)"
      "pa_approved a \<longleftrightarrow> pa_reasons a = []"
  obtain c' where c': "correlation_of cand matrix r' ps existing k = Inr (c', pa_correlation_members a)"
    "c' \<le> pa_correlated_risk a" using correlation_of_mono [OF c r] by blast
  have m: "percent_of (dadd (dadd existing reserved) r') equity \<le> pa_aggregate_risk_percent a"
    "percent_of c' equity \<le> pa_correlated_risk_percent a"
    unfolding ag using h(2) r c'(2) by (auto intro!: percent_of_mono dadd_mono)
  have "portfolio_reasons policy (percent_of (dadd (dadd existing reserved) r') equity)
      (percent_of c' equity) (pa_futures_capital_percent a) = []"
    using rs a(2) m by (auto simp: portfolio_reasons_Nil)
  then show ?thesis unfolding ag(4)
    by (simp add: assess_portfolio_def h c'(1) Let_def guard_def) (use h r in auto)
qed

lemma correlation_of_ge:
  assumes "correlation_of cand matrix r ps ex k = Inr (c, ms)" "rnd r = r"
  shows "r \<le> c"
proof -
  have a: "r \<le> x" if "correlated_risk r ex k = Inr x" for x
    using that assms(2) by (auto simp: correlated_risk_def guard_simps intro!: dadd_ge)
  have b: "r \<le> ce_correlated_risk e" if "candidate_exposure pairs s r ps th = Inr e" for pairs s th e
    using that assms(2) by (auto simp: candidate_exposure_def guard_simps dest: exposure_loop_ge)
  show ?thesis using assms(1) a b unfolding correlation_of_def
    by (auto simp: guard_simps split: option.splits if_splits)
qed

end
