(* ===== verification/Interfaces.thy ===== *)
theory Interfaces
  imports Prelude
begin

section \<open>Interfaces between components\<close>

text \<open>
  Contracts that several components promise and several others rely on. Each is interpreted, in the
  theory of the component that provides it, on the definitions that model the code.

  \<^item> \<open>append_only_store\<close>: the fill ledger, the account ledger, the trade journal and the idempotency
    records all refuse to change a record once it is written.
  \<^item> \<open>guarded_machine\<close>: the order lifecycle and the recovery lifecycle are tables of allowed
    transitions, checked before the state is assigned.
\<close>

subsection \<open>Append-only stores\<close>

locale append_only_store =
  fixes save :: "'e \<Rightarrow> 's \<Rightarrow> 's \<times> 'r res"
    and get :: "'s \<Rightarrow> 'k \<Rightarrow> 'e option"
    and key :: "'e \<Rightarrow> 'k"
    and same :: "'e \<Rightarrow> 'e \<Rightarrow> bool"
    and inv :: "'s \<Rightarrow> bool"
  assumes save_inv: "inv s \<Longrightarrow> inv (fst (save e s))"
    and save_stored: "inv s \<Longrightarrow> snd (save e s) = Inr b \<Longrightarrow> \<exists>e'. get (fst (save e s)) (key e) = Some e' \<and> same e' e"
    and save_other: "inv s \<Longrightarrow> k \<noteq> key e \<Longrightarrow> get (fst (save e s)) k = get s k"
    and save_conflict: "inv s \<Longrightarrow> get s (key e) = Some e' \<Longrightarrow> \<not> same e' e \<Longrightarrow>
      fst (save e s) = s \<and> (\<exists>x. snd (save e s) = Inl x)"
    and save_again: "inv s \<Longrightarrow> get s (key e) = Some e' \<Longrightarrow> same e' e \<Longrightarrow>
      get (fst (save e s)) (key e) = Some e' \<and> (\<exists>b. snd (save e s) = Inr b)"
    and save_failed: "inv s \<Longrightarrow> snd (save e s) = Inl x \<Longrightarrow> fst (save e s) = s"
    and get_key: "inv s \<Longrightarrow> get s k = Some e \<Longrightarrow> key e = k"
    and same_refl: "same e e"
begin

text \<open>A stored record survives every later save, whatever is saved.\<close>

lemma immutable:
  assumes "inv s" "get s k = Some e"
  shows "get (fst (save x s)) k = Some e"
proof (cases "key x = k")
  case True
  then show ?thesis using assms save_conflict [of s x e] save_again [of s x e]
    by (cases "same e x") auto
next
  case False
  then show ?thesis using assms save_other [of s k x] by simp
qed

lemma immutable_run:
  assumes "inv s" "get s k = Some e"
  shows "inv (fold (\<lambda>x s. fst (save x s)) xs s) \<and>
         get (fold (\<lambda>x s. fst (save x s)) xs s) k = Some e"
  using assms
proof (induction xs arbitrary: s)
  case (Cons x xs)
  have "inv (fst (save x s))" using Cons.prems(1) by (rule save_inv)
  moreover have "get (fst (save x s)) k = Some e"
    using Cons.prems by (rule immutable)
  ultimately show ?case using Cons.IH by simp
qed simp

text \<open>Retrying a successful save succeeds and changes nothing that can be read.\<close>

lemma save_retry:
  assumes "inv s" "snd (save e s) = Inr b"
  shows "\<exists>b'. snd (save e (fst (save e s))) = Inr b'"
    and "get (fst (save e (fst (save e s)))) = get (fst (save e s))"
proof -
  let ?s = "fst (save e s)"
  have i: "inv ?s" using assms(1) by (rule save_inv)
  obtain e' where e': "get ?s (key e) = Some e'" "same e' e"
    using save_stored [OF assms] by auto
  show "\<exists>b'. snd (save e ?s) = Inr b'" using save_again [OF i e'] by simp
  show "get (fst (save e ?s)) = get ?s"
  proof
    show "get (fst (save e ?s)) k = get ?s k" for k
      using save_again [OF i e'] save_other [OF i, of k e] e' by (cases "k = key e") auto
  qed
qed

text \<open>Two different records under one key: the second is refused.\<close>

lemma no_overwrite:
  assumes "inv s" "snd (save e s) = Inr b" "key x = key e" "\<And>e'. same e' e \<Longrightarrow> \<not> same e' x"
  shows "\<exists>err. save x (fst (save e s)) = (fst (save e s), Inl err)"
proof -
  obtain e' where e': "get (fst (save e s)) (key x) = Some e'" "same e' e"
    using save_stored [OF assms(1,2)] assms(3) by auto
  then have "\<not> same e' x" using assms(4) by blast
  from save_conflict [OF save_inv [OF assms(1)] e'(1) this] show ?thesis
    by (metis prod.collapse)
qed

end

subsection \<open>Guarded state machines\<close>

locale guarded_machine =
  fixes allowed :: "'st \<Rightarrow> 'st \<Rightarrow> bool"
    and move :: "'st \<Rightarrow> 'st \<Rightarrow> 'st res"
    and rank :: "'st \<Rightarrow> nat"
  assumes move_ok: "allowed a b \<Longrightarrow> move a b = Inr b"
    and move_bad: "\<not> allowed a b \<Longrightarrow> \<exists>e. move a b = Inl e"
    and rank_less: "allowed a b \<Longrightarrow> rank b < rank a"
begin

text \<open>The states a sequence of requested targets passes through; a refused request is skipped.\<close>

lemma move_Inr_iff: "move a b = Inr c \<longleftrightarrow> allowed a b \<and> c = b"
  using move_ok [of a b] move_bad [of a b] by (cases "allowed a b") auto

text \<open>Every accepted transition descends, so no state is ever entered twice.\<close>

lemma chain_rank:
  "allowed\<^sup>+\<^sup>+ a b \<Longrightarrow> rank b < rank a"
  by (induction rule: tranclp.induct) (auto dest: rank_less)

lemma acyclic: "\<not> allowed\<^sup>+\<^sup>+ a a"
  using chain_rank [of a a] by blast

lemma terminal_absorbs:
  assumes "\<And>b. \<not> allowed a b" "allowed\<^sup>*\<^sup>* a c"
  shows "c = a"
  using assms(2,1) by (metis converse_rtranclpE)

end

end
