(* ===== verification/Execution.thy ===== *)
theory Execution
  imports Portfolio Interfaces
begin

section \<open>Execution: orders, fills, the paper executor, pending orders\<close>

text \<open>
  \<^verbatim>\<open>app/execution\<close>: \<^verbatim>\<open>models.py\<close>, \<^verbatim>\<open>fills.py\<close>, \<^verbatim>\<open>validation.py\<close>, \<^verbatim>\<open>paper_executor.py\<close>,
  \<^verbatim>\<open>execution_engine.py\<close>, \<^verbatim>\<open>position_builder.py\<close>, \<^verbatim>\<open>risk_reservation.py\<close>, the in-memory
  repositories, \<^verbatim>\<open>pending_orders.py\<close> and \<^verbatim>\<open>pending_order_manager.py\<close>. Collaborators that the code
  receives in a constructor (a price provider, a repository, a fill handler) are arguments.
\<close>

subsection \<open>Orders and fills\<close>

datatype order_type = MARKET | LIMIT

datatype order_status = ORD_PENDING | ORD_ACCEPTED | ORD_FILLED | ORD_REJECTED | ORD_CANCELLED

record order_request =
  or_id :: string
  or_symbol :: string
  or_side :: position_side
  or_type :: order_type
  or_quantity :: rat
  or_requested_price :: "rat option"
  or_stop_loss :: rat
  or_take_profit :: "rat option"
  or_leverage :: rat
  or_created_at :: datetime
  or_decision_snapshot :: "json_text option"

record order_result =
  ot_id :: string
  ot_status :: order_status
  ot_symbol :: string
  ot_filled_price :: "rat option"
  ot_reason :: "string option"
  ot_filled_at :: "datetime option"

record fill =
  fl_id :: string
  fl_order_id :: string
  fl_symbol :: string
  fl_side :: position_side
  fl_quantity :: rat
  fl_price :: rat
  fl_commission :: rat
  fl_filled_at :: datetime

text \<open>The constructor of \<^verbatim>\<open>Fill\<close> with its \<^verbatim>\<open>__post_init__\<close>.\<close>

definition fill_make :: "fill \<Rightarrow> fill res" where
  "fill_make f =
     guard (fl_id f = [] \<or> fl_order_id f = [] \<or> fl_symbol f = [])
       (ValueError ''fill_id, order_id, and symbol are required'')
    (guard (fl_quantity f \<le> 0) (ValueError ''Fill quantity must be positive'')
    (guard (fl_price f \<le> 0) (ValueError ''Fill price must be positive'')
    (guard (fl_commission f < 0) (ValueError ''Commission cannot be negative'')
      (Inr f))))"

lemma fill_make_Inr [guard_simps]:
  "fill_make f = Inr g \<longleftrightarrow> g = f \<and> fl_id f \<noteq> [] \<and> fl_order_id f \<noteq> [] \<and> fl_symbol f \<noteq> [] \<and>
     0 < fl_quantity f \<and> 0 < fl_price f \<and> 0 \<le> fl_commission f"
  by (auto simp: fill_make_def guard_simps)

text \<open>\<^verbatim>\<open>validate_order_request\<close>: the reason of the first rule that is broken, or none.\<close>

definition first_reason :: "(bool \<times> string) list \<Rightarrow> string option" where
  "first_reason rules = (case filter fst rules of [] \<Rightarrow> None | r # _ \<Rightarrow> Some (snd r))"

definition price_rules :: "order_request \<Rightarrow> (bool \<times> string) list" where
  "price_rules o1 =
     (if or_type o1 = LIMIT
      then [(\<not> opt_holds (\<lambda>p. 0 < p) (or_requested_price o1), ''limit order requires a positive requested_price'')]
      else [(opt_holds (\<lambda>p. p \<le> 0) (or_requested_price o1), ''requested_price must be positive when provided'')])"

definition validate_order_request :: "order_request \<Rightarrow> bool \<times> string option" where
  "validate_order_request o1 =
     (let reason = first_reason (
        [(strip (or_id o1) = [], ''order_id is required''),
         (strip (or_symbol o1) = [], ''symbol is required''),
         (or_quantity o1 \<le> 0, ''quantity must be positive''),
         (or_leverage o1 \<le> 0, ''leverage must be positive''),
         (or_stop_loss o1 \<le> 0, ''stop_loss must be positive'')] @ price_rules o1 @
        [(opt_holds (\<lambda>t. t \<le> 0) (or_take_profit o1), ''take_profit must be positive''),
         (or_side o1 = LONG \<and> opt_holds (\<lambda>t. t \<le> or_stop_loss o1) (or_take_profit o1),
            ''long take_profit must be above stop_loss''),
         (or_side o1 = SHORT \<and> opt_holds (\<lambda>t. or_stop_loss o1 \<le> t) (or_take_profit o1),
            ''short take_profit must be below stop_loss'')])
      in (reason = None, reason))"

definition order_ok :: "order_request \<Rightarrow> bool" where
  "order_ok o1 \<longleftrightarrow> strip (or_id o1) \<noteq> [] \<and> strip (or_symbol o1) \<noteq> [] \<and> 0 < or_quantity o1 \<and>
     0 < or_leverage o1 \<and> 0 < or_stop_loss o1 \<and>
     (or_type o1 = LIMIT \<longrightarrow> or_requested_price o1 \<noteq> None) \<and>
     \<not> opt_holds (\<lambda>p. p \<le> 0) (or_requested_price o1) \<and> \<not> opt_holds (\<lambda>t. t \<le> 0) (or_take_profit o1) \<and>
     \<not> opt_holds (\<lambda>t. if or_side o1 = LONG then t \<le> or_stop_loss o1 else or_stop_loss o1 \<le> t) (or_take_profit o1)"

lemma first_reason_None: "first_reason rules = None \<longleftrightarrow> list_all (\<lambda>r. \<not> fst r) rules"
  by (induction rules) (auto simp: first_reason_def)

lemma validate_order_iff: "fst (validate_order_request o1) \<longleftrightarrow> order_ok o1"
  by (cases "or_requested_price o1"; cases "or_take_profit o1"; cases "or_side o1"; cases "or_type o1")
     (auto simp: validate_order_request_def Let_def first_reason_None price_rules_def order_ok_def)

lemma validate_order_reason: "snd (validate_order_request o1) = None \<longleftrightarrow> order_ok o1"
  using validate_order_iff [of o1] by (simp add: validate_order_request_def Let_def)

subsection \<open>The paper executor\<close>

definition market_price :: "rat res \<Rightarrow> rat option" where
  "market_price quote = (case quote of Inl e \<Rightarrow> None | Inr p \<Rightarrow> if 0 < p then Some p else None)"

definition reject :: "order_request \<Rightarrow> string option \<Rightarrow> order_result" where
  "reject o1 reason = \<lparr>ot_id = or_id o1, ot_status = ORD_REJECTED, ot_symbol = or_symbol o1,
     ot_filled_price = None, ot_reason = reason, ot_filled_at = None\<rparr>"

definition fill_at :: "order_request \<Rightarrow> rat \<Rightarrow> datetime \<Rightarrow> order_result" where
  "fill_at o1 price now = \<lparr>ot_id = or_id o1, ot_status = ORD_FILLED, ot_symbol = or_symbol o1,
     ot_filled_price = Some price, ot_reason = None, ot_filled_at = Some now\<rparr>"

definition rest :: "order_request \<Rightarrow> order_result" where
  "rest o1 = \<lparr>ot_id = or_id o1, ot_status = ORD_ACCEPTED, ot_symbol = or_symbol o1,
     ot_filled_price = None, ot_reason = Some ''limit not fillable'', ot_filled_at = None\<rparr>"

definition limit_result :: "order_request \<Rightarrow> rat \<Rightarrow> datetime \<Rightarrow> order_result" where
  "limit_result o1 price now =
     (case or_requested_price o1 of
        None \<Rightarrow> reject o1 (Some ''limit price required'')
      | Some limit \<Rightarrow>
          if or_side o1 = LONG \<and> limit < price then rest o1
          else if or_side o1 = SHORT \<and> price < limit then rest o1
          else fill_at o1 limit now)"

definition check_limit :: "order_request \<Rightarrow> rat res \<Rightarrow> datetime \<Rightarrow> order_result" where
  "check_limit o1 quote now =
     (if \<not> fst (validate_order_request o1) then reject o1 (snd (validate_order_request o1))
      else if or_type o1 \<noteq> LIMIT then reject o1 (Some ''not a limit order'')
      else case market_price quote of
        None \<Rightarrow> reject o1 (Some ''invalid live price'')
      | Some price \<Rightarrow> limit_result o1 price now)"

text \<open>\<^verbatim>\<open>submit\<close> with the set of order ids the executor has finished.\<close>

definition paper_submit ::
  "order_request \<Rightarrow> rat res \<Rightarrow> datetime \<Rightarrow> string set \<Rightarrow> string set \<times> order_result" where
  "paper_submit o1 quote now seen =
     (if \<not> fst (validate_order_request o1) then (seen, reject o1 (snd (validate_order_request o1)))
      else if or_id o1 \<in> seen then (seen, reject o1 (Some ''duplicate order_id''))
      else case market_price quote of
        None \<Rightarrow> (seen, reject o1 (Some ''invalid live price''))
      | Some price \<Rightarrow>
          if or_type o1 = LIMIT then
            (let r = limit_result o1 price now
             in if ot_status r = ORD_ACCEPTED then (seen, r) else (insert (or_id o1) seen, r))
          else (insert (or_id o1) seen, fill_at o1 price now))"

record execution_policy =
  xp_paper_enabled :: bool
  xp_shadow_enabled :: bool

definition execute ::
  "execution_policy \<Rightarrow> order_request \<Rightarrow> string \<Rightarrow> rat res \<Rightarrow> datetime \<Rightarrow> string set
    \<Rightarrow> string set \<times> order_result" where
  "execute policy o1 mode quote now seen =
     (let m = upper mode in
      if m = ''PAPER'' \<and> xp_paper_enabled policy then paper_submit o1 quote now seen
      else if m = ''SHADOW'' \<and> xp_shadow_enabled policy then paper_submit o1 quote now seen
      else (seen, reject o1 (Some (''execution mode not enabled: '' @ m))))"

lemma result_fields [simp]:
  "ot_status (reject o1 r) = ORD_REJECTED" "ot_status (fill_at o1 p n) = ORD_FILLED"
  "ot_status (rest o1) = ORD_ACCEPTED" "ot_id (reject o1 r) = or_id o1" "ot_id (fill_at o1 p n) = or_id o1"
  "ot_id (rest o1) = or_id o1" "ot_symbol (reject o1 r) = or_symbol o1"
  "ot_symbol (fill_at o1 p n) = or_symbol o1" "ot_symbol (rest o1) = or_symbol o1"
  "ot_filled_price (fill_at o1 p n) = Some p" "ot_filled_at (fill_at o1 p n) = Some n"
  "ot_filled_price (reject o1 r) = None" "ot_filled_price (rest o1) = None"
  "ot_reason (reject o1 r) = r"
  by (simp_all add: reject_def fill_at_def rest_def)

definition favourable :: "position_side \<Rightarrow> rat \<Rightarrow> rat \<Rightarrow> bool" where
  "favourable side limit price \<longleftrightarrow> (if side = LONG then price \<le> limit else limit \<le> price)"

lemma limit_result_status:
  "ot_status (limit_result o1 price now) = ORD_FILLED \<longleftrightarrow>
     opt_holds (\<lambda>l. favourable (or_side o1) l price) (or_requested_price o1)"
  "ot_status (limit_result o1 price now) = ORD_FILLED \<Longrightarrow>
     limit_result o1 price now = fill_at o1 (the (or_requested_price o1)) now"
  "ot_status (limit_result o1 price now) \<in> {ORD_FILLED, ORD_ACCEPTED, ORD_REJECTED}"
  by (cases "or_requested_price o1"; cases "or_side o1";
      auto simp: limit_result_def favourable_def split: if_splits)+

lemma paper_submit_identity:
  "ot_id (snd (paper_submit o1 q now seen)) = or_id o1"
  "ot_symbol (snd (paper_submit o1 q now seen)) = or_symbol o1"
  by (auto simp: paper_submit_def limit_result_def Let_def split: option.splits)

lemma paper_submit_filled:
  assumes "paper_submit o1 q now seen = (seen', r)" "ot_status r = ORD_FILLED"
  shows "order_ok o1" and "or_id o1 \<notin> seen" and "seen' = insert (or_id o1) seen"
    and "\<exists>price. q = Inr price \<and> 0 < price \<and>
      r = fill_at o1 (if or_type o1 = LIMIT then the (or_requested_price o1) else price) now \<and>
      (or_type o1 = LIMIT \<longrightarrow> favourable (or_side o1) (the (or_requested_price o1)) price)"
proof -
  from assms have ok: "order_ok o1" "or_id o1 \<notin> seen" and "\<exists>price. market_price q = Some price"
    by (auto simp: paper_submit_def validate_order_iff split: if_splits option.splits)
  then obtain price where price: "market_price q = Some price" by blast
  then have q: "q = Inr price" "0 < price"
    by (auto simp: market_price_def split: sum.splits if_splits)
  show "order_ok o1" "or_id o1 \<notin> seen" by (fact ok)+
  have "seen' = insert (or_id o1) seen \<and>
      r = fill_at o1 (if or_type o1 = LIMIT then the (or_requested_price o1) else price) now \<and>
      (or_type o1 = LIMIT \<longrightarrow> favourable (or_side o1) (the (or_requested_price o1)) price)"
  proof (cases "or_type o1 = LIMIT")
    case True
    have r: "r = limit_result o1 price now \<and> (ot_status r = ORD_ACCEPTED \<or> seen' = insert (or_id o1) seen)"
      using assms(1) ok price True by (auto simp: paper_submit_def validate_order_iff Let_def split: if_splits)
    then have "ot_status (limit_result o1 price now) = ORD_FILLED" using assms(2) by simp
    then show ?thesis using r True assms(2) limit_result_status(1,2) [of o1 price now]
      by (cases "or_requested_price o1") auto
  next
    case False
    then show ?thesis using assms(1) ok price by (simp add: paper_submit_def validate_order_iff)
  qed
  then show "seen' = insert (or_id o1) seen" and "\<exists>price. q = Inr price \<and> 0 < price \<and>
      r = fill_at o1 (if or_type o1 = LIMIT then the (or_requested_price o1) else price) now \<and>
      (or_type o1 = LIMIT \<longrightarrow> favourable (or_side o1) (the (or_requested_price o1)) price)"
    using q by blast+
qed

text \<open>A run of submissions: the requests, each with the quote and the clock it meets.\<close>

fun submit_all ::
  "(order_request \<times> rat res \<times> datetime) list \<Rightarrow> string set \<Rightarrow> string set \<times> order_result list" where
  "submit_all [] seen = (seen, [])"
| "submit_all ((o1, q, now) # xs) seen =
     (case paper_submit o1 q now seen of (seen1, r) \<Rightarrow>
      case submit_all xs seen1 of (seen2, rs) \<Rightarrow> (seen2, r # rs))"

definition filled_ids :: "order_result list \<Rightarrow> string list" where
  "filled_ids rs = map ot_id (filter (\<lambda>r. ot_status r = ORD_FILLED) rs)"

lemma submit_all_at_most_once:
  "submit_all xs seen = (seen', rs) \<Longrightarrow>
   distinct (filled_ids rs) \<and> set (filled_ids rs) \<inter> seen = {} \<and> seen \<union> set (filled_ids rs) \<subseteq> seen'"
proof (induction xs arbitrary: seen seen' rs)
  case (Cons x xs)
  obtain o1 q now where x: "x = (o1, q, now)" by (cases x)
  obtain seen1 r where s: "paper_submit o1 q now seen = (seen1, r)" by (cases "paper_submit o1 q now seen")
  obtain rs1 where l: "submit_all xs seen1 = (seen', rs1)" and rs: "rs = r # rs1"
    using Cons.prems x s by (auto split: prod.splits)
  have sub: "seen \<subseteq> seen1" using s by (auto simp: paper_submit_def Let_def split: if_splits option.splits)
  have id: "ot_id r = or_id o1" using paper_submit_identity(1) [of o1 q now seen] s by simp
  show ?case
  proof (cases "ot_status r = ORD_FILLED")
    case True
    then show ?thesis using paper_submit_filled(2,3) [OF s True] Cons.IH [OF l] rs id
      by (auto simp: filled_ids_def)
  next
    case False
    then show ?thesis using Cons.IH [OF l] rs sub by (auto simp: filled_ids_def)
  qed
qed (simp add: filled_ids_def)

subsection \<open>From a fill to a position\<close>

definition position_from_fill :: "order_request \<Rightarrow> order_result \<Rightarrow> position res" where
  "position_from_fill o1 r =
     guard (ot_status r \<noteq> ORD_FILLED) (ValueError ''cannot create a position from a non-filled order'')
     (case ot_filled_price r of
        None \<Rightarrow> Inl (ValueError ''filled order has no fill price'')
      | Some price \<Rightarrow>
     guard (ot_symbol r \<noteq> or_symbol o1 \<or> ot_id r \<noteq> or_id o1) (ValueError ''order/result identity mismatch'')
    (guard (or_quantity o1 \<le> 0 \<or> or_leverage o1 \<le> 0) (ValueError ''quantity and leverage must be positive'')
    (let collateral = ddiv (dmul price (or_quantity o1)) (or_leverage o1) in
     guard (collateral \<le> 0) (ValueError ''calculated position amount must be positive'')
      (Inr \<lparr>pos_id = or_id o1, pos_symbol = or_symbol o1, pos_side = or_side o1,
           pos_entry_price = price, pos_stop_loss = or_stop_loss o1, pos_total_amount = collateral,
           pos_quantity = or_quantity o1, pos_leverage = or_leverage o1,
           pos_take_profit = or_take_profit o1, pos_status = POS_OPEN,
           pos_opened_at = (case ot_filled_at r of Some t \<Rightarrow> t | None \<Rightarrow> or_created_at o1),
           pos_closed_at = None, pos_exit_price = None, pos_realized_pnl = None,
           pos_close_reason = None, pos_decision_snapshot = or_decision_snapshot o1\<rparr>))))"

lemma position_from_fill_Inr:
  assumes "position_from_fill o1 r = Inr p"
  shows "ot_status r = ORD_FILLED" "ot_filled_price r = Some (pos_entry_price p)" "is_open p"
    "pos_id p = or_id o1" "ot_id r = or_id o1" "pos_symbol p = or_symbol o1" "0 < pos_total_amount p"
    "0 < pos_quantity p" "0 < pos_leverage p" "0 < pos_entry_price p" "pos_side p = or_side o1"
    "pos_stop_loss p = or_stop_loss o1" "pos_quantity p = or_quantity o1" "pos_leverage p = or_leverage o1"
    "pos_total_amount p = ddiv (dmul (pos_entry_price p) (or_quantity o1)) (or_leverage o1)"
  using assms
  by (auto simp: position_from_fill_def guard_simps Let_def is_open_def not_le zero_less_divide_iff
      zero_less_mult_iff split: option.splits)

lemma position_from_fill_total:
  assumes "order_ok o1" "0 < price"
  shows "\<exists>p. position_from_fill o1 (fill_at o1 price now) = Inr p"
  using assms by (auto simp: position_from_fill_def order_ok_def guard_def Let_def divide_le_0_iff
      mult_le_0_iff not_le fill_at_def)

subsection \<open>The order lifecycle and the in-memory order repository\<close>

fun allowed_transition :: "order_status \<Rightarrow> order_status \<Rightarrow> bool" where
  "allowed_transition ORD_PENDING s = (s \<in> {ORD_ACCEPTED, ORD_FILLED, ORD_REJECTED, ORD_CANCELLED})"
| "allowed_transition ORD_ACCEPTED s = (s \<in> {ORD_FILLED, ORD_REJECTED, ORD_CANCELLED})"
| "allowed_transition ORD_FILLED s = False"
| "allowed_transition ORD_REJECTED s = False"
| "allowed_transition ORD_CANCELLED s = False"

definition order_transition :: "order_status \<Rightarrow> order_status \<Rightarrow> order_status res" where
  "order_transition current target =
     guard (\<not> allowed_transition current target) (ValueError ''Invalid order transition'') (Inr target)"

fun order_rank :: "order_status \<Rightarrow> nat" where
  "order_rank ORD_PENDING = 2"
| "order_rank ORD_ACCEPTED = 1"
| "order_rank ORD_FILLED = 0"
| "order_rank ORD_REJECTED = 0"
| "order_rank ORD_CANCELLED = 0"

interpretation ord: guarded_machine allowed_transition order_transition order_rank
proof
  show "allowed_transition a b \<Longrightarrow> order_transition a b = Inr b" for a b
    by (simp add: order_transition_def)
  show "\<not> allowed_transition a b \<Longrightarrow> \<exists>e. order_transition a b = Inl e" for a b
    by (simp add: order_transition_def)
  show "allowed_transition a b \<Longrightarrow> order_rank b < order_rank a" for a b
    by (cases a; cases b) simp_all
qed

definition terminal_status :: "order_status \<Rightarrow> bool" where
  "terminal_status s \<longleftrightarrow> s \<in> {ORD_FILLED, ORD_REJECTED, ORD_CANCELLED}"

lemma terminal_no_move: "terminal_status s \<Longrightarrow> \<not> allowed_transition s t"
  by (auto simp: terminal_status_def)

record order_store =
  os_requests :: "(string, order_request) dict"
  os_results :: "(string, order_result) dict"

definition order_store_empty :: order_store where
  "order_store_empty = \<lparr>os_requests = [], os_results = []\<rparr>"

definition mem_save_request :: "order_request \<Rightarrow> order_store \<Rightarrow> (order_store, unit) sres" where
  "mem_save_request o1 s =
     (case dget (os_requests s) (or_id o1) of
        Some x \<Rightarrow> (s, Inl (ValueError (''Order already exists: '' @ or_id o1)))
      | None \<Rightarrow> (s\<lparr>os_requests := dput (or_id o1) o1 (os_requests s)\<rparr>, Inr ()))"

definition mem_save_result :: "order_result \<Rightarrow> order_store \<Rightarrow> (order_store, unit) sres" where
  "mem_save_result r s =
     (case dget (os_requests s) (ot_id r) of
        None \<Rightarrow> (s, Inl (ValueError (''Unknown order: '' @ ot_id r)))
      | Some x \<Rightarrow>
         (let s' = s\<lparr>os_results := dput (ot_id r) r (os_results s)\<rparr> in
          case dget (os_results s) (ot_id r) of
            None \<Rightarrow> (s', Inr ())
          | Some existing \<Rightarrow>
              if existing = r then (s, Inr ())
              else case order_transition (ot_status existing) (ot_status r) of
                Inl e \<Rightarrow> (s, Inl e)
              | Inr st \<Rightarrow> (s', Inr ())))"

definition mem_get_order :: "order_store \<Rightarrow> string \<Rightarrow> (order_request \<times> order_result option) option" where
  "mem_get_order s oid =
     (case dget (os_requests s) oid of
        None \<Rightarrow> None
      | Some o1 \<Rightarrow> Some (o1, dget (os_results s) oid))"

definition mem_order_exists :: "order_store \<Rightarrow> string \<Rightarrow> bool" where
  "mem_order_exists s oid \<longleftrightarrow> dget (os_requests s) oid \<noteq> None"

text \<open>A terminal result is final: no later call, successful or not, changes it.\<close>

lemma mem_result_step:
  assumes "dget (os_results s) k = Some r"
  shows "\<exists>r'. dget (os_results (fst (mem_save_result x s))) k = Some r' \<and>
    (r' = r \<or> allowed_transition (ot_status r) (ot_status r'))"
  using assms
  by (auto simp: mem_save_result_def Let_def order_transition_def guard_def
      split: option.splits sum.splits if_splits)

datatype order_op = SaveRequest order_request | SaveResult order_result

fun order_op_run :: "order_op \<Rightarrow> order_store \<Rightarrow> order_store" where
  "order_op_run (SaveRequest o1) s = fst (mem_save_request o1 s)"
| "order_op_run (SaveResult r) s = fst (mem_save_result r s)"

lemma mem_order_run:
  assumes "dget (os_results s) k = Some r"
  shows "\<exists>r'. dget (os_results (fold order_op_run ops s)) k = Some r' \<and>
    (r' = r \<or> allowed_transition\<^sup>+\<^sup>+ (ot_status r) (ot_status r'))"
  using assms
proof (induction ops arbitrary: s r)
  case (Cons op ops)
  have "\<exists>r1. dget (os_results (order_op_run op s)) k = Some r1 \<and>
      (r1 = r \<or> allowed_transition (ot_status r) (ot_status r1))"
  proof (cases op)
    case (SaveRequest o1)
    then show ?thesis using Cons.prems by (auto simp: mem_save_request_def split: option.splits)
  next
    case (SaveResult x)
    then show ?thesis using mem_result_step [OF Cons.prems] by simp
  qed
  then obtain r1 where r1: "dget (os_results (order_op_run op s)) k = Some r1"
    and step: "r1 = r \<or> allowed_transition (ot_status r) (ot_status r1)" by blast
  obtain r' where "dget (os_results (fold order_op_run ops (order_op_run op s))) k = Some r'"
    and rest: "r' = r1 \<or> allowed_transition\<^sup>+\<^sup>+ (ot_status r1) (ot_status r')"
    using Cons.IH [OF r1] by blast
  moreover have "r' = r \<or> allowed_transition\<^sup>+\<^sup>+ (ot_status r) (ot_status r')"
    using step rest by (meson tranclp.r_into_trancl tranclp_trans)
  ultimately show ?case by simp
qed simp

lemma mem_request_run:
  "dget (os_requests s) k = Some o1 \<Longrightarrow> dget (os_requests (fold order_op_run ops s)) k = Some o1"
proof (induction ops arbitrary: s)
  case (Cons op ops)
  have "dget (os_requests (order_op_run op s)) k = Some o1"
    using Cons.prems by (cases op)
      (auto simp: mem_save_request_def mem_save_result_def Let_def split: option.splits sum.splits)
  then show ?case using Cons.IH by simp
qed simp

subsection \<open>The in-memory fill ledger\<close>

definition mem_save_fill :: "fill \<Rightarrow> (string, fill) dict \<Rightarrow> ((string, fill) dict, unit) sres" where
  "mem_save_fill f d =
     (case dget d (fl_id f) of
        None \<Rightarrow> (dput (fl_id f) f d, Inr ())
      | Some existing \<Rightarrow>
          if existing \<noteq> f then (d, Inl (ValueError (''Conflicting fill: '' @ fl_id f)))
          else (dput (fl_id f) f d, Inr ()))"

definition mem_fills_for_order :: "(string, fill) dict \<Rightarrow> string \<Rightarrow> fill list" where
  "mem_fills_for_order d oid = filter (\<lambda>f. fl_order_id f = oid) (map snd d)"

definition fills_inv :: "(string, fill) dict \<Rightarrow> bool" where
  "fills_inv d \<longleftrightarrow> dict_ok d \<and> list_all (\<lambda>(k, f). fl_id f = k) d"

lemma fills_inv_keys: "fills_inv d \<Longrightarrow> dget d k = Some f \<Longrightarrow> fl_id f = k"
  by (auto simp: fills_inv_def list_all_iff dest!: map_of_SomeD)

interpretation fills: append_only_store mem_save_fill dget fl_id "(=)" fills_inv
proof
  show "fills_inv s \<Longrightarrow> fills_inv (fst (mem_save_fill e s))" for s e
    by (auto simp: mem_save_fill_def fills_inv_def list_all_iff set_dput split: option.splits)
  show "fills_inv s \<Longrightarrow> dget s k = Some e \<Longrightarrow> fl_id e = k" for s k e
    by (rule fills_inv_keys)
qed (auto simp: mem_save_fill_def split: option.splits)

subsection \<open>Pending orders\<close>

record pending_order =
  pd_order :: order_request
  pd_status :: order_status
  pd_accepted_at :: datetime
  pd_updated_at :: datetime
  pd_cancel_reason :: "string option"
  pd_rejection_reason :: "string option"

definition pending_new :: "order_request \<Rightarrow> datetime \<Rightarrow> datetime \<Rightarrow> pending_order" where
  "pending_new o1 t1 t2 = \<lparr>pd_order = o1, pd_status = ORD_ACCEPTED, pd_accepted_at = t1,
     pd_updated_at = t2, pd_cancel_reason = None, pd_rejection_reason = None\<rparr>"

definition pending_cancel :: "string option \<Rightarrow> datetime \<Rightarrow> pending_order \<Rightarrow> pending_order" where
  "pending_cancel reason now p =
     p\<lparr>pd_status := ORD_CANCELLED, pd_updated_at := now, pd_cancel_reason := reason\<rparr>"

definition pending_reject :: "string option \<Rightarrow> datetime \<Rightarrow> pending_order \<Rightarrow> pending_order" where
  "pending_reject reason now p =
     p\<lparr>pd_status := ORD_REJECTED, pd_updated_at := now, pd_rejection_reason := reason\<rparr>"

definition pending_active :: "pending_order \<Rightarrow> bool" where
  "pending_active p \<longleftrightarrow> pd_status p = ORD_ACCEPTED"

definition mem_pending_new :: "pending_order list \<Rightarrow> (string, pending_order) dict" where
  "mem_pending_new ps = fold (\<lambda>p. dput (or_id (pd_order p)) p) ps []"

definition mem_pending_active :: "(string, pending_order) dict \<Rightarrow> pending_order list" where
  "mem_pending_active d = filter pending_active (map snd d)"

definition mem_pending_save :: "pending_order \<Rightarrow> (string, pending_order) dict \<Rightarrow> (string, pending_order) dict" where
  "mem_pending_save p d = dput (or_id (pd_order p)) p d"

definition mem_pending_remove :: "string \<Rightarrow> (string, pending_order) dict \<Rightarrow> (string, pending_order) dict" where
  "mem_pending_remove oid d = dpop oid d"

text \<open>
  \<^verbatim>\<open>PendingOrderManager.check\<close> over any repository: \<open>save\<close>, \<open>remove\<close> and the fill handler act on a
  shared state and may raise. The quote and the clock are indexed by the position in the list of active orders.
\<close>

record 's pending_ports =
  pt_save :: "pending_order \<Rightarrow> 's \<Rightarrow> ('s, unit) sres"
  pt_remove :: "string \<Rightarrow> 's \<Rightarrow> ('s, unit) sres"
  pt_fill_handler :: "order_request \<Rightarrow> order_result \<Rightarrow> 's \<Rightarrow> ('s, unit) sres"

definition pending_one ::
  "'s pending_ports \<Rightarrow> pending_order \<Rightarrow> rat res \<Rightarrow> datetime \<Rightarrow> 's \<Rightarrow> ('s, order_result option) sres" where
  "pending_one ports p quote now s =
     (if or_type (pd_order p) \<noteq> LIMIT then
        sbind (pt_save ports
          (pending_reject (Some ''pending manager only supports limit orders'') now p) s) (\<lambda>_ s. (s, Inr None))
      else
        let r = check_limit (pd_order p) quote now in
        if ot_status r = ORD_FILLED then
          sbind (pt_fill_handler ports (pd_order p) r s) (\<lambda>_ s.
          sbind (pt_remove ports (or_id (pd_order p)) s) (\<lambda>_ s. (s, Inr (Some r))))
        else if ot_status r = ORD_REJECTED then
          sbind (pt_save ports (pending_reject (ot_reason r) now p) s) (\<lambda>_ s. (s, Inr None))
        else sbind (pt_save ports p s) (\<lambda>_ s. (s, Inr None)))"

fun pending_loop ::
  "'s pending_ports \<Rightarrow> (nat \<Rightarrow> string \<Rightarrow> rat res) \<Rightarrow> (nat \<Rightarrow> datetime) \<Rightarrow> nat \<Rightarrow> pending_order list \<Rightarrow> 's
    \<Rightarrow> ('s, order_result list) sres" where
  "pending_loop ports quotes clock n [] s = (s, Inr [])"
| "pending_loop ports quotes clock n (p # ps) s =
     sbind (pending_one ports p (quotes n (or_symbol (pd_order p))) (clock n) s) (\<lambda>out s.
     sbind (pending_loop ports quotes clock (Suc n) ps s) (\<lambda>outs s.
       (s, Inr (case out of None \<Rightarrow> outs | Some r \<Rightarrow> r # outs))))"

record pending_update =
  pu_checked :: nat
  pu_filled :: "order_result list"

definition pending_check ::
  "'s pending_ports \<Rightarrow> (nat \<Rightarrow> string \<Rightarrow> rat res) \<Rightarrow> (nat \<Rightarrow> datetime) \<Rightarrow> pending_order list \<Rightarrow> 's
    \<Rightarrow> ('s, pending_update) sres" where
  "pending_check ports quotes clock active s =
     sbind (pending_loop ports quotes clock 0 active s) (\<lambda>outs s.
       (s, Inr \<lparr>pu_checked = length active, pu_filled = outs\<rparr>))"

definition mem_ports ::
  "(order_request \<Rightarrow> order_result \<Rightarrow> (string, pending_order) dict \<Rightarrow> ((string, pending_order) dict, unit) sres)
    \<Rightarrow> (string, pending_order) dict pending_ports" where
  "mem_ports handler = \<lparr>pt_save = \<lambda>p d. (mem_pending_save p d, Inr ()),
     pt_remove = \<lambda>i d. (mem_pending_remove i d, Inr ()), pt_fill_handler = handler\<rparr>"

subsection \<open>Risk reserved for pending orders\<close>

record risk_reservation =
  rv_total_risk :: rat
  rv_order_risk :: "(string, rat) dict"
  rv_unresolved :: "string list"

definition reservation_entry ::
  "(string \<Rightarrow> rat res) option \<Rightarrow> order_request \<Rightarrow> rat option res" where
  "reservation_entry provider o1 =
     (case or_requested_price o1 of
        Some p \<Rightarrow> Inr (Some p)
      | None \<Rightarrow> (case provider of
                  None \<Rightarrow> Inr None
                | Some f \<Rightarrow> res_bind (f (or_symbol o1)) (\<lambda>p. Inr (Some p))))"

definition reserve_one :: "order_request \<Rightarrow> rat \<Rightarrow> rat res" where
  "reserve_one o1 entry =
     guard (entry \<le> 0) (ValueError (''invalid pending entry price: '' @ or_id o1))
       (candidate_risk_amount (ddiv (dmul entry (or_quantity o1)) (or_leverage o1)) entry
          (or_stop_loss o1) (or_leverage o1))"

fun reserve_loop ::
  "(string \<Rightarrow> rat res) option \<Rightarrow> order_request list \<Rightarrow> (string, rat) dict \<Rightarrow> string list
    \<Rightarrow> ((string, rat) dict \<times> string list) res" where
  "reserve_loop provider [] res un = Inr (res, un)"
| "reserve_loop provider (o1 # os) res un =
     guard (or_leverage o1 \<le> 0 \<or> or_quantity o1 \<le> 0 \<or> or_stop_loss o1 \<le> 0)
       (ValueError (''invalid pending order risk inputs: '' @ or_id o1))
     (res_bind (reservation_entry provider o1) (\<lambda>entry.
       case entry of
         None \<Rightarrow> reserve_loop provider os res (un @ [or_id o1])
       | Some e \<Rightarrow> res_bind (reserve_one o1 e) (\<lambda>r.
           reserve_loop provider os (dput (or_id o1) r res) un)))"

definition reserve_pending_order_risk ::
  "order_request list \<Rightarrow> (string \<Rightarrow> rat res) option \<Rightarrow> risk_reservation res" where
  "reserve_pending_order_risk os provider =
     res_bind (reserve_loop provider os [] []) (\<lambda>(res, un).
       Inr \<lparr>rv_total_risk = dsum (map snd res), rv_order_risk = res, rv_unresolved = un\<rparr>)"

lemma reserve_loop_covers:
  "reserve_loop provider os res un = Inr (res', un') \<Longrightarrow> dict_ok res \<Longrightarrow>
   dict_ok res' \<and> (\<forall>x \<in> set (map snd res'). x \<in> set (map snd res) \<or> 0 \<le> x) \<and>
   set un' \<union> dom (dget res') = set un \<union> dom (dget res) \<union> or_id ` set os"
proof (induction os arbitrary: res un)
  case (Cons o1 os)
  from Cons.prems obtain entry where entry: "reservation_entry provider o1 = Inr entry"
    by (auto simp: guard_simps)
  show ?case
  proof (cases entry)
    case None
    then have "reserve_loop provider os res (un @ [or_id o1]) = Inr (res', un')"
      using Cons.prems entry by (auto simp: guard_simps)
    from Cons.IH [OF this Cons.prems(2)] show ?thesis by auto
  next
    case (Some e)
    with Cons.prems entry obtain r where r: "reserve_one o1 e = Inr r"
      and l: "reserve_loop provider os (dput (or_id o1) r res) un = Inr (res', un')"
      by (auto simp: guard_simps)
    have r0: "0 \<le> r" using r by (auto simp: reserve_one_def guard_Inr_iff dest: candidate_risk_nonneg)
    have vals: "set (map snd (dput (or_id o1) r res)) \<subseteq> insert r (set (map snd res))"
      using Cons.prems(2) by (auto simp: set_dput)
    have dom: "dom (dget (dput (or_id o1) r res)) = insert (or_id o1) (dom (dget res))"
      by (auto split: if_splits)
    note ih = Cons.IH [OF l dict_ok_dput [OF Cons.prems(2)]]
    have "\<forall>x \<in> set (map snd res'). x \<in> set (map snd res) \<or> 0 \<le> x"
      using ih vals r0 by blast
    then show ?thesis using ih unfolding dom by auto
  qed
qed simp

end
