(* ===== verification/Position_Manager.thy ===== *)
theory Position_Manager
  imports Execution
begin

section \<open>Position management: exits and trailing stops\<close>

text \<open>
  \<^verbatim>\<open>app/position/manager.py\<close>. \<^verbatim>\<open>calculate_realized_pnl\<close> and \<^verbatim>\<open>_stop_crossed\<close> repeat the functions of
  \<^verbatim>\<open>app/core\<close> line by line, so the definitions of \<open>Core_Model\<close> stand for both.
\<close>

record exit_policy =
  xe_trailing_enabled :: bool
  xe_trailing_distance_percent :: rat

definition exit_policy_make :: "bool \<Rightarrow> rat \<Rightarrow> exit_policy res" where
  "exit_policy_make enabled distance =
     guard (distance < 0 \<or> 100 \<le> distance) (ValueError ''trailing_distance_percent must be in [0, 100)'')
    (guard (enabled \<and> distance \<le> 0) (ValueError ''enabled trailing stop requires a positive distance'')
      (Inr \<lparr>xe_trailing_enabled = enabled, xe_trailing_distance_percent = distance\<rparr>))"

definition take_profit_crossed :: "position \<Rightarrow> rat \<Rightarrow> bool" where
  "take_profit_crossed p price =
     (case pos_take_profit p of
        None \<Rightarrow> False
      | Some t \<Rightarrow> if pos_side p = LONG then t \<le> price else price \<le> t)"

definition update_trailing_stop :: "exit_policy \<Rightarrow> rat \<Rightarrow> position \<Rightarrow> position \<times> bool" where
  "update_trailing_stop policy price p =
     (if \<not> xe_trailing_enabled policy then (p, False)
      else
        let distance = ddiv (xe_trailing_distance_percent policy) 100 in
        if pos_side p = LONG then
          (let candidate = dmul price (dsub 1 distance) in
           if pos_stop_loss p < candidate \<and> candidate < price
           then (p\<lparr>pos_stop_loss := candidate\<rparr>, True) else (p, False))
        else
          (let candidate = dmul price (dadd 1 distance) in
           if candidate < pos_stop_loss p \<and> price < candidate
           then (p\<lparr>pos_stop_loss := candidate\<rparr>, True) else (p, False)))"

definition close_position ::
  "position \<Rightarrow> rat \<Rightarrow> string \<Rightarrow> datetime \<Rightarrow> (position \<times> position_close_result) res" where
  "close_position p price reason now =
     res_bind (calculate_realized_pnl p price) (\<lambda>pnl.
       Inr (p\<lparr>pos_status := (if reason = ''TAKE_PROFIT'' then POS_CLOSED else POS_STOPPED_OUT),
              pos_exit_price := Some price, pos_realized_pnl := Some pnl,
              pos_closed_at := Some now, pos_close_reason := Some reason\<rparr>,
            \<lparr>pcr_position_id = pos_id p, pcr_exit_price = price, pcr_realized_pnl = pnl,
              pcr_reason = reason, pcr_closed_at = now\<rparr>))"

text \<open>One round of the loop for an open position: what became of it.\<close>

datatype managed =
    Stopped position position_close_result
  | Profited position position_close_result
  | Trailed position
  | Held position

fun managed_position :: "managed \<Rightarrow> position" where
  "managed_position (Stopped p r) = p"
| "managed_position (Profited p r) = p"
| "managed_position (Trailed p) = p"
| "managed_position (Held p) = p"

definition manage_one :: "exit_policy \<Rightarrow> position \<Rightarrow> rat res \<Rightarrow> datetime \<Rightarrow> managed res" where
  "manage_one policy p quote now =
     res_bind quote (\<lambda>price.
     guard (price \<le> 0) (ValueErrorV (''Invalid live price for '' @ pos_symbol p @ '': '') price)
     (if stop_was_crossed p price then
        res_bind (close_position p price ''STOP_LOSS'' now) (\<lambda>(p', r). Inr (Stopped p' r))
      else if take_profit_crossed p price then
        res_bind (close_position p price ''TAKE_PROFIT'' now) (\<lambda>(p', r). Inr (Profited p' r))
      else case update_trailing_stop policy price p of
        (p', True) \<Rightarrow> Inr (Trailed p')
      | (p', False) \<Rightarrow> Inr (Held p')))"

record management_result =
  mg_monitored :: nat
  mg_closed :: nat
  mg_stop_loss_exits :: nat
  mg_take_profit_exits :: nat
  mg_trailing_updates :: nat
  mg_results :: "position_close_result list"

definition mg_zero :: management_result where
  "mg_zero = \<lparr>mg_monitored = 0, mg_closed = 0, mg_stop_loss_exits = 0, mg_take_profit_exits = 0,
     mg_trailing_updates = 0, mg_results = []\<rparr>"

fun count_managed :: "managed \<Rightarrow> management_result \<Rightarrow> management_result" where
  "count_managed (Stopped p r) m = m\<lparr>mg_monitored := mg_monitored m + 1, mg_closed := mg_closed m + 1,
     mg_stop_loss_exits := mg_stop_loss_exits m + 1, mg_results := mg_results m @ [r]\<rparr>"
| "count_managed (Profited p r) m = m\<lparr>mg_monitored := mg_monitored m + 1, mg_closed := mg_closed m + 1,
     mg_take_profit_exits := mg_take_profit_exits m + 1, mg_results := mg_results m @ [r]\<rparr>"
| "count_managed (Trailed p) m = m\<lparr>mg_monitored := mg_monitored m + 1,
     mg_trailing_updates := mg_trailing_updates m + 1\<rparr>"
| "count_managed (Held p) m = m\<lparr>mg_monitored := mg_monitored m + 1\<rparr>"

text \<open>
  The loop. The provider and the clock are functions of the number of positions handled before; the
  positions are mutated in place, so the list that is left is returned beside the result.
\<close>

fun manage_loop ::
  "exit_policy \<Rightarrow> (nat \<Rightarrow> string \<Rightarrow> rat res) \<Rightarrow> (nat \<Rightarrow> datetime) \<Rightarrow> position list \<Rightarrow> management_result
    \<Rightarrow> (position list, management_result) sres" where
  "manage_loop policy prices clock [] m = ([], Inr m)"
| "manage_loop policy prices clock (p # ps) m =
     (if pos_status p \<noteq> POS_OPEN then
        (case manage_loop policy prices clock ps m of (ps', r) \<Rightarrow> (p # ps', r))
      else case manage_one policy p (prices (mg_monitored m) (pos_symbol p)) (clock (mg_monitored m)) of
        Inl e \<Rightarrow> (p # ps, Inl e)
      | Inr x \<Rightarrow> (case manage_loop policy prices clock ps (count_managed x m) of
                    (ps', r) \<Rightarrow> (managed_position x # ps', r)))"

definition manage_open_positions ::
  "position list \<Rightarrow> (nat \<Rightarrow> string \<Rightarrow> rat res) \<Rightarrow> (nat \<Rightarrow> datetime) \<Rightarrow> exit_policy
    \<Rightarrow> (position list, management_result) sres" where
  "manage_open_positions ps prices clock policy = manage_loop policy prices clock ps mg_zero"

subsection \<open>Trailing only tightens\<close>

definition tighter :: "position \<Rightarrow> position \<Rightarrow> bool" where
  "tighter p p' \<longleftrightarrow> (\<exists>s. p' = p\<lparr>pos_stop_loss := s\<rparr> \<and>
     (if pos_side p = LONG then pos_stop_loss p \<le> s else s \<le> pos_stop_loss p))"

lemma tighter_refl: "tighter p p"
  by (auto simp: tighter_def intro!: exI [of _ "pos_stop_loss p"])

lemma trailing_tightens:
  assumes "update_trailing_stop policy price p = (p', b)"
  shows "tighter p p'" and "b \<longleftrightarrow> p' \<noteq> p" and "\<not> b \<Longrightarrow> p' = p"
    and "b \<Longrightarrow> \<not> stop_was_crossed p' price"
proof -
  consider (same) "\<not> b" "p' = p"
    | (moved) s where "b" "p' = p\<lparr>pos_stop_loss := s\<rparr>"
      "if pos_side p = LONG then pos_stop_loss p < s \<and> s < price else s < pos_stop_loss p \<and> price < s"
    using assms by (auto simp: update_trailing_stop_def Let_def split: if_splits)
  then have "tighter p p' \<and> (b \<longleftrightarrow> p' \<noteq> p) \<and> (b \<longrightarrow> \<not> stop_was_crossed p' price)"
  proof cases
    case same
    then show ?thesis using tighter_refl by simp
  next
    case moved
    from moved(3) have "pos_stop_loss p' \<noteq> pos_stop_loss p" unfolding moved(2) by (auto split: if_splits)
    then have "p' \<noteq> p" by auto
    then show ?thesis using moved by (auto simp: tighter_def stop_was_crossed_def split: if_splits)
  qed
  then show "tighter p p'" "b \<longleftrightarrow> p' \<noteq> p" "\<not> b \<Longrightarrow> p' = p" "b \<Longrightarrow> \<not> stop_was_crossed p' price"
    by auto
qed

lemma close_position_Inr:
  assumes "close_position p price reason now = Inr (p', r)"
  shows "calculate_realized_pnl p price = Inr (pcr_realized_pnl r)" "pcr_position_id r = pos_id p"
    "pcr_exit_price r = price" "pcr_reason r = reason" "\<not> is_open p'"
    "pos_realized_pnl p' = Some (pcr_realized_pnl r)" "pos_exit_price p' = Some price"
    "pos_closed_at p' = Some now" "pos_close_reason p' = Some reason" "pos_id p' = pos_id p"
    "pos_stop_loss p' = pos_stop_loss p" "pos_entry_price p' = pos_entry_price p"
  using assms by (auto simp: close_position_def guard_simps is_open_def split: if_splits)

text \<open>What one tick does to an open position: the four possible outcomes, decided by the price.\<close>

definition tick_outcome :: "exit_policy \<Rightarrow> position \<Rightarrow> rat \<Rightarrow> datetime \<Rightarrow> managed \<Rightarrow> bool" where
  "tick_outcome policy p price now x \<longleftrightarrow>
     (case x of
        Stopped p' r \<Rightarrow> stop_was_crossed p price \<and> close_position p price ''STOP_LOSS'' now = Inr (p', r)
      | Profited p' r \<Rightarrow> \<not> stop_was_crossed p price \<and> take_profit_crossed p price \<and>
          close_position p price ''TAKE_PROFIT'' now = Inr (p', r)
      | Trailed p' \<Rightarrow> \<not> stop_was_crossed p price \<and> \<not> take_profit_crossed p price \<and>
          tighter p p' \<and> p' \<noteq> p \<and> \<not> stop_was_crossed p' price \<and> xe_trailing_enabled policy
      | Held p' \<Rightarrow> \<not> stop_was_crossed p price \<and> \<not> take_profit_crossed p price \<and> p' = p)"

lemma manage_one_cases:
  assumes "0 < price"
  shows "stop_was_crossed p price \<Longrightarrow> manage_one policy p (Inr price) now =
      res_bind (close_position p price ''STOP_LOSS'' now) (\<lambda>(p', r). Inr (Stopped p' r))"
    and "\<not> stop_was_crossed p price \<Longrightarrow> take_profit_crossed p price \<Longrightarrow> manage_one policy p (Inr price) now =
      res_bind (close_position p price ''TAKE_PROFIT'' now) (\<lambda>(p', r). Inr (Profited p' r))"
    and "\<not> stop_was_crossed p price \<Longrightarrow> \<not> take_profit_crossed p price \<Longrightarrow>
      update_trailing_stop policy price p = (p1, b) \<Longrightarrow>
      manage_one policy p (Inr price) now = Inr (if b then Trailed p1 else Held p1)"
  using assms by (simp_all add: manage_one_def guard_def split: bool.split)

lemma manage_one_price:
  "manage_one policy p quote now = Inr x \<Longrightarrow> \<exists>price. quote = Inr price \<and> 0 < price"
  unfolding manage_one_def res_bind_Inr_iff guard_Inr_iff by (elim exE conjE) (simp add: not_le)

lemma manage_one_outcome:
  assumes "manage_one policy p quote now = Inr x"
  obtains price where "quote = Inr price" "0 < price" "tick_outcome policy p price now x"
proof -
  from manage_one_price [OF assms] obtain price where price: "quote = Inr price" "0 < price" by blast
  obtain p1 b where u: "update_trailing_stop policy price p = (p1, b)"
    by (cases "update_trailing_stop policy price p")
  have en: "b \<Longrightarrow> xe_trailing_enabled policy"
    using u by (auto simp: update_trailing_stop_def split: if_splits)
  note m = assms [unfolded price(1)]
  have "tick_outcome policy p price now x"
  proof (cases "stop_was_crossed p price")
    case True
    from m [unfolded manage_one_cases(1) [OF price(2) True]]
    show ?thesis using True by (auto simp: tick_outcome_def res_bind_Inr_iff)
  next
    case ns: False
    show ?thesis
    proof (cases "take_profit_crossed p price")
      case True
      from m [unfolded manage_one_cases(2) [OF price(2) ns True]]
      show ?thesis using True ns by (auto simp: tick_outcome_def res_bind_Inr_iff)
    next
      case False
      from m [unfolded manage_one_cases(3) [OF price(2) ns False u]]
      have x: "x = (if b then Trailed p1 else Held p1)" by simp
      note tt = trailing_tightens [OF u]
      show ?thesis
      proof (cases b)
        case True
        then show ?thesis using x tt(1,2,4) ns False en by (simp add: tick_outcome_def)
      next
        case not_b: False
        then show ?thesis using x tt(3) ns False by (simp add: tick_outcome_def)
      qed
    qed
  qed
  then show thesis using price that by blast
qed

definition managed_from :: "exit_policy \<Rightarrow> position \<Rightarrow> position \<Rightarrow> bool" where
  "managed_from policy p p' \<longleftrightarrow> p' = p \<or>
     (is_open p \<and> (\<exists>price now x. 0 < price \<and> tick_outcome policy p price now x \<and> p' = managed_position x))"

text \<open>
  Whatever happens, also when a price raises half way: the list keeps its length and order, and each
  position is untouched or went through exactly one tick.
\<close>

lemma manage_loop_frame:
  "manage_loop policy prices clock ps m = (ps', r) \<Longrightarrow> list_all2 (managed_from policy) ps ps'"
proof (induction ps arbitrary: m ps' r)
  case (Cons p ps)
  show ?case
  proof (cases "pos_status p = POS_OPEN")
    case False
    with Cons show ?thesis by (auto simp: managed_from_def split: prod.splits)
  next
    case True
    let ?q = "prices (mg_monitored m) (pos_symbol p)" and ?now = "clock (mg_monitored m)"
    show ?thesis
    proof (cases "manage_one policy p ?q ?now")
      case (Inl e)
      with Cons True show ?thesis by (auto simp: list_all2_refl managed_from_def)
    next
      case (Inr x)
      obtain ps1 r1 where l: "manage_loop policy prices clock ps (count_managed x m) = (ps1, r1)"
        by (cases "manage_loop policy prices clock ps (count_managed x m)")
      obtain price where "0 < price" "tick_outcome policy p price ?now x"
        using manage_one_outcome [OF Inr] by blast
      then have "managed_from policy p (managed_position x)"
        using True by (auto simp: managed_from_def is_open_def)
      then show ?thesis using Cons.prems Cons.IH [OF l] True Inr l by auto
    qed
  qed
qed simp

text \<open>The counters of the result add up.\<close>

definition counters_ok :: "management_result \<Rightarrow> bool" where
  "counters_ok m \<longleftrightarrow> mg_closed m = mg_stop_loss_exits m + mg_take_profit_exits m \<and>
     length (mg_results m) = mg_closed m \<and> mg_closed m + mg_trailing_updates m \<le> mg_monitored m"

lemma count_managed_ok: "counters_ok m \<Longrightarrow> counters_ok (count_managed x m)"
  by (cases x) (auto simp: counters_ok_def)

lemma count_managed_monitored [simp]: "mg_monitored (count_managed x m) = mg_monitored m + 1"
  by (cases x) auto

lemma managed_open_iff:
  assumes "tick_outcome policy p price now x" "is_open p"
  shows "is_open (managed_position x) \<longleftrightarrow> mg_closed (count_managed x m) = mg_closed m"
  using assms
  by (cases x) (auto simp: tick_outcome_def tighter_def is_open_def dest: close_position_Inr(5))

lemma manage_loop_counts:
  "manage_loop policy prices clock ps m = (ps', Inr m') \<Longrightarrow> counters_ok m \<Longrightarrow>
   counters_ok m' \<and> mg_monitored m' = mg_monitored m + length (filter is_open ps) \<and>
   mg_closed m' + length (filter is_open ps') = mg_closed m + length (filter is_open ps)"
proof (induction ps arbitrary: m ps' m')
  case (Cons p ps)
  show ?case
  proof (cases "pos_status p = POS_OPEN")
    case False
    with Cons show ?thesis by (auto simp: is_open_def split: prod.splits)
  next
    case True
    let ?q = "prices (mg_monitored m) (pos_symbol p)" and ?now = "clock (mg_monitored m)"
    from Cons.prems(1) True obtain x ps1 where x: "manage_one policy p ?q ?now = Inr x"
      and l: "manage_loop policy prices clock ps (count_managed x m) = (ps1, Inr m')"
      and ps': "ps' = managed_position x # ps1"
      by (auto split: sum.splits prod.splits)
    obtain price where "tick_outcome policy p price ?now x" using manage_one_outcome [OF x] by blast
    then have o1: "is_open (managed_position x) \<longleftrightarrow> mg_closed (count_managed x m) = mg_closed m"
      using True by (intro managed_open_iff) (auto simp: is_open_def)
    have c: "mg_closed (count_managed x m) = mg_closed m \<or> mg_closed (count_managed x m) = mg_closed m + 1"
      by (cases x) auto
    show ?thesis using Cons.IH [OF l count_managed_ok [OF Cons.prems(2)]] o1 c ps' True
      by (auto simp: is_open_def)
  qed
qed (simp add: counters_ok_def)

end
