(* ===== verification/Journal.thy ===== *)
theory Journal
  imports Position_Manager "HOL-Library.List_Lexorder" "HOL-Library.Char_ord" "HOL-Library.Product_Lexorder"
begin

section \<open>The trade journal\<close>

text \<open>
  \<^verbatim>\<open>app/journal/models.py\<close>, \<^verbatim>\<open>in_memory_repository.py\<close> and \<^verbatim>\<open>service.py\<close>; the SQLite repository is in
  \<open>Storage\<close>. A decision snapshot is kept as what \<^verbatim>\<open>json.loads\<close> makes of it (\<open>Core_Model\<close>).
\<close>

subsection \<open>Decimal literals\<close>

text \<open>
  \<^verbatim>\<open>Decimal(str)\<close> for finite literals: a sign, digits with an optional point, an optional exponent,
  surrounded by white space. Anything else raises \<^verbatim>\<open>InvalidOperation\<close>.
\<close>

definition is_digit :: "char \<Rightarrow> bool" where
  "is_digit c \<longleftrightarrow> 48 \<le> (of_char c :: int) \<and> (of_char c :: int) \<le> 57"

definition digits_value :: "string \<Rightarrow> int" where
  "digits_value s = foldl (\<lambda>n c. 10 * n + (of_char c - 48)) 0 s"

fun split_sign :: "string \<Rightarrow> int \<times> string" where
  "split_sign [] = (1, [])"
| "split_sign (c # s) =
     (if c = CHR ''-'' then (- 1, s) else if c = CHR ''+'' then (1, s) else (1, c # s))"

fun split_fraction :: "string \<Rightarrow> string \<times> string" where
  "split_fraction [] = ([], [])"
| "split_fraction (c # s) =
     (if c = CHR ''.'' then (takeWhile is_digit s, dropWhile is_digit s) else ([], c # s))"

fun parse_exponent :: "string \<Rightarrow> int option" where
  "parse_exponent [] = Some 0"
| "parse_exponent (c # s) =
     (if c = CHR ''e'' \<or> c = CHR ''E'' then
        (case split_sign s of (sig, d) \<Rightarrow>
          if d \<noteq> [] \<and> list_all is_digit d then Some (sig * digits_value d) else None)
      else None)"

definition parse_decimal :: "string \<Rightarrow> rat option" where
  "parse_decimal s =
     (case split_sign (strip s) of (sig, body) \<Rightarrow>
        let ip = takeWhile is_digit body in
        case split_fraction (dropWhile is_digit body) of (fp, tail) \<Rightarrow>
          if ip @ fp = [] then None
          else case parse_exponent tail of
            None \<Rightarrow> None
          | Some e \<Rightarrow> Some (of_int (sig * digits_value (ip @ fp)) * p10 (e - int (length fp))))"

definition decimal_of_json :: "json \<Rightarrow> rat res" where
  "decimal_of_json v =
     (case (case v of JNum x \<Rightarrow> Some x | JStr s \<Rightarrow> parse_decimal s | _ \<Rightarrow> None) of
        None \<Rightarrow> Inl (OtherError ''InvalidOperation'')
      | Some x \<Rightarrow> Inr x)"

subsection \<open>Entries\<close>

record journal_entry =
  je_position_id :: string
  je_symbol :: string
  je_side :: position_side
  je_entry_price :: rat
  je_exit_price :: rat
  je_stop_loss :: rat
  je_take_profit :: "rat option"
  je_total_amount :: rat
  je_quantity :: rat
  je_leverage :: rat
  je_realized_pnl :: rat
  je_opened_at :: datetime
  je_closed_at :: datetime
  je_close_reason :: string
  je_cycle_id :: "string option"
  je_decision_snapshot :: "json_text option"

definition require_aware :: "datetime \<Rightarrow> string \<Rightarrow> 'a res \<Rightarrow> 'a res" where
  "require_aware t name k = guard (\<not> is_aware t) (ValueError (name @ '' must be timezone-aware'')) k"

definition snapshot_check :: "json_text option \<Rightarrow> unit res" where
  "snapshot_check snap =
     (case snap of
        None \<Rightarrow> Inr ()
      | Some (NotJson t) \<Rightarrow> Inl (ValueError ''decision_snapshot must be valid JSON'')
      | Some (JsonText (JObj d)) \<Rightarrow> Inr ()
      | Some (JsonText v) \<Rightarrow> Inl (ValueError ''decision_snapshot must contain a JSON object''))"

definition journal_make :: "journal_entry \<Rightarrow> journal_entry res" where
  "journal_make e =
     guard (strip (je_position_id e) = []) (ValueError ''position_id must not be empty'')
    (guard (strip (je_symbol e) = []) (ValueError ''symbol must not be empty'')
    (guard (je_entry_price e \<le> 0 \<or> je_exit_price e \<le> 0 \<or> je_stop_loss e \<le> 0)
       (ValueError ''prices must be positive'')
    (guard (opt_holds (\<lambda>t. t \<le> 0) (je_take_profit e))
       (ValueError ''take_profit must be positive when provided'')
    (guard (je_total_amount e \<le> 0 \<or> je_quantity e \<le> 0 \<or> je_leverage e \<le> 0)
       (ValueError ''position sizing values must be positive'')
    (guard (strip (je_close_reason e) = []) (ValueError ''close_reason must not be empty'')
    (guard (opt_holds (\<lambda>c. strip c = []) (je_cycle_id e))
       (ValueError ''cycle_id must not be empty when provided'')
    (res_bind (snapshot_check (je_decision_snapshot e)) (\<lambda>_.
     require_aware (je_opened_at e) ''opened_at''
    (require_aware (je_closed_at e) ''closed_at''
    (guard (instant (je_closed_at e) < instant (je_opened_at e))
       (ValueError ''closed_at cannot be before opened_at'')
      (Inr e)))))))))))"

definition return_percent :: "journal_entry \<Rightarrow> rat" where
  "return_percent e = dmul (ddiv (je_realized_pnl e) (je_total_amount e)) 100"

definition decision_of :: "journal_entry \<Rightarrow> (string \<times> json) list" where
  "decision_of e = (case je_decision_snapshot e of Some (JsonText (JObj d)) \<Rightarrow> d | _ \<Rightarrow> [])"

definition initial_risk_amount :: "journal_entry \<Rightarrow> rat option res" where
  "initial_risk_amount e =
     (case dget (decision_of e) ''risk'' of
        Some (JObj risk) \<Rightarrow>
          (case dget risk ''new_risk'' of
             None \<Rightarrow> Inr None
           | Some JNull \<Rightarrow> Inr None
           | Some v \<Rightarrow> res_bind (decimal_of_json v) (\<lambda>x. Inr (Some x)))
      | _ \<Rightarrow> Inr None)"

definition realized_r_multiple :: "journal_entry \<Rightarrow> rat option res" where
  "realized_r_multiple e =
     res_bind (initial_risk_amount e) (\<lambda>risk.
       case risk of
         None \<Rightarrow> Inr None
       | Some x \<Rightarrow> if x \<le> 0 then Inr None else Inr (Some (ddiv (je_realized_pnl e) x)))"

definition required :: "'a option \<Rightarrow> string \<Rightarrow> ('a \<Rightarrow> 'b res) \<Rightarrow> 'b res" where
  "required x msg k = (case x of None \<Rightarrow> Inl (ValueError msg) | Some v \<Rightarrow> k v)"

lemma required_simps [simp]:
  "required None msg k = Inl (ValueError msg)" "required (Some v) msg k = k v"
  by (simp_all add: required_def)

lemma required_Inr [guard_simps]: "required x msg k = Inr y \<longleftrightarrow> (\<exists>v. x = Some v \<and> k v = Inr y)"
  by (cases x) auto

definition from_position :: "position \<Rightarrow> string option \<Rightarrow> journal_entry res" where
  "from_position p cycle_id =
     guard (is_open p) (ValueError ''cannot journal an open position'')
    (required (pos_closed_at p) ''closed position is missing closed_at'' (\<lambda>closed_at.
     required (pos_exit_price p) ''closed position is missing exit_price'' (\<lambda>exit_price.
     required (pos_realized_pnl p) ''closed position is missing realized_pnl'' (\<lambda>pnl.
     required (case pos_close_reason p of Some [] \<Rightarrow> None | r \<Rightarrow> r)
       ''closed position is missing close_reason'' (\<lambda>reason.
     journal_make \<lparr>je_position_id = pos_id p, je_symbol = pos_symbol p, je_side = pos_side p,
       je_entry_price = pos_entry_price p, je_exit_price = exit_price, je_stop_loss = pos_stop_loss p,
       je_take_profit = pos_take_profit p, je_total_amount = pos_total_amount p,
       je_quantity = pos_quantity p, je_leverage = pos_leverage p, je_realized_pnl = pnl,
       je_opened_at = pos_opened_at p, je_closed_at = closed_at, je_close_reason = reason,
       je_cycle_id = cycle_id, je_decision_snapshot = pos_decision_snapshot p\<rparr>)))))"

definition journal_ok :: "journal_entry \<Rightarrow> bool" where
  "journal_ok e \<longleftrightarrow> journal_make e = Inr e"

lemma journal_make_Inr: "journal_make e = Inr x \<longleftrightarrow> x = e \<and> journal_ok e"
  by (auto simp: journal_ok_def journal_make_def require_aware_def guard_Inr_iff res_bind_Inr_iff)

lemma from_position_Inr:
  assumes "from_position p c = Inr e"
  shows "journal_ok e" "je_position_id e = pos_id p" "je_cycle_id e = c" "\<not> is_open p"
    "pos_realized_pnl p = Some (je_realized_pnl e)" "pos_exit_price p = Some (je_exit_price e)"
    "pos_closed_at p = Some (je_closed_at e)"
  using assms by (auto simp: from_position_def guard_Inr_iff required_Inr journal_make_Inr)

text \<open>A position that was opened by a fill and then closed by the manager can always be journaled.\<close>

definition journalable :: "position \<Rightarrow> bool" where
  "journalable p \<longleftrightarrow> strip (pos_id p) \<noteq> [] \<and> strip (pos_symbol p) \<noteq> [] \<and> 0 < pos_entry_price p \<and>
     0 < pos_stop_loss p \<and> \<not> opt_holds (\<lambda>t. t \<le> 0) (pos_take_profit p) \<and> 0 < pos_total_amount p \<and>
     0 < pos_quantity p \<and> 0 < pos_leverage p \<and> snapshot_check (pos_decision_snapshot p) = Inr () \<and>
     is_aware (pos_opened_at p)"

lemma closed_position_journals:
  assumes "close_position p price reason now = Inr (p', r)" "journalable p" "0 < price"
    and "strip reason \<noteq> []" "is_aware now" "instant (pos_opened_at p) \<le> instant now"
    and "\<not> opt_holds (\<lambda>c. strip c = []) c"
  shows "\<exists>e. from_position p' c = Inr e"
proof -
  obtain pnl where p': "p' = p\<lparr>pos_status := (if reason = ''TAKE_PROFIT'' then POS_CLOSED else POS_STOPPED_OUT),
      pos_exit_price := Some price, pos_realized_pnl := Some pnl, pos_closed_at := Some now,
      pos_close_reason := Some reason\<rparr>"
    using assms(1) by (auto simp: close_position_def res_bind_Inr_iff)
  have "reason \<noteq> []" using assms(4) by auto
  then obtain ch rs where "reason = ch # rs" by (cases reason) auto
  then show ?thesis using assms(2-)
    by (auto simp: from_position_def p' is_open_def journal_make_def require_aware_def journalable_def guard_def)
qed

subsection \<open>The in-memory repository\<close>

definition mem_save_entry ::
  "journal_entry \<Rightarrow> (string, journal_entry) dict \<Rightarrow> ((string, journal_entry) dict, bool) sres" where
  "mem_save_entry e d =
     (case dget d (je_position_id e) of
        None \<Rightarrow> (dput (je_position_id e) e d, Inr True)
      | Some existing \<Rightarrow>
          if existing = e then (d, Inr False)
          else (d, Inl (ValueError (''journal conflict for position '' @ je_position_id e))))"

definition entry_key :: "journal_entry \<Rightarrow> int \<times> string" where
  "entry_key e = (instant (je_closed_at e), je_position_id e)"

definition by_symbol :: "string option \<Rightarrow> journal_entry list \<Rightarrow> journal_entry list" where
  "by_symbol symbol es = (case symbol of None \<Rightarrow> es | Some s \<Rightarrow> filter (\<lambda>e. je_symbol e = s) es)"

definition mem_list_entries :: "(string, journal_entry) dict \<Rightarrow> string option \<Rightarrow> journal_entry list" where
  "mem_list_entries d symbol = sort_key entry_key (by_symbol symbol (map snd d))"

definition entries_inv :: "(string, journal_entry) dict \<Rightarrow> bool" where
  "entries_inv d \<longleftrightarrow> dict_ok d \<and> list_all (\<lambda>(k, e). je_position_id e = k) d"

lemma entries_inv_keys: "entries_inv d \<Longrightarrow> dget d k = Some e \<Longrightarrow> je_position_id e = k"
  by (auto simp: entries_inv_def list_all_iff dest!: map_of_SomeD)

interpretation journal: append_only_store mem_save_entry dget je_position_id "(=)" entries_inv
proof
  show "entries_inv s \<Longrightarrow> entries_inv (fst (mem_save_entry e s))" for s e
    by (auto simp: mem_save_entry_def entries_inv_def list_all_iff set_dput split: option.splits)
  show "entries_inv s \<Longrightarrow> dget s k = Some e \<Longrightarrow> je_position_id e = k" for s k e
    by (rule entries_inv_keys)
qed (auto simp: mem_save_entry_def split: option.splits)

subsection \<open>The journal service\<close>

text \<open>
  Over any repository: \<open>get\<close> and \<open>save\<close> are the operations it receives. \<open>reconcile\<close> checks what is there and
  adds what is missing; the first conflict stops it.
\<close>

definition record_closed_position ::
  "(journal_entry \<Rightarrow> 's \<Rightarrow> ('s, bool) sres) \<Rightarrow> position \<Rightarrow> string option \<Rightarrow> 's \<Rightarrow> ('s, journal_entry) sres" where
  "record_closed_position save p cycle_id s =
     (case from_position p cycle_id of
        Inl e \<Rightarrow> (s, Inl e)
      | Inr e \<Rightarrow> sbind (save e s) (\<lambda>_ s. (s, Inr e)))"

record reconcile_counts =
  rc_inspected :: nat
  rc_created :: nat
  rc_existing :: nat

definition reconcile_one ::
  "('s \<Rightarrow> string \<Rightarrow> journal_entry option) \<Rightarrow> (journal_entry \<Rightarrow> 's \<Rightarrow> ('s, bool) sres) \<Rightarrow> position
    \<Rightarrow> 's \<Rightarrow> ('s, bool) sres" where
  "reconcile_one get save p s =
     (case get s (pos_id p) of
        Some current \<Rightarrow>
          (s, res_bind (from_position p (je_cycle_id current)) (\<lambda>expected.
             guard (current \<noteq> expected) (ValueError (''journal conflict for position '' @ pos_id p))
               (Inr False)))
      | None \<Rightarrow>
          (case from_position p None of
             Inl e \<Rightarrow> (s, Inl e)
           | Inr e \<Rightarrow> save e s))"

fun reconcile_journal ::
  "('s \<Rightarrow> string \<Rightarrow> journal_entry option) \<Rightarrow> (journal_entry \<Rightarrow> 's \<Rightarrow> ('s, bool) sres) \<Rightarrow> position list
    \<Rightarrow> reconcile_counts \<Rightarrow> 's \<Rightarrow> ('s, reconcile_counts) sres" where
  "reconcile_journal get save [] c s = (s, Inr c)"
| "reconcile_journal get save (p # ps) c s =
     sbind (reconcile_one get save p s) (\<lambda>created s.
       reconcile_journal get save ps
         (if created
          then c\<lparr>rc_inspected := rc_inspected c + 1, rc_created := rc_created c + 1\<rparr>
          else c\<lparr>rc_inspected := rc_inspected c + 1, rc_existing := rc_existing c + 1\<rparr>) s)"

definition rc_zero :: reconcile_counts where
  "rc_zero = \<lparr>rc_inspected = 0, rc_created = 0, rc_existing = 0\<rparr>"

lemma reconcile_counts_add:
  "reconcile_journal get save ps c s = (s', Inr c') \<Longrightarrow>
   rc_inspected c' = rc_inspected c + length ps \<and>
   rc_created c' + rc_existing c' + rc_inspected c = rc_created c + rc_existing c + rc_inspected c'"
proof (induction ps arbitrary: c s)
  case (Cons p ps)
  then obtain s1 b where "reconcile_one get save p s = (s1, Inr b)" by (auto simp: sbind_Inr_iff)
  with Cons show ?case by (cases b) fastforce+
qed simp

text \<open>After a successful run over the in-memory journal every position has its entry.\<close>

lemma reconcile_one_stored:
  assumes "reconcile_one dget mem_save_entry p s = (s', Inr b)" "entries_inv s"
  shows "entries_inv s'" and "\<exists>e. dget s' (pos_id p) = Some e \<and> from_position p (je_cycle_id e) = Inr e"
    and "dget s k = Some x \<Longrightarrow> dget s' k = Some x"
proof -
  have "entries_inv s' \<and> (\<exists>e. dget s' (pos_id p) = Some e \<and> from_position p (je_cycle_id e) = Inr e) \<and>
      (dget s k = Some x \<longrightarrow> dget s' k = Some x)"
  proof (cases "dget s (pos_id p)")
    case (Some current)
    with assms show ?thesis by (auto simp: reconcile_one_def guard_Inr_iff res_bind_Inr_iff)
  next
    case None
    with assms obtain e where e: "from_position p None = Inr e" and sv: "mem_save_entry e s = (s', Inr b)"
      by (auto simp: reconcile_one_def split: sum.splits)
    have k: "je_position_id e = pos_id p" "je_cycle_id e = None" using from_position_Inr [OF e] by auto
    have "entries_inv s'" using journal.save_inv [OF assms(2), of e] sv by simp
    moreover have "dget s' (pos_id p) = Some e" using journal.save_stored [OF assms(2), of e b] sv k by auto
    moreover have "dget s k = Some x \<longrightarrow> dget s' k = Some x"
      using journal.immutable [OF assms(2), of k x e] sv by simp
    ultimately show ?thesis using e k by auto
  qed
  then show "entries_inv s'" "\<exists>e. dget s' (pos_id p) = Some e \<and> from_position p (je_cycle_id e) = Inr e"
    "dget s k = Some x \<Longrightarrow> dget s' k = Some x" by auto
qed

lemma reconcile_journal_complete:
  "reconcile_journal dget mem_save_entry ps c s = (s', Inr c') \<Longrightarrow> entries_inv s \<Longrightarrow>
   entries_inv s' \<and> (\<forall>k x. dget s k = Some x \<longrightarrow> dget s' k = Some x) \<and>
   (\<forall>p \<in> set ps. \<exists>e. dget s' (pos_id p) = Some e \<and> from_position p (je_cycle_id e) = Inr e)"
proof (induction ps arbitrary: c s)
  case (Cons p ps)
  from Cons.prems(1) obtain s1 b c1 where one: "reconcile_one dget mem_save_entry p s = (s1, Inr b)"
    and l: "reconcile_journal dget mem_save_entry ps c1 s1 = (s', Inr c')"
    by (auto simp: sbind_Inr_iff split: if_splits)
  note st = reconcile_one_stored [OF one Cons.prems(2)]
  note ih = Cons.IH [OF l st(1)]
  obtain e where e: "dget s1 (pos_id p) = Some e" "from_position p (je_cycle_id e) = Inr e"
    using st(2) by blast
  have "dget s' (pos_id p) = Some e" using ih e(1) by blast
  then have "\<exists>e. dget s' (pos_id p) = Some e \<and> from_position p (je_cycle_id e) = Inr e" using e(2) by blast
  then show ?case using ih st(3) by auto
qed simp

end
