(* ===== verification/Storage.thy ===== *)
theory Storage
  imports Journal
begin

section \<open>SQLite storage: the database, its transactions and the repositories\<close>

text \<open>
  \<^verbatim>\<open>app/storage/database.py\<close>, \<^verbatim>\<open>app/storage/repositories/sqlite_*.py\<close>, \<^verbatim>\<open>app/storage/account_ledger.py\<close>,
  \<^verbatim>\<open>app/journal/sqlite_repository.py\<close>, \<^verbatim>\<open>app/execution/sqlite_pending_order_repository.py\<close> and the
  in-memory position and account repositories.

  A connection holds the committed database and the one the open transaction sees. A statement changes
  the current database only; \<^verbatim>\<open>commit\<close> makes it the committed one and \<^verbatim>\<open>rollback\<close> drops it. A repository built
  with \<^verbatim>\<open>auto_commit=True\<close> commits after its statement. The constraints of the schema (primary keys, \<^verbatim>\<open>UNIQUE\<close>,
  foreign keys) are checks of the insert. Tables are dictionaries in row order. A number stored as \<^verbatim>\<open>str(Decimal)\<close>
  and a time stored as \<^verbatim>\<open>isoformat()\<close> are read back unchanged; times are stored in UTC, so that the order of
  the texts is the order of the instants. A frozen record is validated when it is made, so re-validating the
  same values when a row is read cannot fail and is left out.
\<close>

subsection \<open>The database\<close>

record order_row =
  ow_request :: order_request
  ow_status :: order_status
  ow_filled_price :: "rat option"
  ow_reason :: "string option"
  ow_filled_at :: "datetime option"

record pending_row =
  pw_status :: order_status
  pw_accepted_at :: datetime
  pw_updated_at :: datetime
  pw_cancel_reason :: "string option"
  pw_rejection_reason :: "string option"

record ledger_entry =
  le_ledger_id :: string
  le_position_id :: string
  le_cycle_id :: "string option"
  le_realized_pnl :: rat
  le_equity_before :: rat
  le_equity_after :: rat
  le_created_at :: datetime

record database =
  db_positions :: "(string, position) dict"
  db_orders :: "(string, order_row) dict"
  db_fills :: "(string, fill) dict"
  db_pending :: "(string, pending_row) dict"
  db_account :: "(string, rat) dict"
  db_ledger :: "(string, ledger_entry) dict"
  db_journal :: "(string, journal_entry) dict"

definition db_empty :: database where
  "db_empty = \<lparr>db_positions = [], db_orders = [], db_fills = [], db_pending = [], db_account = [],
     db_ledger = [], db_journal = []\<rparr>"

record connection =
  cn_committed :: database
  cn_current :: database

definition commit :: "connection \<Rightarrow> connection" where
  "commit c = c\<lparr>cn_committed := cn_current c\<rparr>"

definition rollback :: "connection \<Rightarrow> connection" where
  "rollback c = c\<lparr>cn_current := cn_committed c\<rparr>"

definition sql_write :: "bool \<Rightarrow> (database \<Rightarrow> database) \<Rightarrow> connection \<Rightarrow> connection" where
  "sql_write auto f c =
     (let c1 = c\<lparr>cn_current := f (cn_current c)\<rparr> in if auto then commit c1 else c1)"

definition settled :: "connection \<Rightarrow> bool" where
  "settled c \<longleftrightarrow> cn_current c = cn_committed c"

lemma sql_write_simps [simp]:
  "cn_current (sql_write auto f c) = f (cn_current c)"
  "cn_committed (sql_write auto f c) = (if auto then f (cn_current c) else cn_committed c)"
  by (simp_all add: sql_write_def commit_def Let_def)

lemma transaction_simps [simp]:
  "cn_current (commit c) = cn_current c" "cn_committed (commit c) = cn_current c"
  "cn_current (rollback c) = cn_committed c" "cn_committed (rollback c) = cn_committed c"
  by (simp_all add: commit_def rollback_def)

lemma connection_eqI: "cn_committed a = cn_committed b \<Longrightarrow> cn_current a = cn_current b \<Longrightarrow> a = (b :: connection)"
  by (cases a; cases b) simp

subsection \<open>Orders\<close>

definition sql_save_request :: "bool \<Rightarrow> order_request \<Rightarrow> connection \<Rightarrow> (connection, unit) sres" where
  "sql_save_request auto o1 c =
     (if dget (db_orders (cn_current c)) (or_id o1) \<noteq> None
      then (c, Inl (IntegrityError ''UNIQUE constraint failed: orders.order_id''))
      else (sql_write auto (\<lambda>d. d\<lparr>db_orders := dput (or_id o1)
              \<lparr>ow_request = o1, ow_status = ORD_PENDING, ow_filled_price = None, ow_reason = None,
               ow_filled_at = None\<rparr> (db_orders d)\<rparr>) c, Inr ()))"

definition result_columns ::
  "string \<Rightarrow> rat option \<Rightarrow> string option \<Rightarrow> datetime option
    \<Rightarrow> string \<times> rat option \<times> string option \<times> datetime option" where
  "result_columns symbol price reason at1 = (symbol, price, reason, at1)"

definition sql_save_result :: "bool \<Rightarrow> order_result \<Rightarrow> connection \<Rightarrow> (connection, unit) sres" where
  "sql_save_result auto r c =
     (case dget (db_orders (cn_current c)) (ot_id r) of
        None \<Rightarrow> (c, Inl (ValueError (''Unknown order: '' @ ot_id r)))
      | Some row \<Rightarrow>
          if ow_status row \<noteq> ot_status r \<and> \<not> allowed_transition (ow_status row) (ot_status r)
          then (c, Inl (ValueError ''Invalid order transition''))
          else if ow_status row = ot_status r then
            (if result_columns (or_symbol (ow_request row)) (ow_filled_price row) (ow_reason row) (ow_filled_at row)
                \<noteq> result_columns (ot_symbol r) (ot_filled_price r) (ot_reason r) (ot_filled_at r)
             then (c, Inl (ValueError (''Conflicting result for order: '' @ ot_id r)))
             else (c, Inr ()))
          else (sql_write auto (\<lambda>d. d\<lparr>db_orders := dput (ot_id r)
                  \<lparr>ow_request = (ow_request row)\<lparr>or_symbol := ot_symbol r\<rparr>, ow_status = ot_status r,
                   ow_filled_price = ot_filled_price r, ow_reason = ot_reason r,
                   ow_filled_at = ot_filled_at r\<rparr> (db_orders d)\<rparr>) c, Inr ()))"

definition order_of_row :: "string \<Rightarrow> order_row \<Rightarrow> order_request \<times> order_result option" where
  "order_of_row oid row =
     (ow_request row,
      if ow_status row = ORD_PENDING then None
      else Some \<lparr>ot_id = oid, ot_status = ow_status row, ot_symbol = or_symbol (ow_request row),
             ot_filled_price = ow_filled_price row, ot_reason = ow_reason row,
             ot_filled_at = ow_filled_at row\<rparr>)"

definition sql_get_order :: "connection \<Rightarrow> string \<Rightarrow> (order_request \<times> order_result option) option" where
  "sql_get_order c oid = map_option (order_of_row oid) (dget (db_orders (cn_current c)) oid)"

definition sql_order_exists :: "connection \<Rightarrow> string \<Rightarrow> bool" where
  "sql_order_exists c oid \<longleftrightarrow> dget (db_orders (cn_current c)) oid \<noteq> None"

subsection \<open>Fills\<close>

definition sql_save_fill :: "bool \<Rightarrow> fill \<Rightarrow> connection \<Rightarrow> (connection, unit) sres" where
  "sql_save_fill auto f c =
     (case dget (db_fills (cn_current c)) (fl_id f) of
        Some existing \<Rightarrow>
          if existing \<noteq> f then (c, Inl (ValueError (''Conflicting fill: '' @ fl_id f)))
          else (c, Inr ())
      | None \<Rightarrow>
          if \<not> sql_order_exists c (fl_order_id f)
          then (c, Inl (ValueError (''Unknown order: '' @ fl_order_id f)))
          else (sql_write auto (\<lambda>d. d\<lparr>db_fills := dput (fl_id f) f (db_fills d)\<rparr>) c, Inr ()))"

definition sql_get_fill :: "connection \<Rightarrow> string \<Rightarrow> fill option" where
  "sql_get_fill c fid = dget (db_fills (cn_current c)) fid"

definition sql_fills_for_order :: "connection \<Rightarrow> string \<Rightarrow> fill list" where
  "sql_fills_for_order c oid =
     sort_key (\<lambda>f. (instant (fl_filled_at f), fl_id f))
       (filter (\<lambda>f. fl_order_id f = oid) (map snd (db_fills (cn_current c))))"

subsection \<open>Positions\<close>

text \<open>
  \<^verbatim>\<open>INSERT OR REPLACE\<close> deletes the old row and appends the new one. An empty close reason is read back
  as none.
\<close>

definition sql_save_position :: "bool \<Rightarrow> position \<Rightarrow> connection \<Rightarrow> (connection, unit) sres" where
  "sql_save_position auto p c =
     (sql_write auto (\<lambda>d. d\<lparr>db_positions := dput (pos_id p) p (dpop (pos_id p) (db_positions d))\<rparr>) c, Inr ())"

definition position_of_row :: "position \<Rightarrow> position" where
  "position_of_row p = p\<lparr>pos_close_reason := (case pos_close_reason p of Some [] \<Rightarrow> None | r \<Rightarrow> r)\<rparr>"

definition sql_list_open :: "connection \<Rightarrow> position list" where
  "sql_list_open c = map position_of_row (sort_key (\<lambda>p. instant (pos_opened_at p))
     (filter is_open (map snd (db_positions (cn_current c)))))"

definition closed_key :: "position \<Rightarrow> int \<times> string" where
  "closed_key p = (instant (case pos_closed_at p of Some t \<Rightarrow> t | None \<Rightarrow> pos_opened_at p), pos_id p)"

definition sql_list_closed :: "connection \<Rightarrow> position list" where
  "sql_list_closed c = map position_of_row (sort_key closed_key
     (filter (\<lambda>p. \<not> is_open p \<and> pos_closed_at p \<noteq> None) (map snd (db_positions (cn_current c)))))"

definition sql_position_exists :: "connection \<Rightarrow> string \<Rightarrow> bool" where
  "sql_position_exists c pid \<longleftrightarrow> dget (db_positions (cn_current c)) pid \<noteq> None"

text \<open>The in-memory position repository.\<close>

definition mem_save_position :: "position \<Rightarrow> (string, position) dict \<Rightarrow> (string, position) dict" where
  "mem_save_position p d = dput (pos_id p) p d"

definition mem_list_open :: "(string, position) dict \<Rightarrow> position list" where
  "mem_list_open d = filter is_open (map snd d)"

definition mem_list_closed :: "(string, position) dict \<Rightarrow> position list" where
  "mem_list_closed d = sort_key closed_key (filter (\<lambda>p. \<not> is_open p) (map snd d))"

subsection \<open>The account\<close>

definition sql_load_equity :: "connection \<Rightarrow> rat res" where
  "sql_load_equity c =
     (case dget (db_account (cn_current c)) ''default'' of
        None \<Rightarrow> Inl (ValueError ''account state is not initialized'')
      | Some x \<Rightarrow> Inr x)"

definition sql_save_equity :: "bool \<Rightarrow> rat \<Rightarrow> connection \<Rightarrow> (connection, unit) sres" where
  "sql_save_equity auto equity c =
     (if equity < 0 then (c, Inl (ValueError ''equity cannot be negative''))
      else (sql_write auto (\<lambda>d. d\<lparr>db_account := dput ''default'' equity (db_account d)\<rparr>) c, Inr ()))"

definition mem_account_new :: "rat \<Rightarrow> rat res" where
  "mem_account_new equity = guard (equity < 0) (ValueError ''equity cannot be negative'') (Inr equity)"

definition mem_save_equity :: "rat \<Rightarrow> rat \<Rightarrow> (rat, unit) sres" where
  "mem_save_equity equity s =
     (if equity < 0 then (s, Inl (ValueError ''equity cannot be negative'')) else (equity, Inr ()))"

subsection \<open>The account ledger\<close>

definition ledger_make :: "ledger_entry \<Rightarrow> ledger_entry res" where
  "ledger_make e =
     guard (strip (le_ledger_id e) = [] \<or> strip (le_position_id e) = [])
       (ValueError ''ledger_id and position_id must not be empty'')
    (guard (opt_holds (\<lambda>c. strip c = []) (le_cycle_id e))
       (ValueError ''cycle_id must not be empty when provided'')
    (guard (le_equity_before e < 0 \<or> le_equity_after e < 0)
       (ValueError ''ledger equity cannot be negative'')
    (guard (\<not> is_aware (le_created_at e)) (ValueError ''created_at must be timezone-aware'')
    (guard (dadd (le_equity_before e) (le_realized_pnl e) \<noteq> le_equity_after e)
       (ValueError ''ledger equity transition does not match realized P&L'')
      (Inr e)))))"

definition ledger_find :: "database \<Rightarrow> string \<Rightarrow> ledger_entry option" where
  "ledger_find d pid = find (\<lambda>e. le_position_id e = pid) (map snd (db_ledger d))"

definition sql_save_ledger :: "bool \<Rightarrow> ledger_entry \<Rightarrow> connection \<Rightarrow> (connection, bool) sres" where
  "sql_save_ledger auto e c =
     (case ledger_find (cn_current c) (le_position_id e) of
        Some existing \<Rightarrow>
          if existing = e then (c, Inr False)
          else (c, Inl (ValueError (''account ledger conflict for position '' @ le_position_id e)))
      | None \<Rightarrow>
          if dget (db_ledger (cn_current c)) (le_ledger_id e) \<noteq> None
          then (c, Inl (IntegrityError ''UNIQUE constraint failed: account_ledger.ledger_id''))
          else if \<not> sql_position_exists c (le_position_id e)
          then (c, Inl (IntegrityError ''FOREIGN KEY constraint failed''))
          else (sql_write auto (\<lambda>d. d\<lparr>db_ledger := dput (le_ledger_id e) e (db_ledger d)\<rparr>) c, Inr True))"

subsection \<open>The journal table\<close>

definition sql_get_journal :: "connection \<Rightarrow> string \<Rightarrow> journal_entry option" where
  "sql_get_journal c pid = dget (db_journal (cn_current c)) pid"

definition sql_save_journal :: "bool \<Rightarrow> journal_entry \<Rightarrow> connection \<Rightarrow> (connection, bool) sres" where
  "sql_save_journal auto e c =
     (case sql_get_journal c (je_position_id e) of
        Some existing \<Rightarrow>
          if existing = e then (c, Inr False)
          else (c, Inl (ValueError (''journal conflict for position '' @ je_position_id e)))
      | None \<Rightarrow> (sql_write auto (\<lambda>d. d\<lparr>db_journal := dput (je_position_id e) e (db_journal d)\<rparr>) c, Inr True))"

definition sql_list_journal :: "connection \<Rightarrow> string option \<Rightarrow> journal_entry list" where
  "sql_list_journal c symbol = sort_key entry_key (by_symbol symbol (map snd (db_journal (cn_current c))))"

subsection \<open>Pending orders\<close>

definition sql_pending_save :: "bool \<Rightarrow> pending_order \<Rightarrow> connection \<Rightarrow> (connection, unit) sres" where
  "sql_pending_save auto p c =
     (if pd_status p \<notin> {ORD_ACCEPTED, ORD_REJECTED, ORD_CANCELLED}
      then (c, Inl (ValueError ''pending repository accepts only accepted/rejected/cancelled states''))
      else if \<not> sql_order_exists c (or_id (pd_order p))
      then (c, Inl (ValueError (''Unknown order: '' @ or_id (pd_order p))))
      else (sql_write auto (\<lambda>d. d\<lparr>db_pending := dput (or_id (pd_order p))
             \<lparr>pw_status = pd_status p,
              pw_accepted_at = (case dget (db_pending d) (or_id (pd_order p)) of
                 None \<Rightarrow> pd_accepted_at p | Some old \<Rightarrow> pw_accepted_at old),
              pw_updated_at = pd_updated_at p, pw_cancel_reason = pd_cancel_reason p,
              pw_rejection_reason = pd_rejection_reason p\<rparr> (db_pending d)\<rparr>) c, Inr ()))"

definition sql_pending_remove :: "bool \<Rightarrow> string \<Rightarrow> connection \<Rightarrow> (connection, unit) sres" where
  "sql_pending_remove auto oid c =
     (sql_write auto (\<lambda>d. d\<lparr>db_pending := dpop oid (db_pending d)\<rparr>) c, Inr ())"

definition pending_of_row :: "connection \<Rightarrow> string \<times> pending_row \<Rightarrow> pending_order res" where
  "pending_of_row c kr =
     (case dget (db_orders (cn_current c)) (fst kr) of
        None \<Rightarrow> Inl (ValueError (''Pending order references missing order: '' @ fst kr))
      | Some row \<Rightarrow> Inr \<lparr>pd_order = ow_request row, pd_status = ORD_ACCEPTED,
            pd_accepted_at = pw_accepted_at (snd kr), pd_updated_at = pw_updated_at (snd kr),
            pd_cancel_reason = pw_cancel_reason (snd kr), pd_rejection_reason = pw_rejection_reason (snd kr)\<rparr>)"

definition sql_pending_active :: "connection \<Rightarrow> pending_order list res" where
  "sql_pending_active c =
     res_map (pending_of_row c) (sort_key (\<lambda>(k, r). (instant (pw_accepted_at r), k))
       (filter (\<lambda>(k, r). pw_status r = ORD_ACCEPTED) (db_pending (cn_current c))))"

subsection \<open>The invariant of the database\<close>

text \<open>
  Rows sit under their own identifier, every foreign key has its target and a position has at most one
  ledger entry. Every repository operation keeps this, committed or not.
\<close>

definition keyed :: "('v \<Rightarrow> 'k) \<Rightarrow> ('k, 'v) dict \<Rightarrow> bool" where
  "keyed f d \<longleftrightarrow> dict_ok d \<and> list_all (\<lambda>(k, v). f v = k) d"

lemma keyed_Nil [simp]: "keyed f []"
  by (simp add: keyed_def)

lemma keyed_dput [intro]: "keyed f d \<Longrightarrow> f v = k \<Longrightarrow> keyed f (dput k v d)"
  by (auto simp: keyed_def list_all_iff set_dput)

lemma keyed_dpop [intro]: "keyed f d \<Longrightarrow> keyed f (dpop k d)"
  by (auto simp: keyed_def list_all_iff AList.delete_eq intro: dict_ok_dpop [unfolded AList.delete_eq])

lemma keyed_dget: "keyed f d \<Longrightarrow> dget d k = Some v \<Longrightarrow> f v = k"
  by (auto simp: keyed_def list_all_iff dest!: map_of_SomeD)

lemma keyed_values: "keyed f d \<Longrightarrow> v \<in> set (map snd d) \<Longrightarrow> dget d (f v) = Some v"
  by (auto simp: keyed_def list_all_iff dict_ok_def)

definition db_inv :: "database \<Rightarrow> bool" where
  "db_inv d \<longleftrightarrow> keyed pos_id (db_positions d) \<and> keyed (or_id \<circ> ow_request) (db_orders d) \<and>
     keyed fl_id (db_fills d) \<and> dict_ok (db_pending d) \<and> dict_ok (db_account d) \<and>
     keyed le_ledger_id (db_ledger d) \<and> keyed je_position_id (db_journal d) \<and>
     distinct (map (\<lambda>e. le_position_id e) (map snd (db_ledger d))) \<and>
     (\<forall>f \<in> set (map snd (db_fills d)). dget (db_orders d) (fl_order_id f) \<noteq> None) \<and>
     (\<forall>k \<in> set (map fst (db_pending d)). dget (db_orders d) k \<noteq> None) \<and>
     (\<forall>e \<in> set (map snd (db_ledger d)). dget (db_positions d) (le_position_id e) \<noteq> None)"

definition conn_inv :: "connection \<Rightarrow> bool" where
  "conn_inv c \<longleftrightarrow> db_inv (cn_current c) \<and> db_inv (cn_committed c)"

lemma db_inv_empty: "db_inv db_empty"
  by (simp add: db_inv_def db_empty_def)

lemma conn_inv_write [intro]:
  "conn_inv c \<Longrightarrow> db_inv (f (cn_current c)) \<Longrightarrow> conn_inv (sql_write auto f c)"
  by (simp add: conn_inv_def)

lemma conn_inv_transaction [intro]: "conn_inv c \<Longrightarrow> conn_inv (commit c)" "conn_inv c \<Longrightarrow> conn_inv (rollback c)"
  by (simp_all add: conn_inv_def)

lemma conn_inv_current: "conn_inv c \<Longrightarrow> db_inv (cn_current c)"
  by (simp add: conn_inv_def)

lemma dom_dput: "dget (dput k v d) k' \<noteq> None \<longleftrightarrow> k' = k \<or> dget d k' \<noteq> None"
  by simp

lemma keyed_ok: "keyed f d \<Longrightarrow> dict_ok d"
  by (simp add: keyed_def)

lemma values_dput:
  "dict_ok d \<Longrightarrow> P v \<Longrightarrow> \<forall>x \<in> set (map snd d). P x \<Longrightarrow> \<forall>x \<in> set (map snd (dput k v d)). P x"
  by (auto simp: set_dput)

lemma keys_dput: "P k \<Longrightarrow> \<forall>x \<in> set (map fst d). P x \<Longrightarrow> \<forall>x \<in> set (map fst (dput k v d)). P x"
  by (induction d) auto

lemma keys_dpop: "\<forall>x \<in> set (map fst d). P x \<Longrightarrow> \<forall>x \<in> set (map fst (dpop k d)). P x"
  by (auto simp: AList.delete_eq)

lemma fresh_dput: "dget d k = None \<Longrightarrow> dput k v d = d @ [(k, v)]"
  by (induction d) auto

lemma db_inv_orders:
  assumes "db_inv d" "or_id (ow_request row) = k"
  shows "db_inv (d\<lparr>db_orders := dput k row (db_orders d)\<rparr>)"
  using assms unfolding db_inv_def by (simp add: keyed_dput del: set_map)

lemma db_inv_fills:
  assumes "db_inv d" "dget (db_orders d) (fl_order_id f) \<noteq> None"
  shows "db_inv (d\<lparr>db_fills := dput (fl_id f) f (db_fills d)\<rparr>)"
proof -
  have "dict_ok (db_fills d)" using assms(1) by (auto simp: db_inv_def dest: keyed_ok)
  then show ?thesis
    using assms values_dput [of "db_fills d" "\<lambda>f. dget (db_orders d) (fl_order_id f) \<noteq> None" f "fl_id f"]
    unfolding db_inv_def by (simp add: keyed_dput del: set_map)
qed

lemma db_inv_positions:
  assumes "db_inv d"
  shows "db_inv (d\<lparr>db_positions := dput (pos_id p) p (dpop (pos_id p) (db_positions d))\<rparr>)"
  using assms unfolding db_inv_def by (simp add: keyed_dput keyed_dpop del: set_map)

lemma db_inv_account: "db_inv d \<Longrightarrow> db_inv (d\<lparr>db_account := dput k x (db_account d)\<rparr>)"
  unfolding db_inv_def by (simp add: dict_ok_dput del: set_map)

lemma db_inv_journal:
  "db_inv d \<Longrightarrow> db_inv (d\<lparr>db_journal := dput (je_position_id e) e (db_journal d)\<rparr>)"
  unfolding db_inv_def by (simp add: keyed_dput del: set_map)

lemma db_inv_pending:
  assumes "db_inv d" "dget (db_orders d) k \<noteq> None"
  shows "db_inv (d\<lparr>db_pending := dput k r (db_pending d)\<rparr>)"
  using assms keys_dput [of "\<lambda>k. dget (db_orders d) k \<noteq> None" k "db_pending d" r]
  unfolding db_inv_def by (simp add: dict_ok_dput del: set_map)

lemma db_inv_unpend: "db_inv d \<Longrightarrow> db_inv (d\<lparr>db_pending := dpop k (db_pending d)\<rparr>)"
  using keys_dpop [of "db_pending d" "\<lambda>k. dget (db_orders d) k \<noteq> None" k]
  unfolding db_inv_def by (simp add: dict_ok_dpop del: set_map)

lemma find_SomeD: "find P xs = Some x \<Longrightarrow> P x \<and> x \<in> set xs"
  by (induction xs) (auto split: if_splits)

lemma ledger_find_None: "ledger_find d pid = None \<longleftrightarrow> pid \<notin> set (map le_position_id (map snd (db_ledger d)))"
  by (auto simp: ledger_find_def find_None_iff)

lemma ledger_find_Some: "ledger_find d pid = Some e \<Longrightarrow> le_position_id e = pid \<and> e \<in> set (map snd (db_ledger d))"
  unfolding ledger_find_def by (rule find_SomeD)

lemma db_inv_ledger:
  assumes "db_inv d" "ledger_find d (le_position_id e) = None" "dget (db_ledger d) (le_ledger_id e) = None"
    and "dget (db_positions d) (le_position_id e) \<noteq> None"
  shows "db_inv (d\<lparr>db_ledger := dput (le_ledger_id e) e (db_ledger d)\<rparr>)"
proof -
  have "keyed le_ledger_id (dput (le_ledger_id e) e (db_ledger d))"
    using assms(1) by (auto simp: db_inv_def)
  moreover have "distinct (map (\<lambda>e. le_position_id e) (map snd (dput (le_ledger_id e) e (db_ledger d))))"
    using assms(1,2) unfolding fresh_dput [OF assms(3)] ledger_find_None by (simp add: db_inv_def)
  moreover have "\<forall>x \<in> set (map snd (dput (le_ledger_id e) e (db_ledger d))).
      dget (db_positions d) (le_position_id x) \<noteq> None"
    using assms(1,4) unfolding fresh_dput [OF assms(3)] by (simp add: db_inv_def)
  ultimately show ?thesis using assms(1) unfolding db_inv_def by (simp del: set_map map_map)
qed

text \<open>One operation of a repository, so that runs can be lists of operations.\<close>

datatype store_op =
    OpSaveRequest order_request
  | OpSaveResult order_result
  | OpSaveFill fill
  | OpSavePosition position
  | OpSaveEquity rat
  | OpSaveLedger ledger_entry
  | OpSaveJournal journal_entry
  | OpPendingSave pending_order
  | OpPendingRemove string
  | OpCommit
  | OpRollback

fun store_op_run :: "bool \<Rightarrow> store_op \<Rightarrow> connection \<Rightarrow> connection" where
  "store_op_run auto (OpSaveRequest o1) c = fst (sql_save_request auto o1 c)"
| "store_op_run auto (OpSaveResult r) c = fst (sql_save_result auto r c)"
| "store_op_run auto (OpSaveFill f) c = fst (sql_save_fill auto f c)"
| "store_op_run auto (OpSavePosition p) c = fst (sql_save_position auto p c)"
| "store_op_run auto (OpSaveEquity x) c = fst (sql_save_equity auto x c)"
| "store_op_run auto (OpSaveLedger e) c = fst (sql_save_ledger auto e c)"
| "store_op_run auto (OpSaveJournal e) c = fst (sql_save_journal auto e c)"
| "store_op_run auto (OpPendingSave p) c = fst (sql_pending_save auto p c)"
| "store_op_run auto (OpPendingRemove k) c = fst (sql_pending_remove auto k c)"
| "store_op_run auto OpCommit c = commit c"
| "store_op_run auto OpRollback c = rollback c"

lemma conn_inv_requests: "conn_inv c \<Longrightarrow> conn_inv (fst (sql_save_request auto o1 c))"
  by (auto simp: sql_save_request_def intro!: db_inv_orders conn_inv_current)

lemma conn_inv_results: 
  assumes "conn_inv c"
  shows "conn_inv (fst (sql_save_result auto r c))"
proof (cases "dget (db_orders (cn_current c)) (ot_id r)")
  case (Some row)
  have "or_id (ow_request row) = ot_id r"
    using conn_inv_current [OF assms] keyed_dget [OF _ Some, of "or_id \<circ> ow_request"] by (simp add: db_inv_def)
  then show ?thesis using assms Some
    by (auto simp: sql_save_result_def intro!: db_inv_orders conn_inv_current)
qed (use assms in \<open>simp add: sql_save_result_def\<close>)

lemma conn_inv_fills: "conn_inv c \<Longrightarrow> conn_inv (fst (sql_save_fill auto f c))"
  by (auto simp: sql_save_fill_def sql_order_exists_def intro!: db_inv_fills conn_inv_current split: option.split)

lemma conn_inv_positions: "conn_inv c \<Longrightarrow> conn_inv (fst (sql_save_position auto p c))"
  by (auto simp: sql_save_position_def intro!: db_inv_positions conn_inv_current)

lemma conn_inv_equity: "conn_inv c \<Longrightarrow> conn_inv (fst (sql_save_equity auto x c))"
  by (auto simp: sql_save_equity_def intro!: db_inv_account conn_inv_current)

lemma conn_inv_ledger: "conn_inv c \<Longrightarrow> conn_inv (fst (sql_save_ledger auto e c))"
  by (auto simp: sql_save_ledger_def sql_position_exists_def intro!: db_inv_ledger conn_inv_current split: option.split)

lemma conn_inv_journal: "conn_inv c \<Longrightarrow> conn_inv (fst (sql_save_journal auto e c))"
  by (auto simp: sql_save_journal_def intro!: db_inv_journal conn_inv_current split: option.split)

lemma conn_inv_pending: "conn_inv c \<Longrightarrow> conn_inv (fst (sql_pending_save auto p c))"
  by (auto simp: sql_pending_save_def sql_order_exists_def intro!: db_inv_pending conn_inv_current)

lemma conn_inv_unpend: "conn_inv c \<Longrightarrow> conn_inv (fst (sql_pending_remove auto k c))"
  by (auto simp: sql_pending_remove_def intro!: db_inv_unpend conn_inv_current)

lemmas conn_inv_ops = conn_inv_requests conn_inv_results conn_inv_fills conn_inv_positions conn_inv_equity
  conn_inv_ledger conn_inv_journal conn_inv_pending conn_inv_unpend conn_inv_transaction

lemma conn_inv_step: "conn_inv c \<Longrightarrow> conn_inv (store_op_run auto op c)"
  by (cases op) (auto intro: conn_inv_ops)

lemma conn_inv_run: "conn_inv c \<Longrightarrow> conn_inv (fold (store_op_run auto) ops c)"
  by (induction ops arbitrary: c) (auto intro: conn_inv_step)

subsection \<open>The append-only tables\<close>

definition sql_ledger_get :: "connection \<Rightarrow> string \<Rightarrow> ledger_entry option" where
  "sql_ledger_get c pid = ledger_find (cn_current c) pid"

lemma find_append: "find P (xs @ ys) = (case find P xs of Some x \<Rightarrow> Some x | None \<Rightarrow> find P ys)"
  by (induction xs) auto

lemma conn_inv_fill_key: "conn_inv c \<Longrightarrow> sql_get_fill c k = Some f \<Longrightarrow> fl_id f = k"
  by (auto simp: sql_get_fill_def conn_inv_def db_inv_def dest: keyed_dget)

lemma conn_inv_journal_key: "conn_inv c \<Longrightarrow> sql_get_journal c k = Some e \<Longrightarrow> je_position_id e = k"
  by (auto simp: sql_get_journal_def conn_inv_def db_inv_def dest: keyed_dget)

lemma ledger_saved:
  assumes "snd (sql_save_ledger auto e c) = Inr b"
  shows "sql_ledger_get (fst (sql_save_ledger auto e c)) (le_position_id e) = Some e"
    and "k \<noteq> le_position_id e \<Longrightarrow> sql_ledger_get (fst (sql_save_ledger auto e c)) k = sql_ledger_get c k"
  using assms
  by (auto simp: sql_save_ledger_def sql_ledger_get_def ledger_find_def fresh_dput find_append
      split: option.splits if_splits)

interpretation sql_fills: append_only_store "sql_save_fill auto" sql_get_fill fl_id "(=)" conn_inv for auto
proof
  show "conn_inv s \<Longrightarrow> conn_inv (fst (sql_save_fill auto e s))" for s e by (rule conn_inv_fills)
  show "conn_inv s \<Longrightarrow> sql_get_fill s k = Some e \<Longrightarrow> fl_id e = k" for s k e by (rule conn_inv_fill_key)
qed (auto simp: sql_save_fill_def sql_get_fill_def split: option.splits if_splits)

interpretation sql_journal: append_only_store "sql_save_journal auto" sql_get_journal je_position_id "(=)" conn_inv
  for auto
proof
  show "conn_inv s \<Longrightarrow> conn_inv (fst (sql_save_journal auto e s))" for s e by (rule conn_inv_journal)
  show "conn_inv s \<Longrightarrow> sql_get_journal s k = Some e \<Longrightarrow> je_position_id e = k" for s k e
    by (rule conn_inv_journal_key)
qed (auto simp: sql_save_journal_def sql_get_journal_def split: option.splits if_splits)

interpretation sql_ledger: append_only_store "sql_save_ledger auto" sql_ledger_get le_position_id "(=)" conn_inv
  for auto
proof
  fix s e k b
  show "conn_inv s \<Longrightarrow> conn_inv (fst (sql_save_ledger auto e s))" by (rule conn_inv_ledger)
  show "snd (sql_save_ledger auto e s) = Inr b \<Longrightarrow>
      \<exists>e'. sql_ledger_get (fst (sql_save_ledger auto e s)) (le_position_id e) = Some e' \<and> e' = e"
    using ledger_saved(1) by auto
  show "k \<noteq> le_position_id e \<Longrightarrow>
      sql_ledger_get (fst (sql_save_ledger auto e s)) k = sql_ledger_get s k"
    using ledger_saved(2) [of auto e s _ k]
    by (cases "snd (sql_save_ledger auto e s)")
      (auto simp: sql_save_ledger_def split: option.splits if_splits)
  show "sql_ledger_get s k = Some e \<Longrightarrow> le_position_id e = k"
    by (simp add: sql_ledger_get_def ledger_find_Some)
qed (auto simp: sql_save_ledger_def sql_ledger_get_def split: option.splits if_splits)

subsection \<open>The SQL order repository refines the in-memory one\<close>

definition same_orders :: "connection \<Rightarrow> order_store \<Rightarrow> bool" where
  "same_orders c s \<longleftrightarrow> (\<forall>oid. sql_get_order c oid = mem_get_order s oid)"

definition fits :: "connection \<Rightarrow> order_result \<Rightarrow> bool" where
  "fits c r \<longleftrightarrow> ot_status r \<noteq> ORD_PENDING \<and>
     (\<forall>o1 x. sql_get_order c (ot_id r) = Some (o1, x) \<longrightarrow> or_symbol o1 = ot_symbol r)"

definition failed :: "('s, 'a) sres \<Rightarrow> bool" where
  "failed m \<longleftrightarrow> (\<exists>e. snd m = Inl e)"

lemma mem_get_order_iff:
  "mem_get_order s oid = None \<longleftrightarrow> dget (os_requests s) oid = None"
  "mem_get_order s oid = Some (o1, x) \<longleftrightarrow> dget (os_requests s) oid = Some o1 \<and> x = dget (os_results s) oid"
  by (auto simp: mem_get_order_def split: option.splits)

lemma sql_get_order_iff:
  "sql_get_order c oid = None \<longleftrightarrow> dget (db_orders (cn_current c)) oid = None"
  by (simp add: sql_get_order_def)

lemma refines_save_request:
  assumes "same_orders c s" "dget (os_results s) (or_id o1) = None"
  shows "same_orders (fst (sql_save_request auto o1 c)) (fst (mem_save_request o1 s)) \<and>
    (failed (sql_save_request auto o1 c) \<longleftrightarrow> failed (mem_save_request o1 s))"
proof (cases "mem_get_order s (or_id o1)")
  case None
  then have "dget (db_orders (cn_current c)) (or_id o1) = None" "dget (os_requests s) (or_id o1) = None"
    using assms(1) sql_get_order_iff [of c "or_id o1"] by (auto simp: same_orders_def mem_get_order_iff)
  then show ?thesis using assms
    by (auto simp: sql_save_request_def mem_save_request_def same_orders_def sql_get_order_def
        mem_get_order_def order_of_row_def failed_def cong: option.case_cong)
next
  case (Some y)
  then have "dget (db_orders (cn_current c)) (or_id o1) \<noteq> None" "dget (os_requests s) (or_id o1) \<noteq> None"
    using assms(1) sql_get_order_iff [of c "or_id o1"] mem_get_order_iff(1) [of s "or_id o1"]
    by (auto simp: same_orders_def)
  then show ?thesis using assms by (auto simp: sql_save_request_def mem_save_request_def failed_def)
qed

lemma refines_save_result:
  assumes sim: "same_orders c s" and fit: "fits c r"
  shows "same_orders (fst (sql_save_result auto r c)) (fst (mem_save_result r s)) \<and>
    (failed (sql_save_result auto r c) \<longleftrightarrow> failed (mem_save_result r s))"
proof (cases "dget (db_orders (cn_current c)) (ot_id r)")
  case None
  then have "dget (os_requests s) (ot_id r) = None"
    using sim sql_get_order_iff [of c "ot_id r"] by (auto simp: same_orders_def mem_get_order_iff)
  with None sim show ?thesis by (simp add: sql_save_result_def mem_save_result_def failed_def)
next
  case (Some row)
  then have g: "sql_get_order c (ot_id r) = Some (order_of_row (ot_id r) row)" by (simp add: sql_get_order_def)
  then have m: "dget (os_requests s) (ot_id r) = Some (ow_request row)"
    "dget (os_results s) (ot_id r) = snd (order_of_row (ot_id r) row)"
    using sim mem_get_order_iff(2) [of s "ot_id r" "ow_request row"]
    by (auto simp: same_orders_def order_of_row_def)
  have sym: "or_symbol (ow_request row) = ot_symbol r" and st: "ot_status r \<noteq> ORD_PENDING"
    using fit g by (auto simp: fits_def order_of_row_def)
  have upd: "same_orders
      (sql_write auto (\<lambda>d. d\<lparr>db_orders := dput (ot_id r) \<lparr>ow_request = (ow_request row)\<lparr>or_symbol := ot_symbol r\<rparr>,
         ow_status = ot_status r, ow_filled_price = ot_filled_price r, ow_reason = ot_reason r,
         ow_filled_at = ot_filled_at r\<rparr> (db_orders d)\<rparr>) c)
      (s\<lparr>os_results := dput (ot_id r) r (os_results s)\<rparr>)"
    using sim m sym st
    by (auto simp: same_orders_def sql_get_order_def mem_get_order_def order_of_row_def cong: option.case_cong)
  show ?thesis
  proof (cases "ow_status row = ot_status r")
    case True
    have ex: "dget (os_results s) (ot_id r) = Some \<lparr>ot_id = ot_id r, ot_status = ow_status row,
        ot_symbol = ot_symbol r, ot_filled_price = ow_filled_price row, ot_reason = ow_reason row,
        ot_filled_at = ow_filled_at row\<rparr>" (is "_ = Some ?x")
      using m(2) sym st True by (simp add: order_of_row_def)
    have na: "\<not> allowed_transition (ow_status row) (ot_status r)"
      using True by (cases "ot_status r") auto
    have "?x = r \<longleftrightarrow> result_columns (or_symbol (ow_request row)) (ow_filled_price row) (ow_reason row) (ow_filled_at row) =
        result_columns (ot_symbol r) (ot_filled_price r) (ot_reason r) (ot_filled_at r)"
      using True sym by (cases r) (auto simp: result_columns_def)
    then show ?thesis using Some True ex na m(1) sim
      by (auto simp: sql_save_result_def mem_save_result_def order_transition_def failed_def)
  next
    case False
    show ?thesis
    proof (cases "allowed_transition (ow_status row) (ot_status r)")
      case True
      have "dget (os_results s) (ot_id r) = None \<or> (\<exists>x. dget (os_results s) (ot_id r) = Some x \<and>
          x \<noteq> r \<and> allowed_transition (ot_status x) (ot_status r))"
        using m(2) True False
        by (auto simp: order_of_row_def split: if_splits dest: arg_cong [of _ r ot_status])
      then show ?thesis using Some True False upd m(1)
        by (auto simp: sql_save_result_def mem_save_result_def order_transition_def failed_def)
    next
      case na: False
      then have "ow_status row \<noteq> ORD_PENDING" using st by (cases "ot_status r") auto
      then have "\<exists>x. dget (os_results s) (ot_id r) = Some x \<and> x \<noteq> r \<and> ot_status x = ow_status row"
        using m(2) False by (auto simp: order_of_row_def dest: arg_cong [of _ r ot_status])
      then show ?thesis using Some na False m(1) sim
        by (auto simp: sql_save_result_def mem_save_result_def order_transition_def failed_def)
    qed
  qed
qed

end
