(* ===== verification/Paper_Trading.thy ===== *)
theory Paper_Trading
  imports Storage
begin

section \<open>Paper trading: atomic fills, submission, the pending queue on SQLite\<close>

text \<open>
  \<^verbatim>\<open>app/execution/atomic_execution.py\<close>, \<^verbatim>\<open>app/execution/paper_runtime.py\<close>, and \<^verbatim>\<open>PendingOrderManager\<close>
  wired to the SQLite repositories as \<^verbatim>\<open>app/application/composition.py\<close> and
  \<^verbatim>\<open>runtime_cycle.py\<close> (\<^verbatim>\<open>_persist_pending_fill\<close>) do: the writers inside the transaction do not commit,
  the repositories outside it do.
\<close>

subsection \<open>Applying a fill\<close>

record atomic_result =
  ar_order_id :: string
  ar_position_id :: "string option"
  ar_status :: order_status
  ar_created_position :: bool

definition prepare_fill ::
  "order_request \<Rightarrow> order_result \<Rightarrow> string \<Rightarrow> rat \<Rightarrow> (position \<times> fill) res" where
  "prepare_fill o1 r fill_id commission =
     guard (ot_status r \<noteq> ORD_FILLED)
       (ValueError ''atomic fill application requires a FILLED order result'')
    (required (ot_filled_price r) ''filled order has no fill price'' (\<lambda>price.
     required (ot_filled_at r) ''filled order has no fill timestamp'' (\<lambda>at1.
     guard (commission < 0) (ValueError ''commission cannot be negative'')
    (res_bind (position_from_fill o1 r) (\<lambda>p.
     res_bind (fill_make \<lparr>fl_id = fill_id, fl_order_id = or_id o1, fl_symbol = or_symbol o1,
         fl_side = or_side o1, fl_quantity = or_quantity o1, fl_price = price,
         fl_commission = commission, fl_filled_at = at1\<rparr>) (\<lambda>f.
     Inr (p, f)))))))"

definition apply_fill ::
  "bool \<Rightarrow> order_request \<Rightarrow> order_result \<Rightarrow> string \<Rightarrow> rat \<Rightarrow> connection \<Rightarrow> (connection, atomic_result) sres" where
  "apply_fill auto o1 r fill_id commission c =
     (case prepare_fill o1 r fill_id commission of
        Inl e \<Rightarrow> (c, Inl e)
      | Inr (p, f) \<Rightarrow>
          sbind (stry
            (sbind (sql_save_result auto r c) (\<lambda>_ c.
             sbind (sql_save_fill auto f c) (\<lambda>_ c.
             sbind (sql_save_position auto p c) (\<lambda>_ c.
               (commit c, Inr ()))))) rollback)
          (\<lambda>_ c. (c, Inr \<lparr>ar_order_id = or_id o1, ar_position_id = Some (pos_id p),
             ar_status = ot_status r, ar_created_position = True\<rparr>)))"

lemma prepare_fill_Inr:
  assumes "prepare_fill o1 r fid comm = Inr (p, f)"
  shows "position_from_fill o1 r = Inr p" "ot_status r = ORD_FILLED" "fl_id f = fid" "fl_order_id f = or_id o1"
    "ot_id r = or_id o1" "pos_id p = or_id o1" "ot_filled_at r = Some (fl_filled_at f)"
    "ot_filled_price r = Some (fl_price f)" "fl_quantity f = or_quantity o1" "is_open p"
  using assms position_from_fill_Inr [of o1 r p]
  by (auto simp: prepare_fill_def guard_Inr_iff required_Inr res_bind_Inr_iff fill_make_Inr)

text \<open>All or nothing: a failed application leaves the connection as it was.\<close>

lemma sql_ops_no_commit:
  "cn_committed (fst (sql_save_result False r c)) = cn_committed c"
  "cn_committed (fst (sql_save_fill False f c)) = cn_committed c"
  "cn_committed (fst (sql_save_position False p c)) = cn_committed c"
  "cn_committed (fst (sql_save_equity False x c)) = cn_committed c"
  "cn_committed (fst (sql_save_ledger False le c)) = cn_committed c"
  "cn_committed (fst (sql_save_journal False je c)) = cn_committed c"
  by (auto simp: sql_save_result_def sql_save_fill_def sql_save_position_def sql_save_equity_def
      sql_save_ledger_def sql_save_journal_def split: option.split)

lemma rollback_settled: "settled c \<Longrightarrow> cn_committed c' = cn_committed c \<Longrightarrow> rollback c' = c"
  by (rule connection_eqI) (simp_all add: settled_def)

lemma apply_fill_atomic:
  assumes "settled c" "snd (apply_fill False o1 r fid comm c) = Inl e"
  shows "fst (apply_fill False o1 r fid comm c) = c"
proof (cases "prepare_fill o1 r fid comm")
  case (Inl x)
  then show ?thesis by (simp add: apply_fill_def)
next
  case (Inr pf)
  obtain p f where pf: "pf = (p, f)" by (cases pf)
  obtain c1 r1 where s1: "sql_save_result False r c = (c1, r1)" by (cases "sql_save_result False r c")
  obtain c2 r2 where s2: "sql_save_fill False f c1 = (c2, r2)" by (cases "sql_save_fill False f c1")
  obtain c3 where s3: "sql_save_position False p c2 = (c3, Inr ())" by (simp add: sql_save_position_def)
  have com: "cn_committed c1 = cn_committed c" "cn_committed c2 = cn_committed c1"
    using sql_ops_no_commit(1) [of r c] sql_ops_no_commit(2) [of f c1] s1 s2 by simp_all
  show ?thesis using assms Inr pf s1 s2 s3 com rollback_settled [OF assms(1)]
    by (cases r1; cases r2) (auto simp: apply_fill_def)
qed

definition filled_row :: "order_request \<Rightarrow> order_result \<Rightarrow> order_row" where
  "filled_row o1 r = \<lparr>ow_request = o1, ow_status = ORD_FILLED, ow_filled_price = ot_filled_price r,
     ow_reason = ot_reason r, ow_filled_at = ot_filled_at r\<rparr>"

text \<open>
  On an order that waits for its result the application succeeds and leaves, committed, the order
  filled, exactly this fill under the fill id and the open position under the order id.
\<close>

lemma apply_fill_success:
  assumes "prepare_fill o1 r fid comm = Inr (p, f)"
    and row: "dget (db_orders (cn_current c)) (or_id o1) = Some row" "ow_request row = o1"
      "ow_status row \<in> {ORD_PENDING, ORD_ACCEPTED}"
    and "ot_symbol r = or_symbol o1" "dget (db_fills (cn_current c)) fid = None"
  obtains c' where "apply_fill False o1 r fid comm c = (c', Inr \<lparr>ar_order_id = or_id o1,
      ar_position_id = Some (or_id o1), ar_status = ORD_FILLED, ar_created_position = True\<rparr>)"
    and "settled c'"
    and "cn_current c' = (cn_current c)\<lparr>db_orders := dput (or_id o1) (filled_row o1 r) (db_orders (cn_current c)),
      db_fills := dput fid f (db_fills (cn_current c)),
      db_positions := dput (or_id o1) p (dpop (or_id o1) (db_positions (cn_current c)))\<rparr>"
proof -
  note pr = prepare_fill_Inr [OF assms(1)]
  have al: "allowed_transition (ow_status row) ORD_FILLED" "ow_status row \<noteq> ORD_FILLED" using row(3) by auto
  define c1 where "c1 = sql_write False (\<lambda>d. d\<lparr>db_orders := dput (or_id o1) (filled_row o1 r) (db_orders d)\<rparr>) c"
  have upd: "o1\<lparr>or_symbol := or_symbol o1\<rparr> = o1" by simp
  have s1: "sql_save_result False r c = (c1, Inr ())"
    using row al pr(2,5) assms(5) upd
    by (simp add: sql_save_result_def c1_def filled_row_def)
  define c2 where "c2 = sql_write False (\<lambda>d. d\<lparr>db_fills := dput fid f (db_fills d)\<rparr>) c1"
  have s2: "sql_save_fill False f c1 = (c2, Inr ())"
    using pr(3,4) assms(6) by (simp add: sql_save_fill_def c2_def c1_def sql_order_exists_def)
  define c3 where "c3 = sql_write False
    (\<lambda>d. d\<lparr>db_positions := dput (pos_id p) p (dpop (pos_id p) (db_positions d))\<rparr>) c2"
  have s3: "sql_save_position False p c2 = (c3, Inr ())" by (simp add: sql_save_position_def c3_def)
  have "apply_fill False o1 r fid comm c = (commit c3, Inr \<lparr>ar_order_id = or_id o1,
      ar_position_id = Some (or_id o1), ar_status = ORD_FILLED, ar_created_position = True\<rparr>)"
    using assms(1) s1 s2 s3 pr(2,6) by (simp add: apply_fill_def)
  moreover have "settled (commit c3)" by (simp add: settled_def)
  moreover have "cn_current (commit c3) = (cn_current c)\<lparr>
      db_orders := dput (or_id o1) (filled_row o1 r) (db_orders (cn_current c)),
      db_fills := dput fid f (db_fills (cn_current c)),
      db_positions := dput (or_id o1) p (dpop (or_id o1) (db_positions (cn_current c)))\<rparr>"
    using pr(6) by (simp add: c3_def c2_def c1_def)
  ultimately show thesis using that by blast
qed

lemma apply_fill_inv:
  assumes "conn_inv c"
  shows "conn_inv (fst (apply_fill auto o1 r fid comm c))"
proof (cases "prepare_fill o1 r fid comm")
  case (Inl x)
  then show ?thesis using assms by (simp add: apply_fill_def)
next
  case (Inr pf)
  obtain p f where pf: "pf = (p, f)" by (cases pf)
  obtain c1 r1 where s1: "sql_save_result auto r c = (c1, r1)" by (cases "sql_save_result auto r c")
  obtain c2 r2 where s2: "sql_save_fill auto f c1 = (c2, r2)" by (cases "sql_save_fill auto f c1")
  obtain c3 where s3: "sql_save_position auto p c2 = (c3, Inr ())" by (simp add: sql_save_position_def)
  have i: "conn_inv c1" "conn_inv c2" "conn_inv c3"
    using conn_inv_results [OF assms, of auto r] conn_inv_fills [of c1 auto f] conn_inv_positions [of c2 auto p]
      s1 s2 s3 by auto
  show ?thesis using Inr pf s1 s2 s3 i
    by (cases r1; cases r2) (auto simp: apply_fill_def intro: conn_inv_transaction)
qed

subsection \<open>Submitting an order\<close>

record paper_state =
  ps_seen :: "string set"
  ps_conn :: connection

record submission_result =
  sr_order :: order_request
  sr_result :: order_result
  sr_atomic :: "atomic_result option"
  sr_pending :: bool

definition fill_id_of :: "string \<Rightarrow> string" where
  "fill_id_of oid = ''fill:'' @ oid"

definition on_conn :: "(connection, 'a) sres \<Rightarrow> paper_state \<Rightarrow> (paper_state, 'a) sres" where
  "on_conn m s = (s\<lparr>ps_conn := fst m\<rparr>, snd m)"

text \<open>
  \<^verbatim>\<open>PaperTradingRuntime.submit\<close>. The clock is read by the executor (\<open>now\<close>) and again when a pending order is
  made (\<open>later\<close>).
\<close>

definition replay_submission ::
  "order_request \<Rightarrow> datetime \<Rightarrow> order_request \<Rightarrow> order_result option \<Rightarrow> paper_state
    \<Rightarrow> (paper_state, submission_result) sres" where
  "replay_submission o1 later stored_order stored_result s =
     (if stored_order \<noteq> o1 then (s, Inl (ValueError (''Conflicting order request: '' @ or_id o1)))
      else case stored_result of
        None \<Rightarrow> (s, Inl (ValueError (''Order already persisted without result: '' @ or_id o1)))
      | Some r \<Rightarrow>
          if ot_status r = ORD_ACCEPTED then
            sbind (on_conn (sql_pending_save True (pending_new o1 later later) (ps_conn s)) s)
              (\<lambda>_ s. (s, Inr \<lparr>sr_order = o1, sr_result = r, sr_atomic = None, sr_pending = True\<rparr>))
          else (s, Inr \<lparr>sr_order = o1, sr_result = r, sr_atomic = None, sr_pending = False\<rparr>))"

definition first_submission ::
  "execution_policy \<Rightarrow> order_request \<Rightarrow> rat res \<Rightarrow> datetime \<Rightarrow> datetime \<Rightarrow> paper_state
    \<Rightarrow> (paper_state, submission_result) sres" where
  "first_submission policy o1 quote now later s =
     sbind (on_conn (sql_save_request True o1 (ps_conn s)) s) (\<lambda>_ s.
       case execute policy o1 ''PAPER'' quote now (ps_seen s) of (seen, r) \<Rightarrow>
       let s = s\<lparr>ps_seen := seen\<rparr> in
       if ot_status r = ORD_FILLED then
         sbind (on_conn (apply_fill False o1 r (fill_id_of (or_id o1)) 0 (ps_conn s)) s) (\<lambda>a s.
           (s, Inr \<lparr>sr_order = o1, sr_result = r, sr_atomic = Some a, sr_pending = False\<rparr>))
       else
         sbind (on_conn (sql_save_result True r (ps_conn s)) s) (\<lambda>_ s.
           if ot_status r = ORD_ACCEPTED then
             sbind (on_conn (sql_pending_save True (pending_new o1 later later) (ps_conn s)) s) (\<lambda>_ s.
               (s, Inr \<lparr>sr_order = o1, sr_result = r, sr_atomic = None, sr_pending = True\<rparr>))
           else (s, Inr \<lparr>sr_order = o1, sr_result = r, sr_atomic = None, sr_pending = False\<rparr>)))"

definition submit_order ::
  "execution_policy \<Rightarrow> order_request \<Rightarrow> rat res \<Rightarrow> datetime \<Rightarrow> datetime \<Rightarrow> paper_state
    \<Rightarrow> (paper_state, submission_result) sres" where
  "submit_order policy o1 quote now later s =
     (if or_id o1 = [] then (s, Inl (ValueError ''order_id is required''))
      else case sql_get_order (ps_conn s) (or_id o1) of
        Some (stored_order, stored_result) \<Rightarrow> replay_submission o1 later stored_order stored_result s
      | None \<Rightarrow> first_submission policy o1 quote now later s)"

subsection \<open>A new order is always answered\<close>

lemma execute_result:
  assumes "execute policy o1 mode quote now seen = (seen', r)"
  shows "ot_id r = or_id o1" "ot_symbol r = or_symbol o1"
    and "ot_status r \<in> {ORD_FILLED, ORD_ACCEPTED, ORD_REJECTED}"
    and "ot_status r = ORD_FILLED \<Longrightarrow> order_ok o1 \<and> or_id o1 \<notin> seen \<and> (\<exists>price. 0 < price \<and> r = fill_at o1 price now)"
proof -
  consider (run) "paper_submit o1 quote now seen = (seen', r)" | (off) x where "r = reject o1 x"
    using assms by (auto simp: execute_def Let_def split: if_splits)
  then have "ot_id r = or_id o1 \<and> ot_symbol r = or_symbol o1 \<and>
    ot_status r \<in> {ORD_FILLED, ORD_ACCEPTED, ORD_REJECTED} \<and>
    (ot_status r = ORD_FILLED \<longrightarrow> order_ok o1 \<and> or_id o1 \<notin> seen \<and> (\<exists>price. 0 < price \<and> r = fill_at o1 price now))"
  proof cases
    case run
    have ids: "ot_id r = or_id o1" "ot_symbol r = or_symbol o1"
      using paper_submit_identity [of o1 quote now seen] run by simp_all
    have st: "ot_status r \<in> {ORD_FILLED, ORD_ACCEPTED, ORD_REJECTED}"
      using run limit_result_status(3) [of o1 _ now]
      by (auto simp: paper_submit_def Let_def split: if_splits option.splits)
    have "order_ok o1 \<and> or_id o1 \<notin> seen \<and> (\<exists>price. 0 < price \<and> r = fill_at o1 price now)" if f: "ot_status r = ORD_FILLED"
    proof -
      note pf = paper_submit_filled [OF run f]
      obtain price where p: "0 < price"
        "r = fill_at o1 (if or_type o1 = LIMIT then the (or_requested_price o1) else price) now" using pf(4) by blast
      have "0 < (if or_type o1 = LIMIT then the (or_requested_price o1) else price)"
        using pf(1) p(1) by (auto simp: order_ok_def not_le)
      then show ?thesis using pf(1,2) p(2) by blast
    qed
    then show ?thesis using ids st by blast
  next
    case off
    then show ?thesis by simp
  qed
  then show "ot_id r = or_id o1" "ot_symbol r = or_symbol o1"
    "ot_status r \<in> {ORD_FILLED, ORD_ACCEPTED, ORD_REJECTED}"
    "ot_status r = ORD_FILLED \<Longrightarrow> order_ok o1 \<and> or_id o1 \<notin> seen \<and> (\<exists>price. 0 < price \<and> r = fill_at o1 price now)"
    by blast+
qed

lemma fill_id_of_simps [simp]: "fill_id_of a = fill_id_of b \<longleftrightarrow> a = b" "fill_id_of a \<noteq> []"
  by (simp_all add: fill_id_of_def)

lemma prepare_fill_executed:
  assumes "order_ok o1" "0 < price"
  shows "\<exists>p f. prepare_fill o1 (fill_at o1 price now) (fill_id_of (or_id o1)) 0 = Inr (p, f)"
proof -
  obtain p where "position_from_fill o1 (fill_at o1 price now) = Inr p"
    using position_from_fill_total [OF assms] by blast
  moreover have "or_id o1 \<noteq> []" "or_symbol o1 \<noteq> []" "0 < or_quantity o1"
    using assms(1) by (auto simp: order_ok_def)
  ultimately show ?thesis using assms(2)
    by (simp add: prepare_fill_def fill_make_def)
qed

text \<open>Fill ids are derived from order ids, and every fill has its order: a new order has no fill.\<close>

definition fills_named :: "connection \<Rightarrow> bool" where
  "fills_named c \<longleftrightarrow> (\<forall>f \<in> set (map snd (db_fills (cn_current c))). fl_id f = fill_id_of (fl_order_id f))"

lemma fresh_fill:
  assumes "conn_inv c" "fills_named c" "dget (db_orders (cn_current c)) oid = None"
  shows "dget (db_fills (cn_current c)) (fill_id_of oid) = None"
proof (rule ccontr)
  assume "dget (db_fills (cn_current c)) (fill_id_of oid) \<noteq> None"
  then obtain f where f: "dget (db_fills (cn_current c)) (fill_id_of oid) = Some f" by blast
  have inv: "db_inv (cn_current c)" using assms(1) by (rule conn_inv_current)
  have id: "fl_id f = fill_id_of oid" using inv f by (auto simp: db_inv_def dest: keyed_dget)
  have mem: "f \<in> set (map snd (db_fills (cn_current c)))" using f by (rule dget_in_values)
  then have "fl_order_id f = oid" using assms(2) id by (auto simp: fills_named_def)
  moreover have "dget (db_orders (cn_current c)) (fl_order_id f) \<noteq> None"
    using inv mem unfolding db_inv_def by blast
  ultimately show False using assms(3) by simp
qed

definition new_row :: "order_request \<Rightarrow> order_row" where
  "new_row o1 = \<lparr>ow_request = o1, ow_status = ORD_PENDING, ow_filled_price = None, ow_reason = None,
     ow_filled_at = None\<rparr>"

lemma save_request_new:
  "dget (db_orders (cn_current c)) (or_id o1) = None \<Longrightarrow>
   sql_save_request auto o1 c =
     (sql_write auto (\<lambda>d. d\<lparr>db_orders := dput (or_id o1) (new_row o1) (db_orders d)\<rparr>) c, Inr ())"
  by (simp add: sql_save_request_def new_row_def)

text \<open>What the database holds for an order that has been answered.\<close>

definition answered :: "connection \<Rightarrow> order_request \<Rightarrow> order_result \<Rightarrow> bool" where
  "answered c o1 r \<longleftrightarrow> settled c \<and> sql_get_order c (or_id o1) = Some (o1, Some r) \<and>
     (ot_status r = ORD_FILLED \<longrightarrow>
        (\<exists>p f. dget (db_positions (cn_current c)) (or_id o1) = Some p \<and> is_open p \<and>
           position_from_fill o1 r = Inr p \<and>
           dget (db_fills (cn_current c)) (fill_id_of (or_id o1)) = Some f \<and>
           fl_order_id f = or_id o1 \<and> Some (fl_price f) = ot_filled_price r \<and> fl_quantity f = or_quantity o1)) \<and>
     (ot_status r = ORD_ACCEPTED \<longrightarrow>
        (\<exists>w. dget (db_pending (cn_current c)) (or_id o1) = Some w \<and> pw_status w = ORD_ACCEPTED))"

lemma auto_settled: "settled (sql_write True f c)"
  by (simp add: settled_def)

lemma first_submission_answers:
  assumes inv: "conn_inv (ps_conn s)" "fills_named (ps_conn s)"
    and new: "dget (db_orders (cn_current (ps_conn s))) (or_id o1) = None"
  obtains s' x where "first_submission policy o1 quote now later s = (s', Inr x)" "sr_order x = o1"
    "answered (ps_conn s') o1 (sr_result x)" "sr_pending x \<longleftrightarrow> ot_status (sr_result x) = ORD_ACCEPTED"
proof -
  obtain seen r where ex: "execute policy o1 ''PAPER'' quote now (ps_seen s) = (seen, r)"
    by (cases "execute policy o1 ''PAPER'' quote now (ps_seen s)")
  note er = execute_result [OF ex]
  define c1 where "c1 = sql_write True (\<lambda>d. d\<lparr>db_orders := dput (or_id o1) (new_row o1) (db_orders d)\<rparr>) (ps_conn s)"
  have req: "sql_save_request True o1 (ps_conn s) = (c1, Inr ())" unfolding c1_def by (rule save_request_new [OF new])
  have row: "dget (db_orders (cn_current c1)) (or_id o1) = Some (new_row o1)" by (simp add: c1_def)
  have nofill: "dget (db_fills (cn_current c1)) (fill_id_of (or_id o1)) = None"
    using fresh_fill [OF inv new] by (simp add: c1_def)
  show thesis
  proof (cases "ot_status r = ORD_FILLED")
    case True
    then obtain price where ok: "order_ok o1" "0 < price" and r: "r = fill_at o1 price now" using er(4) by blast
    obtain p f where pf: "prepare_fill o1 r (fill_id_of (or_id o1)) 0 = Inr (p, f)"
      using prepare_fill_executed [OF ok] r by blast
    note pr = prepare_fill_Inr [OF pf]
    obtain c' where c': "apply_fill False o1 r (fill_id_of (or_id o1)) 0 c1 = (c', Inr \<lparr>ar_order_id = or_id o1,
        ar_position_id = Some (or_id o1), ar_status = ORD_FILLED, ar_created_position = True\<rparr>)" "settled c'"
      "cn_current c' = (cn_current c1)\<lparr>db_orders := dput (or_id o1) (filled_row o1 r) (db_orders (cn_current c1)),
        db_fills := dput (fill_id_of (or_id o1)) f (db_fills (cn_current c1)),
        db_positions := dput (or_id o1) p (dpop (or_id o1) (db_positions (cn_current c1)))\<rparr>"
      using apply_fill_success [OF pf row _ _ er(2) nofill] by (auto simp: new_row_def)
    have "sql_get_order c' (or_id o1) = Some (o1, Some r)"
      using c'(3) r by (simp add: sql_get_order_def order_of_row_def filled_row_def fill_at_def)
    then have ans: "answered c' o1 r" using c'(2,3) pr True by (simp add: answered_def)
    have "first_submission policy o1 quote now later s = (s\<lparr>ps_conn := c', ps_seen := seen\<rparr>,
        Inr \<lparr>sr_order = o1, sr_result = r, sr_atomic = Some \<lparr>ar_order_id = or_id o1,
          ar_position_id = Some (or_id o1), ar_status = ORD_FILLED, ar_created_position = True\<rparr>, sr_pending = False\<rparr>)"
      using req ex c'(1) True by (simp add: first_submission_def on_conn_def)
    then show thesis by (rule that) (use ans True in simp_all)
  next
    case False
    define c2 where "c2 = sql_write True (\<lambda>d. d\<lparr>db_orders := dput (or_id o1)
      \<lparr>ow_request = o1, ow_status = ot_status r, ow_filled_price = ot_filled_price r, ow_reason = ot_reason r,
       ow_filled_at = ot_filled_at r\<rparr> (db_orders d)\<rparr>) c1"
    have upd: "o1\<lparr>or_symbol := or_symbol o1\<rparr> = o1" by simp
    have st: "ot_status r \<in> {ORD_ACCEPTED, ORD_REJECTED}" using er(3) False by simp
    then have res: "sql_save_result True r c1 = (c2, Inr ())"
      using row er(1,2) upd by (auto simp: sql_save_result_def c2_def new_row_def)
    have get2: "sql_get_order c2 (or_id o1) = Some (o1, Some r)"
      using er(1,2) st by (cases r) (auto simp: c2_def sql_get_order_def order_of_row_def)
    show thesis
    proof (cases "ot_status r = ORD_ACCEPTED")
      case acc: True
      obtain c3 w where pend: "sql_pending_save True (pending_new o1 later later) c2 = (c3, Inr ())"
        and c3: "settled c3" "sql_get_order c3 (or_id o1) = Some (o1, Some r)"
          "dget (db_pending (cn_current c3)) (or_id o1) = Some w" "pw_status w = ORD_ACCEPTED"
        using get2
        by (auto simp: sql_pending_save_def pending_new_def sql_order_exists_def sql_get_order_def auto_settled)
      then have ans: "answered c3 o1 r" using acc by (simp add: answered_def)
      have "first_submission policy o1 quote now later s = (s\<lparr>ps_conn := c3, ps_seen := seen\<rparr>,
          Inr \<lparr>sr_order = o1, sr_result = r, sr_atomic = None, sr_pending = True\<rparr>)"
        using req ex res pend acc by (simp add: first_submission_def on_conn_def)
      then show thesis by (rule that) (use ans acc in simp_all)
    next
      case rej: False
      have ans: "answered c2 o1 r" using get2 False rej by (simp add: answered_def c2_def auto_settled)
      have "first_submission policy o1 quote now later s = (s\<lparr>ps_conn := c2, ps_seen := seen\<rparr>,
          Inr \<lparr>sr_order = o1, sr_result = r, sr_atomic = None, sr_pending = False\<rparr>)"
        using req ex res False rej by (simp add: first_submission_def on_conn_def)
      then show thesis by (rule that) (use ans rej in simp_all)
    qed
  qed
qed

text \<open>Submitting an answered order again returns the same answer and executes nothing.\<close>

lemma resubmit_same:
  assumes "answered (ps_conn s) o1 r" "or_id o1 \<noteq> []"
  obtains s' where "submit_order policy o1 quote now later s =
      (s', Inr \<lparr>sr_order = o1, sr_result = r, sr_atomic = None, sr_pending = (ot_status r = ORD_ACCEPTED)\<rparr>)"
    "ps_seen s' = ps_seen s" "answered (ps_conn s') o1 r"
    "db_orders (cn_current (ps_conn s')) = db_orders (cn_current (ps_conn s))"
    "db_fills (cn_current (ps_conn s')) = db_fills (cn_current (ps_conn s))"
    "db_positions (cn_current (ps_conn s')) = db_positions (cn_current (ps_conn s))"
proof (cases "ot_status r = ORD_ACCEPTED")
  case False
  then show thesis using assms that [of s]
    by (simp add: submit_order_def answered_def replay_submission_def)
next
  case True
  let ?c = "ps_conn s"
  obtain c' w where pend: "sql_pending_save True (pending_new o1 later later) ?c = (c', Inr ())"
    and c': "settled c'" "sql_get_order c' (or_id o1) = Some (o1, Some r)"
      "dget (db_pending (cn_current c')) (or_id o1) = Some w" "pw_status w = ORD_ACCEPTED"
      "db_orders (cn_current c') = db_orders (cn_current ?c)" "db_fills (cn_current c') = db_fills (cn_current ?c)"
      "db_positions (cn_current c') = db_positions (cn_current ?c)"
    using assms(1)
    by (auto simp: answered_def sql_pending_save_def pending_new_def sql_order_exists_def sql_get_order_def auto_settled)
  then have "answered c' o1 r" using True by (simp add: answered_def)
  then show thesis using assms pend True c'
    by (intro that [of "s\<lparr>ps_conn := c'\<rparr>"])
      (simp_all add: submit_order_def answered_def replay_submission_def on_conn_def)
qed

subsection \<open>The pending queue on the database\<close>

definition persist_pending_fill ::
  "order_request \<Rightarrow> order_result \<Rightarrow> connection \<Rightarrow> (connection, unit) sres" where
  "persist_pending_fill o1 r c =
     sbind (apply_fill False o1 r (fill_id_of (ot_id r)) 0 c) (\<lambda>_ c. (c, Inr ()))"

definition sql_ports :: "connection pending_ports" where
  "sql_ports = \<lparr>pt_save = sql_pending_save True, pt_remove = sql_pending_remove True,
     pt_fill_handler = persist_pending_fill\<rparr>"

definition check_pending_queue ::
  "(nat \<Rightarrow> string \<Rightarrow> rat res) \<Rightarrow> (nat \<Rightarrow> datetime) \<Rightarrow> connection \<Rightarrow> (connection, pending_update) sres" where
  "check_pending_queue quotes clock c =
     (case sql_pending_active c of
        Inl e \<Rightarrow> (c, Inl e)
      | Inr active \<Rightarrow> pending_check sql_ports quotes clock active c)"

text \<open>With the foreign keys in place the queue can always be read.\<close>

lemma pending_active_total:
  assumes "conn_inv c"
  shows "\<exists>ps. sql_pending_active c = Inr ps"
proof -
  have "\<exists>y. pending_of_row c kr = Inr y" if "kr \<in> set (db_pending (cn_current c))" for kr
  proof -
    have "fst kr \<in> set (map fst (db_pending (cn_current c)))" using that by simp
    then have "dget (db_orders (cn_current c)) (fst kr) \<noteq> None"
      using conn_inv_current [OF assms] unfolding db_inv_def by blast
    then show ?thesis by (auto simp: pending_of_row_def)
  qed
  then show ?thesis unfolding sql_pending_active_def by (intro res_map_total) auto
qed

text \<open>A fillable order that heads the queue is filled, its position opened and its row removed, all committed.\<close>

lemma pending_one_fills:
  assumes q: "quote = Inr price" "0 < price" and ok: "order_ok (pd_order p)" "or_type (pd_order p) = LIMIT"
    and l: "or_requested_price (pd_order p) = Some limit" "favourable (or_side (pd_order p)) limit price"
    and row: "dget (db_orders (cn_current c)) (or_id (pd_order p)) = Some row" "ow_request row = pd_order p"
      "ow_status row = ORD_ACCEPTED"
    and nofill: "dget (db_fills (cn_current c)) (fill_id_of (or_id (pd_order p))) = None"
  obtains c' where "pending_one sql_ports p quote now c = (c', Inr (Some (fill_at (pd_order p) limit now)))"
    "settled c'" "dget (db_pending (cn_current c')) (or_id (pd_order p)) = None"
    "sql_get_order c' (or_id (pd_order p)) = Some (pd_order p, Some (fill_at (pd_order p) limit now))"
    "\<exists>pos. dget (db_positions (cn_current c')) (or_id (pd_order p)) = Some pos \<and> is_open pos \<and>
       pos_entry_price pos = limit \<and> pos_quantity pos = or_quantity (pd_order p)"
proof -
  let ?o = "pd_order p" and ?r = "fill_at (pd_order p) limit now"
  have lim: "0 < limit" using ok(1) l(1) by (auto simp: order_ok_def)
  have chk: "check_limit ?o quote now = ?r"
    using q ok l validate_order_iff [of ?o]
    by (auto simp: check_limit_def market_price_def limit_result_def favourable_def split: if_splits)
  obtain pos f where pf: "prepare_fill ?o ?r (fill_id_of (or_id ?o)) 0 = Inr (pos, f)"
    using prepare_fill_executed [OF ok(1) lim] by blast
  obtain c1 where c1: "apply_fill False ?o ?r (fill_id_of (or_id ?o)) 0 c = (c1, Inr \<lparr>ar_order_id = or_id ?o,
      ar_position_id = Some (or_id ?o), ar_status = ORD_FILLED, ar_created_position = True\<rparr>)" "settled c1"
    "cn_current c1 = (cn_current c)\<lparr>db_orders := dput (or_id ?o) (filled_row ?o ?r) (db_orders (cn_current c)),
      db_fills := dput (fill_id_of (or_id ?o)) f (db_fills (cn_current c)),
      db_positions := dput (or_id ?o) pos (dpop (or_id ?o) (db_positions (cn_current c)))\<rparr>"
    using apply_fill_success [OF pf row(1,2) _ _ nofill] row(3) by auto
  define c2 where "c2 = sql_write True (\<lambda>d. d\<lparr>db_pending := dpop (or_id ?o) (db_pending d)\<rparr>) c1"
  have eq: "pending_one sql_ports p quote now c = (c2, Inr (Some ?r))"
    using ok(2) chk c1(1) by (simp add: pending_one_def sql_ports_def persist_pending_fill_def sql_pending_remove_def c2_def)
  have pos: "is_open pos" "pos_entry_price pos = limit" "pos_quantity pos = or_quantity ?o"
    using position_from_fill_Inr [OF prepare_fill_Inr(1) [OF pf]] by simp_all
  show thesis
  proof (rule that [OF eq])
    show "settled c2" by (simp add: c2_def auto_settled)
    show "dget (db_pending (cn_current c2)) (or_id ?o) = None" by (simp add: c2_def)
    show "sql_get_order c2 (or_id ?o) = Some (?o, Some ?r)"
      using c1(3) by (simp add: c2_def sql_get_order_def order_of_row_def filled_row_def fill_at_def)
    show "\<exists>pos. dget (db_positions (cn_current c2)) (or_id ?o) = Some pos \<and> is_open pos \<and>
       pos_entry_price pos = limit \<and> pos_quantity pos = or_quantity ?o"
      using c1(3) pos by (simp add: c2_def)
  qed
qed

text \<open>
  The fill is committed before the row is removed from the queue. When the process stops in between, the row
  is still active, the order is filled, and every later check of it fills again with a new time stamp: the
  stored result conflicts, the check raises and nothing behind it in the queue is looked at.
\<close>

lemma pending_one_wedged:
  assumes q: "quote = Inr price" "0 < price" and ok: "order_ok (pd_order p)" "or_type (pd_order p) = LIMIT"
    and l: "or_requested_price (pd_order p) = Some limit" "favourable (or_side (pd_order p)) limit price"
    and row: "dget (db_orders (cn_current c)) (or_id (pd_order p)) = Some row" "ow_status row = ORD_FILLED"
      "ow_filled_at row = Some t" "t \<noteq> now"
    and "settled c"
  shows "pending_one sql_ports p quote now c =
    (c, Inl (ValueError (''Conflicting result for order: '' @ or_id (pd_order p))))"
proof -
  let ?o = "pd_order p" and ?r = "fill_at (pd_order p) limit now"
  have lim: "0 < limit" using ok(1) l(1) by (auto simp: order_ok_def)
  have chk: "check_limit ?o quote now = ?r"
    using q ok l validate_order_iff [of ?o]
    by (auto simp: check_limit_def market_price_def limit_result_def favourable_def split: if_splits)
  obtain pos f where pf: "prepare_fill ?o ?r (fill_id_of (or_id ?o)) 0 = Inr (pos, f)"
    using prepare_fill_executed [OF ok(1) lim] by blast
  have "sql_save_result False ?r c = (c, Inl (ValueError (''Conflicting result for order: '' @ or_id ?o)))"
    using row by (simp add: sql_save_result_def result_columns_def)
  then have "apply_fill False ?o ?r (fill_id_of (or_id ?o)) 0 c =
      (c, Inl (ValueError (''Conflicting result for order: '' @ or_id ?o)))"
    using pf rollback_settled [OF assms(11), of c] by (simp add: apply_fill_def)
  then show ?thesis using ok(2) chk by (simp add: pending_one_def sql_ports_def persist_pending_fill_def)
qed

lemma pending_check_wedged:
  assumes "sql_pending_active c = Inr (p # ps)" "quotes 0 (or_symbol (pd_order p)) = Inr price" "0 < price"
    and ok: "order_ok (pd_order p)" "or_type (pd_order p) = LIMIT"
    and l: "or_requested_price (pd_order p) = Some limit" "favourable (or_side (pd_order p)) limit price"
    and row: "dget (db_orders (cn_current c)) (or_id (pd_order p)) = Some row" "ow_status row = ORD_FILLED"
      "ow_filled_at row = Some t" "t \<noteq> clock 0"
    and "settled c"
  shows "check_pending_queue quotes clock c =
    (c, Inl (ValueError (''Conflicting result for order: '' @ or_id (pd_order p))))"
  using pending_one_wedged [OF assms(2,3) ok l row(1-4) assms(12)] assms(1)
  by (simp add: check_pending_queue_def pending_check_def)

end
