(* ===== verification/Settlement.thy ===== *)
theory Settlement
  imports Paper_Trading
begin

section \<open>Settlement: closing a position, moving the equity, the ledger and the journal\<close>

text \<open>
  \<^verbatim>\<open>app/position/settlement.py\<close> and \<^verbatim>\<open>_initialize_account\<close> of \<^verbatim>\<open>app/application/composition.py\<close>. The writers
  do not commit on their own (\<^verbatim>\<open>auto_commit=False\<close> in the composition), the service commits or rolls back.
  The state is the connection and the in-memory account.
\<close>

record settlement_state =
  st_conn :: connection
  st_account :: account

record settlement_result =
  sm_position_id :: string
  sm_realized_pnl :: rat
  sm_equity_before :: rat
  sm_equity_after :: rat
  sm_applied :: bool

definition initialize_account :: "rat \<Rightarrow> connection \<Rightarrow> (connection, rat) sres" where
  "initialize_account initial c =
     (if initial \<le> 0 then (c, Inl (ValueError ''initial_equity must be positive''))
      else case dget (db_account (cn_current c)) ''default'' of
        Some x \<Rightarrow> (c, Inr x)
      | None \<Rightarrow> (sql_write True (\<lambda>d. d\<lparr>db_account := dput ''default'' initial (db_account d)\<rparr>) c, Inr initial))"

definition settlement_id :: "string \<Rightarrow> string" where
  "settlement_id pid = ''settlement:'' @ pid"

definition replay_settlement ::
  "position \<Rightarrow> rat \<Rightarrow> ledger_entry \<Rightarrow> connection \<Rightarrow> settlement_result res" where
  "replay_settlement p pnl existing c =
     guard (le_realized_pnl existing \<noteq> pnl) (ValueError (''settlement conflict for position '' @ pos_id p))
    (res_bind (sql_load_equity c) (\<lambda>persisted.
     guard (persisted \<noteq> le_equity_after existing)
       (ValueError (''account state conflicts with ledger for position '' @ pos_id p))
      (Inr \<lparr>sm_position_id = pos_id p, sm_realized_pnl = le_realized_pnl existing,
           sm_equity_before = le_equity_before existing, sm_equity_after = le_equity_after existing,
           sm_applied = False\<rparr>)))"

definition prepare_settlement ::
  "position \<Rightarrow> string option \<Rightarrow> rat \<Rightarrow> datetime \<Rightarrow> settlement_state
    \<Rightarrow> (rat \<times> rat \<times> ledger_entry \<times> journal_entry) res" where
  "prepare_settlement p cycle_id pnl now s =
     res_bind (sql_load_equity (st_conn s)) (\<lambda>before.
     guard (account_equity (st_account s) \<noteq> before)
       (ValueError ''in-memory account equity is out of sync with persisted account state'')
    (let after = dadd before pnl in
     guard (after < 0) (ValueError ''settlement would make account equity negative'')
    (res_bind (ledger_make \<lparr>le_ledger_id = settlement_id (pos_id p), le_position_id = pos_id p,
         le_cycle_id = cycle_id, le_realized_pnl = pnl, le_equity_before = before,
         le_equity_after = after, le_created_at = now\<rparr>) (\<lambda>ledger.
     res_bind (from_position p cycle_id) (\<lambda>journal.
       Inr (before, after, ledger, journal))))))"

definition write_settlement ::
  "position \<Rightarrow> rat \<Rightarrow> ledger_entry \<Rightarrow> journal_entry \<Rightarrow> connection \<Rightarrow> (connection, unit) sres" where
  "write_settlement p after ledger journal c = stry
     (sbind (sql_save_position False p c) (\<lambda>_ c.
      sbind (sql_save_equity False after c) (\<lambda>_ c.
      sbind (sql_save_ledger False ledger c) (\<lambda>_ c.
      sbind (sql_save_journal False journal c) (\<lambda>_ c.
        (commit c, Inr ())))))) rollback"

definition settle ::
  "position \<Rightarrow> string option \<Rightarrow> datetime \<Rightarrow> settlement_state \<Rightarrow> (settlement_state, settlement_result) sres" where
  "settle p cycle_id now s =
     (if is_open p then (s, Inl (ValueError ''cannot settle an open position''))
      else case pos_realized_pnl p of
        None \<Rightarrow> (s, Inl (ValueError ''closed position is missing realized_pnl''))
      | Some pnl \<Rightarrow>
          if pos_closed_at p = None then (s, Inl (ValueError ''closed position is missing closed_at''))
          else case sql_ledger_get (st_conn s) (pos_id p) of
            Some existing \<Rightarrow> (s, replay_settlement p pnl existing (st_conn s))
          | None \<Rightarrow>
              (case prepare_settlement p cycle_id pnl now s of
                 Inl e \<Rightarrow> (s, Inl e)
               | Inr (before, after, ledger, journal) \<Rightarrow>
                   (case write_settlement p after ledger journal (st_conn s) of
                      (c, Inl e) \<Rightarrow> (s\<lparr>st_conn := c\<rparr>, Inl e)
                    | (c, Inr x) \<Rightarrow>
                        (\<lparr>st_conn = c, st_account = apply_realized_pnl (st_account s) pnl\<rparr>,
                         Inr \<lparr>sm_position_id = pos_id p, sm_realized_pnl = pnl, sm_equity_before = before,
                              sm_equity_after = after, sm_applied = True\<rparr>))))"

subsection \<open>All or nothing\<close>

lemma write_settlement_atomic:
  assumes "settled c" "write_settlement p a l j c = (c', Inl e)"
  shows "c' = c"
proof -
  obtain c1 where s1: "sql_save_position False p c = (c1, Inr ())" by (simp add: sql_save_position_def)
  obtain c2 r2 where s2: "sql_save_equity False a c1 = (c2, r2)" by (cases "sql_save_equity False a c1")
  obtain c3 r3 where s3: "sql_save_ledger False l c2 = (c3, r3)" by (cases "sql_save_ledger False l c2")
  obtain c4 r4 where s4: "sql_save_journal False j c3 = (c4, r4)" by (cases "sql_save_journal False j c3")
  have com: "cn_committed c1 = cn_committed c" "cn_committed c2 = cn_committed c1"
    "cn_committed c3 = cn_committed c2" "cn_committed c4 = cn_committed c3"
    using sql_ops_no_commit(3) [of p c] sql_ops_no_commit(4) [of a c1] sql_ops_no_commit(5) [of l c2]
      sql_ops_no_commit(6) [of j c3] s1 s2 s3 s4 by simp_all
  show ?thesis using assms(2) s1 s2 s3 s4 com rollback_settled [OF assms(1)]
    by (cases r2; cases r3; cases r4) (auto simp: write_settlement_def)
qed

lemma settle_atomic:
  assumes "settled (st_conn s)" "settle p cyc now s = (s', Inl e)"
  shows "s' = s"
  using assms write_settlement_atomic [OF assms(1)]
  by (auto simp: settle_def split: if_splits option.splits sum.splits prod.splits)

subsection \<open>A first settlement\<close>

lemma prepare_settlement_Inr:
  assumes "prepare_settlement p cyc pnl now s = Inr (before, after, ledger, journal)"
  shows "sql_load_equity (st_conn s) = Inr before" "account_equity (st_account s) = before"
    "after = dadd before pnl" "0 \<le> after" "from_position p cyc = Inr journal" "0 \<le> before"
    "ledger = \<lparr>le_ledger_id = settlement_id (pos_id p), le_position_id = pos_id p,
         le_cycle_id = cyc, le_realized_pnl = pnl, le_equity_before = before,
         le_equity_after = after, le_created_at = now\<rparr>"
  using assms by (auto simp: prepare_settlement_def ledger_make_def Let_def guard_Inr_iff res_bind_Inr_iff)

definition settled_db :: "position \<Rightarrow> rat \<Rightarrow> ledger_entry \<Rightarrow> journal_entry \<Rightarrow> database \<Rightarrow> database" where
  "settled_db p after ledger journal d = d\<lparr>
     db_positions := dput (pos_id p) p (dpop (pos_id p) (db_positions d)),
     db_account := dput ''default'' after (db_account d),
     db_ledger := dput (le_ledger_id ledger) ledger (db_ledger d),
     db_journal := dput (je_position_id journal) journal (db_journal d)\<rparr>"

lemma write_settlement_ok:
  assumes "write_settlement p a l j c = (c', Inr x)" "sql_ledger_get c (le_position_id l) = None"
    and "sql_get_journal c (je_position_id j) = None"
  shows "settled c'" "cn_current c' = settled_db p a l j (cn_current c)" "0 \<le> a"
proof -
  obtain c1 where s1: "sql_save_position False p c = (c1, Inr ())" by (simp add: sql_save_position_def)
  obtain c2 r2 where s2: "sql_save_equity False a c1 = (c2, r2)" by (cases "sql_save_equity False a c1")
  obtain c3 r3 where s3: "sql_save_ledger False l c2 = (c3, r3)" by (cases "sql_save_ledger False l c2")
  obtain c4 r4 where s4: "sql_save_journal False j c3 = (c4, r4)" by (cases "sql_save_journal False j c3")
  from assms(1) s1 s2 s3 s4 obtain u2 u3 u4 where r: "r2 = Inr u2" "r3 = Inr u3" "r4 = Inr u4" and c': "c' = commit c4"
    by (cases r2; cases r3; cases r4) (auto simp: write_settlement_def)
  have d1: "cn_current c1 = (cn_current c)\<lparr>db_positions := dput (pos_id p) p (dpop (pos_id p) (db_positions (cn_current c)))\<rparr>"
    using s1 by (auto simp: sql_save_position_def)
  have d2: "cn_current c2 = (cn_current c1)\<lparr>db_account := dput ''default'' a (db_account (cn_current c1))\<rparr>" "0 \<le> a"
    using s2 r by (auto simp: sql_save_equity_def split: if_splits)
  have "sql_ledger_get c2 (le_position_id l) = None"
    using assms(2) by (simp add: sql_ledger_get_def ledger_find_def d1 d2)
  then have d3: "cn_current c3 = (cn_current c2)\<lparr>db_ledger := dput (le_ledger_id l) l (db_ledger (cn_current c2))\<rparr>"
    using s3 r by (auto simp: sql_save_ledger_def sql_ledger_get_def split: if_splits)
  have "sql_get_journal c3 (je_position_id j) = None"
    using assms(3) by (simp add: sql_get_journal_def d1 d2 d3)
  then have d4: "cn_current c4 = (cn_current c3)\<lparr>db_journal := dput (je_position_id j) j (db_journal (cn_current c3))\<rparr>"
    using s4 r by (auto simp: sql_save_journal_def)
  show "settled c'" "0 \<le> a" using c' d2 by (simp_all add: settled_def)
  show "cn_current c' = settled_db p a l j (cn_current c)"
    using c' d1 d2 d3 d4 by (simp add: settled_db_def)
qed

text \<open>An applied settlement: what it needs and what it leaves.\<close>

lemma settle_applied:
  assumes "settle p cyc now s = (s', Inr r)" "sm_applied r"
  obtains before after ledger journal pnl where
    "pos_realized_pnl p = Some pnl" "\<not> is_open p" "sql_ledger_get (st_conn s) (pos_id p) = None"
    "prepare_settlement p cyc pnl now s = Inr (before, after, ledger, journal)"
    "write_settlement p after ledger journal (st_conn s) = (st_conn s', Inr ())"
    "st_account s' = apply_realized_pnl (st_account s) pnl"
    "r = \<lparr>sm_position_id = pos_id p, sm_realized_pnl = pnl, sm_equity_before = before,
          sm_equity_after = after, sm_applied = True\<rparr>"
proof -
  from assms(1) obtain pnl where pnl: "pos_realized_pnl p = Some pnl" "\<not> is_open p" "pos_closed_at p \<noteq> None"
    by (auto simp: settle_def split: if_splits option.splits)
  have none: "sql_ledger_get (st_conn s) (pos_id p) = None"
  proof (rule ccontr)
    assume "sql_ledger_get (st_conn s) (pos_id p) \<noteq> None"
    then obtain e where "sql_ledger_get (st_conn s) (pos_id p) = Some e" by blast
    with assms pnl have "replay_settlement p pnl e (st_conn s) = Inr r" by (auto simp: settle_def)
    then show False using assms(2) by (auto simp: replay_settlement_def guard_Inr_iff res_bind_Inr_iff)
  qed
  then obtain b a l j where prep: "prepare_settlement p cyc pnl now s = Inr (b, a, l, j)"
    using assms(1) pnl by (auto simp: settle_def split: sum.splits)
  obtain c x where w: "write_settlement p a l j (st_conn s) = (c, Inr x)"
    using assms(1) pnl none prep by (auto simp: settle_def split: sum.splits prod.splits)
  show thesis
    using assms(1) pnl none prep w
    by (intro that [OF pnl(1,2) none prep]) (auto simp: settle_def)
qed

text \<open>The ledger is a chain from the initial equity, and the account is where the chain ends.\<close>

fun chain_from :: "rat \<Rightarrow> ledger_entry list \<Rightarrow> bool" where
  "chain_from x [] = True"
| "chain_from x (e # es) =
     (le_equity_before e = x \<and> le_equity_after e = dadd x (le_realized_pnl e) \<and> 0 \<le> le_equity_after e \<and>
      chain_from (le_equity_after e) es)"

fun chain_end :: "rat \<Rightarrow> ledger_entry list \<Rightarrow> rat" where
  "chain_end x [] = x"
| "chain_end x (e # es) = chain_end (le_equity_after e) es"

lemma chain_from_append:
  "chain_from x (es @ fs) \<longleftrightarrow> chain_from x es \<and> chain_from (chain_end x es) fs"
  by (induction es arbitrary: x) auto

lemma chain_end_append: "chain_end x (es @ fs) = chain_end (chain_end x es) fs"
  by (induction es arbitrary: x) auto

lemma chain_end_fold:
  "chain_from x es \<Longrightarrow> chain_end x es = fold (\<lambda>e y. dadd y (le_realized_pnl e)) es x"
  by (induction es arbitrary: x) auto

definition books_ok :: "rat \<Rightarrow> connection \<Rightarrow> bool" where
  "books_ok initial c \<longleftrightarrow> settled c \<and> chain_from initial (map snd (db_ledger (cn_current c))) \<and>
     dget (db_account (cn_current c)) ''default'' = Some (chain_end initial (map snd (db_ledger (cn_current c))))"

lemma journal_conflict_fails:
  assumes "write_settlement p a l j c = (c', Inr x)"
  shows "dget (db_ledger (cn_current c)) (le_ledger_id l) = None \<or> sql_ledger_get c (le_position_id l) \<noteq> None"
proof (rule ccontr)
  assume h: "\<not> ?thesis"
  obtain c1 where s1: "sql_save_position False p c = (c1, Inr ())" "db_ledger (cn_current c1) = db_ledger (cn_current c)"
    by (simp add: sql_save_position_def)
  obtain c2 r2 where s2: "sql_save_equity False a c1 = (c2, r2)" by (cases "sql_save_equity False a c1")
  then have l2: "db_ledger (cn_current c2) = db_ledger (cn_current c)"
    using s1(2) by (auto simp: sql_save_equity_def split: if_splits)
  then have "failed (sql_save_ledger False l c2)"
    using h by (auto simp: sql_save_ledger_def sql_ledger_get_def ledger_find_def failed_def)
  then show False using assms s1 s2 by (cases r2) (auto simp: write_settlement_def failed_def sbind_def stry_def split: sum.splits)
qed

text \<open>The accounting part of the database after a write, whatever the journal held before.\<close>

lemma write_settlement_books:
  assumes "write_settlement p a l j c = (c', Inr x)" "sql_ledger_get c (le_position_id l) = None"
  shows "settled c'" "db_ledger (cn_current c') = db_ledger (cn_current c) @ [(le_ledger_id l, l)]"
    "dget (db_account (cn_current c')) ''default'' = Some a"
    "sql_ledger_get c' (le_position_id l) = Some l"
proof -
  obtain c1 where s1: "sql_save_position False p c = (c1, Inr ())" by (simp add: sql_save_position_def)
  obtain c2 r2 where s2: "sql_save_equity False a c1 = (c2, r2)" by (cases "sql_save_equity False a c1")
  obtain c3 r3 where s3: "sql_save_ledger False l c2 = (c3, r3)" by (cases "sql_save_ledger False l c2")
  obtain c4 r4 where s4: "sql_save_journal False j c3 = (c4, r4)" by (cases "sql_save_journal False j c3")
  from assms(1) s1 s2 s3 s4 obtain u2 u3 u4 where r: "r2 = Inr u2" "r3 = Inr u3" "r4 = Inr u4" and c': "c' = commit c4"
    by (cases r2; cases r3; cases r4) (auto simp: write_settlement_def)
  have fresh: "dget (db_ledger (cn_current c)) (le_ledger_id l) = None"
    using journal_conflict_fails [OF assms(1)] assms(2) by simp
  have d1: "db_ledger (cn_current c1) = db_ledger (cn_current c)"
    using s1 by (auto simp: sql_save_position_def)
  have d2: "db_ledger (cn_current c2) = db_ledger (cn_current c)" "dget (db_account (cn_current c2)) ''default'' = Some a"
    using s2 r d1 by (auto simp: sql_save_equity_def split: if_splits)
  have "sql_ledger_get c2 (le_position_id l) = None"
    using assms(2) by (simp add: sql_ledger_get_def ledger_find_def d2)
  then have d3: "db_ledger (cn_current c3) = db_ledger (cn_current c) @ [(le_ledger_id l, l)]"
      "db_account (cn_current c3) = db_account (cn_current c2)"
    using s3 r d2 fresh by (auto simp: sql_save_ledger_def sql_ledger_get_def fresh_dput split: if_splits)
  have d4: "db_ledger (cn_current c4) = db_ledger (cn_current c3)" "db_account (cn_current c4) = db_account (cn_current c3)"
    using s4 r by (auto simp: sql_save_journal_def split: option.splits if_splits)
  show "settled c'" using c' by (simp add: settled_def)
  show l: "db_ledger (cn_current c') = db_ledger (cn_current c) @ [(le_ledger_id l, l)]" using c' d3 d4 by simp
  show "dget (db_account (cn_current c')) ''default'' = Some a" using c' d2 d3 d4 by simp
  show "sql_ledger_get c' (le_position_id l) = Some l"
    using assms(2) by (simp add: sql_ledger_get_def ledger_find_def l find_append)
qed

lemma settle_unapplied:
  assumes "settled (st_conn s)" "settle p cyc now s = (s', r)" "\<not> (\<exists>x. r = Inr x \<and> sm_applied x)"
  shows "s' = s"
proof (cases r)
  case (Inl e)
  then show ?thesis using settle_atomic assms by blast
next
  case (Inr x)
  then have na: "\<not> sm_applied x" using assms(3) by simp
  show ?thesis
    using assms(2) Inr na
    by (auto simp: settle_def split: if_splits option.splits sum.splits prod.splits)
qed

lemma settle_books:
  assumes "books_ok initial (st_conn s)"
  shows "books_ok initial (st_conn (fst (settle p cyc now s)))"
proof (cases "\<exists>x. snd (settle p cyc now s) = Inr x \<and> sm_applied x")
  case False
  have "settled (st_conn s)" using assms by (simp add: books_ok_def)
  then have "fst (settle p cyc now s) = s"
    using settle_unapplied [of s p cyc now "fst (settle p cyc now s)" "snd (settle p cyc now s)"] False by auto
  then show ?thesis using assms by simp
next
  case True
  then obtain x where x: "settle p cyc now s = (fst (settle p cyc now s), Inr x)" "sm_applied x"
    by (metis prod.collapse)
  let ?c = "st_conn s" and ?c' = "st_conn (fst (settle p cyc now s))"
  from settle_applied [OF x] obtain b a l j pnl where h: "sql_ledger_get ?c (pos_id p) = None"
    "prepare_settlement p cyc pnl now s = Inr (b, a, l, j)" "write_settlement p a l j ?c = (?c', Inr ())"
    by metis
  note pr = prepare_settlement_Inr [OF h(2)]
  have "le_position_id l = pos_id p" using pr(7) by simp
  then have none: "sql_ledger_get ?c (le_position_id l) = None" using h(1) by simp
  note w = write_settlement_books [OF h(3) none]
  have "b = chain_end initial (map snd (db_ledger (cn_current ?c)))"
    using assms pr(1) by (simp add: books_ok_def sql_load_equity_def)
  then show ?thesis using assms w pr(3,4,7)
    by (simp add: books_ok_def chain_from_append chain_end_append)
qed

lemma settle_run_books:
  "books_ok initial (st_conn s) \<Longrightarrow>
   books_ok initial (st_conn (fold (\<lambda>(p, cyc, now) s. fst (settle p cyc now s)) runs s))"
  by (induction runs arbitrary: s) (auto intro: settle_books)

subsection \<open>Settling again\<close>

text \<open>An immediate repetition is answered from the ledger and changes nothing, whatever its cycle or time.\<close>

lemma settle_applied_ledger:
  assumes "settle p cyc now s = (s', Inr r)" "sm_applied r"
  obtains e where "sql_ledger_get (st_conn s') (pos_id p) = Some e" "le_realized_pnl e = sm_realized_pnl r"
    "le_equity_before e = sm_equity_before r" "le_equity_after e = sm_equity_after r"
    "sql_load_equity (st_conn s') = Inr (sm_equity_after r)" "settled (st_conn s')"
    "pos_realized_pnl p = Some (sm_realized_pnl r)"
proof -
  from settle_applied [OF assms] obtain b a l j pnl where h: "pos_realized_pnl p = Some pnl"
    "sql_ledger_get (st_conn s) (pos_id p) = None"
    "prepare_settlement p cyc pnl now s = Inr (b, a, l, j)"
    "write_settlement p a l j (st_conn s) = (st_conn s', Inr ())"
    "r = \<lparr>sm_position_id = pos_id p, sm_realized_pnl = pnl, sm_equity_before = b,
          sm_equity_after = a, sm_applied = True\<rparr>"
    by metis
  note pr = prepare_settlement_Inr [OF h(3)]
  have "le_position_id l = pos_id p" using pr(7) by simp
  then have none: "sql_ledger_get (st_conn s) (le_position_id l) = None" using h(2) by simp
  note w = write_settlement_books [OF h(4) none]
  show thesis
    by (rule that [of l]) (use w pr(7) h in \<open>simp_all add: sql_load_equity_def\<close>)
qed

lemma settle_closed:
  "settle p cyc now s = (s', Inr r) \<Longrightarrow> \<not> is_open p \<and> pos_closed_at p \<noteq> None"
  by (auto simp: settle_def split: if_splits option.splits)

lemma settle_replay:
  "\<not> is_open p \<Longrightarrow> pos_closed_at p \<noteq> None \<Longrightarrow> pos_realized_pnl p = Some pnl \<Longrightarrow>
   sql_ledger_get (st_conn s) (pos_id p) = Some e \<Longrightarrow>
   settle p cyc now s = (s, replay_settlement p pnl e (st_conn s))"
  by (auto simp: settle_def)

lemma settle_again:
  assumes "settle p cyc now s = (s', Inr r)" "sm_applied r"
  shows "settle p cyc2 now2 s' = (s', Inr (r\<lparr>sm_applied := False\<rparr>))"
proof -
  obtain e where e: "sql_ledger_get (st_conn s') (pos_id p) = Some e" "le_realized_pnl e = sm_realized_pnl r"
    "le_equity_before e = sm_equity_before r" "le_equity_after e = sm_equity_after r"
    "sql_load_equity (st_conn s') = Inr (sm_equity_after r)" "pos_realized_pnl p = Some (sm_realized_pnl r)"
    using settle_applied_ledger [OF assms] by blast
  have p: "\<not> is_open p" "pos_closed_at p \<noteq> None" using settle_closed [OF assms(1)] by simp_all
  have id: "sm_position_id r = pos_id p"
    by (rule settle_applied [OF assms]) simp
  have "replay_settlement p (sm_realized_pnl r) e (st_conn s') = Inr (r\<lparr>sm_applied := False\<rparr>)"
    unfolding replay_settlement_def e(2-5) id [symmetric] by (simp add: guard_def)
  then show ?thesis using settle_replay [OF p e(6,1)] by simp
qed

text \<open>
  A repetition after another settlement has moved the equity is refused: the check compares the account with
  the equity right after the old entry.
\<close>

lemma settle_again_late:
  assumes a: "settle p cyc now s = (s1, Inr r)" "sm_applied r"
    and b: "settle q cyc' now' s1 = (s2, Inr r')" "sm_applied r'"
    and moved: "sm_equity_after r' \<noteq> sm_equity_after r"
  shows "settle p cyc2 now2 s2 =
    (s2, Inl (ValueError (''account state conflicts with ledger for position '' @ pos_id p)))"
proof -
  obtain e where e: "sql_ledger_get (st_conn s1) (pos_id p) = Some e" "le_realized_pnl e = sm_realized_pnl r"
    "le_equity_after e = sm_equity_after r" "pos_realized_pnl p = Some (sm_realized_pnl r)"
    using settle_applied_ledger [OF a] by blast
  have p: "\<not> is_open p" "pos_closed_at p \<noteq> None" using settle_closed [OF a(1)] by simp_all
  from settle_applied [OF b] obtain bb aa l j pnl where h: "sql_ledger_get (st_conn s1) (pos_id q) = None"
    "prepare_settlement q cyc' pnl now' s1 = Inr (bb, aa, l, j)"
    "write_settlement q aa l j (st_conn s1) = (st_conn s2, Inr ())" "sm_equity_after r' = aa"
    by (metis settlement_result.select_convs(4))
  note pr = prepare_settlement_Inr [OF h(2)]
  have "le_position_id l = pos_id q" using pr(7) by simp
  then have none: "sql_ledger_get (st_conn s1) (le_position_id l) = None" using h(1) by simp
  note w = write_settlement_books [OF h(3) none]
  have "sql_ledger_get (st_conn s2) (pos_id p) = Some e"
    using e(1) w(2) by (simp add: sql_ledger_get_def ledger_find_def find_append)
  moreover have "replay_settlement p (sm_realized_pnl r) e (st_conn s2) =
      Inl (ValueError (''account state conflicts with ledger for position '' @ pos_id p))"
    using w(3) moved h(4) e(2,3) by (simp add: replay_settlement_def sql_load_equity_def)
  ultimately show ?thesis using settle_replay [OF p e(4)] by simp
qed

subsection \<open>The two equities\<close>

definition in_sync :: "settlement_state \<Rightarrow> bool" where
  "in_sync s \<longleftrightarrow> sql_load_equity (st_conn s) = Inr (account_equity (st_account s))"

text \<open>
  The account adds the profit to the realised total, the database adds it to the equity. They stay equal when
  no digit is lost, that is, for amounts on a common grid of at most 28 digits.
\<close>

lemma settle_keeps_sync:
  assumes "settle p cyc now s = (s', Inr r)" "sm_applied r"
    and "on_grid k (acc_starting_equity (st_account s))" "on_grid k (acc_realized_pnl (st_account s))"
    and "on_grid k (sm_realized_pnl r)"
    and "\<bar>acc_starting_equity (st_account s)\<bar> + \<bar>acc_realized_pnl (st_account s)\<bar> + \<bar>sm_realized_pnl r\<bar>
      < 10 ^ 28 * p10 k"
  shows "in_sync s'"
proof -
  from settle_applied [OF assms(1,2)] obtain b a l j pnl where
    prep: "prepare_settlement p cyc pnl now s = Inr (b, a, l, j)"
    and acc: "st_account s' = apply_realized_pnl (st_account s) pnl"
    and r: "r = \<lparr>sm_position_id = pos_id p, sm_realized_pnl = pnl, sm_equity_before = b,
          sm_equity_after = a, sm_applied = True\<rparr>"
    by metis
  note pr = prepare_settlement_Inr [OF prep]
  have "sql_load_equity (st_conn s') = Inr a"
    using settle_applied_ledger [OF assms(1,2)] r by auto
  moreover have "a = account_equity (st_account s')"
    using pr(2,3) acc dadd_assoc_grid [OF assms(3-5,6)] r
    by (simp add: account_equity_def apply_realized_pnl_def)
  ultimately show ?thesis by (simp add: in_sync_def)
qed

lemma settle_out_of_sync:
  assumes "sql_ledger_get (st_conn s) (pos_id p) = None" "\<not> is_open p" "pos_realized_pnl p = Some pnl"
    "pos_closed_at p \<noteq> None" "sql_load_equity (st_conn s) = Inr x" "account_equity (st_account s) \<noteq> x"
  shows "settle p cyc now s =
    (s, Inl (ValueError ''in-memory account equity is out of sync with persisted account state''))"
  using assms by (auto simp: settle_def prepare_settlement_def)

subsection \<open>When a settlement succeeds\<close>

definition ledger_named :: "connection \<Rightarrow> bool" where
  "ledger_named c \<longleftrightarrow>
     (\<forall>e \<in> set (map snd (db_ledger (cn_current c))). le_ledger_id e = settlement_id (le_position_id e))"

lemma fresh_ledger_id:
  assumes "conn_inv c" "ledger_named c" "sql_ledger_get c pid = None"
  shows "dget (db_ledger (cn_current c)) (settlement_id pid) = None"
proof (rule ccontr)
  assume "dget (db_ledger (cn_current c)) (settlement_id pid) \<noteq> None"
  then obtain e where e: "dget (db_ledger (cn_current c)) (settlement_id pid) = Some e" by blast
  have id: "le_ledger_id e = settlement_id pid"
    using conn_inv_current [OF assms(1)] e by (auto simp: db_inv_def dest: keyed_dget)
  have mem: "e \<in> set (map snd (db_ledger (cn_current c)))" using e by (rule dget_in_values)
  then have "settlement_id (le_position_id e) = settlement_id pid" using assms(2) id by (auto simp: ledger_named_def)
  then have "le_position_id e = pid" by (simp add: settlement_id_def)
  then show False using mem assms(3) by (auto simp: sql_ledger_get_def ledger_find_None)
qed

lemma strip_prefix: "strip s \<noteq> [] \<Longrightarrow> strip (''settlement:'' @ s) \<noteq> []"
  by (simp add: strip_eq_Nil_iff is_space_def)

lemma settle_succeeds:
  assumes inv: "conn_inv (st_conn s)" "ledger_named (st_conn s)" "settled (st_conn s)"
    and none: "sql_ledger_get (st_conn s) (pos_id p) = None" "sql_get_journal (st_conn s) (pos_id p) = None"
    and sync: "sql_load_equity (st_conn s) = Inr x" "account_equity (st_account s) = x"
    and pnl: "pos_realized_pnl p = Some pnl" "0 \<le> x" "0 \<le> dadd x pnl"
    and j: "from_position p cyc = Inr j" and now: "is_aware now"
  obtains s' l where "settle p cyc now s = (s', Inr \<lparr>sm_position_id = pos_id p, sm_realized_pnl = pnl,
      sm_equity_before = x, sm_equity_after = dadd x pnl, sm_applied = True\<rparr>)"
    "st_account s' = apply_realized_pnl (st_account s) pnl" "settled (st_conn s')" "conn_inv (st_conn s')"
    "ledger_named (st_conn s')"
    "cn_current (st_conn s') = settled_db p (dadd x pnl) l j (cn_current (st_conn s))"
    "le_position_id l = pos_id p" "le_ledger_id l = settlement_id (pos_id p)"
proof -
  let ?a = "dadd x pnl" and ?c = "st_conn s"
  define l where "l = \<lparr>le_ledger_id = settlement_id (pos_id p), le_position_id = pos_id p,
    le_cycle_id = cyc, le_realized_pnl = pnl, le_equity_before = x, le_equity_after = ?a, le_created_at = now\<rparr>"
  note fp = from_position_Inr [OF j]
  have jk: "strip (pos_id p) \<noteq> []" "\<not> opt_holds (\<lambda>c. strip c = []) cyc"
    using fp(1-3) by (auto simp: journal_ok_def journal_make_def guard_def require_aware_def split: if_splits)
  have "ledger_make l = Inr l"
    using jk strip_prefix [OF jk(1)] pnl now by (simp add: ledger_make_def l_def settlement_id_def)
  then have prep: "prepare_settlement p cyc pnl now s = Inr (x, ?a, l, j)"
    using sync pnl(3) j by (simp add: prepare_settlement_def l_def Let_def)
  have closed: "pos_closed_at p \<noteq> None" using fp(7) by simp
  define c1 where "c1 = fst (sql_save_position False p ?c)"
  define c2 where "c2 = fst (sql_save_equity False ?a c1)"
  define c3 where "c3 = fst (sql_save_ledger False l c2)"
  define c4 where "c4 = fst (sql_save_journal False j c3)"
  have s1: "sql_save_position False p ?c = (c1, Inr ())" by (simp add: c1_def sql_save_position_def)
  have s2: "sql_save_equity False ?a c1 = (c2, Inr ())" using pnl(3) by (simp add: c2_def sql_save_equity_def)
  have d2: "db_ledger (cn_current c2) = db_ledger (cn_current ?c)" "db_journal (cn_current c2) = db_journal (cn_current ?c)"
    "dget (db_positions (cn_current c2)) (pos_id p) = Some p"
    using pnl(3) by (simp_all add: c2_def c1_def sql_save_equity_def sql_save_position_def)
  have s3: "sql_save_ledger False l c2 = (c3, Inr True)"
    using none(1) fresh_ledger_id [OF inv(1,2) none(1)] d2
    by (simp add: c3_def sql_save_ledger_def sql_ledger_get_def ledger_find_def sql_position_exists_def l_def)
  have d3: "db_journal (cn_current c3) = db_journal (cn_current ?c)"
    using d2 by (auto simp: c3_def sql_save_ledger_def split: option.split)
  have s4: "sql_save_journal False j c3 = (c4, Inr True)"
    using none(2) d3 fp(2) by (simp add: c4_def sql_save_journal_def sql_get_journal_def)
  have w: "write_settlement p ?a l j ?c = (commit c4, Inr ())"
    using s1 s2 s3 s4 by (simp add: write_settlement_def)
  have eq: "settle p cyc now s = (\<lparr>st_conn = commit c4, st_account = apply_realized_pnl (st_account s) pnl\<rparr>,
     Inr \<lparr>sm_position_id = pos_id p, sm_realized_pnl = pnl, sm_equity_before = x, sm_equity_after = ?a, sm_applied = True\<rparr>)"
    using fp(4) pnl(1) closed none(1) prep w by (auto simp: settle_def)
  have lg: "sql_ledger_get ?c (le_position_id l) = None" "sql_get_journal ?c (je_position_id j) = None"
    using none fp(2) by (simp_all add: l_def)
  note wo = write_settlement_ok [OF w lg] and wb = write_settlement_books [OF w lg(1)]
  have ci: "conn_inv (commit c4)"
    unfolding c4_def c3_def c2_def c1_def using inv(1) by (intro conn_inv_ops)
  have ln: "ledger_named (commit c4)"
    using inv(2) wb(2) by (auto simp: ledger_named_def l_def)
  have "le_position_id l = pos_id p" "le_ledger_id l = settlement_id (pos_id p)" by (simp_all add: l_def)
  then show thesis by (intro that [OF eq]) (use wo ci ln in simp_all)
qed

subsection \<open>A run in which the two equities part\<close>

text \<open>
  Two profits of a third of a unit on an equity of 10000: the database rounds after each addition, the account
  rounds the total, the 28th digits differ and every later settlement is refused.
\<close>

definition example_closed :: "string \<Rightarrow> rat \<Rightarrow> position" where
  "example_closed pid pnl = \<lparr>pos_id = pid, pos_symbol = ''BTCUSDT'', pos_side = LONG, pos_entry_price = 3,
     pos_stop_loss = 2, pos_total_amount = 1, pos_quantity = 1, pos_leverage = 1, pos_take_profit = None,
     pos_status = POS_CLOSED, pos_opened_at = Aware 0, pos_closed_at = Some (Aware 1),
     pos_exit_price = Some 4, pos_realized_pnl = Some pnl, pos_close_reason = Some ''TAKE_PROFIT'',
     pos_decision_snapshot = None\<rparr>"

definition third :: rat where
  "third = 3333333333333333333333333333 / 10 ^ 28"

definition example_start :: settlement_state where
  "example_start = \<lparr>st_conn = \<lparr>cn_committed = db_empty\<lparr>db_account := [(''default'', 10000)]\<rparr>,
       cn_current = db_empty\<lparr>db_account := [(''default'', 10000)]\<rparr>\<rparr>,
     st_account = \<lparr>acc_starting_equity = 10000, acc_realized_pnl = 0\<rparr>\<rparr>"

definition two_thirds :: rat where
  "two_thirds = 6666666666666666666666666666 / 10 ^ 28"

definition equity_one :: rat where
  "equity_one = 1000033333333333333333333333 / 10 ^ 23"

definition equity_stored :: rat where
  "equity_stored = 1000066666666666666666666666 / 10 ^ 23"

definition equity_in_memory :: rat where
  "equity_in_memory = 1000066666666666666666666667 / 10 ^ 23"

lemma third_is_profit: "calculate_realized_pnl (example_closed pid pnl) 4 = Inr third"
proof -
  have "rnd (1 / 3) = of_int 3333333333333333333333333333 * p10 (- 28)"
    by (rule rnd_cert) (simp_all add: p10_def)
  then have r: "rnd (1 / 3) = third" by (simp add: third_def p10_def)
  have "rnd third = third" by (rule rnd_exact [of _ 3333333333333333333333333333 "- 28"]) (simp_all add: third_def p10_def)
  then show ?thesis using r
    by (simp add: calculate_realized_pnl_def example_closed_def dsub_def ddiv_def dmul_def)
qed

lemma third_sums:
  "dadd 10000 0 = 10000" "dadd 0 third = third" "dadd 10000 third = equity_one"
  "dadd equity_one third = equity_stored" "dadd third third = two_thirds"
  "dadd 10000 two_thirds = equity_in_memory" "equity_in_memory \<noteq> equity_stored"
  "0 \<le> equity_one" "0 \<le> equity_stored"
proof -
  show "dadd 10000 0 = 10000" using rnd_of_int [of 10000] by (simp add: dadd_def)
  show "dadd 0 third = third" unfolding dadd_def
    by (rule trans [OF rnd_exact [of _ 3333333333333333333333333333 "- 28"]]) (simp_all add: third_def p10_def)
  show "dadd 10000 third = equity_one"
    unfolding dadd_def third_def equity_one_def
    using rnd_cert [of "- 23" "10000 + 3333333333333333333333333333 / 10 ^ 28" 1000033333333333333333333333]
    by (simp add: p10_def)
  show "dadd equity_one third = equity_stored"
    unfolding dadd_def third_def equity_one_def equity_stored_def
    using rnd_cert [of "- 23" "1000033333333333333333333333 / 10 ^ 23 + 3333333333333333333333333333 / 10 ^ 28"
      1000066666666666666666666666]
    by (simp add: p10_def)
  show "dadd third third = two_thirds"
    unfolding dadd_def two_thirds_def
    by (rule trans [OF rnd_exact [of _ 6666666666666666666666666666 "- 28"]]) (simp_all add: third_def p10_def)
  show "dadd 10000 two_thirds = equity_in_memory"
    unfolding dadd_def two_thirds_def equity_in_memory_def
    using rnd_cert [of "- 23" "10000 + 6666666666666666666666666666 / 10 ^ 28" 1000066666666666666666666667]
    by (simp add: p10_def)
qed (simp_all add: equity_one_def equity_stored_def equity_in_memory_def)

lemma example_journals: "pid \<noteq> [] \<Longrightarrow> \<not> is_space (hd pid) \<Longrightarrow> \<exists>j. from_position (example_closed pid pnl) None = Inr j"
proof -
  assume "pid \<noteq> []" "\<not> is_space (hd pid)"
  then have "strip pid \<noteq> []" by (cases pid) (auto simp: strip_eq_Nil_iff)
  moreover have "strip ''BTCUSDT'' \<noteq> []" "strip ''TAKE_PROFIT'' \<noteq> []"
    by (simp_all add: strip_eq_Nil_iff is_space_def)
  ultimately show ?thesis
    by (simp add: from_position_def example_closed_def is_open_def journal_make_def guard_def require_aware_def
        snapshot_check_def)
qed

lemma equities_part:
  "\<exists>s1 s2 r1 r2.
     settle (example_closed ''A'' third) None (Aware 2) example_start = (s1, Inr r1) \<and> sm_applied r1 \<and>
     settle (example_closed ''B'' third) None (Aware 3) s1 = (s2, Inr r2) \<and> sm_applied r2 \<and>
     settle (example_closed ''C'' third) None (Aware 4) s2 =
       (s2, Inl (ValueError ''in-memory account equity is out of sync with persisted account state''))"
proof -
  let ?A = "example_closed ''A'' third" and ?B = "example_closed ''B'' third" and ?C = "example_closed ''C'' third"
  let ?x1 = equity_one and ?x2 = equity_stored
  have ids: "pos_id ?A = ''A''" "pos_id ?B = ''B''" "pos_id ?C = ''C''" "\<And>i. pos_realized_pnl (example_closed i third) = Some third"
    "\<And>i. \<not> is_open (example_closed i third)" "\<And>i. pos_closed_at (example_closed i third) = Some (Aware 1)"
    by (simp_all add: example_closed_def is_open_def)
  have i0: "conn_inv (st_conn example_start)" "ledger_named (st_conn example_start)" "settled (st_conn example_start)"
    by (simp_all add: example_start_def conn_inv_def db_inv_def db_empty_def ledger_named_def settled_def dict_ok_def)
  have l0: "sql_ledger_get (st_conn example_start) k = None" "sql_get_journal (st_conn example_start) k = None" for k
    by (simp_all add: example_start_def sql_ledger_get_def ledger_find_def sql_get_journal_def db_empty_def)
  have e0: "sql_load_equity (st_conn example_start) = Inr 10000" "account_equity (st_account example_start) = 10000"
    by (simp_all add: example_start_def sql_load_equity_def account_equity_def third_sums)
  obtain jA where jA: "from_position ?A None = Inr jA" using example_journals [of "''A''" third] by (auto simp: is_space_def)
  obtain jB where jB: "from_position ?B None = Inr jB" using example_journals [of "''B''" third] by (auto simp: is_space_def)
  have aw: "is_aware (Aware 2)" "is_aware (Aware 3)" by simp_all
  have a0: "0 \<le> dadd 10000 third" "0 \<le> dadd ?x1 third" by (simp_all add: third_sums)
  obtain s1 lA where s1: "settle ?A None (Aware 2) example_start = (s1, Inr \<lparr>sm_position_id = ''A'', sm_realized_pnl = third,
        sm_equity_before = 10000, sm_equity_after = ?x1, sm_applied = True\<rparr>)"
    "st_account s1 = apply_realized_pnl (st_account example_start) third" "settled (st_conn s1)" "conn_inv (st_conn s1)"
    "ledger_named (st_conn s1)" "cn_current (st_conn s1) = settled_db ?A ?x1 lA jA (cn_current (st_conn example_start))"
    "le_position_id lA = ''A''" "le_ledger_id lA = settlement_id ''A''"
    using settle_succeeds [OF i0 l0 e0 ids(4) _ a0(1) jA aw(1), unfolded ids third_sums] by auto
  have jAid: "je_position_id jA = ''A''" using from_position_Inr(2) [OF jA] ids by simp
  have l1: "sql_ledger_get (st_conn s1) (pos_id ?B) = None" "sql_get_journal (st_conn s1) (pos_id ?B) = None"
    using s1(6,7,8) jAid
    by (simp_all add: ids sql_ledger_get_def ledger_find_def sql_get_journal_def settled_db_def example_start_def db_empty_def)
  have e1: "sql_load_equity (st_conn s1) = Inr ?x1" "account_equity (st_account s1) = ?x1"
    using s1(2,6)
    by (simp_all add: third_sums sql_load_equity_def settled_db_def account_equity_def apply_realized_pnl_def example_start_def)
  obtain s2 lB where s2: "settle ?B None (Aware 3) s1 = (s2, Inr \<lparr>sm_position_id = ''B'', sm_realized_pnl = third,
        sm_equity_before = ?x1, sm_equity_after = ?x2, sm_applied = True\<rparr>)"
    "st_account s2 = apply_realized_pnl (st_account s1) third" 
    "cn_current (st_conn s2) = settled_db ?B ?x2 lB jB (cn_current (st_conn s1))"
    "le_position_id lB = ''B''" "le_ledger_id lB = settlement_id ''B''"
    using settle_succeeds [OF s1(4,5,3) l1 e1 ids(4) third_sums(8) a0(2) jB aw(2), unfolded ids third_sums]
    by blast
  have l2: "sql_ledger_get (st_conn s2) ''C'' = None"
    using s2(3,4,5) s1(6,7,8)
    by (simp add: sql_ledger_get_def ledger_find_def settled_db_def example_start_def db_empty_def settlement_id_def)
  have e2: "sql_load_equity (st_conn s2) = Inr ?x2"
    "account_equity (st_account s2) = equity_in_memory"
    using s2(2,3) s1(2)
    by (simp_all add: third_sums sql_load_equity_def settled_db_def account_equity_def apply_realized_pnl_def example_start_def)
  have "settle ?C None (Aware 4) s2 =
      (s2, Inl (ValueError ''in-memory account equity is out of sync with persisted account state''))"
    by (rule settle_out_of_sync) (use l2 e2 ids third_sums in simp_all)
  then show ?thesis using s1(1) s2(1) by auto
qed

end
