(* ===== verification/Recovery.thy ===== *)
theory Recovery
  imports Settlement
begin

section \<open>Recovery after a restart\<close>

text \<open>
  \<^verbatim>\<open>app/recovery\<close>: \<^verbatim>\<open>reconciliation.py\<close> over the SQLite repositories (as \<^verbatim>\<open>app/application/composition.py\<close>
  wires it), \<^verbatim>\<open>state_machine.py\<close>, \<^verbatim>\<open>service.py\<close>, \<^verbatim>\<open>models.py\<close>, \<^verbatim>\<open>provider_recovery.py\<close> and
  \<^verbatim>\<open>ledger_recovery.py\<close>.
\<close>

subsection \<open>Reconciliation\<close>

datatype issue_kind = MISSING_ORDER | NON_FILLED_WITH_FILL | FILLED_WITHOUT_FILL | MULTIPLE_FILLS

record reconciliation_issue =
  ri_order_id :: string
  ri_kind :: issue_kind
  ri_detail :: string

record reconciliation_result =
  rr_inspected :: nat
  rr_repaired :: nat
  rr_issues :: "reconciliation_issue list"

datatype order_verdict = Nothing_To_Do | Issue issue_kind string | Repair order_request order_result

text \<open>What one round of the loop decides, from the order, its fills and the position table.\<close>

definition inspect_order :: "connection \<Rightarrow> string \<Rightarrow> order_verdict" where
  "inspect_order c oid =
     (case sql_get_order c oid of
        None \<Rightarrow> Issue MISSING_ORDER ''order record not found''
      | Some (o1, result) \<Rightarrow>
          (case result of
             None \<Rightarrow> Nothing_To_Do
           | Some r \<Rightarrow>
               if ot_status r \<noteq> ORD_FILLED then
                 (if sql_fills_for_order c oid \<noteq> []
                  then Issue NON_FILLED_WITH_FILL ''fill exists for a non-filled order''
                  else Nothing_To_Do)
               else if length (sql_fills_for_order c oid) = 0
               then Issue FILLED_WITHOUT_FILL ''filled order has no fill ledger record''
               else if 1 < length (sql_fills_for_order c oid)
               then Issue MULTIPLE_FILLS ''multiple fills require position aggregation before recovery''
               else if sql_position_exists c oid then Nothing_To_Do
               else Repair o1 r))"

fun reconcile_loop ::
  "string list \<Rightarrow> nat \<Rightarrow> reconciliation_issue list \<Rightarrow> connection
    \<Rightarrow> (connection, nat \<times> reconciliation_issue list) sres" where
  "reconcile_loop [] repaired issues c = (c, Inr (repaired, issues))"
| "reconcile_loop (oid # ids) repaired issues c =
     (case inspect_order c oid of
        Nothing_To_Do \<Rightarrow> reconcile_loop ids repaired issues c
      | Issue k d \<Rightarrow>
          reconcile_loop ids repaired (issues @ [\<lparr>ri_order_id = oid, ri_kind = k, ri_detail = d\<rparr>]) c
      | Repair o1 r \<Rightarrow>
          (case position_from_fill o1 r of
             Inl e \<Rightarrow> (c, Inl e)
           | Inr p \<Rightarrow> sbind (sql_save_position True p c) (\<lambda>_ c.
               reconcile_loop ids (repaired + 1) issues c)))"

definition reconcile :: "string list \<Rightarrow> connection \<Rightarrow> (connection, reconciliation_result) sres" where
  "reconcile ids c = sbind (reconcile_loop ids 0 [] c) (\<lambda>(repaired, issues) c.
     (c, Inr \<lparr>rr_inspected = length ids, rr_repaired = repaired, rr_issues = issues\<rparr>))"

text \<open>Only the position table changes, and only by rows for identifiers it did not have.\<close>

definition recovered_from :: "connection \<Rightarrow> string \<Rightarrow> position \<Rightarrow> bool" where
  "recovered_from c pid p \<longleftrightarrow> (\<exists>o1 r f. sql_get_order c pid = Some (o1, Some r) \<and>
     ot_status r = ORD_FILLED \<and> sql_fills_for_order c pid = [f] \<and> position_from_fill o1 r = Inr p)"

definition only_positions_added :: "connection \<Rightarrow> connection \<Rightarrow> bool" where
  "only_positions_added c c' \<longleftrightarrow>
     (\<exists>ps. cn_current c' = (cn_current c)\<lparr>db_positions := ps\<rparr>) \<and>
     (\<forall>pid p. dget (db_positions (cn_current c)) pid = Some p \<longrightarrow>
        dget (db_positions (cn_current c')) pid = Some p) \<and>
     (\<forall>pid p. dget (db_positions (cn_current c)) pid = None \<longrightarrow>
        dget (db_positions (cn_current c')) pid = Some p \<longrightarrow> recovered_from c pid p)"

lemma only_positions_refl: "only_positions_added c c"
  by (auto simp: only_positions_added_def intro!: exI [of _ "db_positions (cn_current c)"])

lemma same_tables:
  assumes "cn_current c' = (cn_current c)\<lparr>db_positions := ps\<rparr>"
  shows "sql_get_order c' = sql_get_order c" "sql_fills_for_order c' = sql_fills_for_order c"
    "recovered_from c' = recovered_from c"
  using assms
  by (auto simp: sql_get_order_def [abs_def] sql_fills_for_order_def [abs_def] recovered_from_def [abs_def] fun_eq_iff)

lemma only_positions_trans:
  assumes "only_positions_added a b" "only_positions_added b c"
  shows "only_positions_added a c"
proof -
  obtain ps where ps: "cn_current b = (cn_current a)\<lparr>db_positions := ps\<rparr>"
    using assms(1) by (auto simp: only_positions_added_def)
  obtain qs where qs: "cn_current c = (cn_current b)\<lparr>db_positions := qs\<rparr>"
    using assms(2) by (auto simp: only_positions_added_def)
  have "cn_current c = (cn_current a)\<lparr>db_positions := qs\<rparr>" using ps qs by simp
  moreover have "recovered_from b = recovered_from a" using same_tables(3) [OF ps] .
  ultimately show ?thesis using assms unfolding only_positions_added_def
    by (metis option.exhaust_sel option.inject)
qed

lemma single_length: "xs \<noteq> [] \<Longrightarrow> \<not> Suc 0 < length xs \<Longrightarrow> length xs = Suc 0"
  by (cases xs) auto

lemma inspect_repair:
  assumes "inspect_order c oid = Repair o1 r"
  shows "sql_get_order c oid = Some (o1, Some r)" "ot_status r = ORD_FILLED"
    "\<exists>f. sql_fills_for_order c oid = [f]" "dget (db_positions (cn_current c)) oid = None"
proof -
  have "sql_get_order c oid = Some (o1, Some r) \<and> ot_status r = ORD_FILLED \<and>
      length (sql_fills_for_order c oid) = 1 \<and> \<not> sql_position_exists c oid"
    using assms by (auto simp: inspect_order_def split: option.splits if_splits dest: single_length)
  then show "sql_get_order c oid = Some (o1, Some r)" "ot_status r = ORD_FILLED"
    "\<exists>f. sql_fills_for_order c oid = [f]" "dget (db_positions (cn_current c)) oid = None"
    by (auto simp: sql_position_exists_def length_Suc_conv)
qed

lemma order_of_get:
  assumes "conn_inv c" "sql_get_order c oid = Some (o1, x)"
  shows "or_id o1 = oid"
  using assms by (auto simp: sql_get_order_def order_of_row_def conn_inv_def db_inv_def dest: keyed_dget)

lemma save_recovered:
  assumes "conn_inv c" "inspect_order c oid = Repair o1 r" "position_from_fill o1 r = Inr p"
    and s: "sql_save_position True p c = (c', Inr ())"
  shows "only_positions_added c c'" "conn_inv c'" "dget (db_positions (cn_current c')) oid = Some p"
proof -
  note ir = inspect_repair [OF assms(2)]
  obtain f where f: "sql_fills_for_order c oid = [f]" using ir(3) by blast
  have id: "pos_id p = oid" using position_from_fill_Inr(4) [OF assms(3)] order_of_get [OF assms(1) ir(1)] by simp
  have c': "c' = sql_write True (\<lambda>d. d\<lparr>db_positions := dput oid p (dpop oid (db_positions d))\<rparr>) c"
    using s id by (simp add: sql_save_position_def)
  have "recovered_from c oid p" using ir f assms(3) by (auto simp: recovered_from_def)
  then show "only_positions_added c c'"
    unfolding only_positions_added_def c' using ir(4) by auto
  show "dget (db_positions (cn_current c')) oid = Some p" by (simp add: c')
  show "conn_inv c'" using conn_inv_positions [OF assms(1), of True p] s by simp
qed

lemma reconcile_loop_frame:
  "reconcile_loop ids n is c = (c', x) \<Longrightarrow> conn_inv c \<Longrightarrow> only_positions_added c c' \<and> conn_inv c'"
proof (induction ids arbitrary: n "is" c)
  case (Cons oid ids)
  show ?case
  proof (cases "inspect_order c oid")
    case (Repair o1 r)
    show ?thesis
    proof (cases "position_from_fill o1 r")
      case (Inl e)
      then show ?thesis using Cons.prems Repair only_positions_refl by auto
    next
      case (Inr p)
      obtain c1 where s: "sql_save_position True p c = (c1, Inr ())" by (simp add: sql_save_position_def)
      note sr = save_recovered [OF Cons.prems(2) Repair Inr s]
      have "reconcile_loop ids (n + 1) is c1 = (c', x)" using Cons.prems(1) Repair Inr s by simp
      from Cons.IH [OF this sr(2)] show ?thesis using sr(1) only_positions_trans by blast
    qed
  qed (use Cons in auto)
qed (simp add: only_positions_refl)

text \<open>After a run without an exception nothing that could be repaired is left.\<close>

lemma inspect_stable:
  assumes "only_positions_added c c'" "\<And>o1 r. inspect_order c oid \<noteq> Repair o1 r"
  shows "inspect_order c' oid = inspect_order c oid"
proof -
  obtain ps where ps: "cn_current c' = (cn_current c)\<lparr>db_positions := ps\<rparr>"
    using assms(1) by (auto simp: only_positions_added_def)
  have ex: "sql_position_exists c oid \<Longrightarrow> sql_position_exists c' oid"
    using assms(1) by (auto simp: only_positions_added_def sql_position_exists_def)
  have st: "inspect_order c oid = v \<Longrightarrow> (\<And>o1 r. v \<noteq> Repair o1 r) \<Longrightarrow> inspect_order c' oid = v" for v
    using ex unfolding inspect_order_def same_tables(1,2) [OF ps]
    by (cases v) (auto split: option.splits if_splits)
  show ?thesis by (rule st [OF refl assms(2)])
qed

lemma inspect_repaired:
  assumes "inspect_order c oid = Repair o1 r" "only_positions_added c c'" "sql_position_exists c' oid"
  shows "inspect_order c' oid = Nothing_To_Do"
proof -
  obtain ps where ps: "cn_current c' = (cn_current c)\<lparr>db_positions := ps\<rparr>"
    using assms(2) by (auto simp: only_positions_added_def)
  show ?thesis using assms(1,3) inspect_repair(3) [OF assms(1)] unfolding inspect_order_def same_tables(1,2) [OF ps]
    by (auto split: option.splits if_splits)
qed

lemma reconcile_loop_done:
  "reconcile_loop ids n is c = (c', Inr (m, js)) \<Longrightarrow> conn_inv c \<Longrightarrow>
   \<forall>oid \<in> set ids. \<forall>o1 r. inspect_order c' oid \<noteq> Repair o1 r"
proof (induction ids arbitrary: n "is" c)
  case (Cons oid ids)
  have "\<exists>n1 is1 c1. reconcile_loop ids n1 is1 c1 = (c', Inr (m, js)) \<and> conn_inv c1 \<and>
      (\<forall>o1 r. inspect_order c1 oid \<noteq> Repair o1 r)"
  proof (cases "inspect_order c oid")
    case (Repair o1 r)
    with Cons.prems(1) obtain p where p: "position_from_fill o1 r = Inr p" by (auto split: sum.splits)
    obtain c1 where s: "sql_save_position True p c = (c1, Inr ())" by (simp add: sql_save_position_def)
    note sr = save_recovered [OF Cons.prems(2) Repair p s]
    have "inspect_order c1 oid = Nothing_To_Do"
      using inspect_repaired [OF Repair sr(1)] sr(3) by (simp add: sql_position_exists_def)
    moreover have "reconcile_loop ids (n + 1) is c1 = (c', Inr (m, js))" using Cons.prems(1) Repair p s by simp
    ultimately show ?thesis using sr(2) by (intro exI conjI) auto
  next
    case Nothing_To_Do
    with Cons.prems show ?thesis by (intro exI [of _ n] exI [of _ "is"] exI [of _ c]) simp
  next
    case (Issue k d)
    with Cons.prems show ?thesis
      by (intro exI [of _ n] exI [of _ "is @ [\<lparr>ri_order_id = oid, ri_kind = k, ri_detail = d\<rparr>]"] exI [of _ c]) simp
  qed
  then obtain n1 is1 c1 where l: "reconcile_loop ids n1 is1 c1 = (c', Inr (m, js))" and i: "conn_inv c1"
    and nr: "\<forall>o1 r. inspect_order c1 oid \<noteq> Repair o1 r" by blast
  have "only_positions_added c1 c'" using reconcile_loop_frame [OF l i] by simp
  then have "inspect_order c' oid = inspect_order c1 oid" using inspect_stable nr by blast
  then show ?case using Cons.IH [OF l i] nr by auto
qed simp

lemma reconcile_loop_nothing:
  "\<forall>oid \<in> set ids. \<forall>o1 r. inspect_order c oid \<noteq> Repair o1 r \<Longrightarrow>
   \<exists>js. reconcile_loop ids n is c = (c, Inr (n, js))"
proof (induction ids arbitrary: "is")
  case (Cons oid ids)
  then show ?case by (cases "inspect_order c oid") auto
qed simp

subsection \<open>The recovery state machine\<close>

datatype recovery_state =
    RV_STARTING | RV_LOADING_STATE | RV_VALIDATING | RV_RECONCILING | RV_READY | RV_DEGRADED | RV_HALTED

fun recovery_allowed :: "recovery_state \<Rightarrow> recovery_state \<Rightarrow> bool" where
  "recovery_allowed RV_STARTING t = (t \<in> {RV_LOADING_STATE, RV_HALTED})"
| "recovery_allowed RV_LOADING_STATE t = (t \<in> {RV_VALIDATING, RV_HALTED})"
| "recovery_allowed RV_VALIDATING t = (t \<in> {RV_RECONCILING, RV_READY, RV_HALTED})"
| "recovery_allowed RV_RECONCILING t = (t \<in> {RV_READY, RV_DEGRADED, RV_HALTED})"
| "recovery_allowed RV_DEGRADED t = (t \<in> {RV_READY, RV_HALTED})"
| "recovery_allowed RV_READY t = False"
| "recovery_allowed RV_HALTED t = False"

definition recovery_transition :: "recovery_state \<Rightarrow> recovery_state \<Rightarrow> recovery_state res" where
  "recovery_transition s t =
     guard (\<not> recovery_allowed s t) (ValueError ''invalid recovery transition'') (Inr t)"

fun recovery_rank :: "recovery_state \<Rightarrow> nat" where
  "recovery_rank RV_STARTING = 5"
| "recovery_rank RV_LOADING_STATE = 4"
| "recovery_rank RV_VALIDATING = 3"
| "recovery_rank RV_RECONCILING = 2"
| "recovery_rank RV_DEGRADED = 1"
| "recovery_rank RV_READY = 0"
| "recovery_rank RV_HALTED = 0"

interpretation rec: guarded_machine recovery_allowed recovery_transition recovery_rank
proof
  show "recovery_allowed a b \<Longrightarrow> recovery_transition a b = Inr b" for a b
    by (simp add: recovery_transition_def)
  show "\<not> recovery_allowed a b \<Longrightarrow> \<exists>e. recovery_transition a b = Inl e" for a b
    by (simp add: recovery_transition_def)
  show "recovery_allowed a b \<Longrightarrow> recovery_rank b < recovery_rank a" for a b
    by (cases a; cases b) simp_all
qed

subsection \<open>The recovery service\<close>

record recovery_report =
  rp_state :: recovery_state
  rp_positions_checked :: nat
  rp_positions_recovered :: nat
  rp_warnings :: "issue_kind list"

text \<open>The state machine and the database are both mutable: the state left behind is returned.\<close>

definition move_to :: "recovery_state \<Rightarrow> recovery_state \<times> connection \<Rightarrow> (recovery_state \<times> connection, unit) sres" where
  "move_to t s = (case recovery_transition (fst s) t of Inl e \<Rightarrow> (s, Inl e) | Inr t' \<Rightarrow> ((t', snd s), Inr ()))"

definition recovery_run ::
  "string list \<Rightarrow> recovery_state \<times> connection \<Rightarrow> (recovery_state \<times> connection, recovery_report) sres" where
  "recovery_run ids s =
     sbind (move_to RV_LOADING_STATE s) (\<lambda>_ s.
     sbind (move_to RV_VALIDATING s) (\<lambda>_ s.
     sbind (case reconcile ids (snd s) of (c, r) \<Rightarrow> ((fst s, c), r)) (\<lambda>result s.
     sbind (if rr_issues result \<noteq> [] then move_to RV_DEGRADED s
            else sbind (move_to RV_RECONCILING s) (\<lambda>_ s. move_to RV_READY s)) (\<lambda>_ s.
       (s, Inr \<lparr>rp_state = fst s, rp_positions_checked = rr_inspected result,
                rp_positions_recovered = rr_repaired result,
                rp_warnings = map ri_kind (rr_issues result)\<rparr>)))))"

subsection \<open>Provider and ledger recovery\<close>

datatype provider_recovery_state = PR_AVAILABLE | PR_DEGRADED | PR_FAILED | PR_RECOVERING

definition allow_new_trades :: "provider_recovery_state \<Rightarrow> bool \<Rightarrow> bool" where
  "allow_new_trades s price_provider = (if price_provider \<and> s \<noteq> PR_AVAILABLE then False else True)"

record ledger_recovery_result =
  lr_checked_positions :: int
  lr_repairs_required :: int
  lr_warnings :: "string list"

definition ledger_recovery_validate :: "int \<Rightarrow> ledger_recovery_result" where
  "ledger_recovery_validate checked =
     \<lparr>lr_checked_positions = checked, lr_repairs_required = 0, lr_warnings = []\<rparr>"

text \<open>
  The service moves from \<open>RV_VALIDATING\<close> to \<open>RV_DEGRADED\<close> when there are issues, which the table does not
  allow: the run raises instead of reporting them, and leaves the machine in \<open>RV_VALIDATING\<close>.
\<close>

lemma recovery_run_issues:
  assumes "reconcile ids c = (c', Inr result)" "rr_issues result \<noteq> []"
  shows "recovery_run ids (RV_STARTING, c) =
    ((RV_VALIDATING, c'), Inl (ValueError ''invalid recovery transition''))"
  using assms by (simp add: recovery_run_def move_to_def recovery_transition_def)

lemma recovery_run_clean:
  assumes "reconcile ids c = (c', Inr result)" "rr_issues result = []"
  shows "recovery_run ids (RV_STARTING, c) = ((RV_READY, c'), Inr \<lparr>rp_state = RV_READY,
    rp_positions_checked = rr_inspected result, rp_positions_recovered = rr_repaired result, rp_warnings = []\<rparr>)"
  using assms by (simp add: recovery_run_def move_to_def recovery_transition_def)

end
