(* ===== verification/Strategy_Examples.thy ===== *)
theory Strategy_Examples
  imports Strategy
begin

section \<open>Two worked evaluations of the strategy engine\<close>

text \<open>
  The snapshots of \<open>example_signal\<close> evaluated step by step: with round prices the signal passes every gate;
  with an average true range of 29 sevenths, rounded to 28 digits, the reward planned at 2.5 times the risk divides back to
  less than 2.5 and the signal is rejected for its reward-to-risk ratio alone.
\<close>

lemma example_parts:
  "mk_indicators (example_snapshot e a l st) = example_indicators e a"
  "tr_direction (mk_trend (example_snapshot e a l st)) = ''BULLISH''"
  "tr_score (mk_trend (example_snapshot e a l st)) = 100"
  "st_state (mk_structure (example_snapshot e a l st)) = st"
  "st_support (mk_structure (example_snapshot e a l st)) = Some l"
  "st_resistance (mk_structure (example_snapshot e a l st)) = Some (2 * e)"
  "st_score (mk_structure (example_snapshot e a l st)) = 90"
  "rg_volatility (mk_regime (example_snapshot e a l st)) = ''NORMAL''"
  "lq_score (mk_liquidity (example_snapshot e a l st)) = 100"
  "lq_volume_ratio (mk_liquidity (example_snapshot e a l st)) = Some 2"
  "mk_advanced (example_snapshot e a l st) = None"
  "mk_symbol (example_snapshot e a l st) = ''BTC''"
  by (simp_all add: example_snapshot_def Let_def)

lemma example_symbol: "mk_symbol (example_snapshot e a l st) = ''BTC''"
  by (simp add: example_snapshot_def Let_def)

lemma example_fields:
  "is_ema20 (example_indicators e a) = Some e" "is_ema50 (example_indicators e a) = Some 90"
  "is_ema200 (example_indicators e a) = Some 80" "is_rsi14 (example_indicators e a) = Some 60"
  "is_atr14 (example_indicators e a) = Some a" "is_volume_sma20 (example_indicators e a) = Some 1000"
  "is_macd_histogram (example_indicators e a) = Some 1" "is_adx14 (example_indicators e a) = Some 30"
  "is_supertrend_direction (example_indicators e a) = Some ''BULLISH''"
  "is_vwap20 (example_indicators e a) = Some 100" "is_bollinger_middle (example_indicators e a) = Some 100"
  by (simp_all add: example_indicators_def)

lemma example_completeness: "indicator_completeness (example_snapshot e a l st) = 100"
proof -
  let ?i = "example_indicators e a"
  have base: "sum_list (map present [is_ema20 ?i, is_ema50 ?i, is_ema200 ?i, is_rsi14 ?i, is_atr14 ?i, is_volume_sma20 ?i]) = 6"
    by (simp add: example_fields present_def)
  have ext: "present (is_macd_histogram ?i) + present (is_adx14 ?i) + present (is_supertrend_direction ?i) +
      present (is_vwap20 ?i) + present (is_bollinger_middle ?i) = 5"
    by (simp add: example_fields present_def)
  have q: "dadd 95 (dmul (ddiv 5 5) 5) = 100" by (simp add: dec_eval)
  show ?thesis
    unfolding indicator_completeness_def Let_def example_parts base ext by (simp add: q clamp_def)
qed

lemma example_data:
  "data_quality [example_snapshot e a l s1, example_snapshot e a l s2, example_snapshot e a l s3,
     example_snapshot e a l s4] = 100"
  by (simp add: data_quality_def example_completeness dec_eval)

lemma example_htf: "htf_alignment (example_snapshot e a l s1) (example_snapshot e a l s2) = 100"
  by (simp add: htf_alignment_def example_parts dec_eval clamp_def)

lemma example_structure:
  "structure_quality (example_snapshot e a l ''BREAKOUT_UP'') (example_snapshot e a l s3) = 95"
  by (simp add: structure_quality_def Let_def example_parts startswith_def dec_eval clamp_def)

lemma example_setup:
  "setup_quality ''BREAKOUT_RETEST'' ''LONG'' (example_snapshot e a l ''BREAKOUT_UP'') h q = 95"
  by (simp add: setup_quality_def Let_def example_parts bonus_def dec_eval clamp_def)

lemma example_confirmation:
  "confirmation_quality (example_snapshot e a l s4) ''LONG'' = (if 100 \<le> e then 100 else 96)"
  by (simp add: confirmation_quality_def Let_def expected_trend_def example_parts example_fields bonus_def
      points_def opt_agrees_def dec_eval clamp_def)

lemma example_volatility: "volatility_quality (example_snapshot e a l s4) = 100"
  by (simp add: volatility_quality_def example_parts)

subsection \<open>Direction, setup and levels\<close>

lemma example_direction:
  "direction_of (example_snapshot e a l s1) (example_snapshot e a l s2) = Some ''LONG''"
  by (simp add: direction_of_def example_parts)

lemma example_setup_found:
  "detect_setup (example_snapshot e a l ''BREAKOUT_UP'') (example_snapshot e a l ''NEAR_RESISTANCE'')
     (example_snapshot e a l ''BREAKOUT_UP'') ''LONG'' \<noteq> None"
  by (simp add: detect_setup_def Let_def example_parts startswith_def expected_trend_def)

lemma example_levels:
  assumes "e \<noteq> 0" "a \<noteq> 0" "l < e" "e < 2 * e"
  shows "levels (example_snapshot e a l s2) (example_snapshot e a l s3) (example_snapshot e a l s4) ''LONG'' =
    long_levels e l (dmul a (25 / 100))"
  using assms by (simp add: levels_def example_parts example_fields py_or_def support_level_def resistance_level_def
      last_swing_def)

definition odd_atr :: rat where
  "odd_atr = of_int 1785714285714285714285714286 * p10 (- 27)"

definition odd_buffer :: rat where
  "odd_buffer = of_int 4464285714285714285714285715 * p10 (- 28)"

definition odd_stop :: rat where
  "odd_stop = of_int 5455357142857142857142857143 * p10 (- 26)"

definition odd_risk :: rat where
  "odd_risk = of_int 4544642857142857142857142857 * p10 (- 26)"

definition odd_reward :: rat where
  "odd_reward = of_int 1136160714285714285714285714 * p10 (- 25)"

definition odd_target :: rat where
  "odd_target = of_int 2136160714285714285714285714 * p10 (- 25)"

definition odd_rr :: rat where
  "odd_rr = of_int 2499999999999999999999999999 * p10 (- 27)"

lemmas odd_defs = odd_atr_def odd_buffer_def odd_stop_def odd_risk_def odd_reward_def odd_target_def odd_rr_def

text \<open>The average true range of the example is the mean of fourteen ranges that sum to 25.\<close>

lemma odd_values:
  "ddiv 25 14 = odd_atr" "dmul odd_atr (25 / 100) = odd_buffer" "dsub 55 odd_buffer = odd_stop"
  "dsub 100 odd_stop = odd_risk" "dmul odd_risk (5 / 2) = odd_reward" "dadd 100 odd_reward = odd_target"
  "dsub odd_target 100 = odd_reward" "ddiv odd_reward odd_risk = odd_rr"
  unfolding ddiv_def dmul_def dsub_def dadd_def odd_defs by (rule rnd_cert; simp add: p10_def)+

lemma odd_signs: "odd_atr \<noteq> 0" "0 < odd_stop" "0 < odd_risk" "0 < odd_reward" "odd_rr < 5 / 2"
  by (simp_all add: odd_defs p10_def)

subsection \<open>The two signals\<close>

lemma example_breakdown:
  assumes "100 \<le> e" "2 \<le> rr" "rr < 275 / 100"
  obtains ev where "build_strategy_evidence (example_snapshot e a l ''BREAKOUT_UP'') (example_snapshot e a l ''BREAKOUT_UP'')
      (example_snapshot e a l ''NEAR_RESISTANCE'') (example_snapshot e a l ''BREAKOUT_UP'') ''BREAKOUT_RETEST'' ''LONG'' rr
      = Inr ev" "ev_data_quality ev = 100" "ev_htf_alignment_quality ev = 100" "ev_structure_quality ev = 95"
    "ev_confirmation_quality ev = 100" "score_total (ev_score_breakdown ev) = (if rr < 5 / 2 then 93 else 96)"
proof -
  have w: "weighted 100 20 = 20" "weighted 95 15 = 57 / 4" "weighted 95 25 = 95 / 4" "weighted 100 15 = 15"
    "weighted 100 10 = 10" "weighted 100 5 = 5" "weighted 80 10 = 8" "weighted 50 10 = 5"
    by (simp_all add: weighted_def clamp_def dec_eval)
  have q: "rr_quality rr = (if rr < 5 / 2 then 50 else 80)" using assms by (simp add: rr_quality_def)
  have c: "clamp (lq_score (mk_liquidity (example_snapshot e a l st))) = 100" for st
    by (simp add: example_parts clamp_def)
  have s: "score_total \<lparr>sc_htf_trend = 20, sc_structure = 57 / 4, sc_setup = 95 / 4, sc_confirmation = 15,
      sc_liquidity = 10, sc_volatility = 5, sc_rr_quality = x\<rparr> = 88 + x" if "x = 5 \<or> x = 8" for x
    using that by (auto simp: score_total_def score_values_def dec_eval)
  note b = build_strategy_evidence_def Let_def score_guard_never_trips res_bind_simps example_data example_htf
    example_structure example_setup example_confirmation example_volatility q c
  have "\<exists>ev. build_strategy_evidence (example_snapshot e a l ''BREAKOUT_UP'') (example_snapshot e a l ''BREAKOUT_UP'')
      (example_snapshot e a l ''NEAR_RESISTANCE'') (example_snapshot e a l ''BREAKOUT_UP'') ''BREAKOUT_RETEST'' ''LONG'' rr
      = Inr ev \<and> ev_data_quality ev = 100 \<and> ev_htf_alignment_quality ev = 100 \<and> ev_structure_quality ev = 95 \<and>
    ev_confirmation_quality ev = 100 \<and> score_total (ev_score_breakdown ev) = (if rr < 5 / 2 then 93 else 96)"
    unfolding b using assms(1) by (cases "rr < 5 / 2") (simp_all add: w s)
  then show thesis using that by blast
qed

lemma example_confidence:
  obtains conf where "calculate_confidence 100 100 95 100 = Inr conf" "cf_value conf = 99"
  by (simp add: calculate_confidence_def guard_def dec_eval)

lemma example_setup_retest:
  "detect_setup (example_snapshot e a l ''BREAKOUT_UP'') (example_snapshot e a l ''NEAR_RESISTANCE'')
     (example_snapshot e a l ''BREAKOUT_UP'') ''LONG'' = Some ''BREAKOUT_RETEST''"
  by (simp add: detect_setup_def Let_def example_parts)

text \<open>Every gate but the reward-to-risk ratio is passed, so that one decides.\<close>

lemma example_signal_decided:
  assumes e: "100 \<le> e" "a \<noteq> 0" "l < e" and lv: "long_levels e l (dmul a (25 / 100)) = Some (e, s, t)"
    and rr: "calculate_risk_reward e s t ''LONG'' = Inr r" "2 \<le> rr_ratio r" "rr_ratio r < 275 / 100"
  shows "\<exists>sg. example_signal e a l = Inr sg \<and> sg_rr sg = rr_ratio r \<and>
    sg_state sg = (if rr_ratio r < 5 / 2 then STRATEGY_REJECTED else READY_FOR_RISK_REVIEW) \<and>
    sg_reasons sg = (if rr_ratio r < 5 / 2 then [''R:R below minimum''] else []) \<and>
    sg_symbol sg = ''BTC'' \<and> sg_direction sg = ''LONG'' \<and> sg_entry sg = e \<and> sg_stop_loss sg = s \<and> sg_target sg = t"
proof -
  obtain ev where ev: "build_strategy_evidence (example_snapshot e a l ''BREAKOUT_UP'')
      (example_snapshot e a l ''BREAKOUT_UP'') (example_snapshot e a l ''NEAR_RESISTANCE'')
      (example_snapshot e a l ''BREAKOUT_UP'') ''BREAKOUT_RETEST'' ''LONG'' (rr_ratio r) = Inr ev"
    "ev_data_quality ev = 100" "ev_htf_alignment_quality ev = 100" "ev_structure_quality ev = 95"
    "ev_confirmation_quality ev = 100" "score_total (ev_score_breakdown ev) = (if rr_ratio r < 5 / 2 then 93 else 96)"
    using example_breakdown [OF e(1) rr(2,3)] by blast
  obtain conf where conf: "calculate_confidence 100 100 95 100 = Inr conf" "cf_value conf = 99"
    by (rule example_confidence)
  have lv': "levels (example_snapshot e a l ''BREAKOUT_UP'') (example_snapshot e a l ''NEAR_RESISTANCE'')
      (example_snapshot e a l ''BREAKOUT_UP'') ''LONG'' = Some (e, s, t)"
    using e lv by (simp add: example_levels)
  show ?thesis
    unfolding example_signal_def Let_def evaluate_strategy_def
    by (simp add: example_direction example_setup_retest lv' rr(1) ev conf gate_reasons_def default_rules_def
        example_symbol)
qed

lemma example_ready:
  "\<exists>sg. example_signal 100 4 95 = Inr sg \<and> sg_rr sg = 5 / 2 \<and> sg_state sg = READY_FOR_RISK_REVIEW \<and>
    sg_symbol sg = ''BTC'' \<and> sg_direction sg = ''LONG'' \<and> sg_entry sg = 100 \<and> sg_stop_loss sg = 94 \<and> sg_target sg = 115"
proof -
  have lv: "long_levels 100 95 (dmul 4 (25 / 100)) = Some (100, 94, 115)" by (simp add: long_levels_def dec_eval)
  have rr: "calculate_risk_reward 100 94 115 ''LONG'' = Inr \<lparr>rr_entry = 100, rr_stop_loss = 94, rr_target = 115, rr_ratio = 5 / 2\<rparr>"
    by (simp add: calculate_risk_reward_def guard_def dec_eval)
  show ?thesis using example_signal_decided [OF _ _ _ lv rr] by auto
qed

lemma example_ready_round:
  "\<exists>sg. example_signal 100 4 96 = Inr sg \<and> sg_rr sg = 5 / 2 \<and> sg_state sg = READY_FOR_RISK_REVIEW \<and>
    sg_symbol sg = ''BTC'' \<and> sg_direction sg = ''LONG'' \<and> sg_entry sg = 100 \<and> sg_stop_loss sg = 95 \<and> sg_target sg = 225 / 2"
proof -
  have lv: "long_levels 100 96 (dmul 4 (25 / 100)) = Some (100, 95, 225 / 2)" by (simp add: long_levels_def dec_eval)
  have rr: "calculate_risk_reward 100 95 (225 / 2) ''LONG'' =
      Inr \<lparr>rr_entry = 100, rr_stop_loss = 95, rr_target = 225 / 2, rr_ratio = 5 / 2\<rparr>"
    by (simp add: calculate_risk_reward_def guard_def dec_eval)
  show ?thesis using example_signal_decided [OF _ _ _ lv rr] by auto
qed

lemma example_rounded_away:
  "\<exists>sg. example_signal 100 odd_atr 55 = Inr sg \<and> sg_rr sg = odd_rr \<and> sg_state sg = STRATEGY_REJECTED \<and>
     sg_reasons sg = [''R:R below minimum'']"
proof -
  have lv: "long_levels 100 55 (dmul odd_atr (25 / 100)) = Some (100, odd_stop, odd_target)"
    unfolding long_levels_def Let_def odd_values using odd_signs by simp
  have rr: "calculate_risk_reward 100 odd_stop odd_target ''LONG'' =
      Inr \<lparr>rr_entry = 100, rr_stop_loss = odd_stop, rr_target = odd_target, rr_ratio = odd_rr\<rparr>"
    using odd_signs by (simp add: calculate_risk_reward_def odd_values guard_def not_le)
  have "2 \<le> odd_rr" by (simp add: odd_rr_def p10_def)
  then show ?thesis using example_signal_decided [OF _ _ _ lv rr] odd_signs by auto
qed

end
