(* ===== verification/Decimal_Text.thy ===== *)
theory Decimal_Text
  imports Journal
begin

section \<open>Decimals as text\<close>

text \<open>
  Every repository writes an amount as \<^verbatim>\<open>str(amount)\<close> and reads it as \<^verbatim>\<open>Decimal(text)\<close>. A finite \<^verbatim>\<open>Decimal\<close> is a
  sign, a coefficient and an exponent; \<open>dec_str\<close> is its scientific string (\<^verbatim>\<open>Decimal.__str__\<close>) and \<open>parse_decimal\<close>
  of \<open>Journal\<close> is the constructor. Reading back what was written gives the same number, which is what allows the
  storage model to keep the numbers themselves.
\<close>

subsection \<open>The string of a decimal\<close>

record pydec =
  dl_negative :: bool
  dl_coefficient :: nat
  dl_exponent :: int

definition dec_value :: "pydec \<Rightarrow> rat" where
  "dec_value d = of_int ((if dl_negative d then - 1 else 1) * int (dl_coefficient d)) * p10 (dl_exponent d)"

definition digit_char :: "nat \<Rightarrow> char" where
  "digit_char n = char_of (48 + int n)"

fun nat_digits :: "nat \<Rightarrow> string" where
  "nat_digits n = (if n < 10 then [digit_char n] else nat_digits (n div 10) @ [digit_char (n mod 10)])"

declare nat_digits.simps [simp del]

definition exponent_str :: "int \<Rightarrow> string" where
  "exponent_str e = (if e = 0 then [] else ''E'' @ (if e < 0 then ''-'' else ''+'') @ nat_digits (nat \<bar>e\<bar>))"

definition dec_str :: "pydec \<Rightarrow> string" where
  "dec_str d =
     (let ds = nat_digits (dl_coefficient d);
          n = int (length ds);
          leftdigits = dl_exponent d + n;
          dotplace = (if dl_exponent d \<le> 0 \<and> - 6 < leftdigits then leftdigits else 1);
          body = (if dotplace \<le> 0 then ''0.'' @ replicate (nat (- dotplace)) (CHR ''0'') @ ds
                  else if n \<le> dotplace then ds @ replicate (nat (dotplace - n)) (CHR ''0'')
                  else take (nat dotplace) ds @ ''.'' @ drop (nat dotplace) ds)
      in (if dl_negative d then ''-'' else []) @ body @ exponent_str (leftdigits - dotplace))"

subsection \<open>Digits\<close>

lemma digit_char_code: "n < 10 \<Longrightarrow> (of_char (digit_char n) :: int) = 48 + int n"
  by (simp add: digit_char_def of_char_of)

lemma digit_char_digit: "n < 10 \<Longrightarrow> is_digit (digit_char n)"
  by (simp add: is_digit_def digit_char_code)

lemma digits_fold:
  "foldl (\<lambda>n c. 10 * n + (of_char c - 48)) (k :: int) t =
     k * 10 ^ length t + foldl (\<lambda>n c. 10 * n + (of_char c - 48)) 0 t"
proof (induction t arbitrary: k)
  case (Cons c t)
  define d :: int where "d = of_char c - 48"
  have "foldl (\<lambda>n c. 10 * n + (of_char c - 48)) k (c # t) = foldl (\<lambda>n c. 10 * n + (of_char c - 48)) (10 * k + d) t"
    by (simp only: foldl_Cons d_def)
  also have "\<dots> = (10 * k + d) * 10 ^ length t + foldl (\<lambda>n c. 10 * n + (of_char c - 48)) 0 t" by (rule Cons.IH)
  finally have k: "foldl (\<lambda>n c. 10 * n + (of_char c - 48)) k (c # t) =
    (10 * k + d) * 10 ^ length t + foldl (\<lambda>n c. 10 * n + (of_char c - 48)) 0 t" .
  have "foldl (\<lambda>n c. 10 * n + (of_char c - 48)) 0 (c # t) = foldl (\<lambda>n c. 10 * n + (of_char c - 48)) d t"
    by (simp only: foldl_Cons d_def mult_zero_right add_0)
  also have "\<dots> = d * 10 ^ length t + foldl (\<lambda>n c. 10 * n + (of_char c - 48)) 0 t" by (rule Cons.IH)
  finally have z: "foldl (\<lambda>n c. 10 * n + (of_char c - 48)) 0 (c # t) =
    d * 10 ^ length t + foldl (\<lambda>n c. 10 * n + (of_char c - 48)) 0 t" .
  show ?case unfolding k z by (simp add: ring_distribs)
qed simp

lemma digits_value_append: "digits_value (s @ t) = digits_value s * 10 ^ length t + digits_value t"
  unfolding digits_value_def foldl_append by (rule digits_fold)

lemma digits_value_single: "digits_value [c] = of_char c - 48"
  by (simp add: digits_value_def)

lemma digits_value_zeros: "digits_value (replicate k (CHR ''0'')) = 0"
  by (induction k) (auto simp: digits_value_def of_char_def)

lemma nat_digits_value: "digits_value (nat_digits n) = int n"
proof (induction n rule: nat_digits.induct)
  case (1 n)
  show ?case
  proof (cases "n < 10")
    case True
    then show ?thesis by (simp add: nat_digits.simps digits_value_single digit_char_code)
  next
    case False
    then have "digits_value (nat_digits n) = int (n div 10) * 10 + int (n mod 10)"
      using 1 by (subst nat_digits.simps) (simp add: digits_value_append digits_value_single digit_char_code)
    then show ?thesis by (metis div_mult_mod_eq of_nat_add of_nat_mult of_nat_numeral)
  qed
qed

lemma nat_digits_digits: "list_all is_digit (nat_digits n)"
proof (induction n rule: nat_digits.induct)
  case (1 n)
  then show ?case by (subst nat_digits.simps) (simp add: digit_char_digit)
qed

lemma nat_digits_nonempty [simp]: "nat_digits n \<noteq> []"
  by (subst nat_digits.simps) simp

lemma digit_not_special: "is_digit c \<Longrightarrow> c \<noteq> CHR ''-'' \<and> c \<noteq> CHR ''+'' \<and> c \<noteq> CHR ''.'' \<and> \<not> is_space c"
  by (auto simp: is_digit_def is_space_def of_char_def)

lemma not_digit_special: "\<not> is_digit CHR ''.''" "\<not> is_digit CHR ''E''" "is_digit CHR ''0''"
  by (simp_all add: is_digit_def of_char_def)

subsection \<open>Reading a number back\<close>

text \<open>A literal in its parts: sign, integer digits, an optional point with digits, and an exponent.\<close>

lemma strip_id: "list_all (\<lambda>c. \<not> is_space c) s \<Longrightarrow> strip s = s"
proof -
  assume s: "list_all (\<lambda>c. \<not> is_space c) s"
  have "dropWhile is_space xs = xs" if "set xs \<subseteq> set s" for xs
    using s that by (cases xs) (auto simp: list_all_iff)
  from this [of s] this [of "rev s"] show ?thesis by (simp add: strip_def)
qed

lemma digit_span:
  assumes "list_all is_digit xs" "ys = [] \<or> \<not> is_digit (hd ys)"
  shows "takeWhile is_digit (xs @ ys) = xs" "dropWhile is_digit (xs @ ys) = ys"
proof -
  have y: "takeWhile is_digit ys = []" "dropWhile is_digit ys = ys" using assms(2) by (cases ys; simp)+
  have x: "x \<in> set xs \<Longrightarrow> is_digit x" for x using assms(1) by (simp add: list_all_iff)
  show "takeWhile is_digit (xs @ ys) = xs" using takeWhile_append2 [of xs is_digit ys] x y by simp
  show "dropWhile is_digit (xs @ ys) = ys" using dropWhile_append2 [of xs is_digit ys] x y by simp
qed

lemma parse_parts:
  assumes "list_all is_digit ip" "list_all is_digit fp" "ip \<noteq> []" "parse_exponent ex = Some e"
    and "ex = [] \<or> hd ex = CHR ''E''" "list_all (\<lambda>c. \<not> is_space c) ex"
  shows "parse_decimal ((if neg then ''-'' else []) @ ip @ (if fp = [] then [] else CHR ''.'' # fp) @ ex) =
    Some (of_int ((if neg then - 1 else 1) * digits_value (ip @ fp)) * p10 (e - int (length fp)))"
proof -
  define frac where "frac = (if fp = [] then [] else CHR ''.'' # fp)"
  define sg where "sg = (if neg then ''-'' else [])"
  have d: "list_all (\<lambda>c. \<not> is_space c) ip" "list_all (\<lambda>c. \<not> is_space c) fp"
    using assms(1,2) digit_not_special by (auto simp: list_all_iff)
  have "list_all (\<lambda>c. \<not> is_space c) frac" "list_all (\<lambda>c. \<not> is_space c) sg"
    using d(2) by (simp_all add: frac_def sg_def is_space_def)
  then have strip: "strip (sg @ ip @ frac @ ex) = sg @ ip @ frac @ ex"
    using d assms(6) by (intro strip_id) simp
  have ex: "ex = [] \<or> \<not> is_digit (hd ex)" using assms(5) not_digit_special by auto
  obtain c ip' where c: "ip = c # ip'" "is_digit c" using assms(1,3) by (cases ip) auto
  have sg: "split_sign (sg @ ip @ frac @ ex) = (if neg then - 1 else 1, ip @ frac @ ex)"
    using digit_not_special [OF c(2)] by (simp add: c(1) sg_def)
  have "frac @ ex = [] \<or> \<not> is_digit (hd (frac @ ex))"
    using ex not_digit_special by (simp add: frac_def)
  note ip = digit_span [OF assms(1) this]
  have fp: "split_fraction (frac @ ex) = (fp, ex)"
  proof (cases "fp = []")
    case True
    then show ?thesis using assms(5) by (cases ex) (auto simp: frac_def)
  next
    case False
    then show ?thesis using digit_span [OF assms(2) ex] by (simp add: frac_def)
  qed
  show ?thesis
    unfolding frac_def [symmetric] sg_def [symmetric] parse_decimal_def strip sg Let_def prod.case ip fp
    using assms(3,4) by simp
qed

lemma exponent_str_parse:
  "parse_exponent (exponent_str e) = Some e" "exponent_str e = [] \<or> hd (exponent_str e) = CHR ''E''"
  "list_all (\<lambda>c. \<not> is_space c) (exponent_str e)"
  using nat_digits_digits [of "nat \<bar>e\<bar>"] digit_not_special
  by (auto simp: exponent_str_def nat_digits_value list_all_iff is_space_def)

lemma dec_str_parts:
  obtains ip fp e where "dec_str d = (if dl_negative d then ''-'' else []) @ ip @
      (if fp = [] then [] else CHR ''.'' # fp) @ exponent_str e"
    "list_all is_digit ip" "list_all is_digit fp" "ip \<noteq> []" "digits_value (ip @ fp) = int (dl_coefficient d)"
    "e - int (length fp) = dl_exponent d"
proof -
  define ds where "ds = nat_digits (dl_coefficient d)"
  define n where "n = int (length ds)"
  define left where "left = dl_exponent d + n"
  define dot where "dot = (if dl_exponent d \<le> 0 \<and> - 6 < left then left else 1)"
  have ds: "list_all is_digit ds" "ds \<noteq> []" "digits_value ds = int (dl_coefficient d)"
    by (simp_all add: ds_def nat_digits_digits nat_digits_value)
  have z: "list_all is_digit (replicate k (CHR ''0''))" for k by (simp add: list_all_iff not_digit_special)
  have str: "dec_str d = (if dl_negative d then ''-'' else []) @
      (if dot \<le> 0 then ''0.'' @ replicate (nat (- dot)) (CHR ''0'') @ ds
       else if n \<le> dot then ds @ replicate (nat (dot - n)) (CHR ''0'')
       else take (nat dot) ds @ ''.'' @ drop (nat dot) ds) @ exponent_str (left - dot)"
    by (simp add: dec_str_def Let_def ds_def n_def left_def dot_def)
  consider (small) "dot \<le> 0" | (whole) "0 < dot" "n \<le> dot" | (mixed) "0 < dot" "dot < n" by linarith
  then show thesis
  proof cases
    case small
    then have "left = dot" by (auto simp: dot_def split: if_splits)
    moreover have "digits_value (''0'' @ replicate (nat (- dot)) (CHR ''0'') @ ds) = int (dl_coefficient d)"
      unfolding digits_value_append digits_value_zeros ds(3) by (simp add: digits_value_single of_char_def)
    ultimately show thesis using small ds z
      by (intro that [of "''0''" "replicate (nat (- dot)) (CHR ''0'') @ ds" "left - dot"])
        (simp_all add: str not_digit_special left_def n_def)
  next
    case whole
    have "n \<ge> 1" using ds(2) by (cases ds) (simp_all add: n_def)
    with whole have "dot = n \<or> dl_exponent d = left - n \<and> dot = n" by (auto simp: dot_def left_def split: if_splits)
    then show thesis using whole ds
      by (intro that [of ds "[]" "left - dot"]) (simp_all add: str left_def)
  next
    case mixed
    then have "nat dot < length ds" "0 < nat dot" by (simp_all add: n_def)
    moreover have "list_all is_digit (take k ds)" "list_all is_digit (drop k ds)" for k
      using ds(1) by (auto simp: list_all_iff dest: in_set_takeD in_set_dropD)
    ultimately show thesis using mixed ds
      by (intro that [of "take (nat dot) ds" "drop (nat dot) ds" "left - dot"])
        (simp_all add: str left_def n_def)
  qed
qed

lemma parse_dec_str: "parse_decimal (dec_str d) = Some (dec_value d)"
proof -
  obtain ip fp e where p: "dec_str d = (if dl_negative d then ''-'' else []) @ ip @
      (if fp = [] then [] else CHR ''.'' # fp) @ exponent_str e"
    "list_all is_digit ip" "list_all is_digit fp" "ip \<noteq> []" "digits_value (ip @ fp) = int (dl_coefficient d)"
    "e - int (length fp) = dl_exponent d" by (rule dec_str_parts)
  show ?thesis unfolding p(1)
    by (subst parse_parts [OF p(2-4) exponent_str_parse]) (simp add: p(5,6) dec_value_def)
qed

subsection \<open>The equity column\<close>

text \<open>
  \<^verbatim>\<open>SQLiteAccountRepository\<close> on the text it stores: \<^verbatim>\<open>save_equity\<close> writes the string, \<^verbatim>\<open>load_equity\<close> reads the
  number. The row is absent before the first save.
\<close>

definition save_equity_column :: "pydec \<Rightarrow> string res" where
  "save_equity_column d = guard (dec_value d < 0) (ValueError ''equity cannot be negative'') (Inr (dec_str d))"

definition load_equity_column :: "string option \<Rightarrow> rat res" where
  "load_equity_column row =
     (case row of
        None \<Rightarrow> Inl (ValueError ''account state is not initialized'')
      | Some t \<Rightarrow> (case parse_decimal t of None \<Rightarrow> Inl (OtherError ''InvalidOperation'') | Some x \<Rightarrow> Inr x))"

lemma equity_column_roundtrip:
  "save_equity_column d = Inr t \<Longrightarrow> load_equity_column (Some t) = Inr (dec_value d) \<and> 0 \<le> dec_value d"
  by (auto simp: save_equity_column_def load_equity_column_def guard_Inr_iff parse_dec_str)

end
