(* ===== verification/Live_Operation.thy ===== *)
theory Live_Operation
  imports Decimal_Text
begin

section \<open>Live operation: the guarded boundary to an exchange\<close>

text \<open>
  \<^verbatim>\<open>app/live_operation\<close>: the activation gate, the circuit breaker, the incident register, the secondary risk
  controller, the position synchronizer, the execution gateway and the runtime that composes them. The exchange
  connector is an abstract class whose implementations own the transport: it is a record of functions on a state of
  its own, any of which may raise.
\<close>

subsection \<open>Activation\<close>

record activation_request =
  aq_environment :: string
  aq_go_live_approved :: bool
  aq_risk_controls_ready :: bool
  aq_health_ready :: bool
  aq_connector_ready :: bool
  aq_positions_synchronized :: bool
  aq_critical_incidents_clear :: bool
  aq_explicit_live_enable :: bool

record activation_result =
  av_active :: bool
  av_reason :: string
  av_checked_at :: datetime

definition activation_checks :: "activation_request \<Rightarrow> (string \<times> bool) list" where
  "activation_checks r =
     [(''production environment required'', lower (aq_environment r) = ''production''),
      (''go-live approval required'', aq_go_live_approved r),
      (''risk controls not ready'', aq_risk_controls_ready r),
      (''system health not ready'', aq_health_ready r),
      (''exchange connector not ready'', aq_connector_ready r),
      (''position reconciliation not clean'', aq_positions_synchronized r),
      (''critical incident still open'', aq_critical_incidents_clear r),
      (''explicit live enable required'', aq_explicit_live_enable r)]"

definition activation_evaluate :: "activation_request \<Rightarrow> datetime \<Rightarrow> activation_result" where
  "activation_evaluate r now =
     (let failures = map fst (filter (\<lambda>(reason, passed). \<not> passed) (activation_checks r))
      in if failures \<noteq> []
         then \<lparr>av_active = False, av_reason = join ''; '' failures, av_checked_at = now\<rparr>
         else \<lparr>av_active = True, av_reason = ''all live activation gates passed'', av_checked_at = now\<rparr>)"

lemma activation_active_iff:
  "av_active (activation_evaluate r now) \<longleftrightarrow> lower (aq_environment r) = ''production'' \<and> aq_go_live_approved r \<and>
     aq_risk_controls_ready r \<and> aq_health_ready r \<and> aq_connector_ready r \<and> aq_positions_synchronized r \<and>
     aq_critical_incidents_clear r \<and> aq_explicit_live_enable r"
  by (simp add: activation_evaluate_def Let_def activation_checks_def)

subsection \<open>The circuit breaker\<close>

datatype circuit_state = CIRCUIT_CLOSED | CIRCUIT_OPEN

record circuit_breaker =
  cb_state :: circuit_state
  cb_reason :: string
  cb_changed_at :: datetime

definition breaker_new :: "datetime \<Rightarrow> circuit_breaker" where
  "breaker_new now = \<lparr>cb_state = CIRCUIT_CLOSED, cb_reason = ''normal operation'', cb_changed_at = now\<rparr>"

definition allows_submission :: "circuit_breaker \<Rightarrow> bool" where
  "allows_submission b \<longleftrightarrow> cb_state b = CIRCUIT_CLOSED"

definition breaker_trip :: "string \<Rightarrow> datetime \<Rightarrow> circuit_breaker \<Rightarrow> circuit_breaker res" where
  "breaker_trip reason now b =
     guard (strip reason = []) (ValueError ''circuit breaker reason is required'')
       (Inr \<lparr>cb_state = CIRCUIT_OPEN, cb_reason = strip reason, cb_changed_at = now\<rparr>)"

definition breaker_reset :: "string \<Rightarrow> datetime \<Rightarrow> circuit_breaker \<Rightarrow> circuit_breaker res" where
  "breaker_reset reason now b =
     guard (strip reason = []) (ValueError ''reset reason is required'')
       (Inr \<lparr>cb_state = CIRCUIT_CLOSED, cb_reason = strip reason, cb_changed_at = now\<rparr>)"

subsection \<open>Incidents\<close>

datatype incident_severity = SEV_INFO | SEV_WARNING | SEV_CRITICAL

datatype incident_state = INC_OPEN | INC_ACKNOWLEDGED | INC_RESOLVED

record incident =
  ic_id :: string
  ic_component :: string
  ic_message :: string
  ic_severity :: incident_severity
  ic_state :: incident_state
  ic_created_at :: datetime
  ic_updated_at :: datetime

type_synonym incidents = "(string, incident) dict"

definition incident_open :: "incident \<Rightarrow> incidents \<Rightarrow> (incidents, unit) sres" where
  "incident_open i d =
     (if dget d (ic_id i) \<noteq> None then (d, Inl (ValueError (''duplicate incident id: '' @ ic_id i)))
      else (dput (ic_id i) i d, Inr ()))"

text \<open>\<^verbatim>\<open>self._incidents[incident_id]\<close> raises when the id is unknown; the incident is changed in place.\<close>

definition incident_move :: "incident_state \<Rightarrow> string \<Rightarrow> datetime \<Rightarrow> incidents \<Rightarrow> (incidents, incident) sres" where
  "incident_move st iid now d =
     (case dget d iid of
        None \<Rightarrow> (d, Inl (KeyError iid))
      | Some i \<Rightarrow> let i' = i\<lparr>ic_state := st, ic_updated_at := now\<rparr> in (dput iid i' d, Inr i'))"

definition incident_acknowledge :: "string \<Rightarrow> datetime \<Rightarrow> incidents \<Rightarrow> (incidents, incident) sres" where
  "incident_acknowledge = incident_move INC_ACKNOWLEDGED"

definition incident_resolve :: "string \<Rightarrow> datetime \<Rightarrow> incidents \<Rightarrow> (incidents, incident) sres" where
  "incident_resolve = incident_move INC_RESOLVED"

definition incidents_active :: "incidents \<Rightarrow> incident list" where
  "incidents_active d = filter (\<lambda>i. ic_state i \<noteq> INC_RESOLVED) (map snd d)"

definition critical_open :: "incidents \<Rightarrow> bool" where
  "critical_open d \<longleftrightarrow> (\<exists>i \<in> set (map snd d). ic_severity i = SEV_CRITICAL \<and> ic_state i \<noteq> INC_RESOLVED)"

subsection \<open>The secondary risk gate\<close>

record live_risk_limits =
  lv_max_risk_score :: rat
  lv_max_position_size :: rat
  lv_allow_execution_states :: "string list"

definition default_live_limits :: live_risk_limits where
  "default_live_limits = \<lparr>lv_max_risk_score = 100, lv_max_position_size = 1000000,
     lv_allow_execution_states = [''APPROVED_FOR_EXECUTION'']\<rparr>"

record live_risk_decision =
  ld_approved :: bool
  ld_reason :: string

definition live_risk_evaluate :: "live_risk_limits \<Rightarrow> approved_risk_package \<Rightarrow> live_risk_decision" where
  "live_risk_evaluate limits p =
     (if \<not> ap_approved p then \<lparr>ld_approved = False, ld_reason = ''core risk package not approved''\<rparr>
      else if ap_state p \<notin> set (lv_allow_execution_states limits)
      then \<lparr>ld_approved = False, ld_reason = ''risk state not executable: '' @ ap_state p\<rparr>
      else if ap_position_size p \<le> 0 then \<lparr>ld_approved = False, ld_reason = ''position size must be positive''\<rparr>
      else if lv_max_position_size limits < ap_position_size p
      then \<lparr>ld_approved = False, ld_reason = ''position size exceeds live limit''\<rparr>
      else if lv_max_risk_score limits < ap_risk_score p
      then \<lparr>ld_approved = False, ld_reason = ''risk score exceeds live limit''\<rparr>
      else \<lparr>ld_approved = True, ld_reason = ''live risk checks passed''\<rparr>)"

lemma live_risk_approved_iff:
  "ld_approved (live_risk_evaluate limits p) \<longleftrightarrow> ap_approved p \<and> ap_state p \<in> set (lv_allow_execution_states limits) \<and>
     0 < ap_position_size p \<and> ap_position_size p \<le> lv_max_position_size limits \<and>
     ap_risk_score p \<le> lv_max_risk_score limits"
  by (auto simp: live_risk_evaluate_def)

subsection \<open>The connector\<close>

record connector_status =
  co_venue :: string
  co_connected :: bool
  co_authenticated :: bool
  co_trading_enabled :: bool
  co_reason :: string

definition connector_ready :: "connector_status \<Rightarrow> bool" where
  "connector_ready s \<longleftrightarrow> co_connected s \<and> co_authenticated s \<and> co_trading_enabled s"

record venue_position =
  vp_symbol :: string
  vp_quantity :: pydec
  vp_entry_price :: pydec
  vp_side :: string

text \<open>The three methods of the abstract connector over its own state.\<close>

record 'c connector =
  ct_status :: "'c \<Rightarrow> connector_status res"
  ct_submit :: "order_request \<Rightarrow> 'c \<Rightarrow> ('c, order_result) sres"
  ct_positions :: "'c \<Rightarrow> venue_position list res"

definition disabled_status :: "string \<Rightarrow> connector_status" where
  "disabled_status venue = \<lparr>co_venue = venue, co_connected = False, co_authenticated = False,
     co_trading_enabled = False, co_reason = ''production connector is disabled''\<rparr>"

definition disabled_connector :: "string \<Rightarrow> 'c connector" where
  "disabled_connector venue = \<lparr>ct_status = (\<lambda>_. Inr (disabled_status venue)),
     ct_submit = (\<lambda>_ c. (c, Inl (RuntimeError ''production connector is disabled''))),
     ct_positions = (\<lambda>_. Inr [])\<rparr>"

subsection \<open>Position synchronization\<close>

record position_mismatch =
  pm_symbol :: string
  pm_field :: string
  pm_local_value :: string
  pm_venue_value :: string

record position_sync_report =
  sy_synchronized :: bool
  sy_mismatches :: "position_mismatch list"

text \<open>
  A local snapshot has the same four fields as a venue position. Both sides are put into dictionaries by upper-case
  symbol, so of several positions in one symbol the last one counts; the fields are compared as text.
\<close>

definition by_upper_symbol :: "venue_position list \<Rightarrow> (string, venue_position) dict" where
  "by_upper_symbol ps = foldl (\<lambda>d p. dput (upper (vp_symbol p)) p d) [] ps"

definition position_fields :: "venue_position \<Rightarrow> (string \<times> string) list" where
  "position_fields p = [(''quantity'', dec_str (vp_quantity p)), (''entry_price'', dec_str (vp_entry_price p)),
     (''side'', vp_side p)]"

definition symbol_mismatches ::
  "(string, venue_position) dict \<Rightarrow> (string, venue_position) dict \<Rightarrow> string \<Rightarrow> position_mismatch list" where
  "symbol_mismatches local venue s =
     (case dget local s of
        None \<Rightarrow> [\<lparr>pm_symbol = s, pm_field = ''presence'', pm_local_value = ''missing'', pm_venue_value = ''present''\<rparr>]
      | Some lp \<Rightarrow>
          (case dget venue s of
             None \<Rightarrow> [\<lparr>pm_symbol = s, pm_field = ''presence'', pm_local_value = ''present'', pm_venue_value = ''missing''\<rparr>]
           | Some vp \<Rightarrow>
               map (\<lambda>((f, lv), (_, vv)). \<lparr>pm_symbol = s, pm_field = f, pm_local_value = lv, pm_venue_value = vv\<rparr>)
                 (filter (\<lambda>((_, lv), (_, vv)). lv \<noteq> vv) (zip (position_fields lp) (position_fields vp)))))"

definition position_reconcile :: "venue_position list \<Rightarrow> venue_position list \<Rightarrow> position_sync_report" where
  "position_reconcile locals venues =
     (let local = by_upper_symbol locals; venue = by_upper_symbol venues;
          ms = concat (map (symbol_mismatches local venue) (sort (fromkeys (map fst local @ map fst venue))))
      in \<lparr>sy_synchronized = (ms = []), sy_mismatches = ms\<rparr>)"

subsection \<open>The execution gateway\<close>

record live_execution_result =
  lx_accepted :: bool
  lx_order_result :: order_result
  lx_gateway_reason :: string
  lx_processed_at :: datetime

record 'c gateway =
  gw_breaker :: circuit_breaker
  gw_submitted :: "string set"
  gw_connector :: 'c

definition gateway_reason ::
  "order_request \<Rightarrow> activation_result \<Rightarrow> bool \<Rightarrow> connector_status \<Rightarrow> 'c gateway \<Rightarrow> string option" where
  "gateway_reason o1 activation risk_approved status g =
     (if \<not> av_active activation then Some (''live activation blocked: '' @ av_reason activation)
      else if \<not> allows_submission (gw_breaker g)
      then Some (''live circuit breaker open: '' @ cb_reason (gw_breaker g))
      else if \<not> risk_approved then Some ''live risk controller rejected order''
      else if \<not> connector_ready status
      then Some (''connector not ready: '' @ (if co_reason status = [] then co_venue status else co_reason status))
      else if or_id o1 \<in> gw_submitted g then Some ''duplicate order id blocked''
      else None)"

definition gateway_submit ::
  "'c connector \<Rightarrow> order_request \<Rightarrow> activation_result \<Rightarrow> bool \<Rightarrow> datetime \<Rightarrow> 'c gateway
    \<Rightarrow> ('c gateway, live_execution_result) sres" where
  "gateway_submit port o1 activation risk_approved now g =
     (case ct_status port (gw_connector g) of
        Inl e \<Rightarrow> (g, Inl e)
      | Inr status \<Rightarrow>
          (case gateway_reason o1 activation risk_approved status g of
             Some reason \<Rightarrow> (g, Inr \<lparr>lx_accepted = False, lx_order_result = reject o1 (Some reason),
               lx_gateway_reason = reason, lx_processed_at = now\<rparr>)
           | None \<Rightarrow>
               (case ct_submit port o1 (gw_connector g) of
                  (c, Inl e) \<Rightarrow> (g\<lparr>gw_connector := c\<rparr>, Inl e)
                | (c, Inr r) \<Rightarrow>
                    (g\<lparr>gw_connector := c,
                       gw_submitted := (if ot_status r \<in> {ORD_ACCEPTED, ORD_FILLED, ORD_PENDING}
                         then insert (or_id o1) (gw_submitted g) else gw_submitted g)\<rparr>,
                     Inr \<lparr>lx_accepted = (ot_status r \<noteq> ORD_REJECTED), lx_order_result = r,
                       lx_gateway_reason = (case ot_reason r of None \<Rightarrow> ''submitted to production connector''
                         | Some s \<Rightarrow> if s = [] then ''submitted to production connector'' else s),
                       lx_processed_at = now\<rparr>))))"

subsection \<open>Monitoring and the dashboard\<close>

record 'v live_metric =
  lm_name :: string
  lm_value :: 'v
  lm_unit :: string
  lm_recorded_at :: datetime

record 'v live_monitor =
  mo_status :: string
  mo_metrics :: "'v live_metric list"

definition monitor_new :: "'v live_monitor" where
  "monitor_new = \<lparr>mo_status = ''IDLE'', mo_metrics = []\<rparr>"

definition set_status :: "string \<Rightarrow> 'v live_monitor \<Rightarrow> 'v live_monitor" where
  "set_status s m = m\<lparr>mo_status := upper s\<rparr>"

definition record_metric :: "string \<Rightarrow> 'v \<Rightarrow> string \<Rightarrow> datetime \<Rightarrow> 'v live_monitor \<Rightarrow> 'v live_monitor \<times> 'v live_metric" where
  "record_metric name v unit now m =
     (let x = \<lparr>lm_name = name, lm_value = v, lm_unit = unit, lm_recorded_at = now\<rparr>
      in (m\<lparr>mo_metrics := mo_metrics m @ [x]\<rparr>, x))"

record operations_snapshot =
  op_live_status :: string
  op_metric_count :: nat
  op_active_incidents :: nat
  op_critical_incident_open :: bool
  op_captured_at :: datetime

definition dashboard_snapshot :: "'v live_monitor \<Rightarrow> incidents \<Rightarrow> datetime \<Rightarrow> operations_snapshot" where
  "dashboard_snapshot m d now = \<lparr>op_live_status = mo_status m, op_metric_count = length (mo_metrics m),
     op_active_incidents = length (incidents_active d), op_critical_incident_open = critical_open d,
     op_captured_at = now\<rparr>"

subsection \<open>The runtime\<close>

record ('c, 'v) live_runtime =
  lr_gateway :: "'c gateway"
  lr_incidents :: incidents
  lr_monitor :: "'v live_monitor"

record runtime_readiness =
  rn_activation :: activation_result
  rn_position_sync :: position_sync_report

definition evaluate_readiness ::
  "'c connector \<Rightarrow> venue_position list res \<Rightarrow> string \<Rightarrow> bool \<Rightarrow> bool \<Rightarrow> bool \<Rightarrow> bool \<Rightarrow> datetime
    \<Rightarrow> ('c, 'v) live_runtime \<Rightarrow> (('c, 'v) live_runtime, runtime_readiness) sres" where
  "evaluate_readiness port locals environment go_live risk_ready health_ready enable now s =
     (case res_bind locals (\<lambda>ls. res_bind (ct_positions port (gw_connector (lr_gateway s))) (\<lambda>vs.
             Inr (position_reconcile ls vs))) of
        Inl e \<Rightarrow> (s, Inl e)
      | Inr sync \<Rightarrow>
          (case ct_status port (gw_connector (lr_gateway s)) of
             Inl e \<Rightarrow> (s, Inl e)
           | Inr status \<Rightarrow>
               let activation = activation_evaluate \<lparr>aq_environment = environment, aq_go_live_approved = go_live,
                     aq_risk_controls_ready = risk_ready, aq_health_ready = health_ready,
                     aq_connector_ready = connector_ready status,
                     aq_positions_synchronized = sy_synchronized sync,
                     aq_critical_incidents_clear = (\<not> critical_open (lr_incidents s)),
                     aq_explicit_live_enable = enable\<rparr> now
               in (s\<lparr>lr_monitor := set_status (if av_active activation then ''READY'' else ''BLOCKED'') (lr_monitor s)\<rparr>,
                   Inr \<lparr>rn_activation = activation, rn_position_sync = sync\<rparr>)))"

definition runtime_submit ::
  "'c connector \<Rightarrow> live_risk_limits \<Rightarrow> order_request \<Rightarrow> approved_risk_package \<Rightarrow> runtime_readiness \<Rightarrow> datetime
    \<Rightarrow> ('c, 'v) live_runtime \<Rightarrow> (('c, 'v) live_runtime, live_risk_decision \<times> live_execution_result) sres" where
  "runtime_submit port limits o1 package readiness now s =
     (let d = live_risk_evaluate limits package in
      case gateway_submit port o1 (rn_activation readiness) (ld_approved d) now (lr_gateway s) of
        (g, Inl e) \<Rightarrow> (s\<lparr>lr_gateway := g\<rparr>, Inl e)
      | (g, Inr x) \<Rightarrow> (s\<lparr>lr_gateway := g\<rparr>, Inr (d, x)))"

subsection \<open>The gateway fails closed\<close>

definition gates_open ::
  "order_request \<Rightarrow> activation_result \<Rightarrow> bool \<Rightarrow> connector_status \<Rightarrow> 'c gateway \<Rightarrow> bool" where
  "gates_open o1 activation risk_approved status g \<longleftrightarrow> av_active activation \<and> cb_state (gw_breaker g) = CIRCUIT_CLOSED \<and>
     risk_approved \<and> connector_ready status \<and> or_id o1 \<notin> gw_submitted g"

lemma gateway_reason_None: "gateway_reason o1 a ra status g = None \<longleftrightarrow> gates_open o1 a ra status g"
  by (auto simp: gateway_reason_def gates_open_def allows_submission_def)

lemma gateway_closed:
  assumes "ct_status port (gw_connector g) = Inr status" "\<not> gates_open o1 a ra status g"
  obtains x where "gateway_submit port o1 a ra now g = (g, Inr x)" "\<not> lx_accepted x"
    "ot_status (lx_order_result x) = ORD_REJECTED"
proof -
  obtain reason where "gateway_reason o1 a ra status g = Some reason"
    using assms(2) gateway_reason_None [of o1 a ra status g] by (cases "gateway_reason o1 a ra status g") auto
  then have "gateway_submit port o1 a ra now g = (g, Inr \<lparr>lx_accepted = False,
      lx_order_result = reject o1 (Some reason), lx_gateway_reason = reason, lx_processed_at = now\<rparr>)"
    using assms(1) by (simp add: gateway_submit_def)
  then show thesis by (rule that) simp_all
qed

text \<open>What left the gateway or was accepted by it had every gate open.\<close>

lemma gateway_passed:
  assumes "gateway_submit port o1 a ra now g = (g', x)" "g' \<noteq> g \<or> (\<exists>y. x = Inr y \<and> lx_accepted y)"
  obtains status where "ct_status port (gw_connector g) = Inr status" "gates_open o1 a ra status g"
proof (cases "ct_status port (gw_connector g)")
  case (Inl e)
  then show thesis using assms by (auto simp: gateway_submit_def)
next
  case (Inr status)
  show thesis
  proof (cases "gates_open o1 a ra status g")
    case True
    then show thesis using that Inr by blast
  next
    case False
    from gateway_closed [OF Inr False, of now] show thesis using assms by auto
  qed
qed

definition placed_status :: "order_status \<Rightarrow> bool" where
  "placed_status s \<longleftrightarrow> s \<in> {ORD_ACCEPTED, ORD_FILLED, ORD_PENDING}"

lemma gateway_open:
  assumes "ct_status port (gw_connector g) = Inr st" "gates_open o1 a ra st g"
    and "ct_submit port o1 (gw_connector g) = (c, r)"
  shows "fst (gateway_submit port o1 a ra now g) = g\<lparr>gw_connector := c, gw_submitted :=
      (case r of Inr y \<Rightarrow> if placed_status (ot_status y) then insert (or_id o1) (gw_submitted g) else gw_submitted g
       | Inl e \<Rightarrow> gw_submitted g)\<rparr>"
    and "case r of Inl e \<Rightarrow> snd (gateway_submit port o1 a ra now g) = Inl e
       | Inr y \<Rightarrow> \<exists>z. snd (gateway_submit port o1 a ra now g) = Inr z \<and> lx_order_result z = y"
proof -
  have n: "gateway_reason o1 a ra st g = None" using assms(2) by (simp add: gateway_reason_None)
  show "fst (gateway_submit port o1 a ra now g) = g\<lparr>gw_connector := c, gw_submitted :=
      (case r of Inr y \<Rightarrow> if placed_status (ot_status y) then insert (or_id o1) (gw_submitted g) else gw_submitted g
       | Inl e \<Rightarrow> gw_submitted g)\<rparr>"
    using assms(1,3) n by (cases r) (simp_all add: gateway_submit_def placed_status_def)
  show "case r of Inl e \<Rightarrow> snd (gateway_submit port o1 a ra now g) = Inl e
       | Inr y \<Rightarrow> \<exists>z. snd (gateway_submit port o1 a ra now g) = Inr z \<and> lx_order_result z = y"
    using assms(1,3) n by (cases r) (simp_all add: gateway_submit_def)
qed

definition placed :: "order_request \<Rightarrow> live_execution_result res \<Rightarrow> string list" where
  "placed o1 x = (case x of Inl e \<Rightarrow> [] | Inr y \<Rightarrow> if placed_status (ot_status (lx_order_result y)) then [or_id o1] else [])"

lemma gateway_submitted:
  assumes "gateway_submit port o1 a ra now g = (g', x)"
  shows "gw_submitted g' = gw_submitted g \<union> set (placed o1 x)" "set (placed o1 x) \<inter> gw_submitted g = {}"
    "gw_breaker g' = gw_breaker g"
proof -
  consider (err) e where "ct_status port (gw_connector g) = Inl e"
    | (closed) st where "ct_status port (gw_connector g) = Inr st" "\<not> gates_open o1 a ra st g"
    | (passed) st where "ct_status port (gw_connector g) = Inr st" "gates_open o1 a ra st g"
    by (cases "ct_status port (gw_connector g)") auto
  then have "gw_submitted g' = gw_submitted g \<union> set (placed o1 x) \<and> set (placed o1 x) \<inter> gw_submitted g = {} \<and>
    gw_breaker g' = gw_breaker g"
  proof cases
    case err
    then have "g' = g" "x = Inl e" using assms by (simp_all add: gateway_submit_def)
    then show ?thesis by (simp add: placed_def)
  next
    case closed
    from gateway_closed [OF closed, of now] obtain y where "g' = g" "x = Inr y" "ot_status (lx_order_result y) = ORD_REJECTED"
      using assms by (metis prod.inject)
    then show ?thesis by (simp add: placed_status_def placed_def)
  next
    case passed
    obtain c r where s: "ct_submit port o1 (gw_connector g) = (c, r)" by (cases "ct_submit port o1 (gw_connector g)")
    note op = gateway_open [OF passed s, of now, unfolded assms fst_conv snd_conv]
    have new: "or_id o1 \<notin> gw_submitted g" using passed(2) by (simp add: gates_open_def)
    show ?thesis
    proof (cases r)
      case (Inl e)
      then have "x = Inl e" using op(2) by simp
      then show ?thesis unfolding op(1) Inl by (simp add: placed_def)
    next
      case (Inr y)
      then obtain z where "x = Inr z" "lx_order_result z = y" using op(2) by auto
      then show ?thesis using new unfolding op(1) Inr by (simp add: placed_def)
    qed
  qed
  then show "gw_submitted g' = gw_submitted g \<union> set (placed o1 x)" "set (placed o1 x) \<inter> gw_submitted g = {}"
    "gw_breaker g' = gw_breaker g" by blast+
qed

text \<open>A session at the gateway: submissions, trips and resets in any order. The log holds the ids that were placed.\<close>

datatype gateway_op =
    GSubmit order_request activation_result bool datetime
  | GTrip string datetime
  | GReset string datetime

fun gateway_op_run :: "'c connector \<Rightarrow> gateway_op \<Rightarrow> 'c gateway \<Rightarrow> 'c gateway \<times> string list" where
  "gateway_op_run port (GSubmit o1 a ra now) g =
     (case gateway_submit port o1 a ra now g of (g', x) \<Rightarrow> (g', placed o1 x))"
| "gateway_op_run port (GTrip reason now) g =
     (case breaker_trip reason now (gw_breaker g) of Inl e \<Rightarrow> (g, []) | Inr b \<Rightarrow> (g\<lparr>gw_breaker := b\<rparr>, []))"
| "gateway_op_run port (GReset reason now) g =
     (case breaker_reset reason now (gw_breaker g) of Inl e \<Rightarrow> (g, []) | Inr b \<Rightarrow> (g\<lparr>gw_breaker := b\<rparr>, []))"

fun gateway_run :: "'c connector \<Rightarrow> gateway_op list \<Rightarrow> 'c gateway \<Rightarrow> 'c gateway \<times> string list" where
  "gateway_run port [] g = (g, [])"
| "gateway_run port (x # xs) g =
     (case gateway_op_run port x g of (g1, l1) \<Rightarrow> case gateway_run port xs g1 of (g2, l2) \<Rightarrow> (g2, l1 @ l2))"

lemma gateway_op_placed:
  assumes "gateway_op_run port x g = (g', l)"
  shows "distinct l \<and> set l \<inter> gw_submitted g = {} \<and> gw_submitted g' = gw_submitted g \<union> set l"
proof (cases x)
  case (GSubmit o1 a ra now)
  obtain g1 y where s: "gateway_submit port o1 a ra now g = (g1, y)"
    by (cases "gateway_submit port o1 a ra now g")
  have "distinct (placed o1 y)" by (simp add: placed_def split: sum.split)
  then show ?thesis using assms GSubmit gateway_submitted(1,2) [OF s] by (simp add: s)
next
  case (GTrip reason now)
  then show ?thesis using assms by (cases "breaker_trip reason now (gw_breaker g)") auto
next
  case (GReset reason now)
  then show ?thesis using assms by (cases "breaker_reset reason now (gw_breaker g)") auto
qed

lemma gateway_run_placed:
  "gateway_run port xs g = (g', l) \<Longrightarrow>
   distinct l \<and> set l \<inter> gw_submitted g = {} \<and> gw_submitted g' = gw_submitted g \<union> set l"
proof (induction xs arbitrary: g l)
  case (Cons x xs)
  obtain g1 l1 where s1: "gateway_op_run port x g = (g1, l1)" by (cases "gateway_op_run port x g")
  obtain g2 l2 where s2: "gateway_run port xs g1 = (g2, l2)" by (cases "gateway_run port xs g1")
  have eq: "l = l1 @ l2" "g' = g2" using Cons.prems s1 s2 by simp_all
  show ?case using gateway_op_placed [OF s1] Cons.IH [OF s2 [folded eq(2)]] unfolding eq(1) by auto
qed simp

text \<open>
  When the connector raises after it was called, a timeout for instance, the id is not kept: the same order passes the
  gateway again.
\<close>

lemma gateway_retry_passes:
  assumes "ct_status port (gw_connector g) = Inr status" "gates_open o1 a ra status g"
    and "ct_submit port o1 (gw_connector g) = (c, Inl e)"
    and "ct_status port c = Inr status2" "connector_ready status2"
  shows "\<exists>g'. gateway_submit port o1 a ra now g = (g', Inl e) \<and> gw_connector g' = c \<and> gates_open o1 a ra status2 g'"
proof -
  have "gateway_reason o1 a ra status g = None" using assms(2) by (simp add: gateway_reason_None)
  then have "gateway_submit port o1 a ra now g = (g\<lparr>gw_connector := c\<rparr>, Inl e)"
    using assms(1,3) by (simp add: gateway_submit_def)
  then show ?thesis using assms(2,5) by (auto simp: gates_open_def)
qed

subsection \<open>Synchronization, incidents and readiness\<close>

lemma by_upper_symbol_get:
  "dget (by_upper_symbol ps) s = find (\<lambda>p. upper (vp_symbol p) = s) (rev ps)"
proof -
  have "dget (foldl (\<lambda>d p. dput (upper (vp_symbol p)) p d) d ps) s =
      (case find (\<lambda>p. upper (vp_symbol p) = s) (rev ps) of Some p \<Rightarrow> Some p | None \<Rightarrow> dget d s)" for d
  proof (induction ps rule: rev_induct)
    case (snoc p ps)
    then show ?case by simp
  qed simp
  then show ?thesis by (simp add: by_upper_symbol_def split: option.split)
qed

lemma symbol_mismatches_Nil:
  "symbol_mismatches local venue s = [] \<longleftrightarrow>
     (\<exists>lp vp. dget local s = Some lp \<and> dget venue s = Some vp \<and> position_fields lp = position_fields vp)"
  by (cases "dget local s"; cases "dget venue s") (auto simp: symbol_mismatches_def position_fields_def)

text \<open>The two sides agree exactly when they hold the same symbols with fields that read the same.\<close>

lemma synchronized_iff:
  "sy_synchronized (position_reconcile ls vs) \<longleftrightarrow>
     (\<forall>s. map_option position_fields (dget (by_upper_symbol ls) s) = map_option position_fields (dget (by_upper_symbol vs) s))"
proof -
  let ?l = "by_upper_symbol ls" and ?v = "by_upper_symbol vs"
  have dom: "s \<in> set (map fst d) \<longleftrightarrow> dget d s \<noteq> None" for s and d :: "(string, venue_position) dict"
    by (simp add: map_of_eq_None_iff)
  have "sy_synchronized (position_reconcile ls vs) \<longleftrightarrow>
      (\<forall>s \<in> set (map fst ?l) \<union> set (map fst ?v). symbol_mismatches ?l ?v s = [])"
    by (auto simp: position_reconcile_def Let_def)
  also have "\<dots> \<longleftrightarrow> (\<forall>s. map_option position_fields (dget ?l s) = map_option position_fields (dget ?v s))"
  proof -
    have "(s \<in> set (map fst ?l) \<union> set (map fst ?v) \<longrightarrow> symbol_mismatches ?l ?v s = []) \<longleftrightarrow>
        map_option position_fields (dget ?l s) = map_option position_fields (dget ?v s)" for s
      unfolding symbol_mismatches_Nil Un_iff dom by (cases "dget ?l s"; cases "dget ?v s") auto
    then show ?thesis unfolding Ball_def by (rule all_cong1)
  qed
  finally show ?thesis .
qed

lemma fields_value:
  assumes "position_fields p = position_fields q"
  shows "dec_value (vp_quantity p) = dec_value (vp_quantity q)" "dec_value (vp_entry_price p) = dec_value (vp_entry_price q)"
    "vp_side p = vp_side q"
proof -
  have "parse_decimal (dec_str (vp_quantity p)) = parse_decimal (dec_str (vp_quantity q))"
    "parse_decimal (dec_str (vp_entry_price p)) = parse_decimal (dec_str (vp_entry_price q))"
    using assms by (simp_all add: position_fields_def)
  then show "dec_value (vp_quantity p) = dec_value (vp_quantity q)"
    "dec_value (vp_entry_price p) = dec_value (vp_entry_price q)" unfolding parse_dec_str by simp_all
  show "vp_side p = vp_side q" using assms by (simp add: position_fields_def)
qed

definition incidents_ok :: "incidents \<Rightarrow> bool" where
  "incidents_ok d \<longleftrightarrow> dict_ok d \<and> (\<forall>k i. dget d k = Some i \<longrightarrow> ic_id i = k)"

lemma critical_open_iff:
  "critical_open d \<longleftrightarrow> (\<exists>i \<in> set (incidents_active d). ic_severity i = SEV_CRITICAL)"
  by (auto simp: critical_open_def incidents_active_def)

text \<open>A resolved critical incident that is acknowledged afterwards is open again.\<close>

lemma acknowledge_reopens:
  assumes "incident_resolve k t1 d = (d1, Inr i)" "ic_severity i = SEV_CRITICAL"
  shows "critical_open (fst (incident_acknowledge k t2 d1))"
proof -
  obtain i0 where d1: "d1 = dput k i d" "i = i0\<lparr>ic_state := INC_RESOLVED, ic_updated_at := t1\<rparr>"
    using assms(1) by (auto simp: incident_resolve_def incident_move_def Let_def split: option.splits)
  define j where "j = i\<lparr>ic_state := INC_ACKNOWLEDGED, ic_updated_at := t2\<rparr>"
  have e: "fst (incident_acknowledge k t2 d1) = dput k j d1"
    by (simp add: incident_acknowledge_def incident_move_def d1(1) j_def Let_def)
  have "dget (dput k j d1) k = Some j" by simp
  then have "j \<in> set (map snd (dput k j d1))" by (rule dget_in_values)
  moreover have "ic_severity j = SEV_CRITICAL" "ic_state j \<noteq> INC_RESOLVED" using assms(2) by (simp_all add: j_def)
  ultimately show ?thesis unfolding critical_open_def e by blast
qed

lemma evaluate_readiness_Inr:
  assumes "evaluate_readiness port locals env go rr hr en now s = (s', Inr r)"
  obtains ls vs status where "locals = Inr ls" "ct_positions port (gw_connector (lr_gateway s)) = Inr vs"
    "ct_status port (gw_connector (lr_gateway s)) = Inr status" "rn_position_sync r = position_reconcile ls vs"
    "av_active (rn_activation r) \<longleftrightarrow> lower env = ''production'' \<and> go \<and> rr \<and> hr \<and> connector_ready status \<and>
       sy_synchronized (position_reconcile ls vs) \<and> \<not> critical_open (lr_incidents s) \<and> en"
    "lr_gateway s' = lr_gateway s" "lr_incidents s' = lr_incidents s"
proof -
  obtain ls vs where l: "locals = Inr ls" "ct_positions port (gw_connector (lr_gateway s)) = Inr vs"
    using assms by (cases locals; cases "ct_positions port (gw_connector (lr_gateway s))") (auto simp: evaluate_readiness_def)
  obtain status where st: "ct_status port (gw_connector (lr_gateway s)) = Inr status"
    using assms l by (cases "ct_status port (gw_connector (lr_gateway s))") (auto simp: evaluate_readiness_def)
  note eq = assms [unfolded evaluate_readiness_def l res_bind_simps sum.case st Let_def]
  show thesis using eq by (intro that [OF l st]) (auto simp: activation_active_iff)
qed

text \<open>What the runtime accepts has passed the secondary risk gate and an active readiness, and the circuit is closed.\<close>

lemma runtime_submit_accepted:
  assumes "runtime_submit port limits o1 package readiness now s = (s', Inr (d, x))" "lx_accepted x"
  obtains status where "ct_status port (gw_connector (lr_gateway s)) = Inr status"
    "gates_open o1 (rn_activation readiness) True status (lr_gateway s)"
    "ld_approved (live_risk_evaluate limits package)"
proof -
  obtain g' where g: "gateway_submit port o1 (rn_activation readiness) (ld_approved (live_risk_evaluate limits package)) now
      (lr_gateway s) = (g', Inr x)"
    using assms(1) by (auto simp: runtime_submit_def Let_def split: prod.splits sum.splits)
  from gateway_passed [OF g] assms(2) obtain status where
    "ct_status port (gw_connector (lr_gateway s)) = Inr status"
    "gates_open o1 (rn_activation readiness) (ld_approved (live_risk_evaluate limits package)) status (lr_gateway s)"
    by blast
  then show thesis using that by (auto simp: gates_open_def)
qed

end
