(* ===== verification/Market_Stream.thy ===== *)
theory Market_Stream
  imports Decimal_Text
begin

section \<open>Market data streams and candle building\<close>

text \<open>
  \<^verbatim>\<open>app/data/streaming.py\<close> and \<^verbatim>\<open>app/data/candle_builder.py\<close>: the events of a trade stream and of a candle stream, the
  two ingestors that drop invalid, repeated and out-of-order events, and the builder that aggregates trades into candles.
  A handler works on a state of its own and may raise. \<^verbatim>\<open>int(timestamp.timestamp())\<close> is exact for instants below
  \<open>2 ^ 53\<close> microseconds (the year 2255); later instants, whose float seconds are rounded, are not modelled.
\<close>

subsection \<open>Timeframes\<close>

text \<open>\<^verbatim>\<open>int(text)\<close>: white space around, a sign, digits with single underscores between them.\<close>

fun strip_underscores :: "string \<Rightarrow> string option" where
  "strip_underscores [] = None"
| "strip_underscores [c] = (if is_digit c then Some [c] else None)"
| "strip_underscores (c # d # s) =
     (if \<not> is_digit c then None
      else if d = CHR ''_'' then map_option ((#) c) (strip_underscores s)
      else map_option ((#) c) (strip_underscores (d # s)))"

definition py_int :: "string \<Rightarrow> int option" where
  "py_int s = (case split_sign (strip s) of (sig, body) \<Rightarrow>
     map_option (\<lambda>ds. sig * digits_value ds) (strip_underscores body))"

definition unit_seconds :: "char \<Rightarrow> int option" where
  "unit_seconds c = (if c = CHR ''m'' then Some 60 else if c = CHR ''h'' then Some 3600
     else if c = CHR ''d'' then Some 86400 else None)"

definition timeframe_seconds :: "string \<Rightarrow> int res" where
  "timeframe_seconds tf =
     (if length tf < 2 then Inl (ValueError (''invalid timeframe: '' @ tf))
      else let u = lower_char (last tf) in
        case py_int (butlast tf) of
          None \<Rightarrow> Inl (ValueError (''invalid timeframe: '' @ tf))
        | Some v \<Rightarrow>
            if v \<le> 0 then Inl (ValueError ''timeframe value must be positive'')
            else (case unit_seconds u of
                None \<Rightarrow> Inl (ValueError (''unsupported timeframe unit: '' @ [u]))
              | Some m \<Rightarrow> Inr (v * m)))"

lemma timeframe_seconds_pos: "timeframe_seconds tf = Inr s \<Longrightarrow> 60 \<le> s"
  by (auto simp: timeframe_seconds_def Let_def unit_seconds_def split: if_splits option.splits)

subsection \<open>Events\<close>

record trade_event =
  te_provider :: string
  te_symbol :: string
  te_event_id :: string
  te_sequence :: int
  te_price :: rat
  te_quantity :: rat
  te_timestamp :: datetime

definition trade_validate :: "trade_event \<Rightarrow> unit res" where
  "trade_validate e =
     guard (te_provider e = [] \<or> te_symbol e = [] \<or> te_event_id e = [])
       (ValueError ''trade event identifiers cannot be empty'')
    (guard (te_sequence e < 0) (ValueError ''trade event sequence cannot be negative'')
    (guard (te_price e \<le> 0) (ValueError ''trade event price must be positive'')
    (guard (te_quantity e < 0) (ValueError ''trade event quantity cannot be negative'')
    (guard (\<not> is_aware (te_timestamp e)) (ValueError ''trade event timestamp must be timezone-aware'')
      (Inr ())))))"

record candle_event =
  ce_provider :: string
  ce_event_id :: string
  ce_sequence :: int
  ce_candle :: candle
  ce_received_at :: datetime
  ce_server_time_ms :: "int option"

definition candle_event_validate :: "candle_event \<Rightarrow> unit res" where
  "candle_event_validate e =
     guard (ce_provider e = [] \<or> ce_event_id e = []) (ValueError ''candle event identifiers cannot be empty'')
    (guard (ce_sequence e < 0) (ValueError ''candle event sequence cannot be negative'')
    (guard (\<not> is_aware (ce_received_at e)) (ValueError ''candle event received_at must be timezone-aware'')
    (guard (\<not> is_aware (cd_timestamp (ce_candle e))) (ValueError ''candle timestamp must be timezone-aware'')
    (guard (cd_open (ce_candle e) \<le> 0 \<or> cd_high (ce_candle e) \<le> 0) (ValueError ''candle prices must be positive'')
    (guard (cd_low (ce_candle e) \<le> 0 \<or> cd_close (ce_candle e) \<le> 0) (ValueError ''candle prices must be positive'')
    (guard (cd_high (ce_candle e) < cd_low (ce_candle e)) (ValueError ''candle low cannot exceed high'')
    (guard (cd_volume (ce_candle e) < 0) (ValueError ''candle volume cannot be negative'')
    (guard (opt_holds (\<lambda>t. t \<le> 0) (ce_server_time_ms e)) (ValueError ''server_time_ms must be positive when provided'')
      (Inr ())))))))))"

subsection \<open>Ingestion\<close>

record 'k ingest_state =
  ig_seen :: "(string \<times> string) set"
  ig_last :: "('k, int) dict"
  ig_accepted :: nat
  ig_duplicates :: nat
  ig_out_of_order :: nat
  ig_invalid :: nat

definition ingest_new :: "'k ingest_state" where
  "ingest_new = \<lparr>ig_seen = {}, ig_last = [], ig_accepted = 0, ig_duplicates = 0, ig_out_of_order = 0, ig_invalid = 0\<rparr>"

text \<open>
  The steps the two ingestors share, over the validity of an event, its key, the key of its sequence and its number. The
  handler is called before anything is recorded, so an event whose handler raises is not marked as seen.
\<close>

definition ingest_with ::
  "('e \<Rightarrow> unit res) \<Rightarrow> ('e \<Rightarrow> string \<times> string) \<Rightarrow> ('e \<Rightarrow> 'k) \<Rightarrow> ('e \<Rightarrow> int) \<Rightarrow> ('e \<Rightarrow> 'h \<Rightarrow> ('h, unit) sres) \<Rightarrow> 'e
    \<Rightarrow> 'k ingest_state \<times> 'h \<Rightarrow> ('k ingest_state \<times> 'h, bool) sres" where
  "ingest_with valid event_key sequence_key sequence handler e s =
     (case s of (g, h) \<Rightarrow>
      if valid e \<noteq> Inr () then ((g\<lparr>ig_invalid := ig_invalid g + 1\<rparr>, h), Inr False)
      else if event_key e \<in> ig_seen g then ((g\<lparr>ig_duplicates := ig_duplicates g + 1\<rparr>, h), Inr False)
      else if opt_holds (\<lambda>p. sequence e \<le> p) (dget (ig_last g) (sequence_key e))
      then ((g\<lparr>ig_out_of_order := ig_out_of_order g + 1\<rparr>, h), Inr False)
      else (case handler e h of
          (h', Inl x) \<Rightarrow> ((g, h'), Inl x)
        | (h', Inr u) \<Rightarrow>
            ((g\<lparr>ig_seen := insert (event_key e) (ig_seen g), ig_last := dput (sequence_key e) (sequence e) (ig_last g),
                ig_accepted := ig_accepted g + 1\<rparr>, h'), Inr True)))"

definition trade_ingest ::
  "(trade_event \<Rightarrow> 'h \<Rightarrow> ('h, unit) sres) \<Rightarrow> trade_event \<Rightarrow> (string \<times> string) ingest_state \<times> 'h
    \<Rightarrow> ((string \<times> string) ingest_state \<times> 'h, bool) sres" where
  "trade_ingest = ingest_with trade_validate (\<lambda>e. (lower (te_provider e), te_event_id e))
     (\<lambda>e. (lower (te_provider e), upper (te_symbol e))) te_sequence"

definition candle_ingest ::
  "(candle_event \<Rightarrow> 'h \<Rightarrow> ('h, unit) sres) \<Rightarrow> candle_event \<Rightarrow> (string \<times> string \<times> string) ingest_state \<times> 'h
    \<Rightarrow> ((string \<times> string \<times> string) ingest_state \<times> 'h, bool) sres" where
  "candle_ingest = ingest_with candle_event_validate (\<lambda>e. (lower (ce_provider e), ce_event_id e))
     (\<lambda>e. (lower (ce_provider e), upper (cd_symbol (ce_candle e)), cd_timeframe (ce_candle e))) ce_sequence"

subsection \<open>The candle builder\<close>

record candle_builder =
  bu_timeframe :: string
  bu_seconds :: int
  bu_current :: "(string, candle) dict"

definition builder_new :: "string \<Rightarrow> candle_builder res" where
  "builder_new tf = res_bind (timeframe_seconds tf) (\<lambda>s. Inr \<lparr>bu_timeframe = tf, bu_seconds = s, bu_current = []\<rparr>)"

text \<open>Seconds since the epoch, truncated towards zero as \<^verbatim>\<open>int\<close> does.\<close>

definition epoch_seconds :: "datetime \<Rightarrow> int" where
  "epoch_seconds t = (if 0 \<le> instant t then instant t div 10 ^ 6 else - ((- instant t) div 10 ^ 6))"

definition bucket_start :: "datetime \<Rightarrow> int \<Rightarrow> datetime res" where
  "bucket_start t seconds =
     guard (\<not> is_aware t) (ValueError ''timestamp must be timezone-aware'')
       (Inr (Aware ((epoch_seconds t - epoch_seconds t mod seconds) * 10 ^ 6)))"

definition new_candle :: "candle_builder \<Rightarrow> string \<Rightarrow> datetime \<Rightarrow> trade_event \<Rightarrow> candle" where
  "new_candle b symbol bucket e = \<lparr>cd_symbol = symbol, cd_timeframe = bu_timeframe b, cd_timestamp = bucket,
     cd_open = te_price e, cd_high = te_price e, cd_low = te_price e, cd_close = te_price e, cd_volume = te_quantity e\<rparr>"

definition extend_candle :: "candle_builder \<Rightarrow> string \<Rightarrow> trade_event \<Rightarrow> candle \<Rightarrow> candle" where
  "extend_candle b symbol e c = \<lparr>cd_symbol = symbol, cd_timeframe = bu_timeframe b, cd_timestamp = cd_timestamp c,
     cd_open = cd_open c, cd_high = max (cd_high c) (te_price e), cd_low = min (cd_low c) (te_price e),
     cd_close = te_price e, cd_volume = dadd (cd_volume c) (te_quantity e)\<rparr>"

definition add_trade :: "trade_event \<Rightarrow> candle_builder \<Rightarrow> (candle_builder, candle option) sres" where
  "add_trade e b =
     (case res_bind (trade_validate e) (\<lambda>_. bucket_start (te_timestamp e) (bu_seconds b)) of
        Inl x \<Rightarrow> (b, Inl x)
      | Inr bucket \<Rightarrow>
          let symbol = upper (te_symbol e);
              put = (\<lambda>c. b\<lparr>bu_current := dput symbol c (bu_current b)\<rparr>) in
          (case dget (bu_current b) symbol of
             None \<Rightarrow> (put (new_candle b symbol bucket e), Inr None)
           | Some current \<Rightarrow>
               if instant bucket < instant (cd_timestamp current)
               then (b, Inl (ValueError ''trade event belongs to an already closed candle''))
               else if bucket = cd_timestamp current then (put (extend_candle b symbol e current), Inr None)
               else (put (new_candle b symbol bucket e), Inr (Some current))))"

definition builder_current :: "string \<Rightarrow> candle_builder \<Rightarrow> candle option" where
  "builder_current s b = dget (bu_current b) (upper s)"

definition builder_flush :: "string \<Rightarrow> candle_builder \<Rightarrow> candle_builder \<times> candle option" where
  "builder_flush s b = (b\<lparr>bu_current := dpop (upper s) (bu_current b)\<rparr>, dget (bu_current b) (upper s))"

subsection \<open>What an ingestor lets through\<close>

locale ingestor =
  fixes valid :: "'e \<Rightarrow> unit res" and event_key :: "'e \<Rightarrow> string \<times> string"
    and sequence_key :: "'e \<Rightarrow> 'k" and sequence :: "'e \<Rightarrow> int"
    and step :: "('e \<Rightarrow> 'h \<Rightarrow> ('h, unit) sres) \<Rightarrow> 'e \<Rightarrow> 'k ingest_state \<times> 'h \<Rightarrow> ('k ingest_state \<times> 'h, bool) sres"
    and run :: "('e \<Rightarrow> 'h \<Rightarrow> ('h, unit) sres) \<Rightarrow> 'e list \<Rightarrow> 'k ingest_state \<times> 'h \<Rightarrow> ('k ingest_state \<times> 'h) \<times> 'e list"
  assumes step_with: "step = ingest_with valid event_key sequence_key sequence"
    and run_Nil: "run handler [] s = (s, [])"
    and run_Cons: "run handler (e # es) s =
      (case step handler e s of (s1, r) \<Rightarrow>
       case run handler es s1 of (s2, acc) \<Rightarrow> (s2, if r = Inr True then e # acc else acc))"
begin

lemma step_accepted:
  assumes "step handler e (g, h) = ((g', h'), Inr True)"
  shows "valid e = Inr ()" "event_key e \<notin> ig_seen g" "\<not> opt_holds (\<lambda>p. sequence e \<le> p) (dget (ig_last g) (sequence_key e))"
    "ig_seen g' = insert (event_key e) (ig_seen g)" "ig_last g' = dput (sequence_key e) (sequence e) (ig_last g)"
    "handler e h = (h', Inr ())"
  using assms unfolding step_with ingest_with_def prod.case
  by (auto split: if_splits sum.splits prod.splits)

lemma step_refused:
  assumes "step handler e (g, h) = ((g', h'), r)" "r \<noteq> Inr True"
  shows "ig_seen g' = ig_seen g" "ig_last g' = ig_last g"
  using assms unfolding step_with ingest_with_def prod.case
  by (auto split: if_splits sum.splits prod.splits)

text \<open>
  Of any events in any order the accepted ones are valid, have distinct keys, and carry strictly increasing numbers in
  each sequence.
\<close>

lemma accepted_events:
  "run handler es (g, h) = (s', acc) \<Longrightarrow>
   (\<forall>e \<in> set acc. valid e = Inr () \<and> event_key e \<notin> ig_seen g \<and>
      \<not> opt_holds (\<lambda>p. sequence e \<le> p) (dget (ig_last g) (sequence_key e))) \<and>
   distinct (map event_key acc) \<and>
   (\<forall>k. sorted_wrt (<) (map sequence (filter (\<lambda>e. sequence_key e = k) acc)))"
proof (induction es arbitrary: g h acc)
  case Nil
  then show ?case by (simp add: run_Nil)
next
  case (Cons e es)
  obtain g1 h1 r where st: "step handler e (g, h) = ((g1, h1), r)" by (metis prod.exhaust)
  obtain s2 acc1 where rn: "run handler es (g1, h1) = (s2, acc1)" by (metis prod.exhaust)
  have acc: "acc = (if r = Inr True then e # acc1 else acc1)" "s2 = s'" using Cons.prems st rn by (simp_all add: run_Cons)
  note IH = Cons.IH [OF rn [unfolded acc(2)]]
  show ?case
  proof (cases "r = Inr True")
    case False
    then show ?thesis using IH step_refused [OF st False] acc(1) by simp
  next
    case True
    note a = step_accepted [OF st [unfolded True]]
    have later: "event_key x \<noteq> event_key e \<and> event_key x \<notin> ig_seen g" if "x \<in> set acc1" for x
      using IH that a(4) by auto
    have seqs: "sequence_key x = sequence_key e \<Longrightarrow> sequence e < sequence x" if "x \<in> set acc1" for x
      using IH that a(5) by (auto simp: opt_holds_def not_le)
    have old: "\<not> opt_holds (\<lambda>p. sequence x \<le> p) (dget (ig_last g) (sequence_key x))" if "x \<in> set acc1" for x
    proof (cases "sequence_key x = sequence_key e")
      case True
      then show ?thesis using seqs [OF that True] a(3) by (auto simp: opt_holds_def split: option.splits)
    next
      case False
      have "\<not> opt_holds (\<lambda>p. sequence x \<le> p) (dget (ig_last g1) (sequence_key x))" using IH that by blast
      then show ?thesis using False a(5) by simp
    qed
    have "event_key e \<notin> event_key ` set acc1" using later by force
    then show ?thesis using IH True acc(1) a(1-3) later old seqs by auto
  qed
qed

text \<open>Every event that did not raise is counted once.\<close>

lemma step_counts:
  assumes "step handler e (g, h) = ((g', h'), Inr b)"
  shows "ig_accepted g' + ig_duplicates g' + ig_out_of_order g' + ig_invalid g' =
      Suc (ig_accepted g + ig_duplicates g + ig_out_of_order g + ig_invalid g)"
    and "ig_accepted g' = ig_accepted g + (if b then 1 else 0)"
  using assms unfolding step_with ingest_with_def prod.case
  by (auto split: if_splits sum.splits prod.splits)

end

fun trade_ingest_run ::
  "(trade_event \<Rightarrow> 'h \<Rightarrow> ('h, unit) sres) \<Rightarrow> trade_event list \<Rightarrow> (string \<times> string) ingest_state \<times> 'h
    \<Rightarrow> ((string \<times> string) ingest_state \<times> 'h) \<times> trade_event list" where
  "trade_ingest_run handler [] s = (s, [])"
| "trade_ingest_run handler (e # es) s =
     (case trade_ingest handler e s of (s1, r) \<Rightarrow>
      case trade_ingest_run handler es s1 of (s2, acc) \<Rightarrow> (s2, if r = Inr True then e # acc else acc))"

fun candle_ingest_run ::
  "(candle_event \<Rightarrow> 'h \<Rightarrow> ('h, unit) sres) \<Rightarrow> candle_event list \<Rightarrow> (string \<times> string \<times> string) ingest_state \<times> 'h
    \<Rightarrow> ((string \<times> string \<times> string) ingest_state \<times> 'h) \<times> candle_event list" where
  "candle_ingest_run handler [] s = (s, [])"
| "candle_ingest_run handler (e # es) s =
     (case candle_ingest handler e s of (s1, r) \<Rightarrow>
      case candle_ingest_run handler es s1 of (s2, acc) \<Rightarrow> (s2, if r = Inr True then e # acc else acc))"

interpretation trades: ingestor trade_validate "\<lambda>e. (lower (te_provider e), te_event_id e)"
  "\<lambda>e. (lower (te_provider e), upper (te_symbol e))" te_sequence trade_ingest trade_ingest_run
  by unfold_locales (simp_all add: trade_ingest_def)

interpretation candles: ingestor candle_event_validate "\<lambda>e. (lower (ce_provider e), ce_event_id e)"
  "\<lambda>e. (lower (ce_provider e), upper (cd_symbol (ce_candle e)), cd_timeframe (ce_candle e))" ce_sequence
  candle_ingest candle_ingest_run
  by unfold_locales (simp_all add: candle_ingest_def)

subsection \<open>Candles are always consistent\<close>

definition candle_consistent :: "int \<Rightarrow> candle \<Rightarrow> bool" where
  "candle_consistent seconds c \<longleftrightarrow> 0 < cd_low c \<and> cd_low c \<le> cd_open c \<and> cd_open c \<le> cd_high c \<and>
     cd_low c \<le> cd_close c \<and> cd_close c \<le> cd_high c \<and> 0 \<le> cd_volume c \<and>
     is_aware (cd_timestamp c) \<and> instant (cd_timestamp c) mod (seconds * 10 ^ 6) = 0"

definition builder_inv :: "candle_builder \<Rightarrow> bool" where
  "builder_inv b \<longleftrightarrow> 0 < bu_seconds b \<and>
     (\<forall>s c. dget (bu_current b) s = Some c \<longrightarrow> cd_symbol c = s \<and> cd_timeframe c = bu_timeframe b \<and>
        candle_consistent (bu_seconds b) c)"

lemma trade_validate_Inr [guard_simps]:
  "trade_validate e = Inr u \<longleftrightarrow> te_provider e \<noteq> [] \<and> te_symbol e \<noteq> [] \<and> te_event_id e \<noteq> [] \<and> 0 \<le> te_sequence e \<and>
     0 < te_price e \<and> 0 \<le> te_quantity e \<and> is_aware (te_timestamp e)"
  by (auto simp: trade_validate_def guard_Inr_iff)

lemma bucket_start_Inr:
  assumes "bucket_start t seconds = Inr k" "0 < seconds"
  shows "is_aware k" "instant k mod (seconds * 10 ^ 6) = 0"
    "k = Aware ((epoch_seconds t - epoch_seconds t mod seconds) * 10 ^ 6)"
proof -
  show k: "k = Aware ((epoch_seconds t - epoch_seconds t mod seconds) * 10 ^ 6)"
    using assms(1) by (auto simp: bucket_start_def guard_Inr_iff)
  have "epoch_seconds t - epoch_seconds t mod seconds = epoch_seconds t div seconds * seconds"
    by (simp add: minus_mod_eq_div_mult)
  then show "is_aware k" "instant k mod (seconds * 10 ^ 6) = 0" by (simp_all add: k mult.assoc)
qed

lemma new_candle_consistent:
  assumes "trade_validate e = Inr ()" "bucket_start t (bu_seconds b) = Inr k" "0 < bu_seconds b"
  shows "candle_consistent (bu_seconds b) (new_candle b s k e)"
  using assms bucket_start_Inr [OF assms(2,3)] by (simp add: candle_consistent_def new_candle_def guard_simps)

lemma extend_candle_consistent:
  assumes "trade_validate e = Inr ()" "candle_consistent seconds c"
  shows "candle_consistent seconds (extend_candle b s e c)"
  using assms by (auto simp: candle_consistent_def extend_candle_def guard_simps dadd_signs)

lemma add_trade_inv:
  assumes "builder_inv b" "add_trade e b = (b', r)"
  shows "builder_inv b' \<and> (\<forall>c. r = Inr (Some c) \<longrightarrow> dget (bu_current b) (upper (te_symbol e)) = Some c \<and>
    candle_consistent (bu_seconds b) c) \<and> bu_seconds b' = bu_seconds b"
proof (cases "res_bind (trade_validate e) (\<lambda>_. bucket_start (te_timestamp e) (bu_seconds b))")
  case (Inl x)
  then show ?thesis using assms by (auto simp: add_trade_def)
next
  case (Inr k)
  then have v: "trade_validate e = Inr ()" "bucket_start (te_timestamp e) (bu_seconds b) = Inr k"
    by (simp_all add: res_bind_Inr_iff)
  have pos: "0 < bu_seconds b" using assms(1) by (simp add: builder_inv_def)
  let ?s = "upper (te_symbol e)"
  have put: "builder_inv (b\<lparr>bu_current := dput ?s c (bu_current b)\<rparr>)"
    if "cd_symbol c = ?s" "cd_timeframe c = bu_timeframe b" "candle_consistent (bu_seconds b) c" for c
    using assms(1) that by (simp add: builder_inv_def)
  have n: "builder_inv (b\<lparr>bu_current := dput ?s (new_candle b ?s k e) (bu_current b)\<rparr>)"
    using new_candle_consistent [OF v pos, of ?s] by (intro put) (simp_all add: new_candle_def)
  show ?thesis
  proof (cases "dget (bu_current b) ?s")
    case None
    then show ?thesis using assms(2) Inr n by (auto simp: add_trade_def Let_def)
  next
    case (Some c)
    then have c: "candle_consistent (bu_seconds b) c" using assms(1) by (simp add: builder_inv_def)
    have x: "builder_inv (b\<lparr>bu_current := dput ?s (extend_candle b ?s e c) (bu_current b)\<rparr>)"
      using extend_candle_consistent [OF v(1) c] by (intro put) (simp_all add: extend_candle_def)
    show ?thesis using assms Inr Some n x c by (auto simp: add_trade_def Let_def split: if_splits)
  qed
qed

subsection \<open>Streaming equals batching\<close>

text \<open>The trades of one symbol split where the bucket changes, and the candle of such a group.\<close>

function same_runs :: "('a \<Rightarrow> 'k) \<Rightarrow> 'a list \<Rightarrow> 'a list list" where
  "same_runs f [] = []"
| "same_runs f (x # xs) = (x # takeWhile (\<lambda>y. f y = f x) xs) # same_runs f (dropWhile (\<lambda>y. f y = f x) xs)"
  by pat_completeness auto
termination by (relation "measure (length \<circ> snd)") (auto simp: less_Suc_eq_le length_dropWhile_le)

lemma same_runs_append:
  assumes "g \<noteq> []" "\<And>x. x \<in> set g \<Longrightarrow> f x = k" "f y \<noteq> k"
  shows "same_runs f (g @ y # ys) = g # same_runs f (y # ys)"
proof -
  obtain a as where g: "g = a # as" using assms(1) by (cases g) auto
  have a: "f a = k" "\<And>x. x \<in> set as \<Longrightarrow> f x = k" using assms(2) g by auto
  have "takeWhile (\<lambda>z. f z = k) (as @ y # ys) = as" "dropWhile (\<lambda>z. f z = k) (as @ y # ys) = y # ys"
    using a assms(3) by (simp_all add: takeWhile_append2 dropWhile_append2)
  then show ?thesis by (simp add: g a(1) same_runs.simps(2) [of f a])
qed

lemma same_runs_single:
  assumes "g \<noteq> []" "\<And>x. x \<in> set g \<Longrightarrow> f x = k"
  shows "same_runs f g = [g]"
proof -
  obtain a as where g: "g = a # as" using assms(1) by (cases g) auto
  have t: "takeWhile (\<lambda>y. f y = f a) as = as" "dropWhile (\<lambda>y. f y = f a) as = []"
    using assms(2) g by (auto simp: takeWhile_eq_all_conv dropWhile_eq_Nil_conv)
  show ?thesis unfolding g same_runs.simps by (simp only: t same_runs.simps)
qed

declare same_runs.simps(2) [simp del]

definition bucket_of :: "int \<Rightarrow> trade_event \<Rightarrow> datetime" where
  "bucket_of seconds e = Aware ((epoch_seconds (te_timestamp e) - epoch_seconds (te_timestamp e) mod seconds) * 10 ^ 6)"

definition batch_candle :: "candle_builder \<Rightarrow> string \<Rightarrow> trade_event list \<Rightarrow> candle" where
  "batch_candle b s g = \<lparr>cd_symbol = s, cd_timeframe = bu_timeframe b, cd_timestamp = bucket_of (bu_seconds b) (hd g),
     cd_open = te_price (hd g), cd_high = Max (te_price ` set g), cd_low = Min (te_price ` set g),
     cd_close = te_price (last g), cd_volume = foldl dadd (te_quantity (hd g)) (map te_quantity (tl g))\<rparr>"

lemma batch_single: "batch_candle b s [e] = new_candle b s (bucket_of (bu_seconds b) e) e"
  by (simp add: batch_candle_def new_candle_def)

lemma batch_snoc:
  assumes "g \<noteq> []"
  shows "batch_candle b s (g @ [e]) = extend_candle b s e (batch_candle b s g)"
proof -
  obtain a as where g: "g = a # as" using assms by (cases g) auto
  have "te_price ` set (g @ [e]) = insert (te_price e) (te_price ` set g)" by auto
  moreover have "te_price ` set g \<noteq> {}" using assms by simp
  ultimately have "Max (te_price ` set (g @ [e])) = max (Max (te_price ` set g)) (te_price e)"
    "Min (te_price ` set (g @ [e])) = min (Min (te_price ` set g)) (te_price e)"
    by (simp_all add: max.commute min.commute)
  then show ?thesis using g by (simp add: batch_candle_def extend_candle_def)
qed

fun add_trades :: "trade_event list \<Rightarrow> candle_builder \<Rightarrow> (candle_builder, candle list) sres" where
  "add_trades [] b = (b, Inr [])"
| "add_trades (e # es) b =
     sbind (add_trade e b) (\<lambda>c b. sbind (add_trades es b) (\<lambda>cs b.
       (b, Inr (case c of None \<Rightarrow> cs | Some x \<Rightarrow> x # cs))))"

definition in_order :: "int \<Rightarrow> string \<Rightarrow> trade_event list \<Rightarrow> bool" where
  "in_order seconds s es \<longleftrightarrow> (\<forall>e \<in> set es. trade_validate e = Inr () \<and> upper (te_symbol e) = s) \<and>
     sorted_wrt (\<lambda>x y. instant (bucket_of seconds x) \<le> instant (bucket_of seconds y)) es"

lemma bucket_of_start: "trade_validate e = Inr () \<Longrightarrow> bucket_start (te_timestamp e) k = Inr (bucket_of k e)"
  by (simp add: bucket_start_def guard_def bucket_of_def guard_simps)

lemma instant_bucket_eq: "instant (bucket_of k x) = instant (bucket_of k y) \<longleftrightarrow> bucket_of k x = bucket_of k y"
  by (simp add: bucket_of_def)

lemma add_trade_same:
  assumes "trade_validate e = Inr ()" "upper (te_symbol e) = s" "dget (bu_current b) s = Some c"
    and "bucket_of (bu_seconds b) e = cd_timestamp c"
  shows "add_trade e b = (b\<lparr>bu_current := dput s (extend_candle b s e c) (bu_current b)\<rparr>, Inr None)"
  using assms by (simp add: add_trade_def bucket_of_start)

lemma add_trade_next:
  assumes "trade_validate e = Inr ()" "upper (te_symbol e) = s" "dget (bu_current b) s = Some c"
    and "instant (cd_timestamp c) < instant (bucket_of (bu_seconds b) e)"
  shows "add_trade e b =
    (b\<lparr>bu_current := dput s (new_candle b s (bucket_of (bu_seconds b) e) e) (bu_current b)\<rparr>, Inr (Some c))"
  using assms by (auto simp: add_trade_def bucket_of_start)

lemma add_trades_open:
  assumes "in_order (bu_seconds b) s (g @ es)" "g \<noteq> []"
    and "\<And>x. x \<in> set g \<Longrightarrow> bucket_of (bu_seconds b) x = k"
    and "dget (bu_current b) s = Some (batch_candle b s g)"
  shows "\<exists>b' cs c. add_trades es b = (b', Inr cs) \<and> dget (bu_current b') s = Some c \<and>
    cs @ [c] = map (batch_candle b s) (same_runs (bucket_of (bu_seconds b)) (g @ es))"
  using assms
proof (induction es arbitrary: b g k)
  case Nil
  have "same_runs (bucket_of (bu_seconds b)) g = [g]" using Nil.prems(2,3) by (rule same_runs_single)
  then show ?case using Nil.prems(4) by simp
next
  case (Cons e es)
  let ?k = "bucket_of (bu_seconds b)"
  have e: "trade_validate e = Inr ()" "upper (te_symbol e) = s" using Cons.prems(1) by (auto simp: in_order_def)
  have hd: "?k (hd g) = k" using Cons.prems(2,3) by simp
  have le: "instant (?k (hd g)) \<le> instant (?k e)"
    using Cons.prems(1,2) by (cases g) (auto simp: in_order_def sorted_wrt_append)
  have ts: "cd_timestamp (batch_candle b s g) = k" using hd by (simp add: batch_candle_def)
  have same: "batch_candle (b\<lparr>bu_current := d\<rparr>) s = batch_candle b s" for d
    by (rule ext) (simp add: batch_candle_def)
  show ?case
  proof (cases "?k e = k")
    case True
    define b1 where "b1 = b\<lparr>bu_current := dput s (batch_candle b s (g @ [e])) (bu_current b)\<rparr>"
    have st: "add_trade e b = (b1, Inr None)" using True Cons.prems(2)
      add_trade_same [OF e Cons.prems(4)] by (simp add: ts b1_def batch_snoc)
    have b1: "bu_seconds b1 = bu_seconds b" "batch_candle b1 s = batch_candle b s" by (simp_all add: b1_def same)
    have "\<exists>b' cs c. add_trades es b1 = (b', Inr cs) \<and> dget (bu_current b') s = Some c \<and>
        cs @ [c] = map (batch_candle b1 s) (same_runs (bucket_of (bu_seconds b1)) ((g @ [e]) @ es))"
    proof (rule Cons.IH)
      show "in_order (bu_seconds b1) s ((g @ [e]) @ es)" using Cons.prems(1) b1 by simp
      show "bucket_of (bu_seconds b1) x = k" if "x \<in> set (g @ [e])" for x
        using that True Cons.prems(2,3) b1 by auto
      show "dget (bu_current b1) s = Some (batch_candle b1 s (g @ [e]))" by (simp only: b1(2)) (simp add: b1_def)
    qed simp
    then obtain b' cs c where "add_trades es b1 = (b', Inr cs)" "dget (bu_current b') s = Some c"
      "cs @ [c] = map (batch_candle b s) (same_runs ?k (g @ e # es))" unfolding b1 by auto
    then show ?thesis by (intro exI [of _ b'] exI [of _ cs] exI [of _ c]) (simp add: st)
  next
    case False
    then have lt: "instant k < instant (?k e)" using le hd instant_bucket_eq by (metis less_le)
    define b1 where "b1 = b\<lparr>bu_current := dput s (batch_candle b s [e]) (bu_current b)\<rparr>"
    have st: "add_trade e b = (b1, Inr (Some (batch_candle b s g)))"
      using lt add_trade_next [OF e Cons.prems(4)] by (simp add: ts b1_def batch_single)
    have b1: "bu_seconds b1 = bu_seconds b" "batch_candle b1 s = batch_candle b s" by (simp_all add: b1_def same)
    have "\<exists>b' cs c. add_trades es b1 = (b', Inr cs) \<and> dget (bu_current b') s = Some c \<and>
        cs @ [c] = map (batch_candle b1 s) (same_runs (bucket_of (bu_seconds b1)) ([e] @ es))"
    proof (rule Cons.IH)
      show "in_order (bu_seconds b1) s ([e] @ es)" using Cons.prems(1) b1 by (auto simp: in_order_def sorted_wrt_append)
      show "dget (bu_current b1) s = Some (batch_candle b1 s [e])" by (simp only: b1(2)) (simp add: b1_def)
      show "bucket_of (bu_seconds b1) x = ?k e" if "x \<in> set [e]" for x using that b1 by simp
    qed simp
    then obtain b' cs c where r: "add_trades es b1 = (b', Inr cs)" "dget (bu_current b') s = Some c"
      "cs @ [c] = map (batch_candle b s) (same_runs ?k (e # es))" unfolding b1 by auto
    have runs: "same_runs ?k (g @ e # es) = g # same_runs ?k (e # es)"
      by (rule same_runs_append [where f = ?k and g = g and k = k, OF Cons.prems(2,3) False])
    have "add_trades (e # es) b = (b', Inr (batch_candle b s g # cs))" by (simp add: st r(1))
    moreover have "(batch_candle b s g # cs) @ [c] = map (batch_candle b s) (same_runs ?k (g @ e # es))"
      unfolding runs list.map append_Cons r(3) by (rule refl)
    ultimately show ?thesis using r(2) by blast
  qed
qed

text \<open>
  Streaming valid trades of one symbol in bucket order closes exactly the candles that batching the whole list gives, the
  last one being still open.
\<close>

lemma add_trades_batch:
  assumes "in_order (bu_seconds b) s (e # es)" "dget (bu_current b) s = None"
  shows "\<exists>b' cs c. add_trades (e # es) b = (b', Inr cs) \<and> dget (bu_current b') s = Some c \<and>
    cs @ [c] = map (batch_candle b s) (same_runs (bucket_of (bu_seconds b)) (e # es))"
proof -
  have e: "trade_validate e = Inr ()" "upper (te_symbol e) = s" using assms(1) by (auto simp: in_order_def)
  define b1 where "b1 = b\<lparr>bu_current := dput s (batch_candle b s [e]) (bu_current b)\<rparr>"
  have st: "add_trade e b = (b1, Inr None)"
    by (simp add: add_trade_def e bucket_of_start [OF e(1)] assms(2) b1_def batch_single Let_def)
  have b1: "bu_seconds b1 = bu_seconds b" "batch_candle b1 s = batch_candle b s"
    by (simp_all add: b1_def fun_eq_iff batch_candle_def)
  have "\<exists>b' cs c. add_trades es b1 = (b', Inr cs) \<and> dget (bu_current b') s = Some c \<and>
      cs @ [c] = map (batch_candle b1 s) (same_runs (bucket_of (bu_seconds b1)) ([e] @ es))"
    by (rule add_trades_open [where k = "bucket_of (bu_seconds b) e"]) (use assms(1) b1 in \<open>simp_all add: b1_def\<close>)
  then obtain b' cs c where r: "add_trades es b1 = (b', Inr cs)" "dget (bu_current b') s = Some c"
    "cs @ [c] = map (batch_candle b s) (same_runs (bucket_of (bu_seconds b)) (e # es))" unfolding b1 by auto
  then have "add_trades (e # es) b = (b', Inr cs)" by (simp add: st)
  with r(2,3) show ?thesis by blast
qed

end
