(* ===== verification/Market_Quality.thy ===== *)
theory Market_Quality
  imports Market_Stream
begin

section \<open>Market data quality, freshness, service levels and reconciliation\<close>

text \<open>
  \<^verbatim>\<open>app/data/quality.py\<close>, \<^verbatim>\<open>freshness.py\<close>, \<^verbatim>\<open>sla.py\<close> and \<^verbatim>\<open>reconciliation.py\<close>. Prices are finite numbers, so the
  \<^verbatim>\<open>is_finite\<close> tests pass. Ages and steps are compared in microseconds; the float limits of the service levels stand
  for their exact values. A message with a time, a name or a number in it is a note with these as arguments.
\<close>

subsection \<open>Quality reports\<close>

record live_price =
  lp_symbol :: string
  lp_price :: rat
  lp_as_of :: datetime
  lp_provider :: string

datatype quality_note =
    Note string
  | NoteAt string datetime
  | NoteTimeframe string string
  | NoteGap int datetime
  | NoteOutlier datetime rat
  | NoteFrom string quality_note

record data_quality_report =
  dq_valid :: bool
  dq_reasons :: "quality_note list"
  dq_warnings :: "quality_note list"

definition quality_of :: "quality_note list \<Rightarrow> quality_note list \<Rightarrow> data_quality_report" where
  "quality_of reasons warnings = \<lparr>dq_valid = (reasons = []), dq_reasons = reasons, dq_warnings = warnings\<rparr>"

definition quality_status :: "data_quality_report \<Rightarrow> string" where
  "quality_status q = (if \<not> dq_valid q then ''INVALID'' else if dq_warnings q \<noteq> [] then ''DEGRADED'' else ''VALID'')"

definition quality_merge :: "data_quality_report \<Rightarrow> data_quality_report \<Rightarrow> data_quality_report" where
  "quality_merge a b = \<lparr>dq_valid = (dq_valid a \<and> dq_valid b), dq_reasons = dq_reasons a @ dq_reasons b,
     dq_warnings = dq_warnings a @ dq_warnings b\<rparr>"

definition timeframe_table :: "(string \<times> int) list" where
  "timeframe_table = [(''1m'', 60), (''5m'', 300), (''15m'', 900), (''30m'', 1800), (''1h'', 3600), (''2h'', 7200),
     (''4h'', 14400), (''1d'', 86400)]"

definition max_age_table :: "(string \<times> int) list" where
  "max_age_table = [(''1m'', 180), (''5m'', 900), (''15m'', 2700), (''30m'', 5400), (''1h'', 10800), (''2h'', 21600),
     (''4h'', 43200), (''1d'', 259200)]"

definition table_lookup :: "(string \<times> int) list \<Rightarrow> string \<Rightarrow> int res" where
  "table_lookup table tf = (case map_of table tf of
     None \<Rightarrow> Inl (ValueError (''unsupported timeframe: '' @ tf)) | Some s \<Rightarrow> Inr s)"

definition default_candle_max_age :: "string \<Rightarrow> int res" where
  "default_candle_max_age = table_lookup max_age_table"

definition utc :: "datetime \<Rightarrow> int res" where
  "utc t = guard (\<not> is_aware t) (ValueError ''timestamp must be timezone-aware'') (Inr (instant t))"

definition micros :: "int \<Rightarrow> int" where
  "micros seconds = seconds * 10 ^ 6"

subsection \<open>A live price\<close>

definition price_quality :: "live_price \<Rightarrow> int \<Rightarrow> datetime \<Rightarrow> int \<Rightarrow> data_quality_report res" where
  "price_quality p max_age now tolerance =
     guard (max_age < 0) (ValueError ''max_age_seconds must be non-negative'')
     (case utc (lp_as_of p) of
        Inl e \<Rightarrow> Inr (quality_of [Note ''timestamp must be timezone-aware''] [])
      | Inr t \<Rightarrow> res_bind (utc now) (\<lambda>current.
          Inr (quality_of
            ((if lp_symbol p = [] then [Note ''symbol is empty''] else []) @
             (if lp_provider p = [] then [Note ''provider is empty''] else []) @
             (if lp_price p \<le> 0 then [Note ''price must be finite and positive''] else []) @
             (if current + micros tolerance < t then [Note ''timestamp is in the future''] else []) @
             (if micros max_age < current - t then [Note ''live price is stale''] else [])) [])))"

text \<open>The stricter check of \<^verbatim>\<open>freshness.py\<close> raises; a naive time counts as UTC there.\<close>

definition fresh_live_price :: "live_price \<Rightarrow> int \<Rightarrow> datetime \<Rightarrow> live_price res" where
  "fresh_live_price p max_age now =
     guard (lp_price p \<le> 0) (ValueErrorV (''Invalid live price for '' @ lp_symbol p @ '': '') (lp_price p))
    (guard (\<not> is_aware now) (TypeError ''can't subtract offset-naive and offset-aware datetimes'')
    (guard (instant now - instant (lp_as_of p) < 0) (OtherError (''Future-dated live price for '' @ lp_symbol p))
    (guard (micros max_age < instant now - instant (lp_as_of p)) (OtherError (''Stale live price for '' @ lp_symbol p))
      (Inr p))))"

subsection \<open>A candle series\<close>

definition ohlc_notes :: "candle \<Rightarrow> quality_note list" where
  "ohlc_notes c =
     (if cd_high c < cd_low c then [NoteAt ''high below low'' (cd_timestamp c)] else []) @
     (if cd_open c < cd_low c \<or> cd_high c < cd_open c then [NoteAt ''open outside range'' (cd_timestamp c)] else []) @
     (if cd_close c < cd_low c \<or> cd_high c < cd_close c then [NoteAt ''close outside range'' (cd_timestamp c)] else []) @
     (if cd_volume c < 0 then [NoteAt ''negative volume'' (cd_timestamp c)] else [])"

definition timeframe_notes :: "string option \<Rightarrow> candle \<Rightarrow> quality_note list" where
  "timeframe_notes expected c =
     (if map_of timeframe_table (cd_timeframe c) = None then [NoteAt ''unsupported timeframe'' (cd_timestamp c)] else []) @
     (case expected of None \<Rightarrow> []
      | Some tf \<Rightarrow> if tf \<noteq> [] \<and> cd_timeframe c \<noteq> tf then [NoteTimeframe (cd_timeframe c) tf] else [])"

text \<open>The distance to the previous candle: reasons and warnings.\<close>

definition spacing_notes :: "bool \<Rightarrow> int option \<Rightarrow> candle option \<Rightarrow> candle \<Rightarrow> quality_note list \<times> quality_note list" where
  "spacing_notes allow_gaps step previous c =
     (case previous of
        None \<Rightarrow> ([], [])
      | Some p \<Rightarrow>
          let delta = instant (cd_timestamp c) - instant (cd_timestamp p) in
          if delta \<le> 0 then ([Note ''candles are not strictly chronological''], [])
          else case step of
            None \<Rightarrow> ([], [])
          | Some s \<Rightarrow>
              if delta = micros s then ([], [])
              else if micros s < delta then
                (let gap = NoteGap (delta div micros s - 1) (cd_timestamp c)
                 in if allow_gaps then ([], [gap]) else ([gap], []))
              else ([NoteAt ''candle spacing is shorter than timeframe'' (cd_timestamp c)], []))"

fun candle_loop ::
  "bool \<Rightarrow> string option \<Rightarrow> int option \<Rightarrow> candle option \<Rightarrow> candle list \<Rightarrow> quality_note list \<times> quality_note list" where
  "candle_loop allow_gaps expected step previous [] = ([], [])"
| "candle_loop allow_gaps expected step previous (c # cs) =
     (if \<not> is_aware (cd_timestamp c) then
        (case candle_loop allow_gaps expected step previous cs of (rs, ws) \<Rightarrow>
           (timeframe_notes expected c @ [Note ''timestamp must be timezone-aware''] @ rs, ws))
      else (case spacing_notes allow_gaps step previous c of (r1, w1) \<Rightarrow>
            case candle_loop allow_gaps expected step (Some c) cs of (rs, ws) \<Rightarrow>
              (timeframe_notes expected c @ ohlc_notes c @ r1 @ rs, w1 @ ws)))"

definition series_step :: "string option \<Rightarrow> candle list \<Rightarrow> int option res" where
  "series_step expected cs =
     (case expected of
        Some tf \<Rightarrow> res_bind (table_lookup timeframe_table tf) (\<lambda>s. Inr (Some s))
      | None \<Rightarrow> Inr (map_of timeframe_table (cd_timeframe (hd cs))))"

definition age_notes :: "int option \<Rightarrow> datetime \<Rightarrow> candle list \<Rightarrow> quality_note list res" where
  "age_notes max_age now cs =
     (case max_age of
        None \<Rightarrow> Inr []
      | Some a \<Rightarrow> res_bind (utc now) (\<lambda>current. res_bind (utc (cd_timestamp (last cs))) (\<lambda>t.
          Inr (if current - t < - micros 5 then [Note ''latest candle timestamp is in the future'']
               else if micros a < current - t then [Note ''candle series is stale''] else []))))"

definition completeness_notes :: "bool \<Rightarrow> int option \<Rightarrow> datetime \<Rightarrow> candle list \<Rightarrow> quality_note list res" where
  "completeness_notes required_last step now cs =
     (case step of
        None \<Rightarrow> Inr []
      | Some s \<Rightarrow> if \<not> required_last then Inr []
          else res_bind (utc now) (\<lambda>current. res_bind (utc (cd_timestamp (last cs))) (\<lambda>t.
            Inr (if current < t + micros s then [Note ''last candle is incomplete''] else []))))"

definition validate_candles ::
  "candle list \<Rightarrow> string option \<Rightarrow> datetime \<Rightarrow> int option \<Rightarrow> bool \<Rightarrow> bool \<Rightarrow> data_quality_report res" where
  "validate_candles cs expected now max_age require_complete allow_gaps =
     (if cs = [] then Inr (quality_of [Note ''no candles''] [])
      else case series_step expected cs of
        Inl e \<Rightarrow> Inr (quality_of [Note (''unsupported timeframe: '' @ (case expected of Some tf \<Rightarrow> tf | None \<Rightarrow> []))] [])
      | Inr step \<Rightarrow>
          (case candle_loop allow_gaps expected step None cs of (rs, ws) \<Rightarrow>
             res_bind (age_notes max_age now cs) (\<lambda>ra.
             res_bind (completeness_notes require_complete step now cs) (\<lambda>rc.
               Inr (quality_of (rs @ ra @ rc) ws)))))"

fun outlier_loop :: "rat \<Rightarrow> candle option \<Rightarrow> candle list \<Rightarrow> quality_note list" where
  "outlier_loop max_return previous [] = []"
| "outlier_loop max_return previous (c # cs) =
     (case previous of
        None \<Rightarrow> []
      | Some p \<Rightarrow>
          if 0 < cd_close p then
            let move = ddiv (dabs (dsub (cd_close c) (cd_close p))) (cd_close p)
            in if max_return < move then [NoteOutlier (cd_timestamp c) move] else []
          else []) @ outlier_loop max_return (Some c) cs"

definition detect_price_outliers :: "candle list \<Rightarrow> rat \<Rightarrow> data_quality_report res" where
  "detect_price_outliers cs max_return =
     guard (max_return \<le> 0) (ValueError ''max_return must be positive'')
       (Inr (quality_of (outlier_loop max_return None cs) []))"

subsection \<open>Service levels\<close>

datatype sla_status = SLA_HEALTHY | SLA_DEGRADED | SLA_STALE | SLA_MISSING

record data_sla =
  sla_max_live_age_seconds :: int
  sla_max_candle_intervals :: rat
  sla_degraded_ratio :: rat

definition default_sla :: data_sla where
  "default_sla = \<lparr>sla_max_live_age_seconds = 30, sla_max_candle_intervals = 2, sla_degraded_ratio = 3 / 4\<rparr>"

definition sla_validate :: "data_sla \<Rightarrow> unit res" where
  "sla_validate p =
     guard (sla_max_live_age_seconds p \<le> 0) (ValueError ''max_live_age_seconds must be positive'')
    (guard (sla_max_candle_intervals p \<le> 0) (ValueError ''max_candle_intervals must be positive'')
    (guard (\<not> (0 < sla_degraded_ratio p \<and> sla_degraded_ratio p < 1)) (ValueError ''degraded_ratio must be between 0 and 1'')
      (Inr ())))"

record sla_evaluation =
  se_status :: sla_status
  se_age_seconds :: "rat option"
  se_limit_seconds :: rat

definition sla_usable :: "sla_evaluation \<Rightarrow> bool" where
  "sla_usable e \<longleftrightarrow> se_status e \<in> {SLA_HEALTHY, SLA_DEGRADED}"

definition sla_timestamp :: "data_sla \<Rightarrow> datetime option \<Rightarrow> rat \<Rightarrow> datetime \<Rightarrow> sla_evaluation res" where
  "sla_timestamp p t limit now =
     (case t of
        None \<Rightarrow> Inr \<lparr>se_status = SLA_MISSING, se_age_seconds = None, se_limit_seconds = limit\<rparr>
      | Some ts \<Rightarrow>
          guard (\<not> is_aware now) (TypeError ''can't subtract offset-naive and offset-aware datetimes'')
          (let age = of_int (instant now - instant ts) / 10 ^ 6
           in Inr \<lparr>se_status = (if age < 0 then SLA_STALE else if limit < age then SLA_STALE
                 else if limit * sla_degraded_ratio p < age then SLA_DEGRADED else SLA_HEALTHY),
               se_age_seconds = Some age, se_limit_seconds = limit\<rparr>))"

definition sla_live :: "data_sla \<Rightarrow> live_price option \<Rightarrow> datetime \<Rightarrow> sla_evaluation res" where
  "sla_live p price now = sla_timestamp p (map_option lp_as_of price) (of_int (sla_max_live_age_seconds p)) now"

definition sla_candle :: "data_sla \<Rightarrow> candle option \<Rightarrow> datetime \<Rightarrow> sla_evaluation res" where
  "sla_candle p c now =
     res_bind (case c of None \<Rightarrow> Inr 0
               | Some x \<Rightarrow> res_bind (timeframe_seconds (cd_timeframe x)) (\<lambda>s. Inr (of_int s * sla_max_candle_intervals p)))
       (\<lambda>limit. sla_timestamp p (map_option cd_timestamp c) limit now)"

subsection \<open>Reconciliation between providers\<close>

record reconciliation_report =
  rk_valid :: bool
  rk_reference :: "live_price option"
  rk_spread_ratio :: "rat option"
  rk_reasons :: "quality_note list"
  rk_warnings :: "quality_note list"

definition no_reconciliation :: "quality_note list \<Rightarrow> reconciliation_report" where
  "no_reconciliation reasons = \<lparr>rk_valid = False, rk_reference = None, rk_spread_ratio = None, rk_reasons = reasons,
     rk_warnings = []\<rparr>"

fun split_prices :: "int \<Rightarrow> datetime \<Rightarrow> live_price list \<Rightarrow> (live_price list \<times> quality_note list) res" where
  "split_prices max_age now [] = Inr ([], [])"
| "split_prices max_age now (p # ps) =
     res_bind (price_quality p max_age now 5) (\<lambda>q. res_bind (split_prices max_age now ps) (\<lambda>(valid, reasons).
       Inr (if dq_valid q then (p # valid, reasons)
            else (valid, map (NoteFrom (lp_provider p)) (dq_reasons q) @ reasons))))"

definition deviation :: "live_price \<Rightarrow> live_price \<Rightarrow> rat" where
  "deviation reference p = ddiv (dabs (dsub (lp_price p) (lp_price reference))) (lp_price reference)"

definition reconcile_live_prices :: "live_price list \<Rightarrow> int \<Rightarrow> rat \<Rightarrow> datetime \<Rightarrow> reconciliation_report res" where
  "reconcile_live_prices prices max_age max_ratio now =
     (if prices = [] then Inr (no_reconciliation [Note ''no provider prices''])
      else guard (max_ratio < 0) (ValueError ''max_disagreement_ratio must be non-negative'')
      (res_bind (split_prices max_age now prices) (\<lambda>(valid, reasons).
        if valid = [] then Inr (no_reconciliation
          (if reasons = [] then [Note ''no valid provider prices''] else reasons))
        else
          let reference = hd (sort_key lp_provider valid);
              deviations = (if 0 < lp_price reference then map (deviation reference) valid else []);
              spread = (if deviations = [] then 0 else fold max (tl deviations) (hd deviations));
              all_reasons = reasons @ (if max_ratio < spread
                then [NoteOutlier (lp_as_of reference) max_ratio] else [])
          in Inr \<lparr>rk_valid = (all_reasons = []), rk_reference = Some reference, rk_spread_ratio = Some spread,
               rk_reasons = all_reasons,
               rk_warnings = (if length valid = 1 \<and> 1 < length prices
                 then [Note ''only one provider produced a valid price''] else [])\<rparr>)))"

text \<open>Candle series by provider: the series of the first valid provider is the reference for the others.\<close>

fun split_series ::
  "string \<Rightarrow> int option \<Rightarrow> datetime \<Rightarrow> (string \<times> candle list) list
    \<Rightarrow> ((string \<times> candle list) list \<times> quality_note list) res" where
  "split_series tf max_age now [] = Inr ([], [])"
| "split_series tf max_age now ((provider, cs) # rest_series) =
     res_bind (validate_candles cs (Some tf) now max_age False False) (\<lambda>q.
     res_bind (detect_price_outliers cs (1 / 2)) (\<lambda>o1.
     res_bind (split_series tf max_age now rest_series) (\<lambda>(valid, reasons).
       let m = quality_merge q o1 in
       Inr (if dq_valid m then ((provider, cs) # valid, reasons)
            else (valid, map (NoteFrom provider) (dq_reasons m) @ reasons)))))"

definition by_timestamp :: "candle list \<Rightarrow> (datetime, candle) dict" where
  "by_timestamp cs = foldl (\<lambda>d c. dput (cd_timestamp c) c d) [] cs"

definition close_disagreement :: "candle \<Rightarrow> candle \<Rightarrow> rat" where
  "close_disagreement left right =
     (if 0 < cd_close left then ddiv (dabs (dsub (cd_close left) (cd_close right))) (cd_close left) else 0)"

definition series_disagreement ::
  "(datetime, candle) dict \<Rightarrow> string \<times> candle list \<Rightarrow> rat \<times> quality_note list \<Rightarrow> rat \<times> quality_note list" where
  "series_disagreement reference ps acc =
     (case (ps, acc) of ((provider, cs), (worst, warnings)) \<Rightarrow>
        let other = by_timestamp cs;
            common = filter (\<lambda>(t, c). dget other t \<noteq> None) reference
        in if common = [] then (worst, warnings @ [NoteFrom provider (Note ''no overlapping candle timestamps'')])
           else (fold (\<lambda>(t, c) m. max m (close_disagreement c (the (dget other t)))) common worst, warnings))"

definition reconcile_candles ::
  "(string \<times> candle list) list \<Rightarrow> string \<Rightarrow> int option \<Rightarrow> datetime \<Rightarrow> rat \<Rightarrow> reconciliation_report res" where
  "reconcile_candles series tf max_age now max_ratio =
     (if series = [] then Inr (no_reconciliation [Note ''no provider candle series''])
      else res_bind (split_series tf max_age now series) (\<lambda>(valid, reasons).
        if valid = [] then Inr (no_reconciliation (if reasons = [] then [Note ''no valid candle series''] else reasons))
        else
          let providers = sort_key fst valid;
              reference = by_timestamp (snd (hd providers));
              (worst, warnings) = fold (series_disagreement reference) (tl providers) (0, []);
              all_reasons = reasons @ (if max_ratio < worst then [Note ''provider candle disagreement''] else [])
          in Inr \<lparr>rk_valid = (all_reasons = []), rk_reference = None, rk_spread_ratio = Some worst,
               rk_reasons = all_reasons,
               rk_warnings = warnings @ (if length valid = 1 \<and> 1 < length series
                 then [Note ''only one provider produced a valid candle series''] else [])\<rparr>))"

subsection \<open>What a valid report guarantees\<close>

definition ohlc_ok :: "candle \<Rightarrow> bool" where
  "ohlc_ok c \<longleftrightarrow> cd_low c \<le> cd_open c \<and> cd_open c \<le> cd_high c \<and> cd_low c \<le> cd_close c \<and> cd_close c \<le> cd_high c \<and>
     0 \<le> cd_volume c"

lemma ohlc_notes_Nil: "ohlc_notes c = [] \<longleftrightarrow> ohlc_ok c"
  by (auto simp: ohlc_notes_def ohlc_ok_def)

fun spaced :: "bool \<Rightarrow> int \<Rightarrow> candle option \<Rightarrow> candle list \<Rightarrow> bool" where
  "spaced gaps s p [] = True"
| "spaced gaps s p (c # cs) \<longleftrightarrow>
     (case p of None \<Rightarrow> True
      | Some x \<Rightarrow> instant (cd_timestamp x) + micros s \<le> instant (cd_timestamp c) \<and>
          (gaps \<or> instant (cd_timestamp c) = instant (cd_timestamp x) + micros s)) \<and>
     spaced gaps s (Some c) cs"

lemma spacing_clean:
  assumes "spacing_notes gaps (Some s) (Some p) c = ([], w)" "0 < s"
  shows "instant (cd_timestamp p) + micros s \<le> instant (cd_timestamp c) \<and>
    (gaps \<or> instant (cd_timestamp c) = instant (cd_timestamp p) + micros s)"
  using assms by (auto simp: spacing_notes_def Let_def split: if_splits)

lemma candle_loop_clean:
  "candle_loop gaps (Some tf) (Some s) p cs = ([], ws) \<Longrightarrow> 0 < s \<Longrightarrow> tf \<noteq> [] \<Longrightarrow>
   spaced gaps s p cs \<and> (\<forall>c \<in> set cs. is_aware (cd_timestamp c) \<and> cd_timeframe c = tf \<and> ohlc_ok c)"
proof (induction cs arbitrary: p ws)
  case (Cons c cs)
  obtain r1 w1 where sp: "spacing_notes gaps (Some s) p c = (r1, w1)" by (cases "spacing_notes gaps (Some s) p c")
  have aware: "is_aware (cd_timestamp c)" using Cons.prems(1) by (auto split: if_splits prod.splits)
  obtain rs wl where l: "candle_loop gaps (Some tf) (Some s) (Some c) cs = (rs, wl)"
    by (cases "candle_loop gaps (Some tf) (Some s) (Some c) cs")
  have nil: "timeframe_notes (Some tf) c = []" "ohlc_notes c = []" "r1 = []" "rs = []"
    using Cons.prems(1) aware sp l by simp_all
  have "case p of None \<Rightarrow> True | Some x \<Rightarrow> instant (cd_timestamp x) + micros s \<le> instant (cd_timestamp c) \<and>
      (gaps \<or> instant (cd_timestamp c) = instant (cd_timestamp x) + micros s)"
    using spacing_clean [of gaps s _ c w1] sp nil(3) Cons.prems(2) by (cases p) simp_all
  moreover have "cd_timeframe c = tf" using nil(1) Cons.prems(3) by (auto simp: timeframe_notes_def split: if_splits)
  ultimately show ?case using Cons.IH [OF l [unfolded nil(4)] Cons.prems(2,3)] aware nil(2) ohlc_notes_Nil by simp
qed simp

lemma timeframe_table_pos: "map_of timeframe_table tf = Some s \<Longrightarrow> 0 < s \<and> tf \<noteq> []"
  by (auto simp: timeframe_table_def split: if_splits)

text \<open>
  A series that is valid for its timeframe is aware, of that timeframe, consistent, spaced by its step (at least by it where
  gaps are allowed), and fresh.
\<close>

lemma validate_candles_sound:
  assumes "validate_candles cs (Some tf) now (Some a) rc gaps = Inr q" "dq_valid q"
  obtains s where "map_of timeframe_table tf = Some s" "cs \<noteq> []" "spaced gaps s None cs"
    "\<forall>c \<in> set cs. is_aware (cd_timestamp c) \<and> cd_timeframe c = tf \<and> ohlc_ok c"
    "- micros 5 \<le> instant now - instant (cd_timestamp (last cs))"
    "instant now - instant (cd_timestamp (last cs)) \<le> micros a"
proof -
  have ne: "cs \<noteq> []" using assms by (auto simp: validate_candles_def quality_of_def)
  obtain s where s: "map_of timeframe_table tf = Some s"
    using assms ne by (auto simp: validate_candles_def quality_of_def series_step_def table_lookup_def split: option.splits)
  obtain rs ws where l: "candle_loop gaps (Some tf) (Some s) None cs = (rs, ws)"
    by (cases "candle_loop gaps (Some tf) (Some s) None cs")
  obtain ra rb where r: "age_notes (Some a) now cs = Inr ra" "q = quality_of (rs @ ra @ rb) ws"
    using assms(1) ne s l
    by (auto simp: validate_candles_def series_step_def table_lookup_def res_bind_Inr_iff)
  have nil: "rs = []" "ra = []" using assms(2) r(2) by (auto simp: quality_of_def)
  note ok = candle_loop_clean [OF l [unfolded nil(1)]] timeframe_table_pos [OF s]
  have age: "- micros 5 \<le> instant now - instant (cd_timestamp (last cs))"
    "instant now - instant (cd_timestamp (last cs)) \<le> micros a"
    using r(1) nil(2) by (auto simp: age_notes_def res_bind_Inr_iff utc_def guard_Inr_iff split: if_splits)
  show thesis using that [OF s ne] ok age by blast
qed

lemma fold_max_ge: "(x :: rat) \<le> fold max xs x"
  by (induction xs arbitrary: x) (auto intro: order_trans max.cobounded2)

lemma fold_max_member: "y \<in> set xs \<Longrightarrow> y \<le> fold max xs (x :: rat)"
proof (induction xs arbitrary: x)
  case (Cons z zs)
  then show ?case using fold_max_ge [of "max z x" zs] by auto
qed simp

lemma price_quality_valid:
  assumes "price_quality p a now tol = Inr q"
  shows "dq_valid q \<longleftrightarrow> dq_reasons q = []"
proof -
  obtain rs where "q = quality_of rs []"
    using assms by (cases "utc (lp_as_of p)") (auto simp: price_quality_def guard_Inr_iff res_bind_Inr_iff)
  then show ?thesis by (simp add: quality_of_def)
qed

lemma split_prices_members:
  "split_prices a now ps = Inr (valid, reasons) \<Longrightarrow>
   (\<forall>p \<in> set valid. \<exists>q. price_quality p a now 5 = Inr q \<and> dq_valid q) \<and> (reasons = [] \<longrightarrow> valid = ps)"
proof (induction ps arbitrary: valid reasons)
  case (Cons p ps)
  obtain q where q: "price_quality p a now 5 = Inr q" using Cons.prems by (auto simp: res_bind_Inr_iff)
  obtain v1 r1 where s: "split_prices a now ps = Inr (v1, r1)" using Cons.prems by (auto simp: res_bind_Inr_iff)
  note IH = Cons.IH [OF s]
  show ?case
  proof (cases "dq_valid q")
    case True
    then have "valid = p # v1" "reasons = r1" using Cons.prems q s by simp_all
    then show ?thesis using IH q True by auto
  next
    case False
    then have "valid = v1" "reasons = map (NoteFrom (lp_provider p)) (dq_reasons q) @ r1"
      using Cons.prems q s by simp_all
    then show ?thesis using IH False price_quality_valid [OF q] by simp
  qed
qed simp

text \<open>When live prices reconcile, all of them were valid and none deviates from the reference by more than the ratio.\<close>

lemma reconcile_live_bound:
  assumes "reconcile_live_prices ps a ratio now = Inr r" "rk_valid r"
  obtains reference where "rk_reference r = Some reference" "reference \<in> set ps"
    "\<forall>p \<in> set ps. (\<exists>q. price_quality p a now 5 = Inr q \<and> dq_valid q) \<and>
       (0 < lp_price reference \<longrightarrow> deviation reference p \<le> ratio)"
proof -
  have ne: "ps \<noteq> []" using assms by (auto simp: reconcile_live_prices_def no_reconciliation_def)
  obtain valid reasons where sp: "split_prices a now ps = Inr (valid, reasons)"
    using assms(1) ne by (auto simp: reconcile_live_prices_def guard_Inr_iff res_bind_Inr_iff)
  have v: "valid \<noteq> []"
    using assms ne sp by (auto simp: reconcile_live_prices_def guard_Inr_iff no_reconciliation_def split: if_splits)
  define reference where "reference = hd (sort_key lp_provider valid)"
  define ds where "ds = (if 0 < lp_price reference then map (deviation reference) valid else [])"
  define spread where "spread = (if ds = [] then 0 else fold max (tl ds) (hd ds))"
  have r: "rk_reference r = Some reference" "rk_valid r \<longleftrightarrow> reasons = [] \<and> \<not> ratio < spread"
    using assms(1) ne sp v
    by (auto simp: reconcile_live_prices_def guard_Inr_iff Let_def reference_def ds_def spread_def)
  have vs: "valid = ps" "\<forall>p \<in> set ps. \<exists>q. price_quality p a now 5 = Inr q \<and> dq_valid q"
    using split_prices_members [OF sp] r(2) assms(2) by auto
  have "set (sort_key lp_provider valid) = set valid" by simp
  then have "reference \<in> set ps" unfolding reference_def vs(1) [symmetric] using v by (metis hd_in_set set_empty)
  moreover have "deviation reference p \<le> ratio" if "p \<in> set ps" "0 < lp_price reference" for p
  proof -
    have d: "ds = map (deviation reference) ps" "ds \<noteq> []" using that ne vs(1) by (simp_all add: ds_def)
    have "deviation reference p \<in> set ds" using that(1) d by simp
    then have "deviation reference p = hd ds \<or> deviation reference p \<in> set (tl ds)"
      using d(2) by (metis list.collapse set_ConsD)
    then have "deviation reference p \<le> spread"
      using fold_max_ge [of "hd ds" "tl ds"] fold_max_member [of "deviation reference p" "tl ds" "hd ds"] d(2)
      by (auto simp: spread_def)
    then show ?thesis using r(2) assms(2) by simp
  qed
  ultimately show thesis using that [OF r(1)] vs(2) by blast
qed

end
