(* ===== verification/Provider_Router.thy ===== *)
theory Provider_Router
  imports Market_Quality
begin

section \<open>Provider routing: circuits, retries, failover and the cache\<close>

text \<open>
  \<^verbatim>\<open>app/data/reliability.py\<close>, \<^verbatim>\<open>adaptive_failover.py\<close>, \<^verbatim>\<open>provider_router.py\<close>, \<^verbatim>\<open>source_policy.py\<close> and \<^verbatim>\<open>cache.py\<close>.
  Readings of the monotonic clock are numbers and arguments of the operations that take them; the rounding of the float
  difference is not modelled. A provider is its name and what its calls return, by the number of the call.
\<close>

subsection \<open>The circuit breaker of a provider\<close>

record provider_health =
  ph_failures :: nat
  ph_opened_at :: "rat option"

record circuit =
  ci_threshold :: nat
  ci_recovery_seconds :: rat
  ci_health :: provider_health

definition healthy :: provider_health where
  "healthy = \<lparr>ph_failures = 0, ph_opened_at = None\<rparr>"

definition circuit_make :: "nat \<Rightarrow> rat \<Rightarrow> circuit res" where
  "circuit_make threshold recovery =
     guard (threshold < 1 \<or> recovery < 0) (ValueError ''invalid circuit breaker configuration'')
       (Inr \<lparr>ci_threshold = threshold, ci_recovery_seconds = recovery, ci_health = healthy\<rparr>)"

text \<open>Asking whether the circuit is open closes it when the recovery time has passed.\<close>

definition circuit_is_open :: "rat \<Rightarrow> circuit \<Rightarrow> circuit \<times> bool" where
  "circuit_is_open t c =
     (case ph_opened_at (ci_health c) of
        None \<Rightarrow> (c, False)
      | Some opened \<Rightarrow>
          if ci_recovery_seconds c \<le> t - opened
          then (c\<lparr>ci_health := (ci_health c)\<lparr>ph_opened_at := None\<rparr>\<rparr>, False)
          else (c, True))"

definition before_call :: "rat \<Rightarrow> circuit \<Rightarrow> (circuit, unit) sres" where
  "before_call t c = (case circuit_is_open t c of
     (c', True) \<Rightarrow> (c', Inl (RuntimeError ''provider circuit is open'')) | (c', False) \<Rightarrow> (c', Inr ()))"

definition record_success :: "circuit \<Rightarrow> circuit" where
  "record_success c = c\<lparr>ci_health := healthy\<rparr>"

definition record_failure :: "rat \<Rightarrow> circuit \<Rightarrow> circuit" where
  "record_failure t c =
     (let failures = ph_failures (ci_health c) + 1
      in c\<lparr>ci_health := \<lparr>ph_failures = failures,
           ph_opened_at = (if ci_threshold c \<le> failures then Some t else ph_opened_at (ci_health c))\<rparr>\<rparr>)"

subsection \<open>Retries\<close>

text \<open>
  \<^verbatim>\<open>call_with_retry\<close>: the operation returns something else at every attempt. Beside the outcome it gives the pauses that
  were taken.
\<close>

fun retry_from :: "(nat \<Rightarrow> 'a res) \<Rightarrow> rat \<Rightarrow> nat \<Rightarrow> nat \<Rightarrow> 'a res \<times> rat list" where
  "retry_from operation backoff attempt 0 = (operation attempt, [])"
| "retry_from operation backoff attempt (Suc left) =
     (case operation attempt of
        Inr x \<Rightarrow> (Inr x, [])
      | Inl e \<Rightarrow> (case retry_from operation backoff (Suc attempt) left of
                   (r, pauses) \<Rightarrow> (r, backoff * 2 ^ attempt # pauses)))"

definition call_with_retry :: "(nat \<Rightarrow> 'a res) \<Rightarrow> nat \<Rightarrow> rat \<Rightarrow> 'a res \<times> rat list" where
  "call_with_retry operation attempts backoff =
     (if attempts < 1 \<or> backoff < 0 then (Inl (ValueError ''invalid retry configuration''), [])
      else retry_from operation backoff 0 (attempts - 1))"

subsection \<open>Adaptive source health\<close>

record source_health =
  sh_failures :: nat
  sh_cooldown_until :: "datetime option"
  sh_last_error :: "string option"

record adaptive_health =
  ah_threshold :: nat
  ah_cooldown_seconds :: int
  ah_states :: "(string \<times> string, source_health) dict"

definition source_new :: source_health where
  "source_new = \<lparr>sh_failures = 0, sh_cooldown_until = None, sh_last_error = None\<rparr>"

definition source_available :: "string \<Rightarrow> string \<Rightarrow> datetime \<Rightarrow> adaptive_health \<Rightarrow> bool" where
  "source_available provider symbol now a \<longleftrightarrow>
     (case dget (ah_states a) (provider, symbol) of
        None \<Rightarrow> True
      | Some s \<Rightarrow> (case sh_cooldown_until s of None \<Rightarrow> True | Some u \<Rightarrow> instant u \<le> instant now))"

definition source_success :: "string \<Rightarrow> string \<Rightarrow> adaptive_health \<Rightarrow> adaptive_health" where
  "source_success provider symbol a = a\<lparr>ah_states := dput (provider, symbol) source_new (ah_states a)\<rparr>"

definition source_failure :: "string \<Rightarrow> string \<Rightarrow> string \<Rightarrow> datetime \<Rightarrow> adaptive_health \<Rightarrow> adaptive_health" where
  "source_failure provider symbol error now a =
     (let s = (case dget (ah_states a) (provider, symbol) of None \<Rightarrow> source_new | Some s \<Rightarrow> s);
          n = sh_failures s + 1
      in a\<lparr>ah_states := dput (provider, symbol)
             (s\<lparr>sh_failures := n, sh_last_error := Some error,
                sh_cooldown_until := (if ah_threshold a \<le> n
                  then Some (Aware (instant now + micros (ah_cooldown_seconds a))) else sh_cooldown_until s)\<rparr>)
             (ah_states a)\<rparr>)"

subsection \<open>The router\<close>

text \<open>
  What a visit of a provider meets: the clock when its circuit is asked and when a failure is recorded, and the results
  of its calls. A \<^verbatim>\<open>SymbolMappingError\<close> is not counted against the provider.
\<close>

record 'a visit =
  vi_name :: string
  vi_checked_at :: rat
  vi_failed_at :: rat
  vi_call :: "nat \<Rightarrow> 'a res"

record router =
  ro_retry_attempts :: nat
  ro_backoff :: rat
  ro_threshold :: nat
  ro_recovery_seconds :: rat
  ro_circuits :: "(string, circuit) dict"

definition breaker_of :: "string \<Rightarrow> router \<Rightarrow> circuit" where
  "breaker_of name r = (case dget (ro_circuits r) name of
     None \<Rightarrow> \<lparr>ci_threshold = ro_threshold r, ci_recovery_seconds = ro_recovery_seconds r, ci_health = healthy\<rparr>
   | Some c \<Rightarrow> c)"

definition put_breaker :: "string \<Rightarrow> circuit \<Rightarrow> router \<Rightarrow> router" where
  "put_breaker name c r = r\<lparr>ro_circuits := dput name c (ro_circuits r)\<rparr>"

fun is_mapping_error :: "exn \<Rightarrow> bool" where
  "is_mapping_error (SymbolMappingError s) = True"
| "is_mapping_error e = False"

text \<open>One provider: the circuit, the retried call, the quality check, and the bookkeeping of the outcome.\<close>

definition visit_provider ::
  "('a \<Rightarrow> unit res) \<Rightarrow> 'a visit \<Rightarrow> router \<Rightarrow> (router, 'a) sres" where
  "visit_provider check v r =
     (case before_call (vi_checked_at v) (breaker_of (vi_name v) r) of
        (c, opened) \<Rightarrow>
          (case res_bind opened (\<lambda>_. res_bind (fst (call_with_retry (vi_call v) (ro_retry_attempts r) (ro_backoff r)))
                  (\<lambda>x. res_bind (check x) (\<lambda>_. Inr x))) of
             Inr x \<Rightarrow> (put_breaker (vi_name v) (record_success c) r, Inr x)
           | Inl e \<Rightarrow>
               (put_breaker (vi_name v) (if is_mapping_error e then c else record_failure (vi_failed_at v) c) r, Inl e)))"

text \<open>All providers in their order: the first reliable answer, or the errors of all of them.\<close>

fun route :: "('a \<Rightarrow> unit res) \<Rightarrow> 'a visit list \<Rightarrow> router \<Rightarrow> router \<times> ((string \<times> exn) list + 'a)" where
  "route check [] r = (r, Inl [])"
| "route check (v # vs) r =
     (case visit_provider check v r of
        (r1, Inr x) \<Rightarrow> (r1, Inr x)
      | (r1, Inl e) \<Rightarrow> (case route check vs r1 of
            (r2, Inr x) \<Rightarrow> (r2, Inr x)
          | (r2, Inl es) \<Rightarrow> (r2, Inl ((vi_name v, e) # es))))"

definition require_quality :: "data_quality_report res \<Rightarrow> unit res" where
  "require_quality q = res_bind q (\<lambda>d. if dq_valid d then Inr () else Inl (ProviderError ''unreliable data''))"

definition router_live_price ::
  "int \<Rightarrow> datetime \<Rightarrow> live_price visit list \<Rightarrow> router \<Rightarrow> router \<times> ((string \<times> exn) list + live_price)" where
  "router_live_price max_age now vs r = route (\<lambda>p. require_quality (price_quality p max_age now 5)) vs r"

text \<open>
  For candles the freshness limit is the given one or the default of the timeframe, which raises before any provider is
  asked; providers with session gaps are told apart by name, so the check depends on the visit.
\<close>

definition candles_check ::
  "string option \<Rightarrow> int option \<Rightarrow> datetime \<Rightarrow> string list \<Rightarrow> string \<Rightarrow> candle list \<Rightarrow> unit res" where
  "candles_check tf freshness now gap_providers name cs =
     require_quality (res_bind (validate_candles cs tf now freshness False (lower name \<in> set gap_providers)) (\<lambda>q.
       res_bind (detect_price_outliers cs (1 / 2)) (\<lambda>o1. Inr (quality_merge q o1))))"

fun route_candles ::
  "string option \<Rightarrow> int option \<Rightarrow> datetime \<Rightarrow> string list \<Rightarrow> candle list visit list \<Rightarrow> router
    \<Rightarrow> router \<times> ((string \<times> exn) list + candle list)" where
  "route_candles tf freshness now gaps [] r = (r, Inl [])"
| "route_candles tf freshness now gaps (v # vs) r =
     (case visit_provider (candles_check tf freshness now gaps (vi_name v)) v r of
        (r1, Inr x) \<Rightarrow> (r1, Inr x)
      | (r1, Inl e) \<Rightarrow> (case route_candles tf freshness now gaps vs r1 of
            (r2, Inr x) \<Rightarrow> (r2, Inr x)
          | (r2, Inl es) \<Rightarrow> (r2, Inl ((vi_name v, e) # es))))"

definition router_candles ::
  "string option \<Rightarrow> int option \<Rightarrow> datetime \<Rightarrow> string list \<Rightarrow> candle list visit list \<Rightarrow> router
    \<Rightarrow> (router, (string \<times> exn) list + candle list) sres" where
  "router_candles tf max_age now gaps vs r =
     (case (case (max_age, tf) of (None, Some t) \<Rightarrow> res_bind (default_candle_max_age t) (\<lambda>s. Inr (Some s)) | _ \<Rightarrow> Inr max_age) of
        Inl e \<Rightarrow> (r, Inl e)
      | Inr freshness \<Rightarrow> (case route_candles tf freshness now gaps vs r of (r', x) \<Rightarrow> (r', Inr x)))"

record circuit_status =
  cu_name :: string
  cu_circuit_open :: bool
  cu_failures :: nat

fun health_snapshot :: "(string \<times> rat) list \<Rightarrow> router \<Rightarrow> router \<times> circuit_status list" where
  "health_snapshot [] r = (r, [])"
| "health_snapshot ((name, t) # ns) r =
     (case circuit_is_open t (breaker_of name r) of (c, is_o) \<Rightarrow>
      case health_snapshot ns (put_breaker name c r) of (r', xs) \<Rightarrow>
        (r', \<lparr>cu_name = name, cu_circuit_open = is_o, cu_failures = ph_failures (ci_health c)\<rparr> # xs))"

subsection \<open>Source policy\<close>

record source_policy =
  sp_live :: "string list"
  sp_ohlcv :: "string list"

definition source_policy_make :: "string list \<Rightarrow> string list \<Rightarrow> source_policy res" where
  "source_policy_make live ohlcv =
     guard (live = []) (ValueError ''at least one live-price provider is required'')
    (guard (ohlcv = []) (ValueError ''at least one OHLCV provider is required'')
    (guard (\<not> distinct live) (ValueError ''live-price providers must be unique'')
    (guard (\<not> distinct ohlcv) (ValueError ''OHLCV providers must be unique'')
      (Inr \<lparr>sp_live = live, sp_ohlcv = ohlcv\<rparr>))))"

definition by_lower_name :: "('p \<Rightarrow> string) \<Rightarrow> 'p list \<Rightarrow> (string, 'p) dict" where
  "by_lower_name name ps = foldl (\<lambda>d p. dput (lower (name p)) p d) [] ps"

definition build_routers :: "('p \<Rightarrow> string) \<Rightarrow> 'p list \<Rightarrow> source_policy \<Rightarrow> ('p list \<times> 'p list) res" where
  "build_routers name ps policy =
     (let d = by_lower_name name ps;
          missing = sort (fromkeys (filter (\<lambda>n. dget d n = None) (sp_live policy @ sp_ohlcv policy)))
      in if missing \<noteq> []
         then Inl (ValueError (''missing configured market-data providers: '' @ join '', '' missing))
         else Inr (map (\<lambda>n. the (dget d n)) (sp_live policy), map (\<lambda>n. the (dget d n)) (sp_ohlcv policy)))"

subsection \<open>The cache\<close>

record market_cache =
  mc_max_candles :: nat
  mc_live :: "(string, live_price) dict"
  mc_candles :: "(string \<times> string, candle list) dict"

definition cache_new :: "int \<Rightarrow> market_cache res" where
  "cache_new n = guard (n \<le> 0) (ValueError ''max_candles_per_series must be positive'')
     (Inr \<lparr>mc_max_candles = nat n, mc_live = [], mc_candles = []\<rparr>)"

definition put_live_price :: "live_price \<Rightarrow> market_cache \<Rightarrow> market_cache" where
  "put_live_price p c = c\<lparr>mc_live := dput (upper (lp_symbol p)) p (mc_live c)\<rparr>"

text \<open>A stale price is no price; an invalid one raises (\<^verbatim>\<open>ValueError\<close> is not caught).\<close>

definition get_live_price :: "string \<Rightarrow> int option \<Rightarrow> datetime \<Rightarrow> market_cache \<Rightarrow> live_price option res" where
  "get_live_price symbol max_age now c =
     (case dget (mc_live c) (upper symbol) of
        None \<Rightarrow> Inr None
      | Some p \<Rightarrow>
          (case max_age of
             None \<Rightarrow> Inr (Some p)
           | Some a \<Rightarrow> (case fresh_live_price p a now of
               Inr x \<Rightarrow> Inr (Some x)
             | Inl (OtherError m) \<Rightarrow> Inr None
             | Inl e \<Rightarrow> Inl e)))"

definition last_of :: "nat \<Rightarrow> 'a list \<Rightarrow> 'a list" where
  "last_of n xs = drop (length xs - n) xs"

text \<open>The series is rebuilt as a dictionary by timestamp, sorted, and cut to its last entries.\<close>

definition put_candle :: "candle \<Rightarrow> market_cache \<Rightarrow> market_cache" where
  "put_candle x c =
     (let key = (upper (cd_symbol x), cd_timeframe x);
          series = (case dget (mc_candles c) key of None \<Rightarrow> [] | Some s \<Rightarrow> s);
          d = dput (cd_timestamp x) x (by_timestamp series);
          ordered_series = sort_key (\<lambda>y. instant (cd_timestamp y)) (map snd d)
      in c\<lparr>mc_candles := dput key (last_of (mc_max_candles c) ordered_series) (mc_candles c)\<rparr>)"

definition put_candles :: "candle list \<Rightarrow> market_cache \<Rightarrow> market_cache" where
  "put_candles xs c = fold put_candle xs c"

definition get_candles :: "string \<Rightarrow> string \<Rightarrow> int \<Rightarrow> market_cache \<Rightarrow> candle list res" where
  "get_candles symbol tf limit c =
     guard (limit \<le> 0) (ValueError ''limit must be positive'')
       (Inr (last_of (nat limit) (case dget (mc_candles c) (upper symbol, tf) of None \<Rightarrow> [] | Some s \<Rightarrow> s)))"

subsection \<open>An open circuit that is polled never recovers\<close>

lemma breaker_put [simp]: "breaker_of n (put_breaker m c r) = (if n = m then c else breaker_of n r)"
  by (simp add: breaker_of_def put_breaker_def split: option.split)

lemma visit_open:
  assumes "breaker_of (vi_name v) r = c" "ph_opened_at (ci_health c) = Some t"
    and "vi_checked_at v - t < ci_recovery_seconds c" "ci_threshold c \<le> ph_failures (ci_health c)"
  shows "visit_provider check v r =
    (put_breaker (vi_name v) (record_failure (vi_failed_at v) c) r, Inl (RuntimeError ''provider circuit is open''))"
  using assms by (simp add: visit_provider_def before_call_def circuit_is_open_def)

text \<open>Polls of one provider, each within the recovery time of the failure before it.\<close>

fun quick_polls :: "string \<Rightarrow> rat \<Rightarrow> rat \<Rightarrow> 'a visit list \<Rightarrow> bool" where
  "quick_polls name recovery t [] = True"
| "quick_polls name recovery t (v # vs) \<longleftrightarrow>
     vi_name v = name \<and> vi_checked_at v - t < recovery \<and> quick_polls name recovery (vi_failed_at v) vs"

fun polls :: "('a \<Rightarrow> unit res) \<Rightarrow> 'a visit list \<Rightarrow> router \<Rightarrow> router \<times> 'a res list" where
  "polls check [] r = (r, [])"
| "polls check (v # vs) r =
     (case visit_provider check v r of (r1, x) \<Rightarrow> case polls check vs r1 of (r2, xs) \<Rightarrow> (r2, x # xs))"

lemma polls_blocked:
  "ph_opened_at (ci_health (breaker_of name r)) = Some t \<Longrightarrow>
   ci_threshold (breaker_of name r) \<le> ph_failures (ci_health (breaker_of name r)) \<Longrightarrow>
   quick_polls name (ci_recovery_seconds (breaker_of name r)) t vs \<Longrightarrow>
   snd (polls check vs r) = replicate (length vs) (Inl (RuntimeError ''provider circuit is open''))"
proof (induction vs arbitrary: r t)
  case (Cons v vs)
  let ?c = "breaker_of name r"
  have v: "vi_name v = name" "vi_checked_at v - t < ci_recovery_seconds ?c" using Cons.prems(3) by simp_all
  define r1 where "r1 = put_breaker name (record_failure (vi_failed_at v) ?c) r"
  have st: "visit_provider check v r = (r1, Inl (RuntimeError ''provider circuit is open''))"
    using visit_open [of v r ?c t check] v Cons.prems(1,2) by (simp add: r1_def)
  have c1: "breaker_of name r1 = record_failure (vi_failed_at v) ?c" by (simp add: r1_def)
  have h: "ph_opened_at (ci_health (breaker_of name r1)) = Some (vi_failed_at v)"
    "ci_threshold (breaker_of name r1) \<le> ph_failures (ci_health (breaker_of name r1))"
    "ci_recovery_seconds (breaker_of name r1) = ci_recovery_seconds ?c"
    using Cons.prems(2) unfolding c1 by (simp_all add: record_failure_def)
  have "quick_polls name (ci_recovery_seconds (breaker_of name r1)) (vi_failed_at v) vs"
    using Cons.prems(3) h(3) by simp
  from Cons.IH [OF h(1,2) this] show ?case by (simp add: st case_prod_beta)
qed simp

text \<open>Left alone for the recovery time, the circuit lets the next call through.\<close>

lemma circuit_recovers:
  assumes "ph_opened_at (ci_health c) = Some t" "ci_recovery_seconds c \<le> u - t"
  shows "snd (before_call u c) = Inr ()"
  using assms by (simp add: before_call_def circuit_is_open_def)

subsection \<open>Retries end\<close>

lemma retry_from_result:
  "fst (retry_from operation backoff k n) = operation (k + length (snd (retry_from operation backoff k n))) \<and>
   length (snd (retry_from operation backoff k n)) \<le> n \<and>
   (\<forall>j. k \<le> j \<longrightarrow> j < k + length (snd (retry_from operation backoff k n)) \<longrightarrow> (\<exists>e. operation j = Inl e)) \<and>
   (length (snd (retry_from operation backoff k n)) < n \<longrightarrow> (\<exists>x. fst (retry_from operation backoff k n) = Inr x))"
proof (induction n arbitrary: k)
  case (Suc n)
  show ?case
  proof (cases "operation k")
    case (Inl e)
    obtain r ps where r: "retry_from operation backoff (Suc k) n = (r, ps)" by (metis prod.exhaust)
    have IH: "r = operation (Suc k + length ps)" "length ps \<le> n"
      "\<forall>j. Suc k \<le> j \<longrightarrow> j < Suc k + length ps \<longrightarrow> (\<exists>e. operation j = Inl e)" "length ps < n \<longrightarrow> (\<exists>x. r = Inr x)"
      using Suc.IH [of "Suc k"] unfolding r by auto
    have "\<exists>e. operation j = Inl e" if "k \<le> j" "j < k + Suc (length ps)" for j
      using that IH(3) Inl by (cases "j = k") auto
    then show ?thesis using IH by (simp add: Inl r)
  qed simp
qed simp

subsection \<open>What the router returns\<close>

lemma visit_Inr:
  assumes "visit_provider check v r = (r', Inr x)"
  shows "check x = Inr ()" "\<exists>n. vi_call v n = Inr x"
proof -
  have h: "fst (call_with_retry (vi_call v) (ro_retry_attempts r) (ro_backoff r)) = Inr x \<and> check x = Inr ()"
    using assms by (auto simp: visit_provider_def res_bind_Inr_iff split: prod.splits sum.splits)
  then show "check x = Inr ()" by simp
  show "\<exists>n. vi_call v n = Inr x"
    using h retry_from_result [of "vi_call v" "ro_backoff r" 0 "ro_retry_attempts r - 1"]
    by (auto simp: call_with_retry_def split: if_splits)
qed

lemma route_Inr:
  "route check vs r = (r', Inr x) \<Longrightarrow> check x = Inr () \<and> (\<exists>v \<in> set vs. \<exists>n. vi_call v n = Inr x)"
proof (induction vs arbitrary: r)
  case (Cons v vs)
  obtain r1 y where s: "visit_provider check v r = (r1, y)" by (cases "visit_provider check v r")
  show ?case
  proof (cases y)
    case (Inl e)
    then have "route check vs r1 = (r', Inr x)" using Cons.prems s by (auto split: prod.splits sum.splits)
    then show ?thesis using Cons.IH by auto
  next
    case (Inr z)
    then have "visit_provider check v r = (r', Inr x)" using Cons.prems s by simp
    then show ?thesis using visit_Inr by force
  qed
qed simp

lemma router_live_price_sound:
  assumes "router_live_price max_age now vs r = (r', Inr p)"
  shows "0 < lp_price p \<and> is_aware (lp_as_of p) \<and> instant now - instant (lp_as_of p) \<le> micros max_age \<and>
    instant (lp_as_of p) - instant now \<le> micros 5 \<and> (\<exists>v \<in> set vs. \<exists>n. vi_call v n = Inr p)"
proof -
  have c: "require_quality (price_quality p max_age now 5) = Inr ()" and v: "\<exists>v \<in> set vs. \<exists>n. vi_call v n = Inr p"
    using route_Inr assms by (fastforce simp: router_live_price_def)+
  obtain q where q: "price_quality p max_age now 5 = Inr q" "dq_valid q"
    using c by (auto simp: require_quality_def res_bind_Inr_iff split: if_splits)
  have a: "is_aware (lp_as_of p)" using q
    by (auto simp: price_quality_def utc_def guard_def quality_of_def split: if_splits)
  then show ?thesis using q v
    by (auto simp: price_quality_def utc_def guard_Inr_iff res_bind_Inr_iff quality_of_def split: if_splits)
qed

lemma route_candles_Inr:
  "route_candles tf freshness now gaps vs r = (r', Inr x) \<Longrightarrow>
   \<exists>v \<in> set vs. candles_check tf freshness now gaps (vi_name v) x = Inr () \<and> (\<exists>n. vi_call v n = Inr x)"
proof (induction vs arbitrary: r)
  case (Cons v vs)
  obtain r1 y where s: "visit_provider (candles_check tf freshness now gaps (vi_name v)) v r = (r1, y)"
    by (cases "visit_provider (candles_check tf freshness now gaps (vi_name v)) v r")
  show ?case
  proof (cases y)
    case (Inl e)
    then have "route_candles tf freshness now gaps vs r1 = (r', Inr x)"
      using Cons.prems s by (auto split: prod.splits sum.splits)
    then show ?thesis using Cons.IH by auto
  next
    case (Inr z)
    then have "visit_provider (candles_check tf freshness now gaps (vi_name v)) v r = (r', Inr x)"
      using Cons.prems s by simp
    from visit_Inr [OF this] show ?thesis by auto
  qed
qed simp

lemma candles_check_sound:
  assumes "candles_check (Some tf) (Some a) now gaps name cs = Inr ()"
  obtains s where "map_of timeframe_table tf = Some s" "cs \<noteq> []" "spaced (lower name \<in> set gaps) s None cs"
    "\<forall>c \<in> set cs. is_aware (cd_timestamp c) \<and> cd_timeframe c = tf \<and> ohlc_ok c"
    "- micros 5 \<le> instant now - instant (cd_timestamp (last cs))"
    "instant now - instant (cd_timestamp (last cs)) \<le> micros a"
proof -
  obtain q where "validate_candles cs (Some tf) now (Some a) False (lower name \<in> set gaps) = Inr q" "dq_valid q"
    using assms by (auto simp: candles_check_def require_quality_def res_bind_Inr_iff quality_merge_def split: if_splits)
  from validate_candles_sound [OF this] that show thesis by blast
qed

subsection \<open>The cache\<close>

definition series_ok :: "nat \<Rightarrow> candle list \<Rightarrow> bool" where
  "series_ok n s \<longleftrightarrow> length s \<le> n \<and> (\<forall>c \<in> set s. is_aware (cd_timestamp c)) \<and>
     sorted_wrt (<) (map (\<lambda>c. instant (cd_timestamp c)) s)"

definition cache_ok :: "market_cache \<Rightarrow> bool" where
  "cache_ok c \<longleftrightarrow> 0 < mc_max_candles c \<and> (\<forall>k s. dget (mc_candles c) k = Some s \<longrightarrow> series_ok (mc_max_candles c) s)"

lemma aware_instant: "is_aware a \<Longrightarrow> is_aware b \<Longrightarrow> instant a = instant b \<Longrightarrow> a = b"
  by (cases a; cases b) simp_all

lemma by_timestamp_keys:
  "dict_ok (by_timestamp cs) \<and> (\<forall>(t, c) \<in> set (by_timestamp cs). cd_timestamp c = t \<and> c \<in> set cs)"
proof -
  have "dict_ok d \<Longrightarrow> dict_ok (foldl (\<lambda>d c. dput (cd_timestamp c) c d) d cs) \<and>
      (\<forall>(t, c) \<in> set (foldl (\<lambda>d c. dput (cd_timestamp c) c d) d cs). (t, c) \<in> set d \<or> cd_timestamp c = t \<and> c \<in> set cs)" for d
  proof (induction cs arbitrary: d)
    case (Cons c cs)
    have "dict_ok (dput (cd_timestamp c) c d)" using Cons.prems by auto
    from Cons.IH [OF this] show ?case using set_dput [OF Cons.prems, of "cd_timestamp c" c] by fastforce
  qed auto
  from this [of "[]"] show ?thesis by (simp add: by_timestamp_def)
qed

lemma last_of_props:
  "length (last_of n s) \<le> n" "set (last_of n s) \<subseteq> set s" "sorted_wrt P s \<Longrightarrow> sorted_wrt P (last_of n s)"
  "0 < n \<Longrightarrow> s \<noteq> [] \<Longrightarrow> last_of n s \<noteq> [] \<and> last (last_of n s) = last s"
proof -
  show "sorted_wrt P (last_of n s)" if "sorted_wrt P s"
    using that unfolding last_of_def by (metis append_take_drop_id sorted_wrt_append)
  show "last_of n s \<noteq> [] \<and> last (last_of n s) = last s" if "0 < n" "s \<noteq> []"
  proof -
    have "length s - n < length s" using that by (cases s) auto
    then show ?thesis by (simp add: last_of_def)
  qed
qed (auto simp: last_of_def dest: in_set_dropD)

lemma sorted_series:
  assumes "dict_ok d" "\<forall>(t, c) \<in> set d. cd_timestamp c = t \<and> is_aware t"
  shows "sorted_wrt (<) (map (\<lambda>c. instant (cd_timestamp c)) (sort_key (\<lambda>c. instant (cd_timestamp c)) (map snd d)))"
proof -
  let ?f = "\<lambda>c. instant (cd_timestamp c)"
  have eq: "map ?f (map snd d) = map instant (map fst d)" using assms(2) by (auto intro!: map_cong)
  have "inj_on instant (set (map fst d))"
    using assms(2) by (auto simp: inj_on_def intro!: aware_instant)
  then have "distinct (map ?f (map snd d))"
    using assms(1) unfolding eq dict_ok_def by (subst distinct_map) simp
  then have "distinct (map ?f (sort_key ?f (map snd d)))"
    by (metis (no_types, lifting) distinct_map distinct_sort set_sort)
  then show ?thesis by (simp add: strict_sorted_iff)
qed

lemma put_candle_series:
  assumes "cache_ok c" "is_aware (cd_timestamp x)"
  shows "cache_ok (put_candle x c)"
    and "\<exists>s. dget (mc_candles (put_candle x c)) (upper (cd_symbol x), cd_timeframe x) = Some s \<and>
      ((\<forall>y \<in> set (case dget (mc_candles c) (upper (cd_symbol x), cd_timeframe x) of None \<Rightarrow> [] | Some s \<Rightarrow> s).
          instant (cd_timestamp y) \<le> instant (cd_timestamp x)) \<longrightarrow> s \<noteq> [] \<and> last s = x)"
proof -
  define key where "key = (upper (cd_symbol x), cd_timeframe x)"
  define old where "old = (case dget (mc_candles c) key of None \<Rightarrow> [] | Some s \<Rightarrow> s)"
  define d where "d = dput (cd_timestamp x) x (by_timestamp old)"
  define f :: "candle \<Rightarrow> int" where "f = (\<lambda>y. instant (cd_timestamp y))"
  define new where "new = last_of (mc_max_candles c) (sort_key f (map snd d))"
  have put: "put_candle x c = c\<lparr>mc_candles := dput key new (mc_candles c)\<rparr>"
    by (simp add: put_candle_def Let_def key_def old_def d_def new_def f_def)
  have old: "\<forall>y \<in> set old. is_aware (cd_timestamp y)"
  proof (cases "dget (mc_candles c) key")
    case (Some s)
    then have "series_ok (mc_max_candles c) s" using assms(1) unfolding cache_ok_def by blast
    then show ?thesis by (simp add: old_def Some series_ok_def)
  qed (simp add: old_def)
  have n: "0 < mc_max_candles c" using assms(1) by (simp add: cache_ok_def)
  have d: "dict_ok d" "set d = {(cd_timestamp x, x)} \<union> {p \<in> set (by_timestamp old). fst p \<noteq> cd_timestamp x}"
    using by_timestamp_keys [of old] by (auto simp: d_def set_dput)
  have dk: "\<forall>(t, y) \<in> set d. cd_timestamp y = t \<and> is_aware t" using by_timestamp_keys [of old] old assms(2) d(2) by fastforce
  have srt: "sorted_wrt (<) (map f (sort_key f (map snd d)))" using sorted_series [OF d(1) dk] by (simp add: f_def)
  then have "series_ok (mc_max_candles c) new"
    using last_of_props(1,2) [of "mc_max_candles c" "sort_key f (map snd d)"] dk
      last_of_props(3) [of "\<lambda>a b. f a < f b" "sort_key f (map snd d)" "mc_max_candles c"]
    unfolding series_ok_def new_def f_def by (fastforce simp: sorted_wrt_map)
  then show "cache_ok (put_candle x c)" using assms(1) by (simp add: put cache_ok_def)
  have get: "dget (mc_candles (put_candle x c)) key = Some new" by (simp add: put)
  have "new \<noteq> [] \<and> last new = x" if newest: "\<forall>y \<in> set old. f y \<le> f x"
  proof -
    let ?s = "sort_key f (map snd d)"
    have x: "x \<in> set ?s" using d(2) by force
    then have ne: "?s \<noteq> []" by force
    have "f (last ?s) \<le> f x"
    proof -
      have "last ?s \<in> set (map snd d)" using last_in_set [OF ne] by simp
      then show ?thesis using newest by_timestamp_keys [of old] unfolding set_map d(2) by fastforce
    qed
    moreover have "last ?s = x \<or> f x < f (last ?s)"
    proof -
      obtain zs where s: "?s = zs @ [last ?s]" using append_butlast_last_id [OF ne] by metis
      have "sorted_wrt (\<lambda>a b. f a < f b) (zs @ [last ?s])" using srt s by (simp add: sorted_wrt_map)
      moreover have "x \<in> set zs \<or> x = last ?s" using x s by (metis Un_iff insertE list.set(2) set_append empty_iff empty_set)
      ultimately show ?thesis by (auto simp: sorted_wrt_append)
    qed
    ultimately have "last ?s = x" by auto
    then show ?thesis using last_of_props(4) [OF n ne] by (simp add: new_def)
  qed
  with get have "\<exists>s. dget (mc_candles (put_candle x c)) key = Some s \<and>
      ((\<forall>y \<in> set old. f y \<le> f x) \<longrightarrow> s \<noteq> [] \<and> last s = x)" by blast
  then show "\<exists>s. dget (mc_candles (put_candle x c)) (upper (cd_symbol x), cd_timeframe x) = Some s \<and>
      ((\<forall>y \<in> set (case dget (mc_candles c) (upper (cd_symbol x), cd_timeframe x) of None \<Rightarrow> [] | Some s \<Rightarrow> s).
          instant (cd_timestamp y) \<le> instant (cd_timestamp x)) \<longrightarrow> s \<noteq> [] \<and> last s = x)"
    unfolding old_def key_def f_def .
qed

end
