(* ===== verification/Examples.thy ===== *)
theory Examples
  imports Recovery Strategy_Examples Live_Operation Provider_Router
begin

section \<open>Concrete inputs\<close>

text \<open>
  The orders, positions, accounts and databases at which the properties of the root theory are applied: one
  account of 10000 units, one contract with a step of one, one signal with round levels, one limit order and
  the databases it passes through.
\<close>

subsection \<open>Risk\<close>

definition ex_account :: account where
  "ex_account = \<lparr>acc_starting_equity = 10000, acc_realized_pnl = 0\<rparr>"

definition ex_contract :: contract_spec where
  "ex_contract = \<lparr>cs_symbol = ''BTCUSDT'', cs_price_tick = 1, cs_quantity_step = 1, cs_min_quantity = 1,
     cs_min_notional = Some 10, cs_max_leverage = Some 5\<rparr>"

definition ex_instrument :: instrument where
  "ex_instrument = \<lparr>in_symbol = ''BTCUSDT'', in_asset_class = CRYPTO, in_base_asset = ''BTC'',
     in_quote_asset = ''USDT'', in_tradable = True, in_min_quantity = Some 1, in_quantity_step = Some 1,
     in_price_tick = Some 1\<rparr>"

definition ex_signal :: strategy_signal where
  "ex_signal = \<lparr>sg_symbol = ''BTCUSDT'', sg_direction = ''LONG'', sg_setup = ''BREAKOUT_RETEST'',
     sg_state = READY_FOR_RISK_REVIEW, sg_entry = 100, sg_stop_loss = 95, sg_target = 225 / 2, sg_rr = 5 / 2,
     sg_score = 90, sg_confidence = 90,
     sg_score_breakdown = \<lparr>sc_htf_trend = 20, sc_structure = 20, sc_setup = 20, sc_confirmation = 10,
       sc_liquidity = 10, sc_volatility = 5, sc_rr_quality = 5\<rparr>,
     sg_confidence_result = \<lparr>cf_value = 90, cf_reasons = []\<rparr>, sg_reasons = [], sg_evidence = None,
     sg_stop_loss_source = ''STRUCTURE'', sg_stop_loss_buffer = 1\<rparr>"

text \<open>A budget of one percent of 10000 over a five percent stop distance buys twenty units at 100.\<close>

lemma ex_size: "calculate_position_size 10000 100 95 1 1 ex_contract = Inr (20, 2000)"
  by (simp add: calculate_position_size_def Let_def guard_def round_quantity_def ex_contract_def dec_eval
      dtrunc_def)

definition ex_assessment :: risk_assessment where
  "ex_assessment = \<lparr>ra_approved = True, ra_reasons = [], ra_equity = 10000, ra_existing_open_risk = 0,
     ra_new_risk = 100, ra_aggregate_risk = 100, ra_risk_percent = 1, ra_quantity = 20, ra_total_amount = 2000,
     ra_storm_sl_loss_percent = None, ra_futures_capital_percent = 0, ra_leverage = 1,
     ra_reserved_pending_risk = 0\<rparr>"

lemma ex_equity: "account_equity ex_account = 10000"
  by (simp add: ex_account_def account_equity_def dec_eval)

lemma ex_contract_valid: "contract_validate ex_contract = Inr ()"
  by (simp add: contract_validate_def ex_contract_def guard_def strip_eq_Nil_iff is_space_def)

lemma default_policy_valid: "risk_policy_validate default_policy = Inr ()"
  by (simp add: risk_policy_validate_def default_policy_def percent_ok_def guard_def)

lemma ex_signal_fields:
  "sg_state ex_signal = READY_FOR_RISK_REVIEW" "sg_entry ex_signal = 100" "sg_stop_loss ex_signal = 95"
  by (simp_all add: ex_signal_def)

lemma ex_budgets:
  "risk_budget_amount 10000 1 = Inr 100" "risk_budget_amount 10000 4 = Inr 400" "risk_budget_amount 10000 2 = Inr 200"
  "available_aggregate_risk 10000 4 0 = Inr 400" "aggregate_open_risk [] = Inr 0"
  "candidate_risk_amount 2000 100 95 1 = Inr 100" "dadd 0 0 = 0" "dmul (ddiv 100 10000) 100 = 1" "dadd 0 100 = 100"
  by (simp_all add: risk_budget_amount_def available_aggregate_risk_def aggregate_open_risk_def guard_def
      candidate_risk_amount_def dec_eval)

lemma ex_fields:
  "rp_per_trade default_policy = 1" "rp_aggregate default_policy = 4" "rp_storm default_policy = 10"
  "rp_futures default_policy = 50" "rp_correlated default_policy = 2"
  "cs_min_notional ex_contract = Some 10" "cs_max_leverage ex_contract = Some 5"
  by (simp_all add: default_policy_def ex_contract_def)

lemma ex_assess: "assess_risk ex_account [] ex_signal ex_instrument ex_contract 1 default_policy None 0 0 = Inr ex_assessment"
  by (simp add: assess_risk_def ex_equity ex_signal_fields ex_contract_valid default_policy_valid guard_def
      ex_budgets ex_size ex_fields Let_def storm_loss_of_def futures_percent_def min_reasons_def
      storm_reasons_def limit_reasons_def ex_assessment_def opt_holds_def)

subsection \<open>Orders and databases\<close>

definition ex_order :: "string \<Rightarrow> order_request" where
  "ex_order oid = \<lparr>or_id = oid, or_symbol = ''BTCUSDT'', or_side = LONG, or_type = LIMIT, or_quantity = 2,
     or_requested_price = Some 100, or_stop_loss = 95, or_take_profit = Some 110, or_leverage = 1,
     or_created_at = Aware 0, or_decision_snapshot = None\<rparr>"

definition ex_empty :: connection where
  "ex_empty = \<lparr>cn_committed = db_empty, cn_current = db_empty\<rparr>"

definition ex_row :: "string \<Rightarrow> order_status \<Rightarrow> order_row" where
  "ex_row oid st = \<lparr>ow_request = ex_order oid, ow_status = st,
     ow_filled_price = (if st = ORD_FILLED then Some 100 else None),
     ow_reason = (if st = ORD_ACCEPTED then Some ''limit not fillable'' else None),
     ow_filled_at = (if st = ORD_FILLED then Some (Aware 5) else None)\<rparr>"

definition ex_pending :: "string \<Rightarrow> pending_order" where
  "ex_pending oid = \<lparr>pd_order = ex_order oid, pd_status = ORD_ACCEPTED, pd_accepted_at = Aware 2,
     pd_updated_at = Aware 2, pd_cancel_reason = None, pd_rejection_reason = None\<rparr>"

definition ex_pending_row :: pending_row where
  "ex_pending_row = \<lparr>pw_status = ORD_ACCEPTED, pw_accepted_at = Aware 2, pw_updated_at = Aware 2,
     pw_cancel_reason = None, pw_rejection_reason = None\<rparr>"

text \<open>The database in which order \<open>''o1''\<close> rests in the queue while its row has the given status.\<close>

definition ex_queue :: "order_status \<Rightarrow> connection" where
  "ex_queue st = (let d = db_empty\<lparr>db_orders := [(''o1'', ex_row ''o1'' st)], db_pending := [(''o1'', ex_pending_row)]\<rparr>
     in \<lparr>cn_committed = d, cn_current = d\<rparr>)"

lemma ex_order_fields [simp]:
  "or_id (ex_order oid) = oid" "or_symbol (ex_order oid) = ''BTCUSDT''" "or_side (ex_order oid) = LONG"
  "or_type (ex_order oid) = LIMIT" "or_quantity (ex_order oid) = 2" "or_requested_price (ex_order oid) = Some 100"
  "pd_order (ex_pending oid) = ex_order oid"
  by (simp_all add: ex_order_def ex_pending_def)

lemma ex_order_ok: "order_ok (ex_order ''o1'')"
  by (simp add: order_ok_def ex_order_def strip_eq_Nil_iff is_space_def opt_holds_def)

lemma ex_empty_ok:
  "conn_inv ex_empty" "fills_named ex_empty" "settled ex_empty" "db_orders (cn_current ex_empty) = []"
  by (simp_all add: ex_empty_def conn_inv_def db_inv_def db_empty_def fills_named_def settled_def dict_ok_def)

lemma ex_queue_ok:
  "settled (ex_queue st)" "dget (db_orders (cn_current (ex_queue st))) ''o1'' = Some (ex_row ''o1'' st)"
  "db_fills (cn_current (ex_queue st)) = []" "sql_pending_active (ex_queue st) = Inr [ex_pending ''o1'']"
  by (simp_all add: ex_queue_def Let_def settled_def db_empty_def sql_pending_active_def ex_pending_row_def
      pending_of_row_def ex_pending_def ex_row_def)

end
