(* ===== verification/Data_And_Live.thy ===== *)
theory Data_And_Live
  imports Examples
begin

section \<open>Properties of the live gateway and of the market data path\<close>

text \<open>
  What the live gateway, its readiness check and the market data path promise: the streams, the candle builder, the
  quality checks, the provider router, the cache and the stored equity column. The lemmas are those of
  \<open>Live_Operation\<close>, \<open>Market_Stream\<close>, \<open>Market_Quality\<close>, \<open>Provider_Router\<close> and \<open>Decimal_Text\<close>.
\<close>

subsection \<open>The live gateway\<close>

definition ex_status :: "bool \<Rightarrow> connector_status" where
  "ex_status up = \<lparr>co_venue = ''venue'', co_connected = up, co_authenticated = up, co_trading_enabled = up, co_reason = []\<rparr>"

text \<open>A connector that counts the orders it received; it answers with a fill or raises a timeout after the order arrived.\<close>

definition ex_port :: "bool \<Rightarrow> nat connector" where
  "ex_port answers = \<lparr>ct_status = (\<lambda>_. Inr (ex_status True)),
     ct_submit = (\<lambda>o1 n. (Suc n, if answers then Inr \<lparr>ot_id = or_id o1, ot_status = ORD_FILLED, ot_symbol = or_symbol o1, ot_filled_price = Some 100,
        ot_reason = None, ot_filled_at = Some (Aware 1)\<rparr> else Inl (OtherError ''timeout''))),
     ct_positions = (\<lambda>_. Inr [])\<rparr>"

definition ex_request :: activation_request where
  "ex_request = \<lparr>aq_environment = ''Production'', aq_go_live_approved = True, aq_risk_controls_ready = True,
     aq_health_ready = True, aq_connector_ready = True, aq_positions_synchronized = True,
     aq_critical_incidents_clear = True, aq_explicit_live_enable = True\<rparr>"

definition ex_gateway :: "nat gateway" where
  "ex_gateway = \<lparr>gw_breaker = breaker_new (Aware 0), gw_submitted = {}, gw_connector = 0\<rparr>"

lemma ex_active: "av_active (activation_evaluate ex_request now)"
proof -
  have "lower ''Production'' = ''production''" by (simp add: lower_def lower_char_def) code_simp
  then show ?thesis by (simp add: activation_active_iff ex_request_def)
qed

lemma ex_gates: "gates_open (ex_order ''o1'') (activation_evaluate ex_request now) True (ex_status True) ex_gateway"
  by (simp add: gates_open_def ex_active ex_gateway_def breaker_new_def ex_status_def connector_ready_def)





text \<open>
  A submission that raises is not remembered: when the connector raises after the order reached it, the gateway lets
  the same order id through again, to the venue that may already hold it.
\<close>

theorem gateway_forgets_raised_submission:
  assumes "ct_status port (gw_connector g) = Inr status" "gates_open o1 a ra status g"
    and "ct_submit port o1 (gw_connector g) = (c, Inl e)"
    and "ct_status port c = Inr later" "connector_ready later" "ct_submit port o1 c = (d, y)"
  shows "\<exists>g1 g2 r. gateway_submit port o1 a ra t1 g = (g1, Inl e) \<and> gateway_submit port o1 a ra t2 g1 = (g2, r) \<and>
    gw_connector g2 = d"
proof -
  obtain g1 where g1: "gateway_submit port o1 a ra t1 g = (g1, Inl e)" "gw_connector g1 = c" "gates_open o1 a ra later g1"
    using gateway_retry_passes [OF assms(1-5)] by blast
  have "ct_status port (gw_connector g1) = Inr later" "ct_submit port o1 (gw_connector g1) = (d, y)"
    using assms(4,6) g1(2) by simp_all
  from gateway_open(1) [OF this(1) g1(3) this(2), of t2]
  have "gw_connector (fst (gateway_submit port o1 a ra t2 g1)) = d" by simp
  with g1(1) show ?thesis by (metis prod.collapse)
qed

theorem gateway_forgets_raised_submission_witness:
  "\<exists>g1 g2 r. gateway_submit (ex_port False) (ex_order ''o1'') (activation_evaluate ex_request (Aware 1)) True (Aware 1) ex_gateway
       = (g1, Inl (OtherError ''timeout'')) \<and>
     gateway_submit (ex_port False) (ex_order ''o1'') (activation_evaluate ex_request (Aware 1)) True (Aware 2) g1 = (g2, r) \<and>
     gw_connector g2 = 2"
  by (rule gateway_forgets_raised_submission [where status = "ex_status True" and c = 1
      and later = "ex_status True"])
    (simp_all add: ex_gates, simp_all add: ex_port_def ex_gateway_def ex_status_def connector_ready_def)






subsection \<open>Streams and candles\<close>


definition ex_trade :: "string \<Rightarrow> int \<Rightarrow> rat \<Rightarrow> int \<Rightarrow> trade_event" where
  "ex_trade eid n price seconds = \<lparr>te_provider = ''p'', te_symbol = ''S'', te_event_id = eid, te_sequence = n,
     te_price = price, te_quantity = 1, te_timestamp = Aware (seconds * 10 ^ 6)\<rparr>"

lemma ex_trade_valid: "eid \<noteq> [] \<Longrightarrow> 0 \<le> n \<Longrightarrow> 0 < price \<Longrightarrow> trade_validate (ex_trade eid n price s) = Inr ()"
  by (simp add: trade_validate_Inr ex_trade_def)



text \<open>
  C34. Streaming equals batching: fed trade by trade with any valid trades of a symbol in the order of their buckets, the
  candle builder closes exactly the candles of the batches, the last one being still open. The candle of a batch opens at
  its first price, closes at its last, spans its extremes and adds its quantities in order.
\<close>

theorem candle_stream_equals_batches:
  assumes "in_order (bu_seconds b) s (e # es)" "dget (bu_current b) s = None"
  shows "\<exists>b' closed c. add_trades (e # es) b = (b', Inr closed) \<and> dget (bu_current b') s = Some c \<and>
    closed @ [c] = map (batch_candle b s) (same_runs (bucket_of (bu_seconds b)) (e # es))"
  using assms by (rule add_trades_batch)

theorem candle_stream_equals_batches_witness:
  "\<exists>b' x y. add_trades [ex_trade ''a'' 1 10 5, ex_trade ''b'' 2 12 50, ex_trade ''c'' 3 11 61]
       \<lparr>bu_timeframe = ''1m'', bu_seconds = 60, bu_current = []\<rparr> = (b', Inr [x]) \<and>
     dget (bu_current b') ''S'' = Some y \<and> cd_open x = 10 \<and> cd_high x = 12 \<and> cd_close x = 12 \<and> cd_volume x = 2 \<and> cd_open y = 11"
proof -
  let ?b = "\<lparr>bu_timeframe = ''1m'', bu_seconds = 60, bu_current = []\<rparr>"
  let ?es = "[ex_trade ''a'' 1 10 5, ex_trade ''b'' 2 12 50, ex_trade ''c'' 3 11 61]"
  have u: "upper ''S'' = ''S''" by (simp add: upper_def upper_char_def)
  have bk: "bucket_of 60 (ex_trade i n p 5) = Aware 0" "bucket_of 60 (ex_trade i n p 50) = Aware 0"
    "bucket_of 60 (ex_trade i n p 61) = Aware 60000000" for i n p
    by (simp_all add: bucket_of_def epoch_seconds_def ex_trade_def)
  have "in_order (bu_seconds ?b) ''S'' ?es"
    by (simp add: in_order_def ex_trade_valid bk) (simp add: ex_trade_def u)
  from candle_stream_equals_batches [OF this]
  obtain b' closed c where r: "add_trades ?es ?b = (b', Inr closed)" "dget (bu_current b') ''S'' = Some c"
    "closed @ [c] = map (batch_candle ?b ''S'') (same_runs (bucket_of 60) ?es)" by auto
  have "same_runs (bucket_of 60) ?es = [[ex_trade ''a'' 1 10 5, ex_trade ''b'' 2 12 50], [ex_trade ''c'' 3 11 61]]"
    by (simp add: same_runs.simps bk)
  with r(3) have "closed = [batch_candle ?b ''S'' [ex_trade ''a'' 1 10 5, ex_trade ''b'' 2 12 50]]"
    "c = batch_candle ?b ''S'' [ex_trade ''c'' 3 11 61]" by simp_all
  with r(1,2) show ?thesis
    by (simp add: batch_candle_def) (simp add: ex_trade_def dec_eval)
qed

subsection \<open>Provider routing\<close>

text \<open>
  C35. Whatever price the router returns is one a provider gave, is positive, carries a time zone, is at most the allowed
  age old and at most five seconds in the future.
\<close>

theorem routed_price_reliable:
  assumes "router_live_price max_age now vs r = (r', Inr p)"
  shows "0 < lp_price p \<and> is_aware (lp_as_of p) \<and> instant now - instant (lp_as_of p) \<le> micros max_age \<and>
    instant (lp_as_of p) - instant now \<le> micros 5 \<and> (\<exists>v \<in> set vs. \<exists>n. vi_call v n = Inr p)"
  using assms by (rule router_live_price_sound)

definition ex_router :: router where
  "ex_router = \<lparr>ro_retry_attempts = 2, ro_backoff = 1 / 10, ro_threshold = 3, ro_recovery_seconds = 30, ro_circuits = []\<rparr>"

definition ex_price :: "int \<Rightarrow> live_price" where
  "ex_price t = \<lparr>lp_symbol = ''S'', lp_price = 10, lp_as_of = Aware (t * 10 ^ 6), lp_provider = ''p''\<rparr>"

definition ex_visit :: "string \<Rightarrow> 'a res \<Rightarrow> rat \<Rightarrow> 'a visit" where
  "ex_visit name x t = \<lparr>vi_name = name, vi_checked_at = t, vi_failed_at = t, vi_call = (\<lambda>_. x)\<rparr>"

text \<open>The first provider's price is stale, the second one's is not.\<close>

lemma ex_failover:
  "\<exists>r'. router_live_price 120 (Aware (1000 * 10 ^ 6)) [ex_visit ''a'' (Inr (ex_price 0)) 0, ex_visit ''b'' (Inr (ex_price 990)) 0]
     ex_router = (r', Inr (ex_price 990))"
  by (simp add: router_live_price_def visit_provider_def before_call_def circuit_is_open_def breaker_of_def ex_router_def
      ex_visit_def ex_price_def healthy_def call_with_retry_def numeral_2_eq_2 require_quality_def price_quality_def utc_def
      guard_def quality_of_def micros_def put_breaker_def)

theorem routed_price_reliable_witness:
  "instant (Aware (1000 * 10 ^ 6)) - instant (lp_as_of (ex_price 990)) \<le> micros 120"
proof -
  obtain r' where "router_live_price 120 (Aware (1000 * 10 ^ 6)) [ex_visit ''a'' (Inr (ex_price 0)) 0,
      ex_visit ''b'' (Inr (ex_price 990)) 0] ex_router = (r', Inr (ex_price 990))" using ex_failover by blast
  from routed_price_reliable [OF this] show ?thesis by blast
qed

text \<open>
  Whatever candles the router returns for a timeframe are not empty, of that timeframe, consistent (low and high enclose
  open and close, no negative volume), at least one step apart and exactly one step apart unless the provider may have
  session gaps, and their last one is fresh.
\<close>

theorem routed_candles_reliable:
  assumes "router_candles (Some tf) (Some max_age) now gaps vs r = (r', Inr (Inr cs))"
  shows "\<exists>step. map_of timeframe_table tf = Some step \<and> cs \<noteq> [] \<and>
    (\<exists>v \<in> set vs. (\<exists>n. vi_call v n = Inr cs) \<and> spaced (lower (vi_name v) \<in> set gaps) step None cs) \<and>
    (\<forall>c \<in> set cs. is_aware (cd_timestamp c) \<and> cd_timeframe c = tf \<and> ohlc_ok c) \<and>
    - micros 5 \<le> instant now - instant (cd_timestamp (last cs)) \<and>
    instant now - instant (cd_timestamp (last cs)) \<le> micros max_age"
proof -
  have "route_candles (Some tf) (Some max_age) now gaps vs r = (r', Inr cs)"
    using assms by (auto simp: router_candles_def split: prod.splits)
  then obtain v where v: "v \<in> set vs" "\<exists>n. vi_call v n = Inr cs"
    "candles_check (Some tf) (Some max_age) now gaps (vi_name v) cs = Inr ()" using route_candles_Inr by blast
  from candles_check_sound [OF v(3)] obtain s where "map_of timeframe_table tf = Some s" "cs \<noteq> []"
    "spaced (lower (vi_name v) \<in> set gaps) s None cs"
    "\<forall>c \<in> set cs. is_aware (cd_timestamp c) \<and> cd_timeframe c = tf \<and> ohlc_ok c"
    "- micros 5 \<le> instant now - instant (cd_timestamp (last cs))"
    "instant now - instant (cd_timestamp (last cs)) \<le> micros max_age" .
  then show ?thesis using v(1,2) by blast
qed

definition ex_candle :: "int \<Rightarrow> rat \<Rightarrow> candle" where
  "ex_candle t price = \<lparr>cd_symbol = ''S'', cd_timeframe = ''1m'', cd_timestamp = Aware (t * 10 ^ 6), cd_open = price,
     cd_high = price, cd_low = price, cd_close = price, cd_volume = 1\<rparr>"

lemma ex_route_candles:
  "\<exists>r'. router_candles (Some ''1m'') (Some 180) (Aware (200 * 10 ^ 6)) [''yahoo'']
     [ex_visit ''b'' (Inr [ex_candle 60 10, ex_candle 120 11]) 0] ex_router = (r', Inr (Inr [ex_candle 60 10, ex_candle 120 11]))"
proof -
  have "validate_candles [ex_candle 60 10, ex_candle 120 11] (Some ''1m'') (Aware (200 * 10 ^ 6)) (Some 180) False g =
      Inr (quality_of [] [])" for g
    by (simp add: validate_candles_def series_step_def table_lookup_def timeframe_table_def ex_candle_def timeframe_notes_def
        ohlc_notes_def spacing_notes_def micros_def age_notes_def utc_def guard_def completeness_notes_def)
  moreover have "detect_price_outliers [ex_candle 60 10, ex_candle 120 11] (1 / 2) = Inr (quality_of [] [])"
    by (simp add: detect_price_outliers_def guard_def ex_candle_def Let_def dec_eval)
  ultimately have "candles_check (Some ''1m'') (Some 180) (Aware (200 * 10 ^ 6)) [''yahoo''] ''b''
      [ex_candle 60 10, ex_candle 120 11] = Inr ()"
    by (simp add: candles_check_def require_quality_def quality_merge_def quality_of_def)
  then show ?thesis
    by (simp add: router_candles_def visit_provider_def before_call_def circuit_is_open_def breaker_of_def ex_router_def
        ex_visit_def healthy_def call_with_retry_def numeral_2_eq_2)
qed

theorem routed_candles_reliable_witness: "ohlc_ok (ex_candle 60 10) \<and> ohlc_ok (ex_candle 120 11)"
proof -
  obtain r' where "router_candles (Some ''1m'') (Some 180) (Aware (200 * 10 ^ 6)) [''yahoo'']
      [ex_visit ''b'' (Inr [ex_candle 60 10, ex_candle 120 11]) 0] ex_router
    = (r', Inr (Inr [ex_candle 60 10, ex_candle 120 11]))" using ex_route_candles by blast
  from routed_candles_reliable [OF this] show ?thesis by auto
qed

text \<open>
  A provider that is asked again sooner than the recovery time of its circuit never comes back: once its circuit is
  open, every later poll is refused, however many there are and however much time passes in total, although the provider
  may answer. A refused poll counts as a failure and opens the circuit anew.
\<close>

theorem polled_circuit_never_recovers:
  assumes "ph_opened_at (ci_health (breaker_of name r)) = Some t"
    and "ci_threshold (breaker_of name r) \<le> ph_failures (ci_health (breaker_of name r))"
    and "quick_polls name (ci_recovery_seconds (breaker_of name r)) t vs"
  shows "snd (polls check vs r) = replicate (length vs) (Inl (RuntimeError ''provider circuit is open''))"
  using assms by (rule polls_blocked)

definition ex_open_router :: router where
  "ex_open_router = put_breaker ''b'' \<lparr>ci_threshold = 3, ci_recovery_seconds = 30,
     ci_health = \<lparr>ph_failures = 3, ph_opened_at = Some 0\<rparr>\<rparr> ex_router"

text \<open>Three polls twenty seconds apart, of a provider that would answer: the last one comes sixty seconds after the failure.\<close>

theorem polled_circuit_never_recovers_witness:
  "snd (polls (\<lambda>_. Inr ()) [ex_visit ''b'' (Inr (ex_price 990)) 20, ex_visit ''b'' (Inr (ex_price 990)) 40,
      ex_visit ''b'' (Inr (ex_price 990)) 60] ex_open_router)
   = replicate 3 (Inl (RuntimeError ''provider circuit is open''))"
proof -
  have b: "breaker_of ''b'' ex_open_router = \<lparr>ci_threshold = 3, ci_recovery_seconds = 30,
      ci_health = \<lparr>ph_failures = 3, ph_opened_at = Some 0\<rparr>\<rparr>" by (simp add: ex_open_router_def)
  show ?thesis
    by (subst polled_circuit_never_recovers [where name = "''b''" and t = 0]) (simp_all add: b ex_visit_def numeral_3_eq_3)
qed

text \<open>
  The candle cache keeps every series sorted strictly by time, within its length, and its newest candle last: over
  any candles with time zones put into it, and a candle no older than its series is the last one of it afterwards.
\<close>

theorem cache_series_sorted:
  assumes "cache_ok c" "\<forall>x \<in> set xs. is_aware (cd_timestamp x)" "is_aware (cd_timestamp x)"
  shows "cache_ok (put_candle x (put_candles xs c)) \<and>
    ((\<forall>y \<in> set (case dget (mc_candles (put_candles xs c)) (upper (cd_symbol x), cd_timeframe x) of None \<Rightarrow> [] | Some s \<Rightarrow> s).
        instant (cd_timestamp y) \<le> instant (cd_timestamp x)) \<longrightarrow>
     (\<exists>s. dget (mc_candles (put_candle x (put_candles xs c))) (upper (cd_symbol x), cd_timeframe x) = Some s \<and>
        s \<noteq> [] \<and> last s = x))"
proof -
  have "cache_ok c \<Longrightarrow> \<forall>x \<in> set xs. is_aware (cd_timestamp x) \<Longrightarrow> cache_ok (put_candles xs c)"
    unfolding put_candles_def by (induction xs arbitrary: c) (simp_all add: put_candle_series(1))
  then show ?thesis using put_candle_series [of "put_candles xs c" x] assms by blast
qed

theorem cache_series_sorted_witness:
  "\<exists>c. cache_new 2 = Inr c \<and> cache_ok (put_candle (ex_candle 120 11) (put_candles [ex_candle 60 10] c))"
proof -
  obtain c where c: "cache_new 2 = Inr c" "cache_ok c" by (simp add: cache_new_def guard_def cache_ok_def)
  then show ?thesis using cache_series_sorted [of c "[ex_candle 60 10]" "ex_candle 120 11"] by (simp add: ex_candle_def)
qed

subsection \<open>The stored equity\<close>

text \<open>
  C36. The equity column holds its number: the text under which any finite decimal that is not negative is stored, with or
  without an exponent, is read back as that number, and a negative one is refused.
\<close>

theorem equity_text_roundtrip:
  "(0 \<le> dec_value d \<longrightarrow> (\<exists>t. save_equity_column d = Inr t \<and> load_equity_column (Some t) = Inr (dec_value d))) \<and>
   (dec_value d < 0 \<longrightarrow> save_equity_column d = Inl (ValueError ''equity cannot be negative''))"
proof -
  have "save_equity_column d = Inr (dec_str d)" if "0 \<le> dec_value d" using that by (simp add: save_equity_column_def guard_def)
  then show ?thesis using equity_column_roundtrip [of d] by (auto simp: save_equity_column_def guard_def)
qed

theorem equity_text_roundtrip_witness:
  "\<exists>t. save_equity_column \<lparr>dl_negative = False, dl_coefficient = 12345, dl_exponent = - 2\<rparr> = Inr t \<and>
     load_equity_column (Some t) = Inr (12345 / 100)"
  using equity_text_roundtrip [of "\<lparr>dl_negative = False, dl_coefficient = 12345, dl_exponent = - 2\<rparr>"]
  by (simp add: dec_value_def p10_def)

end
