(* ===== verification/Opportunity.thy ===== *)
theory Opportunity
  imports Journal
begin

section \<open>From markets to prepared orders: context, strategy pipeline, hard gates, ranking\<close>

text \<open>
  \<^verbatim>\<open>app/context/context_engine.py\<close> and \<^verbatim>\<open>app/application\<close>: \<^verbatim>\<open>strategy_pipeline.py\<close>, \<^verbatim>\<open>opportunity_pipeline.py\<close>,
  \<^verbatim>\<open>decision_evidence.py\<close>, \<^verbatim>\<open>order_preparation.py\<close>. The loaders of snapshots, context and risk are arguments, functions of
  the symbol that may raise. The thread pool returns the results in the order of the symbols and raises the first
  exception in that order; it is the map over the list here. The text of an exception, of a decision's evidence and the
  hashed order id are arguments.
\<close>

subsection \<open>News and event context\<close>

datatype news_impact = NEWS_SUPPORTIVE | NEWS_NEUTRAL | NEWS_ADVERSE | NEWS_UNKNOWN

datatype event_importance = EVENT_NONE | EVENT_LOW | EVENT_MEDIUM | EVENT_HIGH | EVENT_CRITICAL

record news_item =
  ne_symbol :: "string option"
  ne_published_at :: datetime
  ne_impact :: news_impact

record economic_event =
  ee_event_time :: datetime
  ee_importance :: event_importance
  ee_actual :: "rat option"
  ee_forecast :: "rat option"
  ee_symbols :: "string list"

text \<open>The figures are floats; their difference stands for the float one.\<close>

definition event_surprise :: "economic_event \<Rightarrow> rat option" where
  "event_surprise e = (case (ee_actual e, ee_forecast e) of (Some a, Some f) \<Rightarrow> Some (a - f) | _ \<Rightarrow> None)"

record context_assessment =
  cx_news :: news_impact
  cx_event :: event_importance
  cx_reasons :: "string list"
  cx_blocking :: bool
  cx_delay :: bool
  cx_surprise :: "rat option"

definition context_tradable :: "context_assessment \<Rightarrow> bool" where
  "context_tradable c \<longleftrightarrow> \<not> cx_blocking c"

text \<open>Time spans in microseconds.\<close>

record context_policy =
  cn_critical_pre :: int
  cn_critical_post :: int
  cn_high_pre :: int
  cn_high_post :: int
  cn_stale_news :: int
  cn_block_critical :: bool
  cn_delay_high :: bool

definition minutes :: "int \<Rightarrow> int" where
  "minutes n = n * 60 * 10 ^ 6"

definition default_context_policy :: context_policy where
  "default_context_policy = \<lparr>cn_critical_pre = minutes 30, cn_critical_post = minutes 15, cn_high_pre = minutes 15,
     cn_high_post = minutes 10, cn_stale_news = minutes (24 * 60), cn_block_critical = True, cn_delay_high = True\<rparr>"

definition context_utc :: "datetime \<Rightarrow> int res" where
  "context_utc t = guard (\<not> is_aware t) (ValueError ''datetime must be timezone-aware'') (Inr (instant t))"

definition event_active :: "economic_event \<Rightarrow> int \<Rightarrow> int \<Rightarrow> int \<Rightarrow> bool res" where
  "event_active e now pre post =
     res_bind (context_utc (ee_event_time e)) (\<lambda>t. Inr (- pre \<le> now - t \<and> now - t \<le> post))"

text \<open>The relevant news of the last hours; the time of an item is looked at only when its symbol matches.\<close>

fun fresh_news :: "string \<Rightarrow> int \<Rightarrow> int \<Rightarrow> news_item list \<Rightarrow> news_item list res" where
  "fresh_news symbol now stale [] = Inr []"
| "fresh_news symbol now stale (n # ns) =
     (if ne_symbol n = None \<or> ne_symbol n = Some symbol then
        res_bind (context_utc (ne_published_at n)) (\<lambda>t.
        res_bind (fresh_news symbol now stale ns) (\<lambda>rest.
          Inr (if now - stale \<le> t \<and> t \<le> now then n # rest else rest)))
      else fresh_news symbol now stale ns)"

definition merge_news :: "news_item list \<Rightarrow> string \<Rightarrow> int \<Rightarrow> context_policy \<Rightarrow> (news_impact \<times> string list) res" where
  "merge_news items symbol now policy =
     res_bind (fresh_news symbol now (cn_stale_news policy) items) (\<lambda>cs.
       Inr (if cs = [] then (NEWS_UNKNOWN, [''no_fresh_relevant_news''])
            else if \<exists>n \<in> set cs. ne_impact n = NEWS_ADVERSE then (NEWS_ADVERSE, [''adverse_relevant_news''])
            else if \<exists>n \<in> set cs. ne_impact n = NEWS_SUPPORTIVE then (NEWS_SUPPORTIVE, [''supportive_relevant_news''])
            else if \<forall>n \<in> set cs. ne_impact n = NEWS_NEUTRAL then (NEWS_NEUTRAL, [''neutral_relevant_news''])
            else (NEWS_UNKNOWN, [''mixed_or_unknown_news_impact''])))"

definition event_window :: "context_policy \<Rightarrow> event_importance \<Rightarrow> int \<times> int" where
  "event_window policy i =
     (if i = EVENT_CRITICAL then (cn_critical_pre policy, cn_critical_post policy)
      else if i = EVENT_HIGH then (cn_high_pre policy, cn_high_post policy) else (0, 0))"

fun active_events :: "string \<Rightarrow> int \<Rightarrow> context_policy \<Rightarrow> economic_event list \<Rightarrow> economic_event list res" where
  "active_events symbol now policy [] = Inr []"
| "active_events symbol now policy (e # es) =
     (if ee_symbols e \<noteq> [] \<and> symbol \<notin> set (ee_symbols e) then active_events symbol now policy es
      else case event_window policy (ee_importance e) of (pre, post) \<Rightarrow>
        res_bind (event_active e now pre post) (\<lambda>active.
        res_bind (active_events symbol now policy es) (\<lambda>rest. Inr (if active then e # rest else rest))))"

definition of_importance :: "event_importance \<Rightarrow> economic_event list \<Rightarrow> economic_event list" where
  "of_importance i = filter (\<lambda>e. ee_importance e = i)"

definition event_state ::
  "economic_event list \<Rightarrow> string \<Rightarrow> int \<Rightarrow> context_policy \<Rightarrow> (event_importance \<times> string list \<times> rat option) res" where
  "event_state events symbol now policy =
     res_bind (active_events symbol now policy events) (\<lambda>active.
       Inr (case of_importance EVENT_CRITICAL active of
              e # _ \<Rightarrow> (EVENT_CRITICAL, [''critical_event_window_active''], event_surprise e)
            | [] \<Rightarrow> (case of_importance EVENT_HIGH active of
              e # _ \<Rightarrow> (EVENT_HIGH, [''high_event_window_active''], event_surprise e)
            | [] \<Rightarrow>
                if of_importance EVENT_MEDIUM active \<noteq> [] then (EVENT_MEDIUM, [''medium_event_active''], None)
                else if of_importance EVENT_LOW active \<noteq> [] then (EVENT_LOW, [''low_event_active''], None)
                else (EVENT_NONE, [''no_high_impact_event_window''], None))))"

definition assess_context ::
  "context_policy \<Rightarrow> string \<Rightarrow> news_item list \<Rightarrow> economic_event list \<Rightarrow> datetime \<Rightarrow> context_assessment res" where
  "assess_context policy symbol news events now =
     guard (symbol = []) (ValueError ''symbol must not be empty'')
     (res_bind (context_utc now) (\<lambda>current.
      res_bind (merge_news news symbol current policy) (\<lambda>(news_state, news_reasons).
      res_bind (event_state events symbol current policy) (\<lambda>(event, event_reasons, surprise).
        Inr \<lparr>cx_news = news_state, cx_event = event, cx_reasons = news_reasons @ event_reasons,
             cx_blocking = (event = EVENT_CRITICAL \<and> cn_block_critical policy),
             cx_delay = (event = EVENT_HIGH \<and> cn_delay_high policy), cx_surprise = surprise\<rparr>))))"

subsection \<open>The strategy pipeline\<close>

record strategy_rejection =
  sj_symbol :: string
  sj_reasons :: "string list"
  sj_score :: "rat option"
  sj_confidence :: "rat option"
  sj_state :: string

type_synonym snapshots = "market_snapshot \<times> market_snapshot \<times> market_snapshot \<times> market_snapshot"

fun is_value_error :: "exn \<Rightarrow> bool" where
  "is_value_error (ValueError s) = True"
| "is_value_error (ValueErrorV s v) = True"
| "is_value_error (SymbolMappingError s) = True"
| "is_value_error e = False"

fun is_data_error :: "exn \<Rightarrow> bool" where
  "is_data_error (KeyError s) = True"
| "is_data_error (ProviderError s) = True"
| "is_data_error e = is_value_error e"

fun state_value :: "strategy_state \<Rightarrow> string" where
  "state_value NO_TRADE = ''NO_TRADE''"
| "state_value WAIT = ''WAIT''"
| "state_value SETUP_DETECTED = ''SETUP_DETECTED''"
| "state_value SIGNAL_GENERATED = ''SIGNAL_GENERATED''"
| "state_value READY_FOR_RISK_REVIEW = ''READY_FOR_RISK_REVIEW''"
| "state_value STRATEGY_REJECTED = ''REJECTED''"

definition evaluate_symbol ::
  "(exn \<Rightarrow> string) \<Rightarrow> (string \<Rightarrow> snapshots res) \<Rightarrow> string \<Rightarrow> (strategy_rejection + strategy_signal) res" where
  "evaluate_symbol text loader symbol =
     (case loader symbol of
        Inl e \<Rightarrow>
          if is_data_error e then Inr (Inl \<lparr>sj_symbol = symbol, sj_reasons = [text e], sj_score = None, sj_confidence = None,
            sj_state = ''DATA_ERROR''\<rparr>)
          else Inl e
      | Inr (daily, four_hour, one_hour, fifteen) \<Rightarrow>
          (case evaluate_strategy daily four_hour one_hour fifteen default_rules of
             Inl e \<Rightarrow>
               if is_value_error e then Inr (Inl \<lparr>sj_symbol = symbol, sj_reasons = [text e], sj_score = None,
                 sj_confidence = None, sj_state = ''NO_TRADE''\<rparr>)
               else Inl e
           | Inr s \<Rightarrow>
               if sg_state s = READY_FOR_RISK_REVIEW then Inr (Inr s)
               else Inr (Inl \<lparr>sj_symbol = symbol,
                 sj_reasons = (if sg_reasons s = [] then [''strategy state is '' @ state_value (sg_state s)] else sg_reasons s),
                 sj_score = Some (sg_score s), sj_confidence = Some (sg_confidence s), sj_state = state_value (sg_state s)\<rparr>)))"

text \<open>Descending and stable, as Python sorts in reverse.\<close>

definition signal_key :: "strategy_signal \<Rightarrow> rat \<times> rat \<times> rat" where
  "signal_key s = (sg_score s, sg_confidence s, sg_rr s)"

definition sort_desc :: "('a \<Rightarrow> 'k :: linorder) \<Rightarrow> 'a list \<Rightarrow> 'a list" where
  "sort_desc key xs = rev (sort_key key (rev xs))"

definition rank_signals :: "strategy_signal list \<Rightarrow> strategy_signal list" where
  "rank_signals = sort_desc signal_key"

record strategy_pipeline =
  yp_loader :: "string \<Rightarrow> snapshots res"
  yp_max_workers :: nat

definition strategy_pipeline_make :: "(string \<Rightarrow> snapshots res) \<Rightarrow> nat \<Rightarrow> strategy_pipeline res" where
  "strategy_pipeline_make loader workers =
     guard (workers < 1) (ValueError ''max_workers must be positive'') (Inr \<lparr>yp_loader = loader, yp_max_workers = workers\<rparr>)"

text \<open>With one worker the code evaluates the first symbol only, whatever their number.\<close>

definition scan_symbols ::
  "(exn \<Rightarrow> string) \<Rightarrow> strategy_pipeline \<Rightarrow> string list \<Rightarrow> (strategy_rejection + strategy_signal) list res" where
  "scan_symbols text p symbols =
     (if min (yp_max_workers p) (length symbols) = 1
      then res_bind (evaluate_symbol text (yp_loader p) (hd symbols)) (\<lambda>r. Inr [r])
      else res_map (evaluate_symbol text (yp_loader p)) symbols)"

definition lefts :: "('a + 'b) list \<Rightarrow> 'a list" where
  "lefts xs = concat (map (\<lambda>x. case x of Inl a \<Rightarrow> [a] | Inr b \<Rightarrow> []) xs)"

definition rights :: "('a + 'b) list \<Rightarrow> 'b list" where
  "rights xs = concat (map (\<lambda>x. case x of Inl a \<Rightarrow> [] | Inr b \<Rightarrow> [b]) xs)"

definition evaluate_all ::
  "(exn \<Rightarrow> string) \<Rightarrow> strategy_pipeline \<Rightarrow> string list \<Rightarrow> (nat \<times> strategy_signal list \<times> strategy_rejection list) res" where
  "evaluate_all text p symbols =
     (if symbols = [] then Inr (0, [], [])
      else res_bind (scan_symbols text p symbols) (\<lambda>rs. Inr (length symbols, rank_signals (rights rs), lefts rs)))"

record strategy_opportunity =
  so_signal :: strategy_signal
  so_rank :: nat

record strategy_pipeline_result =
  yr_evaluated :: nat
  yr_qualified :: "strategy_opportunity list"
  yr_rejected :: "strategy_rejection list"

definition ranked :: "'a list \<Rightarrow> (nat \<times> 'a) list" where
  "ranked xs = zip [1 ..< Suc (length xs)] xs"

definition strategy_pipeline_evaluate ::
  "(exn \<Rightarrow> string) \<Rightarrow> strategy_pipeline \<Rightarrow> string list \<Rightarrow> int \<Rightarrow> strategy_pipeline_result res" where
  "strategy_pipeline_evaluate text p symbols top_n =
     guard (top_n < 1) (ValueError ''top_n must be positive'')
     (res_bind (evaluate_all text p symbols) (\<lambda>(n, signals, rejections).
        Inr \<lparr>yr_evaluated = n,
             yr_qualified = map (\<lambda>(k, s). \<lparr>so_signal = s, so_rank = k\<rparr>) (ranked (take (nat top_n) signals)),
             yr_rejected = rejections\<rparr>))"

subsection \<open>Decision evidence\<close>

record decision_evidence =
  de_symbol :: string
  de_direction :: string
  de_setup :: string
  de_score :: rat
  de_confidence :: rat
  de_planned_rr :: rat
  de_score_components :: "(string \<times> rat) list"
  de_strategy_quality :: "(string \<times> rat) list"
  de_market_regime :: string
  de_htf_trend :: string
  de_structure_state :: string
  de_context_news :: news_impact
  de_context_event :: event_importance
  de_context_blocking :: bool
  de_context_delay :: bool
  de_provider :: "string option"
  de_new_risk :: rat
  de_risk_percent :: rat
  de_aggregate_risk :: rat
  de_portfolio_aggregate_risk_percent :: rat
  de_correlated_risk_percent :: rat
  de_futures_capital_percent :: rat
  de_reserved_pending_risk :: rat

definition score_components :: "strategy_signal \<Rightarrow> (string \<times> rat) list" where
  "score_components s =
     (let b = sg_score_breakdown s in
      [(''htf_trend'', sc_htf_trend b), (''structure'', sc_structure b), (''setup'', sc_setup b),
       (''confirmation'', sc_confirmation b), (''liquidity'', sc_liquidity b), (''volatility'', sc_volatility b),
       (''rr_quality'', sc_rr_quality b)])"

definition strategy_quality_of :: "strategy_evidence \<Rightarrow> (string \<times> rat) list" where
  "strategy_quality_of e =
     [(''data_quality'', ev_data_quality e), (''htf_alignment'', ev_htf_alignment_quality e),
      (''structure'', ev_structure_quality e), (''setup'', ev_setup_quality e),
      (''confirmation'', ev_confirmation_quality e), (''liquidity'', ev_liquidity_quality e),
      (''volatility'', ev_volatility_quality e), (''rr'', ev_rr_quality e)]"

definition build_evidence ::
  "strategy_signal \<Rightarrow> context_assessment option \<Rightarrow> risk_assessment \<Rightarrow> portfolio_assessment \<Rightarrow> string option \<Rightarrow> decision_evidence" where
  "build_evidence s context risk portfolio provider =
     \<lparr>de_symbol = sg_symbol s, de_direction = sg_direction s, de_setup = sg_setup s, de_score = sg_score s,
      de_confidence = sg_confidence s, de_planned_rr = sg_rr s, de_score_components = score_components s,
      de_strategy_quality = (case sg_evidence s of None \<Rightarrow> [] | Some e \<Rightarrow> strategy_quality_of e),
      de_market_regime = (case sg_evidence s of None \<Rightarrow> ''UNKNOWN'' | Some e \<Rightarrow> ev_market_regime e),
      de_htf_trend = (case sg_evidence s of None \<Rightarrow> ''UNKNOWN'' | Some e \<Rightarrow> ev_htf_trend e),
      de_structure_state = (case sg_evidence s of None \<Rightarrow> ''UNKNOWN'' | Some e \<Rightarrow> ev_structure_state e),
      de_context_news = (case context of None \<Rightarrow> NEWS_UNKNOWN | Some c \<Rightarrow> cx_news c),
      de_context_event = (case context of None \<Rightarrow> EVENT_NONE | Some c \<Rightarrow> cx_event c),
      de_context_blocking = (case context of None \<Rightarrow> False | Some c \<Rightarrow> cx_blocking c),
      de_context_delay = (case context of None \<Rightarrow> False | Some c \<Rightarrow> cx_delay c),
      de_provider = provider, de_new_risk = ra_new_risk risk, de_risk_percent = ra_risk_percent risk,
      de_aggregate_risk = ra_aggregate_risk risk,
      de_portfolio_aggregate_risk_percent = pa_aggregate_risk_percent portfolio,
      de_correlated_risk_percent = pa_correlated_risk_percent portfolio,
      de_futures_capital_percent = pa_futures_capital_percent portfolio,
      de_reserved_pending_risk = pa_reserved_pending_risk portfolio\<rparr>"

subsection \<open>The hard gates\<close>

datatype gate_stage = STAGE_STRATEGY | STAGE_CONTEXT | STAGE_RISK | STAGE_PORTFOLIO | STAGE_COMPLETE

datatype gate_outcome = OUT_NO_TRADE | OUT_HOLD | OUT_REJECTED | OUT_QUALIFIED

record gate_rejection =
  gr_symbol :: string
  gr_stage :: gate_stage
  gr_outcome :: gate_outcome
  gr_reasons :: "string list"

record risk_context =
  kx_account :: account
  kx_positions :: "position list"
  kx_instrument :: instrument
  kx_contract :: contract_spec
  kx_leverage :: rat
  kx_provider :: "string option"
  kx_correlation :: rat
  kx_reserved_pending_risk :: rat
  kx_correlation_matrix :: "correlation_pair list option"

record gated_opportunity =
  go_signal :: strategy_signal
  go_risk :: risk_assessment
  go_portfolio :: portfolio_assessment
  go_rank :: nat
  go_evidence :: "decision_evidence option"

text \<open>An evaluation keeps the signal its fields are copied from; a strategy rejection has none.\<close>

record market_evaluation =
  me_symbol :: string
  me_status :: gate_outcome
  me_gate_stage :: gate_stage
  me_rank :: "nat option"
  me_is_top_10 :: bool
  me_signal :: "strategy_signal option"
  me_news_impact :: news_impact
  me_event_importance :: event_importance
  me_reasons :: "string list"

definition evaluation_of ::
  "strategy_signal \<Rightarrow> gate_outcome \<Rightarrow> gate_stage \<Rightarrow> string list \<Rightarrow> nat option \<Rightarrow> bool \<Rightarrow> context_assessment option
    \<Rightarrow> market_evaluation" where
  "evaluation_of s status stage reasons rank top10 context =
     \<lparr>me_symbol = sg_symbol s, me_status = status, me_gate_stage = stage, me_rank = rank, me_is_top_10 = top10,
      me_signal = Some s, me_news_impact = (case context of None \<Rightarrow> NEWS_UNKNOWN | Some c \<Rightarrow> cx_news c),
      me_event_importance = (case context of None \<Rightarrow> EVENT_NONE | Some c \<Rightarrow> cx_event c), me_reasons = reasons\<rparr>"

definition rejected_evaluation :: "strategy_rejection \<Rightarrow> market_evaluation" where
  "rejected_evaluation j = \<lparr>me_symbol = sj_symbol j, me_status = OUT_NO_TRADE, me_gate_stage = STAGE_STRATEGY, me_rank = None,
     me_is_top_10 = False, me_signal = None, me_news_impact = NEWS_UNKNOWN, me_event_importance = EVENT_NONE,
     me_reasons = sj_reasons j\<rparr>"

record opportunity_pipeline =
  op_strategy :: strategy_pipeline
  op_risk_loader :: "string \<Rightarrow> risk_context res"
  op_context_loader :: "(string \<Rightarrow> context_assessment res) option"
  op_risk_policy :: risk_policy
  op_portfolio_policy :: portfolio_policy

definition opportunity_pipeline_make ::
  "strategy_pipeline \<Rightarrow> (string \<Rightarrow> risk_context res) \<Rightarrow> (string \<Rightarrow> context_assessment res) option \<Rightarrow> risk_policy
    \<Rightarrow> portfolio_policy option \<Rightarrow> opportunity_pipeline" where
  "opportunity_pipeline_make strategy loader contexts policy portfolio =
     \<lparr>op_strategy = strategy, op_risk_loader = loader, op_context_loader = contexts, op_risk_policy = policy,
      op_portfolio_policy = (case portfolio of Some p \<Rightarrow> p
        | None \<Rightarrow> \<lparr>pp_aggregate = rp_aggregate policy, pp_correlated = rp_correlated policy, pp_futures = rp_futures policy\<rparr>)\<rparr>"

datatype gate_verdict =
    Held "string list"
  | Risk_Rejected "string list"
  | Portfolio_Rejected "string list"
  | Gated risk_assessment portfolio_assessment decision_evidence

definition correlated_open_risk :: "risk_context \<Rightarrow> string \<Rightarrow> rat \<Rightarrow> rat res" where
  "correlated_open_risk k symbol existing =
     (case kx_correlation_matrix k of
        Some pairs \<Rightarrow> res_bind (candidate_exposure pairs symbol 0 (kx_positions k) (3 / 5)) (\<lambda>e. Inr (ce_correlated_risk e))
      | None \<Rightarrow> res_bind (correlation_risk_multiplier (kx_correlation k)) (\<lambda>m. Inr (dmul existing m)))"

definition gate_risk :: "opportunity_pipeline \<Rightarrow> strategy_signal \<Rightarrow> risk_context \<Rightarrow> risk_assessment res" where
  "gate_risk p s k =
     res_bind (aggregate_open_risk (kx_positions k)) (\<lambda>existing.
     res_bind (correlated_open_risk k (sg_symbol s) existing) (\<lambda>correlated.
       assess_risk (kx_account k) (kx_positions k) s (kx_instrument k) (kx_contract k) (kx_leverage k) (op_risk_policy p)
         (kx_provider k) correlated (kx_reserved_pending_risk k)))"

definition gate_portfolio ::
  "opportunity_pipeline \<Rightarrow> strategy_signal \<Rightarrow> risk_context \<Rightarrow> risk_assessment \<Rightarrow> portfolio_assessment res" where
  "gate_portfolio p s k risk =
     assess_portfolio (account_equity (kx_account k)) (kx_positions k) (ra_new_risk risk) (ra_total_amount risk)
       (kx_correlation k) (op_portfolio_policy p) (if 1 < kx_leverage k then ra_total_amount risk else 0)
       (kx_reserved_pending_risk k) (Some (sg_symbol s)) (kx_correlation_matrix k)"

definition gate_rest ::
  "opportunity_pipeline \<Rightarrow> strategy_signal \<Rightarrow> context_assessment option \<Rightarrow> gate_verdict res" where
  "gate_rest p s context =
     res_bind (op_risk_loader p (sg_symbol s)) (\<lambda>k.
     res_bind (gate_risk p s k) (\<lambda>risk.
       if \<not> ra_approved risk then Inr (Risk_Rejected (ra_reasons risk))
       else res_bind (gate_portfolio p s k risk) (\<lambda>portfolio.
         if \<not> pa_approved portfolio then Inr (Portfolio_Rejected (pa_reasons portfolio))
         else Inr (Gated risk portfolio (build_evidence s context risk portfolio (kx_provider k))))))"

definition gate_signal :: "opportunity_pipeline \<Rightarrow> strategy_signal \<Rightarrow> (context_assessment option \<times> gate_verdict) res" where
  "gate_signal p s =
     (case op_context_loader p of
        None \<Rightarrow> res_bind (gate_rest p s None) (\<lambda>v. Inr (None, v))
      | Some load \<Rightarrow> res_bind (load (sg_symbol s)) (\<lambda>c.
          if cx_blocking c \<or> cx_delay c then Inr (Some c, Held (cx_reasons c))
          else res_bind (gate_rest p s (Some c)) (\<lambda>v. Inr (Some c, v))))"

record gate_state =
  gs_gated :: "(strategy_signal \<times> risk_assessment \<times> portfolio_assessment \<times> decision_evidence) list"
  gs_rejections :: "gate_rejection list"
  gs_evaluations :: "(string, market_evaluation) dict"
  gs_contexts :: "(string, context_assessment) dict"
  gs_context_rejected :: nat
  gs_risk_rejected :: nat
  gs_portfolio_rejected :: nat

definition or_default :: "string list \<Rightarrow> string \<Rightarrow> string list" where
  "or_default reasons text = (if reasons = [] then [text] else reasons)"

definition reject_gate ::
  "strategy_signal \<Rightarrow> context_assessment option \<Rightarrow> gate_stage \<Rightarrow> gate_outcome \<Rightarrow> string list \<Rightarrow> string list \<Rightarrow> gate_state \<Rightarrow> gate_state" where
  "reject_gate s context stage outcome reasons shown g =
     g\<lparr>gs_rejections := gs_rejections g @
         [\<lparr>gr_symbol = sg_symbol s, gr_stage = stage, gr_outcome = outcome, gr_reasons = reasons\<rparr>],
       gs_evaluations := dput (sg_symbol s) (evaluation_of s outcome stage shown None False context) (gs_evaluations g)\<rparr>"

definition apply_verdict ::
  "strategy_signal \<Rightarrow> context_assessment option \<Rightarrow> gate_verdict \<Rightarrow> gate_state \<Rightarrow> gate_state" where
  "apply_verdict s context v g0 =
     (let g = (case context of None \<Rightarrow> g0 | Some c \<Rightarrow> g0\<lparr>gs_contexts := dput (sg_symbol s) c (gs_contexts g0)\<rparr>) in
      case v of
        Held rs \<Rightarrow> (let reasons = or_default rs ''context gate active'' in
          reject_gate s context STAGE_CONTEXT OUT_HOLD reasons reasons (g\<lparr>gs_context_rejected := gs_context_rejected g + 1\<rparr>))
      | Risk_Rejected rs \<Rightarrow>
          reject_gate s context STAGE_RISK OUT_REJECTED (or_default rs ''risk gate rejected candidate'') rs
            (g\<lparr>gs_risk_rejected := gs_risk_rejected g + 1\<rparr>)
      | Portfolio_Rejected rs \<Rightarrow>
          reject_gate s context STAGE_PORTFOLIO OUT_REJECTED (or_default rs ''portfolio gate rejected candidate'') rs
            (g\<lparr>gs_portfolio_rejected := gs_portfolio_rejected g + 1\<rparr>)
      | Gated risk portfolio evidence \<Rightarrow> g\<lparr>gs_gated := gs_gated g @ [(s, risk, portfolio, evidence)]\<rparr>)"

fun gate_loop :: "opportunity_pipeline \<Rightarrow> strategy_signal list \<Rightarrow> gate_state \<Rightarrow> gate_state res" where
  "gate_loop p [] g = Inr g"
| "gate_loop p (s # ss) g = res_bind (gate_signal p s) (\<lambda>(c, v). gate_loop p ss (apply_verdict s c v g))"

definition gate_start :: "strategy_rejection list \<Rightarrow> gate_state" where
  "gate_start js = \<lparr>gs_gated = [],
     gs_rejections = map (\<lambda>j. \<lparr>gr_symbol = sj_symbol j, gr_stage = STAGE_STRATEGY, gr_outcome = OUT_NO_TRADE,
       gr_reasons = sj_reasons j\<rparr>) js,
     gs_evaluations = fold (\<lambda>j. dput (sj_symbol j) (rejected_evaluation j)) js [], gs_contexts = [],
     gs_context_rejected = 0, gs_risk_rejected = 0, gs_portfolio_rejected = 0\<rparr>"

record opportunity_result =
  ox_evaluated :: nat
  ox_strategy_qualified :: nat
  ox_context_rejected :: nat
  ox_risk_rejected :: nat
  ox_portfolio_rejected :: nat
  ox_qualified :: "gated_opportunity list"
  ox_rejections :: "gate_rejection list"
  ox_all_evaluations :: "market_evaluation list"

definition evaluation_key :: "market_evaluation \<Rightarrow> nat \<times> nat \<times> string" where
  "evaluation_key e = (case me_rank e of None \<Rightarrow> (1, 10 ^ 9, me_symbol e) | Some k \<Rightarrow> (0, k, me_symbol e))"

fun opportunity_of ::
  "nat \<times> strategy_signal \<times> risk_assessment \<times> portfolio_assessment \<times> decision_evidence \<Rightarrow> gated_opportunity" where
  "opportunity_of (k, s, risk, portfolio, evidence) =
     \<lparr>go_signal = s, go_risk = risk, go_portfolio = portfolio, go_rank = k, go_evidence = Some evidence\<rparr>"

definition pipeline_evaluate ::
  "(exn \<Rightarrow> string) \<Rightarrow> opportunity_pipeline \<Rightarrow> string list \<Rightarrow> int \<Rightarrow> opportunity_result res" where
  "pipeline_evaluate text p symbols top_n =
     guard (top_n < 1) (ValueError ''top_n must be positive'')
     (res_bind (evaluate_all text (op_strategy p) symbols) (\<lambda>(n, signals, js).
      res_bind (gate_loop p signals (gate_start js)) (\<lambda>g.
        let gated = sort_desc (signal_key \<circ> fst) (gs_gated g);
            evaluations = fold (\<lambda>(k, s, _). dput (sg_symbol s)
                (evaluation_of s OUT_QUALIFIED STAGE_COMPLETE [] (Some k) (k \<le> 10) (dget (gs_contexts g) (sg_symbol s))))
              (ranked gated) (gs_evaluations g)
        in Inr \<lparr>ox_evaluated = n, ox_strategy_qualified = length signals, ox_context_rejected = gs_context_rejected g,
             ox_risk_rejected = gs_risk_rejected g, ox_portfolio_rejected = gs_portfolio_rejected g,
             ox_qualified = map opportunity_of (ranked (take (nat top_n) gated)),
             ox_rejections = gs_rejections g,
             ox_all_evaluations = sort_key evaluation_key (map snd evaluations)\<rparr>)))"

subsection \<open>Preparing orders\<close>

record prepared_order =
  po_opportunity :: gated_opportunity
  po_order :: order_request

definition side_of_direction :: "string \<Rightarrow> position_side res" where
  "side_of_direction d = (if d = ''LONG'' then Inr LONG else if d = ''SHORT'' then Inr SHORT
     else Inl (ValueError (''unsupported signal direction: '' @ d)))"

text \<open>The stable id hashes the symbol, the side and the texts of the three levels: \<open>stable_id\<close> is that function.\<close>

definition prepare_order ::
  "(string \<Rightarrow> position_side \<Rightarrow> rat \<Rightarrow> rat \<Rightarrow> rat \<Rightarrow> string) \<Rightarrow> (decision_evidence \<Rightarrow> json_text) \<Rightarrow> order_type
    \<Rightarrow> string option \<Rightarrow> datetime \<Rightarrow> gated_opportunity \<Rightarrow> prepared_order res" where
  "prepare_order stable_id evidence_text ty oid created opp =
     (let s = go_signal opp in
      guard (sg_state s \<noteq> READY_FOR_RISK_REVIEW) (ValueError ''opportunity signal is not READY_FOR_RISK_REVIEW'')
     (guard (\<not> ra_approved (go_risk opp) \<or> \<not> pa_approved (go_portfolio opp))
        (ValueError ''opportunity must pass risk and portfolio gates'')
     (res_bind (side_of_direction (sg_direction s)) (\<lambda>side.
      let o1 = \<lparr>or_id = (case oid of Some i \<Rightarrow> if i = [] then stable_id (sg_symbol s) side (sg_entry s) (sg_stop_loss s) (sg_target s) else i
                 | None \<Rightarrow> stable_id (sg_symbol s) side (sg_entry s) (sg_stop_loss s) (sg_target s)),
            or_symbol = sg_symbol s, or_side = side, or_type = ty, or_quantity = ra_quantity (go_risk opp),
            or_requested_price = (if ty = LIMIT then Some (sg_entry s) else None), or_stop_loss = sg_stop_loss s,
            or_take_profit = Some (sg_target s), or_leverage = ra_leverage (go_risk opp), or_created_at = created,
            or_decision_snapshot = map_option evidence_text (go_evidence opp)\<rparr>
      in case validate_order_request o1 of
           (True, _) \<Rightarrow> Inr \<lparr>po_opportunity = opp, po_order = o1\<rparr>
         | (False, reason) \<Rightarrow> Inl (ValueError (case reason of None \<Rightarrow> ''invalid prepared order''
             | Some r \<Rightarrow> if r = [] then ''invalid prepared order'' else r))))))"

definition prepare_orders ::
  "(string \<Rightarrow> position_side \<Rightarrow> rat \<Rightarrow> rat \<Rightarrow> rat \<Rightarrow> string) \<Rightarrow> (decision_evidence \<Rightarrow> json_text) \<Rightarrow> order_type \<Rightarrow> datetime
    \<Rightarrow> gated_opportunity list \<Rightarrow> prepared_order list res" where
  "prepare_orders stable_id evidence_text ty created = res_map (prepare_order stable_id evidence_text ty None created)"

subsection \<open>Sorting and ranking\<close>

lemma sort_desc_props:
  "set (sort_desc key xs) = set xs" "length (sort_desc key xs) = length xs"
  "sorted_wrt (\<lambda>a b. key b \<le> key a) (sort_desc key xs)"
proof -
  have "sorted_wrt (\<lambda>a b. key a \<le> key b) (sort_key key (rev xs))" by (simp add: sorted_wrt_map [symmetric])
  then show "sorted_wrt (\<lambda>a b. key b \<le> key a) (sort_desc key xs)" by (simp add: sort_desc_def sorted_wrt_rev)
qed (simp_all add: sort_desc_def)

lemma ranked_props [simp]: "map fst (ranked xs) = [1 ..< Suc (length xs)]" "map snd (ranked xs) = xs"
  "length (ranked xs) = length xs"
  by (simp_all add: ranked_def del: upt_Suc)

lemma ranked_member: "(k, x) \<in> set (ranked xs) \<Longrightarrow> x \<in> set xs"
  unfolding ranked_def by (rule set_zip_rightD)

lemma set_rights: "x \<in> set (rights xs) \<longleftrightarrow> Inr x \<in> set xs" and set_lefts: "y \<in> set (lefts xs) \<longleftrightarrow> Inl y \<in> set xs"
  by (force simp: rights_def lefts_def split: sum.splits)+

lemma lefts_rights_length: "length (lefts xs) + length (rights xs) = length xs"
  by (induction xs) (auto simp: lefts_def rights_def split: sum.split)

subsection \<open>What the strategy stage returns\<close>

definition ready_signal :: "strategy_pipeline \<Rightarrow> string \<Rightarrow> strategy_signal \<Rightarrow> bool" where
  "ready_signal p symbol s \<longleftrightarrow> (\<exists>d f h q. yp_loader p symbol = Inr (d, f, h, q) \<and>
     evaluate_strategy d f h q default_rules = Inr s \<and> sg_state s = READY_FOR_RISK_REVIEW)"

lemma evaluate_symbol_ready:
  "evaluate_symbol text (yp_loader p) symbol = Inr (Inr s) \<longleftrightarrow> ready_signal p symbol s"
  by (auto simp: evaluate_symbol_def ready_signal_def split: sum.splits prod.splits if_splits)

lemma res_map_members: "res_map f xs = Inr ys \<Longrightarrow> y \<in> set ys \<Longrightarrow> \<exists>x \<in> set xs. f x = Inr y"
  by (induction xs arbitrary: ys) (auto simp: res_bind_Inr_iff)

lemma res_map_length: "res_map f xs = Inr ys \<Longrightarrow> length ys = length xs"
  by (induction xs arbitrary: ys) (auto simp: res_bind_Inr_iff)

lemma scan_members:
  assumes "scan_symbols text p symbols = Inr rs" "symbols \<noteq> []" "r \<in> set rs"
  shows "\<exists>x \<in> set symbols. evaluate_symbol text (yp_loader p) x = Inr r"
  using assms res_map_members [of "evaluate_symbol text (yp_loader p)" symbols rs r]
  by (auto simp: scan_symbols_def res_bind_Inr_iff split: if_splits intro: hd_in_set)

lemma evaluate_all_signals:
  assumes "evaluate_all text p symbols = Inr (n, signals, js)"
  shows "n = length symbols" "s \<in> set signals \<Longrightarrow> \<exists>x \<in> set symbols. ready_signal p x s"
    "sorted_wrt (\<lambda>a b. signal_key b \<le> signal_key a) signals"
    "1 < yp_max_workers p \<or> length symbols \<le> 1 \<Longrightarrow> length signals + length js = length symbols"
proof -
  have "n = length symbols \<and> (s \<in> set signals \<longrightarrow> (\<exists>x \<in> set symbols. ready_signal p x s)) \<and>
    sorted_wrt (\<lambda>a b. signal_key b \<le> signal_key a) signals \<and>
    (1 < yp_max_workers p \<or> length symbols \<le> 1 \<longrightarrow> length signals + length js = length symbols)"
  proof (cases "symbols = []")
    case True
    then show ?thesis using assms by (simp add: evaluate_all_def)
  next
    case False
    then obtain rs where rs: "scan_symbols text p symbols = Inr rs" "n = length symbols" "signals = rank_signals (rights rs)" "js = lefts rs"
      using assms by (auto simp: evaluate_all_def res_bind_Inr_iff)
    have "\<exists>x \<in> set symbols. ready_signal p x s" if "s \<in> set signals"
    proof -
      have "Inr s \<in> set rs" using that rs(3) by (simp add: rank_signals_def sort_desc_props set_rights)
      from scan_members [OF rs(1) False this] show ?thesis by (simp add: evaluate_symbol_ready)
    qed
    moreover have "length rs = length symbols" if "1 < yp_max_workers p \<or> length symbols \<le> 1"
    proof (cases "min (yp_max_workers p) (length symbols) = 1")
      case True
      then have "length symbols = 1" using that False by (cases symbols) (auto simp: min_def split: if_splits)
      then show ?thesis using rs(1) True by (auto simp: scan_symbols_def res_bind_Inr_iff)
    next
      case no: False
      then show ?thesis using rs(1) by (simp add: scan_symbols_def res_map_length)
    qed
    ultimately show ?thesis using rs lefts_rights_length [of rs]
      by (auto simp: rank_signals_def sort_desc_props)
  qed
  then show "n = length symbols" "s \<in> set signals \<Longrightarrow> \<exists>x \<in> set symbols. ready_signal p x s"
    "sorted_wrt (\<lambda>a b. signal_key b \<le> signal_key a) signals"
    "1 < yp_max_workers p \<or> length symbols \<le> 1 \<Longrightarrow> length signals + length js = length symbols" by blast+
qed

text \<open>With one worker every symbol but the first is lost, and still counted as evaluated.\<close>

lemma evaluate_all_one_worker:
  assumes "yp_max_workers p = 1" "evaluate_all text p [x] = Inr (n, signals, js)"
  shows "evaluate_all text p (x # ys) = Inr (Suc (length ys), signals, js)"
  using assms by (auto simp: evaluate_all_def scan_symbols_def res_bind_Inr_iff)

subsection \<open>What the gates let through\<close>

definition passed_gates ::
  "opportunity_pipeline \<Rightarrow> strategy_signal \<Rightarrow> risk_assessment \<Rightarrow> portfolio_assessment \<Rightarrow> decision_evidence \<Rightarrow> bool" where
  "passed_gates p s risk portfolio evidence \<longleftrightarrow>
     (\<exists>k context. op_risk_loader p (sg_symbol s) = Inr k \<and> gate_risk p s k = Inr risk \<and> ra_approved risk \<and>
        gate_portfolio p s k risk = Inr portfolio \<and> pa_approved portfolio \<and>
        evidence = build_evidence s context risk portfolio (kx_provider k) \<and>
        (case op_context_loader p of None \<Rightarrow> context = None
         | Some load \<Rightarrow> (\<exists>c. load (sg_symbol s) = Inr c \<and> context = Some c \<and> \<not> cx_blocking c \<and> \<not> cx_delay c)))"

lemma gate_rest_gated:
  "gate_rest p s context = Inr (Gated risk portfolio evidence) \<longleftrightarrow>
   (\<exists>k. op_risk_loader p (sg_symbol s) = Inr k \<and> gate_risk p s k = Inr risk \<and> ra_approved risk \<and>
      gate_portfolio p s k risk = Inr portfolio \<and> pa_approved portfolio \<and>
      evidence = build_evidence s context risk portfolio (kx_provider k))"
  by (auto simp: gate_rest_def res_bind_Inr_iff split: if_splits)

lemma gate_signal_gated: "gate_signal p s = Inr (c, Gated risk portfolio evidence) \<Longrightarrow> passed_gates p s risk portfolio evidence"
  by (cases "op_context_loader p")
    (fastforce simp: gate_signal_def passed_gates_def res_bind_Inr_iff gate_rest_gated split: if_splits)+

lemma apply_verdict_gated:
  "gs_gated (apply_verdict s c v g) = gs_gated g @ (case v of Gated r a e \<Rightarrow> [(s, r, a, e)] | _ \<Rightarrow> [])"
  "gs_context_rejected (apply_verdict s c v g) + gs_risk_rejected (apply_verdict s c v g) +
     gs_portfolio_rejected (apply_verdict s c v g) + length (gs_gated (apply_verdict s c v g)) =
   Suc (gs_context_rejected g + gs_risk_rejected g + gs_portfolio_rejected g + length (gs_gated g))"
  by (cases v; simp add: apply_verdict_def reject_gate_def Let_def split: option.split)+

lemma gate_loop_gated:
  "gate_loop p ss g = Inr g' \<Longrightarrow>
   (\<forall>(s, r, a, e) \<in> set (gs_gated g'). (s, r, a, e) \<in> set (gs_gated g) \<or> s \<in> set ss \<and> passed_gates p s r a e) \<and>
   gs_context_rejected g' + gs_risk_rejected g' + gs_portfolio_rejected g' + length (gs_gated g') =
     gs_context_rejected g + gs_risk_rejected g + gs_portfolio_rejected g + length (gs_gated g) + length ss"
proof (induction ss arbitrary: g)
  case (Cons s ss)
  obtain c v where v: "gate_signal p s = Inr (c, v)" "gate_loop p ss (apply_verdict s c v g) = Inr g'"
    using Cons.prems by (auto simp: res_bind_Inr_iff)
  note IH = Cons.IH [OF v(2)]
  have "(s', r, a, e) \<in> set (gs_gated g) \<or> s' \<in> set (s # ss) \<and> passed_gates p s' r a e"
    if "(s', r, a, e) \<in> set (gs_gated g')" for s' r a e
    using IH that gate_signal_gated [of p s c] v(1) by (cases v) (auto simp: apply_verdict_gated(1))
  then show ?case using IH by (auto simp: apply_verdict_gated(2))
qed auto

lemma gate_start_simps [simp]:
  "gs_gated (gate_start js) = []" "gs_context_rejected (gate_start js) = 0" "gs_risk_rejected (gate_start js) = 0"
  "gs_portfolio_rejected (gate_start js) = 0"
  by (simp_all add: gate_start_def)

lemma pipeline_parts:
  assumes "pipeline_evaluate text p symbols top_n = Inr r"
  obtains signals js g gated where "0 < top_n" "evaluate_all text (op_strategy p) symbols = Inr (ox_evaluated r, signals, js)"
    "gate_loop p signals (gate_start js) = Inr g" "gated = sort_desc (signal_key \<circ> fst) (gs_gated g)"
    "ox_strategy_qualified r = length signals" "ox_context_rejected r = gs_context_rejected g"
    "ox_risk_rejected r = gs_risk_rejected g" "ox_portfolio_rejected r = gs_portfolio_rejected g"
    "ox_qualified r = map opportunity_of (ranked (take (nat top_n) gated))"
proof -
  obtain n signals js g where h: "\<not> top_n < 1" "evaluate_all text (op_strategy p) symbols = Inr (n, signals, js)"
    "gate_loop p signals (gate_start js) = Inr g"
  proof -
    obtain x where x: "\<not> top_n < 1" "evaluate_all text (op_strategy p) symbols = Inr x"
      using assms unfolding pipeline_evaluate_def guard_Inr_iff res_bind_Inr_iff by blast
    obtain n signals js where "x = (n, signals, js)" by (metis prod.exhaust)
    then show thesis using that x assms by (auto simp: pipeline_evaluate_def res_bind_Inr_iff)
  qed
  show thesis using assms h
    by (intro that [of signals js g "sort_desc (signal_key \<circ> fst) (gs_gated g)"])
      (auto simp: pipeline_evaluate_def Let_def)
qed

lemma go_signal_ranked:
  "map go_signal (map opportunity_of (ranked xs)) = map fst xs"
  "map go_rank (map opportunity_of (ranked xs)) = [1 ..< Suc (length xs)]"
proof -
  have f: "go_signal \<circ> opportunity_of = fst \<circ> snd" "go_rank \<circ> opportunity_of = fst" by auto
  show "map go_signal (map opportunity_of (ranked xs)) = map fst xs"
    by (simp only: map_map f) (simp only: map_map [symmetric] ranked_props)
  show "map go_rank (map opportunity_of (ranked xs)) = [1 ..< Suc (length xs)]"
    by (simp only: map_map f ranked_props)
qed

text \<open>The counters of a result add up, and what it offers is ranked and sorted.\<close>

lemma pipeline_counts:
  assumes "pipeline_evaluate text p symbols top_n = Inr r"
  shows "\<exists>qualified. ox_strategy_qualified r = ox_context_rejected r + ox_risk_rejected r + ox_portfolio_rejected r + qualified \<and>
      length (ox_qualified r) = min (nat top_n) qualified"
    and "map go_rank (ox_qualified r) = [1 ..< Suc (length (ox_qualified r))]"
    and "sorted_wrt (\<lambda>a b. signal_key (go_signal b) \<le> signal_key (go_signal a)) (ox_qualified r)"
    and "ox_evaluated r = length symbols"
proof -
  from pipeline_parts [OF assms] obtain signals js g gated where
    p: "evaluate_all text (op_strategy p) symbols = Inr (ox_evaluated r, signals, js)" "gate_loop p signals (gate_start js) = Inr g"
    "gated = sort_desc (signal_key \<circ> fst) (gs_gated g)" and
    q: "ox_strategy_qualified r = length signals" "ox_context_rejected r = gs_context_rejected g"
    "ox_risk_rejected r = gs_risk_rejected g" "ox_portfolio_rejected r = gs_portfolio_rejected g" and
    x: "ox_qualified r = map opportunity_of (ranked (take (nat top_n) gated))" .
  have len: "length (ox_qualified r) = min (nat top_n) (length (gs_gated g))" by (simp add: x p(3) sort_desc_props)
  then show "\<exists>qualified. ox_strategy_qualified r = ox_context_rejected r + ox_risk_rejected r + ox_portfolio_rejected r + qualified \<and>
      length (ox_qualified r) = min (nat top_n) qualified"
    using gate_loop_gated [OF p(2)] q by (intro exI [of _ "length (gs_gated g)"]) simp
  show "map go_rank (ox_qualified r) = [1 ..< Suc (length (ox_qualified r))]"
    by (simp only: x go_signal_ranked length_map ranked_props)
  have "sorted_wrt (\<lambda>a b. (signal_key \<circ> fst) b \<le> (signal_key \<circ> fst) a) gated" unfolding p(3) by (rule sort_desc_props)
  then have "sorted_wrt (\<lambda>a b. (signal_key \<circ> fst) b \<le> (signal_key \<circ> fst) a) (take (nat top_n) gated)"
    by (metis append_take_drop_id sorted_wrt_append)
  then have "sorted_wrt (\<lambda>a b. signal_key b \<le> signal_key a) (map go_signal (ox_qualified r))"
    by (simp only: x go_signal_ranked sorted_wrt_map comp_def)
  then show "sorted_wrt (\<lambda>a b. signal_key (go_signal b) \<le> signal_key (go_signal a)) (ox_qualified r)"
    by (simp add: sorted_wrt_map)
  show "ox_evaluated r = length symbols" using evaluate_all_signals(1) [OF p(1)] .
qed

lemma pipeline_qualified:
  assumes "pipeline_evaluate text p symbols top_n = Inr r" "opp \<in> set (ox_qualified r)"
  obtains x e where "x \<in> set symbols" "ready_signal (op_strategy p) x (go_signal opp)" "go_evidence opp = Some e"
    "passed_gates p (go_signal opp) (go_risk opp) (go_portfolio opp) e"
proof -
  from pipeline_parts [OF assms(1)] obtain signals js g gated where
    p: "evaluate_all text (op_strategy p) symbols = Inr (ox_evaluated r, signals, js)" "gate_loop p signals (gate_start js) = Inr g"
    "gated = sort_desc (signal_key \<circ> fst) (gs_gated g)" and
    x: "ox_qualified r = map opportunity_of (ranked (take (nat top_n) gated))" .
  obtain k s risk portfolio e where o1: "opp = \<lparr>go_signal = s, go_risk = risk, go_portfolio = portfolio, go_rank = k,
      go_evidence = Some e\<rparr>" "(k, s, risk, portfolio, e) \<in> set (ranked (take (nat top_n) gated))"
    using assms(2) unfolding x by auto
  have "(s, risk, portfolio, e) \<in> set gated" using ranked_member [OF o1(2)] by (rule in_set_takeD)
  then have "(s, risk, portfolio, e) \<in> set (gs_gated g)" by (simp add: p(3) sort_desc_props)
  then have "s \<in> set signals" "passed_gates p s risk portfolio e" using gate_loop_gated [OF p(2)] by auto
  moreover obtain y where "y \<in> set symbols" "ready_signal (op_strategy p) y s"
    using evaluate_all_signals(2) [OF p(1)] calculation(1) by blast
  ultimately show thesis using that [of y e] o1(1) by simp
qed

subsection \<open>Every offered opportunity can be prepared\<close>

lemma ready_signal_levels:
  assumes "ready_signal p x s"
  shows "0 < sg_entry s" "0 < sg_stop_loss s" "0 < sg_target s"
    "sg_direction s = ''LONG'' \<and> sg_stop_loss s < sg_entry s \<and> sg_entry s < sg_target s \<or>
     sg_direction s = ''SHORT'' \<and> sg_target s < sg_entry s \<and> sg_entry s < sg_stop_loss s"
proof -
  obtain d f h q where e: "evaluate_strategy d f h q default_rules = Inr s" using assms by (auto simp: ready_signal_def)
  obtain dir rr where l: "levels f h q dir = Some (sg_entry s, sg_stop_loss s, sg_target s)"
    "calculate_risk_reward (sg_entry s) (sg_stop_loss s) (sg_target s) dir = Inr rr" "sg_direction s = dir"
    using evaluate_strategy_parts [OF e] by metis
  show d: "sg_direction s = ''LONG'' \<and> sg_stop_loss s < sg_entry s \<and> sg_entry s < sg_target s \<or>
     sg_direction s = ''SHORT'' \<and> sg_target s < sg_entry s \<and> sg_entry s < sg_stop_loss s"
    using l(3) risk_reward_Inr_iff [THEN iffD1, OF exI, OF l(2)] by auto
  show "0 < sg_stop_loss s" "0 < sg_target s" using levels_positive [OF l(1,2)] by auto
  with d show "0 < sg_entry s" by auto
qed

lemma assess_risk_leverage:
  "assess_risk acc ps sg ins c leverage policy provider correlated reserved = Inr a \<Longrightarrow> ra_leverage a = leverage"
  by (auto simp: assess_risk_def guard_Inr_iff res_bind_Inr_iff rejected_early_def Let_def split: if_splits)

lemma approved_sizes:
  assumes "assess_risk acc ps sg ins c leverage policy provider correlated reserved = Inr a" "ra_approved a"
  shows "0 < ra_quantity a" "ra_leverage a = leverage" "0 < leverage"
proof -
  have "0 < ra_quantity a \<and> ra_leverage a = leverage \<and> 0 < leverage"
    using assms(1)
  proof (cases rule: assess_risk_cases)
    case early
    then show ?thesis using assms(2) by simp
  next
    case sized
    have "ra_reasons a = []" using sized(9) assms(2) by simp
    then show ?thesis using sized(3,8) no_reasons_iff(1) assess_risk_leverage [OF assms(1)]
      by (auto simp: sized_assessment_def)
  qed
  then show "0 < ra_quantity a" "ra_leverage a = leverage" "0 < leverage" by simp_all
qed

lemma prepare_order_ok:
  assumes "ready_signal sp x (go_signal opp)" "passed_gates p (go_signal opp) (go_risk opp) (go_portfolio opp) e"
    and "strip (sg_symbol (go_signal opp)) \<noteq> []" "\<And>s side a b c. strip (stable_id s side a b c) \<noteq> []"
  shows "\<exists>o1. prepare_order stable_id evidence_text ty None created opp = Inr \<lparr>po_opportunity = opp, po_order = o1\<rparr> \<and>
    order_ok o1 \<and> or_quantity o1 = ra_quantity (go_risk opp) \<and> or_stop_loss o1 = sg_stop_loss (go_signal opp) \<and>
    or_take_profit o1 = Some (sg_target (go_signal opp)) \<and> or_symbol o1 = sg_symbol (go_signal opp)"
proof -
  let ?s = "go_signal opp"
  note lv = ready_signal_levels [OF assms(1)]
  have st: "sg_state ?s = READY_FOR_RISK_REVIEW" using assms(1) by (auto simp: ready_signal_def)
  obtain k where k: "gate_risk p ?s k = Inr (go_risk opp)" "ra_approved (go_risk opp)" "pa_approved (go_portfolio opp)"
    using assms(2) by (auto simp: passed_gates_def)
  obtain co where "assess_risk (kx_account k) (kx_positions k) ?s (kx_instrument k) (kx_contract k) (kx_leverage k)
      (op_risk_policy p) (kx_provider k) co (kx_reserved_pending_risk k) = Inr (go_risk opp)"
    using k(1) by (auto simp: gate_risk_def res_bind_Inr_iff)
  note sz = approved_sizes [OF this k(2)]
  obtain side where side: "side_of_direction (sg_direction ?s) = Inr side" "side = LONG \<longleftrightarrow> sg_direction ?s = ''LONG''"
    using lv(4) by (auto simp: side_of_direction_def)
  define o1 where "o1 = \<lparr>or_id = stable_id (sg_symbol ?s) side (sg_entry ?s) (sg_stop_loss ?s) (sg_target ?s),
     or_symbol = sg_symbol ?s, or_side = side, or_type = ty, or_quantity = ra_quantity (go_risk opp),
     or_requested_price = (if ty = LIMIT then Some (sg_entry ?s) else None), or_stop_loss = sg_stop_loss ?s,
     or_take_profit = Some (sg_target ?s), or_leverage = ra_leverage (go_risk opp), or_created_at = created,
     or_decision_snapshot = map_option evidence_text (go_evidence opp)\<rparr>"
  have ok: "order_ok o1" using lv sz assms(3,4) side(2) by (auto simp: order_ok_def o1_def opt_holds_def)
  obtain reason where "validate_order_request o1 = (True, reason)" using ok validate_order_iff [of o1] by (metis prod.collapse)
  then have "prepare_order stable_id evidence_text ty None created opp = Inr \<lparr>po_opportunity = opp, po_order = o1\<rparr>"
    using st k side(1) by (simp add: prepare_order_def Let_def o1_def split del: if_split)
  then show ?thesis using ok by (auto simp: o1_def)
qed

lemma res_map_produces: "(\<And>x. x \<in> set xs \<Longrightarrow> \<exists>y. f x = Inr y \<and> P x y) \<Longrightarrow> \<exists>ys. res_map f xs = Inr ys \<and> list_all2 P xs ys"
proof (induction xs)
  case (Cons x xs)
  obtain y where y: "f x = Inr y" "P x y" using Cons.prems by (meson list.set_intros(1))
  obtain ys where "res_map f xs = Inr ys" "list_all2 P xs ys" using Cons.IH Cons.prems by (meson list.set_intros(2))
  then show ?case using y by simp
qed simp

lemma prepare_orders_total:
  assumes "pipeline_evaluate text p symbols top_n = Inr r"
    and "\<And>opp. opp \<in> set (ox_qualified r) \<Longrightarrow> strip (sg_symbol (go_signal opp)) \<noteq> []"
    and "\<And>s side a b c. strip (stable_id s side a b c) \<noteq> []"
  shows "\<exists>os. prepare_orders stable_id evidence_text ty created (ox_qualified r) = Inr os \<and>
    list_all2 (\<lambda>opp x. po_opportunity x = opp \<and> order_ok (po_order x) \<and>
      or_quantity (po_order x) = ra_quantity (go_risk opp) \<and>
      or_stop_loss (po_order x) = sg_stop_loss (go_signal opp) \<and>
      or_take_profit (po_order x) = Some (sg_target (go_signal opp))) (ox_qualified r) os"
  unfolding prepare_orders_def
proof (rule res_map_produces)
  fix opp assume o1: "opp \<in> set (ox_qualified r)"
  from pipeline_qualified [OF assms(1) o1] obtain x e where
    "ready_signal (op_strategy p) x (go_signal opp)" "passed_gates p (go_signal opp) (go_risk opp) (go_portfolio opp) e" .
  from prepare_order_ok [OF this assms(2) [OF o1] assms(3)]
  show "\<exists>y. prepare_order stable_id evidence_text ty None created opp = Inr y \<and>
    (po_opportunity y = opp \<and> order_ok (po_order y) \<and> or_quantity (po_order y) = ra_quantity (go_risk opp) \<and>
      or_stop_loss (po_order y) = sg_stop_loss (go_signal opp) \<and>
      or_take_profit (po_order y) = Some (sg_target (go_signal opp)))" by fastforce
qed

subsection \<open>When the context gate holds a trade back\<close>

lemma active_events_members:
  "active_events symbol now policy es = Inr xs \<Longrightarrow>
   set xs = {e \<in> set es. (ee_symbols e = [] \<or> symbol \<in> set (ee_symbols e)) \<and>
     - fst (event_window policy (ee_importance e)) \<le> now - instant (ee_event_time e) \<and>
     now - instant (ee_event_time e) \<le> snd (event_window policy (ee_importance e))}"
  by (induction es arbitrary: xs)
    (auto simp: res_bind_Inr_iff event_active_def context_utc_def guard_Inr_iff split: if_splits prod.splits)

lemma of_importance_Nil: "of_importance i xs = [] \<longleftrightarrow> (\<forall>e \<in> set xs. ee_importance e \<noteq> i)"
  by (simp add: of_importance_def filter_empty_conv)

definition event_near :: "context_policy \<Rightarrow> string \<Rightarrow> datetime \<Rightarrow> event_importance \<Rightarrow> economic_event list \<Rightarrow> bool" where
  "event_near policy symbol now i es \<longleftrightarrow> (\<exists>e \<in> set es. ee_importance e = i \<and> (ee_symbols e = [] \<or> symbol \<in> set (ee_symbols e)) \<and>
     - fst (event_window policy i) \<le> instant now - instant (ee_event_time e) \<and>
     instant now - instant (ee_event_time e) \<le> snd (event_window policy i))"

lemma assess_context_gates:
  assumes "assess_context policy symbol news events now = Inr c"
  shows "cx_blocking c \<longleftrightarrow> cn_block_critical policy \<and> event_near policy symbol now EVENT_CRITICAL events"
    and "cx_delay c \<longleftrightarrow> cn_delay_high policy \<and> event_near policy symbol now EVENT_HIGH events \<and>
      \<not> event_near policy symbol now EVENT_CRITICAL events"
proof -
  obtain ns nr ev er su where p: "merge_news news symbol (instant now) policy = Inr (ns, nr)"
    "event_state events symbol (instant now) policy = Inr (ev, er, su)"
    "cx_blocking c \<longleftrightarrow> ev = EVENT_CRITICAL \<and> cn_block_critical policy"
    "cx_delay c \<longleftrightarrow> ev = EVENT_HIGH \<and> cn_delay_high policy"
    using assms by (auto simp: assess_context_def guard_Inr_iff res_bind_Inr_iff context_utc_def)
  obtain xs where xs: "active_events symbol (instant now) policy events = Inr xs"
    using p(2) by (auto simp: event_state_def res_bind_Inr_iff)
  note mem = active_events_members [OF xs]
  have near: "of_importance i xs \<noteq> [] \<longleftrightarrow> event_near policy symbol now i events" for i
    unfolding of_importance_Nil event_near_def mem by auto
  have "ev = EVENT_CRITICAL \<longleftrightarrow> of_importance EVENT_CRITICAL xs \<noteq> []"
    "ev = EVENT_HIGH \<longleftrightarrow> of_importance EVENT_HIGH xs \<noteq> [] \<and> of_importance EVENT_CRITICAL xs = []"
    using p(2) xs by (auto simp: event_state_def split: list.splits if_splits)
  then show "cx_blocking c \<longleftrightarrow> cn_block_critical policy \<and> event_near policy symbol now EVENT_CRITICAL events"
    "cx_delay c \<longleftrightarrow> cn_delay_high policy \<and> event_near policy symbol now EVENT_HIGH events \<and>
      \<not> event_near policy symbol now EVENT_CRITICAL events"
    using p(3,4) near by auto
qed

text \<open>The application asks the engine without news and events, so its context gate never holds anything back.\<close>

lemma context_without_inputs:
  assumes "symbol \<noteq> []" "is_aware now"
  shows "\<exists>c. assess_context policy symbol [] [] now = Inr c \<and> \<not> cx_blocking c \<and> \<not> cx_delay c"
  using assms by (simp add: assess_context_def guard_def context_utc_def merge_news_def event_state_def of_importance_def)

end
