(* ===== verification/Runtime_Cycle.thy ===== *)
theory Runtime_Cycle
  imports Recovery Opportunity
begin

section \<open>The runtime cycle\<close>

text \<open>
  \<^verbatim>\<open>app/runtime\<close>: the audit of cycles and the idempotency guard, and \<^verbatim>\<open>app/application/runtime_cycle.py\<close> with the
  repositories of \<^verbatim>\<open>composition.py\<close>: everything over one SQLite connection. The audit repository and the evaluation
  history share that connection, so their commits commit whatever is pending. A note of a cycle is a value of a datatype
  instead of its text. What the cycle meets (times, quotes) is a record of inputs.
\<close>

subsection \<open>Audit of cycles\<close>

datatype audit_status = AUDIT_STARTED | AUDIT_COMPLETED | AUDIT_FAILED

datatype cycle_note =
    Recovery_Note nat nat nat
  | Recovery_Issue_Note reconciliation_issue
  | Journal_Note nat nat nat
  | Exit_Note string string rat rat "bool option"
  | Journaled_Note string
  | Pending_Filled_Note string
  | Opportunities_Note nat nat nat nat nat nat
  | Paper_Order_Note string order_status
  | Submitted_Note nat
  | Replay_Note
  | Error_Note exn

record cycle_audit =
  ca_id :: string
  ca_status :: audit_status
  ca_started_at :: datetime
  ca_finished_at :: "datetime option"
  ca_monitored :: nat
  ca_stopped :: nat
  ca_filled :: nat
  ca_notes :: "cycle_note list"

definition audit_new :: "string \<Rightarrow> audit_status \<Rightarrow> datetime \<Rightarrow> cycle_audit" where
  "audit_new cid st started = \<lparr>ca_id = cid, ca_status = st, ca_started_at = started, ca_finished_at = None, ca_monitored = 0,
     ca_stopped = 0, ca_filled = 0, ca_notes = []\<rparr>"

definition mem_save_audit :: "cycle_audit \<Rightarrow> (string, cycle_audit) dict \<Rightarrow> (string, cycle_audit) dict" where
  "mem_save_audit a d = dput (ca_id a) a d"

text \<open>The latest cycle: in memory the first of the latest, in SQLite the one with the greatest id among them.\<close>

fun first_latest :: "cycle_audit \<Rightarrow> cycle_audit list \<Rightarrow> cycle_audit" where
  "first_latest best [] = best"
| "first_latest best (a # as) =
     first_latest (if instant (ca_started_at best) < instant (ca_started_at a) then a else best) as"

definition mem_latest_audit :: "(string, cycle_audit) dict \<Rightarrow> cycle_audit option" where
  "mem_latest_audit d = (case map snd d of [] \<Rightarrow> None | a # as \<Rightarrow> Some (first_latest a as))"

definition audit_order :: "cycle_audit \<Rightarrow> int \<times> string" where
  "audit_order a = (instant (ca_started_at a), ca_id a)"

definition sql_latest_audit :: "(string, cycle_audit) dict \<Rightarrow> cycle_audit option" where
  "sql_latest_audit d = (case sort_desc audit_order (map snd d) of [] \<Rightarrow> None | a # as \<Rightarrow> Some a)"

subsection \<open>Idempotent operations\<close>

record operation_record =
  oo_operation_id :: string
  oo_result_id :: string

definition operation_save ::
  "operation_record \<Rightarrow> (string, operation_record) dict \<Rightarrow> ((string, operation_record) dict, unit) sres" where
  "operation_save r d =
     (case dget d (oo_operation_id r) of
        Some existing \<Rightarrow>
          if oo_result_id existing \<noteq> oo_result_id r
          then (d, Inl (ValueError ''operation_id already has a different result''))
          else (dput (oo_operation_id r) r d, Inr ())
      | None \<Rightarrow> (dput (oo_operation_id r) r d, Inr ()))"

definition existing_result :: "(string, operation_record) dict \<Rightarrow> string \<Rightarrow> string option" where
  "existing_result d k = map_option oo_result_id (dget d k)"

definition record_operation ::
  "string \<Rightarrow> string \<Rightarrow> (string, operation_record) dict \<Rightarrow> ((string, operation_record) dict, unit) sres" where
  "record_operation k r d = operation_save \<lparr>oo_operation_id = k, oo_result_id = r\<rparr> d"

lemma recorded_once:
  assumes "record_operation k r d = (d', Inr ())"
  shows "existing_result d' k = Some r" "j \<noteq> k \<Longrightarrow> existing_result d' j = existing_result d j"
    "existing_result d k \<in> {None, Some r}" "s \<noteq> r \<Longrightarrow> \<exists>e. record_operation k s d' = (d', Inl e)"
  using assms by (auto simp: record_operation_def operation_save_def existing_result_def split: option.splits if_splits)

subsection \<open>The state of the application\<close>

record history_row =
  hr_evaluated_at :: datetime
  hr_status :: gate_outcome
  hr_gate_stage :: gate_stage
  hr_rank :: "nat option"
  hr_is_top_10 :: bool
  hr_score :: "rat option"
  hr_confidence :: "rat option"

record app_state =
  cy_conn :: connection
  cy_account :: account
  cy_audits :: "(string, cycle_audit) dict"
  cy_history :: "(string \<times> string, history_row) dict"
  cy_recovered :: "string set"
  cy_seen :: "string set"
  cy_queue :: "order_request list"

definition on_db :: "(connection, 'a) sres \<Rightarrow> app_state \<Rightarrow> (app_state, 'a) sres" where
  "on_db m s = (s\<lparr>cy_conn := fst m\<rparr>, snd m)"

definition audit_save :: "cycle_audit \<Rightarrow> app_state \<Rightarrow> app_state" where
  "audit_save a s = s\<lparr>cy_audits := dput (ca_id a) a (cy_audits s), cy_conn := commit (cy_conn s)\<rparr>"

text \<open>\<^verbatim>\<open>INSERT OR IGNORE\<close> of one row per evaluation, then a commit.\<close>

definition history_row_of :: "datetime \<Rightarrow> market_evaluation \<Rightarrow> history_row" where
  "history_row_of t e = \<lparr>hr_evaluated_at = t, hr_status = me_status e, hr_gate_stage = me_gate_stage e, hr_rank = me_rank e,
     hr_is_top_10 = me_is_top_10 e, hr_score = map_option sg_score (me_signal e),
     hr_confidence = map_option sg_confidence (me_signal e)\<rparr>"

definition insert_ignore :: "'k \<Rightarrow> 'v \<Rightarrow> ('k, 'v) dict \<Rightarrow> ('k, 'v) dict" where
  "insert_ignore k v d = (if dget d k = None then dput k v d else d)"

definition history_save :: "string \<Rightarrow> datetime \<Rightarrow> opportunity_result \<Rightarrow> app_state \<Rightarrow> app_state" where
  "history_save cid t r s = s\<lparr>cy_history :=
       fold (\<lambda>e. insert_ignore (cid, me_symbol e) (history_row_of t e)) (ox_all_evaluations r) (cy_history s),
     cy_conn := commit (cy_conn s)\<rparr>"

text \<open>The explicit selection queue: orders are handed over once.\<close>

definition queue_replace :: "order_request list \<Rightarrow> app_state \<Rightarrow> app_state" where
  "queue_replace os s = s\<lparr>cy_queue := os\<rparr>"

definition queue_drain :: "app_state \<Rightarrow> app_state \<times> order_request list" where
  "queue_drain s = (s\<lparr>cy_queue := []\<rparr>, cy_queue s)"

subsection \<open>The stages of a cycle\<close>

text \<open>
  The optional collaborators of the orchestrator: which are there, the pipeline with its universe as a function of the
  state, the exit policy and the execution policy.
\<close>

record cycle_config =
  oc_recovery :: bool
  oc_journal :: bool
  oc_settlement :: bool
  oc_pending :: bool
  oc_account_repository :: bool
  oc_history :: bool
  oc_paper :: bool
  oc_pipeline :: "(app_state \<Rightarrow> opportunity_pipeline \<times> string list) option"
  oc_top_n :: int
  oc_exit_policy :: exit_policy
  oc_execution_policy :: execution_policy
  oc_error_text :: "exn \<Rightarrow> string"

record cycle_inputs =
  xi_started_at :: datetime
  xi_finished_at :: datetime
  xi_prices :: "nat \<Rightarrow> string \<Rightarrow> rat res"
  xi_exit_clock :: "nat \<Rightarrow> datetime"
  xi_settle_clock :: "nat \<Rightarrow> datetime"
  xi_pending_quotes :: "nat \<Rightarrow> string \<Rightarrow> rat res"
  xi_pending_clock :: "nat \<Rightarrow> datetime"
  xi_quotes :: "nat \<Rightarrow> string \<Rightarrow> rat res"
  xi_fill_clock :: "nat \<Rightarrow> datetime"
  xi_queue_clock :: "nat \<Rightarrow> datetime"

definition config_validate :: "cycle_config \<Rightarrow> unit res" where
  "config_validate cfg = guard (oc_top_n cfg < 1) (ValueError ''opportunity_top_n must be positive'') (Inr ())"

definition recovery_order_ids :: "connection \<Rightarrow> string list" where
  "recovery_order_ids c = sort (map fst (db_orders (cn_current c)))"

definition run_recovery :: "cycle_config \<Rightarrow> string \<Rightarrow> app_state \<Rightarrow> (app_state, cycle_note list) sres" where
  "run_recovery cfg cid s =
     (if \<not> oc_recovery cfg \<or> cid \<in> cy_recovered s then (s, Inr [])
      else sbind (on_db (reconcile (recovery_order_ids (cy_conn s)) (cy_conn s)) s) (\<lambda>r s.
        (s\<lparr>cy_recovered := insert cid (cy_recovered s)\<rparr>,
         Inr (Recovery_Note (rr_inspected r) (rr_repaired r) (length (rr_issues r)) # map Recovery_Issue_Note (rr_issues r)))))"

definition run_journal_recovery :: "cycle_config \<Rightarrow> app_state \<Rightarrow> (app_state, cycle_note list) sres" where
  "run_journal_recovery cfg s =
     (if \<not> oc_journal cfg \<or> oc_settlement cfg then (s, Inr [])
      else sbind (on_db (reconcile_journal sql_get_journal (sql_save_journal True) (sql_list_closed (cy_conn s)) rc_zero (cy_conn s)) s)
        (\<lambda>r s. (s, Inr (if rc_inspected r = 0 then [] else [Journal_Note (rc_inspected r) (rc_created r) (rc_existing r)]))))"

text \<open>A loop over a state that may raise, gathering what the steps return.\<close>

fun sres_map :: "(nat \<Rightarrow> 'a \<Rightarrow> 's \<Rightarrow> ('s, 'b) sres) \<Rightarrow> nat \<Rightarrow> 'a list \<Rightarrow> 's \<Rightarrow> ('s, 'b list) sres" where
  "sres_map f n [] s = (s, Inr [])"
| "sres_map f n (x # xs) s = sbind (f n x s) (\<lambda>y s. sbind (sres_map f (Suc n) xs s) (\<lambda>ys s. (s, Inr (y # ys))))"

definition save_position :: "nat \<Rightarrow> position \<Rightarrow> app_state \<Rightarrow> (app_state, unit) sres" where
  "save_position n p s = on_db (sql_save_position True p (cy_conn s)) s"

definition position_of :: "position list \<Rightarrow> string \<Rightarrow> position res" where
  "position_of ps pid = (case find (\<lambda>p. pos_id p = pid) (rev ps) of None \<Rightarrow> Inl (KeyError pid) | Some p \<Rightarrow> Inr p)"

definition settle_result ::
  "cycle_inputs \<Rightarrow> string \<Rightarrow> position list \<Rightarrow> nat \<Rightarrow> position_close_result \<Rightarrow> app_state \<Rightarrow> (app_state, cycle_note) sres" where
  "settle_result xi cid ps n r s =
     (case position_of ps (pcr_position_id r) of
        Inl e \<Rightarrow> (s, Inl e)
      | Inr p \<Rightarrow>
          (case settle p (Some cid) (xi_settle_clock xi n) \<lparr>st_conn = cy_conn s, st_account = cy_account s\<rparr> of
             (t, x) \<Rightarrow> (s\<lparr>cy_conn := st_conn t, cy_account := st_account t\<rparr>,
                res_bind x (\<lambda>m. Inr (Exit_Note (pcr_position_id r) (pcr_reason r) (pcr_exit_price r) (pcr_realized_pnl r)
                  (Some (sm_applied m)))))))"

definition book_result ::
  "position list \<Rightarrow> nat \<Rightarrow> position_close_result \<Rightarrow> app_state \<Rightarrow> (app_state, cycle_note) sres" where
  "book_result ps n r s =
     (case position_of ps (pcr_position_id r) of
        Inl e \<Rightarrow> (s, Inl e)
      | Inr p \<Rightarrow> sbind (save_position n p s) (\<lambda>_ s.
          (s\<lparr>cy_account := apply_realized_pnl (cy_account s) (pcr_realized_pnl r)\<rparr>,
           Inr (Exit_Note (pcr_position_id r) (pcr_reason r) (pcr_exit_price r) (pcr_realized_pnl r) None))))"

definition journal_result ::
  "string \<Rightarrow> position list \<Rightarrow> nat \<Rightarrow> position_close_result \<Rightarrow> app_state \<Rightarrow> (app_state, cycle_note) sres" where
  "journal_result cid ps n r s =
     (case position_of ps (pcr_position_id r) of
        Inl e \<Rightarrow> (s, Inl e)
      | Inr p \<Rightarrow> sbind (on_db (record_closed_position (sql_save_journal True) p (Some cid) (cy_conn s)) s)
          (\<lambda>_ s. (s, Inr (Journaled_Note (pcr_position_id r)))))"

definition persist_management ::
  "cycle_config \<Rightarrow> cycle_inputs \<Rightarrow> string \<Rightarrow> position list \<Rightarrow> management_result \<Rightarrow> app_state \<Rightarrow> (app_state, cycle_note list) sres" where
  "persist_management cfg xi cid ps m s =
     (let results = mg_results m; closed = set (map pcr_position_id results) in
      sbind (sres_map save_position 0 (filter (\<lambda>p. pos_id p \<notin> closed) ps) s) (\<lambda>_ s.
        if oc_settlement cfg then sres_map (settle_result xi cid ps) 0 results s
        else sbind (sres_map (book_result ps) 0 results s) (\<lambda>exits s.
             sbind (if results \<noteq> [] \<and> oc_account_repository cfg
                    then on_db (sql_save_equity True (account_equity (cy_account s)) (cy_conn s)) s else (s, Inr ())) (\<lambda>_ s.
             sbind (if oc_journal cfg then sres_map (journal_result cid ps) 0 results s else (s, Inr [])) (\<lambda>js s.
               (s, Inr (exits @ js)))))))"

definition run_management ::
  "cycle_config \<Rightarrow> cycle_inputs \<Rightarrow> string \<Rightarrow> app_state \<Rightarrow> (app_state, management_result \<times> cycle_note list) sres" where
  "run_management cfg xi cid s =
     (case manage_open_positions (sql_list_open (cy_conn s)) (xi_prices xi) (xi_exit_clock xi) (oc_exit_policy cfg) of
        (ps, Inl e) \<Rightarrow> (s, Inl e)
      | (ps, Inr m) \<Rightarrow> sbind (persist_management cfg xi cid ps m s) (\<lambda>notes s. (s, Inr (m, notes))))"

definition run_pending :: "cycle_config \<Rightarrow> cycle_inputs \<Rightarrow> app_state \<Rightarrow> (app_state, order_result list) sres" where
  "run_pending cfg xi s =
     (if \<not> oc_pending cfg then (s, Inr [])
      else sbind (on_db (check_pending_queue (xi_pending_quotes xi) (xi_pending_clock xi) (cy_conn s)) s)
        (\<lambda>u s. (s, Inr (pu_filled u))))"

definition run_pipeline ::
  "cycle_config \<Rightarrow> string \<Rightarrow> datetime \<Rightarrow> app_state \<Rightarrow> (app_state, cycle_note list) sres" where
  "run_pipeline cfg cid started s =
     (case oc_pipeline cfg of
        None \<Rightarrow> (s, Inr [])
      | Some load \<Rightarrow> (case load s of (p, symbols) \<Rightarrow>
          (case pipeline_evaluate (oc_error_text cfg) p symbols (oc_top_n cfg) of
             Inl e \<Rightarrow> (s, Inl e)
           | Inr r \<Rightarrow> (if oc_history cfg then history_save cid started r s else s,
               Inr [Opportunities_Note (ox_evaluated r) (ox_strategy_qualified r) (ox_context_rejected r) (ox_risk_rejected r)
                 (ox_portfolio_rejected r) (length (ox_qualified r))]))))"

definition submit_one ::
  "cycle_config \<Rightarrow> cycle_inputs \<Rightarrow> nat \<Rightarrow> order_request \<Rightarrow> app_state \<Rightarrow> (app_state, cycle_note) sres" where
  "submit_one cfg xi n o1 s =
     (case submit_order (oc_execution_policy cfg) o1 (xi_quotes xi n (or_symbol o1)) (xi_fill_clock xi n) (xi_queue_clock xi n)
          \<lparr>ps_seen = cy_seen s, ps_conn = cy_conn s\<rparr> of
        (t, x) \<Rightarrow> (s\<lparr>cy_seen := ps_seen t, cy_conn := ps_conn t\<rparr>,
          res_bind x (\<lambda>r. Inr (Paper_Order_Note (or_id o1) (if sr_pending r then ORD_PENDING else ot_status (sr_result r))))))"

definition submit_selected :: "cycle_config \<Rightarrow> cycle_inputs \<Rightarrow> app_state \<Rightarrow> (app_state, cycle_note list) sres" where
  "submit_selected cfg xi s =
     (if \<not> oc_paper cfg then (s, Inr [])
      else case queue_drain s of (s1, os) \<Rightarrow>
        sbind (sres_map (submit_one cfg xi) 0 os s1) (\<lambda>notes s.
          (s, Inr (notes @ (if os = [] then [] else [Submitted_Note (length os)])))))"

definition run_stages ::
  "cycle_config \<Rightarrow> cycle_inputs \<Rightarrow> string \<Rightarrow> datetime \<Rightarrow> app_state
    \<Rightarrow> (app_state, management_result \<times> nat \<times> cycle_note list) sres" where
  "run_stages cfg xi cid started s =
     sbind (run_recovery cfg cid s) (\<lambda>n1 s.
     sbind (run_journal_recovery cfg s) (\<lambda>n2 s.
     sbind (run_management cfg xi cid s) (\<lambda>(m, n3) s.
     sbind (run_pending cfg xi s) (\<lambda>filled s.
     sbind (run_pipeline cfg cid started s) (\<lambda>n4 s.
     sbind (submit_selected cfg xi s) (\<lambda>n5 s.
       (s, Inr (m, length filled, n1 @ n2 @ n3 @ map (\<lambda>r. Pending_Filled_Note (ot_id r)) filled @ n4 @ n5))))))))"

subsection \<open>The cycle\<close>

definition replayed_result :: "cycle_audit \<Rightarrow> datetime \<Rightarrow> cycle_note cycle_result" where
  "replayed_result a started = \<lparr>cyc_id = ca_id a, cyc_status = CYCLE_COMPLETED, cyc_started_at = ca_started_at a,
     cyc_finished_at = (case ca_finished_at a of None \<Rightarrow> started | Some t \<Rightarrow> t),
     cyc_monitored_positions = int (ca_monitored a), cyc_stopped_positions = int (ca_stopped a),
     cyc_notes = ca_notes a @ [Replay_Note]\<rparr>"

definition cycle_run ::
  "cycle_config \<Rightarrow> cycle_inputs \<Rightarrow> string \<Rightarrow> app_state \<Rightarrow> (app_state, cycle_note cycle_result) sres" where
  "cycle_run cfg xi cid s =
     (let previous = dget (cy_audits s) cid;
          started = (case previous of Some a \<Rightarrow> if ca_status a = AUDIT_STARTED then ca_started_at a else xi_started_at xi
                     | None \<Rightarrow> xi_started_at xi) in
      if (case previous of Some a \<Rightarrow> ca_status a = AUDIT_COMPLETED | None \<Rightarrow> False)
      then (s, Inr (replayed_result (the previous) (xi_started_at xi)))
      else case run_stages cfg xi cid started (audit_save (audit_new cid AUDIT_STARTED started) s) of
        (s', Inr (m, filled, notes)) \<Rightarrow>
          (audit_save \<lparr>ca_id = cid, ca_status = AUDIT_COMPLETED, ca_started_at = started, ca_finished_at = Some (xi_finished_at xi),
             ca_monitored = mg_monitored m, ca_stopped = mg_stop_loss_exits m, ca_filled = filled, ca_notes = notes\<rparr> s',
           Inr \<lparr>cyc_id = cid, cyc_status = CYCLE_COMPLETED, cyc_started_at = started, cyc_finished_at = xi_finished_at xi,
             cyc_monitored_positions = int (mg_monitored m), cyc_stopped_positions = int (mg_stop_loss_exits m),
             cyc_notes = notes\<rparr>)
      | (s', Inl e) \<Rightarrow>
          (audit_save ((audit_new cid AUDIT_FAILED started)\<lparr>ca_finished_at := Some (xi_finished_at xi), ca_notes := [Error_Note e]\<rparr>) s',
           Inl e))"

subsection \<open>Stages that keep the books\<close>

text \<open>
  A connection is quiet when its invariant holds, no transaction is open and ledger and account are given ones. Every
  stage but the settlement keeps it quiet.
\<close>

definition quiet :: "(string, ledger_entry) dict \<Rightarrow> (string, rat) dict \<Rightarrow> connection \<Rightarrow> bool" where
  "quiet L A c \<longleftrightarrow> conn_inv c \<and> settled c \<and> db_ledger (cn_current c) = L \<and> db_account (cn_current c) = A"

named_theorems quiet_intros

lemma order_ops_books:
  "db_ledger (cn_current (fst (sql_save_request auto o1 c))) = db_ledger (cn_current c)"
  "db_account (cn_current (fst (sql_save_request auto o1 c))) = db_account (cn_current c)"
  "db_ledger (cn_current (fst (sql_save_result auto r c))) = db_ledger (cn_current c)"
  "db_account (cn_current (fst (sql_save_result auto r c))) = db_account (cn_current c)"
  "db_ledger (cn_current (fst (sql_save_fill auto f c))) = db_ledger (cn_current c)"
  "db_account (cn_current (fst (sql_save_fill auto f c))) = db_account (cn_current c)"
  "db_ledger (cn_current (fst (sql_save_position auto p c))) = db_ledger (cn_current c)"
  "db_account (cn_current (fst (sql_save_position auto p c))) = db_account (cn_current c)"
  "db_ledger (cn_current (fst (sql_pending_save auto po c))) = db_ledger (cn_current c)"
  "db_account (cn_current (fst (sql_pending_save auto po c))) = db_account (cn_current c)"
  "db_ledger (cn_current (fst (sql_pending_remove auto k c))) = db_ledger (cn_current c)"
  "db_account (cn_current (fst (sql_pending_remove auto k c))) = db_account (cn_current c)"
  by (auto simp: sql_save_request_def sql_save_result_def sql_save_fill_def sql_save_position_def sql_pending_save_def
      sql_pending_remove_def split: option.split)

lemma auto_ops_settled:
  assumes "settled c"
  shows "settled (fst (sql_save_request True o1 c))" "settled (fst (sql_save_result True r c))"
    "settled (fst (sql_save_position True p c))" "settled (fst (sql_pending_save True po c))"
    "settled (fst (sql_pending_remove True k c))"
  using assms by (auto simp: sql_save_request_def sql_save_result_def sql_save_position_def sql_pending_save_def
      sql_pending_remove_def auto_settled split: option.split)

lemma quiet_ops [quiet_intros]:
  assumes "quiet L A c"
  shows "quiet L A (fst (sql_save_request True o1 c))" "quiet L A (fst (sql_save_result True r c))"
    "quiet L A (fst (sql_save_position True p c))" "quiet L A (fst (sql_pending_save True po c))"
    "quiet L A (fst (sql_pending_remove True k c))"
  using assms conn_inv_requests [of c True o1] conn_inv_results [of c True r] conn_inv_positions [of c True p]
    conn_inv_pending [of c True po] conn_inv_unpend [of c True k] auto_ops_settled [of c]
  by (simp_all add: quiet_def order_ops_books)

lemma quiet_commit [quiet_intros]: "quiet L A c \<Longrightarrow> quiet L A (commit c)"
  by (auto simp: quiet_def settled_def intro: conn_inv_transaction)

lemma apply_fill_quiet [quiet_intros]:
  assumes "quiet L A c"
  shows "quiet L A (fst (apply_fill False o1 r fid comm c))"
proof (cases "snd (apply_fill False o1 r fid comm c)")
  case (Inl e)
  then show ?thesis using apply_fill_atomic assms by (auto simp: quiet_def)
next
  case (Inr x)
  then obtain p f where pf: "prepare_fill o1 r fid comm = Inr (p, f)"
    by (cases "prepare_fill o1 r fid comm") (auto simp: apply_fill_def)
  obtain c1 r1 where s1: "sql_save_result False r c = (c1, r1)" by (cases "sql_save_result False r c")
  obtain c2 r2 where s2: "sql_save_fill False f c1 = (c2, r2)" by (cases "sql_save_fill False f c1")
  obtain c3 where s3: "sql_save_position False p c2 = (c3, Inr ())" by (simp add: sql_save_position_def)
  have r: "r1 = Inr ()" "r2 = Inr ()" using Inr pf s1 s2 s3 by (cases r1; cases r2; simp add: apply_fill_def)+
  have "fst (apply_fill False o1 r fid comm c) = commit c3" using pf s1 s2 s3 r by (simp add: apply_fill_def)
  moreover have "db_ledger (cn_current c3) = L" "db_account (cn_current c3) = A"
    using assms order_ops_books(3,4) [of False r c] order_ops_books(5,6) [of False f c1] order_ops_books(7,8) [of False p c2]
      s1 s2 s3 by (simp_all add: quiet_def)
  ultimately show ?thesis using apply_fill_inv [of c False o1 r fid comm] assms by (simp add: quiet_def settled_def)
qed

lemma sbind_keeps: "P (fst m) \<Longrightarrow> (\<And>x s. P s \<Longrightarrow> P (fst (f x s))) \<Longrightarrow> P (fst (sbind m f))"
  by (rule sbind_inv) (metis fst_conv)+

lemma persist_pending_quiet [quiet_intros]: "quiet L A c \<Longrightarrow> quiet L A (fst (persist_pending_fill o1 r c))"
  unfolding persist_pending_fill_def by (rule sbind_keeps) (simp_all add: apply_fill_quiet)

lemma sql_ports_quiet:
  assumes "quiet L A c"
  shows "quiet L A (fst (pt_save sql_ports p c))" "quiet L A (fst (pt_remove sql_ports k c))"
    "quiet L A (fst (pt_fill_handler sql_ports o1 r c))"
  using assms by (simp_all add: sql_ports_def quiet_intros)

lemma pending_one_quiet:
  assumes "quiet L A c"
  shows "quiet L A (fst (pending_one sql_ports p quote now c))"
  using assms
  by (auto simp: pending_one_def Let_def intro!: sbind_keeps [where P = "quiet L A"] sql_ports_quiet)

lemma pending_loop_quiet: "quiet L A c \<Longrightarrow> quiet L A (fst (pending_loop sql_ports quotes clock n ps c))"
  by (induction ps arbitrary: n c)
    (auto intro!: sbind_keeps [where P = "quiet L A"] pending_one_quiet split: option.split)

lemma check_pending_quiet:
  assumes "quiet L A c"
  shows "quiet L A (fst (check_pending_queue quotes clock c))"
  using assms
  by (auto simp: check_pending_queue_def pending_check_def split: sum.split
      intro!: sbind_keeps [where P = "quiet L A"] pending_loop_quiet)

lemma reconcile_loop_quiet: "quiet L A c \<Longrightarrow> quiet L A (fst (reconcile_loop ids n is c))"
  by (induction ids arbitrary: n "is" c)
    (auto split: order_verdict.split sum.split intro!: sbind_keeps [where P = "quiet L A"] quiet_ops)

lemma reconcile_quiet: "quiet L A c \<Longrightarrow> quiet L A (fst (reconcile ids c))"
  unfolding reconcile_def by (rule sbind_keeps) (auto intro: reconcile_loop_quiet)

lemma submit_order_quiet:
  assumes "quiet L A (ps_conn s)"
  shows "quiet L A (ps_conn (fst (submit_order policy o1 quote now later s)))"
proof -
  let ?P = "\<lambda>s. quiet L A (ps_conn s)"
  have on: "?P (fst (on_conn m s))" if "quiet L A (fst m)" for m :: "(connection, 'a) sres" and s
    using that by (simp add: on_conn_def)
  have "?P (fst (replay_submission o1 later so sr s))" for so sr
    using assms unfolding replay_submission_def
    by (auto split: option.split intro!: sbind_keeps [where P = ?P] on quiet_ops)
  moreover have "?P (fst (first_submission policy o1 quote now later s))"
    using assms unfolding first_submission_def Let_def
    by (auto split: prod.split intro!: sbind_keeps [where P = ?P] on quiet_ops apply_fill_quiet)
  ultimately show ?thesis using assms by (auto simp: submit_order_def split: option.split prod.split)
qed

subsection \<open>The whole cycle keeps the books\<close>

lemma stry_keeps: "P (fst m) \<Longrightarrow> (\<And>s. P s \<Longrightarrow> P (cleanup s)) \<Longrightarrow> P (fst (stry m cleanup))"
  by (cases m) (auto simp: stry_def split: sum.split)

lemma settle_inv:
  assumes "conn_inv (st_conn s)" "settled (st_conn s)"
  shows "conn_inv (st_conn (fst (settle p cyc now s)))"
proof -
  obtain s' x where s: "settle p cyc now s = (s', x)" by (cases "settle p cyc now s")
  have w: "conn_inv (fst (write_settlement p a l j c))" if "conn_inv c" for a l j c
    using that unfolding write_settlement_def
    by (auto intro!: stry_keeps [where P = conn_inv] sbind_keeps [where P = conn_inv] conn_inv_ops conn_inv_transaction)
  show ?thesis
  proof (cases "\<exists>r. x = Inr r \<and> sm_applied r")
    case True
    then obtain r where r: "x = Inr r" "sm_applied r" by blast
    from settle_applied [OF s [unfolded r(1)] r(2)] obtain a l j where
      "write_settlement p a l j (st_conn s) = (st_conn s', Inr ())" by metis
    then show ?thesis using w [OF assms(1), of a l j] s by simp
  next
    case False
    then show ?thesis using settle_unapplied [OF assms(2) s] assms(1) s by simp
  qed
qed

definition app_inv :: "rat \<Rightarrow> app_state \<Rightarrow> bool" where
  "app_inv initial s \<longleftrightarrow> conn_inv (cy_conn s) \<and> books_ok initial (cy_conn s)"

lemma app_inv_quiet:
  assumes "app_inv initial s" "\<And>L A. quiet L A (cy_conn s) \<Longrightarrow> quiet L A (cy_conn s')"
  shows "app_inv initial s'"
proof -
  have "quiet (db_ledger (cn_current (cy_conn s))) (db_account (cn_current (cy_conn s))) (cy_conn s)"
    using assms(1) by (simp add: app_inv_def quiet_def books_ok_def)
  from assms(2) [OF this] show ?thesis using assms(1) by (simp add: app_inv_def quiet_def books_ok_def)
qed

lemma app_inv_fields [simp]:
  "app_inv initial (s\<lparr>cy_recovered := x\<rparr>) = app_inv initial s" "app_inv initial (s\<lparr>cy_queue := q\<rparr>) = app_inv initial s"
  by (simp_all add: app_inv_def)

lemma app_inv_on_db:
  assumes "app_inv initial s" "\<And>L A. quiet L A (cy_conn s) \<Longrightarrow> quiet L A (fst m)"
  shows "app_inv initial (fst (on_db m s))"
  using assms(1) by (rule app_inv_quiet) (simp add: on_db_def assms(2))

lemma sres_map_keeps:
  assumes "\<And>n x s. P s \<Longrightarrow> P (fst (f n x s))"
  shows "P s \<Longrightarrow> P (fst (sres_map f n xs s))"
  by (induction xs arbitrary: n s) (auto intro!: sbind_keeps [where P = P] assms)

lemma audit_save_inv: "app_inv initial s \<Longrightarrow> app_inv initial (audit_save a s)"
  by (rule app_inv_quiet) (auto simp: audit_save_def intro: quiet_commit)

lemma history_save_inv: "app_inv initial s \<Longrightarrow> app_inv initial (history_save cid t r s)"
  by (rule app_inv_quiet) (auto simp: history_save_def intro: quiet_commit)

lemma run_recovery_inv: "app_inv initial s \<Longrightarrow> app_inv initial (fst (run_recovery cfg cid s))"
  unfolding run_recovery_def
  by (auto intro!: sbind_keeps [where P = "app_inv initial"] app_inv_on_db reconcile_quiet)

lemma save_position_inv: "app_inv initial s \<Longrightarrow> app_inv initial (fst (save_position n p s))"
  unfolding save_position_def by (erule app_inv_on_db) (rule quiet_ops(3))

lemma settle_result_inv:
  assumes "app_inv initial s"
  shows "app_inv initial (fst (settle_result xi cid ps n r s))"
proof (cases "position_of ps (pcr_position_id r)")
  case (Inl e)
  then show ?thesis using assms by (simp add: settle_result_def)
next
  case (Inr p)
  let ?s = "\<lparr>st_conn = cy_conn s, st_account = cy_account s\<rparr>"
  have "conn_inv (st_conn (fst (settle p (Some cid) (xi_settle_clock xi n) ?s)))"
    "books_ok initial (st_conn (fst (settle p (Some cid) (xi_settle_clock xi n) ?s)))"
    using assms settle_inv [of ?s p "Some cid"] settle_books [of initial ?s p "Some cid"]
    by (simp_all add: app_inv_def books_ok_def)
  then show ?thesis using Inr by (simp add: settle_result_def app_inv_def case_prod_beta)
qed

lemma run_management_inv:
  assumes "app_inv initial s" "oc_settlement cfg"
  shows "app_inv initial (fst (run_management cfg xi cid s))"
proof -
  have "app_inv initial (fst (persist_management cfg xi cid ps m s))" for ps m
    using assms unfolding persist_management_def Let_def
    by (auto intro!: sbind_keeps [where P = "app_inv initial"] sres_map_keeps [where P = "app_inv initial"]
        save_position_inv settle_result_inv)
  then show ?thesis using assms(1) unfolding run_management_def
    by (auto split: prod.split sum.split intro!: sbind_keeps [where P = "app_inv initial"])
qed

lemma run_pending_inv: "app_inv initial s \<Longrightarrow> app_inv initial (fst (run_pending cfg xi s))"
  unfolding run_pending_def
  by (auto intro!: sbind_keeps [where P = "app_inv initial"] app_inv_on_db check_pending_quiet)

lemma run_pipeline_inv: "app_inv initial s \<Longrightarrow> app_inv initial (fst (run_pipeline cfg cid started s))"
  unfolding run_pipeline_def by (auto split: option.split prod.split sum.split intro: history_save_inv)

lemma submit_one_inv:
  assumes "app_inv initial s"
  shows "app_inv initial (fst (submit_one cfg xi n o1 s))"
  using assms
proof (rule app_inv_quiet)
  fix L A assume "quiet L A (cy_conn s)"
  then show "quiet L A (cy_conn (fst (submit_one cfg xi n o1 s)))"
    using submit_order_quiet [of L A "\<lparr>ps_seen = cy_seen s, ps_conn = cy_conn s\<rparr>" "oc_execution_policy cfg" o1]
    by (simp add: submit_one_def case_prod_beta)
qed

lemma submit_selected_inv: "app_inv initial s \<Longrightarrow> app_inv initial (fst (submit_selected cfg xi s))"
  unfolding submit_selected_def queue_drain_def
  by (auto intro!: sbind_keeps [where P = "app_inv initial"] sres_map_keeps [where P = "app_inv initial"] submit_one_inv)

lemma run_stages_inv:
  assumes "app_inv initial s" "oc_settlement cfg"
  shows "app_inv initial (fst (run_stages cfg xi cid started s))"
  unfolding run_stages_def
  by (rule sbind_keeps [where P = "app_inv initial"] run_recovery_inv assms)+
    (auto simp: run_journal_recovery_def assms(2) split: prod.split
      intro!: sbind_keeps [where P = "app_inv initial"] run_management_inv run_pending_inv run_pipeline_inv submit_selected_inv)

definition cycle_started :: "cycle_inputs \<Rightarrow> string \<Rightarrow> app_state \<Rightarrow> datetime" where
  "cycle_started xi cid s = (case dget (cy_audits s) cid of
     Some a \<Rightarrow> if ca_status a = AUDIT_STARTED then ca_started_at a else xi_started_at xi | None \<Rightarrow> xi_started_at xi)"

text \<open>The audit row and the answer of a cycle whose stages ended with \<open>y\<close>.\<close>

definition cycle_outcome ::
  "cycle_inputs \<Rightarrow> string \<Rightarrow> datetime \<Rightarrow> (management_result \<times> nat \<times> cycle_note list) res \<Rightarrow> cycle_audit
    \<Rightarrow> cycle_note cycle_result res \<Rightarrow> bool" where
  "cycle_outcome xi cid started y a x \<longleftrightarrow>
     ca_id a = cid \<and> ca_started_at a = started \<and> ca_finished_at a = Some (xi_finished_at xi) \<and>
     (case y of
        Inl e \<Rightarrow> x = Inl e \<and> ca_status a = AUDIT_FAILED \<and> ca_notes a = [Error_Note e]
      | Inr (m, filled, ns) \<Rightarrow> ca_status a = AUDIT_COMPLETED \<and> ca_notes a = ns \<and> ca_filled a = filled \<and>
          ca_monitored a = mg_monitored m \<and> ca_stopped a = mg_stop_loss_exits m \<and>
          x = Inr \<lparr>cyc_id = cid, cyc_status = CYCLE_COMPLETED, cyc_started_at = started,
            cyc_finished_at = xi_finished_at xi, cyc_monitored_positions = int (mg_monitored m),
            cyc_stopped_positions = int (mg_stop_loss_exits m), cyc_notes = ns\<rparr>)"

text \<open>A cycle is replayed, or its stages run between two audit rows.\<close>

lemma cycle_run_cases:
  assumes "cycle_run cfg xi cid s = (s', x)"
  obtains (replay) a where "dget (cy_audits s) cid = Some a" "ca_status a = AUDIT_COMPLETED" "s' = s"
      "x = Inr (replayed_result a (xi_started_at xi))"
  | (run) s1 y a where "\<not> (\<exists>a. dget (cy_audits s) cid = Some a \<and> ca_status a = AUDIT_COMPLETED)"
      "run_stages cfg xi cid (cycle_started xi cid s) (audit_save (audit_new cid AUDIT_STARTED (cycle_started xi cid s)) s) = (s1, y)"
      "s' = audit_save a s1" "cycle_outcome xi cid (cycle_started xi cid s) y a x"
proof (cases "\<exists>a. dget (cy_audits s) cid = Some a \<and> ca_status a = AUDIT_COMPLETED")
  case True
  then obtain a where a: "dget (cy_audits s) cid = Some a" "ca_status a = AUDIT_COMPLETED" by blast
  then have "s' = s" "x = Inr (replayed_result a (xi_started_at xi))" using assms by (simp_all add: cycle_run_def)
  then show thesis using replay a by blast
next
  case False
  then have n: "\<not> (case dget (cy_audits s) cid of None \<Rightarrow> False | Some a \<Rightarrow> ca_status a = AUDIT_COMPLETED)"
    by (auto split: option.splits)
  obtain s1 y where st: "run_stages cfg xi cid (cycle_started xi cid s)
      (audit_save (audit_new cid AUDIT_STARTED (cycle_started xi cid s)) s) = (s1, y)" by (metis prod.exhaust)
  note u = assms [unfolded cycle_run_def Let_def cycle_started_def [symmetric], simplified if_not_P [OF n] st]
  have "\<exists>a. s' = audit_save a s1 \<and> cycle_outcome xi cid (cycle_started xi cid s) y a x"
  proof (cases y)
    case (Inl e)
    then show ?thesis using u by (auto simp: audit_new_def cycle_outcome_def)
  next
    case (Inr z)
    obtain m filled ns where "z = (m, filled, ns)" by (metis prod.exhaust)
    then show ?thesis using u Inr by (auto simp: cycle_outcome_def)
  qed
  then show thesis using run [OF False st] by blast
qed

lemma cycle_run_inv:
  assumes "app_inv initial s" "oc_settlement cfg"
  shows "app_inv initial (fst (cycle_run cfg xi cid s))"
proof -
  obtain s' x where r: "cycle_run cfg xi cid s = (s', x)" by (metis prod.exhaust)
  then show ?thesis
  proof (cases rule: cycle_run_cases)
    case replay
    then show ?thesis using assms(1) r by simp
  next
    case (run s1 y a)
    have "app_inv initial s1"
      using run_stages_inv [OF audit_save_inv [OF assms(1)] assms(2)] run(2) by (metis fst_conv)
    then show ?thesis using run(3) r audit_save_inv by simp
  qed
qed

subsection \<open>The audit trail\<close>

lemma sql_only [simp]:
  "cy_audits (fst (on_db m s)) = cy_audits s" "cy_queue (fst (on_db m s)) = cy_queue s"
  "cy_audits (fst (save_position n p s)) = cy_audits s" "cy_queue (fst (save_position n p s)) = cy_queue s"
  by (simp_all add: on_db_def save_position_def)

lemma settle_result_frame [simp]:
  "cy_audits (fst (settle_result xi cid ps n r s)) = cy_audits s" "cy_queue (fst (settle_result xi cid ps n r s)) = cy_queue s"
  by (simp_all add: settle_result_def case_prod_beta split: sum.split)

lemma book_result_frame [simp]:
  "cy_audits (fst (book_result ps n r s)) = cy_audits s" "cy_queue (fst (book_result ps n r s)) = cy_queue s"
  by (simp_all add: book_result_def sbind_def split: sum.split)

lemma journal_result_frame [simp]:
  "cy_audits (fst (journal_result cid ps n r s)) = cy_audits s" "cy_queue (fst (journal_result cid ps n r s)) = cy_queue s"
  by (simp_all add: journal_result_def sbind_def split: sum.split)

lemma submit_one_frame [simp]:
  "cy_audits (fst (submit_one cfg xi n o1 s)) = cy_audits s" "cy_queue (fst (submit_one cfg xi n o1 s)) = cy_queue s"
  by (simp_all add: submit_one_def case_prod_beta)

lemma persist_management_audits: "cy_audits (fst (persist_management cfg xi cid ps m s)) = cy_audits s"
proof -
  let ?P = "\<lambda>t. cy_audits t = cy_audits s"
  have "?P (fst (persist_management cfg xi cid ps m s))"
    unfolding persist_management_def Let_def
    by (auto intro!: sbind_keeps [where P = ?P] sres_map_keeps [where P = ?P])
  then show ?thesis .
qed

lemma run_stages_audits: "cy_audits (fst (run_stages cfg xi cid started s)) = cy_audits s"
proof -
  let ?P = "\<lambda>t. cy_audits t = cy_audits s"
  have rec: "?P t \<Longrightarrow> ?P (fst (run_recovery cfg cid t))" for t
    unfolding run_recovery_def by (auto intro!: sbind_keeps [where P = ?P])
  have jou: "?P t \<Longrightarrow> ?P (fst (run_journal_recovery cfg t))" for t
    unfolding run_journal_recovery_def by (auto intro!: sbind_keeps [where P = ?P])
  have man: "?P t \<Longrightarrow> ?P (fst (run_management cfg xi cid t))" for t
    unfolding run_management_def
    by (auto split: prod.split sum.split intro!: sbind_keeps [where P = ?P] simp: persist_management_audits)
  have pen: "?P t \<Longrightarrow> ?P (fst (run_pending cfg xi t))" for t
    unfolding run_pending_def by (auto intro!: sbind_keeps [where P = ?P])
  have pip: "?P t \<Longrightarrow> ?P (fst (run_pipeline cfg cid started t))" for t
    unfolding run_pipeline_def by (auto split: option.split prod.split sum.split simp: history_save_def)
  have sub: "?P t \<Longrightarrow> ?P (fst (submit_selected cfg xi t))" for t
    unfolding submit_selected_def queue_drain_def
    by (auto intro!: sbind_keeps [where P = ?P] sres_map_keeps [where P = ?P])
  show ?thesis unfolding run_stages_def
    by (rule sbind_keeps [where P = ?P] rec jou man pen pip sub refl)+
      (auto split: prod.split intro!: sbind_keeps [where P = ?P] rec jou man pen pip sub)
qed

lemma cycle_audited:
  assumes "cycle_run cfg xi cid s = (s', x)"
  shows "\<exists>a. dget (cy_audits s') cid = Some a \<and> (ca_status a = AUDIT_COMPLETED \<longleftrightarrow> (\<exists>r. x = Inr r)) \<and>
      (ca_status a = AUDIT_FAILED \<longleftrightarrow> (\<exists>e. x = Inl e))"
    and "k \<noteq> cid \<Longrightarrow> dget (cy_audits s') k = dget (cy_audits s) k"
proof -
  have "(\<exists>a. dget (cy_audits s') cid = Some a \<and> (ca_status a = AUDIT_COMPLETED \<longleftrightarrow> (\<exists>r. x = Inr r)) \<and>
      (ca_status a = AUDIT_FAILED \<longleftrightarrow> (\<exists>e. x = Inl e))) \<and> (k \<noteq> cid \<longrightarrow> dget (cy_audits s') k = dget (cy_audits s) k)"
    using assms
  proof (cases rule: cycle_run_cases)
    case (replay a)
    then show ?thesis by auto
  next
    case (run s1 y a)
    have "cy_audits s1 = cy_audits (audit_save (audit_new cid AUDIT_STARTED (cycle_started xi cid s)) s)"
      using run_stages_audits [of cfg xi cid "cycle_started xi cid s"] run(2) by (metis fst_conv)
    then show ?thesis using run(3,4)
      by (cases y) (auto simp: audit_save_def cycle_outcome_def audit_new_def)
  qed
  then show "\<exists>a. dget (cy_audits s') cid = Some a \<and> (ca_status a = AUDIT_COMPLETED \<longleftrightarrow> (\<exists>r. x = Inr r)) \<and>
      (ca_status a = AUDIT_FAILED \<longleftrightarrow> (\<exists>e. x = Inl e))"
    "k \<noteq> cid \<Longrightarrow> dget (cy_audits s') k = dget (cy_audits s) k" by blast+
qed

text \<open>A completed cycle runs once: its repetition changes nothing and answers with the same counts and one more note.\<close>

lemma cycle_replay:
  assumes "cycle_run cfg xi cid s = (s', Inr r)"
  shows "\<exists>q. cycle_run cfg' xi' cid s' = (s', Inr q) \<and> cyc_monitored_positions q = cyc_monitored_positions r \<and>
    cyc_stopped_positions q = cyc_stopped_positions r \<and> cyc_started_at q = cyc_started_at r \<and> last (cyc_notes q) = Replay_Note"
proof -
  have rep: "cycle_run cfg' xi' cid t = (t, Inr (replayed_result a (xi_started_at xi')))"
    if "dget (cy_audits t) cid = Some a" "ca_status a = AUDIT_COMPLETED" for t a
    using that by (simp add: cycle_run_def)
  from assms show ?thesis
  proof (cases rule: cycle_run_cases)
    case (replay a)
    then show ?thesis using rep [of s' a] by (simp add: replayed_result_def)
  next
    case (run s1 y a)
    then obtain z where y: "y = Inr z" by (cases y) (auto simp: cycle_outcome_def)
    have "dget (cy_audits s') cid = Some a" "ca_status a = AUDIT_COMPLETED"
      using run(3,4) y by (auto simp: audit_save_def cycle_outcome_def split: prod.splits)
    from rep [OF this] show ?thesis using run(4) y by (auto simp: cycle_outcome_def replayed_result_def split: prod.splits)
  qed
qed

subsection \<open>Orders that a failed submission drops\<close>

lemma sres_map_raises:
  "f n x s = (s1, Inl e) \<Longrightarrow> sres_map f n (x # xs) s = (s1, Inl e)"
  by simp

text \<open>The queue is emptied before the first order is submitted: when one raises, those behind it are gone.\<close>

lemma failed_submission_drops:
  assumes "oc_paper cfg" "cy_queue s = o1 # os" "submit_one cfg xi 0 o1 (s\<lparr>cy_queue := []\<rparr>) = (s1, Inl e)"
  shows "submit_selected cfg xi s = (s1, Inl e)" "cy_queue s1 = []"
proof -
  show "submit_selected cfg xi s = (s1, Inl e)"
    using assms by (simp add: submit_selected_def queue_drain_def)
  show "cy_queue s1 = []" using submit_one_frame(2) [of cfg xi 0 o1 "s\<lparr>cy_queue := []\<rparr>"] assms(3) by simp
qed

subsection \<open>The composed application\<close>

text \<open>
  \<^verbatim>\<open>build_paper_application\<close>: the loader of the risk context, the context engine asked without news and events, and the
  collaborators the cycle is given. The live price and the snapshots come from the routers and are arguments.
\<close>

record composition =
  kp_registry :: "(string, instrument) dict"
  kp_mapper :: "(string \<times> string, symbol_mapping) dict"
  kp_contracts :: "(string, contract_spec) dict"
  kp_leverage :: "(string, rat) dict"
  kp_matrix :: "correlation_pair list"
  kp_symbols :: "string list"
  kp_live_price :: "string \<Rightarrow> rat res"
  kp_strategy :: strategy_pipeline
  kp_now :: datetime

definition load_risk_context :: "composition \<Rightarrow> app_state \<Rightarrow> string \<Rightarrow> risk_context res" where
  "load_risk_context k s symbol =
     res_bind (registry_get (kp_registry k) symbol) (\<lambda>ins.
     case dget (kp_contracts k) (upper symbol) of None \<Rightarrow> Inl (KeyError (upper symbol)) | Some contract \<Rightarrow>
     let leverage = (case dget (kp_leverage k) (upper symbol) of None \<Rightarrow> 1 | Some l \<Rightarrow> l) in
     guard (leverage \<le> 0) (ValueError (''invalid configured leverage for '' @ symbol))
     (res_bind (sql_pending_active (cy_conn s)) (\<lambda>active.
      res_bind (reserve_pending_order_risk (map pd_order active) (Some (kp_live_price k))) (\<lambda>reservation.
      guard (rv_unresolved reservation \<noteq> [])
        (ValueError (''cannot quantify pending order risk: '' @ join '','' (rv_unresolved reservation)))
      (Inr \<lparr>kx_account = cy_account s, kx_positions = sql_list_open (cy_conn s), kx_instrument = ins, kx_contract = contract,
         kx_leverage = leverage, kx_provider = (if has_mapping (kp_mapper k) symbol ''storm'' then Some ''STORM'' else None),
         kx_correlation = 0, kx_reserved_pending_risk = rv_total_risk reservation,
         kx_correlation_matrix = Some (kp_matrix k)\<rparr>)))))"

definition composed_pipeline :: "composition \<Rightarrow> app_state \<Rightarrow> opportunity_pipeline" where
  "composed_pipeline k s = opportunity_pipeline_make (kp_strategy k) (load_risk_context k s)
     (Some (\<lambda>symbol. assess_context default_context_policy symbol [] [] (kp_now k))) default_policy None"

definition composed_config :: "composition \<Rightarrow> (exn \<Rightarrow> string) \<Rightarrow> cycle_config" where
  "composed_config k text = \<lparr>oc_recovery = True, oc_journal = False, oc_settlement = True, oc_pending = True,
     oc_account_repository = True, oc_history = True, oc_paper = True,
     oc_pipeline = Some (\<lambda>s. (composed_pipeline k s, kp_symbols k)), oc_top_n = 10,
     oc_exit_policy = \<lparr>xe_trailing_enabled = False, xe_trailing_distance_percent = 0\<rparr>,
     oc_execution_policy = \<lparr>xp_paper_enabled = True, xp_shadow_enabled = True\<rparr>, oc_error_text = text\<rparr>"

text \<open>In the composed application no signal is ever held back by its context.\<close>

lemma composed_never_holds:
  assumes "gate_signal (composed_pipeline k s) sg = Inr (c, v)"
  shows "\<not> (\<exists>rs. v = Held rs)"
proof -
  have h: "\<not> cx_blocking x \<and> \<not> cx_delay x"
    if "assess_context default_context_policy sym [] [] now = Inr x" for sym now x
    using assess_context_gates [OF that] by (simp add: event_near_def)
  have r: "gate_rest p sg' ctx \<noteq> Inr (Held rs)" for p sg' ctx rs
    by (auto simp: gate_rest_def res_bind_Inr_iff split: if_splits)
  show ?thesis using assms h r
    by (auto simp: gate_signal_def composed_pipeline_def opportunity_pipeline_make_def res_bind_Inr_iff split: if_splits)
qed

subsection \<open>The stand-alone runner\<close>

text \<open>\<^verbatim>\<open>ApplicationRunner.run_cycle\<close>: exits only; every open position is saved and every profit applied.\<close>

definition runner_cycle ::
  "exit_policy \<Rightarrow> (nat \<Rightarrow> string \<Rightarrow> rat res) \<Rightarrow> (nat \<Rightarrow> datetime) \<Rightarrow> connection \<times> account
    \<Rightarrow> (connection \<times> account, management_result) sres" where
  "runner_cycle policy prices clock s =
     (case s of (c, acc) \<Rightarrow>
      case manage_open_positions (sql_list_open c) prices clock policy of
        (ps, Inl e) \<Rightarrow> (s, Inl e)
      | (ps, Inr m) \<Rightarrow>
          ((fold (\<lambda>p c. fst (sql_save_position True p c)) ps c,
            fold (\<lambda>r a. apply_realized_pnl a (pcr_realized_pnl r)) (mg_results m) acc), Inr m))"

end
