(* ===== verification/Application_Properties.thy ===== *)
theory Application_Properties
  imports Data_And_Live Runtime_Cycle
begin

section \<open>Properties of the runtime cycle and of the opportunity pipeline\<close>

text \<open>
  What a cycle promises to its operator and what a qualified opportunity has behind it. The lemmas are those of
  \<open>Runtime_Cycle\<close> and \<open>Opportunity\<close>; the concrete pipeline below evaluates one market with a ready long signal.
\<close>

subsection \<open>One market that passes every gate\<close>

definition ex_loader :: "string \<Rightarrow> snapshots res" where
  "ex_loader symbol = (let s = example_snapshot 100 4 96 in
     if symbol = ''BTC'' then Inr (s ''BREAKOUT_UP'', s ''BREAKOUT_UP'', s ''NEAR_RESISTANCE'', s ''BREAKOUT_UP'')
     else Inl (KeyError symbol))"

definition ex_risk_context :: risk_context where
  "ex_risk_context = \<lparr>kx_account = ex_account, kx_positions = [], kx_instrument = ex_instrument, kx_contract = ex_contract,
     kx_leverage = 1, kx_provider = None, kx_correlation = 0, kx_reserved_pending_risk = 0, kx_correlation_matrix = None\<rparr>"

definition ex_strategy :: "nat \<Rightarrow> strategy_pipeline" where
  "ex_strategy workers = \<lparr>yp_loader = ex_loader, yp_max_workers = workers\<rparr>"

definition ex_pipeline :: opportunity_pipeline where
  "ex_pipeline = opportunity_pipeline_make (ex_strategy 16) (\<lambda>_. Inr ex_risk_context) None default_policy None"

lemma ex_scanned:
  obtains s where "evaluate_symbol text ex_loader ''BTC'' = Inr (Inr s)" "sg_symbol s = ''BTC''" "sg_entry s = 100"
    "sg_stop_loss s = 95" "sg_target s = 225 / 2" "sg_state s = READY_FOR_RISK_REVIEW" "sg_direction s = ''LONG''"
proof -
  obtain s where s: "example_signal 100 4 96 = Inr s" "sg_state s = READY_FOR_RISK_REVIEW" "sg_symbol s = ''BTC''"
    "sg_direction s = ''LONG''" "sg_entry s = 100" "sg_stop_loss s = 95" "sg_target s = 225 / 2"
    using example_ready_round by blast
  then have "evaluate_symbol text ex_loader ''BTC'' = Inr (Inr s)"
    by (simp add: evaluate_symbol_def ex_loader_def example_signal_def Let_def)
  with s that show thesis by blast
qed

lemma ex_missing: "evaluate_symbol text ex_loader ''ETH'' = Inr (Inl \<lparr>sj_symbol = ''ETH'', sj_reasons = [text (KeyError ''ETH'')],
    sj_score = None, sj_confidence = None, sj_state = ''DATA_ERROR''\<rparr>)"
  by (simp add: evaluate_symbol_def ex_loader_def Let_def)

lemma ex_gate_risk:
  assumes "sg_entry s = 100" "sg_stop_loss s = 95" "sg_state s = READY_FOR_RISK_REVIEW"
  shows "gate_risk ex_pipeline s ex_risk_context = Inr ex_assessment"
proof -
  have c: "correlated_open_risk ex_risk_context (sg_symbol s) 0 = Inr 0"
    by (simp add: correlated_open_risk_def ex_risk_context_def correlation_risk_multiplier_def validate_correlation_def
        guard_def dec_eval)
  have p: "op_risk_policy ex_pipeline = default_policy" by (simp add: ex_pipeline_def opportunity_pipeline_make_def)
  have k: "kx_positions ex_risk_context = []" "kx_account ex_risk_context = ex_account"
    "kx_contract ex_risk_context = ex_contract" "kx_instrument ex_risk_context = ex_instrument"
    "kx_leverage ex_risk_context = 1" "kx_provider ex_risk_context = None" "kx_reserved_pending_risk ex_risk_context = 0"
    by (simp_all add: ex_risk_context_def)
  have "assess_risk ex_account [] s ex_instrument ex_contract 1 default_policy None 0 0 = Inr ex_assessment"
    by (simp add: assess_risk_def ex_equity assms ex_contract_valid default_policy_valid guard_def
        ex_budgets ex_size ex_fields Let_def storm_loss_of_def futures_percent_def min_reasons_def
        storm_reasons_def limit_reasons_def ex_assessment_def opt_holds_def)
  then show ?thesis unfolding gate_risk_def k p by (simp add: ex_budgets(5) c)
qed

lemma ex_gate_portfolio:
  "\<exists>a. gate_portfolio ex_pipeline s ex_risk_context ex_assessment = Inr a \<and> pa_approved a"
proof -
  have "total_risk [] = Inr 0" "percent_of 0 10000 = 0" "percent_of 100 10000 = 1" "dadd 0 0 = 0" "dadd 0 100 = 100"
    "correlated_risk 100 0 0 = Inr 100" "open_futures [] = 0"
    by (simp_all add: total_risk_def dsum_def percent_of_def correlated_risk_def correlation_risk_multiplier_def
        validate_correlation_def guard_def dec_eval open_futures_def)
  then show ?thesis
    by (simp add: gate_portfolio_def assess_portfolio_def ex_risk_context_def ex_equity ex_pipeline_def ex_assessment_def
        opportunity_pipeline_make_def guard_def portfolio_policy_validate_def percent_ok_def default_policy_def
        correlation_of_def portfolio_reasons_def)
qed

text \<open>Of the two symbols one has no data; the other passes every gate and is the one ranked opportunity.\<close>

lemma ex_evaluated:
  "\<exists>r opp. pipeline_evaluate text ex_pipeline [''BTC'', ''ETH''] 10 = Inr r \<and> ox_qualified r = [opp] \<and>
    sg_symbol (go_signal opp) = ''BTC'' \<and> go_risk opp = ex_assessment"
proof -
  obtain s where s: "evaluate_symbol text ex_loader ''BTC'' = Inr (Inr s)" "sg_symbol s = ''BTC''" "sg_entry s = 100"
    "sg_stop_loss s = 95" "sg_target s = 225 / 2" "sg_state s = READY_FOR_RISK_REVIEW" "sg_direction s = ''LONG''"
    by (rule ex_scanned)
  obtain a where a: "gate_portfolio ex_pipeline s ex_risk_context ex_assessment = Inr a" "pa_approved a"
    using ex_gate_portfolio by blast
  have "ra_approved ex_assessment" by (simp add: ex_assessment_def)
  then have g: "gate_signal ex_pipeline s =
      Inr (None, Gated ex_assessment a (build_evidence s None ex_assessment a (kx_provider ex_risk_context)))"
    using a ex_gate_risk [OF s(3,4,6)]
    by (simp add: gate_signal_def gate_rest_def ex_pipeline_def opportunity_pipeline_make_def)
  obtain js where e: "evaluate_all text (op_strategy ex_pipeline) [''BTC'', ''ETH''] = Inr (2, [s], js)"
    using s(1) ex_missing
    by (simp add: evaluate_all_def scan_symbols_def ex_pipeline_def opportunity_pipeline_make_def ex_strategy_def
        rights_def lefts_def rank_signals_def sort_desc_def)
  show ?thesis
    using e g s(2) by (simp add: pipeline_evaluate_def guard_def Let_def gate_start_def apply_verdict_def sort_desc_def ranked_def)
qed

subsection \<open>The cycle\<close>

definition ex_composition :: "string list \<Rightarrow> composition" where
  "ex_composition symbols = \<lparr>kp_registry = [], kp_mapper = [], kp_contracts = [], kp_leverage = [], kp_matrix = [],
     kp_symbols = symbols, kp_live_price = (\<lambda>s. Inl (KeyError s)), kp_strategy = ex_strategy 16, kp_now = Aware 0\<rparr>"

definition ex_inputs :: cycle_inputs where
  "ex_inputs = \<lparr>xi_started_at = Aware 1, xi_finished_at = Aware 2, xi_prices = (\<lambda>_ s. Inl (KeyError s)),
     xi_exit_clock = (\<lambda>_. Aware 1), xi_settle_clock = (\<lambda>_. Aware 1), xi_pending_quotes = (\<lambda>_ s. Inl (KeyError s)),
     xi_pending_clock = (\<lambda>_. Aware 1), xi_quotes = (\<lambda>_ s. Inl (KeyError s)), xi_fill_clock = (\<lambda>_. Aware 1),
     xi_queue_clock = (\<lambda>_. Aware 1)\<rparr>"

text \<open>A fresh application: an account row, no orders, and two orders selected for submission.\<close>

definition ex_app :: "order_request list \<Rightarrow> app_state" where
  "ex_app queue = \<lparr>cy_conn = st_conn example_start, cy_account = ex_account, cy_audits = [], cy_history = [],
     cy_recovered = {}, cy_seen = {}, cy_queue = queue\<rparr>"

lemma ex_app_inv: "app_inv 10000 (ex_app queue)"
  by (simp add: app_inv_def ex_app_def books_ok_def example_start_def settled_def db_empty_def conn_inv_def db_inv_def
      dict_ok_def)

lemma ex_cycle:
  "\<exists>s' r. cycle_run (composed_config (ex_composition []) text) ex_inputs ''c1'' (ex_app []) = (s', Inr r)"
  by (simp add: cycle_run_def ex_app_def Let_def run_stages_def composed_config_def run_recovery_def on_db_def
      recovery_order_ids_def audit_save_def audit_new_def example_start_def db_empty_def reconcile_def
      run_journal_recovery_def run_management_def sql_list_open_def manage_open_positions_def persist_management_def
      run_pending_def check_pending_queue_def pending_check_def run_pipeline_def pipeline_evaluate_def guard_def
      evaluate_all_def submit_selected_def queue_drain_def commit_def sql_pending_active_def gate_start_def mg_zero_def history_save_def
      ex_composition_def)

text \<open>
  C4. No sequence of cycles breaks the books. Whatever cycles the composed application runs, whichever quotes fail and
  at whichever stage a cycle raises, the database stays consistent, no transaction is left open, the ledger stays an
  unbroken chain and the stored equity is its end.
\<close>

theorem cycles_keep_books:
  assumes "app_inv initial s"
  shows "app_inv initial (fold (\<lambda>(cid, xi) s. fst (cycle_run (composed_config k text) xi cid s)) runs s)"
  using assms
proof (induction runs arbitrary: s)
  case (Cons run runs)
  obtain cid xi where run: "run = (cid, xi)" by (cases run)
  have "oc_settlement (composed_config k text)" by (simp add: composed_config_def)
  from Cons.IH [OF cycle_run_inv [OF Cons.prems this]] show ?case by (simp add: run)
qed simp

theorem cycles_keep_books_witness:
  "app_inv 10000 (fold (\<lambda>(cid, xi) s. fst (cycle_run (composed_config (ex_composition [''BTC'']) (\<lambda>_. '''')) xi cid s))
     [(''c1'', ex_inputs), (''c2'', ex_inputs)] (ex_app [ex_order ''o1'']))"
  by (rule cycles_keep_books) (rule ex_app_inv)

text \<open>
  Every cycle leaves its audit: after a run the audit of its id says completed exactly when the run returned and failed
  exactly when it raised, and no other cycle's audit has changed. No run ends with its audit still started.
\<close>

theorem cycle_always_audited:
  "case cycle_run cfg xi cid s of
     (s', x) \<Rightarrow> (\<exists>a. dget (cy_audits s') cid = Some a \<and> ca_status a \<noteq> AUDIT_STARTED \<and>
       (ca_status a = AUDIT_COMPLETED \<longleftrightarrow> (\<exists>r. x = Inr r)) \<and> (ca_status a = AUDIT_FAILED \<longleftrightarrow> (\<exists>e. x = Inl e))) \<and>
       list_all (\<lambda>k. k = cid \<or> dget (cy_audits s') k = dget (cy_audits s) k) ks"
proof -
  obtain s' x where r: "cycle_run cfg xi cid s = (s', x)" by fastforce
  obtain a where a: "dget (cy_audits s') cid = Some a" "ca_status a = AUDIT_COMPLETED \<longleftrightarrow> (\<exists>r. x = Inr r)"
    "ca_status a = AUDIT_FAILED \<longleftrightarrow> (\<exists>e. x = Inl e)"
    using cycle_audited(1) [OF r] by blast
  have "ca_status a \<noteq> AUDIT_STARTED" using a(2,3) by (cases x) auto
  moreover have "list_all (\<lambda>k. k = cid \<or> dget (cy_audits s') k = dget (cy_audits s) k) ks"
    using cycle_audited(2) [OF r] by (auto simp: list_all_iff)
  ultimately show ?thesis using a by (auto simp: r)
qed

text \<open>
  C7. A completed cycle is never run twice: under any configuration and inputs a second run of its id returns the stored
  counts, marked as a replay, and changes nothing in the application.
\<close>

theorem completed_cycle_replayed:
  assumes "cycle_run cfg xi cid s = (s', Inr r)"
  shows "\<exists>q. cycle_run cfg' xi' cid s' = (s', Inr q) \<and> cyc_monitored_positions q = cyc_monitored_positions r \<and>
    cyc_stopped_positions q = cyc_stopped_positions r \<and> cyc_started_at q = cyc_started_at r \<and> last (cyc_notes q) = Replay_Note"
  using assms by (rule cycle_replay)

theorem completed_cycle_replayed_witness:
  "\<exists>s' q. cycle_run (composed_config (ex_composition [''BTC'']) (\<lambda>_. '''')) ex_inputs ''c1'' s' = (s', Inr q)"
proof -
  obtain s' r where r: "cycle_run (composed_config (ex_composition []) (\<lambda>_. '''')) ex_inputs ''c1'' (ex_app []) = (s', Inr r)"
    using ex_cycle by blast
  show ?thesis using completed_cycle_replayed [OF r] by blast
qed



subsection \<open>The opportunity pipeline\<close>

text \<open>
  C8. Nothing unqualified is ranked: every opportunity the pipeline returns comes from one of the symbols, carries a signal
  the strategy made ready from that symbol's snapshots, was not held by its context, and was approved by the risk gate and
  then by the portfolio gate, whose assessments it carries. The ranks count from one in descending order of score,
  confidence and reward-to-risk ratio, and the rejections of the three gates and the qualified signals add up.
\<close>

theorem qualified_passed_every_gate:
  assumes "pipeline_evaluate text p symbols top_n = Inr r"
  shows "list_all (\<lambda>opp. (\<exists>x e. x \<in> set symbols \<and> ready_signal (op_strategy p) x (go_signal opp) \<and>
      go_evidence opp = Some e \<and> passed_gates p (go_signal opp) (go_risk opp) (go_portfolio opp) e)) (ox_qualified r) \<and>
    map go_rank (ox_qualified r) = [1 ..< Suc (length (ox_qualified r))] \<and>
    sorted_wrt (\<lambda>a b. signal_key (go_signal b) \<le> signal_key (go_signal a)) (ox_qualified r) \<and>
    (\<exists>qualified. ox_strategy_qualified r = ox_context_rejected r + ox_risk_rejected r + ox_portfolio_rejected r + qualified \<and>
      length (ox_qualified r) = min (nat top_n) qualified)"
  using pipeline_qualified [OF assms] pipeline_counts [OF assms] unfolding list_all_iff by blast

theorem qualified_passed_every_gate_witness:
  "\<exists>r opp. pipeline_evaluate (\<lambda>_. '''') ex_pipeline [''BTC'', ''ETH''] 10 = Inr r \<and> ox_qualified r = [opp] \<and> go_rank opp = 1"
proof -
  obtain r opp where r: "pipeline_evaluate (\<lambda>_. '''') ex_pipeline [''BTC'', ''ETH''] 10 = Inr r" "ox_qualified r = [opp]"
    using ex_evaluated by blast
  from qualified_passed_every_gate [OF r(1)] r show ?thesis by (auto simp: upt_rec)
qed

text \<open>
  Every qualified opportunity becomes an order: when no symbol is blank, preparing the qualified opportunities of an
  evaluation never raises and gives for each one, in order, a valid order with the quantity of the risk gate and the stop
  and target of the signal.
\<close>

theorem qualified_orders_prepare:
  assumes "pipeline_evaluate text p symbols top_n = Inr r"
    and "\<And>opp. opp \<in> set (ox_qualified r) \<Longrightarrow> strip (sg_symbol (go_signal opp)) \<noteq> []"
    and "\<And>s side a b c. strip (stable_id s side a b c) \<noteq> []"
  shows "\<exists>os. prepare_orders stable_id evidence_text ty created (ox_qualified r) = Inr os \<and>
    list_all2 (\<lambda>opp x. po_opportunity x = opp \<and> order_ok (po_order x) \<and>
      or_quantity (po_order x) = ra_quantity (go_risk opp) \<and>
      or_stop_loss (po_order x) = sg_stop_loss (go_signal opp) \<and>
      or_take_profit (po_order x) = Some (sg_target (go_signal opp))) (ox_qualified r) os"
  using assms by (rule prepare_orders_total)

theorem qualified_orders_prepare_witness:
  "\<exists>r x. pipeline_evaluate (\<lambda>_. '''') ex_pipeline [''BTC'', ''ETH''] 10 = Inr r \<and>
    prepare_orders (\<lambda>s _ _ _ _. ''prep-'' @ s) (\<lambda>_. NotJson []) LIMIT (Aware 0) (ox_qualified r) = Inr [x] \<and>
    or_quantity (po_order x) = 20"
proof -
  obtain r opp where r: "pipeline_evaluate (\<lambda>_. '''') ex_pipeline [''BTC'', ''ETH''] 10 = Inr r" "ox_qualified r = [opp]"
    "sg_symbol (go_signal opp) = ''BTC''" "go_risk opp = ex_assessment"
    using ex_evaluated by blast
  have "\<exists>os. prepare_orders (\<lambda>s _ _ _ _. ''prep-'' @ s) (\<lambda>_. NotJson []) LIMIT (Aware 0) (ox_qualified r) = Inr os \<and>
    list_all2 (\<lambda>opp x. po_opportunity x = opp \<and> order_ok (po_order x) \<and>
      or_quantity (po_order x) = ra_quantity (go_risk opp) \<and>
      or_stop_loss (po_order x) = sg_stop_loss (go_signal opp) \<and>
      or_take_profit (po_order x) = Some (sg_target (go_signal opp))) (ox_qualified r) os"
    by (rule qualified_orders_prepare [OF r(1)]) (auto simp: r(2,3) strip_eq_Nil_iff is_space_def)
  then show ?thesis using r by (auto simp: list_all2_Cons1 ex_assessment_def)
qed

text \<open>
  A pipeline with one worker scans one symbol: with \<open>max_workers\<close> at its minimum the answer for any list is that for
  its first symbol alone, while the count of evaluated symbols is the length of the whole list.
\<close>

theorem single_worker_drops_symbols:
  assumes "yp_max_workers p = 1" "evaluate_all text p [x] = Inr (n, signals, js)"
  shows "evaluate_all text p (x # ys) = Inr (Suc (length ys), signals, js)"
  using assms by (rule evaluate_all_one_worker)

theorem single_worker_drops_symbols_witness:
  "\<exists>js. evaluate_all (\<lambda>_. '''') (ex_strategy 1) [''ETH'', ''BTC''] = Inr (2, [], js)"
proof -
  have "evaluate_all (\<lambda>_. '''') (ex_strategy 1) [''ETH''] = Inr (1, [], [\<lparr>sj_symbol = ''ETH'', sj_reasons = [''''],
      sj_score = None, sj_confidence = None, sj_state = ''DATA_ERROR''\<rparr>])"
    using ex_missing [of "\<lambda>_. ''''"]
    by (simp add: evaluate_all_def scan_symbols_def ex_strategy_def rights_def lefts_def rank_signals_def sort_desc_def)
  from single_worker_drops_symbols [OF _ this, of "[''BTC'']"] show ?thesis by (simp add: ex_strategy_def)
qed

text \<open>
  The context gate follows the calendar: an assessment blocks exactly when the policy blocks critical events and one
  that concerns the symbol is inside its window, and delays exactly when the policy delays high-impact events, one is
  inside its window and no critical one is.
\<close>

theorem context_gate_follows_calendar:
  assumes "assess_context policy symbol news events now = Inr c"
  shows "(cx_blocking c \<longleftrightarrow> cn_block_critical policy \<and> event_near policy symbol now EVENT_CRITICAL events) \<and>
    (cx_delay c \<longleftrightarrow> cn_delay_high policy \<and> event_near policy symbol now EVENT_HIGH events \<and>
      \<not> event_near policy symbol now EVENT_CRITICAL events)"
  using assess_context_gates [OF assms] by blast

definition ex_event :: economic_event where
  "ex_event = \<lparr>ee_event_time = Aware (minutes 20), ee_importance = EVENT_CRITICAL, ee_actual = None, ee_forecast = None,
     ee_symbols = []\<rparr>"

theorem context_gate_follows_calendar_witness:
  "\<exists>c. assess_context default_context_policy ''BTC'' [] [ex_event] (Aware 0) = Inr c \<and> cx_blocking c \<and> \<not> cx_delay c"
proof -
  have near: "event_near default_context_policy ''BTC'' (Aware 0) EVENT_CRITICAL [ex_event]"
    by (simp add: event_near_def ex_event_def default_context_policy_def event_window_def minutes_def)
  have "\<exists>c. assess_context default_context_policy ''BTC'' [] [ex_event] (Aware 0) = Inr c"
    by (simp add: assess_context_def guard_def context_utc_def merge_news_def event_state_def event_active_def
        ex_event_def case_prod_beta)
  then obtain c where c: "assess_context default_context_policy ''BTC'' [] [ex_event] (Aware 0) = Inr c" by blast
  from context_gate_follows_calendar [OF c] near c show ?thesis by (auto simp: default_context_policy_def)
qed

text \<open>
  In the composed application the context gate never acts: its default context engine is asked without news and without
  events, so no signal is ever held, whatever the calendar says.
\<close>

theorem composed_context_gate_inert:
  "\<not> (\<exists>c rs. gate_signal (composed_pipeline k s) sg = Inr (c, Held rs))"
  using composed_never_holds by blast

end
