(* ===== verification/Incremental.thy ===== *)
theory Incremental
  imports Market_Analysis
begin

section \<open>Incremental market snapshots\<close>

text \<open>
  \<^verbatim>\<open>app/backtest/incremental_snapshots.py\<close>: the state that consumes candles one by one and keeps windows of 21 candles and
  50 closes, running averages and the swings found so far (the cursor over four of them is \<open>Snapshot_Cursor\<close>). The
  file repeats the indicator arithmetic of \<^verbatim>\<open>app/market\<close> over its windows; the theorem of this theory is that the repetition
  is exact: after any chronological candles the latest snapshot is \<open>analyze_market\<close> of all of them.
\<close>

subsection \<open>A running exponential average\<close>

record ema_state =
  es_period :: nat
  es_count :: nat
  es_seed_sum :: rat
  es_value :: "rat option"

definition ema_new :: "nat \<Rightarrow> ema_state" where
  "ema_new period = \<lparr>es_period = period, es_count = 0, es_seed_sum = 0, es_value = None\<rparr>"

definition ema_push :: "rat \<Rightarrow> ema_state \<Rightarrow> (ema_state, rat option) sres" where
  "ema_push item s0 =
     (let s = s0\<lparr>es_count := es_count s0 + 1\<rparr> in
      if es_count s \<le> es_period s then
        let s1 = s\<lparr>es_seed_sum := dadd (es_seed_sum s) item\<rparr>;
            s2 = (if es_count s1 = es_period s1
                  then s1\<lparr>es_value := Some (ddiv (es_seed_sum s1) (of_nat (es_period s1)))\<rparr> else s1)
        in (s2, Inr (es_value s2))
      else case es_value s of
        None \<Rightarrow> (s, Inl (RuntimeError ''EMA state is uninitialized''))
      | Some v \<Rightarrow>
          let w = ema_step (ddiv 2 (of_nat (es_period s + 1))) v item
          in (s\<lparr>es_value := Some w\<rparr>, Inr (Some w)))"

text \<open>What the state is after a list of items: its counters and the average of the whole list.\<close>

definition ema_of :: "nat \<Rightarrow> rat list \<Rightarrow> ema_state" where
  "ema_of period xs = \<lparr>es_period = period, es_count = length xs, es_seed_sum = dsum (take period xs),
     es_value = ema_val xs period\<rparr>"

lemma dsum_snoc: "dsum (xs @ [x]) = dadd (dsum xs) x"
  by (simp add: dsum_def)

lemma ema_of_Nil: "0 < p \<Longrightarrow> ema_of p [] = ema_new p"
  by (simp add: ema_of_def ema_new_def dsum_def ema_val_def)

lemma ema_push_snoc:
  assumes "0 < p"
  shows "ema_push x (ema_of p xs) = (ema_of p (xs @ [x]), Inr (ema_val (xs @ [x]) p))"
  using assms
  by (auto simp: ema_push_def ema_of_def Let_def ema_val_def dsum_snoc mean_def not_le not_less
      Suc_le_eq less_Suc_eq)

subsection \<open>The prefix view of the swings\<close>

text \<open>
  A view is the list it was taken of and the length frozen then; the list only grows. Negative indices count from the
  frozen end.
\<close>

record swing_view =
  sv_items :: "swing_point list"
  sv_length :: nat

definition swing_view_make :: "swing_point list \<Rightarrow> int \<Rightarrow> swing_view res" where
  "swing_view_make items n =
     guard (n < 0 \<or> int (length items) < n) (ValueError ''invalid swing history prefix length'')
       (Inr \<lparr>sv_items = items, sv_length = nat n\<rparr>)"

definition swing_view_get :: "swing_view \<Rightarrow> int \<Rightarrow> swing_point res" where
  "swing_view_get v index =
     (let normalized = (if index < 0 then index + int (sv_length v) else index)
      in guard (normalized < 0 \<or> int (sv_length v) \<le> normalized) (OtherError ''swing history index out of range'')
           (Inr (sv_items v ! nat normalized)))"

definition swing_view_list :: "swing_view \<Rightarrow> swing_point list" where
  "swing_view_list v = take (sv_length v) (sv_items v)"

text \<open>Later appends to the backing list are not seen through a view, and its items are those of the frozen prefix.\<close>

lemma swing_view_frozen:
  assumes "swing_view_make items n = Inr v"
  shows "swing_view_list (v\<lparr>sv_items := items @ later\<rparr>) = swing_view_list v"
    and "swing_view_get (v\<lparr>sv_items := items @ later\<rparr>) i = swing_view_get v i"
  using assms by (auto simp: swing_view_make_def swing_view_list_def swing_view_get_def guard_def Let_def nth_append
      split: if_splits)

lemma swing_view_whole:
  "swing_view_make items (int (length items)) = Inr \<lparr>sv_items = items, sv_length = length items\<rparr>"
  "swing_view_list \<lparr>sv_items = items, sv_length = length items\<rparr> = items"
  by (simp_all add: swing_view_make_def guard_def swing_view_list_def)

lemma swing_view_last:
  assumes "items \<noteq> []"
  shows "swing_view_get \<lparr>sv_items = items, sv_length = length items\<rparr> (- 1) = Inr (last items)"
  using assms by (simp add: swing_view_get_def guard_def last_conv_nth nat_diff_distrib Suc_le_eq)

subsection \<open>Indicators over the windows\<close>

text \<open>\<^verbatim>\<open>zip(xs[-period - 1 : -1], xs[-period:])\<close>, the neighbours inside the window.\<close>

definition neighbours :: "nat \<Rightarrow> 'a list \<Rightarrow> ('a \<times> 'a) list" where
  "neighbours period xs = zip (butlast (last_n (period + 1) xs)) (last_n period xs)"

definition window_rsi :: "rat list \<Rightarrow> nat \<Rightarrow> rat option" where
  "window_rsi closes period =
     (if length closes < period + 1 then None
      else
        let changes = map (\<lambda>(previous, current). dsub current previous) (neighbours period closes);
            avg_gain = ddiv (dsum (map (\<lambda>c. max c 0) changes)) (of_nat period);
            avg_loss = ddiv (dsum (map (\<lambda>c. max (dneg c) 0) changes)) (of_nat period)
        in if avg_loss = 0 then Some (if 0 < avg_gain then 100 else 50)
           else Some (dsub 100 (ddiv 100 (dadd 1 (ddiv avg_gain avg_loss)))))"

definition window_true_range :: "candle \<Rightarrow> candle \<Rightarrow> rat" where
  "window_true_range previous current =
     max (dsub (cd_high current) (cd_low current))
       (max (dabs (dsub (cd_high current) (cd_close previous)))
         (dabs (dsub (cd_low current) (cd_close previous))))"

definition window_atr :: "candle list \<Rightarrow> nat \<Rightarrow> rat option" where
  "window_atr cs period =
     (if length cs < period + 1 then None
      else Some (ddiv (dsum (map (\<lambda>(p, c). window_true_range p c) (neighbours period cs))) (of_nat period)))"

definition window_plus :: "candle \<Rightarrow> candle \<Rightarrow> rat" where
  "window_plus previous current =
     (let up_move = dsub (cd_high current) (cd_high previous); down_move = dsub (cd_low previous) (cd_low current)
      in if down_move < up_move \<and> 0 < up_move then up_move else 0)"

definition window_minus :: "candle \<Rightarrow> candle \<Rightarrow> rat" where
  "window_minus previous current =
     (let up_move = dsub (cd_high current) (cd_high previous); down_move = dsub (cd_low previous) (cd_low current)
      in if up_move < down_move \<and> 0 < down_move then down_move else 0)"

definition window_adx :: "candle list \<Rightarrow> nat \<Rightarrow> rat option" where
  "window_adx cs period =
     (if length cs < period + 2 then None
      else
        let pairs = neighbours period cs;
            plus_dm = map (\<lambda>(p, c). window_plus p c) pairs;
            minus_dm = map (\<lambda>(p, c). window_minus p c) pairs;
            total_range = dsum (map (\<lambda>(p, c). window_true_range p c) pairs)
        in if total_range \<le> 0 then Some 0
           else
             let plus_di = ddiv (dmul 100 (dsum plus_dm)) total_range;
                 minus_di = ddiv (dmul 100 (dsum minus_dm)) total_range;
                 denominator = dadd plus_di minus_di
             in if denominator \<le> 0 then Some 0
                else Some (ddiv (dmul 100 (dabs (dsub plus_di minus_di))) denominator))"

definition window_vwap :: "candle list \<Rightarrow> rat option" where
  "window_vwap cs =
     (if length cs < 20 then None
      else
        let total_volume = dsum (map cd_volume (last_n 20 cs))
        in if total_volume \<le> 0 then None
           else Some (ddiv (dsum (map (\<lambda>c.
                  dmul (ddiv (dadd (dadd (cd_high c) (cd_low c)) (cd_close c)) 3) (cd_volume c)) (last_n 20 cs))) total_volume))"

definition window_bollinger :: "candle list \<Rightarrow> rat option \<times> rat option \<times> rat option" where
  "window_bollinger cs =
     (if length cs < 20 then (None, None, None)
      else
        let values = map cd_close (last_n 20 cs);
            middle = ddiv (dsum values) 20;
            variance = ddiv (dsum (map (\<lambda>v. dsquare (dsub v middle)) values)) 20;
            deviation = dsqrt variance
        in (Some middle, Some (dadd middle (dmul 2 deviation)), Some (dsub middle (dmul 2 deviation))))"

subsection \<open>The windows hold all the indicators need\<close>

lemma adjacent_neighbours: "adjacent f xs = map (\<lambda>(a, b). f a b) (zip (butlast xs) (tl xs))"
  by (induction f xs rule: adjacent.induct) auto

lemma last_n_last_n: "m \<le> n \<Longrightarrow> last_n m (last_n n xs) = last_n m xs"
  by (simp add: last_n_def, rule arg_cong [of _ _ "\<lambda>k. drop k xs"], arith)

lemma last_n_map: "last_n n (map f xs) = map f (last_n n xs)"
  by (simp add: last_n_def drop_map)

lemma last_n_all: "length xs \<le> n \<Longrightarrow> last_n n xs = xs"
  by (simp add: last_n_def)

lemma last_last_n: "0 < n \<Longrightarrow> xs \<noteq> [] \<Longrightarrow> last (last_n n xs) = last xs"
  by (simp add: last_n_def last_drop)

lemma last_n_snoc: "0 < n \<Longrightarrow> last_n n (last_n n xs @ [x]) = last_n n (xs @ [x])"
  by (auto simp: last_n_def intro!: arg_cong [of _ _ "\<lambda>k. drop k xs"])

definition chronological :: "candle list \<Rightarrow> bool" where
  "chronological cs \<longleftrightarrow> sorted_wrt (\<lambda>a b. instant (cd_timestamp a) < instant (cd_timestamp b)) cs"

lemma chronological_props:
  assumes "chronological cs"
  shows "ordered cs = cs" "distinct (map (instant \<circ> cd_timestamp) cs)" "chronological (last_n n cs)"
proof -
  have s: "sorted_wrt (<) (map (instant \<circ> cd_timestamp) cs)"
    using assms by (simp add: chronological_def sorted_wrt_map comp_def)
  then have "sorted (map (instant \<circ> cd_timestamp) cs)" by (rule strict_sorted_imp_sorted)
  then show "ordered cs = cs" by (simp add: ordered_def comp_def sort_key_id_if_sorted)
  show "distinct (map (instant \<circ> cd_timestamp) cs)" using s by (simp add: strict_sorted_iff)
  show "chronological (last_n n cs)"
    using assms unfolding chronological_def last_n_def by (rule sorted_wrt_drop)
qed

lemma chronological_snoc:
  "chronological (cs @ [c]) \<longleftrightarrow> chronological cs \<and> (\<forall>b \<in> set cs. instant (cd_timestamp b) < instant (cd_timestamp c))"
  by (simp add: chronological_def sorted_wrt_append)

lemma last_n_adjacent:
  assumes "p + 1 \<le> length xs"
  shows "last_n p (adjacent f xs) = map (\<lambda>(a, b). f a b) (neighbours p xs)"
proof -
  have l: "length (zip (butlast xs) (tl xs)) = length xs - 1" by simp
  have "last_n p (zip (butlast xs) (tl xs)) =
      zip (drop (length xs - 1 - p) (butlast xs)) (drop (length xs - 1 - p) (tl xs))"
    unfolding last_n_def l by (rule drop_zip)
  also have "drop (length xs - 1 - p) (tl xs) = last_n p xs"
    using assms by (simp add: last_n_def drop_Suc [symmetric] Suc_diff_Suc flip: drop_tl)
  also have "drop (length xs - 1 - p) (butlast xs) = butlast (last_n (p + 1) xs)"
    by (simp add: last_n_def drop_butlast)
  finally show ?thesis by (simp add: adjacent_neighbours last_n_map neighbours_def)
qed

lemma neighbours_window: "p + 1 \<le> k \<Longrightarrow> neighbours p (last_n k xs) = neighbours p xs"
  by (simp add: neighbours_def last_n_last_n)

lemma window_rsi_val: "window_rsi xs p = rsi_val xs p"
  by (simp add: window_rsi_def rsi_val_def rsi_of_def mean_def neighbours_def Let_def butlast_conv_take)

lemma window_rsi_window: "p + 1 \<le> k \<Longrightarrow> window_rsi (last_n k xs) p = window_rsi xs p"
  by (simp add: window_rsi_def neighbours_window min_def)

lemma window_steps: "window_true_range = true_range" "window_plus = plus_move" "window_minus = minus_move"
  by (intro ext, simp add: window_true_range_def true_range_def window_plus_def plus_move_def window_minus_def
      minus_move_def)+

lemma window_atr_val:
  assumes "chronological cs" "0 < p"
  shows "window_atr cs p = atr cs p"
proof (cases "length cs < p + 1")
  case True
  then have "length cs - 1 < p" using assms(2) by linarith
  with True show ?thesis using assms by (simp add: window_atr_def atr_def true_ranges_def chronological_props)
next
  case False
  then show ?thesis using assms last_n_adjacent [of p cs true_range]
    by (simp add: window_atr_def atr_def true_ranges_def chronological_props mean_def window_steps Let_def)
qed

lemma window_adx_val:
  assumes "chronological cs" "0 < p"
  shows "window_adx cs p = adx cs p"
proof (cases "length cs < p + 2")
  case False
  then have l: "p + 1 \<le> length cs" by simp
  show ?thesis using assms False
    by (simp add: last_n_adjacent [OF l] window_adx_def adx_def chronological_props(1) [OF assms(1)] window_steps Let_def)
qed (simp add: window_adx_def adx_def chronological_props assms)

lemma window_atr_window: "p + 1 \<le> k \<Longrightarrow> window_atr (last_n k cs) p = window_atr cs p"
  and window_adx_window: "p + 2 \<le> k \<Longrightarrow> window_adx (last_n k cs) p = window_adx cs p"
  by (simp_all add: window_atr_def window_adx_def neighbours_window min_def)

lemma window_vwap_val: "chronological cs \<Longrightarrow> window_vwap (last_n 20 cs) = vwap cs 20"
  by (simp add: window_vwap_def vwap_def chronological_props last_n_last_n Let_def min_def)

lemma window_bollinger_val: "window_bollinger (last_n 20 cs) = bollinger (map cd_close cs) 20 2"
  by (simp add: window_bollinger_def bollinger_def sma_val_def mean_def last_n_last_n last_n_map Let_def min_def)

subsection \<open>The incremental market state\<close>

record market_state =
  ms_symbol :: string
  ms_timeframe :: string
  ms_count :: nat
  ms_last_timestamp :: "datetime option"
  ms_candles :: "candle list"
  ms_closes :: "rat list"
  ms_ema12 :: ema_state
  ms_ema20 :: ema_state
  ms_ema26 :: ema_state
  ms_ema50 :: ema_state
  ms_ema200 :: ema_state
  ms_signal_ema :: ema_state
  ms_macd_line :: "rat option"
  ms_macd_signal :: "rat option"
  ms_highs :: "swing_point list"
  ms_lows :: "swing_point list"
  ms_latest :: "market_snapshot option"

definition known_timeframes :: "(string, nat) dict" where
  "known_timeframes = [(''15m'', 15), (''1h'', 60), (''4h'', 240), (''1d'', 1440)]"

definition market_state_blank :: "string \<Rightarrow> string \<Rightarrow> market_state" where
  "market_state_blank symbol timeframe =
     \<lparr>ms_symbol = symbol, ms_timeframe = timeframe, ms_count = 0, ms_last_timestamp = None, ms_candles = [], ms_closes = [],
      ms_ema12 = ema_new 12, ms_ema20 = ema_new 20, ms_ema26 = ema_new 26, ms_ema50 = ema_new 50, ms_ema200 = ema_new 200,
      ms_signal_ema = ema_new 9, ms_macd_line = None, ms_macd_signal = None, ms_highs = [], ms_lows = [], ms_latest = None\<rparr>"

definition market_state_new :: "string \<Rightarrow> string \<Rightarrow> market_state res" where
  "market_state_new symbol timeframe =
     guard (dget known_timeframes timeframe = None) (ValueError (''unsupported timeframe: '' @ timeframe))
       (Inr (market_state_blank symbol timeframe))"

text \<open>\<^verbatim>\<open>_indicator_snapshot\<close>, from the windows and the running averages.\<close>

definition window_supertrend :: "candle \<Rightarrow> rat option \<Rightarrow> rat option \<Rightarrow> rat option \<Rightarrow> string option" where
  "window_supertrend latest atr14 ema20 ema50 =
     (case (atr14, ema20, ema50) of
        (Some a, Some e20, Some e50) \<Rightarrow>
          let midpoint = ddiv (dadd (cd_high latest) (cd_low latest)) 2;
              upper_band = dadd midpoint (dmul 3 a);
              lower_band = dsub midpoint (dmul 3 a)
          in Some (if lower_band \<le> cd_close latest \<and> e50 < e20 then ''BULLISH''
                   else if cd_close latest \<le> upper_band \<and> e20 < e50 then ''BEARISH'' else ''NEUTRAL'')
      | _ \<Rightarrow> None)"

definition window_indicators :: "market_state \<Rightarrow> rat option \<Rightarrow> rat option \<Rightarrow> rat option \<Rightarrow> indicator_snapshot" where
  "window_indicators s ema20 ema50 ema200 =
     (let closes = ms_closes s; recent = ms_candles s; last20 = last_n 20 recent; last50 = last_n 50 closes;
          atr14 = window_atr recent 14
      in case window_bollinger last20 of (middle, upper_band, lower_band) \<Rightarrow>
        \<lparr>is_ema20 = ema20, is_ema50 = ema50, is_ema200 = ema200, is_rsi14 = window_rsi (last_n 15 closes) 14,
         is_atr14 = atr14,
         is_volume_sma20 = (if length last20 = 20 then Some (ddiv (dsum (map cd_volume last20)) 20) else None),
         is_sma50 = (if length last50 = 50 then Some (ddiv (dsum last50) 50) else None),
         is_macd_line = ms_macd_line s, is_macd_signal = ms_macd_signal s,
         is_macd_histogram = (case (ms_macd_line s, ms_macd_signal s) of (Some l, Some g) \<Rightarrow> Some (dsub l g) | _ \<Rightarrow> None),
         is_adx14 = window_adx recent 14,
         is_supertrend_direction = window_supertrend (last recent) atr14 ema20 ema50,
         is_vwap20 = window_vwap last20, is_bollinger_middle = middle, is_bollinger_upper = upper_band,
         is_bollinger_lower = lower_band\<rparr>)"

definition window_trend :: "rat \<Rightarrow> indicator_snapshot \<Rightarrow> trend_result" where
  "window_trend lst i =
     (case (is_ema20 i, is_ema50 i, is_ema200 i) of
        (Some e20, Some e50, Some e200) \<Rightarrow>
          let direction = (if e20 < lst \<and> e50 < e20 \<and> e200 < e50 then ''BULLISH''
                           else if lst < e20 \<and> e20 < e50 \<and> e50 < e200 then ''BEARISH'' else ''NEUTRAL'')
          in if direction = ''NEUTRAL''
             then \<lparr>tr_direction = direction, tr_strength = ''WEAK'', tr_score = 45, tr_indicators = i\<rparr>
             else
               let bullish = (direction = ''BULLISH'');
                   s1 = (case is_rsi14 i of None \<Rightarrow> 60
                         | Some r \<Rightarrow> if (bullish \<and> 50 \<le> r) \<or> (\<not> bullish \<and> r \<le> 50) then dadd 60 10 else 60);
                   s2 = (case is_macd_histogram i of None \<Rightarrow> s1
                         | Some h \<Rightarrow> if (bullish \<and> 0 < h) \<or> (\<not> bullish \<and> h < 0) then dadd s1 10 else s1);
                   s3 = (case is_adx14 i of None \<Rightarrow> s2
                         | Some a \<Rightarrow> if 25 \<le> a then dadd s2 10 else if 18 \<le> a then dadd s2 5 else s2);
                   s4 = (if is_supertrend_direction i = Some direction then dadd s3 5 else s3);
                   s5 = (case is_vwap20 i of None \<Rightarrow> s4
                         | Some v \<Rightarrow> if (bullish \<and> v \<le> lst) \<or> (\<not> bullish \<and> lst \<le> v) then dadd s4 5 else s4);
                   score = min s5 100;
                   strength = (if 85 \<le> score then ''STRONG'' else if 65 \<le> score then ''MODERATE'' else ''WEAK'')
               in \<lparr>tr_direction = direction, tr_strength = strength, tr_score = score, tr_indicators = i\<rparr>
      | _ \<Rightarrow> \<lparr>tr_direction = ''UNKNOWN'', tr_strength = ''UNKNOWN'', tr_score = 0, tr_indicators = i\<rparr>)"

text \<open>\<^verbatim>\<open>_update_swings\<close>: the candle two places back is judged against its four neighbours.\<close>

definition window_swing :: "string \<Rightarrow> (candle \<Rightarrow> rat) \<Rightarrow> candle \<Rightarrow> nat \<Rightarrow> swing_point" where
  "window_swing kind price c index =
     \<lparr>sp_kind = kind, sp_timestamp = cd_timestamp c, sp_price = price c, sp_index = index\<rparr>"

definition update_swings :: "market_state \<Rightarrow> market_state" where
  "update_swings s =
     (if ms_count s < 5 then s
      else
        let window = last_n 5 (ms_candles s); current = window ! 2; left = take 2 window; right = drop 3 window;
            index = ms_count s - 3;
            s1 = (if Max (set (map cd_high left)) < cd_high current \<and> Max (set (map cd_high right)) \<le> cd_high current
                  then s\<lparr>ms_highs := ms_highs s @ [window_swing ''HIGH'' cd_high current index]\<rparr> else s)
        in if cd_low current < Min (set (map cd_low left)) \<and> cd_low current \<le> Min (set (map cd_low right))
           then s1\<lparr>ms_lows := ms_lows s1 @ [window_swing ''LOW'' cd_low current index]\<rparr> else s1)"

definition window_advanced :: "swing_point list \<Rightarrow> swing_point list \<Rightarrow> candle \<Rightarrow> advanced_structure" where
  "window_advanced highs lows lst =
     (let trend = (if length highs < 2 \<or> length lows < 2 then ''UNKNOWN''
                   else if previous_price highs < last_price highs \<and> previous_price lows < last_price lows then ''BULLISH''
                   else if last_price highs < previous_price highs \<and> last_price lows < previous_price lows then ''BEARISH''
                   else ''TRANSITION'')
      in if highs = [] \<or> lows = [] then
           \<lparr>as_swing_highs = highs, as_swing_lows = lows, as_trend = trend, as_structure = ''UNKNOWN'', as_last_break = None,
            as_support = (if lows = [] then None else Some (last_price lows)),
            as_resistance = (if highs = [] then None else Some (last_price highs)), as_score = 0\<rparr>
         else
           let kind = (if last_price highs < cd_close lst then (if trend = ''BULLISH'' then ''BOS'' else ''CHOCH'')
                       else (if trend = ''BEARISH'' then ''BOS'' else ''CHOCH''));
               (break_event, structure) =
                 (if last_price highs < cd_close lst
                  then (Some \<lparr>sb_direction = ''UP'', sb_kind = kind, sb_level = last_price highs,
                          sb_timestamp = cd_timestamp lst\<rparr>, kind)
                  else if cd_close lst < last_price lows
                  then (Some \<lparr>sb_direction = ''DOWN'', sb_kind = kind, sb_level = last_price lows,
                          sb_timestamp = cd_timestamp lst\<rparr>, kind)
                  else (None, if trend = ''BULLISH'' then ''HIGHER_HIGH_HIGHER_LOW''
                              else if trend = ''BEARISH'' then ''LOWER_HIGH_LOWER_LOW'' else ''TRANSITION''))
           in \<lparr>as_swing_highs = highs, as_swing_lows = lows, as_trend = trend, as_structure = structure,
               as_last_break = break_event, as_support = Some (last_price lows), as_resistance = Some (last_price highs),
               as_score = (if structure = ''BOS'' then 90 else if structure = ''CHOCH'' then 85
                           else if trend \<in> {''BULLISH'', ''BEARISH''} then 70 else 50)\<rparr>)"

text \<open>\<^verbatim>\<open>push\<close>: every average consumes the close, then the swings and the snapshot are brought up to date.\<close>

definition push_ema ::
  "(market_state \<Rightarrow> ema_state) \<Rightarrow> ((ema_state \<Rightarrow> ema_state) \<Rightarrow> market_state \<Rightarrow> market_state) \<Rightarrow> rat \<Rightarrow> market_state
    \<Rightarrow> (market_state, rat option) sres" where
  "push_ema get upd x s = (case ema_push x (get s) of (e, r) \<Rightarrow> (upd (\<lambda>_. e) s, r))"

definition push_macd :: "rat option \<Rightarrow> rat option \<Rightarrow> market_state \<Rightarrow> (market_state, unit) sres" where
  "push_macd fast slow s =
     (case (fast, slow) of
        (Some f, Some w) \<Rightarrow>
          sbind (push_ema ms_signal_ema ms_signal_ema_update (dsub f w) s) (\<lambda>g s.
            (case g of None \<Rightarrow> s | Some v \<Rightarrow> s\<lparr>ms_macd_line := Some (dsub f w), ms_macd_signal := Some v\<rparr>, Inr ()))
      | _ \<Rightarrow> (s, Inr ()))"

definition latest_snapshot :: "rat option \<Rightarrow> rat option \<Rightarrow> rat option \<Rightarrow> market_state \<Rightarrow> market_snapshot res" where
  "latest_snapshot ema20 ema50 ema200 s =
     (let indicators = window_indicators s ema20 ema50 ema200; recent = ms_candles s;
          trend = window_trend (cd_close (last recent)) indicators;
          advanced = window_advanced (ms_highs s) (ms_lows s) (last recent)
      in res_bind (analyze_structure (last_n 20 recent) 20) (\<lambda>structure.
           let liquidity = analyze_liquidity (last_n 21 recent) 20;
               regime = classify_regime (last_n 20 recent) trend
           in Inr \<lparr>mk_symbol = ms_symbol s, mk_timeframe = ms_timeframe s, mk_indicators = indicators, mk_trend = trend,
                mk_structure = structure, mk_regime = regime, mk_liquidity = liquidity,
                mk_score = ddiv (dadd (dadd (tr_score trend) (as_score advanced)) (lq_score liquidity)) 3,
                mk_advanced = Some advanced\<rparr>))"

definition push_error :: "candle \<Rightarrow> market_state \<Rightarrow> exn option" where
  "push_error c s =
     (if cd_symbol c \<noteq> ms_symbol s \<or> cd_timeframe c \<noteq> ms_timeframe s
      then Some (ValueError ''candle identity does not match incremental market state'')
      else case ms_last_timestamp s of
        None \<Rightarrow> None
      | Some t \<Rightarrow> if instant (cd_timestamp c) = instant t then Some (ValueError ''duplicate candle timestamps'')
                 else if instant (cd_timestamp c) < instant t then Some (ValueError ''candles must be chronological'')
                 else None)"

definition push_candle :: "candle \<Rightarrow> market_state \<Rightarrow> (market_state, market_snapshot) sres" where
  "push_candle c s0 =
     (case push_error c s0 of
        Some e \<Rightarrow> (s0, Inl e)
      | None \<Rightarrow>
          sbind (push_ema ms_ema12 ms_ema12_update (cd_close c)
            (s0\<lparr>ms_count := ms_count s0 + 1, ms_last_timestamp := Some (cd_timestamp c),
               ms_candles := last_n 21 (ms_candles s0 @ [c]), ms_closes := last_n 50 (ms_closes s0 @ [cd_close c])\<rparr>)) (\<lambda>fast s.
          sbind (push_ema ms_ema20 ms_ema20_update (cd_close c) s) (\<lambda>ema20 s.
          sbind (push_ema ms_ema26 ms_ema26_update (cd_close c) s) (\<lambda>slow s.
          sbind (push_ema ms_ema50 ms_ema50_update (cd_close c) s) (\<lambda>ema50 s.
          sbind (push_ema ms_ema200 ms_ema200_update (cd_close c) s) (\<lambda>ema200 s.
          sbind (push_macd fast slow s) (\<lambda>_ s.
            let s = update_swings s in
            case latest_snapshot ema20 ema50 ema200 s of
              Inl e \<Rightarrow> (s, Inl e)
            | Inr m \<Rightarrow> (s\<lparr>ms_latest := Some m\<rparr>, Inr m))))))))"

subsection \<open>The state after a list of candles\<close>

definition macd_values :: "rat list \<Rightarrow> rat list" where
  "macd_values closes = map (\<lambda>(f, s). dsub f s) (zip (drop 14 (ema_series closes 12)) (ema_series closes 26))"

definition high_swings :: "candle list \<Rightarrow> swing_point list" where
  "high_swings cs = swings_of ''HIGH'' cd_high (is_swing_high cs 2) cs [2 ..< length cs - 2]"

definition low_swings :: "candle list \<Rightarrow> swing_point list" where
  "low_swings cs = swings_of ''LOW'' cd_low (is_swing_low cs 2) cs [2 ..< length cs - 2]"

definition state_of :: "string \<Rightarrow> string \<Rightarrow> candle list \<Rightarrow> market_state" where
  "state_of symbol timeframe cs =
     (let closes = map cd_close cs in
      \<lparr>ms_symbol = symbol, ms_timeframe = timeframe, ms_count = length cs,
       ms_last_timestamp = (if cs = [] then None else Some (cd_timestamp (last cs))),
       ms_candles = last_n 21 cs, ms_closes = last_n 50 closes, ms_ema12 = ema_of 12 closes, ms_ema20 = ema_of 20 closes,
       ms_ema26 = ema_of 26 closes, ms_ema50 = ema_of 50 closes, ms_ema200 = ema_of 200 closes,
       ms_signal_ema = ema_of 9 (macd_values closes),
       ms_macd_line = fst (macd closes 12 26 9), ms_macd_signal = fst (snd (macd closes 12 26 9)),
       ms_highs = high_swings cs, ms_lows = low_swings cs,
       ms_latest = (if cs = [] then None else case analyze_market symbol timeframe cs of Inl e \<Rightarrow> None | Inr m \<Rightarrow> Some m)\<rparr>)"

lemma ema_series_snoc:
  assumes "p \<le> Suc (length xs)" "0 < p"
  shows "ema_series (xs @ [x]) p = ema_series xs p @ [the (ema_val (xs @ [x]) p)]"
proof -
  have scan: "ema_scan m c (vs @ [v]) = ema_scan m c vs @ [foldl (ema_step m) c (vs @ [v])]" for m c vs and v :: rat
    by (induction vs arbitrary: c) auto
  show ?thesis using assms by (cases "p = Suc (length xs)") (simp_all add: ema_series_def ema_val_def scan)
qed

lemma ema_val_None: "ema_val xs p = None \<longleftrightarrow> length xs < p"
  by (simp add: ema_val_def)

lemma length_macd_values: "length (macd_values xs) = Suc (length xs) - 26"
  by (simp add: macd_values_def length_ema_series)

lemma macd_values_snoc:
  "macd_values (xs @ [x]) = macd_values xs @
     (case (ema_val (xs @ [x]) 12, ema_val (xs @ [x]) 26) of (Some f, Some s) \<Rightarrow> [dsub f s] | _ \<Rightarrow> [])"
proof (cases "26 \<le> Suc (length xs)")
  case True
  obtain f s where v: "ema_val (xs @ [x]) 12 = Some f" "ema_val (xs @ [x]) 26 = Some s"
    using True ema_val_None [of "xs @ [x]" 12] ema_val_None [of "xs @ [x]" 26] by fastforce
  have "length (drop 14 (ema_series xs 12)) = length (ema_series xs 26)" by (simp add: length_ema_series)
  then show ?thesis using True v
    by (simp add: macd_values_def ema_series_snoc length_ema_series del: length_drop)
next
  case False
  then have "ema_val (xs @ [x]) 26 = None" by (simp add: ema_val_None)
  then show ?thesis using False by (auto simp: macd_values_def ema_series_def split: option.split)
qed

lemma macd_alt:
  "macd xs 12 26 9 = (case ema_val (macd_values xs) 9 of None \<Rightarrow> (None, None, None)
     | Some g \<Rightarrow> (Some (last (macd_values xs)), Some g, Some (dsub (last (macd_values xs)) g)))"
proof (cases "length xs < 34")
  case True
  then have "ema_val (macd_values xs) 9 = None" by (simp add: ema_val_None length_macd_values)
  with True show ?thesis by (simp add: macd_def)
next
  case False
  then have "macd_values xs \<noteq> []" using length_macd_values [of xs] by auto
  with False show ?thesis by (simp add: macd_def Let_def macd_values_def [symmetric] split: option.split)
qed

text \<open>A new candle decides the swing two places back and leaves the earlier ones.\<close>

lemma pivot_windows_snoc:
  assumes "i + 3 \<le> length cs"
  shows "left_of (cs @ [c]) 2 i = left_of cs 2 i" "right_of (cs @ [c]) 2 i = right_of cs 2 i" "(cs @ [c]) ! i = cs ! i"
  using assms by (simp_all add: left_of_def right_of_def nth_append)

lemma swings_snoc:
  assumes P: "\<And>i. i + 3 \<le> length cs \<Longrightarrow> P' i = P i"
  shows "swings_of kind price P' (cs @ [c]) [2 ..< length (cs @ [c]) - 2] =
    swings_of kind price P cs [2 ..< length cs - 2] @
    (if 4 \<le> length cs \<and> P' (length cs - 2) then [window_swing kind price ((cs @ [c]) ! (length cs - 2)) (length cs - 2)] else [])"
proof (cases "4 \<le> length cs")
  case True
  then have u: "[2 ..< length (cs @ [c]) - 2] = [2 ..< length cs - 2] @ [length cs - 2]"
    using upt_Suc_append [of 2 "length cs - 2"] Suc_diff_le [of 2 "length cs"] by simp
  have f: "filter P' [2 ..< length cs - 2] = filter P [2 ..< length cs - 2]" by (rule filter_cong [OF refl], rule P) auto
  show ?thesis unfolding u using True
    by (auto simp: swings_of_def f window_swing_def nth_append)
next
  case False
  then have "[2 ..< length (cs @ [c]) - 2] = []" "[2 ..< length cs - 2] = []" by auto
  then show ?thesis using False by (simp add: swings_of_def)
qed

lemma high_swings_snoc:
  "high_swings (cs @ [c]) = high_swings cs @
     (if 4 \<le> length cs \<and> is_swing_high (cs @ [c]) 2 (length cs - 2)
      then [window_swing ''HIGH'' cd_high ((cs @ [c]) ! (length cs - 2)) (length cs - 2)] else [])"
  unfolding high_swings_def by (rule swings_snoc) (simp add: is_swing_high_def pivot_windows_snoc)

lemma low_swings_snoc:
  "low_swings (cs @ [c]) = low_swings cs @
     (if 4 \<le> length cs \<and> is_swing_low (cs @ [c]) 2 (length cs - 2)
      then [window_swing ''LOW'' cd_low ((cs @ [c]) ! (length cs - 2)) (length cs - 2)] else [])"
  unfolding low_swings_def by (rule swings_snoc) (simp add: is_swing_low_def pivot_windows_snoc)

lemma pivot_window:
  assumes "5 \<le> length xs"
  shows "last_n 5 xs ! 2 = xs ! (length xs - 3)" "take 2 (last_n 5 xs) = left_of xs 2 (length xs - 3)"
    "drop 3 (last_n 5 xs) = right_of xs 2 (length xs - 3)"
proof -
  obtain k where "length xs = k + 5" using assms by (metis add.commute le_Suc_ex)
  then show "last_n 5 xs ! 2 = xs ! (length xs - 3)" "take 2 (last_n 5 xs) = left_of xs 2 (length xs - 3)"
    "drop 3 (last_n 5 xs) = right_of xs 2 (length xs - 3)"
    by (simp_all add: last_n_def left_of_def right_of_def numeral_3_eq_3)
qed

lemma update_swings_snoc:
  assumes "ms_count s = length (cs @ [c])" "ms_candles s = last_n 21 (cs @ [c])"
    "ms_highs s = high_swings cs" "ms_lows s = low_swings cs"
  shows "update_swings s = s\<lparr>ms_highs := high_swings (cs @ [c]), ms_lows := low_swings (cs @ [c])\<rparr>"
proof (cases "length (cs @ [c]) < 5")
  case True
  then show ?thesis using assms by (simp add: update_swings_def high_swings_snoc low_swings_snoc)
next
  case False
  then have l: "5 \<le> length (cs @ [c])" by simp
  have w: "last_n 5 (ms_candles s) = last_n 5 (cs @ [c])" by (simp add: assms last_n_last_n)
  have n: "length (cs @ [c]) - 3 = length cs - 2" by simp
  show ?thesis using l unfolding update_swings_def w Let_def pivot_window [OF l] n assms(1)
    by (auto simp: high_swings_snoc low_swings_snoc is_swing_high_def is_swing_low_def assms)
qed

lemma detect_swings_chronological:
  "chronological cs \<Longrightarrow> detect_swings cs 2 = Inr (high_swings cs, low_swings cs)"
  using chronological_props [of cs]
  by (simp add: detect_swings_def structure_validate_total Let_def high_swings_def low_swings_def)

lemma window_advanced_eq:
  assumes "chronological cs"
  shows "analyze_advanced_structure cs 2 = Inr (window_advanced (high_swings cs) (low_swings cs) (last cs))"
  using chronological_props [OF assms] detect_swings_chronological [OF assms]
  by (auto simp: analyze_advanced_structure_def structure_validate_total window_advanced_def sequence_trend_def
      classify_structure_def structure_score_def Let_def)

lemma score_cases:
  "(case v of None \<Rightarrow> s | Some r \<Rightarrow> if (b \<and> P r) \<or> (\<not> b \<and> Q r) then dadd s k else s) =
     points v (\<lambda>v. if b then P v else Q v) k s"
  "(case v of None \<Rightarrow> s | Some a \<Rightarrow> if 25 \<le> a then dadd s 10 else if 18 \<le> a then dadd s 5 else s) = adx_points v s"
  "(if d = Some x then dadd s k else s) = bonus (d = Some x) k s"
  by (cases v) (auto simp: points_def opt_agrees_def adx_points_def bonus_def)

lemma window_trend_eq:
  assumes "chronological cs" "cs \<noteq> []"
  shows "window_trend (cd_close (last cs)) (build_snapshot cs) = analyze_trend cs"
proof (cases "aligned (build_snapshot cs) (cd_close (last cs)) = ''UNKNOWN''")
  case True
  let ?u = "\<lparr>tr_direction = ''UNKNOWN'', tr_strength = ''UNKNOWN'', tr_score = 0, tr_indicators = build_snapshot cs\<rparr>"
  have "is_ema20 (build_snapshot cs) = None \<or> is_ema50 (build_snapshot cs) = None \<or> is_ema200 (build_snapshot cs) = None"
    using True by (auto simp: aligned_def split: option.splits if_splits)
  then have "window_trend (cd_close (last cs)) (build_snapshot cs) = ?u"
    unfolding window_trend_def
    by (cases "is_ema20 (build_snapshot cs)"; cases "is_ema50 (build_snapshot cs)"; cases "is_ema200 (build_snapshot cs)") simp_all
  then show ?thesis using assms True by (simp add: analyze_trend_def chronological_props Let_def)
next
  case False
  let ?i = "build_snapshot cs" and ?x = "cd_close (last cs)"
  obtain e20 e50 e200 where e: "is_ema20 ?i = Some e20" "is_ema50 ?i = Some e50" "is_ema200 ?i = Some e200"
    using False by (auto simp: aligned_def split: option.splits)
  have a: "(if e20 < ?x \<and> e50 < e20 \<and> e200 < e50 then ''BULLISH''
      else if ?x < e20 \<and> e20 < e50 \<and> e50 < e200 then ''BEARISH'' else ''NEUTRAL'') = aligned ?i ?x"
    by (simp add: aligned_def e)
  have "window_trend ?x ?i = (let direction = aligned ?i ?x in
      if direction = ''NEUTRAL'' then \<lparr>tr_direction = direction, tr_strength = ''WEAK'', tr_score = 45, tr_indicators = ?i\<rparr>
      else let score = trend_score ?i (direction = ''BULLISH'') direction ?x;
               strength = (if 85 \<le> score then ''STRONG'' else if 65 \<le> score then ''MODERATE'' else ''WEAK'')
           in \<lparr>tr_direction = direction, tr_strength = strength, tr_score = score, tr_indicators = ?i\<rparr>)"
    unfolding window_trend_def e option.case prod.case a score_cases trend_score_def Let_def ..
  then show ?thesis using assms False by (simp add: analyze_trend_def chronological_props Let_def)
qed

subsection \<open>Pushing candles is analysing them all\<close>

lemma window_supertrend_eq:
  assumes "chronological cs" "cs \<noteq> []"
  shows "window_supertrend (last cs) (atr cs 14) (ema_val (map cd_close cs) 20) (ema_val (map cd_close cs) 50) =
    supertrend_direction cs 14"
  using assms by (auto simp: window_supertrend_def supertrend_direction_def chronological_props Let_def split: option.split)

lemma window_indicators_eq:
  assumes "chronological cs" "cs \<noteq> []" "ms_candles s = last_n 21 cs" "ms_closes s = last_n 50 (map cd_close cs)"
    "ms_macd_line s = fst (macd (map cd_close cs) 12 26 9)" "ms_macd_signal s = fst (snd (macd (map cd_close cs) 12 26 9))"
  shows "window_indicators s (ema_val (map cd_close cs) 20) (ema_val (map cd_close cs) 50) (ema_val (map cd_close cs) 200) =
    build_snapshot cs"
proof -
  let ?cl = "map cd_close cs"
  obtain l g h where m: "macd ?cl 12 26 9 = (l, g, h)" by (metis prod.exhaust)
  obtain bm bu bl where b: "bollinger ?cl 20 2 = (bm, bu, bl)" by (metis prod.exhaust)
  have h: "(case l of None \<Rightarrow> None | Some x \<Rightarrow> case g of None \<Rightarrow> None | Some y \<Rightarrow> Some (dsub x y)) = h"
    using m unfolding macd_alt by (auto split: option.splits)
  have a: "window_atr (last_n 21 cs) 14 = atr cs 14" "window_adx (last_n 21 cs) 14 = adx cs 14"
    "window_vwap (last_n 20 cs) = vwap cs 20"
    using assms(1) by (simp_all add: window_atr_window window_adx_window window_atr_val window_adx_val window_vwap_val)
  have r: "window_rsi (last_n 15 ?cl) 14 = rsi_val ?cl 14"
    using window_rsi_window [of 14 15 ?cl] by (simp add: window_rsi_val)
  have l: "last (last_n 21 cs) = last cs" using assms(2) by (simp add: last_last_n)
  show ?thesis
    unfolding window_indicators_def build_snapshot_def Let_def assms(3-6) chronological_props(1) [OF assms(1)]
    by (simp add: m b h a r l last_n_last_n window_bollinger_val window_supertrend_eq [OF assms(1,2)] sma_val_def mean_def min_def)
qed

lemma windows_kept:
  assumes "chronological cs"
  shows "analyze_structure (last_n 20 cs) 20 = analyze_structure cs 20"
    and "cs \<noteq> [] \<Longrightarrow> classify_regime (last_n 20 cs) t = classify_regime cs t"
    and "analyze_liquidity (last_n 21 cs) 20 = analyze_liquidity cs 20"
proof -
  have o1: "ordered (last_n n cs) = last_n n cs" for n using chronological_props(1,3) assms by blast
  have ne: "last_n n cs \<noteq> []" if "cs \<noteq> []" "0 < n" for n using that length_last_n [of n cs] by (metis length_greater_0_conv min_less_iff_conj)
  have ll: "last (last_n m cs) = last cs" if "\<not> length cs < k" "0 < k" "0 < m" for m k
    using that by (cases "cs = []") (simp_all add: last_last_n)
  show "analyze_structure (last_n 20 cs) 20 = analyze_structure cs 20"
    by (cases "length cs < 20") (auto simp: analyze_structure_def o1 chronological_props assms Let_def last_n_last_n ll min_def)
  show "classify_regime (last_n 20 cs) t = classify_regime cs t" if "cs \<noteq> []"
    using that ne [of 20] by (simp add: classify_regime_def o1 chronological_props assms last_n_last_n)
  show "analyze_liquidity (last_n 21 cs) 20 = analyze_liquidity cs 20"
    by (cases "length cs < 21") (auto simp: analyze_liquidity_def o1 chronological_props assms Let_def last_n_last_n ll min_def)
qed

lemma latest_snapshot_eq:
  assumes "chronological cs" "cs \<noteq> []" "ms_candles s = last_n 21 cs" "ms_closes s = last_n 50 (map cd_close cs)"
    "ms_macd_line s = fst (macd (map cd_close cs) 12 26 9)" "ms_macd_signal s = fst (snd (macd (map cd_close cs) 12 26 9))"
    "ms_highs s = high_swings cs" "ms_lows s = low_swings cs"
  shows "latest_snapshot (ema_val (map cd_close cs) 20) (ema_val (map cd_close cs) 50) (ema_val (map cd_close cs) 200) s =
    analyze_market (ms_symbol s) (ms_timeframe s) cs"
proof -
  have l: "last (last_n 21 cs) = last cs" using assms(2) by (simp add: last_last_n)
  show ?thesis
    unfolding latest_snapshot_def analyze_market_def Let_def window_indicators_eq [OF assms(1-6)] assms(3,7,8) l
    by (simp add: window_trend_eq assms(1,2) last_n_last_n windows_kept window_advanced_eq)
qed

definition rows_fit :: "string \<Rightarrow> string \<Rightarrow> candle list \<Rightarrow> bool" where
  "rows_fit symbol timeframe cs \<longleftrightarrow> chronological cs \<and> (\<forall>c \<in> set cs. cd_symbol c = symbol \<and> cd_timeframe c = timeframe)"

lemma rows_fit_snoc:
  "rows_fit symbol timeframe (cs @ [c]) \<longleftrightarrow> rows_fit symbol timeframe cs \<and> cd_symbol c = symbol \<and> cd_timeframe c = timeframe \<and>
     (\<forall>b \<in> set cs. instant (cd_timestamp b) < instant (cd_timestamp c))"
  by (auto simp: rows_fit_def chronological_snoc)

lemma state_of_Nil: "state_of symbol timeframe [] = market_state_blank symbol timeframe"
  by (simp add: state_of_def market_state_blank_def Let_def ema_of_Nil last_n_def macd_alt macd_values_def ema_series_def
      ema_val_def high_swings_def low_swings_def swings_of_def)

lemma push_ema_snoc:
  assumes "0 < p" "get s = ema_of p xs"
  shows "push_ema get upd x s = (upd (\<lambda>_. ema_of p (xs @ [x])) s, Inr (ema_val (xs @ [x]) p))"
  using ema_push_snoc [OF assms(1)] by (simp add: push_ema_def assms(2))

lemma push_error_None:
  assumes "rows_fit symbol timeframe (cs @ [c])"
  shows "push_error c (state_of symbol timeframe cs) = None"
  using assms by (cases "cs = []") (auto simp: rows_fit_snoc push_error_def state_of_def Let_def rows_fit_def chronological_snoc
      dest!: bspec [OF _ last_in_set])

lemma push_macd_snoc:
  assumes "ms_signal_ema s = ema_of 9 (macd_values xs)" "ms_macd_line s = fst (macd xs 12 26 9)"
    "ms_macd_signal s = fst (snd (macd xs 12 26 9))"
  shows "push_macd (ema_val (xs @ [x]) 12) (ema_val (xs @ [x]) 26) s =
    (s\<lparr>ms_signal_ema := ema_of 9 (macd_values (xs @ [x])), ms_macd_line := fst (macd (xs @ [x]) 12 26 9),
       ms_macd_signal := fst (snd (macd (xs @ [x]) 12 26 9))\<rparr>, Inr ())"
proof (cases "26 \<le> Suc (length xs)")
  case True
  obtain f w where v: "ema_val (xs @ [x]) 12 = Some f" "ema_val (xs @ [x]) 26 = Some w"
    using True ema_val_None [of "xs @ [x]" 12] ema_val_None [of "xs @ [x]" 26] by fastforce
  have n: "macd_values (xs @ [x]) = macd_values xs @ [dsub f w]" by (simp add: macd_values_snoc v)
  have old: "macd xs 12 26 9 = (None, None, None)" if "ema_val (macd_values xs @ [dsub f w]) 9 = None"
  proof -
    have "ema_val (macd_values xs) 9 = None" using that by (simp add: ema_val_None)
    then show ?thesis by (simp add: macd_alt)
  qed
  show ?thesis
    using assms old
    by (simp add: push_macd_def v push_ema_snoc [of 9 ms_signal_ema s "macd_values xs", OF _ assms(1)] n macd_alt [of "xs @ [x]"] split: option.split)
next
  case False
  then have v: "ema_val (xs @ [x]) 26 = None" by (simp add: ema_val_None)
  then have "macd_values (xs @ [x]) = macd_values xs" by (simp add: macd_values_snoc split: option.split)
  moreover from this have "macd (xs @ [x]) 12 26 9 = macd xs 12 26 9" by (simp only: macd_alt)
  ultimately show ?thesis using assms by (simp add: push_macd_def v split: option.split)
qed

text \<open>
  The simulation step: in the state of some candles, a push moves to the state of one candle more, and its answer is the
  analysis of all of them.
\<close>

theorem push_candle_snoc:
  assumes "rows_fit symbol timeframe (cs @ [c])"
  shows "push_candle c (state_of symbol timeframe cs) =
    (state_of symbol timeframe (cs @ [c]), analyze_market symbol timeframe (cs @ [c]))"
proof -
  let ?x = "cd_close c" and ?xs = "map cd_close cs" and ?cs = "cs @ [c]"
  have ch: "chronological ?cs" using assms by (simp add: rows_fit_def)
  obtain m where m: "analyze_market symbol timeframe ?cs = Inr m"
    using analyze_market_total chronological_props(2) [OF ch] by blast
  let ?s1 = "(state_of symbol timeframe cs)\<lparr>ms_count := length ?cs, ms_last_timestamp := Some (cd_timestamp c),
    ms_candles := last_n 21 ?cs, ms_closes := last_n 50 (?xs @ [?x]), ms_ema12 := ema_of 12 (?xs @ [?x]),
    ms_ema20 := ema_of 20 (?xs @ [?x]), ms_ema26 := ema_of 26 (?xs @ [?x]), ms_ema50 := ema_of 50 (?xs @ [?x]),
    ms_ema200 := ema_of 200 (?xs @ [?x])\<rparr>"
  let ?s2 = "?s1\<lparr>ms_signal_ema := ema_of 9 (macd_values (?xs @ [?x])), ms_macd_line := fst (macd (?xs @ [?x]) 12 26 9),
       ms_macd_signal := fst (snd (macd (?xs @ [?x]) 12 26 9))\<rparr>"
  let ?s3 = "?s2\<lparr>ms_highs := high_swings ?cs, ms_lows := low_swings ?cs\<rparr>"
  have macd: "push_macd (ema_val (?xs @ [?x]) 12) (ema_val (?xs @ [?x]) 26) ?s1 = (?s2, Inr ())"
    by (rule push_macd_snoc) (simp_all add: state_of_def Let_def)
  have sw: "update_swings ?s2 = ?s3"
    by (rule update_swings_snoc) (simp_all add: state_of_def Let_def)
  have sn: "latest_snapshot (ema_val (?xs @ [?x]) 20) (ema_val (?xs @ [?x]) 50) (ema_val (?xs @ [?x]) 200) ?s3 = Inr m"
    using latest_snapshot_eq [OF ch, of ?s3] m by (simp add: state_of_def Let_def)
  have fin: "?s3\<lparr>ms_latest := Some m\<rparr> = state_of symbol timeframe ?cs"
    by (simp add: state_of_def Let_def m)
  have w: "last_n 21 (ms_candles (state_of symbol timeframe cs) @ [c]) = last_n 21 ?cs"
    "last_n 50 (ms_closes (state_of symbol timeframe cs) @ [?x]) = last_n 50 (?xs @ [?x])"
    "ms_count (state_of symbol timeframe cs) + 1 = length ?cs"
    by (simp_all add: state_of_def Let_def last_n_snoc)
  have e: "ms_ema12 (state_of symbol timeframe cs) = ema_of 12 ?xs" "ms_ema20 (state_of symbol timeframe cs) = ema_of 20 ?xs"
    "ms_ema26 (state_of symbol timeframe cs) = ema_of 26 ?xs" "ms_ema50 (state_of symbol timeframe cs) = ema_of 50 ?xs"
    "ms_ema200 (state_of symbol timeframe cs) = ema_of 200 ?xs"
    by (simp_all add: state_of_def Let_def)
  have p: "push_ema get upd ?x t = (upd (\<lambda>_. ema_of k (?xs @ [?x])) t, Inr (ema_val (?xs @ [?x]) k))"
    if "get t = ema_of k ?xs" "0 < k" for get upd t k
    using push_ema_snoc [of k get t ?xs] that by auto
  show ?thesis
    unfolding push_candle_def push_error_None [OF assms] option.case w
    by (simp add: p [of ms_ema12 _ 12] p [of ms_ema20 _ 20] p [of ms_ema26 _ 26] p [of ms_ema50 _ 50] p [of ms_ema200 _ 200] e
        macd [simplified] sw [simplified] sn [simplified] fin [simplified] Let_def m)
qed

end
