(* ===== verification/Snapshot_Cursor.thy ===== *)
theory Snapshot_Cursor
  imports Incremental
begin

section \<open>The snapshot cursor of the backtest\<close>

text \<open>
  \<^verbatim>\<open>app/backtest/incremental_snapshots.py\<close>, \<^verbatim>\<open>IncrementalSnapshotCursor\<close>, and the reference it replaces,
  \<^verbatim>\<open>_snapshots_at_reference\<close> of \<^verbatim>\<open>engine.py\<close>: at every decision time the snapshots of four timeframes, each over the candles
  completed by then. The theorem is that the cursor answers like the reference after any decision times.
\<close>

subsection \<open>The cursor over four timeframes\<close>

definition timeframe_order :: "string list" where
  "timeframe_order = [''1d'', ''4h'', ''1h'', ''15m'']"

text \<open>In microseconds.\<close>

definition timeframe_duration :: "string \<Rightarrow> int" where
  "timeframe_duration tf = (case dget known_timeframes tf of None \<Rightarrow> 0 | Some m \<Rightarrow> int m * 60 * 10 ^ 6)"

record snapshot_cursor =
  cu_symbol :: string
  cu_candles :: "(string, candle list) dict"
  cu_next :: "(string, nat) dict"
  cu_states :: "(string, market_state) dict"
  cu_last_decision :: "datetime option"

definition cursor_reset :: "snapshot_cursor \<Rightarrow> snapshot_cursor" where
  "cursor_reset u = u\<lparr>cu_next := map (\<lambda>tf. (tf, 0)) timeframe_order,
     cu_states := map (\<lambda>tf. (tf, market_state_blank (cu_symbol u) tf)) timeframe_order\<rparr>"

definition cursor_new :: "string \<Rightarrow> (string, candle list) dict \<Rightarrow> snapshot_cursor" where
  "cursor_new symbol candles = cursor_reset \<lparr>cu_symbol = symbol, cu_candles = candles, cu_next = [], cu_states = [],
     cu_last_decision = None\<rparr>"

text \<open>The \<^verbatim>\<open>while\<close> loop over the rows behind the index.\<close>

fun advance_rows :: "int \<Rightarrow> int \<Rightarrow> candle list \<Rightarrow> nat \<Rightarrow> market_state \<Rightarrow> (market_state, nat) sres" where
  "advance_rows d now [] k s = (s, Inr k)"
| "advance_rows d now (c # cs) k s =
     (if instant (cd_timestamp c) + d \<le> now
      then sbind (push_candle c s) (\<lambda>_ s. advance_rows d now cs (Suc k) s) else (s, Inr k))"

fun cursor_loop ::
  "int \<Rightarrow> string list \<Rightarrow> (string, market_snapshot) dict \<Rightarrow> snapshot_cursor
    \<Rightarrow> (snapshot_cursor, (string, market_snapshot) dict option) sres" where
  "cursor_loop now [] acc u = (u, Inr (Some acc))"
| "cursor_loop now (tf # tfs) acc u =
     (case (dget (cu_candles u) tf, dget (cu_next u) tf, dget (cu_states u) tf) of
        (Some rows, Some k, Some s) \<Rightarrow>
          (case advance_rows (timeframe_duration tf) now (drop k rows) k s of
             (s1, Inl e) \<Rightarrow> (u\<lparr>cu_states := dput tf s1 (cu_states u)\<rparr>, Inl e)
           | (s1, Inr k1) \<Rightarrow>
               (let u1 = u\<lparr>cu_states := dput tf s1 (cu_states u), cu_next := dput tf k1 (cu_next u)\<rparr> in
                if ms_count s1 < 2 then (u1, Inr None)
                else case ms_latest s1 of
                  None \<Rightarrow> (u1, Inr None)
                | Some m \<Rightarrow> cursor_loop now tfs (acc @ [(tf, m)]) u1))
      | _ \<Rightarrow> (u, Inl (KeyError tf)))"

definition snapshots_at ::
  "datetime \<Rightarrow> snapshot_cursor \<Rightarrow> (snapshot_cursor, (string, market_snapshot) dict option) sres" where
  "snapshots_at now u =
     (let u1 = (case cu_last_decision u of None \<Rightarrow> u
                | Some t \<Rightarrow> if instant now < instant t then cursor_reset u else u)
      in cursor_loop (instant now) timeframe_order [] (u1\<lparr>cu_last_decision := Some now\<rparr>))"

text \<open>\<^verbatim>\<open>engine.py\<close>, \<^verbatim>\<open>_snapshots_at_reference\<close>: every time from scratch, over the candles completed by then.\<close>

definition completed :: "int \<Rightarrow> int \<Rightarrow> candle list \<Rightarrow> candle list" where
  "completed d now = filter (\<lambda>c. instant (cd_timestamp c) + d \<le> now)"

fun reference_loop ::
  "string \<Rightarrow> (string, candle list) dict \<Rightarrow> int \<Rightarrow> string list \<Rightarrow> (string, market_snapshot) dict
    \<Rightarrow> (string, market_snapshot) dict option res" where
  "reference_loop symbol candles now [] acc = Inr (Some acc)"
| "reference_loop symbol candles now (tf # tfs) acc =
     (case dget candles tf of
        None \<Rightarrow> Inl (KeyError tf)
      | Some rows \<Rightarrow>
          (let done_rows = completed (timeframe_duration tf) now rows in
           if length done_rows < 2 then Inr None
           else res_bind (analyze_market symbol tf done_rows) (\<lambda>m.
             reference_loop symbol candles now tfs (acc @ [(tf, m)]))))"

definition snapshots_at_reference ::
  "string \<Rightarrow> (string, candle list) dict \<Rightarrow> datetime \<Rightarrow> (string, market_snapshot) dict option res" where
  "snapshots_at_reference symbol candles now = reference_loop symbol candles (instant now) timeframe_order []"

subsection \<open>The cursor answers like the reference\<close>

lemma completed_split:
  assumes "chronological rows" "\<forall>c \<in> set (take k rows). instant (cd_timestamp c) + d \<le> now"
  shows "completed d now rows = take k rows @ takeWhile (\<lambda>c. instant (cd_timestamp c) + d \<le> now) (drop k rows)"
proof -
  let ?P = "\<lambda>c. instant (cd_timestamp c) + d \<le> now"
  have tw: "filter ?P xs = takeWhile ?P xs" if "chronological xs" for xs
    using that
  proof (induction xs)
    case (Cons a xs)
    then have later: "instant (cd_timestamp a) < instant (cd_timestamp b)" if "b \<in> set xs" for b
      using that by (auto simp: chronological_def)
    have "filter ?P xs = []" if "\<not> ?P a"
      using that later by (fastforce simp: filter_empty_conv)
    moreover have "chronological xs" using Cons.prems by (simp add: chronological_def)
    ultimately show ?case using Cons.IH by simp
  qed simp
  have "completed d now rows = filter ?P (take k rows) @ filter ?P (drop k rows)"
    by (simp add: completed_def flip: filter_append)
  moreover have "filter ?P (take k rows) = take k rows" using assms(2) by (simp add: filter_id_conv)
  moreover have "chronological (drop k rows)" using assms(1) by (simp add: chronological_def sorted_wrt_drop)
  ultimately show ?thesis using tw by simp
qed

lemma advance_rows_eq:
  assumes "rows_fit symbol tf (ds @ cs)" "k = length ds"
  shows "advance_rows d now cs k (state_of symbol tf ds) =
    (let more_rows = takeWhile (\<lambda>c. instant (cd_timestamp c) + d \<le> now) cs
     in (state_of symbol tf (ds @ more_rows), Inr (k + length more_rows)))"
  using assms
proof (induction cs arbitrary: ds k)
  case (Cons c cs)
  have f: "rows_fit symbol tf (ds @ [c])" "rows_fit symbol tf ((ds @ [c]) @ cs)"
    using Cons.prems(1) by (auto simp: rows_fit_def chronological_def sorted_wrt_append)
  obtain m where m: "analyze_market symbol tf (ds @ [c]) = Inr m"
    using f(1) analyze_market_total chronological_props(2) by (metis rows_fit_def)
  show ?case using Cons.IH [OF f(2), of "Suc k"] Cons.prems(2) push_candle_snoc [OF f(1)] m
    by (simp add: Let_def)
qed simp

lemma state_of_latest:
  assumes "rows_fit symbol tf cs" "cs \<noteq> []"
  obtains m where "analyze_market symbol tf cs = Inr m" "ms_latest (state_of symbol tf cs) = Some m"
proof -
  obtain m where "analyze_market symbol tf cs = Inr m"
    using assms(1) analyze_market_total chronological_props(2) by (metis rows_fit_def)
  with assms(2) that show thesis by (simp add: state_of_def Let_def)
qed

text \<open>Each timeframe's state is that of a prefix of its rows, all of them completed by the given time.\<close>

definition cursor_at :: "string \<Rightarrow> (string, candle list) dict \<Rightarrow> int \<Rightarrow> snapshot_cursor \<Rightarrow> bool" where
  "cursor_at symbol candles t u \<longleftrightarrow> cu_symbol u = symbol \<and> cu_candles u = candles \<and>
     (\<forall>tf \<in> set timeframe_order. \<exists>rows k. dget candles tf = Some rows \<and> dget (cu_next u) tf = Some k \<and>
        dget (cu_states u) tf = Some (state_of symbol tf (take k rows)) \<and> k \<le> length rows \<and>
        (\<forall>c \<in> set (take k rows). instant (cd_timestamp c) + timeframe_duration tf \<le> t))"

definition candles_fit :: "string \<Rightarrow> (string, candle list) dict \<Rightarrow> bool" where
  "candles_fit symbol candles \<longleftrightarrow>
     (\<forall>tf \<in> set timeframe_order. \<exists>rows. dget candles tf = Some rows \<and> rows_fit symbol tf rows)"

lemma cursor_at_mono: "cursor_at symbol candles t u \<Longrightarrow> t \<le> t' \<Longrightarrow> cursor_at symbol candles t' u"
  unfolding cursor_at_def by (meson order_trans)

lemma cursor_at_reset:
  assumes "candles_fit symbol candles" "cu_symbol u = symbol" "cu_candles u = candles"
  shows "cursor_at symbol candles t (cursor_reset u)"
  using assms
  by (auto simp: cursor_at_def cursor_reset_def candles_fit_def timeframe_order_def state_of_Nil)

lemma cursor_loop_eq:
  assumes "cursor_at symbol candles now u" "candles_fit symbol candles" "set tfs \<subseteq> set timeframe_order"
  shows "\<exists>u'. cursor_loop now tfs acc u = (u', reference_loop symbol candles now tfs acc) \<and>
    cursor_at symbol candles now u' \<and> cu_last_decision u' = cu_last_decision u \<and>
    (\<exists>r. reference_loop symbol candles now tfs acc = Inr r)"
  using assms(1,3)
proof (induction tfs arbitrary: acc u)
  case (Cons tf tfs)
  let ?d = "timeframe_duration tf"
  have tf: "tf \<in> set timeframe_order" using Cons.prems(2) by simp
  obtain rows k where rk: "dget candles tf = Some rows" "dget (cu_next u) tf = Some k"
    "dget (cu_states u) tf = Some (state_of symbol tf (take k rows))" "k \<le> length rows"
    "\<forall>c \<in> set (take k rows). instant (cd_timestamp c) + ?d \<le> now" and u: "cu_symbol u = symbol" "cu_candles u = candles"
    using Cons.prems(1) tf unfolding cursor_at_def by blast
  have f: "rows_fit symbol tf rows" using assms(2) tf rk(1) unfolding candles_fit_def by fastforce
  then have ch: "chronological rows" by (simp add: rows_fit_def)
  let ?w = "takeWhile (\<lambda>c. instant (cd_timestamp c) + ?d \<le> now) (drop k rows)"
  define k1 where "k1 = k + length ?w"
  define ds where "ds = completed ?d now rows"
  have cs: "ds = take k rows @ ?w" unfolding ds_def by (rule completed_split [OF ch rk(5)])
  have adv: "advance_rows ?d now (drop k rows) k (state_of symbol tf (take k rows)) = (state_of symbol tf ds, Inr k1)"
    using advance_rows_eq [of symbol tf "take k rows" "drop k rows" k ?d now] f rk(4) by (simp add: cs k1_def Let_def)
  have pre: "take k1 rows = ds" "k1 \<le> length rows"
  proof -
    have "take (length ?w) (drop k rows) = ?w" by (rule takeWhile_eq_take [symmetric])
    then show "take k1 rows = ds" by (simp add: cs k1_def take_add)
    have "length ?w \<le> length (drop k rows)" by (rule length_takeWhile_le)
    then show "k1 \<le> length rows" using rk(4) by (simp add: k1_def)
  qed
  have done_by: "\<forall>c \<in> set ds. instant (cd_timestamp c) + ?d \<le> now" by (simp add: ds_def completed_def)
  have fc: "rows_fit symbol tf ds"
    using f by (auto simp: rows_fit_def ds_def completed_def chronological_def intro: sorted_wrt_filter)
  define u1 where "u1 = u\<lparr>cu_states := dput tf (state_of symbol tf ds) (cu_states u), cu_next := dput tf k1 (cu_next u)\<rparr>"
  have inv: "cursor_at symbol candles now u1"
    unfolding cursor_at_def
  proof (intro conjI ballI)
    fix x assume x: "x \<in> set timeframe_order"
    show "\<exists>rows k. dget candles x = Some rows \<and> dget (cu_next u1) x = Some k \<and>
        dget (cu_states u1) x = Some (state_of symbol x (take k rows)) \<and> k \<le> length rows \<and>
        (\<forall>c \<in> set (take k rows). instant (cd_timestamp c) + timeframe_duration x \<le> now)"
    proof (cases "x = tf")
      case True
      then show ?thesis using rk(1) pre done_by by (intro exI [of _ rows] exI [of _ k1]) (simp add: u1_def)
    next
      case False
      then have same: "dget (cu_next u1) x = dget (cu_next u) x" "dget (cu_states u1) x = dget (cu_states u) x"
        by (simp_all add: u1_def)
      show ?thesis unfolding same using Cons.prems(1) x unfolding cursor_at_def by blast
    qed
  qed (simp_all add: u u1_def)
  have last1: "cu_last_decision u1 = cu_last_decision u" by (simp add: u1_def)
  have cnt: "ms_count (state_of symbol tf ds) = length ds" by (simp add: state_of_def Let_def)
  have step: "cursor_loop now (tf # tfs) acc u = (if length ds < 2 then (u1, Inr None)
      else case ms_latest (state_of symbol tf ds) of None \<Rightarrow> (u1, Inr None) | Some m \<Rightarrow> cursor_loop now tfs (acc @ [(tf, m)]) u1)"
    unfolding cursor_loop.simps u rk(1-3) option.case prod.case adv sum.case Let_def cnt u1_def ..
  have ref: "reference_loop symbol candles now (tf # tfs) acc = (if length ds < 2 then Inr None
      else res_bind (analyze_market symbol tf ds) (\<lambda>m. reference_loop symbol candles now tfs (acc @ [(tf, m)])))"
    by (simp add: rk(1) ds_def Let_def)
  show ?case
  proof (cases "length ds < 2")
    case True
    then show ?thesis using inv last1 unfolding step ref by simp
  next
    case False
    then have "ds \<noteq> []" by auto
    then obtain m where m: "analyze_market symbol tf ds = Inr m" "ms_latest (state_of symbol tf ds) = Some m"
      using state_of_latest [OF fc] by blast
    have sub: "set tfs \<subseteq> set timeframe_order" using Cons.prems(2) by simp
    show ?thesis using Cons.IH [OF inv sub, of "acc @ [(tf, m)]"] False unfolding step ref m last1 by simp
  qed
qed simp

text \<open>
  After any decision times, in any order, the next answer of the cursor is that of the reference, and it does not raise.
\<close>

lemma snapshots_at_eq:
  assumes "candles_fit symbol candles" "cu_symbol u = symbol" "cu_candles u = candles"
    and "\<And>t. cu_last_decision u = Some t \<Longrightarrow> cursor_at symbol candles (instant t) u"
    and "cu_last_decision u = None \<Longrightarrow> cursor_at symbol candles (instant now) u"
  shows "\<exists>u' r. snapshots_at now u = (u', Inr r) \<and> snapshots_at_reference symbol candles now = Inr r \<and>
    cursor_at symbol candles (instant now) u' \<and> cu_last_decision u' = Some now"
proof -
  let ?u1 = "case cu_last_decision u of None \<Rightarrow> u | Some t \<Rightarrow> if instant now < instant t then cursor_reset u else u"
  have "cursor_at symbol candles (instant now) ?u1"
    using assms cursor_at_reset [OF assms(1-3)] cursor_at_mono by (fastforce split: option.split)
  then have "cursor_at symbol candles (instant now) (?u1\<lparr>cu_last_decision := Some now\<rparr>)"
    by (simp add: cursor_at_def)
  from cursor_loop_eq [OF this assms(1) subset_refl, of "[]"] show ?thesis
    unfolding snapshots_at_def snapshots_at_reference_def Let_def by auto
qed

definition cursor_fine :: "string \<Rightarrow> (string, candle list) dict \<Rightarrow> snapshot_cursor \<Rightarrow> bool" where
  "cursor_fine symbol candles u \<longleftrightarrow> cu_symbol u = symbol \<and> cu_candles u = candles \<and>
     (case cu_last_decision u of None \<Rightarrow> \<forall>t. cursor_at symbol candles t u | Some t \<Rightarrow> cursor_at symbol candles (instant t) u)"

lemma cursor_fine_new:
  assumes "candles_fit symbol candles"
  shows "cursor_fine symbol candles (cursor_new symbol candles)"
proof -
  have "cursor_at symbol candles t (cursor_new symbol candles)" for t
    unfolding cursor_new_def by (rule cursor_at_reset [OF assms]) simp_all
  then show ?thesis by (simp add: cursor_fine_def cursor_new_def cursor_reset_def)
qed

lemma cursor_fine_step:
  assumes "candles_fit symbol candles" "cursor_fine symbol candles u"
  obtains u' r where "snapshots_at now u = (u', Inr r)" "snapshots_at_reference symbol candles now = Inr r"
    "cursor_fine symbol candles u'"
proof -
  have c: "cu_symbol u = symbol" "cu_candles u = candles" using assms(2) by (simp_all add: cursor_fine_def)
  obtain u' r where r: "snapshots_at now u = (u', Inr r)" "snapshots_at_reference symbol candles now = Inr r"
    "cursor_at symbol candles (instant now) u'" "cu_last_decision u' = Some now"
    using snapshots_at_eq [OF assms(1) c, of now] assms(2) by (auto simp: cursor_fine_def split: option.splits)
  then have "cursor_fine symbol candles u'" by (simp add: cursor_fine_def cursor_at_def)
  with r that show thesis by blast
qed

lemma cursor_fine_run:
  assumes "candles_fit symbol candles"
  shows "cursor_fine symbol candles (fold (\<lambda>t u. fst (snapshots_at t u)) ts (cursor_new symbol candles))"
proof (induction ts rule: rev_induct)
  case (snoc t ts)
  from cursor_fine_step [OF assms snoc, of t] obtain u' r where
    "snapshots_at t (fold (\<lambda>t u. fst (snapshots_at t u)) ts (cursor_new symbol candles)) = (u', Inr r)"
    "cursor_fine symbol candles u'" .
  then show ?case by simp
qed (simp add: cursor_fine_new assms)

lemma cursor_answers:
  assumes "candles_fit symbol candles"
  shows "snd (snapshots_at now (fold (\<lambda>t u. fst (snapshots_at t u)) ts (cursor_new symbol candles))) =
    snapshots_at_reference symbol candles now"
  using cursor_fine_step [OF assms cursor_fine_run [OF assms, of ts], of now] by fastforce

subsection \<open>Only completed candles matter\<close>

definition agree_until :: "int \<Rightarrow> (string, candle list) dict \<Rightarrow> (string, candle list) dict \<Rightarrow> bool" where
  "agree_until T c1 c2 \<longleftrightarrow> (\<forall>tf \<in> set timeframe_order. \<exists>r1 r2. dget c1 tf = Some r1 \<and> dget c2 tf = Some r2 \<and>
     completed (timeframe_duration tf) T r1 = completed (timeframe_duration tf) T r2)"

lemma completed_earlier: "now \<le> T \<Longrightarrow> completed d now rows = completed d now (completed d T rows)"
  by (auto simp: completed_def intro: filter_cong)

lemma reference_agrees:
  assumes "agree_until T c1 c2" "instant now \<le> T"
  shows "snapshots_at_reference symbol c1 now = snapshots_at_reference symbol c2 now"
proof -
  have "reference_loop symbol c1 (instant now) tfs acc = reference_loop symbol c2 (instant now) tfs acc"
    if "set tfs \<subseteq> set timeframe_order" for tfs acc
    using that
  proof (induction tfs arbitrary: acc)
    case (Cons tf tfs)
    then obtain r1 r2 where r: "dget c1 tf = Some r1" "dget c2 tf = Some r2"
      "completed (timeframe_duration tf) T r1 = completed (timeframe_duration tf) T r2"
      using assms(1) unfolding agree_until_def by (meson list.set_intros(1) subsetD)
    then have "completed (timeframe_duration tf) (instant now) r1 = completed (timeframe_duration tf) (instant now) r2"
      using completed_earlier [OF assms(2)] by metis
    then show ?case using r Cons by (simp add: Let_def)
  qed simp
  then show ?thesis by (simp add: snapshots_at_reference_def)
qed

end
