(* ===== verification/Backtest.thy ===== *)
theory Backtest
  imports Snapshot_Cursor Risk
begin

section \<open>The backtest engine\<close>

text \<open>
  \<^verbatim>\<open>app/backtest\<close>: \<^verbatim>\<open>models.py\<close>, \<^verbatim>\<open>costs.py\<close>, \<^verbatim>\<open>metrics.py\<close> and \<^verbatim>\<open>engine.py\<close>. A run walks over the 15-minute bars: it opens
  the trade decided at the close of the bar before at this bar's open, charges funding, closes what stop or target was
  crossed, and decides on the snapshots of the candles completed by the bar's close. The ids of positions are an argument,
  a function of how many were opened before; the diagnostics are the list of emitted events.
\<close>

subsection \<open>Configuration and records\<close>

record bt_config =
  bc_initial_equity :: rat
  bc_risk_per_trade :: rat
  bc_max_aggregate_risk :: rat
  bc_max_futures_capital :: rat
  bc_commission :: rat
  bc_slippage :: rat
  bc_spread :: rat
  bc_funding_rate :: rat
  bc_allow_short :: bool

definition default_bt_config :: bt_config where
  "default_bt_config = \<lparr>bc_initial_equity = 10000, bc_risk_per_trade = 1, bc_max_aggregate_risk = 4,
     bc_max_futures_capital = 50, bc_commission = 0, bc_slippage = 0, bc_spread = 0, bc_funding_rate = 0,
     bc_allow_short = True\<rparr>"

definition bt_config_validate :: "bt_config \<Rightarrow> unit res" where
  "bt_config_validate c =
     guard (bc_initial_equity c \<le> 0) (ValueError ''initial_equity must be positive'')
     (case find (\<lambda>(n, v). v < 0) [(''risk_per_trade_percent'', bc_risk_per_trade c),
          (''max_aggregate_risk_percent'', bc_max_aggregate_risk c), (''max_futures_capital_percent'', bc_max_futures_capital c),
          (''commission_percent'', bc_commission c), (''slippage_percent'', bc_slippage c), (''spread_percent'', bc_spread c)] of
        Some (n, v) \<Rightarrow> Inl (ValueError (n @ '' must be non-negative''))
      | None \<Rightarrow> guard (bc_max_aggregate_risk c < bc_risk_per_trade c)
          (ValueError ''risk_per_trade_percent cannot exceed max_aggregate_risk_percent'') (Inr ()))"

record trade_record =
  td_position_id :: string
  td_symbol :: string
  td_direction :: string
  td_setup :: string
  td_entry_time :: datetime
  td_entry_price :: rat
  td_exit_time :: datetime
  td_exit_price :: rat
  td_stop_loss :: rat
  td_target :: rat
  td_quantity :: rat
  td_total_amount :: rat
  td_leverage :: rat
  td_realized_pnl :: rat
  td_commission :: rat
  td_exit_reason :: string
  td_funding_cost :: rat

datatype profit_factor = No_Trades_Factor | Infinite_Factor | Profit_Factor rat

record bt_result =
  br_initial_equity :: rat
  br_final_equity :: rat
  br_trades :: "trade_record list"
  br_rejected_signals :: nat
  br_open_positions_at_end :: nat
  br_max_drawdown_percent :: rat
  br_win_rate_percent :: rat
  br_profit_factor :: profit_factor
  br_total_return_percent :: rat
  br_max_concurrent_positions :: nat

subsection \<open>Costs\<close>

record cost_model =
  cm_commission :: rat
  cm_spread :: rat
  cm_slippage :: rat
  cm_funding_rate :: rat

definition cost_model_make :: "rat \<Rightarrow> rat \<Rightarrow> rat \<Rightarrow> rat \<Rightarrow> cost_model res" where
  "cost_model_make commission_percent spread slippage funding_rate =
     guard (commission_percent < 0) (ValueError ''commission_percent must be non-negative'')
     (guard (spread < 0) (ValueError ''spread_percent must be non-negative'')
     (guard (slippage < 0) (ValueError ''slippage_percent must be non-negative'')
       (Inr \<lparr>cm_commission = commission_percent, cm_spread = spread, cm_slippage = slippage, cm_funding_rate = funding_rate\<rparr>)))"

definition unsupported_direction :: "string \<Rightarrow> 'a res" where
  "unsupported_direction d = Inl (ValueError (''Unsupported direction: '' @ d))"

definition cost_entry_price :: "cost_model \<Rightarrow> string \<Rightarrow> rat \<Rightarrow> rat res" where
  "cost_entry_price m direction raw =
     (let half_spread = ddiv (cm_spread m) 200; slippage = ddiv (cm_slippage m) 100 in
      if direction = ''LONG'' then Inr (dmul raw (dadd (dadd 1 half_spread) slippage))
      else if direction = ''SHORT'' then Inr (dmul raw (dsub (dsub 1 half_spread) slippage))
      else unsupported_direction direction)"

definition cost_exit_price :: "cost_model \<Rightarrow> string \<Rightarrow> rat \<Rightarrow> rat res" where
  "cost_exit_price m direction raw =
     (let half_spread = ddiv (cm_spread m) 200; slippage = ddiv (cm_slippage m) 100 in
      if direction = ''LONG'' then Inr (dmul raw (dsub (dsub 1 half_spread) slippage))
      else if direction = ''SHORT'' then Inr (dmul raw (dadd (dadd 1 half_spread) slippage))
      else unsupported_direction direction)"

definition cost_commission :: "cost_model \<Rightarrow> rat \<Rightarrow> rat" where
  "cost_commission m notional = ddiv (dmul notional (cm_commission m)) 100"

definition cost_funding :: "cost_model \<Rightarrow> string \<Rightarrow> rat \<Rightarrow> int \<Rightarrow> rat res" where
  "cost_funding m direction notional mins =
     guard (mins < 0) (ValueError ''minutes must be non-negative'')
     (let daily = ddiv (dmul notional (cm_funding_rate m)) 100;
          amount = ddiv (dmul daily (of_int mins)) 1440
      in if direction = ''LONG'' then Inr amount
         else if direction = ''SHORT'' then Inr (dneg amount)
         else unsupported_direction direction)"

subsection \<open>Metrics\<close>

fun drawdown_loop :: "rat list \<Rightarrow> rat \<Rightarrow> rat \<Rightarrow> rat" where
  "drawdown_loop [] peak worst = worst"
| "drawdown_loop (e # es) peak worst =
     (let peak1 = (if peak < e then e else peak);
          drawdown = dmul (ddiv (dsub peak1 e) peak1) 100
      in drawdown_loop es peak1 (if 0 < peak1 \<and> worst < drawdown then drawdown else worst))"

definition win_rate :: "trade_record list \<Rightarrow> rat" where
  "win_rate trades =
     (if trades = [] then 0
      else dmul (ddiv (of_nat (length (filter (\<lambda>t. 0 < td_realized_pnl t) trades))) (of_nat (length trades))) 100)"

definition calculate_metrics ::
  "rat \<Rightarrow> rat \<Rightarrow> trade_record list \<Rightarrow> rat list \<Rightarrow> (rat \<times> profit_factor \<times> rat \<times> rat) res" where
  "calculate_metrics initial final trades curve =
     guard (initial \<le> 0) (ValueError ''initial_equity must be positive'')
     (let gross_profit = dsum (map td_realized_pnl (filter (\<lambda>t. 0 < td_realized_pnl t) trades));
          gross_loss = dsum (map (\<lambda>t. dneg (td_realized_pnl t)) (filter (\<lambda>t. td_realized_pnl t < 0) trades));
          factor = (if 0 < gross_loss then Profit_Factor (ddiv gross_profit gross_loss)
                    else if gross_profit = 0 then No_Trades_Factor else Infinite_Factor)
      in Inr (win_rate trades, factor, drawdown_loop curve initial 0, dmul (ddiv (dsub final initial) initial) 100))"

text \<open>Win rate and drawdown are percentages.\<close>

lemma percent_range:
  assumes "0 \<le> a" "a \<le> b" "0 < b"
  shows "0 \<le> dmul (ddiv a b) 100 \<and> dmul (ddiv a b) 100 \<le> 100"
proof -
  have "a / b \<le> 1" using assms by (simp add: field_simps)
  then have "ddiv a b \<le> 1" unfolding ddiv_def by (rule dec.le_fixed) simp
  then have "ddiv a b * 100 \<le> 100" by simp
  then have "dmul (ddiv a b) 100 \<le> 100" unfolding dmul_def by (rule dec.le_fixed) simp
  with assms show ?thesis by simp
qed

lemma win_rate_range: "0 \<le> win_rate trades \<and> win_rate trades \<le> 100"
proof (cases "trades = []")
  case False
  have "(of_nat (length (filter (\<lambda>t. 0 < td_realized_pnl t) trades)) :: rat) \<le> of_nat (length trades)"
    by (simp only: of_nat_le_iff length_filter_le)
  with False show ?thesis unfolding win_rate_def by (simp only: if_False) (rule percent_range, simp_all)
qed (simp add: win_rate_def)

lemma drawdown_nonneg: "0 \<le> worst \<Longrightarrow> 0 \<le> drawdown_loop es peak worst"
  by (induction es peak worst rule: drawdown_loop.induct) (auto simp: Let_def)

subsection \<open>Opening and closing\<close>

definition time_plus :: "int \<Rightarrow> datetime \<Rightarrow> datetime" where
  "time_plus d t = (case t of Aware x \<Rightarrow> Aware (x + d) | Naive x \<Rightarrow> Naive (x + d))"

lemma instant_time_plus [simp]: "instant (time_plus d t) = instant t + d"
  by (cases t) (simp_all add: time_plus_def)

record open_trade =
  et_position_id :: string
  et_signal :: strategy_signal
  et_entry_time :: datetime
  et_entry_price :: rat
  et_quantity :: rat
  et_total_amount :: rat
  et_leverage :: rat
  et_entry_commission :: rat
  et_funding_cost :: rat

definition trade_risk_cash :: "open_trade \<Rightarrow> rat res" where
  "trade_risk_cash t =
     candidate_risk_amount (et_total_amount t) (et_entry_price t) (sg_stop_loss (et_signal t)) (et_leverage t)"

text \<open>The answer is a trade, or the reason there is none. A bar that opens at zero divides by zero.\<close>

definition open_trade_with_reason ::
  "bt_config \<Rightarrow> cost_model \<Rightarrow> string \<Rightarrow> strategy_signal \<Rightarrow> candle \<Rightarrow> rat \<Rightarrow> open_trade list \<Rightarrow> (string + open_trade) res" where
  "open_trade_with_reason cfg costs pid sg bar equity existing =
     res_bind (cost_entry_price costs (sg_direction sg) (cd_open bar)) (\<lambda>entry.
     guard (entry = 0) (OtherError ''DivisionByZero'')
     (let distance = ddiv (dabs (dsub entry (sg_stop_loss sg))) entry in
      if distance \<le> 0 \<or> sg_stop_loss sg \<le> 0 then Inr (Inl ''INVALID_STOP_DISTANCE'')
      else
        res_bind (risk_budget_amount equity (bc_risk_per_trade cfg)) (\<lambda>risk_cash.
        res_bind (res_map trade_risk_cash existing) (\<lambda>risks.
        res_bind (risk_budget_amount equity (bc_max_aggregate_risk cfg)) (\<lambda>aggregate_budget.
        if aggregate_budget < dadd (dsum risks) risk_cash then Inr (Inl ''AGGREGATE_RISK_LIMIT'')
        else
          let amount = ddiv risk_cash distance; current_capital = dsum (map et_total_amount existing) in
          res_bind (risk_budget_amount equity (bc_max_futures_capital cfg)) (\<lambda>max_capital.
          if max_capital < dadd current_capital amount then Inr (Inl ''FUTURES_CAPITAL_LIMIT'')
          else Inr (Inr \<lparr>et_position_id = pid, et_signal = sg, et_entry_time = cd_timestamp bar, et_entry_price = entry,
            et_quantity = ddiv amount entry, et_total_amount = amount, et_leverage = 1,
            et_entry_commission = cost_commission costs amount, et_funding_cost = 0\<rparr>)))))))"

definition trade_pnl :: "open_trade \<Rightarrow> rat \<Rightarrow> rat" where
  "trade_pnl t exit_price =
     (let move = ddiv (dsub exit_price (et_entry_price t)) (et_entry_price t);
          signed = (if sg_direction (et_signal t) = ''SHORT'' then dneg move else move)
      in dmul (dmul (et_total_amount t) signed) (et_leverage t))"

definition intrabar_exit :: "open_trade \<Rightarrow> candle \<Rightarrow> (rat \<times> string) option" where
  "intrabar_exit t bar =
     (let sl = sg_stop_loss (et_signal t); tp = sg_target (et_signal t) in
      if sg_direction (et_signal t) = ''LONG'' then
        if cd_low bar \<le> sl then Some (sl, ''STOP_LOSS'')
        else if 0 < tp \<and> tp \<le> cd_high bar then Some (tp, ''TAKE_PROFIT'') else None
      else
        if sl \<le> cd_high bar then Some (sl, ''STOP_LOSS'')
        else if 0 < tp \<and> cd_low bar \<le> tp then Some (tp, ''TAKE_PROFIT'') else None)"

definition trade_record_of ::
  "string \<Rightarrow> open_trade \<Rightarrow> candle \<Rightarrow> rat \<Rightarrow> rat \<Rightarrow> rat \<Rightarrow> string \<Rightarrow> trade_record" where
  "trade_record_of symbol t bar exit_price net_pnl exit_commission reason =
     \<lparr>td_position_id = et_position_id t, td_symbol = symbol, td_direction = sg_direction (et_signal t),
      td_setup = sg_setup (et_signal t), td_entry_time = et_entry_time t, td_entry_price = et_entry_price t,
      td_exit_time = time_plus (15 * 60 * 10 ^ 6) (cd_timestamp bar), td_exit_price = exit_price,
      td_stop_loss = sg_stop_loss (et_signal t), td_target = sg_target (et_signal t), td_quantity = et_quantity t,
      td_total_amount = et_total_amount t, td_leverage = et_leverage t, td_realized_pnl = net_pnl,
      td_commission = dadd (et_entry_commission t) exit_commission, td_exit_reason = reason,
      td_funding_cost = et_funding_cost t\<rparr>"

text \<open>Closing at a raw price: the equity after it and the record.\<close>

definition close_trade ::
  "cost_model \<Rightarrow> string \<Rightarrow> open_trade \<Rightarrow> candle \<Rightarrow> rat \<Rightarrow> string \<Rightarrow> rat \<Rightarrow> (rat \<times> trade_record) res" where
  "close_trade costs symbol t bar raw reason equity =
     res_bind (cost_exit_price costs (sg_direction (et_signal t)) raw) (\<lambda>exit_price.
       let gross = trade_pnl t exit_price;
           exit_commission = cost_commission costs (et_total_amount t);
           net = dsub (dsub (dsub gross (et_entry_commission t)) exit_commission) (et_funding_cost t)
       in Inr (dadd equity (dsub gross exit_commission), trade_record_of symbol t bar exit_price net exit_commission reason))"

fun exit_loop ::
  "cost_model \<Rightarrow> string \<Rightarrow> candle \<Rightarrow> open_trade list \<Rightarrow> rat \<Rightarrow> (rat \<times> open_trade list \<times> trade_record list) res" where
  "exit_loop costs symbol bar [] equity = Inr (equity, [], [])"
| "exit_loop costs symbol bar (t # ts) equity =
     res_bind (cost_funding costs (sg_direction (et_signal t)) (et_total_amount t) 15) (\<lambda>funding.
       let t1 = t\<lparr>et_funding_cost := dadd (et_funding_cost t) funding\<rparr>; equity1 = dsub equity funding in
       case intrabar_exit t1 bar of
         None \<Rightarrow> res_bind (exit_loop costs symbol bar ts equity1) (\<lambda>(e, rem, recs). Inr (e, t1 # rem, recs))
       | Some (price, reason) \<Rightarrow>
           res_bind (close_trade costs symbol t1 bar price reason equity1) (\<lambda>(equity2, r).
           res_bind (exit_loop costs symbol bar ts equity2) (\<lambda>(e, rem, recs). Inr (e, rem, r # recs))))"

fun end_of_test_loop ::
  "cost_model \<Rightarrow> string \<Rightarrow> candle \<Rightarrow> open_trade list \<Rightarrow> rat \<Rightarrow> (rat \<times> trade_record list) res" where
  "end_of_test_loop costs symbol bar [] equity = Inr (equity, [])"
| "end_of_test_loop costs symbol bar (t # ts) equity =
     res_bind (close_trade costs symbol t bar (cd_close bar) ''END_OF_TEST'' equity) (\<lambda>(equity1, r).
     res_bind (end_of_test_loop costs symbol bar ts equity1) (\<lambda>(e, recs). Inr (e, r # recs)))"

subsection \<open>The run\<close>

record bt_event =
  bv_timestamp :: datetime
  bv_code :: string
  bv_reasons :: "string list"
  bv_signal :: "strategy_signal option"

record bt_engine =
  en_config :: bt_config
  en_rules :: strategy_rules
  en_costs :: cost_model
  en_ids :: "nat \<Rightarrow> string"

definition engine_make :: "bt_config \<Rightarrow> strategy_rules \<Rightarrow> (nat \<Rightarrow> string) \<Rightarrow> bt_engine res" where
  "engine_make cfg rules ids =
     res_bind (cost_model_make (bc_commission cfg) (bc_spread cfg) (bc_slippage cfg) (bc_funding_rate cfg)) (\<lambda>costs.
       Inr \<lparr>en_config = cfg, en_rules = rules, en_costs = costs, en_ids = ids\<rparr>)"

record bt_state =
  bs_equity :: rat
  bs_curve :: "rat list"
  bs_trades :: "trade_record list"
  bs_open :: "open_trade list"
  bs_pending :: "strategy_signal option"
  bs_rejected :: nat
  bs_max_concurrent :: nat
  bs_events :: "bt_event list"

definition emit :: "datetime \<Rightarrow> string \<Rightarrow> strategy_signal option \<Rightarrow> string list \<Rightarrow> bt_state \<Rightarrow> bt_state" where
  "emit t code sg reasons s = s\<lparr>bs_events := bs_events s @
     [\<lparr>bv_timestamp = t, bv_code = code, bv_reasons = reasons, bv_signal = sg\<rparr>]\<rparr>"

fun strategy_failure_reason :: "exn \<Rightarrow> string" where
  "strategy_failure_reason (ValueError m) =
     (if m = ''No aligned HTF direction'' then ''NO_ALIGNED_HTF_DIRECTION''
      else if m = ''No approved setup'' then ''NO_APPROVED_SETUP''
      else if m = ''No valid entry/SL/target levels'' then ''NO_VALID_LEVELS'' else ''STRATEGY_EVALUATION_ERROR'')"
| "strategy_failure_reason e = ''STRATEGY_EVALUATION_ERROR''"

fun engine_catches :: "exn \<Rightarrow> bool" where
  "engine_catches (ValueError m) = True"
| "engine_catches (ValueErrorV m v) = True"
| "engine_catches (SymbolMappingError m) = True"
| "engine_catches (OtherError m) = (m = ''DivisionByZero'')"
| "engine_catches e = False"

definition in_test :: "datetime option \<Rightarrow> candle \<Rightarrow> bool" where
  "in_test start bar = (case start of None \<Rightarrow> True | Some t \<Rightarrow> instant t \<le> instant (cd_timestamp bar))"

definition enter_pending :: "bt_engine \<Rightarrow> datetime option \<Rightarrow> candle \<Rightarrow> bt_state \<Rightarrow> bt_state res" where
  "enter_pending E start bar s =
     (case bs_pending s of
        None \<Rightarrow> Inr s
      | Some sg \<Rightarrow>
          if \<not> in_test start bar then Inr s
          else if sg_direction sg = ''SHORT'' \<and> \<not> bc_allow_short (en_config E) then
            Inr ((emit (cd_timestamp bar) ''ENTRY_REJECT'' (Some sg) [''SHORT_DISABLED''] s)
              \<lparr>bs_rejected := bs_rejected s + 1, bs_pending := None\<rparr>)
          else
            res_bind (open_trade_with_reason (en_config E) (en_costs E)
                (en_ids E (length (bs_open s) + length (bs_trades s))) sg bar (bs_equity s) (bs_open s)) (\<lambda>r. case r of
              Inr t \<Rightarrow> Inr ((emit (cd_timestamp bar) ''TRADE_OPENED'' (Some sg) [] s)
                \<lparr>bs_equity := dsub (bs_equity s) (et_entry_commission t), bs_open := bs_open s @ [t],
                 bs_max_concurrent := max (bs_max_concurrent s) (length (bs_open s @ [t])), bs_pending := None\<rparr>)
            | Inl reason \<Rightarrow> Inr ((emit (cd_timestamp bar) ''ENTRY_REJECT'' (Some sg) [reason] s)\<lparr>bs_pending := None\<rparr>)))"

definition manage_bar :: "bt_engine \<Rightarrow> string \<Rightarrow> candle \<Rightarrow> bt_state \<Rightarrow> bt_state res" where
  "manage_bar E symbol bar s =
     res_bind (exit_loop (en_costs E) symbol bar (bs_open s) (bs_equity s)) (\<lambda>(equity, rem, recs).
       Inr (s\<lparr>bs_equity := equity, bs_open := rem, bs_trades := bs_trades s @ recs, bs_curve := bs_curve s @ [equity]\<rparr>))"

definition decision_time :: "candle \<Rightarrow> datetime" where
  "decision_time bar = time_plus (timeframe_duration ''15m'') (cd_timestamp bar)"

definition decide ::
  "bt_engine \<Rightarrow> datetime option \<Rightarrow> candle \<Rightarrow> (string, market_snapshot) dict option \<Rightarrow> bt_state \<Rightarrow> bt_state res" where
  "decide E start bar snaps s =
     (if \<not> in_test start bar then Inr s
      else case snaps of
        None \<Rightarrow> Inr (emit (decision_time bar) ''DECISION_NO_SNAPSHOT'' None [] s)
      | Some d \<Rightarrow>
          (case (dget d ''1d'', dget d ''4h'', dget d ''1h'', dget d ''15m'') of
             (Some daily, Some four, Some one, Some fifteen) \<Rightarrow>
               (case evaluate_strategy daily four one fifteen (en_rules E) of
                  Inl e \<Rightarrow>
                    if engine_catches e
                    then Inr ((emit (decision_time bar) ''STRATEGY_PRE_SIGNAL_REJECT'' None [strategy_failure_reason e] s)
                      \<lparr>bs_rejected := bs_rejected s + 1\<rparr>)
                    else Inl e
                | Inr sg \<Rightarrow>
                    if sg_state sg = READY_FOR_RISK_REVIEW
                    then Inr ((emit (decision_time bar) ''READY_FOR_RISK_REVIEW'' (Some sg) [] s)\<lparr>bs_pending := Some sg\<rparr>)
                    else Inr ((emit (decision_time bar) ''STRATEGY_SIGNAL_REJECT'' (Some sg) (sg_reasons sg) s)
                      \<lparr>bs_rejected := bs_rejected s + 1\<rparr>))
           | _ \<Rightarrow> Inl (KeyError ''1d'')))"

definition engine_bar ::
  "bt_engine \<Rightarrow> string \<Rightarrow> datetime option \<Rightarrow> candle \<Rightarrow> bt_state \<times> snapshot_cursor \<Rightarrow> (bt_state \<times> snapshot_cursor) res" where
  "engine_bar E symbol start bar x =
     res_bind (enter_pending E start bar (fst x)) (\<lambda>s.
     res_bind (manage_bar E symbol bar s) (\<lambda>s.
       case snapshots_at (decision_time bar) (snd x) of
         (u, Inl e) \<Rightarrow> Inl e
       | (u, Inr snaps) \<Rightarrow> res_bind (decide E start bar snaps s) (\<lambda>s. Inr (s, u))))"

fun engine_loop ::
  "bt_engine \<Rightarrow> string \<Rightarrow> datetime option \<Rightarrow> candle list \<Rightarrow> bt_state \<times> snapshot_cursor \<Rightarrow> (bt_state \<times> snapshot_cursor) res" where
  "engine_loop E symbol start [] x = Inr x"
| "engine_loop E symbol start (bar # bars) x = res_bind (engine_bar E symbol start bar x) (engine_loop E symbol start bars)"

text \<open>The message of the missing timeframes lists them between commas.\<close>

definition prepare_rows :: "string \<Rightarrow> candle list \<Rightarrow> candle list" where
  "prepare_rows symbol rows = ordered (filter (\<lambda>c. cd_symbol c = symbol) rows)"

definition prepare :: "string \<Rightarrow> (string, candle list) dict \<Rightarrow> (string, candle list) dict res" where
  "prepare symbol source =
     (let missing = filter (\<lambda>tf. dget source tf = None) [''15m'', ''1d'', ''1h'', ''4h''] in
      guard (missing \<noteq> []) (ValueError (''Missing required timeframes: '' @ join '', '' missing))
      (res_map (\<lambda>tf. let rows = prepare_rows symbol (case dget source tf of None \<Rightarrow> [] | Some rs \<Rightarrow> rs) in
           guard (rows = []) (ValueError (''No candles for '' @ symbol @ '' at '' @ tf)) (Inr (tf, rows)))
         (map fst known_timeframes)))"

definition bt_start :: "bt_engine \<Rightarrow> bt_state" where
  "bt_start E = \<lparr>bs_equity = bc_initial_equity (en_config E), bs_curve = [bc_initial_equity (en_config E)], bs_trades = [],
     bs_open = [], bs_pending = None, bs_rejected = 0, bs_max_concurrent = 0, bs_events = []\<rparr>"

definition finish_run :: "bt_engine \<Rightarrow> string \<Rightarrow> candle \<Rightarrow> bt_state \<Rightarrow> bt_state res" where
  "finish_run E symbol final_bar s0 =
     (let s = (if bs_pending s0 = None then s0
               else emit (decision_time final_bar) ''PENDING_SIGNAL_END_OF_TEST'' (bs_pending s0) [] s0) in
      if bs_open s = [] then Inr s
      else res_bind (end_of_test_loop (en_costs E) symbol final_bar (bs_open s) (bs_equity s)) (\<lambda>(equity, recs).
        Inr (s\<lparr>bs_equity := equity, bs_trades := bs_trades s @ recs, bs_open := [], bs_curve := bs_curve s @ [equity]\<rparr>)))"

definition engine_run ::
  "bt_engine \<Rightarrow> string \<Rightarrow> (string, candle list) dict \<Rightarrow> datetime option \<Rightarrow> (bt_result \<times> bt_event list) res" where
  "engine_run E symbol source start =
     res_bind (prepare symbol source) (\<lambda>candles.
     let fifteen = the (dget candles ''15m'') in
     res_bind (engine_loop E symbol start fifteen (bt_start E, cursor_new symbol candles)) (\<lambda>x.
     res_bind (finish_run E symbol (last fifteen) (fst x)) (\<lambda>s.
     res_bind (calculate_metrics (bc_initial_equity (en_config E)) (bs_equity s) (bs_trades s) (bs_curve s))
       (\<lambda>(wins, factor, drawdown, total_return).
       Inr (\<lparr>br_initial_equity = bc_initial_equity (en_config E), br_final_equity = bs_equity s, br_trades = bs_trades s,
              br_rejected_signals = bs_rejected s, br_open_positions_at_end = length (bs_open s),
              br_max_drawdown_percent = drawdown, br_win_rate_percent = wins, br_profit_factor = factor,
              br_total_return_percent = total_return, br_max_concurrent_positions = bs_max_concurrent s\<rparr>, bs_events s)))))"

subsection \<open>A run only appends trades\<close>

lemma exit_loop_times:
  assumes "exit_loop costs symbol bar ts e = Inr (e', rem, recs)"
  shows "\<forall>r \<in> set recs. instant (td_exit_time r) = instant (cd_timestamp bar) + 15 * 60 * 10 ^ 6"
  using assms
proof (induction ts arbitrary: e e' rem recs)
  case (Cons t ts)
  from Cons.prems show ?case
    by (auto simp: res_bind_Inr_iff Let_def close_trade_def trade_record_of_def split: option.splits
        dest!: Cons.IH)
qed simp

lemma enter_pending_trades: "enter_pending E start bar s = Inr s' \<Longrightarrow> bs_trades s' = bs_trades s"
  by (auto simp: enter_pending_def emit_def res_bind_def split: option.splits if_splits sum.splits)

lemma decide_trades: "decide E start bar snaps s = Inr s' \<Longrightarrow> bs_trades s' = bs_trades s"
  by (auto simp: decide_def emit_def split: option.splits if_splits sum.splits)

lemma engine_bar_trades:
  assumes "engine_bar E symbol start bar x = Inr y"
  shows "\<exists>recs. bs_trades (fst y) = bs_trades (fst x) @ recs \<and>
    (\<forall>r \<in> set recs. instant (td_exit_time r) = instant (cd_timestamp bar) + 15 * 60 * 10 ^ 6)"
proof -
  obtain s1 s2 u snaps where s: "enter_pending E start bar (fst x) = Inr s1" "manage_bar E symbol bar s1 = Inr s2"
    "decide E start bar snaps s2 = Inr (fst y)"
    using assms by (auto simp: engine_bar_def res_bind_def split: prod.splits sum.splits)
  from s(2) obtain e rem recs where m: "exit_loop (en_costs E) symbol bar (bs_open s1) (bs_equity s1) = Inr (e, rem, recs)"
    "bs_trades s2 = bs_trades s1 @ recs"
    by (auto simp: manage_bar_def res_bind_Inr_iff)
  show ?thesis using enter_pending_trades [OF s(1)] decide_trades [OF s(3)] m exit_loop_times [OF m(1)] by auto
qed

lemma engine_loop_trades:
  assumes "engine_loop E symbol start bars x = Inr y"
  shows "\<exists>recs. bs_trades (fst y) = bs_trades (fst x) @ recs \<and>
    (\<forall>r \<in> set recs. \<exists>bar \<in> set bars. instant (td_exit_time r) = instant (cd_timestamp bar) + 15 * 60 * 10 ^ 6)"
  using assms
proof (induction bars arbitrary: x)
  case (Cons bar bars)
  then obtain z where z: "engine_bar E symbol start bar x = Inr z" "engine_loop E symbol start bars z = Inr y"
    by (auto simp: res_bind_Inr_iff)
  from engine_bar_trades [OF z(1)] Cons.IH [OF z(2)] show ?case by fastforce
qed simp

lemma engine_loop_append:
  "engine_loop E symbol start (xs @ ys) x = res_bind (engine_loop E symbol start xs x) (engine_loop E symbol start ys)"
  by (induction xs arbitrary: x) (auto simp: res_bind_def split: sum.split)

subsection \<open>No look-ahead\<close>

lemma engine_bar_agree:
  assumes fit: "candles_fit symbol c1" "candles_fit symbol c2" and agree: "agree_until T c1 c2"
    and now: "instant (decision_time bar) \<le> T"
    and fine: "cursor_fine symbol c1 u1" "cursor_fine symbol c2 u2"
  shows "(\<exists>e. engine_bar E symbol start bar (s, u1) = Inl e \<and> engine_bar E symbol start bar (s, u2) = Inl e) \<or>
    (\<exists>s' v1 v2. engine_bar E symbol start bar (s, u1) = Inr (s', v1) \<and> engine_bar E symbol start bar (s, u2) = Inr (s', v2) \<and>
       cursor_fine symbol c1 v1 \<and> cursor_fine symbol c2 v2)"
proof -
  obtain v1 r1 where v1: "snapshots_at (decision_time bar) u1 = (v1, Inr r1)" "cursor_fine symbol c1 v1"
    "snapshots_at_reference symbol c1 (decision_time bar) = Inr r1"
    using cursor_fine_step [OF fit(1) fine(1)] by metis
  obtain v2 r2 where v2: "snapshots_at (decision_time bar) u2 = (v2, Inr r2)" "cursor_fine symbol c2 v2"
    "snapshots_at_reference symbol c2 (decision_time bar) = Inr r2"
    using cursor_fine_step [OF fit(2) fine(2)] by metis
  have "r1 = r2" using reference_agrees [OF agree now, of symbol] v1(3) v2(3) by simp
  then show ?thesis using v1 v2 by (auto simp: engine_bar_def res_bind_def split: sum.split)
qed

lemma engine_loop_agree:
  assumes fit: "candles_fit symbol c1" "candles_fit symbol c2" and agree: "agree_until T c1 c2"
    and now: "\<forall>bar \<in> set bars. instant (decision_time bar) \<le> T"
    and fine: "cursor_fine symbol c1 u1" "cursor_fine symbol c2 u2"
  shows "(\<exists>e. engine_loop E symbol start bars (s, u1) = Inl e \<and> engine_loop E symbol start bars (s, u2) = Inl e) \<or>
    (\<exists>s' v1 v2. engine_loop E symbol start bars (s, u1) = Inr (s', v1) \<and> engine_loop E symbol start bars (s, u2) = Inr (s', v2))"
  using now fine
proof (induction bars arbitrary: s u1 u2)
  case (Cons bar bars)
  have "instant (decision_time bar) \<le> T" using Cons.prems(1) by simp
  from engine_bar_agree [OF fit agree this Cons.prems(2,3), of E start s] show ?case
  proof (elim disjE exE conjE)
    fix s' v1 v2
    assume b: "engine_bar E symbol start bar (s, u1) = Inr (s', v1)" "engine_bar E symbol start bar (s, u2) = Inr (s', v2)"
      "cursor_fine symbol c1 v1" "cursor_fine symbol c2 v2"
    have "\<forall>bar \<in> set bars. instant (decision_time bar) \<le> T" using Cons.prems(1) by simp
    from Cons.IH [OF this b(3,4), of s'] show ?case using b(1,2) by simp
  qed simp
qed simp

definition source_fits :: "string \<Rightarrow> (string, candle list) dict \<Rightarrow> bool" where
  "source_fits symbol source \<longleftrightarrow> (\<forall>tf \<in> set timeframe_order. \<exists>rows. dget source tf = Some rows \<and>
     distinct (map (instant \<circ> cd_timestamp) (filter (\<lambda>c. cd_symbol c = symbol) rows)) \<and>
     (\<forall>c \<in> set rows. cd_timeframe c = tf))"

lemma prepare_rows_fit:
  assumes "distinct (map (instant \<circ> cd_timestamp) (filter (\<lambda>c. cd_symbol c = symbol) rows))" "\<forall>c \<in> set rows. cd_timeframe c = tf"
  shows "rows_fit symbol tf (prepare_rows symbol rows)"
proof -
  let ?rs = "prepare_rows symbol rows"
  have "sorted (map (instant \<circ> cd_timestamp) ?rs)" unfolding prepare_rows_def by (rule sorted_ordered)
  moreover have "distinct (map (instant \<circ> cd_timestamp) ?rs)"
    using assms(1) by (simp add: prepare_rows_def ordered_def distinct_map)
  ultimately have "sorted_wrt (<) (map (instant \<circ> cd_timestamp) ?rs)" by (simp add: strict_sorted_iff)
  then have "chronological ?rs" by (simp add: chronological_def sorted_wrt_map comp_def)
  then show ?thesis using assms(2) by (auto simp: rows_fit_def prepare_rows_def)
qed

lemma prepare_parts:
  assumes "prepare symbol source = Inr candles" "tf \<in> set timeframe_order"
  shows "\<exists>rows. dget source tf = Some rows \<and> dget candles tf = Some (prepare_rows symbol rows) \<and> prepare_rows symbol rows \<noteq> []"
  using assms
  by (auto simp: prepare_def guard_Inr_iff res_bind_Inr_iff Let_def known_timeframes_def timeframe_order_def split: if_splits)

lemma prepare_fit:
  assumes "prepare symbol source = Inr candles" "source_fits symbol source"
  shows "candles_fit symbol candles"
  unfolding candles_fit_def
proof
  fix tf assume tf: "tf \<in> set timeframe_order"
  obtain rows where r: "dget source tf = Some rows" "dget candles tf = Some (prepare_rows symbol rows)"
    using prepare_parts [OF assms(1) tf] by blast
  moreover have "rows_fit symbol tf (prepare_rows symbol rows)"
    using assms(2) tf r(1) prepare_rows_fit unfolding source_fits_def by fastforce
  ultimately show "\<exists>rows. dget candles tf = Some rows \<and> rows_fit symbol tf rows" by blast
qed

lemma end_of_test_reasons:
  assumes "end_of_test_loop costs symbol bar ts e = Inr (e', recs)"
  shows "\<forall>r \<in> set recs. td_exit_reason r = ''END_OF_TEST''"
  using assms
proof (induction ts arbitrary: e e' recs)
  case (Cons t ts)
  from Cons.prems show ?case
    by (auto simp: res_bind_Inr_iff Let_def close_trade_def trade_record_of_def dest!: Cons.IH)
qed simp

lemma finish_trades:
  assumes "finish_run E symbol bar s = Inr s'"
  shows "\<exists>recs. bs_trades s' = bs_trades s @ recs \<and> (\<forall>r \<in> set recs. td_exit_reason r = ''END_OF_TEST'')"
proof -
  let ?s = "if bs_pending s = None then s
    else emit (decision_time bar) ''PENDING_SIGNAL_END_OF_TEST'' (bs_pending s) [] s"
  have t: "bs_trades ?s = bs_trades s" by (simp add: emit_def)
  show ?thesis
  proof (cases "bs_open ?s = []")
    case True
    then show ?thesis using assms t by (auto simp: finish_run_def Let_def)
  next
    case False
    with assms obtain e recs where r: "end_of_test_loop (en_costs E) symbol bar (bs_open ?s) (bs_equity ?s) = Inr (e, recs)"
      "bs_trades s' = bs_trades ?s @ recs"
      unfolding finish_run_def Let_def by (auto simp: res_bind_Inr_iff)
    then show ?thesis using end_of_test_reasons [OF r(1)] t by auto
  qed
qed

text \<open>A trade closed by the market by time \<open>T\<close>.\<close>

definition closed_by :: "int \<Rightarrow> trade_record \<Rightarrow> bool" where
  "closed_by T r \<longleftrightarrow> instant (td_exit_time r) \<le> T \<and> td_exit_reason r \<noteq> ''END_OF_TEST''"

text \<open>The trades closed by time \<open>T\<close> are those of the bars completed by then.\<close>

lemma run_trades_until:
  assumes run: "engine_run E symbol source start = Inr (r, evs)" and prep: "prepare symbol source = Inr candles"
    and rows: "dget candles ''15m'' = Some rows" "chronological rows"
  obtains y where
    "engine_loop E symbol start (completed (timeframe_duration ''15m'') T rows) (bt_start E, cursor_new symbol candles) = Inr y"
    "filter (closed_by T) (br_trades r) = filter (closed_by T) (bs_trades (fst y))"
proof -
  let ?d = "timeframe_duration ''15m''" and ?x = "(bt_start E, cursor_new symbol candles)"
  let ?early = "completed ?d T rows" and ?late = "dropWhile (\<lambda>c. instant (cd_timestamp c) + ?d \<le> T) rows"
  have d: "?d = 15 * 60 * 10 ^ 6" by (simp add: timeframe_duration_def known_timeframes_def)
  have e: "?early = takeWhile (\<lambda>c. instant (cd_timestamp c) + ?d \<le> T) rows"
    using completed_split [OF rows(2), of 0 ?d T] by simp
  have split_rows: "rows = ?early @ ?late" by (simp add: e)
  have "completed ?d T rows = completed ?d T ?early @ completed ?d T ?late"
    by (subst split_rows) (simp only: completed_def filter_append)
  moreover have "completed ?d T ?early = ?early" by (simp add: completed_def)
  ultimately have "completed ?d T ?late = []" by simp
  then have late: "\<forall>c \<in> set ?late. T < instant (cd_timestamp c) + ?d"
    by (simp add: completed_def filter_empty_conv not_le)
  from run prep rows(1) obtain x s where x: "engine_loop E symbol start rows ?x = Inr x"
    "finish_run E symbol (last rows) (fst x) = Inr s" "br_trades r = bs_trades s"
    by (auto simp: engine_run_def res_bind_Inr_iff Let_def)
  from x(1) obtain y where y: "engine_loop E symbol start ?early ?x = Inr y" "engine_loop E symbol start ?late y = Inr x"
    by (subst (asm) split_rows) (auto simp: engine_loop_append res_bind_Inr_iff)
  from engine_loop_trades [OF y(2)] obtain recs where recs: "bs_trades (fst x) = bs_trades (fst y) @ recs"
    "\<forall>r \<in> set recs. \<exists>bar \<in> set ?late. instant (td_exit_time r) = instant (cd_timestamp bar) + 15 * 60 * 10 ^ 6" by blast
  from finish_trades [OF x(2)] obtain ends where ends: "bs_trades s = bs_trades (fst x) @ ends"
    "\<forall>r \<in> set ends. td_exit_reason r = ''END_OF_TEST''" by blast
  have "filter (closed_by T) recs = []" using recs(2) late d by (force simp: filter_empty_conv closed_by_def)
  moreover have "filter (closed_by T) ends = []" using ends(2) by (simp add: filter_empty_conv closed_by_def)
  ultimately show thesis using that [OF y(1)] recs(1) ends(1) x(3) by simp
qed

lemma run_no_look_ahead:
  assumes run: "engine_run E symbol src1 start = Inr (r1, e1)" "engine_run E symbol src2 start = Inr (r2, e2)"
    and fits_both: "source_fits symbol src1" "source_fits symbol src2"
    and same: "\<And>tf. tf \<in> set timeframe_order \<Longrightarrow>
      completed (timeframe_duration tf) T (prepare_rows symbol (the (dget src1 tf))) =
      completed (timeframe_duration tf) T (prepare_rows symbol (the (dget src2 tf)))"
  shows "filter (closed_by T) (br_trades r1) = filter (closed_by T) (br_trades r2)"
proof -
  obtain c1 where c1: "prepare symbol src1 = Inr c1" using run(1) by (auto simp: engine_run_def res_bind_Inr_iff)
  obtain c2 where c2: "prepare symbol src2 = Inr c2" using run(2) by (auto simp: engine_run_def res_bind_Inr_iff)
  note fit = prepare_fit [OF c1 fits_both(1)] prepare_fit [OF c2 fits_both(2)]
  have agree: "agree_until T c1 c2"
    unfolding agree_until_def
  proof
    fix tf assume tf: "tf \<in> set timeframe_order"
    from prepare_parts [OF c1 tf] prepare_parts [OF c2 tf] same [OF tf]
    show "\<exists>r1 r2. dget c1 tf = Some r1 \<and> dget c2 tf = Some r2 \<and>
      completed (timeframe_duration tf) T r1 = completed (timeframe_duration tf) T r2" by force
  qed
  have m: "''15m'' \<in> set timeframe_order" by (simp add: timeframe_order_def)
  obtain w1 w2 where w: "dget c1 ''15m'' = Some w1" "dget c2 ''15m'' = Some w2" "chronological w1" "chronological w2"
    using fit m unfolding candles_fit_def rows_fit_def by meson
  let ?d = "timeframe_duration ''15m''"
  have bars: "completed ?d T w1 = completed ?d T w2"
    using agree m w(1,2) unfolding agree_until_def by (metis option.inject)
  have now: "\<forall>bar \<in> set (completed ?d T w1). instant (decision_time bar) \<le> T"
    by (simp add: completed_def decision_time_def)
  from run_trades_until [OF run(1) c1 w(1,3), of T] obtain y1 where
    y1: "engine_loop E symbol start (completed ?d T w1) (bt_start E, cursor_new symbol c1) = Inr y1"
      "filter (closed_by T) (br_trades r1) = filter (closed_by T) (bs_trades (fst y1))" .
  from run_trades_until [OF run(2) c2 w(2,4), of T] obtain y2 where
    y2: "engine_loop E symbol start (completed ?d T w2) (bt_start E, cursor_new symbol c2) = Inr y2"
      "filter (closed_by T) (br_trades r2) = filter (closed_by T) (bs_trades (fst y2))" .
  from engine_loop_agree [OF fit agree now cursor_fine_new [OF fit(1)] cursor_fine_new [OF fit(2)], of E start "bt_start E"]
  have "fst y1 = fst y2" using y1(1) y2(1) bars by auto
  then show ?thesis using y1(2) y2(2) by simp
qed

subsection \<open>A gap through the stop\<close>

definition no_costs :: cost_model where
  "no_costs = \<lparr>cm_commission = 0, cm_spread = 0, cm_slippage = 0, cm_funding_rate = 0\<rparr>"

lemma no_costs_simps:
  "cost_entry_price no_costs ''LONG'' p = Inr (rnd p)" "cost_exit_price no_costs ''LONG'' p = Inr (rnd p)"
  "cost_commission no_costs n = 0" "cost_funding no_costs ''LONG'' n 15 = Inr 0"
  by (simp_all add: no_costs_def cost_entry_price_def cost_exit_price_def cost_commission_def cost_funding_def guard_def
      Let_def dec_eval dec.zero)

lemma open_trade_fields:
  assumes "open_trade_with_reason cfg costs pid sg bar equity existing = Inr (Inr t)"
  shows "et_signal t = sg" "cost_entry_price costs (sg_direction sg) (cd_open bar) = Inr (et_entry_price t)"
    "et_leverage t = 1" "et_funding_cost t = 0" "et_entry_commission t = cost_commission costs (et_total_amount t)"
    "\<exists>risk. risk_budget_amount equity (bc_risk_per_trade cfg) = Inr risk \<and>
       et_total_amount t = ddiv risk (ddiv (dabs (dsub (et_entry_price t) (sg_stop_loss sg))) (et_entry_price t))"
    "0 < ddiv (dabs (dsub (et_entry_price t) (sg_stop_loss sg))) (et_entry_price t)"
    "0 < sg_stop_loss sg"
  using assms
  by (auto simp: open_trade_with_reason_def res_bind_Inr_iff guard_Inr_iff Let_def split: if_splits)

text \<open>
  The distance of the stop is taken without its sign, and a stop is filled at its own price: a long trade opened below its
  stop is closed in the same bar at the stop, above its entry.
\<close>

lemma gap_pays:
  assumes t: "open_trade_with_reason cfg no_costs pid sg bar equity existing = Inr (Inr t)" and dir: "sg_direction sg = ''LONG''"
    and gap: "0 < cd_open bar" "cd_open bar < sg_stop_loss sg" "cd_low bar \<le> cd_open bar"
    and exact: "rnd (cd_open bar) = cd_open bar" "rnd (sg_stop_loss sg) = sg_stop_loss sg"
    and risk: "0 < bc_risk_per_trade cfg"
  shows "\<exists>e r. exit_loop no_costs symbol bar [t] equity = Inr (e, [], [r]) \<and> td_exit_reason r = ''STOP_LOSS'' \<and>
    td_exit_price r = sg_stop_loss sg \<and> 0 < td_realized_pnl r"
proof -
  note f = open_trade_fields [OF t]
  have entry: "et_entry_price t = cd_open bar" using f(2) exact(1) by (simp add: dir no_costs_simps)
  obtain rk d where rk: "risk_budget_amount equity (bc_risk_per_trade cfg) = Inr rk" "0 < d" "et_total_amount t = ddiv rk d"
    using f(6,7) by blast
  then have "0 < rk" using risk by (auto simp: risk_budget_amount_def guard_Inr_iff)
  then have amount: "0 < et_total_amount t" using rk by simp
  let ?t = "t\<lparr>et_funding_cost := 0\<rparr>"
  have "0 < dsub (sg_stop_loss sg) (cd_open bar)" using gap(2) by simp
  then have pnl: "0 < trade_pnl ?t (sg_stop_loss sg)"
    using amount gap(1) by (simp add: trade_pnl_def f(1,3) entry dir Let_def)
  have rp: "rnd (trade_pnl ?t (sg_stop_loss sg)) = trade_pnl ?t (sg_stop_loss sg)"
    by (simp add: trade_pnl_def Let_def dmul_def dec.idem)
  have x: "intrabar_exit ?t bar = Some (sg_stop_loss sg, ''STOP_LOSS'')"
    using gap(2,3) by (simp add: intrabar_exit_def f(1) dir Let_def)
  have z: "dadd 0 0 = 0" "dsub v 0 = rnd v" for v by (simp_all add: dadd_def dsub_def dec.zero)
  show ?thesis
    using pnl rp by (simp add: f(1,4,5) dir no_costs_simps z x close_trade_def exact(2) trade_record_of_def Let_def)
qed

subsection \<open>Bounds of the drawdown\<close>

lemma drawdown_bounded:
  assumes "\<forall>e \<in> set es. 0 \<le> e \<and> rnd e = e" "0 < peak" "rnd peak = peak" "worst \<le> 100"
  shows "drawdown_loop es peak worst \<le> 100"
  using assms
proof (induction es peak worst rule: drawdown_loop.induct)
  case (2 e es peak worst)
  let ?p = "if peak < e then e else peak"
  have p: "0 < ?p" "rnd ?p = ?p" "0 \<le> e" "e \<le> ?p" using "2.prems" by auto
  have "dsub ?p e \<le> ?p" unfolding dsub_def by (rule dec.le_fixed [OF _ p(2)]) (use p(3) in simp)
  moreover have "0 \<le> dsub ?p e" using p(4) by simp
  ultimately have "dmul (ddiv (dsub ?p e) ?p) 100 \<le> 100" using percent_range p(1) by blast
  then show ?case using "2.IH" "2.prems" p by (simp add: Let_def)
qed simp

end
