(* ===== verification/Backtest_Diagnostics.thy ===== *)
theory Backtest_Diagnostics
  imports Backtest
begin

section \<open>Diagnostics of a backtest\<close>

text \<open>
  \<^verbatim>\<open>app/backtest/diagnostics.py\<close>: counters over the events the engine emits. The theorem ties them to the result of the run:
  every ready signal is an attempted entry or pending at the end, every opened trade is a trade of the result, and the
  rejected signals are those of the counters. A \<^verbatim>\<open>Counter\<close> is a dictionary that reads zero for a missing key.
\<close>

type_synonym counter = "(string, nat) dict"

definition count_of :: "counter \<Rightarrow> string \<Rightarrow> nat" where
  "count_of d k = (case dget d k of None \<Rightarrow> 0 | Some n \<Rightarrow> n)"

definition bump :: "string \<Rightarrow> counter \<Rightarrow> counter" where
  "bump k d = dput k (count_of d k + 1) d"

record diagnostics =
  dg_events :: counter
  dg_pre_signal :: counter
  dg_post_signal :: counter
  dg_entry :: counter
  dg_ready_directions :: counter
  dg_ready_setups :: counter
  dg_trade_directions :: counter
  dg_trade_setups :: counter
  dg_overlap :: nat

definition diagnostics_new :: diagnostics where
  "diagnostics_new = \<lparr>dg_events = [], dg_pre_signal = [], dg_post_signal = [], dg_entry = [], dg_ready_directions = [],
     dg_ready_setups = [], dg_trade_directions = [], dg_trade_setups = [], dg_overlap = 0\<rparr>"

definition record_event :: "bt_event \<Rightarrow> diagnostics \<Rightarrow> diagnostics" where
  "record_event e g0 =
     (let g = g0\<lparr>dg_events := bump (bv_code e) (dg_events g0)\<rparr>;
          bump_opt = (\<lambda>f d. case bv_signal e of None \<Rightarrow> d | Some sg \<Rightarrow> bump (f sg) d) in
      if bv_code e = ''STRATEGY_PRE_SIGNAL_REJECT''
      then g\<lparr>dg_pre_signal := fold bump (bv_reasons e) (dg_pre_signal g)\<rparr>
      else if bv_code e = ''STRATEGY_SIGNAL_REJECT''
      then g\<lparr>dg_overlap := (if 1 < length (bv_reasons e) then dg_overlap g + 1 else dg_overlap g),
             dg_post_signal := fold bump (bv_reasons e) (dg_post_signal g)\<rparr>
      else if bv_code e = ''ENTRY_REJECT''
      then g\<lparr>dg_entry := fold bump (bv_reasons e) (dg_entry g)\<rparr>
      else if bv_code e = ''READY_FOR_RISK_REVIEW''
      then g\<lparr>dg_ready_directions := bump_opt sg_direction (dg_ready_directions g),
             dg_ready_setups := bump_opt sg_setup (dg_ready_setups g)\<rparr>
      else if bv_code e = ''TRADE_OPENED''
      then g\<lparr>dg_trade_directions := bump_opt sg_direction (dg_trade_directions g),
             dg_trade_setups := bump_opt sg_setup (dg_trade_setups g)\<rparr>
      else g)"

record diagnostics_payload =
  dp_decision_points :: nat
  dp_snapshot_unavailable :: nat
  dp_pre_signal_rejections :: nat
  dp_pre_signal_reasons :: counter
  dp_post_signal_rejections :: nat
  dp_post_signal_reasons :: counter
  dp_multi_reason :: nat
  dp_ready :: nat
  dp_ready_by_direction :: counter
  dp_ready_by_setup :: counter
  dp_entry_attempts :: nat
  dp_entry_rejections :: nat
  dp_entry_reasons :: counter
  dp_trades_opened :: nat
  dp_trades_by_direction :: counter
  dp_trades_by_setup :: counter
  dp_pending_at_end :: nat
  dp_legacy_rejected :: nat

definition sorted_items :: "counter \<Rightarrow> counter" where
  "sorted_items d = sort_key fst d"

definition to_payload :: "diagnostics \<Rightarrow> diagnostics_payload" where
  "to_payload g =
     (let n = count_of (dg_events g);
          decision_points = sum_list (map n [''DECISION_NO_SNAPSHOT'', ''STRATEGY_PRE_SIGNAL_REJECT'', ''STRATEGY_SIGNAL_REJECT'',
            ''READY_FOR_RISK_REVIEW'']);
          pre = n ''STRATEGY_PRE_SIGNAL_REJECT''; post = n ''STRATEGY_SIGNAL_REJECT''; ready = n ''READY_FOR_RISK_REVIEW'';
          rejections = n ''ENTRY_REJECT''; opened = n ''TRADE_OPENED''; pending = n ''PENDING_SIGNAL_END_OF_TEST''
      in \<lparr>dp_decision_points = decision_points, dp_snapshot_unavailable = n ''DECISION_NO_SNAPSHOT'',
          dp_pre_signal_rejections = pre, dp_pre_signal_reasons = sorted_items (dg_pre_signal g),
          dp_post_signal_rejections = post, dp_post_signal_reasons = sorted_items (dg_post_signal g),
          dp_multi_reason = dg_overlap g, dp_ready = ready, dp_ready_by_direction = sorted_items (dg_ready_directions g),
          dp_ready_by_setup = sorted_items (dg_ready_setups g), dp_entry_attempts = rejections + opened,
          dp_entry_rejections = rejections, dp_entry_reasons = sorted_items (dg_entry g), dp_trades_opened = opened,
          dp_trades_by_direction = sorted_items (dg_trade_directions g), dp_trades_by_setup = sorted_items (dg_trade_setups g),
          dp_pending_at_end = pending, dp_legacy_rejected = pre + post + count_of (dg_entry g) ''SHORT_DISABLED''\<rparr>)"

subsection \<open>The counters count the events\<close>

definition coded :: "string \<Rightarrow> bt_event list \<Rightarrow> nat" where
  "coded c evs = length (filter (\<lambda>e. bv_code e = c) evs)"

definition short_disabled :: "bt_event list \<Rightarrow> nat" where
  "short_disabled evs = sum_list (map (\<lambda>e. count_list (bv_reasons e) ''SHORT_DISABLED'')
     (filter (\<lambda>e. bv_code e = ''ENTRY_REJECT'') evs))"

lemma coded_simps [simp]: "coded c [] = 0" "coded c (xs @ ys) = coded c xs + coded c ys"
  "coded c [e] = (if bv_code e = c then 1 else 0)"
  by (simp_all add: coded_def)

lemma short_disabled_simps [simp]: "short_disabled [] = 0" "short_disabled (xs @ ys) = short_disabled xs + short_disabled ys"
  "short_disabled [e] = (if bv_code e = ''ENTRY_REJECT'' then count_list (bv_reasons e) ''SHORT_DISABLED'' else 0)"
  by (simp_all add: short_disabled_def)

lemma count_of_bump: "count_of (bump k d) c = count_of d c + (if c = k then 1 else 0)"
  by (simp add: bump_def count_of_def)

lemma count_of_bumps: "count_of (fold bump ks d) c = count_of d c + count_list ks c"
  by (induction ks arbitrary: d) (simp_all add: count_of_bump)

lemma record_event_counts:
  "count_of (dg_events (record_event e g)) c = count_of (dg_events g) c + coded c [e]"
  "count_of (dg_entry (record_event e g)) ''SHORT_DISABLED'' = count_of (dg_entry g) ''SHORT_DISABLED'' + short_disabled [e]"
  by (simp_all add: record_event_def Let_def count_of_bump count_of_bumps)

lemma recorded_counts:
  "count_of (dg_events (fold record_event evs g)) c = count_of (dg_events g) c + coded c evs"
  "count_of (dg_entry (fold record_event evs g)) ''SHORT_DISABLED'' =
     count_of (dg_entry g) ''SHORT_DISABLED'' + short_disabled evs"
proof (induction evs arbitrary: g)
  case (Cons e evs)
  { case 1 show ?case using Cons.IH(1) [of "record_event e g"] coded_simps(2) [of c "[e]" evs]
      by (simp add: record_event_counts del: coded_simps(2)) }
  { case 2 show ?case using Cons.IH(2) [of "record_event e g"] short_disabled_simps(2) [of "[e]" evs]
      by (simp add: record_event_counts del: short_disabled_simps(2)) }
qed simp_all

subsection \<open>What the engine emits\<close>

definition events_tally :: "bt_state \<Rightarrow> bool" where
  "events_tally s \<longleftrightarrow>
     bs_rejected s = coded ''STRATEGY_PRE_SIGNAL_REJECT'' (bs_events s) + coded ''STRATEGY_SIGNAL_REJECT'' (bs_events s) +
       short_disabled (bs_events s) \<and>
     coded ''READY_FOR_RISK_REVIEW'' (bs_events s) =
       coded ''ENTRY_REJECT'' (bs_events s) + coded ''TRADE_OPENED'' (bs_events s) + (if bs_pending s = None then 0 else 1) \<and>
     coded ''TRADE_OPENED'' (bs_events s) = length (bs_trades s) + length (bs_open s) \<and>
     coded ''PENDING_SIGNAL_END_OF_TEST'' (bs_events s) = 0"

lemma exit_loop_counts:
  "exit_loop costs symbol bar ts e = Inr (e', rem, recs) \<Longrightarrow> length rem + length recs = length ts"
proof (induction ts arbitrary: e e' rem recs)
  case (Cons t ts)
  from Cons.prems show ?case
    by (auto simp: res_bind_Inr_iff Let_def split: option.splits dest!: Cons.IH)
qed simp

lemma open_trade_reason:
  "open_trade_with_reason cfg costs pid sg bar equity ts = Inr (Inl reason) \<Longrightarrow> reason \<noteq> ''SHORT_DISABLED''"
  by (auto simp: open_trade_with_reason_def res_bind_Inr_iff guard_Inr_iff Let_def split: if_splits)

lemma enter_pending_tally:
  assumes "enter_pending E start bar s = Inr s'" "events_tally s"
  shows "events_tally s' \<and> (in_test start bar \<longrightarrow> bs_pending s' = None)"
  using assms open_trade_reason
  by (auto simp: enter_pending_def events_tally_def emit_def res_bind_def split: option.splits if_splits sum.splits)

lemma manage_bar_tally:
  assumes "manage_bar E symbol bar s = Inr s'" "events_tally s"
  shows "events_tally s' \<and> bs_pending s' = bs_pending s"
  using assms exit_loop_counts by (fastforce simp: manage_bar_def events_tally_def res_bind_Inr_iff)

lemma decide_tally:
  assumes "decide E start bar snaps s = Inr s'" "events_tally s" "in_test start bar \<longrightarrow> bs_pending s = None"
  shows "events_tally s'"
  using assms by (auto simp: decide_def events_tally_def emit_def split: option.splits if_splits sum.splits)

lemma engine_bar_parts:
  assumes "engine_bar E symbol start bar x = Inr y"
  obtains s1 s2 snaps where "enter_pending E start bar (fst x) = Inr s1" "manage_bar E symbol bar s1 = Inr s2"
    "decide E start bar snaps s2 = Inr (fst y)"
  using assms by (auto simp: engine_bar_def res_bind_def split: prod.splits sum.splits)

lemma engine_loop_tally:
  assumes "engine_loop E symbol start bars x = Inr y" "events_tally (fst x)"
  shows "events_tally (fst y)"
  using assms
proof (induction bars arbitrary: x)
  case (Cons bar bars)
  then obtain z where z: "engine_bar E symbol start bar x = Inr z" "engine_loop E symbol start bars z = Inr y"
    by (auto simp: res_bind_Inr_iff)
  from z(1) obtain s1 s2 snaps where s: "enter_pending E start bar (fst x) = Inr s1" "manage_bar E symbol bar s1 = Inr s2"
    "decide E start bar snaps s2 = Inr (fst z)" by (rule engine_bar_parts)
  have "events_tally (fst z)"
    using enter_pending_tally [OF s(1) Cons.prems(2)] manage_bar_tally [OF s(2)] decide_tally [OF s(3)] by simp
  then show ?case using Cons.IH z(2) by blast
qed simp

lemma end_of_test_counts: "end_of_test_loop costs symbol bar ts e = Inr (e', recs) \<Longrightarrow> length recs = length ts"
proof (induction ts arbitrary: e e' recs)
  case (Cons t ts)
  from Cons.prems show ?case by (auto simp: res_bind_Inr_iff dest!: Cons.IH)
qed simp

lemma run_diagnostics:
  assumes "engine_run E symbol source start = Inr (r, evs)"
  defines "p \<equiv> to_payload (fold record_event evs diagnostics_new)"
  shows "dp_legacy_rejected p = br_rejected_signals r \<and> dp_trades_opened p = length (br_trades r) \<and>
    dp_ready p = dp_entry_attempts p + dp_pending_at_end p \<and> dp_pending_at_end p \<le> 1 \<and> br_open_positions_at_end r = 0"
proof -
  obtain candles x s where x: "engine_loop E symbol start (the (dget candles ''15m'')) (bt_start E, cursor_new symbol candles) = Inr x"
    "finish_run E symbol (last (the (dget candles ''15m''))) (fst x) = Inr s"
    "br_trades r = bs_trades s" "br_rejected_signals r = bs_rejected s" "evs = bs_events s"
    "br_open_positions_at_end r = length (bs_open s)"
    using assms(1) by (auto simp: engine_run_def res_bind_Inr_iff Let_def)
  have "events_tally (bt_start E)" by (simp add: events_tally_def bt_start_def)
  then have t: "events_tally (fst x)" using engine_loop_tally [OF x(1)] by simp
  let ?y = "if bs_pending (fst x) = None then fst x
    else emit (decision_time (last (the (dget candles ''15m'')))) ''PENDING_SIGNAL_END_OF_TEST'' (bs_pending (fst x)) [] (fst x)"
  have s: "bs_rejected s = bs_rejected ?y \<and> bs_events s = bs_events ?y \<and> bs_open s = [] \<and>
      length (bs_trades s) = length (bs_trades ?y) + length (bs_open ?y)"
    using x(2) end_of_test_counts unfolding finish_run_def Let_def
    by (cases "bs_open ?y = []") (fastforce simp: res_bind_Inr_iff)+
  have "count_of [] c = 0" for c by (simp add: count_of_def)
  then show ?thesis using t s
    by (auto simp: p_def to_payload_def Let_def recorded_counts diagnostics_new_def x(3-6) events_tally_def emit_def split: if_splits)
qed

end
