(* ===== verification/Backtest_Examples.thy ===== *)
theory Backtest_Examples
  imports Backtest_Diagnostics
begin

section \<open>A source for the examples of the backtest\<close>

text \<open>
  One bar of 15 minutes per item of a list and one candle of each longer timeframe, and the runs of the engine over it that the
  closed instances use.
\<close>

definition bx_candle :: "string \<Rightarrow> int \<Rightarrow> rat \<Rightarrow> candle" where
  "bx_candle tf m p = \<lparr>cd_symbol = ''BTC'', cd_timeframe = tf, cd_timestamp = Aware (m * 60 * 10 ^ 6), cd_open = p, cd_high = p,
     cd_low = p, cd_close = p, cd_volume = 1\<rparr>"

definition bx_source :: "rat list \<Rightarrow> (string, candle list) dict" where
  "bx_source ps = [(''15m'', map (\<lambda>(i, p). bx_candle ''15m'' (15 * int i) p) (enumerate 0 ps)), (''1h'', [bx_candle ''1h'' 0 1]),
     (''4h'', [bx_candle ''4h'' 0 1]), (''1d'', [bx_candle ''1d'' 0 1])]"

definition bx_engine :: bt_engine where
  "bx_engine = \<lparr>en_config = default_bt_config, en_rules = default_rules, en_costs = no_costs, en_ids = (\<lambda>_. ''id'')\<rparr>"

lemmas bx_eval = bx_engine_def bx_source_def bx_candle_def enumerate_eq_zip prepare_def prepare_rows_def ordered_def
  known_timeframes_def guard_def Let_def engine_bar_def enter_pending_def manage_bar_def bt_start_def snapshots_at_def
  cursor_new_def cursor_reset_def timeframe_order_def timeframe_duration_def decision_time_def time_plus_def
  market_state_blank_def decide_def in_test_def emit_def finish_run_def calculate_metrics_def default_bt_config_def

lemma bx_prepared: "prepare ''BTC'' (bx_source [100]) = Inr (bx_source [100])"
  "prepare ''BTC'' (bx_source [100, 101]) = Inr (bx_source [100, 101])"
  by (simp_all add: bx_eval)

lemma bx_run:
  obtains r evs where "engine_run bx_engine ''BTC'' (bx_source [100]) start = Inr (r, evs)"
proof -
  have "\<exists>x. engine_run bx_engine ''BTC'' (bx_source [100]) start = Inr x"
    by (simp add: engine_run_def bx_prepared) (simp add: bx_eval)
  with that show thesis by auto
qed

lemma bx_run_longer:
  obtains r evs where "engine_run bx_engine ''BTC'' (bx_source [100, 101]) start = Inr (r, evs)"
proof -
  have "\<exists>x. engine_run bx_engine ''BTC'' (bx_source [100, 101]) start = Inr x"
    by (simp add: engine_run_def bx_prepared) (simp add: bx_eval)
  with that show thesis by auto
qed

lemma bx_run_longest:
  obtains r evs where "engine_run bx_engine ''BTC'' (bx_source [100, 101, 102]) start = Inr (r, evs)"
proof -
  have p: "prepare ''BTC'' (bx_source [100, 101, 102]) = Inr (bx_source [100, 101, 102])" by (simp add: bx_eval)
  have "\<exists>x. engine_run bx_engine ''BTC'' (bx_source [100, 101, 102]) start = Inr x"
    by (simp add: engine_run_def p) (simp add: bx_eval)
  with that show thesis by auto
qed

lemma bx_make: "engine_make default_bt_config default_rules (\<lambda>_. ''id'') = Inr bx_engine"
  by (simp add: engine_make_def default_bt_config_def cost_model_make_def guard_def bx_engine_def no_costs_def)

lemma bx_fits: "source_fits ''BTC'' (bx_source [100])" "source_fits ''BTC'' (bx_source [100, 101])"
  by (simp_all add: source_fits_def bx_source_def bx_candle_def timeframe_order_def enumerate_eq_zip)

end
