(* ===== verification/Walk_Forward.thy ===== *)
theory Walk_Forward
  imports Backtest "HOL-Library.While_Combinator"
begin

section \<open>Walk-forward evaluation and locked out-of-sample plans\<close>

text \<open>
  \<^verbatim>\<open>app/backtest/walk_forward.py\<close> and \<^verbatim>\<open>locked_oos.py\<close>. The loop that lays out the windows is a \<^verbatim>\<open>while\<close> whose end depends
  on the step: it is a \<open>while_option\<close> here, so that a loop that does not end is the value \<open>None\<close>.
\<close>

subsection \<open>The windows\<close>

record wf_window =
  ww_train_start :: int
  ww_train_end :: int
  ww_test_start :: int
  ww_test_end :: int

definition window_at :: "int \<Rightarrow> int \<Rightarrow> int \<Rightarrow> wf_window" where
  "window_at train test start =
     \<lparr>ww_train_start = start, ww_train_end = start + train, ww_test_start = start + train, ww_test_end = start + train + test\<rparr>"

definition windows_loop :: "int \<Rightarrow> int \<Rightarrow> int \<Rightarrow> int \<Rightarrow> wf_window list option" where
  "windows_loop n train test step =
     map_option snd (while_option (\<lambda>(start, ws). start + train + test \<le> n)
       (\<lambda>(start, ws). (start + step, ws @ [window_at train test start])) (0, []))"

definition build_windows :: "int \<Rightarrow> int \<Rightarrow> int \<Rightarrow> int option \<Rightarrow> wf_window list option res" where
  "build_windows n train test step0 =
     guard (n \<le> 0 \<or> train \<le> 0 \<or> test \<le> 0) (ValueError ''length, train_size and test_size must be positive'')
     (let step = (case step0 of None \<Rightarrow> test | Some s \<Rightarrow> s) in
      guard (step \<le> 0) (ValueError ''step must be positive'') (Inr (windows_loop n train test step)))"

definition window_count :: "int \<Rightarrow> int \<Rightarrow> int \<Rightarrow> int \<Rightarrow> nat" where
  "window_count n width step start = (if n < start + width then 0 else Suc (nat ((n - start - width) div step)))"

lemma window_count_step:
  assumes "0 < step" "start + width \<le> n"
  shows "window_count n width step start = Suc (window_count n width step (start + step))"
proof (cases "n < start + step + width")
  case True
  then have "(n - start - width) div step = 0" using assms by simp
  then show ?thesis using True assms by (simp add: window_count_def)
next
  case False
  have "(n - start - width) div step = (n - (start + step) - width) div step + 1"
    using assms(1) div_add_self2 [of step "n - (start + step) - width"] by (simp add: algebra_simps)
  moreover have "0 \<le> (n - (start + step) - width) div step" using False assms(1) by (simp add: pos_imp_zdiv_nonneg_iff)
  ultimately show ?thesis using False assms by (simp add: window_count_def nat_add_distrib)
qed

lemma windows_loop_from:
  assumes "0 < step" "0 < train + test"
  shows "\<exists>e. while_option (\<lambda>(start, ws). start + train + test \<le> n)
      (\<lambda>(start, ws). (start + step, ws @ [window_at train test start])) (s, ws) =
    Some (e, ws @ map (\<lambda>i. window_at train test (s + int i * step)) [0..<window_count n (train + test) step s])"
proof (induction "nat (n - s)" arbitrary: s ws rule: less_induct)
  case less
  let ?w = "\<lambda>i. window_at train test (s + int i * step)"
  show ?case
  proof (cases "s + (train + test) \<le> n")
    case False
    then show ?thesis by (subst while_option_unfold) (simp add: window_count_def add.assoc)
  next
    case True
    let ?k = "window_count n (train + test) step (s + step)"
    from True less(1) [of "s + step" "ws @ [window_at train test s]"] assms obtain e where
      e: "while_option (\<lambda>(start, ws). start + train + test \<le> n)
          (\<lambda>(start, ws). (start + step, ws @ [window_at train test start])) (s + step, ws @ [window_at train test s]) =
        Some (e, (ws @ [window_at train test s]) @ map (\<lambda>i. ?w (Suc i)) [0..<?k])"
      by (auto simp: algebra_simps)
    have "map ?w [0..<Suc ?k] = window_at train test s # map (\<lambda>i. ?w (Suc i)) [0..<?k]"
      by (simp only: upt_conv_Cons zero_less_Suc list.map map_Suc_upt [symmetric] map_map comp_def) simp
    then show ?thesis
      using e True by (subst while_option_unfold) (simp add: window_count_step [OF assms(1)] add.assoc)
  qed
qed

lemma windows_loop_diverges:
  assumes "step \<le> 0" "train + test \<le> n"
  shows "windows_loop n train test step = None"
proof (rule ccontr)
  assume "windows_loop n train test step \<noteq> None"
  then obtain e ws where r: "while_option (\<lambda>(start, ws). start + train + test \<le> n)
      (\<lambda>(start, ws). (start + step, ws @ [window_at train test start])) (0, []) = Some (e, ws)"
    unfolding windows_loop_def by auto
  have "(\<lambda>(start, ws :: wf_window list). start + train + test \<le> n) (e, ws)"
    by (rule while_option_rule [OF _ r]) (use assms in auto)
  with while_option_stop [OF r] show False by blast
qed

text \<open>With a positive step the loop ends, after the windows counted beforehand.\<close>

lemma windows_loop_returns:
  assumes "0 < step" "0 < train + test"
  shows "windows_loop n train test step =
    Some (map (\<lambda>i. window_at train test (int i * step)) [0..<window_count n (train + test) step 0])"
  using windows_loop_from [OF assms, of n 0 "[]"] by (auto simp: windows_loop_def)

lemma build_windows_returns:
  assumes "build_windows n train test step0 = Inr r"
  defines "step \<equiv> case step0 of None \<Rightarrow> test | Some s \<Rightarrow> s"
  shows "r = Some (map (\<lambda>i. window_at train test (int i * step)) [0..<window_count n (train + test) step 0])"
    and "0 < train" "0 < test" "0 < step" "0 < n"
  using assms windows_loop_returns [of step train test n]
  by (auto simp: build_windows_def guard_Inr_iff Let_def step_def)

lemma window_fits:
  assumes "0 < step" "i < window_count n width step 0"
  shows "int i * step + width \<le> n"
proof -
  from assms(2) have le: "width \<le> n" and i: "int i \<le> (n - width) div step"
    using assms(1) pos_imp_zdiv_nonneg_iff [of step "n - width"] by (auto simp: window_count_def split: if_splits)
  have "int i * step \<le> (n - width) div step * step" using i assms(1) by (intro mult_right_mono) simp_all
  also have "\<dots> \<le> n - width" using assms(1) by (simp add: minus_mod_eq_div_mult [symmetric])
  finally show ?thesis by simp
qed

subsection \<open>Boundaries\<close>

text \<open>\<^verbatim>\<open>validate_walk_forward_boundaries\<close> of \<^verbatim>\<open>locked_oos.py\<close>: windows are tuples there, records here.\<close>

fun boundaries_loop :: "int \<Rightarrow> int \<Rightarrow> wf_window list \<Rightarrow> unit res" where
  "boundaries_loop observed previous [] = Inr ()"
| "boundaries_loop observed previous (w # ws) =
     guard (\<not> (0 \<le> ww_train_start w \<and> ww_train_start w < ww_train_end w \<and> ww_train_end w = ww_test_start w \<and>
             ww_test_start w < ww_test_end w \<and> ww_test_end w \<le> observed))
       (ValueError ''invalid walk-forward boundary'')
     (guard (ww_test_start w < previous) (ValueError ''walk-forward test windows must not overlap'')
     (boundaries_loop observed (ww_test_end w) ws))"

definition validate_walk_forward_boundaries :: "wf_window list \<Rightarrow> int \<Rightarrow> unit res" where
  "validate_walk_forward_boundaries ws observed = boundaries_loop observed 0 ws"

lemma boundaries_spaced:
  assumes "0 < train" "0 < test" "test \<le> step" "\<forall>j < k. (int (i + j)) * step + train + test \<le> n"
    "previous \<le> int i * step + train"
  shows "boundaries_loop n previous (map (\<lambda>j. window_at train test (int j * step)) [i..<i + k]) = Inr ()"
  using assms(4,5)
proof (induction k arbitrary: i previous)
  case (Suc k)
  have le: "int i * step + train + test \<le> n" using Suc.prems(1) by (metis add_0_right zero_less_Suc)
  have nonneg: "0 \<le> int i * step" using assms by simp
  have next_le: "int i * step + train + test \<le> int (Suc i) * step + train" using assms(3) by (simp add: algebra_simps)
  have "\<forall>j < k. int (Suc i + j) * step + train + test \<le> n" using Suc.prems(1) by (metis Suc_less_eq add_Suc add_Suc_right)
  from Suc.IH [OF this next_le] have
    "boundaries_loop n (int i * step + train + test) (map (\<lambda>j. window_at train test (int j * step)) [Suc i..<i + Suc k]) = Inr ()"
    by simp
  then show ?case using le nonneg Suc.prems(2) assms(1,2) by (simp add: upt_conv_Cons window_at_def del: upt_Suc)
qed simp

lemma built_windows_valid:
  assumes "build_windows n train test step0 = Inr (Some ws)" "\<And>s. step0 = Some s \<Longrightarrow> test \<le> s"
  shows "validate_walk_forward_boundaries ws n = Inr ()"
proof -
  let ?step = "case step0 of None \<Rightarrow> test | Some s \<Rightarrow> s"
  note b = build_windows_returns [OF assms(1)]
  let ?k = "window_count n (train + test) ?step 0"
  have ws: "ws = map (\<lambda>i. window_at train test (int i * ?step)) [0..<0 + ?k]" using b(1) by simp
  have "test \<le> ?step" using assms(2) by (auto split: option.split)
  moreover have "\<forall>j < ?k. int (0 + j) * ?step + train + test \<le> n"
    using window_fits [OF b(4)] by (simp add: add.assoc)
  ultimately show ?thesis
    unfolding validate_walk_forward_boundaries_def ws
    by (intro boundaries_spaced) (use b in simp_all)
qed

text \<open>A shorter step makes test windows overlap, and the check refuses them.\<close>

lemma overlapping_windows_refused:
  assumes "build_windows n train test (Some step) = Inr (Some ws)" "step < test" "1 < length ws"
  shows "validate_walk_forward_boundaries ws n = Inl (ValueError ''walk-forward test windows must not overlap'')"
proof -
  note b = build_windows_returns [OF assms(1), simplified]
  have ws: "ws = map (\<lambda>i. window_at train test (int i * step)) [0..<window_count n (train + test) step 0]" by (rule b(1))
  then have k: "1 < window_count n (train + test) step 0" using assms(3) by simp
  have "[0..<window_count n (train + test) step 0] = 0 # 1 # [2..<window_count n (train + test) step 0]"
    using k by (simp add: upt_conv_Cons numeral_2_eq_2 del: upt_Suc)
  then show ?thesis
    using window_fits [OF b(4) k] b(2,3,4) assms(2)
    by (simp add: ws validate_walk_forward_boundaries_def window_at_def)
qed

subsection \<open>The runner\<close>

text \<open>
  \<^verbatim>\<open>WalkForwardRunner\<close>. The optimizer is an argument; the answer of a call that is no \<^verbatim>\<open>BacktestConfig\<close> is \<open>None\<close>. The windows
  count the rows of all symbols, the segments keep those of one.
\<close>

record wf_runner =
  wr_config :: bt_config
  wr_optimizer :: "(bt_result \<Rightarrow> bt_config \<Rightarrow> bt_config option res) option"
  wr_rules :: strategy_rules
  wr_ids :: "nat \<Rightarrow> string"

definition segment :: "string \<Rightarrow> (candle \<Rightarrow> bool) \<Rightarrow> (string, candle list) dict \<Rightarrow> (string, candle list) dict" where
  "segment symbol keep source = map (\<lambda>(tf, rows). (tf, ordered (filter (\<lambda>c. cd_symbol c = symbol \<and> keep c) rows))) source"

definition segment_complete :: "(string, candle list) dict \<Rightarrow> bool" where
  "segment_complete d \<longleftrightarrow> list_all (\<lambda>tf. case dget d tf of None \<Rightarrow> False | Some rows \<Rightarrow> rows \<noteq> []) timeframe_order"

definition source_15m :: "(string, candle list) dict \<Rightarrow> candle list" where
  "source_15m source = ordered (case dget source ''15m'' of None \<Rightarrow> [] | Some rows \<Rightarrow> rows)"

definition row_time :: "(string, candle list) dict \<Rightarrow> int \<Rightarrow> datetime" where
  "row_time source i = cd_timestamp (source_15m source ! nat i)"

definition train_segment :: "string \<Rightarrow> (string, candle list) dict \<Rightarrow> wf_window \<Rightarrow> (string, candle list) dict" where
  "train_segment symbol source w = segment symbol (\<lambda>c. instant (row_time source (ww_train_start w)) \<le> instant (cd_timestamp c) \<and>
     instant (cd_timestamp c) \<le> instant (row_time source (ww_train_end w - 1))) source"

definition oos_segment :: "string \<Rightarrow> (string, candle list) dict \<Rightarrow> wf_window \<Rightarrow> (string, candle list) dict" where
  "oos_segment symbol source w =
     segment symbol (\<lambda>c. instant (cd_timestamp c) \<le> instant (row_time source (ww_test_end w - 1))) source"

definition backtest_of :: "wf_runner \<Rightarrow> bt_config \<Rightarrow> string \<Rightarrow> (string, candle list) dict \<Rightarrow> datetime option \<Rightarrow> bt_result res" where
  "backtest_of R cfg symbol source start =
     res_bind (engine_make cfg (wr_rules R) (wr_ids R)) (\<lambda>E. res_bind (engine_run E symbol source start) (\<lambda>(r, evs). Inr r))"

definition select_config :: "wf_runner \<Rightarrow> bt_result \<Rightarrow> bt_config res" where
  "select_config R r =
     (case wr_optimizer R of
        None \<Rightarrow> Inr (wr_config R)
      | Some f \<Rightarrow> res_bind (f r (wr_config R)) (\<lambda>c. case c of
          None \<Rightarrow> Inl (TypeError ''optimizer must return BacktestConfig'') | Some cfg \<Rightarrow> Inr cfg))"

definition run_window :: "wf_runner \<Rightarrow> string \<Rightarrow> (string, candle list) dict \<Rightarrow> wf_window \<Rightarrow> bt_result option res" where
  "run_window R symbol source w =
     (if \<not> segment_complete (train_segment symbol source w) \<or> \<not> segment_complete (oos_segment symbol source w) then Inr None
      else
        res_bind (backtest_of R (wr_config R) symbol (train_segment symbol source w) None) (\<lambda>trained.
        res_bind (select_config R trained) (\<lambda>cfg.
        res_bind (backtest_of R cfg symbol (oos_segment symbol source w) (Some (row_time source (ww_test_start w)))) (\<lambda>r.
        Inr (Some r)))))"

definition run_windows :: "wf_runner \<Rightarrow> string \<Rightarrow> (string, candle list) dict \<Rightarrow> wf_window list \<Rightarrow> bt_result list res" where
  "run_windows R symbol source ws =
     res_bind (res_map (run_window R symbol source) ws) (\<lambda>rs. Inr (concat (map (case_option [] (\<lambda>r. [r])) rs)))"

definition walk_forward_run ::
  "wf_runner \<Rightarrow> string \<Rightarrow> (string, candle list) dict \<Rightarrow> int \<Rightarrow> int \<Rightarrow> int option
    \<Rightarrow> (wf_window list \<times> bt_result list) option res" where
  "walk_forward_run R symbol source train test step =
     res_bind (build_windows (int (length (source_15m source))) train test step) (\<lambda>built.
       case built of
         None \<Rightarrow> Inr None
       | Some ws \<Rightarrow> res_bind (run_windows R symbol source ws) (\<lambda>rs. Inr (Some (ws, rs))))"

subsection \<open>When the trades of a run are entered and left\<close>

lemma exit_loop_entries:
  assumes "exit_loop costs symbol bar ts e = Inr (e', rem, recs)" "\<forall>t \<in> set ts. P (et_entry_time t)"
  shows "(\<forall>t \<in> set rem. P (et_entry_time t)) \<and> (\<forall>r \<in> set recs. P (td_entry_time r))"
  using assms
proof (induction ts arbitrary: e e' rem recs)
  case (Cons t ts)
  from Cons.prems show ?case
    by (auto simp: res_bind_Inr_iff Let_def close_trade_def trade_record_of_def split: option.splits
        dest!: Cons.IH)
qed simp

lemma end_of_test_entries:
  assumes "end_of_test_loop costs symbol bar ts e = Inr (e', recs)" "\<forall>t \<in> set ts. P (et_entry_time t)"
  shows "\<forall>r \<in> set recs. P (td_entry_time r) \<and> instant (td_exit_time r) = instant (cd_timestamp bar) + 15 * 60 * 10 ^ 6"
  using assms
proof (induction ts arbitrary: e e' recs)
  case (Cons t ts)
  from Cons.prems show ?case
    by (auto simp: res_bind_Inr_iff Let_def close_trade_def trade_record_of_def dest!: Cons.IH)
qed simp

definition entered_after :: "int \<Rightarrow> bt_state \<Rightarrow> bool" where
  "entered_after T s \<longleftrightarrow>
     (\<forall>t \<in> set (bs_open s). T \<le> instant (et_entry_time t)) \<and> (\<forall>r \<in> set (bs_trades s). T \<le> instant (td_entry_time r))"

lemma decide_open: "decide E start bar snaps s = Inr s' \<Longrightarrow> bs_open s' = bs_open s"
  by (auto simp: decide_def emit_def split: option.splits if_splits sum.splits)

lemma entered_after_bar:
  assumes "engine_bar E symbol (Some t) bar x = Inr y" "entered_after (instant t) (fst x)"
  shows "entered_after (instant t) (fst y)"
proof -
  obtain s1 s2 u snaps where s: "enter_pending E (Some t) bar (fst x) = Inr s1" "manage_bar E symbol bar s1 = Inr s2"
    "decide E (Some t) bar snaps s2 = Inr (fst y)"
    using assms(1) by (auto simp: engine_bar_def res_bind_def split: prod.splits sum.splits)
  have "entered_after (instant t) s1"
    using s(1) assms(2)
    by (auto simp: enter_pending_def entered_after_def emit_def res_bind_def in_test_def open_trade_with_reason_def
        guard_def Let_def split: option.splits if_splits sum.splits)
  then have "entered_after (instant t) s2"
    using s(2) exit_loop_entries [where P = "\<lambda>u. instant t \<le> instant u"]
    by (fastforce simp: manage_bar_def res_bind_Inr_iff entered_after_def)
  then show ?thesis using decide_open [OF s(3)] decide_trades [OF s(3)] by (simp add: entered_after_def)
qed

lemma entered_after_loop:
  "engine_loop E symbol (Some t) bars x = Inr y \<Longrightarrow> entered_after (instant t) (fst x) \<Longrightarrow> entered_after (instant t) (fst y)"
  by (induction bars arbitrary: x) (auto simp: res_bind_Inr_iff dest: entered_after_bar)

lemma finish_entries:
  assumes "finish_run E symbol bar s = Inr s'" "entered_after T s"
  shows "\<exists>recs. bs_trades s' = bs_trades s @ recs \<and> (\<forall>r \<in> set recs. T \<le> instant (td_entry_time r) \<and>
    instant (td_exit_time r) = instant (cd_timestamp bar) + 15 * 60 * 10 ^ 6)"
proof -
  have o: "bs_open s = [] \<and> bs_trades s' = bs_trades s \<or>
    (\<exists>e recs. end_of_test_loop (en_costs E) symbol bar (bs_open s) (bs_equity s) = Inr (e, recs) \<and> bs_trades s' = bs_trades s @ recs)"
    using assms(1) by (auto simp: finish_run_def Let_def emit_def res_bind_Inr_iff split: if_splits)
  moreover have "\<forall>t \<in> set (bs_open s). T \<le> instant (et_entry_time t)" using assms(2) by (simp add: entered_after_def)
  ultimately show ?thesis using end_of_test_entries [where P = "\<lambda>u. T \<le> instant u"] by (metis append_Nil2 empty_iff empty_set)
qed

lemma run_trades_in_window:
  assumes run: "engine_run E symbol source (Some t) = Inr (r, evs)" and td: "d \<in> set (br_trades r)"
  shows "instant t \<le> instant (td_entry_time d) \<and> (\<exists>rows. dget source ''15m'' = Some rows \<and>
    (\<exists>bar \<in> set rows. instant (td_exit_time d) = instant (cd_timestamp bar) + 15 * 60 * 10 ^ 6))"
proof -
  obtain candles where c: "prepare symbol source = Inr candles" using run by (auto simp: engine_run_def res_bind_Inr_iff)
  obtain rows where rows: "dget source ''15m'' = Some rows" "dget candles ''15m'' = Some (prepare_rows symbol rows)"
    "prepare_rows symbol rows \<noteq> []"
    using prepare_parts [OF c, of "''15m''"] by (auto simp: timeframe_order_def)
  let ?rows = "prepare_rows symbol rows" and ?x = "(bt_start E, cursor_new symbol candles)"
  from run c rows(2) obtain y s where y: "engine_loop E symbol (Some t) ?rows ?x = Inr y"
    "finish_run E symbol (last ?rows) (fst y) = Inr s" "br_trades r = bs_trades s"
    by (auto simp: engine_run_def res_bind_Inr_iff Let_def)
  have "entered_after (instant t) (fst y)"
    using entered_after_loop [OF y(1)] by (simp add: entered_after_def bt_start_def)
  with finish_entries [OF y(2)] obtain recs where recs: "bs_trades s = bs_trades (fst y) @ recs"
    "\<forall>r \<in> set recs. instant t \<le> instant (td_entry_time r) \<and>
       instant (td_exit_time r) = instant (cd_timestamp (last ?rows)) + 15 * 60 * 10 ^ 6" by blast
  have sub: "set ?rows \<subseteq> set rows" by (auto simp: prepare_rows_def ordered_def)
  moreover have "last ?rows \<in> set rows" using sub rows(3) last_in_set by blast
  ultimately show ?thesis
    using td y(3) recs \<open>entered_after (instant t) (fst y)\<close> engine_loop_trades [OF y(1)] rows(1)
    by (fastforce simp: entered_after_def bt_start_def)
qed

text \<open>The trades of an out-of-sample result are entered and left inside its test window.\<close>

lemma dget_segment: "dget (segment symbol keep source) tf =
  map_option (\<lambda>rows. ordered (filter (\<lambda>c. cd_symbol c = symbol \<and> keep c) rows)) (dget source tf)"
  unfolding segment_def by (induction source) auto


lemma run_window_Some:
  assumes "run_window R symbol source w = Inr (Some r)"
  shows "\<exists>cfg. backtest_of R cfg symbol (oos_segment symbol source w) (Some (row_time source (ww_test_start w))) = Inr r"
proof (cases "\<not> segment_complete (train_segment symbol source w) \<or> \<not> segment_complete (oos_segment symbol source w)")
  case False
  have "Ex (\<lambda>cfg. res_bind (backtest_of R cfg symbol (oos_segment symbol source w) (Some (row_time source (ww_test_start w)))) (\<lambda>r.
        Inr (Some r)) = Inr (Some r))"
    using assms unfolding run_window_def if_not_P [OF False] res_bind_Inr_iff by blast
  then show ?thesis by (simp add: res_bind_Inr_iff)
qed (use assms in \<open>simp add: run_window_def\<close>)

lemma backtest_of_run:
  "backtest_of R cfg symbol source start = Inr r \<Longrightarrow> \<exists>E evs. engine_run E symbol source start = Inr (r, evs)"
  by (auto simp: backtest_of_def res_bind_Inr_iff)

text \<open>The trades of an out-of-sample result are entered and left inside its test window.\<close>

definition inside_window :: "(string, candle list) dict \<Rightarrow> wf_window \<Rightarrow> trade_record \<Rightarrow> bool" where
  "inside_window source w d \<longleftrightarrow> instant (row_time source (ww_test_start w)) \<le> instant (td_entry_time d) \<and>
    instant (td_exit_time d) \<le> instant (row_time source (ww_test_end w - 1)) + 15 * 60 * 10 ^ 6"

lemma window_trades:
  assumes "run_window R symbol source w = Inr (Some r)" "d \<in> set (br_trades r)"
  shows "inside_window source w d"
proof -
  obtain E evs where
    run: "engine_run E symbol (oos_segment symbol source w) (Some (row_time source (ww_test_start w))) = Inr (r, evs)"
    using run_window_Some [OF assms(1)] backtest_of_run by blast
  from run_trades_in_window [OF run assms(2)] obtain rows bar where
    b: "instant (row_time source (ww_test_start w)) \<le> instant (td_entry_time d)"
      "dget (oos_segment symbol source w) ''15m'' = Some rows" "bar \<in> set rows"
      "instant (td_exit_time d) = instant (cd_timestamp bar) + 15 * 60 * 10 ^ 6" by blast
  from b(2,3) have "instant (cd_timestamp bar) \<le> instant (row_time source (ww_test_end w - 1))"
    unfolding oos_segment_def dget_segment ordered_def by auto
  with b(1,4) show ?thesis unfolding inside_window_def by linarith
qed

lemma run_windows_members:
  assumes "run_windows R symbol source ws = Inr rs" "r \<in> set rs"
  shows "\<exists>w \<in> set ws. run_window R symbol source w = Inr (Some r)"
proof -
  from assms(1) obtain os where os: "list_all2 (\<lambda>w x. run_window R symbol source w = Inr x) ws os"
    "rs = concat (map (case_option [] (\<lambda>r. [r])) os)"
    unfolding run_windows_def res_bind_Inr_iff res_map_Inr_iff by blast
  from assms(2) os(2) have "Some r \<in> set os" by (auto split: option.splits)
  then obtain i where "i < length os" "os ! i = Some r" by (auto simp: in_set_conv_nth)
  with list_all2_nthD2 [OF os(1), of i] list_all2_lengthD [OF os(1)] show ?thesis by (metis nth_mem)
qed

lemma walk_forward_trades:
  assumes "walk_forward_run R symbol source train test step = Inr (Some (ws, rs))" "r \<in> set rs"
  shows "\<exists>w \<in> set ws. \<forall>d \<in> set (br_trades r). inside_window source w d"
proof -
  from assms(1) have "run_windows R symbol source ws = Inr rs"
    by (auto simp: walk_forward_run_def res_bind_Inr_iff split: option.splits)
  from run_windows_members [OF this assms(2)] obtain w where "w \<in> set ws" "run_window R symbol source w = Inr (Some r)" ..
  with window_trades show ?thesis by blast
qed

subsection \<open>Locked out-of-sample plans\<close>

text \<open>
  \<^verbatim>\<open>LockedOOSPlan\<close>. The argument \<open>digest\<close> is the SHA-256 of the JSON text of the payload, the argument \<open>fl\<close> rounds to the
  nearest double: the split fractions are floats.
\<close>

record oos_payload =
  pl_config :: string
  pl_dataset :: string
  pl_oos_end :: int
  pl_sealed_at :: datetime
  pl_strategy :: string
  pl_total :: int
  pl_train_end :: int
  pl_validation_end :: int

record oos_plan =
  oo_dataset :: string
  oo_strategy :: string
  oo_config :: string
  oo_total :: int
  oo_train_end :: int
  oo_validation_end :: int
  oo_oos_end :: int
  oo_sealed_at :: datetime
  oo_sha256 :: string

definition oos_payload_of :: "oos_plan \<Rightarrow> oos_payload" where
  "oos_payload_of p = \<lparr>pl_config = oo_config p, pl_dataset = oo_dataset p, pl_oos_end = oo_oos_end p,
     pl_sealed_at = Aware (instant (oo_sealed_at p)), pl_strategy = oo_strategy p, pl_total = oo_total p,
     pl_train_end = oo_train_end p, pl_validation_end = oo_validation_end p\<rparr>"

definition plan_ranges :: "oos_plan \<Rightarrow> int list \<times> int list \<times> int list" where
  "plan_ranges p = ([0..oo_train_end p - 1], [oo_train_end p..oo_validation_end p - 1], [oo_validation_end p..oo_oos_end p - 1])"

definition verify_plan :: "(oos_payload \<Rightarrow> string) \<Rightarrow> oos_plan \<Rightarrow> string \<Rightarrow> string \<Rightarrow> string \<Rightarrow> unit res" where
  "verify_plan digest p dataset strategy config =
     guard (dataset \<noteq> oo_dataset p) (ValueError ''locked OOS dataset fingerprint changed'')
     (guard (strategy \<noteq> oo_strategy p) (ValueError ''strategy changed after OOS plan was sealed'')
     (guard (config \<noteq> oo_config p) (ValueError ''configuration changed after OOS plan was sealed'')
     (guard (digest (oos_payload_of p) \<noteq> oo_sha256 p) (ValueError ''locked OOS plan fingerprint is invalid'') (Inr ()))))"

definition seal_oos_plan ::
  "(oos_payload \<Rightarrow> string) \<Rightarrow> (rat \<Rightarrow> rat) \<Rightarrow> datetime \<Rightarrow> string \<Rightarrow> string \<Rightarrow> string \<Rightarrow> int \<Rightarrow> rat \<Rightarrow> rat \<Rightarrow> datetime option
    \<Rightarrow> oos_plan res" where
  "seal_oos_plan digest fl now dataset strategy config observed train validation sealed_at =
     guard (dataset = '''' \<or> strategy = '''' \<or> config = '''')
       (ValueError ''dataset, strategy and config fingerprints are required'')
     (guard (observed < 3) (ValueError ''at least three observations are required'')
     (guard (\<not> (0 < train \<and> train < 1) \<or> \<not> (0 < validation \<and> validation < 1)) (ValueError ''split fractions must be in (0, 1)'')
     (guard (1 \<le> fl (train + validation)) (ValueError ''OOS split must be non-empty'')
     (let scale = (\<lambda>f. \<lfloor>fl (fl (of_int observed) * f)\<rfloor>);
          train_end = scale train; validation_end = train_end + scale validation;
          time = (case sealed_at of None \<Rightarrow> now | Some t \<Rightarrow> t) in
      guard (train_end < 1 \<or> validation_end \<le> train_end \<or> observed \<le> validation_end)
        (ValueError ''all chronological splits must be non-empty'')
      (guard (\<not> is_aware time) (ValueError ''sealed_at must be timezone-aware'')
      (let p = \<lparr>oo_dataset = dataset, oo_strategy = strategy, oo_config = config, oo_total = observed, oo_train_end = train_end,
                oo_validation_end = validation_end, oo_oos_end = observed, oo_sealed_at = Aware (instant time), oo_sha256 = ''''\<rparr>
       in Inr (p\<lparr>oo_sha256 := digest (oos_payload_of p)\<rparr>)))))))"

lemma oos_payload_sha [simp]: "oos_payload_of (p\<lparr>oo_sha256 := h\<rparr>) = oos_payload_of p"
  by (simp add: oos_payload_of_def)

lemma sealed_plan:
  assumes "seal_oos_plan digest fl now dataset strategy config observed train validation sealed_at = Inr p"
  shows "oo_dataset p = dataset" "oo_strategy p = strategy" "oo_config p = config" "oo_sha256 p = digest (oos_payload_of p)"
    "0 < oo_train_end p" "oo_train_end p < oo_validation_end p" "oo_validation_end p < observed" "oo_oos_end p = observed"
    "oo_total p = observed" "is_aware (oo_sealed_at p)"
  using assms by (auto simp: seal_oos_plan_def guard_Inr_iff Let_def oos_payload_of_def)

lemma sealed_plan_verifies:
  assumes "seal_oos_plan digest fl now dataset strategy config observed train validation sealed_at = Inr p"
  shows "verify_plan digest p dataset strategy config = Inr ()"
  using sealed_plan [OF assms] by (simp add: verify_plan_def)

lemma sealed_ranges:
  assumes "seal_oos_plan digest fl now dataset strategy config observed train validation sealed_at = Inr p"
  shows "case plan_ranges p of (a, b, c) \<Rightarrow> a @ b @ c = [0..observed - 1] \<and> a \<noteq> [] \<and> b \<noteq> [] \<and> c \<noteq> []"
proof -
  note p = sealed_plan [OF assms]
  have join: "[i..j - 1] @ [j..k - 1] = [i..k - 1]" if "i \<le> j" "j \<le> k" for i j k :: int
    using that upto_split1 [of i j "k - 1"] by (cases "j = k") auto
  show ?thesis using p by (simp add: plan_ranges_def join)
qed

text \<open>A plan changed after the sealing passes only when the digest collides.\<close>

lemma changed_plan_refused:
  assumes "oo_sha256 q = digest (oos_payload_of p)" "digest (oos_payload_of q) \<noteq> digest (oos_payload_of p)"
  shows "verify_plan digest q dataset strategy config \<noteq> Inr ()"
  using assms by (simp add: verify_plan_def guard_Inr_iff)

end
