(* ===== verification/Robustness.thy ===== *)
theory Robustness
  imports Backtest "HOL-Library.While_Combinator" "HOL-Library.Multiset" "HOL-Library.Product_Lexorder"
begin

section \<open>Robustness of a backtest\<close>

text \<open>
  \<^verbatim>\<open>app/backtest/robustness_sampling.py\<close> and \<^verbatim>\<open>monte_carlo.py\<close>. The generator of \<^verbatim>\<open>random\<close> is an argument: \<open>seeded\<close> gives
  its state for a seed and \<open>below g n\<close> one draw of \<^verbatim>\<open>randrange(n)\<close> with the state after it. What is asked of it is that a draw
  is below its bound. \<^verbatim>\<open>shuffle\<close> is the loop of the standard library over it.
\<close>

type_synonym 'g below = "'g \<Rightarrow> nat \<Rightarrow> nat \<times> 'g"

definition fair :: "'g below \<Rightarrow> bool" where
  "fair below \<longleftrightarrow> (\<forall>g n. 0 < n \<longrightarrow> fst (below g n) < n)"

subsection \<open>Sampling a path\<close>

definition swap_items :: "nat \<Rightarrow> nat \<Rightarrow> 'a list \<Rightarrow> 'a list" where
  "swap_items i j xs = xs[j := xs ! i, i := xs ! j]"

fun shuffle_loop :: "'g below \<Rightarrow> nat \<Rightarrow> 'a list \<Rightarrow> 'g \<Rightarrow> 'a list \<times> 'g" where
  "shuffle_loop below 0 xs g = (xs, g)"
| "shuffle_loop below (Suc i) xs g = (case below g (Suc (Suc i)) of (j, g) \<Rightarrow> shuffle_loop below i (swap_items (Suc i) j xs) g)"

definition shuffle_list :: "'g below \<Rightarrow> 'a list \<Rightarrow> 'g \<Rightarrow> 'a list \<times> 'g" where
  "shuffle_list below xs g = shuffle_loop below (length xs - 1) xs g"

fun bootstrap_loop :: "'g below \<Rightarrow> 'a list \<Rightarrow> nat \<Rightarrow> 'g \<Rightarrow> 'a list \<times> 'g" where
  "bootstrap_loop below xs 0 g = ([], g)"
| "bootstrap_loop below xs (Suc n) g =
     (case below g (length xs) of (j, g) \<Rightarrow> (case bootstrap_loop below xs n g of (ys, g) \<Rightarrow> (xs ! j # ys, g)))"

definition block_step :: "'g below \<Rightarrow> nat \<Rightarrow> 'a list \<Rightarrow> 'a list \<times> 'g \<Rightarrow> 'a list \<times> 'g" where
  "block_step below width xs x =
     (case x of (sampled, g) \<Rightarrow> (case below g (length xs - width + 1) of (start, g) \<Rightarrow>
        (sampled @ take width (drop start xs), g)))"

definition block_loop :: "'g below \<Rightarrow> nat \<Rightarrow> 'a list \<Rightarrow> 'g \<Rightarrow> ('a list \<times> 'g) option" where
  "block_loop below width xs g =
     while_option (\<lambda>(sampled, g). length sampled < length xs) (block_step below width xs) ([], g)"

datatype sampling_mode = RANDOM_PERMUTATION | REVERSE | WORST_FIRST | LOSS_CLUSTER | WIN_CLUSTER | IID_BOOTSTRAP | BLOCK_BOOTSTRAP

text \<open>\<open>None\<close> is a call that does not return.\<close>

definition sample_pnl_path :: "'g below \<Rightarrow> (int \<Rightarrow> 'g) \<Rightarrow> rat list \<Rightarrow> sampling_mode \<Rightarrow> int \<Rightarrow> int \<Rightarrow> rat list option res" where
  "sample_pnl_path below seeded pnl mode seed block_size =
     guard (pnl = []) (ValueError ''PnL path must be non-empty'')
     (guard (seed < 0) (ValueError ''seed must be non-negative'')
     (guard (block_size < 1) (ValueError ''block_size must be positive'')
     (let g = seeded seed in
      Inr (case mode of
        RANDOM_PERMUTATION \<Rightarrow> Some (fst (shuffle_list below pnl g))
      | REVERSE \<Rightarrow> Some (rev pnl)
      | WORST_FIRST \<Rightarrow> Some (sort pnl)
      | LOSS_CLUSTER \<Rightarrow> Some (sort_key (\<lambda>v. (0 \<le> v, v)) pnl)
      | WIN_CLUSTER \<Rightarrow> Some (sort_key (\<lambda>v. (v < 0, - v)) pnl)
      | IID_BOOTSTRAP \<Rightarrow> Some (fst (bootstrap_loop below pnl (length pnl) g))
      | BLOCK_BOOTSTRAP \<Rightarrow>
          map_option (\<lambda>x. take (length pnl) (fst x)) (block_loop below (min (nat block_size) (length pnl)) pnl g)))))"

definition permuting :: "sampling_mode \<Rightarrow> bool" where
  "permuting mode \<longleftrightarrow> mode \<noteq> IID_BOOTSTRAP \<and> mode \<noteq> BLOCK_BOOTSTRAP"

lemma fair_draw: "fair below \<Longrightarrow> 0 < n \<Longrightarrow> fst (below g n) < n"
  by (simp add: fair_def)

lemma swap_items_simps [simp]:
  "length (swap_items i j xs) = length xs"
  "i < length xs \<Longrightarrow> j < length xs \<Longrightarrow> mset (swap_items i j xs) = mset xs"
  by (simp_all add: swap_items_def mset_swap)

lemma shuffle_loop_mset:
  assumes "fair below"
  shows "i < length xs \<Longrightarrow> mset (fst (shuffle_loop below i xs g)) = mset xs"
proof (induction i arbitrary: xs g)
  case (Suc i)
  have "fst (below g (Suc (Suc i))) < Suc (Suc i)" by (rule fair_draw [OF assms]) simp
  then show ?case using Suc by (simp add: case_prod_beta)
qed simp

lemma shuffle_list_mset: "fair below \<Longrightarrow> mset (fst (shuffle_list below xs g)) = mset xs"
  by (cases xs) (simp_all add: shuffle_list_def shuffle_loop_mset)

lemma bootstrap_loop_shape:
  assumes "fair below" "xs \<noteq> []"
  shows "length (fst (bootstrap_loop below xs n g)) = n \<and> set (fst (bootstrap_loop below xs n g)) \<subseteq> set xs"
proof (induction n arbitrary: g)
  case (Suc n)
  have "fst (below g (length xs)) < length xs" using fair_draw [OF assms(1)] assms(2) by simp
  then show ?case using Suc [of "snd (below g (length xs))"] by (simp add: case_prod_beta)
qed simp

lemma block_step_shape:
  assumes "fair below" "0 < width" "width \<le> length xs"
  shows "length (fst (block_step below width xs x)) = length (fst x) + width"
    and "set (fst (block_step below width xs x)) \<subseteq> set (fst x) \<union> set xs"
proof -
  have "fst (below (snd x) (length xs - width + 1)) < length xs - width + 1" by (rule fair_draw [OF assms(1)]) simp
  then show "length (fst (block_step below width xs x)) = length (fst x) + width"
    using assms by (simp add: block_step_def case_prod_beta)
  show "set (fst (block_step below width xs x)) \<subseteq> set (fst x) \<union> set xs"
    by (auto simp: block_step_def case_prod_beta dest: in_set_takeD in_set_dropD)
qed

lemma block_loop_returns:
  fixes below :: "'g below" and xs :: "'a list"
  assumes "fair below" "0 < width" "width \<le> length xs"
  shows "\<exists>ys g'. block_loop below width xs g = Some (ys, g') \<and> length xs \<le> length ys \<and> set ys \<subseteq> set xs"
proof -
  let ?b = "\<lambda>(sampled :: 'a list, g :: 'g). length sampled < length xs" and ?c = "block_step below width xs"
  have "\<exists>t. while_option ?b ?c ([], g) = Some t"
    by (rule measure_while_option_Some [where P = "\<lambda>_. True" and f = "\<lambda>x. length xs - length (fst x)"])
      (use block_step_shape [OF assms] assms(2) in \<open>auto simp: case_prod_beta\<close>)
  then obtain ys g' where r: "while_option ?b ?c ([], g) = Some (ys, g')" by auto
  have "set (fst (ys, g')) \<subseteq> set xs"
    by (rule while_option_rule [OF _ r, where P = "\<lambda>x. set (fst x) \<subseteq> set xs"])
      (use block_step_shape(2) [OF assms] in \<open>fastforce+\<close>)
  moreover have "length xs \<le> length ys" using while_option_stop [OF r] by simp
  ultimately show ?thesis using r by (simp add: block_loop_def)
qed

lemma loss_cluster_worst_first: "sort_key (\<lambda>v :: rat. (0 \<le> v, v)) xs = sort xs"
  by (rule sort_key_inj_key_eq) (auto simp: inj_on_def sorted_map less_eq_prod_simp intro: sorted_wrt_mono_rel [OF _ sorted_sort])

lemma win_cluster_best_first: "sort_key (\<lambda>v :: rat. (v < 0, - v)) xs = rev (sort xs)"
proof (rule sort_key_inj_key_eq)
  have "sorted_wrt (\<lambda>x y. y \<le> x) (rev (sort xs))" by (simp add: sorted_wrt_rev)
  then show "sorted (map (\<lambda>v :: rat. (v < 0, - v)) (rev (sort xs)))"
    unfolding sorted_wrt_map by (rule sorted_wrt_mono_rel [rotated]) (auto simp: less_eq_prod_simp)
qed (auto simp: inj_on_def)

lemma sample_returns:
  assumes "fair below" "sample_pnl_path below seeded pnl mode seed block_size = Inr r"
  shows "\<exists>path. r = Some path \<and> length path = length pnl \<and> set path \<subseteq> set pnl \<and>
    (permuting mode \<longrightarrow> mset path = mset pnl)"
proof -
  from assms(2) have ne: "pnl \<noteq> []" and width: "0 < min (nat block_size) (length pnl)"
    by (auto simp: sample_pnl_path_def guard_Inr_iff)
  have perm: "length path = length pnl \<and> set path \<subseteq> set pnl" if "mset path = mset pnl" for path :: "rat list"
    using that by (auto dest: mset_eq_length mset_eq_setD)
  obtain ys g' where block: "block_loop below (min (nat block_size) (length pnl)) pnl (seeded seed) = Some (ys, g')"
    "length pnl \<le> length ys" "set ys \<subseteq> set pnl"
    using block_loop_returns [OF assms(1) width] by (metis min.cobounded2)
  have sub: "set (take (length pnl) ys) \<subseteq> set pnl" using block(3) by (auto dest: in_set_takeD)
  note boot = bootstrap_loop_shape [OF assms(1) ne, of "length pnl" "seeded seed"]
  show ?thesis
  proof (cases "permuting mode")
    case True
    then have "\<exists>path. r = Some path \<and> mset path = mset pnl"
      using assms(2) shuffle_list_mset [OF assms(1), of pnl "seeded seed"]
      by (cases mode) (auto simp: sample_pnl_path_def guard_Inr_iff Let_def permuting_def)
    then show ?thesis using perm by blast
  next
    case False
    then consider "mode = IID_BOOTSTRAP" | "mode = BLOCK_BOOTSTRAP" by (auto simp: permuting_def)
    then show ?thesis
    proof cases
      case 1
      then show ?thesis using assms(2) boot False by (auto simp: sample_pnl_path_def guard_Inr_iff Let_def)
    next
      case 2
      then show ?thesis using assms(2) block(1,2) sub False by (auto simp: sample_pnl_path_def guard_Inr_iff Let_def)
    qed
  qed
qed

subsection \<open>The drawdown of a path\<close>

definition drawdown_step :: "rat \<Rightarrow> rat \<Rightarrow> rat" where
  "drawdown_step peak equity = dmul (ddiv (dsub peak (max 0 equity)) peak) 100"

fun path_drawdown :: "rat list \<Rightarrow> rat \<Rightarrow> rat \<Rightarrow> rat \<Rightarrow> rat" where
  "path_drawdown [] equity peak dd = dd"
| "path_drawdown (v # vs) equity peak dd =
     (let e = dadd equity v; p = max peak e in path_drawdown vs e p (if 0 < p then max dd (drawdown_step p e) else dd))"

definition maximum_drawdown_percent :: "rat list \<Rightarrow> rat \<Rightarrow> rat res" where
  "maximum_drawdown_percent pnl initial =
     guard (initial \<le> 0) (ValueError ''initial_equity must be finite and positive'') (Inr (path_drawdown pnl initial initial 0))"

lemma drawdown_step_range:
  assumes "0 < peak" "rnd peak = peak" "equity \<le> peak"
  shows "0 \<le> drawdown_step peak equity \<and> drawdown_step peak equity \<le> 100"
proof -
  have "dsub peak (max 0 equity) \<le> peak" unfolding dsub_def by (rule dec.le_fixed [OF _ assms(2)]) simp
  moreover have "0 \<le> dsub peak (max 0 equity)" using assms by simp
  ultimately show ?thesis unfolding drawdown_step_def using percent_range assms(1) by blast
qed

lemma path_drawdown_range:
  assumes "0 < peak" "rnd peak = peak" "0 \<le> dd" "dd \<le> 100"
  shows "0 \<le> path_drawdown vs equity peak dd \<and> path_drawdown vs equity peak dd \<le> 100"
  using assms
proof (induction vs equity peak dd rule: path_drawdown.induct)
  case (2 v vs equity peak dd)
  let ?e = "dadd equity v" let ?p = "max peak ?e"
  have p: "0 < ?p" "rnd ?p = ?p" using "2.prems" by (auto simp: max_def dadd_def dec.idem)
  with drawdown_step_range [OF p, of ?e] "2.IH" "2.prems" show ?case by (simp add: Let_def)
qed simp

lemma path_drawdown_ge: "dd \<le> path_drawdown vs equity peak dd"
proof (induction vs equity peak dd rule: path_drawdown.induct)
  case (2 v vs equity peak dd)
  have "dd \<le> (if 0 < max peak (dadd equity v) then max dd (drawdown_step (max peak (dadd equity v)) (dadd equity v)) else dd)"
    by simp
  then show ?case unfolding path_drawdown.simps Let_def by (rule order_trans [OF _ 2 [OF refl refl]])
qed simp

text \<open>
  What a path can lose: its losses, at most everything. When the sums are exact, no order of the same results has a deeper
  drawdown than the losses first.
\<close>

definition losses :: "rat list \<Rightarrow> rat" where
  "losses vs = sum_list (map (\<lambda>v. - v) (filter (\<lambda>v. v < 0) vs))"

definition deepest :: "rat \<Rightarrow> rat \<Rightarrow> rat" where
  "deepest initial total_loss = drawdown_step initial (initial - total_loss)"

lemma losses_simps [simp]:
  "losses [] = 0" "losses (v # vs) = (if v < 0 then losses vs - v else losses vs)"
  "losses (us @ vs) = losses us + losses vs"
  by (simp_all add: losses_def)

lemma losses_nonneg: "0 \<le> losses vs"
  by (induction vs) auto

lemma losses_mset: "mset us = mset vs \<Longrightarrow> losses us = losses vs"
  unfolding losses_def by (metis mset_filter mset_map sum_mset_sum_list)

lemma step_below_deepest:
  assumes "0 < initial" "initial \<le> peak" "equity \<le> peak" "peak - equity \<le> total_loss"
    and exact: "rnd (peak - max 0 equity) = peak - max 0 equity"
      "rnd (initial - max 0 (initial - total_loss)) = initial - max 0 (initial - total_loss)"
  shows "drawdown_step peak equity \<le> deepest initial total_loss"
proof -
  have pos: "0 < peak" "0 \<le> total_loss" using assms by linarith+
  have "(peak - max 0 equity) / peak \<le> (initial - max 0 (initial - total_loss)) / initial"
  proof (cases "total_loss \<le> initial")
    case True
    have "(peak - max 0 equity) / peak \<le> total_loss / peak" using assms(4) pos by (intro divide_right_mono) auto
    also have "\<dots> \<le> total_loss / initial" using assms(1,2) pos by (intro divide_left_mono) auto
    finally show ?thesis using True by simp
  next
    case False
    then show ?thesis using assms(1) pos by simp
  qed
  then show ?thesis
    by (simp add: drawdown_step_def deepest_def dsub_def exact ddiv_def dec.mono dmul_mono_right)
qed

lemma on_grid_0: "on_grid k 0"
  unfolding on_grid_def by (rule exI [of _ 0]) simp

lemma on_grid_diff: "on_grid k x \<Longrightarrow> on_grid k y \<Longrightarrow> on_grid k (x - y)"
  unfolding on_grid_def by (metis left_diff_distrib of_int_diff)

lemma path_below_deepest:
  assumes grid: "on_grid k initial" "0 < initial" and small: "M < 10 ^ 28 * p10 k"
    and loss: "total_loss \<le> M" "on_grid k total_loss" "initial \<le> M"
  shows "initial \<le> peak \<Longrightarrow> equity \<le> peak \<Longrightarrow> on_grid k peak \<Longrightarrow> on_grid k equity \<Longrightarrow> \<forall>v \<in> set vs. on_grid k v \<Longrightarrow>
    \<bar>equity\<bar> + sum_list (map abs vs) \<le> M \<Longrightarrow> peak \<le> M \<Longrightarrow> peak - equity + losses vs \<le> total_loss \<Longrightarrow>
    dd \<le> deepest initial total_loss \<Longrightarrow> path_drawdown vs equity peak dd \<le> deepest initial total_loss"
proof (induction vs equity peak dd rule: path_drawdown.induct)
  case (2 v vs equity peak dd)
  let ?e = "equity + v" let ?p = "max peak ?e"
  have abs: "\<bar>equity\<bar> + \<bar>v\<bar> + sum_list (map abs vs) \<le> M" using "2.prems" by simp
  have nn: "0 \<le> sum_list (map abs vs)" by (rule sum_list_nonneg) auto
  have ge: "on_grid k ?e" using "2.prems" by (auto intro: on_grid_add)
  have gp: "on_grid k ?p" using ge "2.prems" by (simp add: max_def)
  have small_e: "\<bar>?e\<bar> + sum_list (map abs vs) \<le> M" using abs by linarith
  have d: "dadd equity v = ?e"
    unfolding dadd_def by (rule on_grid_exact [OF ge]) (use small_e nn small in linarith)
  have pM: "?p \<le> M" using "2.prems" small_e nn by linarith
  have drop: "?p - ?e + losses vs \<le> total_loss"
    using "2.prems" losses_nonneg [of vs] by (auto simp: max_def split: if_splits)
  have minus: "on_grid k (x - max 0 y)" if "on_grid k x" "on_grid k y" for x y
    using that on_grid_diff [of k x y] by (simp add: max_def)
  have le1: "\<bar>?p - max 0 ?e\<bar> \<le> M" using pM "2.prems"(1) grid(2) by (auto simp: max_def)
  have tl: "0 \<le> total_loss" using drop losses_nonneg [of vs] by linarith
  have le2: "\<bar>initial - max 0 (initial - total_loss)\<bar> \<le> M" using tl loss grid by (auto simp: max_def)
  have "drawdown_step ?p ?e \<le> deepest initial total_loss"
  proof (rule step_below_deepest)
    show "?p - ?e \<le> total_loss" using drop losses_nonneg [of vs] by linarith
    show "rnd (?p - max 0 ?e) = ?p - max 0 ?e"
      by (rule on_grid_exact [OF minus [OF gp ge]]) (use le1 small in linarith)
    show "rnd (initial - max 0 (initial - total_loss)) = initial - max 0 (initial - total_loss)"
      by (rule on_grid_exact [OF minus [OF grid(1) on_grid_diff [OF grid(1) loss(2)]]]) (use le2 small in linarith)
  qed (use "2.prems" grid in auto)
  then show ?case
    using "2.IH" [OF d [symmetric] refl] "2.prems" ge gp small_e pM drop by (simp add: Let_def d)
qed simp

text \<open>The losses first reach the deepest drawdown.\<close>

lemma losses_first_reach:
  assumes "\<forall>v \<in> set ns. on_grid k v \<and> v < 0" "ns \<noteq> []" "on_grid k e" "\<bar>e\<bar> + losses ns < 10 ^ 28 * p10 k" "e \<le> p" "0 < p"
  shows "drawdown_step p (e - losses ns) \<le> path_drawdown (ns @ rest) e p dd"
  using assms
proof (induction ns arbitrary: e dd)
  case (Cons v ns)
  have g: "on_grid k (e + v)" using Cons.prems by (auto intro: on_grid_add)
  have small: "\<bar>e + v\<bar> + losses ns < 10 ^ 28 * p10 k" using Cons.prems by auto
  have d: "dadd e v = e + v"
    unfolding dadd_def by (rule on_grid_exact [OF g]) (use small losses_nonneg [of ns] in linarith)
  have v: "v < 0" "max p (e + v) = p" using Cons.prems by auto
  show ?case
  proof (cases "ns = []")
    case True
    have "drawdown_step p (e + v) \<le> max dd (drawdown_step p (e + v))" by simp
    also have "\<dots> \<le> path_drawdown rest (e + v) p (max dd (drawdown_step p (e + v)))" by (rule path_drawdown_ge)
    finally show ?thesis using True v Cons.prems(6) by (simp add: d Let_def)
  next
    case False
    from Cons.IH [OF _ False g small, of "max dd (drawdown_step p (e + v))"] Cons.prems v show ?thesis
      by (simp add: d Let_def algebra_simps)
  qed
qed simp

lemma sorted_losses_first:
  fixes vs :: "rat list"
  shows "sort vs = filter (\<lambda>v. v < 0) (sort vs) @ filter (\<lambda>v. \<not> v < 0) (sort vs)"
proof -
  have "sorted us \<Longrightarrow> us = filter (\<lambda>v. v < 0) us @ filter (\<lambda>v. \<not> v < 0) us" for us :: "rat list"
  proof (induction us)
    case (Cons u us)
    show ?case
    proof (cases "u < 0")
      case False
      then have "\<forall>v \<in> set us. \<not> v < 0" using Cons.prems by auto
      then have "filter (\<lambda>v. v < 0) us = []" "filter (\<lambda>v. \<not> v < 0) us = us" by (simp_all add: filter_empty_conv filter_id_conv)
      then show ?thesis using False by simp
    qed (use Cons in simp)
  qed simp
  then show ?thesis by simp
qed

text \<open>
  \<^verbatim>\<open>WORST_FIRST\<close> is what its name says: on exact amounts it has the deepest drawdown of all orders of the same results.
\<close>

lemma worst_first_is_worst:
  assumes "mset path = mset pnl" "0 < initial" "on_grid k initial" "\<forall>v \<in> set pnl. on_grid k v"
    "initial + sum_list (map abs pnl) < 10 ^ 28 * p10 k"
  shows "path_drawdown path initial initial 0 \<le> path_drawdown (sort pnl) initial initial 0"
proof -
  let ?L = "losses pnl" and ?M = "initial + sum_list (map abs pnl)" and ?ns = "filter (\<lambda>v. v < 0) (sort pnl)"
  have L: "losses path = ?L" "sum_list (map abs path) = sum_list (map abs pnl)" "set path = set pnl"
    using losses_mset [OF assms(1)] assms(1) by (auto dest: mset_eq_setD) (metis mset_map sum_mset_sum_list)
  have LM: "losses vs \<le> sum_list (map abs vs)" for vs by (induction vs) auto
  have gL: "on_grid k (losses vs)" if "\<forall>v \<in> set vs. on_grid k v" for vs
    using that by (induction vs) (auto intro: on_grid_diff on_grid_0)
  have nn: "0 \<le> sum_list (map abs pnl)" by (rule sum_list_nonneg) auto
  have L0: "0 \<le> ?L" by (rule losses_nonneg)
  have zero: "0 \<le> deepest initial ?L"
    unfolding deepest_def using drawdown_step_range [of initial "initial - ?L"] assms L0 on_grid_exact [OF assms(3)] nn by force
  have "path_drawdown path initial initial 0 \<le> deepest initial ?L"
    by (rule path_below_deepest [OF assms(3,2,5)])
      (use assms L LM [of pnl] gL [OF assms(4)] nn zero in auto)
  also have "\<dots> \<le> path_drawdown (sort pnl) initial initial 0"
  proof (cases "?ns = []")
    case True
    then have "?L = 0" by (simp add: losses_def filter_empty_conv)
    moreover have "deepest initial 0 = 0"
      using assms(2) by (simp add: deepest_def drawdown_step_def dsub_def ddiv_def dmul_def dec.zero)
    ultimately have "deepest initial ?L = 0" by simp
    then show ?thesis using path_drawdown_ge [of 0] by simp
  next
    case False
    have ns: "losses ?ns = ?L" using losses_mset [of "sort pnl" pnl] by (simp add: losses_def)
    have "deepest initial ?L \<le> path_drawdown (?ns @ filter (\<lambda>v. \<not> v < 0) (sort pnl)) initial initial 0"
      unfolding deepest_def ns [symmetric]
      by (rule losses_first_reach [OF _ False assms(3)]) (use assms ns LM [of pnl] in auto)
    then show ?thesis using sorted_losses_first [of pnl] by simp
  qed
  finally show ?thesis .
qed

subsection \<open>Monte Carlo\<close>

text \<open>
  \<^verbatim>\<open>monte_carlo.py\<close>. One generator serves all simulations of a run, so its state passes from one to the next. An equity
  never falls below zero here.
\<close>

record stress =
  ss_bootstrap :: bool
  ss_slippage_percent :: rat
  ss_commission_multiplier :: rat

definition stressed_pnl :: "stress \<Rightarrow> trade_record \<Rightarrow> rat" where
  "stressed_pnl x t =
     (let cost = dmul (dmul (dmul (td_total_amount t) (td_leverage t)) (ddiv (ss_slippage_percent x) 100)) 2;
          commission = dmul (td_commission t) (ss_commission_multiplier x)
      in dsub (td_realized_pnl t) (dadd cost (max 0 (dsub commission (td_commission t)))))"

fun simulate_loop :: "stress \<Rightarrow> trade_record list \<Rightarrow> rat \<Rightarrow> rat \<Rightarrow> rat \<Rightarrow> rat \<times> rat" where
  "simulate_loop x [] equity peak dd = (equity, dd)"
| "simulate_loop x (t # ts) equity peak dd =
     (let e = max 0 (dadd equity (stressed_pnl x t)); p = max peak e in
      simulate_loop x ts e p (if 0 < p then max dd (dmul (ddiv (dsub p e) p) 100) else dd))"

definition simulate :: "'g below \<Rightarrow> stress \<Rightarrow> trade_record list \<Rightarrow> rat \<Rightarrow> 'g \<Rightarrow> (rat \<times> rat) \<times> 'g" where
  "simulate below x trades initial g =
     (case (if ss_bootstrap x then bootstrap_loop below trades (length trades) g else shuffle_list below trades g) of
        (sampled, g) \<Rightarrow> (simulate_loop x sampled initial initial 0, g))"

fun simulations :: "'g below \<Rightarrow> stress \<Rightarrow> trade_record list \<Rightarrow> rat \<Rightarrow> nat \<Rightarrow> 'g \<Rightarrow> (rat \<times> rat) list" where
  "simulations below x trades initial 0 g = []"
| "simulations below x trades initial (Suc n) g =
     (case simulate below x trades initial g of (r, g) \<Rightarrow> r # simulations below x trades initial n g)"

record monte_carlo_result =
  mc_simulations :: int
  mc_initial_equity :: rat
  mc_median_final :: rat
  mc_worst_final :: rat
  mc_best_final :: rat
  mc_median_return :: rat
  mc_worst_return :: rat
  mc_best_return :: rat
  mc_median_drawdown :: rat
  mc_worst_drawdown :: rat

definition run_monte_carlo ::
  "'g below \<Rightarrow> (int \<Rightarrow> 'g) \<Rightarrow> trade_record list \<Rightarrow> int \<Rightarrow> int \<Rightarrow> rat option \<Rightarrow> stress \<Rightarrow> monte_carlo_result res" where
  "run_monte_carlo below seeded trades n seed initial0 x =
     guard (n \<le> 0) (ValueError ''simulations must be positive'')
     (let initial = (case initial0 of None \<Rightarrow> 10000 | Some e \<Rightarrow> e) in
      guard (initial \<le> 0) (ValueError ''initial_equity must be positive'')
     (guard (ss_slippage_percent x < 0) (ValueError ''slippage_stress_percent must be non-negative'')
     (guard (ss_commission_multiplier x < 0) (ValueError ''commission_stress_multiplier must be non-negative'')
     (if trades = [] then
        Inr \<lparr>mc_simulations = n, mc_initial_equity = initial, mc_median_final = initial, mc_worst_final = initial,
             mc_best_final = initial, mc_median_return = 0, mc_worst_return = 0, mc_best_return = 0,
             mc_median_drawdown = 0, mc_worst_drawdown = 0\<rparr>
      else
        let outcomes = simulations below x trades initial (nat n) (seeded seed);
            finals = sort (map fst outcomes);
            drawdowns = sort (map snd outcomes);
            returns = sort (map (\<lambda>o'. dmul (ddiv (dsub (fst o') initial) initial) 100) outcomes);
            mid = (nat n - 1) div 2
        in Inr \<lparr>mc_simulations = n, mc_initial_equity = initial, mc_median_final = finals ! mid, mc_worst_final = finals ! 0,
             mc_best_final = last finals, mc_median_return = returns ! mid, mc_worst_return = returns ! 0,
             mc_best_return = last returns, mc_median_drawdown = drawdowns ! mid, mc_worst_drawdown = last drawdowns\<rparr>))))"

lemma simulate_loop_range:
  assumes "0 < peak" "rnd peak = peak" "0 \<le> equity" "0 \<le> dd" "dd \<le> 100"
  shows "case simulate_loop x ts equity peak dd of (e, d) \<Rightarrow> 0 \<le> e \<and> 0 \<le> d \<and> d \<le> 100"
  using assms
proof (induction x ts equity peak dd rule: simulate_loop.induct)
  case (2 x t ts equity peak dd)
  let ?e = "max 0 (dadd equity (stressed_pnl x t))" let ?p = "max peak ?e"
  have p: "0 < ?p" "rnd ?p = ?p" "?e \<le> ?p" "max 0 ?e = ?e" using "2.prems" by (auto simp: max_def dadd_def dec.idem dec.zero)
  have "0 \<le> dmul (ddiv (dsub ?p ?e) ?p) 100" "dmul (ddiv (dsub ?p ?e) ?p) 100 \<le> 100"
    using drawdown_step_range [OF p(1-3)] unfolding drawdown_step_def p(4) by blast+
  then have "0 \<le> (if 0 < ?p then max dd (dmul (ddiv (dsub ?p ?e) ?p) 100) else dd)"
    "(if 0 < ?p then max dd (dmul (ddiv (dsub ?p ?e) ?p) 100) else dd) \<le> 100" using "2.prems"(4,5) by (simp_all only: max_def split: if_split) auto
  from "2.IH" [OF refl refl p(1,2) _ this] show ?case by (simp add: Let_def)
qed simp

lemma simulations_range:
  assumes "0 < initial" "rnd initial = initial"
  shows "length (simulations below x trades initial n g) = n"
    and "\<forall>(e, d) \<in> set (simulations below x trades initial n g). 0 \<le> e \<and> 0 \<le> d \<and> d \<le> 100"
proof (induction n arbitrary: g)
  case (Suc n)
  { case 1
    show ?case using Suc(1) by (simp add: case_prod_beta)
  next
    case 2
    have "case fst (simulate below x trades initial g) of (e, d) \<Rightarrow> 0 \<le> e \<and> 0 \<le> d \<and> d \<le> 100"
      using simulate_loop_range [OF assms, of initial 0] assms(1) by (simp add: simulate_def case_prod_beta)
    then show ?case using Suc(2) by (simp add: case_prod_beta) }
qed simp_all

lemma sorted_ends:
  fixes xs :: "rat list"
  assumes "xs \<noteq> []" "i < length xs"
  shows "sort xs ! 0 \<le> sort xs ! i" "sort xs ! i \<le> last (sort xs)"
proof -
  have "last (sort xs) = sort xs ! (length xs - 1)" using assms(1) by (metis last_conv_nth length_0_conv length_sort)
  then show "sort xs ! 0 \<le> sort xs ! i" "sort xs ! i \<le> last (sort xs)"
    using assms sorted_nth_mono [OF sorted_sort, of _ _ xs] by auto
qed

lemma sort_members:
  fixes xs :: "rat list"
  assumes "xs \<noteq> []" "i < length xs"
  shows "sort xs ! 0 \<in> set xs" "sort xs ! i \<in> set xs" "last (sort xs) \<in> set xs"
proof -
  have "sort xs \<noteq> []" using assms(1) by (metis length_0_conv length_sort)
  then show "sort xs ! 0 \<in> set xs" "sort xs ! i \<in> set xs" "last (sort xs) \<in> set xs"
    using assms nth_mem [of 0 "sort xs"] nth_mem [of i "sort xs"] last_in_set [of "sort xs"] by auto
qed

text \<open>A run is ordered, never below nothing and its drawdowns are percentages.\<close>

lemma monte_carlo_ordered:
  assumes "run_monte_carlo below seeded trades n seed initial0 x = Inr r" "rnd (mc_initial_equity r) = mc_initial_equity r"
  shows "0 \<le> mc_worst_final r \<and> mc_worst_final r \<le> mc_median_final r \<and> mc_median_final r \<le> mc_best_final r \<and>
    mc_worst_return r \<le> mc_median_return r \<and> mc_median_return r \<le> mc_best_return r \<and>
    0 \<le> mc_median_drawdown r \<and> mc_median_drawdown r \<le> mc_worst_drawdown r \<and> mc_worst_drawdown r \<le> 100"
proof (cases "trades = []")
  case True
  then show ?thesis using assms(1) by (auto simp: run_monte_carlo_def guard_Inr_iff Let_def)
next
  case False
  let ?initial = "mc_initial_equity r"
  let ?o = "simulations below x trades ?initial (nat n) (seeded seed)"
  let ?finals = "map fst ?o" and ?dds = "map snd ?o" and ?mid = "(nat n - 1) div 2"
    and ?returns = "map (\<lambda>o'. dmul (ddiv (dsub (fst o') ?initial) ?initial) 100) ?o"
  have n: "0 < n" "0 < ?initial" using assms(1) by (auto simp: run_monte_carlo_def guard_Inr_iff Let_def split: if_splits)
  have r: "mc_median_final r = sort ?finals ! ?mid" "mc_worst_final r = sort ?finals ! 0" "mc_best_final r = last (sort ?finals)"
    "mc_median_return r = sort ?returns ! ?mid" "mc_worst_return r = sort ?returns ! 0" "mc_best_return r = last (sort ?returns)"
    "mc_median_drawdown r = sort ?dds ! ?mid" "mc_worst_drawdown r = last (sort ?dds)"
    using assms(1) False by (auto simp: run_monte_carlo_def guard_Inr_iff Let_def split: if_splits)
  note range = simulations_range [OF n(2) assms(2), of below x trades "nat n" "seeded seed"]
  have len: "length ?o = nat n" by (rule range(1))
  have ne: "?finals \<noteq> []" "?dds \<noteq> []" "?returns \<noteq> []" using len n(1) by auto
  have mid: "?mid < length ?finals" "?mid < length ?dds" "?mid < length ?returns" using len n(1) by auto
  have bounds: "\<forall>e \<in> set ?finals. 0 \<le> e" "\<forall>d \<in> set ?dds. 0 \<le> d \<and> d \<le> 100" using range(2) by (auto split: prod.splits)
  have "0 \<le> mc_worst_final r" using bounds(1) sort_members(1) [OF ne(1) mid(1)] r(2) by metis
  moreover have "0 \<le> mc_median_drawdown r" using bounds(2) sort_members(2) [OF ne(2) mid(2)] r(7) by metis
  moreover have "mc_worst_drawdown r \<le> 100" using bounds(2) sort_members(3) [OF ne(2) mid(2)] r(8) by metis
  moreover note sorted_ends [OF ne(1) mid(1), folded r] sorted_ends [OF ne(2) mid(2), folded r]
    sorted_ends [OF ne(3) mid(3), folded r]
  ultimately show ?thesis by blast
qed

end
