(* ===== verification/Parameter_Stability.thy ===== *)
theory Parameter_Stability
  imports Decimal_Text
begin

section \<open>Parameter stability\<close>

text \<open>
  \<^verbatim>\<open>app/backtest/parameter_stability.py\<close>: a strategy is scored with one parameter at a time moved off its baseline. The
  evaluator is an argument, a function of the parameters that may raise; the fingerprint of the evidence is an argument too,
  the SHA-256 of the JSON text of what it is given.
\<close>

subsection \<open>Specifications\<close>

datatype perturbation_mode = RELATIVE_PERCENT | ABSOLUTE

record sweep_spec =
  sw_name :: string
  sw_baseline :: rat
  sw_perturbations :: "rat list"
  sw_mode :: perturbation_mode
  sw_lower :: "rat option"
  sw_upper :: "rat option"

definition sweep_validate :: "sweep_spec \<Rightarrow> unit res" where
  "sweep_validate s =
     guard (strip (sw_name s) = '''') (ValueError ''parameter name must be non-empty'')
     (guard (sw_perturbations s = []) (ValueError ''perturbations must be non-empty'')
     (guard (\<exists>v \<in> set (sw_perturbations s). v = 0) (ValueError ''perturbations must exclude zero; baseline is implicit'')
     (guard (\<not> distinct (sw_perturbations s)) (ValueError ''perturbations must be unique'')
     (guard (case (sw_lower s, sw_upper s) of (Some l, Some u) \<Rightarrow> u < l | _ \<Rightarrow> False)
       (ValueError ''lower_bound must not exceed upper_bound'')
     (guard (case sw_lower s of None \<Rightarrow> False | Some l \<Rightarrow> sw_baseline s < l) (ValueError ''baseline is below lower_bound'')
     (guard (case sw_upper s of None \<Rightarrow> False | Some u \<Rightarrow> u < sw_baseline s) (ValueError ''baseline is above upper_bound'')
     (Inr ())))))))"

record stability_thresholds =
  sh_tolerance :: rat
  sh_max_degradation :: rat
  sh_min_fraction :: rat
  sh_max_cliff :: rat
  sh_max_scenarios :: int

definition default_stability_thresholds :: stability_thresholds where
  "default_stability_thresholds =
     \<lparr>sh_tolerance = 10, sh_max_degradation = 20, sh_min_fraction = 3 / 4, sh_max_cliff = 25, sh_max_scenarios = 512\<rparr>"

definition thresholds_validate :: "stability_thresholds \<Rightarrow> unit res" where
  "thresholds_validate t =
     guard (sh_tolerance t < 0) (ValueError ''stability_tolerance_percent must be non-negative'')
     (guard (sh_max_degradation t < 0) (ValueError ''max_degradation_percent must be non-negative'')
     (guard (\<not> (0 \<le> sh_min_fraction t \<and> sh_min_fraction t \<le> 1)) (ValueError ''min_stable_fraction must be in [0, 1]'')
     (guard (sh_max_cliff t < 0) (ValueError ''max_adjacent_cliff_percent must be non-negative'')
     (guard (sh_max_scenarios t < 1 \<or> 10000 < sh_max_scenarios t) (ValueError ''max_scenarios must be in [1, 10000]'')
     (Inr ())))))"

record sensitivity_point =
  sp_parameter :: string
  sp_value :: rat
  sp_requested :: rat
  sp_score :: rat
  sp_change :: rat
  sp_degradation :: rat

record parameter_stability =
  ps_parameter :: string
  ps_points :: "sensitivity_point list"
  ps_fraction :: rat
  ps_worst :: rat
  ps_cliff :: rat
  ps_passed :: bool

record stability_report =
  sr_baseline_score :: rat
  sr_results :: "parameter_stability list"
  sr_scenarios :: int
  sr_passed :: bool
  sr_fingerprint :: string

subsection \<open>Scenarios\<close>

definition bounded_value :: "sweep_spec \<Rightarrow> rat \<Rightarrow> rat" where
  "bounded_value s p =
     (let v = (case sw_mode s of RELATIVE_PERCENT \<Rightarrow> dmul (sw_baseline s) (dadd 1 (ddiv p 100))
               | ABSOLUTE \<Rightarrow> dadd (sw_baseline s) p);
          v1 = (case sw_lower s of None \<Rightarrow> v | Some l \<Rightarrow> max v l)
      in case sw_upper s of None \<Rightarrow> v1 | Some u \<Rightarrow> min v1 u)"

definition add_scenario :: "sweep_spec \<Rightarrow> (rat, rat) dict \<Rightarrow> rat \<Rightarrow> (rat, rat) dict" where
  "add_scenario s d p =
     (let v = bounded_value s p in if v = sw_baseline s \<or> dget d v \<noteq> None then d else d @ [(v, p)])"

definition scenario_values :: "sweep_spec \<Rightarrow> (rat \<times> rat) list" where
  "scenario_values s = sort_key fst (foldl (add_scenario s) [] (sort (sw_perturbations s)))"

subsection \<open>Qualification\<close>

definition sensitivity_of ::
  "((string, rat) dict \<Rightarrow> rat res) \<Rightarrow> (string, rat) dict \<Rightarrow> rat \<Rightarrow> sweep_spec \<Rightarrow> rat \<times> rat \<Rightarrow> sensitivity_point res" where
  "sensitivity_of evaluator baseline base_score s x =
     res_bind (evaluator (dput (sw_name s) (fst x) baseline)) (\<lambda>score.
       Inr \<lparr>sp_parameter = sw_name s, sp_value = fst x, sp_requested = snd x, sp_score = score,
            sp_change = dmul (ddiv (dabs (dsub score base_score)) base_score) 100,
            sp_degradation = max 0 (dmul (ddiv (dsub base_score score) base_score) 100)\<rparr>)"

definition cliffs :: "rat \<Rightarrow> (rat \<times> rat) list \<Rightarrow> rat list" where
  "cliffs base_score scores =
     map (\<lambda>((_, l), (_, r)). dmul (ddiv (dabs (dsub r l)) base_score) 100) (zip scores (tl scores))"

definition max_or_zero :: "rat list \<Rightarrow> rat" where
  "max_or_zero xs = (if xs = [] then 0 else Max (set xs))"

definition judge_parameter :: "stability_thresholds \<Rightarrow> rat \<Rightarrow> sweep_spec \<Rightarrow> sensitivity_point list \<Rightarrow> parameter_stability" where
  "judge_parameter t base_score s pts =
     (let stable = length (filter (\<lambda>p. sp_change p \<le> sh_tolerance t) pts);
          fraction = ddiv (of_nat stable) (of_nat (length pts));
          worst = max_or_zero (map sp_degradation pts);
          scores = sort_key fst ((sw_baseline s, base_score) # map (\<lambda>p. (sp_value p, sp_score p)) pts);
          cliff = max_or_zero (cliffs base_score scores)
      in \<lparr>ps_parameter = sw_name s, ps_points = pts, ps_fraction = fraction, ps_worst = worst, ps_cliff = cliff,
          ps_passed = (sh_min_fraction t \<le> fraction \<and> worst \<le> sh_max_degradation t \<and> cliff \<le> sh_max_cliff t)\<rparr>)"

definition qualify_parameter ::
  "((string, rat) dict \<Rightarrow> rat res) \<Rightarrow> stability_thresholds \<Rightarrow> (string, rat) dict \<Rightarrow> rat \<Rightarrow> sweep_spec \<Rightarrow> parameter_stability res" where
  "qualify_parameter evaluator t baseline base_score s =
     res_bind (res_map (sensitivity_of evaluator baseline base_score s) (scenario_values s)) (\<lambda>pts.
       guard (pts = []) (ValueError (''parameter sweep for '' @ [CHR 0x27] @ sw_name s @ [CHR 0x27] @ '' has no distinct bounded scenarios''))
       (Inr (judge_parameter t base_score s pts)))"

definition qualify_parameter_stability ::
  "(sweep_spec list \<Rightarrow> stability_thresholds \<Rightarrow> stability_report \<Rightarrow> string) \<Rightarrow> ((string, rat) dict \<Rightarrow> rat res)
    \<Rightarrow> stability_thresholds \<Rightarrow> sweep_spec list \<Rightarrow> stability_report res" where
  "qualify_parameter_stability fingerprint evaluator t specs =
     guard (specs = []) (ValueError ''at least one parameter sweep is required'')
     (guard (\<not> distinct (map sw_name specs)) (ValueError ''parameter names must be unique'')
     (let canonical = sort_key sw_name specs;
          baseline = map (\<lambda>s. (sw_name s, sw_baseline s)) canonical in
      res_bind (evaluator baseline) (\<lambda>base_score.
      guard (base_score \<le> 0) (ValueError ''baseline evaluator score must be positive'')
      (let scenarios = 1 + int (sum_list (map (length \<circ> scenario_values) canonical)) in
      guard (sh_max_scenarios t < scenarios) (ValueError ''parameter sweep exceeds max_scenarios'')
      (res_bind (res_map (qualify_parameter evaluator t baseline base_score) canonical) (\<lambda>results.
        let r = \<lparr>sr_baseline_score = base_score, sr_results = results, sr_scenarios = scenarios,
                 sr_passed = list_all ps_passed results, sr_fingerprint = ''''\<rparr>
        in Inr (r\<lparr>sr_fingerprint := fingerprint canonical t r\<rparr>)))))))"

subsection \<open>What the scenarios are\<close>

lemma add_scenario_props:
  assumes "distinct (map fst d)" "\<forall>(v, p) \<in> set d. v \<noteq> sw_baseline s \<and> v = bounded_value s p \<and> p \<in> P" "p \<in> P"
  shows "distinct (map fst (add_scenario s d p)) \<and>
    (\<forall>(v, p) \<in> set (add_scenario s d p). v \<noteq> sw_baseline s \<and> v = bounded_value s p \<and> p \<in> P)"
  using assms by (auto simp: add_scenario_def Let_def map_of_eq_None_iff)

lemma fold_scenario_props:
  assumes "distinct (map fst d)" "\<forall>(v, p) \<in> set d. v \<noteq> sw_baseline s \<and> v = bounded_value s p \<and> p \<in> P" "set ps \<subseteq> P"
  shows "distinct (map fst (foldl (add_scenario s) d ps)) \<and>
    (\<forall>(v, p) \<in> set (foldl (add_scenario s) d ps). v \<noteq> sw_baseline s \<and> v = bounded_value s p \<and> p \<in> P)"
  using assms
proof (induction ps arbitrary: d)
  case (Cons p ps)
  from add_scenario_props [OF Cons.prems(1,2), of p] Cons.prems(3) Cons.IH [of "add_scenario s d p"] show ?case by auto
qed simp

lemma fold_scenario_covers:
  "v \<in> fst ` set (foldl (add_scenario s) d ps) \<longleftrightarrow>
     v \<in> fst ` set d \<or> (v \<noteq> sw_baseline s \<and> v \<in> bounded_value s ` set ps)"
proof (induction ps arbitrary: d)
  case (Cons p ps)
  have "v \<in> fst ` set (add_scenario s d p) \<longleftrightarrow> v \<in> fst ` set d \<or> (v = bounded_value s p \<and> v \<noteq> sw_baseline s)"
    by (auto simp: add_scenario_def Let_def map_of_eq_None_iff image_iff intro: rev_image_eqI dest: map_of_SomeD)
  then show ?case by (auto simp: Cons.IH)
qed simp

lemma scenario_values_distinct: "distinct (map fst (scenario_values s))" "sorted (map fst (scenario_values s))"
  using fold_scenario_props [of "[]" s "set (sw_perturbations s)" "sort (sw_perturbations s)"]
  by (simp_all add: scenario_values_def distinct_map)

lemma scenario_values_sound:
  assumes "(v, p) \<in> set (scenario_values s)"
  shows "v \<noteq> sw_baseline s" "v = bounded_value s p" "p \<in> set (sw_perturbations s)"
  using assms fold_scenario_props [of "[]" s "set (sw_perturbations s)" "sort (sw_perturbations s)"]
  by (auto simp: scenario_values_def)

lemma scenario_values_complete:
  "fst ` set (scenario_values s) = bounded_value s ` set (sw_perturbations s) - {sw_baseline s}"
  using fold_scenario_covers [of _ s "[]" "sort (sw_perturbations s)"] by (auto simp: scenario_values_def)

definition within_bounds :: "sweep_spec \<Rightarrow> rat \<Rightarrow> bool" where
  "within_bounds s v \<longleftrightarrow> (case sw_lower s of None \<Rightarrow> True | Some l \<Rightarrow> l \<le> v) \<and> (case sw_upper s of None \<Rightarrow> True | Some u \<Rightarrow> v \<le> u)"

lemma bounded_value_within: "sweep_validate s = Inr () \<Longrightarrow> within_bounds s (bounded_value s p)"
  by (auto simp: sweep_validate_def guard_Inr_iff within_bounds_def bounded_value_def Let_def max_def min_def split: option.splits)

lemma max_or_zero_ge: "x \<in> set xs \<Longrightarrow> x \<le> max_or_zero xs"
  by (auto simp: max_or_zero_def)

text \<open>What a passed parameter promises of each of its scenarios.\<close>

lemma judge_parameter_passed:
  assumes "ps_passed (judge_parameter t b s pts)" "p \<in> set pts"
  shows "sp_degradation p \<le> sh_max_degradation t" "sh_min_fraction t \<le> ps_fraction (judge_parameter t b s pts)"
proof -
  have "sp_degradation p \<le> max_or_zero (map sp_degradation pts)" using assms(2) by (intro max_or_zero_ge) simp
  then show "sp_degradation p \<le> sh_max_degradation t" using assms(1) by (simp add: judge_parameter_def Let_def)
  show "sh_min_fraction t \<le> ps_fraction (judge_parameter t b s pts)" using assms(1) by (simp add: judge_parameter_def Let_def)
qed

definition tested :: "stability_thresholds \<Rightarrow> rat \<Rightarrow> sweep_spec \<Rightarrow> parameter_stability \<Rightarrow> bool" where
  "tested t b s r \<longleftrightarrow> ps_parameter r = sw_name s \<and> ps_points r \<noteq> [] \<and>
     map sp_value (ps_points r) = map fst (scenario_values s) \<and>
     (ps_passed r \<longrightarrow> (\<forall>p \<in> set (ps_points r). sp_degradation p \<le> sh_max_degradation t))"

lemma list_all2_map_eq: "list_all2 (\<lambda>x y. f x = g y) xs ys \<Longrightarrow> map g ys = map f xs"
  by (induction rule: list_all2_induct) simp_all

lemma qualify_parameter_tested:
  assumes "qualify_parameter evaluator t baseline b s = Inr r"
  shows "tested t b s r"
proof -
  from assms obtain pts where p: "list_all2 (\<lambda>x y. sensitivity_of evaluator baseline b s x = Inr y) (scenario_values s) pts"
    "pts \<noteq> []" "r = judge_parameter t b s pts"
    by (auto simp: qualify_parameter_def res_bind_Inr_iff guard_Inr_iff res_map_Inr_iff)
  have "list_all2 (\<lambda>x y. fst x = sp_value y) (scenario_values s) pts"
    by (rule list_all2_mono [OF p(1)]) (auto simp: sensitivity_of_def res_bind_Inr_iff)
  then have "map fst (scenario_values s) = map sp_value pts"
    by (simp add: list_eq_iff_nth_eq list_all2_conv_all_nth)
  moreover have "ps_points r = pts" "ps_parameter r = sw_name s" by (simp_all add: p(3) judge_parameter_def Let_def)
  ultimately show ?thesis using p(2) judge_parameter_passed(1) [of t b s pts] p(3) by (auto simp: tested_def)
qed

lemma stability_report_parts:
  assumes "qualify_parameter_stability fingerprint evaluator t specs = Inr r"
  shows "list_all2 (tested t (sr_baseline_score r)) (sort_key sw_name specs) (sr_results r)"
    and "sr_passed r \<longleftrightarrow> list_all ps_passed (sr_results r)" and "0 < sr_baseline_score r"
    and "sr_scenarios r = 1 + int (sum_list (map (length \<circ> ps_points) (sr_results r)))"
    and "sr_scenarios r \<le> sh_max_scenarios t"
proof -
  let ?c = "sort_key sw_name specs"
  let ?b = "map (\<lambda>s. (sw_name s, sw_baseline s)) ?c"
  from assms obtain score rs where p: "list_all2 (\<lambda>s x. qualify_parameter evaluator t ?b score s = Inr x) ?c rs"
    "sr_results r = rs" "sr_baseline_score r = score" "0 < score" "sr_passed r \<longleftrightarrow> list_all ps_passed rs"
    "sr_scenarios r = 1 + int (sum_list (map (length \<circ> scenario_values) ?c))" "sr_scenarios r \<le> sh_max_scenarios t"
    by (auto simp: qualify_parameter_stability_def res_bind_Inr_iff guard_Inr_iff res_map_Inr_iff Let_def not_le not_less)
  have all: "list_all2 (tested t score) ?c rs"
    by (rule list_all2_mono [OF p(1)]) (rule qualify_parameter_tested)
  then show "list_all2 (tested t (sr_baseline_score r)) ?c (sr_results r)" by (simp add: p)
  have "list_all2 (\<lambda>s x. length (scenario_values s) = length (ps_points x)) ?c rs"
    by (rule list_all2_mono [OF all]) (auto simp: tested_def dest: arg_cong [where f = length])
  then have "map (length \<circ> scenario_values) ?c = map (length \<circ> ps_points) rs"
    by (simp add: list_eq_iff_nth_eq list_all2_conv_all_nth)
  then show "sr_scenarios r = 1 + int (sum_list (map (length \<circ> ps_points) (sr_results r)))" by (simp add: p)
  show "sr_passed r \<longleftrightarrow> list_all ps_passed (sr_results r)" "0 < sr_baseline_score r" "sr_scenarios r \<le> sh_max_scenarios t"
    using p by auto
qed

end
