(* ===== verification/Portfolio_Backtest.thy ===== *)
theory Portfolio_Backtest
  imports Backtest "HOL-Library.List_Lexorder" "HOL-Library.Char_ord"
begin

section \<open>The portfolio backtest\<close>

text \<open>
  \<^verbatim>\<open>app/backtest/portfolio.py\<close>: several symbols on one timeline and one equity. At every timestamp the symbols that have a
  bar enter their pending signals, then manage their open trades, then decide, each in the order of their names. The exits
  are those of the single engine with one difference, the time they carry: the opening of the bar.
\<close>

record symbol_state =
  yb_bars :: "candle list"
  yb_pending :: "strategy_signal option"
  yb_open :: "open_trade list"
  yb_trades :: "trade_record list"
  yb_rejected :: nat

record pf_state =
  pf_states :: "(string, symbol_state) dict"
  pf_equity :: rat
  pf_curve :: "rat list"
  pf_concurrent :: "(string, nat) dict"
  pf_cursors :: "(string, snapshot_cursor) dict"
  pf_opened :: nat

record pf_engine =
  pn_engine :: bt_engine
  pn_correlations :: "(string \<times> string, rat) dict"

record pf_result =
  pr_results :: "(string, bt_result) dict"
  pr_initial_equity :: rat
  pr_final_equity :: rat
  pr_total_return :: rat
  pr_max_drawdown :: rat
  pr_total_trades :: nat
  pr_curve :: "rat list"

subsection \<open>Opening a trade\<close>

definition pair_correlation :: "(string \<times> string, rat) dict \<Rightarrow> string \<Rightarrow> string \<Rightarrow> rat" where
  "pair_correlation corr a b =
     max (-1) (min 1 (case dget corr (a, b) of Some c \<Rightarrow> c
       | None \<Rightarrow> (case dget corr (b, a) of Some c \<Rightarrow> c | None \<Rightarrow> 0)))"

fun correlated_total ::
  "(string \<times> string, rat) dict \<Rightarrow> string \<Rightarrow> (string, symbol_state) dict \<Rightarrow> rat \<Rightarrow> rat res" where
  "correlated_total corr symbol [] total_risk = Inr total_risk"
| "correlated_total corr symbol ((other, s) # rest) total_risk =
     (if other = symbol \<or> pair_correlation corr symbol other \<le> 0 then correlated_total corr symbol rest total_risk
      else res_bind (res_map trade_risk_cash (yb_open s)) (\<lambda>risks.
        correlated_total corr symbol rest (dadd total_risk (dmul (dsum risks) (pair_correlation corr symbol other)))))"

definition all_open :: "(string, symbol_state) dict \<Rightarrow> open_trade list" where
  "all_open states = concat (map (\<lambda>(symb, s). yb_open s) states)"

definition open_portfolio_trade ::
  "pf_engine \<Rightarrow> string \<Rightarrow> strategy_signal \<Rightarrow> candle \<Rightarrow> rat \<Rightarrow> open_trade list \<Rightarrow> (string, symbol_state) dict \<Rightarrow> string
    \<Rightarrow> open_trade option res" where
  "open_portfolio_trade P pid sg bar equity existing states symbol =
     (if existing \<noteq> [] \<or> equity \<le> 0 then Inr None
      else let cfg = en_config (pn_engine P); costs = en_costs (pn_engine P) in
        res_bind (cost_entry_price costs (sg_direction sg) (cd_open bar)) (\<lambda>entry.
        guard (entry = 0) (OtherError ''DivisionByZero'')
        (let distance = ddiv (dabs (dsub entry (sg_stop_loss sg))) entry in
         if distance \<le> 0 \<or> sg_stop_loss sg \<le> 0 then Inr None
         else
           res_bind (risk_budget_amount equity (bc_risk_per_trade cfg)) (\<lambda>risk_cash.
           res_bind (res_map trade_risk_cash (all_open states)) (\<lambda>risks.
           res_bind (risk_budget_amount equity (bc_max_aggregate_risk cfg)) (\<lambda>aggregate_budget.
           if aggregate_budget < dadd (dsum risks) risk_cash then Inr None
           else
             res_bind (correlated_total (pn_correlations P) symbol states risk_cash) (\<lambda>correlated.
             res_bind (risk_budget_amount equity 2) (\<lambda>correlated_budget.
             if correlated_budget < correlated then Inr None
             else
               let amount = ddiv risk_cash distance; capital = dsum (map et_total_amount (all_open states)) in
               res_bind (risk_budget_amount equity (bc_max_futures_capital cfg)) (\<lambda>max_capital.
               if max_capital < dadd capital amount then Inr None
               else Inr (Some \<lparr>et_position_id = pid, et_signal = sg, et_entry_time = cd_timestamp bar, et_entry_price = entry,
                 et_quantity = ddiv amount entry, et_total_amount = amount, et_leverage = 1,
                 et_entry_commission = cost_commission costs amount, et_funding_cost = 0\<rparr>))))))))))"

subsection \<open>One timestamp\<close>

definition bar_at :: "candle list \<Rightarrow> datetime \<Rightarrow> candle option" where
  "bar_at bars t = find (\<lambda>b. instant (cd_timestamp b) = instant t) bars"

definition active_bars :: "datetime \<Rightarrow> (string, symbol_state) dict \<Rightarrow> (string \<times> candle) list" where
  "active_bars t states =
     sort_key fst (concat (map (\<lambda>(symb, s). case bar_at (yb_bars s) t of None \<Rightarrow> [] | Some b \<Rightarrow> [(symb, b)]) states))"

definition enter_symbol :: "pf_engine \<Rightarrow> string \<times> candle \<Rightarrow> pf_state \<Rightarrow> pf_state res" where
  "enter_symbol P x p =
     (case dget (pf_states p) (fst x) of
        None \<Rightarrow> Inl (KeyError (fst x))
      | Some s \<Rightarrow>
        (case yb_pending s of
           None \<Rightarrow> Inr p
         | Some sg \<Rightarrow>
           let s1 = s\<lparr>yb_pending := None\<rparr>; p1 = p\<lparr>pf_states := dput (fst x) s1 (pf_states p)\<rparr> in
           if sg_direction sg = ''SHORT'' \<and> \<not> bc_allow_short (en_config (pn_engine P))
           then Inr (p\<lparr>pf_states := dput (fst x) (s1\<lparr>yb_rejected := yb_rejected s + 1\<rparr>) (pf_states p)\<rparr>)
           else
             res_bind (open_portfolio_trade P (en_ids (pn_engine P) (pf_opened p)) sg (snd x) (pf_equity p) (yb_open s)
                 (pf_states p1) (fst x)) (\<lambda>r. case r of
               None \<Rightarrow> Inr p1
             | Some t \<Rightarrow>
                 let s2 = s1\<lparr>yb_open := yb_open s @ [t]\<rparr> in
                 Inr (p1\<lparr>pf_states := dput (fst x) s2 (pf_states p1), pf_equity := dsub (pf_equity p) (et_entry_commission t),
                   pf_opened := pf_opened p + 1,
                   pf_concurrent := dput (fst x) (max (case dget (pf_concurrent p) (fst x) of None \<Rightarrow> 0 | Some k \<Rightarrow> k)
                     (length (yb_open s2))) (pf_concurrent p)\<rparr>))))"

text \<open>The record of a trade is that of the single engine, dated at the opening of the bar.\<close>

definition dated :: "candle \<Rightarrow> trade_record \<Rightarrow> trade_record" where
  "dated bar r = r\<lparr>td_exit_time := cd_timestamp bar\<rparr>"

definition manage_symbol :: "pf_engine \<Rightarrow> string \<times> candle \<Rightarrow> pf_state \<Rightarrow> pf_state res" where
  "manage_symbol P x p =
     (case dget (pf_states p) (fst x) of
        None \<Rightarrow> Inl (KeyError (fst x))
      | Some s \<Rightarrow>
          res_bind (exit_loop (en_costs (pn_engine P)) (fst x) (snd x) (yb_open s) (pf_equity p)) (\<lambda>(equity, rem, recs).
            Inr (p\<lparr>pf_equity := equity, pf_states := dput (fst x)
              (s\<lparr>yb_open := rem, yb_trades := yb_trades s @ map (dated (snd x)) recs\<rparr>) (pf_states p)\<rparr>)))"

definition cursor_for :: "(string, (string, candle list) dict) dict \<Rightarrow> string \<Rightarrow> pf_state \<Rightarrow> snapshot_cursor" where
  "cursor_for prepared symb p =
     (case dget (pf_cursors p) symb of
        Some u \<Rightarrow> u
      | None \<Rightarrow> cursor_new symb (case dget prepared symb of None \<Rightarrow> [] | Some d \<Rightarrow> d))"

definition judge_signal :: "pf_engine \<Rightarrow> (string, market_snapshot) dict \<Rightarrow> symbol_state \<Rightarrow> symbol_state res" where
  "judge_signal P d s =
     (case (dget d ''1d'', dget d ''4h'', dget d ''1h'', dget d ''15m'') of
        (Some daily, Some four, Some one, Some fifteen) \<Rightarrow>
          (case evaluate_strategy daily four one fifteen (en_rules (pn_engine P)) of
             Inl e \<Rightarrow> if engine_catches e then Inr (s\<lparr>yb_rejected := yb_rejected s + 1\<rparr>) else Inl e
           | Inr sg \<Rightarrow> Inr (if sg_state sg = READY_FOR_RISK_REVIEW then s\<lparr>yb_pending := Some sg\<rparr>
                            else s\<lparr>yb_rejected := yb_rejected s + 1\<rparr>))
      | _ \<Rightarrow> Inl (KeyError ''1d''))"

definition decide_symbol ::
  "pf_engine \<Rightarrow> (string, (string, candle list) dict) dict \<Rightarrow> datetime \<Rightarrow> string \<times> candle \<Rightarrow> pf_state \<Rightarrow> pf_state res" where
  "decide_symbol P prepared now x p =
     (case dget (pf_states p) (fst x) of
        None \<Rightarrow> Inl (KeyError (fst x))
      | Some s \<Rightarrow>
        (case snapshots_at now (cursor_for prepared (fst x) p) of
           (u, Inl e) \<Rightarrow> Inl e
         | (u, Inr None) \<Rightarrow> Inr (p\<lparr>pf_cursors := dput (fst x) u (pf_cursors p)\<rparr>)
         | (u, Inr (Some d)) \<Rightarrow> res_bind (judge_signal P d s) (\<lambda>s.
             Inr (p\<lparr>pf_cursors := dput (fst x) u (pf_cursors p), pf_states := dput (fst x) s (pf_states p)\<rparr>))))"

fun each_symbol :: "('x \<Rightarrow> pf_state \<Rightarrow> pf_state res) \<Rightarrow> 'x list \<Rightarrow> pf_state \<Rightarrow> pf_state res" where
  "each_symbol f [] p = Inr p"
| "each_symbol f (x # xs) p = res_bind (f x p) (each_symbol f xs)"

definition portfolio_step ::
  "pf_engine \<Rightarrow> (string, (string, candle list) dict) dict \<Rightarrow> datetime \<Rightarrow> pf_state \<Rightarrow> pf_state res" where
  "portfolio_step P prepared t p =
     (let active = active_bars t (pf_states p) in
      res_bind (each_symbol (enter_symbol P) active p) (\<lambda>p.
      res_bind (each_symbol (manage_symbol P) active p) (\<lambda>p.
      each_symbol (decide_symbol P prepared (time_plus (timeframe_duration ''15m'') t)) active
        (p\<lparr>pf_curve := pf_curve p @ [pf_equity p]\<rparr>))))"

subsection \<open>The run\<close>

definition timeline :: "(string, (string, candle list) dict) dict \<Rightarrow> datetime list" where
  "timeline prepared =
     sort_key instant (remdups (concat (map (\<lambda>(symb, d). map cd_timestamp (case dget d ''15m'' of None \<Rightarrow> [] | Some rs \<Rightarrow> rs)) prepared)))"

definition portfolio_start :: "pf_engine \<Rightarrow> (string, (string, candle list) dict) dict \<Rightarrow> pf_state" where
  "portfolio_start P prepared =
     \<lparr>pf_states = map (\<lambda>(symb, d). (symb, \<lparr>yb_bars = (case dget d ''15m'' of None \<Rightarrow> [] | Some rs \<Rightarrow> rs), yb_pending = None,
        yb_open = [], yb_trades = [], yb_rejected = 0\<rparr>)) prepared,
      pf_equity = bc_initial_equity (en_config (pn_engine P)), pf_curve = [bc_initial_equity (en_config (pn_engine P))],
      pf_concurrent = map (\<lambda>(symb, d). (symb, 0)) prepared, pf_cursors = [], pf_opened = 0\<rparr>"

definition finish_symbol :: "pf_engine \<Rightarrow> string \<Rightarrow> pf_state \<Rightarrow> pf_state res" where
  "finish_symbol P symb p =
     (case dget (pf_states p) symb of
        None \<Rightarrow> Inl (KeyError symb)
      | Some s \<Rightarrow>
        if yb_open s = [] then Inr p
        else res_bind (end_of_test_loop (en_costs (pn_engine P)) symb (last (yb_bars s)) (yb_open s) (pf_equity p)) (\<lambda>(equity, recs).
          Inr (p\<lparr>pf_equity := equity, pf_curve := pf_curve p @ [equity], pf_states := dput symb
            (s\<lparr>yb_open := [], yb_trades := yb_trades s @ map (dated (last (yb_bars s))) recs\<rparr>) (pf_states p)\<rparr>)))"

definition symbol_result :: "pf_engine \<Rightarrow> pf_state \<Rightarrow> string \<times> symbol_state \<Rightarrow> (string \<times> bt_result) res" where
  "symbol_result P p x =
     (let initial = bc_initial_equity (en_config (pn_engine P)); trades = yb_trades (snd x);
          final = dadd initial (dsum (map td_realized_pnl trades)) in
      res_bind (calculate_metrics initial final trades [initial, final]) (\<lambda>(wins, factor, drawdown, total_return).
        Inr (fst x, \<lparr>br_initial_equity = initial, br_final_equity = final, br_trades = trades,
          br_rejected_signals = yb_rejected (snd x), br_open_positions_at_end = 0, br_max_drawdown_percent = drawdown,
          br_win_rate_percent = wins, br_profit_factor = factor, br_total_return_percent = total_return,
          br_max_concurrent_positions = (case dget (pf_concurrent p) (fst x) of None \<Rightarrow> 0 | Some k \<Rightarrow> k)\<rparr>)))"

definition portfolio_run :: "pf_engine \<Rightarrow> (string, (string, candle list) dict) dict \<Rightarrow> pf_result res" where
  "portfolio_run P source =
     guard (source = []) (ValueError ''candles_by_symbol cannot be empty'')
     (res_bind (res_map (\<lambda>(symb, d). res_bind (prepare symb d) (\<lambda>d. Inr (symb, d))) source) (\<lambda>prepared.
      guard (timeline prepared = []) (ValueError ''No 15m candles available'')
     (res_bind (each_symbol (portfolio_step P prepared) (timeline prepared) (portfolio_start P prepared)) (\<lambda>p.
      res_bind (each_symbol (finish_symbol P) (map fst (pf_states p)) p) (\<lambda>p.
      res_bind (res_map (symbol_result P p) (pf_states p)) (\<lambda>results.
      let initial = bc_initial_equity (en_config (pn_engine P));
          trades = concat (map (\<lambda>(symb, s). yb_trades s) (pf_states p)) in
      res_bind (calculate_metrics initial (pf_equity p) trades (pf_curve p)) (\<lambda>(wins, factor, drawdown, total_return).
        Inr \<lparr>pr_results = results, pr_initial_equity = initial, pr_final_equity = pf_equity p, pr_total_return = total_return,
             pr_max_drawdown = drawdown, pr_total_trades = length trades, pr_curve = pf_curve p\<rparr>)))))))"

subsection \<open>One open trade per symbol\<close>

text \<open>Of every state: at most one open trade, and trades recorded for the symbol they are kept under.\<close>

definition symbol_state_fine :: "string \<Rightarrow> symbol_state \<Rightarrow> bool" where
  "symbol_state_fine symb s \<longleftrightarrow> length (yb_open s) \<le> 1 \<and> (\<forall>r \<in> set (yb_trades s). td_symbol r = symb)"

definition pf_fine :: "pf_state \<Rightarrow> bool" where
  "pf_fine p \<longleftrightarrow> (\<forall>(symb, s) \<in> set (pf_states p). symbol_state_fine symb s) \<and> (\<forall>(symb, k) \<in> set (pf_concurrent p). k \<le> 1)"

lemma set_dput_subset: "set (dput k v d) \<subseteq> insert (k, v) (set d)"
  by (induction d) auto

lemma pf_fine_put:
  assumes "\<forall>(symb, s) \<in> set d. symbol_state_fine symb s" "symbol_state_fine symb s"
  shows "\<forall>(symb, s) \<in> set (dput symb s d). symbol_state_fine symb s"
  using assms set_dput_subset [of symb s d] by auto

lemma concurrent_put:
  assumes "\<forall>(symb, k) \<in> set d. k \<le> (1 :: nat)" "k \<le> 1"
  shows "\<forall>(symb, k) \<in> set (dput symb k d). k \<le> 1"
  using assms set_dput_subset [of symb k d] by auto

lemma pf_fine_get: "pf_fine p \<Longrightarrow> dget (pf_states p) symb = Some s \<Longrightarrow> symbol_state_fine symb s"
  by (auto simp: pf_fine_def dest: map_of_SomeD)

lemma pf_fine_concurrent: "pf_fine p \<Longrightarrow> dget (pf_concurrent p) symb = Some k \<Longrightarrow> k \<le> 1"
  by (auto simp: pf_fine_def dest: map_of_SomeD)

lemma open_portfolio_trade_empty:
  "open_portfolio_trade P pid sg bar equity existing states symb = Inr (Some t) \<Longrightarrow> existing = []"
  by (simp add: open_portfolio_trade_def split: if_splits)

lemma enter_symbol_fine:
  assumes "enter_symbol P x p = Inr p'" "pf_fine p"
  shows "pf_fine p'"
proof -
  obtain s where s: "dget (pf_states p) (fst x) = Some s" using assms(1) by (auto simp: enter_symbol_def split: option.splits)
  have fine: "symbol_state_fine (fst x) s" by (rule pf_fine_get [OF assms(2) s])
  show ?thesis
  proof (cases "yb_pending s")
    case None
    then show ?thesis using assms s by (simp add: enter_symbol_def)
  next
    case (Some sg)
    let ?s1 = "s\<lparr>yb_pending := None\<rparr>"
    let ?p1 = "p\<lparr>pf_states := dput (fst x) ?s1 (pf_states p)\<rparr>"
    have put: "\<forall>(symb, s) \<in> set (dput (fst x) s' (pf_states p)). symbol_state_fine symb s" if "symbol_state_fine (fst x) s'" for s'
      using assms(2) that by (intro pf_fine_put) (auto simp: pf_fine_def)
    have p1: "pf_fine ?p1" using put [of ?s1] fine assms(2) by (simp add: pf_fine_def symbol_state_fine_def)
    show ?thesis
    proof (cases "sg_direction sg = ''SHORT'' \<and> \<not> bc_allow_short (en_config (pn_engine P))")
      case True
      then have "p' = p\<lparr>pf_states := dput (fst x) (?s1\<lparr>yb_rejected := yb_rejected s + 1\<rparr>) (pf_states p)\<rparr>"
        using assms(1) s Some by (simp add: enter_symbol_def Let_def)
      then show ?thesis using put [of "?s1\<lparr>yb_rejected := yb_rejected s + 1\<rparr>"] fine assms(2)
        by (simp add: pf_fine_def symbol_state_fine_def)
    next
      case False
      then obtain r where r: "open_portfolio_trade P (en_ids (pn_engine P) (pf_opened p)) sg (snd x) (pf_equity p) (yb_open s)
          (pf_states ?p1) (fst x) = Inr r"
        using assms(1) s Some unfolding enter_symbol_def Let_def by (auto simp: res_bind_def split: sum.splits)
      show ?thesis
      proof (cases r)
        case None
        then have "p' = ?p1" using assms(1) s Some False r unfolding enter_symbol_def Let_def by auto
        then show ?thesis using p1 by simp
      next
        case (Some t)
        let ?s2 = "?s1\<lparr>yb_open := yb_open s @ [t]\<rparr>"
        have empty: "yb_open s = []" using r Some open_portfolio_trade_empty by blast
        have fine2: "symbol_state_fine (fst x) ?s2" using fine empty by (simp add: symbol_state_fine_def)
        have states: "pf_states p' = dput (fst x) ?s2 (pf_states ?p1)"
          and conc: "pf_concurrent p' = dput (fst x) (max (case dget (pf_concurrent p) (fst x) of None \<Rightarrow> 0 | Some k \<Rightarrow> k)
            (length (yb_open ?s2))) (pf_concurrent p)"
          using assms(1) s \<open>yb_pending s = Some sg\<close> False r Some unfolding enter_symbol_def Let_def by auto
        have "\<forall>(symb, s) \<in> set (pf_states p'). symbol_state_fine symb s"
          unfolding states using p1 fine2 by (intro pf_fine_put) (auto simp: pf_fine_def)
        moreover have "\<forall>(symb, k) \<in> set (pf_concurrent p'). k \<le> 1"
          unfolding conc using assms(2) pf_fine_concurrent [OF assms(2)] empty
          by (intro concurrent_put) (auto simp: pf_fine_def split: option.split)
        ultimately show ?thesis by (simp add: pf_fine_def)
      qed
    qed
  qed
qed

lemma exit_loop_shape:
  assumes "exit_loop costs symb bar ts e = Inr (e', rem, recs)"
  shows "length rem \<le> length ts \<and> (\<forall>r \<in> set recs. td_symbol r = symb)"
  using assms
proof (induction ts arbitrary: e e' rem recs)
  case (Cons t ts)
  from Cons.prems show ?case
    by (auto simp: res_bind_Inr_iff Let_def close_trade_def trade_record_of_def split: option.splits dest!: Cons.IH)
qed simp

lemma end_of_test_symbols:
  assumes "end_of_test_loop costs symb bar ts e = Inr (e', recs)"
  shows "\<forall>r \<in> set recs. td_symbol r = symb"
  using assms
proof (induction ts arbitrary: e e' recs)
  case (Cons t ts)
  from Cons.prems show ?case
    by (auto simp: res_bind_Inr_iff Let_def close_trade_def trade_record_of_def dest!: Cons.IH)
qed simp

text \<open>A step that replaces the state of one symbol by a fine one, and leaves the counts.\<close>

lemma pf_fine_replace:
  assumes "pf_fine p" "symbol_state_fine symb s" "pf_states p' = dput symb s (pf_states p)" "pf_concurrent p' = pf_concurrent p"
  shows "pf_fine p'"
proof -
  have "\<forall>(symb, s) \<in> set (pf_states p'). symbol_state_fine symb s"
    unfolding assms(3) using assms(1,2) by (intro pf_fine_put) (auto simp: pf_fine_def)
  then show ?thesis using assms(1,4) by (simp add: pf_fine_def)
qed

lemma manage_symbol_fine:
  assumes "manage_symbol P x p = Inr p'" "pf_fine p"
  shows "pf_fine p'"
proof -
  obtain s where s: "dget (pf_states p) (fst x) = Some s" using assms(1) by (auto simp: manage_symbol_def split: option.splits)
  then obtain e rem recs where m: "exit_loop (en_costs (pn_engine P)) (fst x) (snd x) (yb_open s) (pf_equity p) = Inr (e, rem, recs)"
    "p' = p\<lparr>pf_equity := e, pf_states := dput (fst x)
       (s\<lparr>yb_open := rem, yb_trades := yb_trades s @ map (dated (snd x)) recs\<rparr>) (pf_states p)\<rparr>"
    using assms(1) by (auto simp: manage_symbol_def res_bind_Inr_iff)
  show ?thesis
    by (rule pf_fine_replace [OF assms(2), where symb = "fst x"])
      (use exit_loop_shape [OF m(1)] pf_fine_get [OF assms(2) s] in \<open>auto simp: symbol_state_fine_def dated_def m(2)\<close>)
qed

lemma judge_signal_fine: "judge_signal P d s = Inr s' \<Longrightarrow> symbol_state_fine symb s \<Longrightarrow> symbol_state_fine symb s'"
  by (auto simp: judge_signal_def symbol_state_fine_def split: option.splits sum.splits if_splits)

lemma decide_symbol_fine:
  assumes "decide_symbol P prepared now x p = Inr p'" "pf_fine p"
  shows "pf_fine p'"
proof -
  obtain s where s: "dget (pf_states p) (fst x) = Some s" using assms(1) by (auto simp: decide_symbol_def split: option.splits)
  obtain u r where ur: "snapshots_at now (cursor_for prepared (fst x) p) = (u, Inr r)"
    using assms(1) s by (auto simp: decide_symbol_def split: prod.splits sum.splits)
  show ?thesis
  proof (cases r)
    case None
    then show ?thesis using assms s ur by (auto simp: decide_symbol_def pf_fine_def)
  next
    case (Some d)
    then obtain s' where s': "judge_signal P d s = Inr s'"
      "p' = p\<lparr>pf_cursors := dput (fst x) u (pf_cursors p), pf_states := dput (fst x) s' (pf_states p)\<rparr>"
      using assms(1) s ur by (auto simp: decide_symbol_def res_bind_Inr_iff)
    show ?thesis
      by (rule pf_fine_replace [OF assms(2) judge_signal_fine [OF s'(1) pf_fine_get [OF assms(2) s]]]) (simp_all add: s'(2))
  qed
qed

lemma finish_symbol_fine:
  assumes "finish_symbol P symb p = Inr p'" "pf_fine p"
  shows "pf_fine p'"
proof -
  obtain s where s: "dget (pf_states p) symb = Some s" using assms(1) by (auto simp: finish_symbol_def split: option.splits)
  show ?thesis
  proof (cases "yb_open s = []")
    case True
    then show ?thesis using assms s by (simp add: finish_symbol_def)
  next
    case False
    then obtain e recs where m:
      "end_of_test_loop (en_costs (pn_engine P)) symb (last (yb_bars s)) (yb_open s) (pf_equity p) = Inr (e, recs)"
      "p' = p\<lparr>pf_equity := e, pf_curve := pf_curve p @ [e], pf_states := dput symb
         (s\<lparr>yb_open := [], yb_trades := yb_trades s @ map (dated (last (yb_bars s))) recs\<rparr>) (pf_states p)\<rparr>"
      using assms(1) s by (auto simp: finish_symbol_def res_bind_Inr_iff)
    show ?thesis
      by (rule pf_fine_replace [OF assms(2), where symb = symb])
        (use end_of_test_symbols [OF m(1)] pf_fine_get [OF assms(2) s] in \<open>auto simp: symbol_state_fine_def dated_def m(2)\<close>)
  qed
qed

lemma each_symbol_fine:
  assumes "\<And>x p p'. f x p = Inr p' \<Longrightarrow> pf_fine p \<Longrightarrow> pf_fine p'" "each_symbol f xs p = Inr p'" "pf_fine p"
  shows "pf_fine p'"
  using assms(2,3)
proof (induction xs arbitrary: p)
  case (Cons x xs)
  then obtain q where "f x p = Inr q" "each_symbol f xs q = Inr p'" by (auto simp: res_bind_Inr_iff)
  with Cons assms(1) show ?case by blast
qed simp

lemma portfolio_step_fine:
  assumes "portfolio_step P prepared t p = Inr p'" "pf_fine p"
  shows "pf_fine p'"
proof -
  let ?active = "active_bars t (pf_states p)" and ?now = "time_plus (timeframe_duration ''15m'') t"
  obtain p1 p2 where p: "each_symbol (enter_symbol P) ?active p = Inr p1" "each_symbol (manage_symbol P) ?active p1 = Inr p2"
    "each_symbol (decide_symbol P prepared ?now) ?active (p2\<lparr>pf_curve := pf_curve p2 @ [pf_equity p2]\<rparr>) = Inr p'"
    using assms(1) by (auto simp: portfolio_step_def Let_def res_bind_Inr_iff)
  have f1: "pf_fine p1" by (rule each_symbol_fine [OF enter_symbol_fine p(1) assms(2)])
  have "pf_fine p2" by (rule each_symbol_fine [OF manage_symbol_fine p(2) f1])
  then have f3: "pf_fine (p2\<lparr>pf_curve := pf_curve p2 @ [pf_equity p2]\<rparr>)" by (simp add: pf_fine_def)
  show ?thesis by (rule each_symbol_fine [OF decide_symbol_fine p(3) f3])
qed

lemma portfolio_start_fine: "pf_fine (portfolio_start P prepared)"
  by (auto simp: pf_fine_def portfolio_start_def symbol_state_fine_def)

lemma portfolio_run_fine:
  assumes "portfolio_run P source = Inr r"
  shows "\<forall>(symb, b) \<in> set (pr_results r). br_max_concurrent_positions b \<le> 1 \<and> (\<forall>t \<in> set (br_trades b). td_symbol t = symb)"
    and "pr_total_trades r = sum_list (map (\<lambda>x. length (br_trades (snd x))) (pr_results r))"
proof -
  from assms obtain prepared p1 p where p:
    "each_symbol (portfolio_step P prepared) (timeline prepared) (portfolio_start P prepared) = Inr p1"
    "each_symbol (finish_symbol P) (map fst (pf_states p1)) p1 = Inr p"
    "list_all2 (\<lambda>x y. symbol_result P p x = Inr y) (pf_states p) (pr_results r)"
    "pr_total_trades r = length (concat (map (\<lambda>(symb, s). yb_trades s) (pf_states p)))"
    by (auto simp: portfolio_run_def guard_Inr_iff res_bind_Inr_iff res_map_Inr_iff Let_def)
  have f1: "pf_fine p1" by (rule each_symbol_fine [OF portfolio_step_fine p(1) portfolio_start_fine])
  have fine: "pf_fine p" by (rule each_symbol_fine [OF finish_symbol_fine p(2) f1])
  have conc: "(case dget (pf_concurrent p) symb of None \<Rightarrow> 0 | Some k \<Rightarrow> k) \<le> 1" for symb
    using pf_fine_concurrent [OF fine, of symb] by (simp split: option.split)
  have res: "fst x = fst y \<and> br_trades (snd y) = yb_trades (snd x) \<and> br_max_concurrent_positions (snd y) \<le> 1"
    if "symbol_result P p x = Inr y" for x y
    using that conc [of "fst x"] by (auto simp: symbol_result_def res_bind_Inr_iff Let_def)
  have all: "list_all2 (\<lambda>x y. fst x = fst y \<and> br_trades (snd y) = yb_trades (snd x) \<and> br_max_concurrent_positions (snd y) \<le> 1)
      (pf_states p) (pr_results r)"
    by (rule list_all2_mono [OF p(3)]) (rule res)
  show "\<forall>(symb, b) \<in> set (pr_results r). br_max_concurrent_positions b \<le> 1 \<and> (\<forall>t \<in> set (br_trades b). td_symbol t = symb)"
  proof (clarify, intro conjI ballI)
    fix symb b assume "(symb, b) \<in> set (pr_results r)"
    then obtain i where i: "i < length (pr_results r)" "pr_results r ! i = (symb, b)" by (auto simp: in_set_conv_nth)
    have x: "fst (pf_states p ! i) = symb" "br_trades b = yb_trades (snd (pf_states p ! i))" "br_max_concurrent_positions b \<le> 1"
      using list_all2_nthD2 [OF all i(1)] by (auto simp: i(2))
    have "pf_states p ! i \<in> set (pf_states p)" using i(1) list_all2_lengthD [OF all] by simp
    then have "symbol_state_fine symb (snd (pf_states p ! i))" using fine x(1) by (auto simp: pf_fine_def)
    then show "br_max_concurrent_positions b \<le> 1" "\<And>t. t \<in> set (br_trades b) \<Longrightarrow> td_symbol t = symb"
      using x by (auto simp: symbol_state_fine_def)
  qed
  have "map (\<lambda>x. length (yb_trades (snd x))) (pf_states p) = map (\<lambda>x. length (br_trades (snd x))) (pr_results r)"
    using all by (simp add: list_eq_iff_nth_eq list_all2_conv_all_nth)
  then show "pr_total_trades r = sum_list (map (\<lambda>x. length (br_trades (snd x))) (pr_results r))"
    by (simp add: p(4) length_concat comp_def case_prod_beta)
qed

end
