(* ===== verification/Performance.thy ===== *)
theory Performance
  imports Journal "HOL-Library.Multiset"
begin

section \<open>Performance analytics\<close>

text \<open>
  \<^verbatim>\<open>app/analytics/performance.py\<close>, \<^verbatim>\<open>advanced.py\<close> and \<^verbatim>\<open>service.py\<close>: reports over journal entries. The text of a
  JSON value that is no string, the month of a time, the square root of a float and the seconds of a duration (a float too)
  are arguments.
\<close>

subsection \<open>The report\<close>

record performance_report =
  pe_total_trades :: nat
  pe_wins :: nat
  pe_losses :: nat
  pe_breakeven :: nat
  pe_gross_profit :: rat
  pe_gross_loss :: rat
  pe_net_pnl :: rat
  pe_win_rate_percent :: rat
  pe_average_pnl :: rat
  pe_average_win :: rat
  pe_average_loss :: rat
  pe_profit_factor :: "rat option"
  pe_expectancy :: rat
  pe_max_consecutive_losses :: nat
  pe_best_trade :: "rat option"
  pe_worst_trade :: "rat option"
  pe_average_r_multiple :: "rat option"

fun streak_loop :: "rat list \<Rightarrow> nat \<Rightarrow> nat \<Rightarrow> nat" where
  "streak_loop [] current longest = longest"
| "streak_loop (p # ps) current longest =
     (if p < 0 then streak_loop ps (current + 1) (max longest (current + 1)) else streak_loop ps 0 longest)"

definition mean_or :: "'a \<Rightarrow> (rat \<Rightarrow> 'a) \<Rightarrow> rat list \<Rightarrow> 'a" where
  "mean_or d f xs = (if xs = [] then d else f (ddiv (dsum xs) (of_nat (length xs))))"

definition found_values :: "'a option list \<Rightarrow> 'a list" where
  "found_values xs = concat (map (case_option [] (\<lambda>x. [x])) xs)"

definition report_of_pnls :: "rat list \<Rightarrow> rat option \<Rightarrow> performance_report" where
  "report_of_pnls pnls average_r =
     (let wins = filter (\<lambda>p. 0 < p) pnls; losses = filter (\<lambda>p. p < 0) pnls; n = length pnls;
          gross_profit = dsum wins; gross_loss = dsum (map dneg losses); net = dsub gross_profit gross_loss;
          average_win = (if wins = [] then 0 else ddiv gross_profit (of_nat (length wins)));
          average_loss = (if losses = [] then 0 else ddiv (dneg gross_loss) (of_nat (length losses)))
      in \<lparr>pe_total_trades = n, pe_wins = length wins, pe_losses = length losses,
          pe_breakeven = n - length wins - length losses, pe_gross_profit = gross_profit, pe_gross_loss = gross_loss,
          pe_net_pnl = net,
          pe_win_rate_percent = (if n = 0 then 0 else dmul (ddiv (of_nat (length wins)) (of_nat n)) 100),
          pe_average_pnl = (if n = 0 then 0 else ddiv net (of_nat n)),
          pe_average_win = average_win, pe_average_loss = average_loss,
          pe_profit_factor = (if 0 < gross_loss then Some (ddiv gross_profit gross_loss) else None),
          pe_expectancy = (if n = 0 then 0
            else dadd (dmul (ddiv (of_nat (length wins)) (of_nat n)) average_win)
                   (dmul (ddiv (of_nat (length losses)) (of_nat n)) average_loss)),
          pe_max_consecutive_losses = streak_loop pnls 0 0,
          pe_best_trade = (if pnls = [] then None else Some (Max (set pnls))),
          pe_worst_trade = (if pnls = [] then None else Some (Min (set pnls))),
          pe_average_r_multiple = average_r\<rparr>)"

definition analyze_performance :: "journal_entry list \<Rightarrow> performance_report res" where
  "analyze_performance entries =
     (let rows = sort_key entry_key entries in
      res_bind (res_map realized_r_multiple rows) (\<lambda>rs.
        Inr (report_of_pnls (map je_realized_pnl rows) (mean_or None Some (found_values rs)))))"

subsection \<open>The detailed report\<close>

record equity_point =
  ep_closed_at :: datetime
  ep_equity :: rat

record detailed_report =
  dr_overall :: performance_report
  dr_by_setup :: "(string, performance_report) dict"
  dr_by_regime :: "(string, performance_report) dict"
  dr_by_direction :: "(string, performance_report) dict"
  dr_by_symbol :: "(string, performance_report) dict"
  dr_by_month :: "(string, performance_report) dict"
  dr_equity_curve :: "equity_point list"

definition json_text_value :: "(json \<Rightarrow> string) \<Rightarrow> json option \<Rightarrow> string option" where
  "json_text_value text v =
     (case v of None \<Rightarrow> None | Some JNull \<Rightarrow> None | Some (JStr s) \<Rightarrow> (if s = '''' then None else Some s) | Some x \<Rightarrow> Some (text x))"

definition decision_value :: "(json \<Rightarrow> string) \<Rightarrow> string \<Rightarrow> string \<Rightarrow> journal_entry \<Rightarrow> string" where
  "decision_value text key fallback e =
     (case json_text_value text (dget (decision_of e) key) of None \<Rightarrow> fallback | Some s \<Rightarrow> s)"

definition regime_name :: "(json \<Rightarrow> string) \<Rightarrow> journal_entry \<Rightarrow> string" where
  "regime_name text e =
     (case json_text_value text (dget (decision_of e) ''market_regime'') of
        Some s \<Rightarrow> s
      | None \<Rightarrow>
          (case dget (decision_of e) ''strategy_quality'' of
             Some (JObj quality) \<Rightarrow>
               (case json_text_value text (dget quality ''regime'') of Some s \<Rightarrow> s | None \<Rightarrow> ''UNKNOWN'')
           | _ \<Rightarrow> ''UNKNOWN''))"

definition add_to_bucket :: "(journal_entry \<Rightarrow> string) \<Rightarrow> journal_entry \<Rightarrow> (string, journal_entry list) dict \<Rightarrow> (string, journal_entry list) dict" where
  "add_to_bucket key e d = dput (key e) ((case dget d (key e) of None \<Rightarrow> [] | Some es \<Rightarrow> es) @ [e]) d"

definition group_rows :: "(journal_entry \<Rightarrow> string) \<Rightarrow> journal_entry list \<Rightarrow> (string, performance_report) dict res" where
  "group_rows key rows =
     res_map (\<lambda>(name, items). res_bind (analyze_performance items) (\<lambda>r. Inr (name, r)))
       (sort_key fst (fold (add_to_bucket key) rows []))"

fun equity_points :: "rat \<Rightarrow> journal_entry list \<Rightarrow> equity_point list" where
  "equity_points equity [] = []"
| "equity_points equity (e # es) =
     (let x = dadd equity (je_realized_pnl e) in \<lparr>ep_closed_at = je_closed_at e, ep_equity = x\<rparr> # equity_points x es)"

definition side_text :: "position_side \<Rightarrow> string" where
  "side_text s = (case s of LONG \<Rightarrow> ''LONG'' | SHORT \<Rightarrow> ''SHORT'')"

definition analyze_detailed_performance ::
  "(json \<Rightarrow> string) \<Rightarrow> (datetime \<Rightarrow> string) \<Rightarrow> rat \<Rightarrow> journal_entry list \<Rightarrow> detailed_report res" where
  "analyze_detailed_performance text month starting_equity entries =
     guard (starting_equity \<le> 0) (ValueError ''starting_equity must be positive'')
     (let rows = sort_key entry_key entries in
      res_bind (analyze_performance rows) (\<lambda>overall.
      res_bind (group_rows (decision_value text ''setup'' ''UNKNOWN'') rows) (\<lambda>by_setup.
      res_bind (group_rows (regime_name text) rows) (\<lambda>by_regime.
      res_bind (group_rows (\<lambda>e. side_text (je_side e)) rows) (\<lambda>by_direction.
      res_bind (group_rows je_symbol rows) (\<lambda>by_symbol.
      res_bind (group_rows (\<lambda>e. month (je_closed_at e)) rows) (\<lambda>by_month.
      Inr \<lparr>dr_overall = overall, dr_by_setup = by_setup, dr_by_regime = by_regime, dr_by_direction = by_direction,
           dr_by_symbol = by_symbol, dr_by_month = by_month, dr_equity_curve = equity_points starting_equity rows\<rparr>)))))))"

subsection \<open>Risk analytics\<close>

record risk_report =
  rk_max_drawdown :: rat
  rk_recovery_factor :: "rat option"
  rk_average_holding_seconds :: rat
  rk_total_risk :: rat
  rk_realized_r_multiple :: "rat option"
  rk_sharpe :: "rat option"
  rk_sortino :: "rat option"
  rk_calmar :: "rat option"

fun risk_curve :: "rat \<Rightarrow> rat list \<Rightarrow> rat list" where
  "risk_curve equity [] = [equity]"
| "risk_curve equity (p # ps) = equity # risk_curve (dadd equity p) ps"

fun curve_drawdown :: "rat list \<Rightarrow> rat \<Rightarrow> rat \<Rightarrow> rat" where
  "curve_drawdown [] peak dd = dd"
| "curve_drawdown (v # vs) peak dd =
     (let p = max peak v in curve_drawdown vs p (if 0 < p then max dd (ddiv (dsub p v) p) else dd))"

definition mean_squares :: "rat list \<Rightarrow> rat \<Rightarrow> rat" where
  "mean_squares xs m = dsum (map (\<lambda>x. dmul (dsub x m) (dsub x m)) xs)"

definition risk_ratios :: "(rat \<Rightarrow> rat) \<Rightarrow> rat list \<Rightarrow> rat option \<times> rat option" where
  "risk_ratios float_sqrt returns =
     (if length returns < 2 then (None, None)
      else
        let m = ddiv (dsum returns) (of_nat (length returns));
            std = float_sqrt (ddiv (mean_squares returns m) (of_nat (length returns - 1)));
            downside = filter (\<lambda>x. x < 0) returns;
            downside_mean = ddiv (dsum downside) (of_nat (length downside));
            downside_std = float_sqrt (ddiv (mean_squares downside downside_mean) (of_nat (length downside)))
        in (if 0 < std then Some (ddiv m std) else None,
            if downside \<noteq> [] \<and> 0 < downside_std then Some (ddiv m downside_std) else None))"

definition analyze_risk_performance :: "(rat \<Rightarrow> rat) \<Rightarrow> (int \<Rightarrow> rat) \<Rightarrow> rat \<Rightarrow> journal_entry list \<Rightarrow> risk_report res" where
  "analyze_risk_performance float_sqrt float_seconds starting_equity rows =
     (let curve = risk_curve starting_equity (map je_realized_pnl (sort_key entry_key rows));
          dd = curve_drawdown curve (hd curve) 0;
          returns = (if 0 < starting_equity then map (\<lambda>e. ddiv (je_realized_pnl e) starting_equity) rows else []);
          net = dsum (map je_realized_pnl rows);
          factor = (if 0 < dd then Some (ddiv net dd) else None);
          seconds = map (\<lambda>e. float_seconds (instant (je_closed_at e) - instant (je_opened_at e))) rows
      in res_bind (res_map realized_r_multiple rows) (\<lambda>rs.
        Inr \<lparr>rk_max_drawdown = dd, rk_recovery_factor = factor, rk_average_holding_seconds = mean_or 0 id seconds,
             rk_total_risk = dsum (map (dabs \<circ> je_realized_pnl) rows),
             rk_realized_r_multiple = mean_or None Some (found_values rs),
             rk_sharpe = fst (risk_ratios float_sqrt returns), rk_sortino = snd (risk_ratios float_sqrt returns),
             rk_calmar = factor\<rparr>))"

text \<open>\<^verbatim>\<open>AnalyticsService\<close> reads the entries from the repository of the journal.\<close>

definition service_performance :: "(string option \<Rightarrow> journal_entry list) \<Rightarrow> string option \<Rightarrow> performance_report res" where
  "service_performance list_all_entries symbol = analyze_performance (list_all_entries symbol)"

definition service_detailed ::
  "(json \<Rightarrow> string) \<Rightarrow> (datetime \<Rightarrow> string) \<Rightarrow> (string option \<Rightarrow> journal_entry list) \<Rightarrow> rat \<Rightarrow> detailed_report res" where
  "service_detailed text month list_all_entries starting_equity =
     analyze_detailed_performance text month starting_equity (list_all_entries None)"

subsection \<open>Losing streaks\<close>

text \<open>The loop finds the longest run of losses: every run fits in it, and some run attains it.\<close>

definition all_losses :: "rat list \<Rightarrow> bool" where
  "all_losses ps \<longleftrightarrow> list_all (\<lambda>p. p < 0) ps"

definition loss_run :: "rat list \<Rightarrow> rat list \<Rightarrow> bool" where
  "loss_run ps run \<longleftrightarrow> all_losses run \<and> (\<exists>us vs. ps = us @ run @ vs)"

lemma streak_loop_ge: "longest \<le> streak_loop ps current longest"
proof (induction ps current longest rule: streak_loop.induct)
  case (2 p ps current longest)
  then show ?case by (cases "p < 0") auto
qed simp

lemma streak_loop_prefix: "all_losses run \<Longrightarrow> run \<noteq> [] \<Longrightarrow> current + length run \<le> streak_loop (run @ vs) current longest"
proof (induction run arbitrary: current longest)
  case (Cons p run)
  then have p: "p < 0" "all_losses run" by (auto simp: all_losses_def)
  show ?case
  proof (cases "run = []")
    case True
    have "max longest (current + 1) \<le> streak_loop vs (current + 1) (max longest (current + 1))" by (rule streak_loop_ge)
    then show ?thesis using True p by auto
  next
    case False
    from Cons.IH [OF p(2) False, of "current + 1"] show ?thesis using p by simp
  qed
qed simp

lemma streak_loop_upper:
  assumes "all_losses run"
  shows "length run \<le> streak_loop (us @ run @ vs) current longest"
proof (induction us arbitrary: current longest)
  case Nil
  show ?case
  proof (cases "run = []")
    case False
    from streak_loop_prefix [OF assms False, of current vs longest] show ?thesis by simp
  qed simp
qed simp

lemma streak_loop_attained:
  "streak_loop ps current longest = longest \<or> (\<exists>run vs. all_losses run \<and> ps = run @ vs \<and> streak_loop ps current longest = current + length run)
    \<or> (\<exists>us run vs. all_losses run \<and> ps = us @ run @ vs \<and> streak_loop ps current longest = length run)"
proof (induction ps current longest rule: streak_loop.induct)
  case (2 p ps current longest)
  show ?case
  proof (cases "p < 0")
    case True
    from 2(1) [OF True] consider "streak_loop ps (current + 1) (max longest (current + 1)) = max longest (current + 1)"
      | run vs where "all_losses run" "ps = run @ vs" "streak_loop ps (current + 1) (max longest (current + 1)) = current + 1 + length run"
      | us run vs where "all_losses run" "ps = us @ run @ vs" "streak_loop ps (current + 1) (max longest (current + 1)) = length run"
      by blast
    then show ?thesis
    proof cases
      case 1
      have "all_losses [p]" using True by (simp add: all_losses_def)
      moreover have "p # ps = [p] @ ps" by simp
      ultimately have "\<exists>run vs. all_losses run \<and> p # ps = run @ vs \<and> current + 1 = current + length run"
        by (metis One_nat_def length_Cons list.size(3))
      then show ?thesis using 1 True by (auto simp: max_def)
    next
      case 2
      have "all_losses (p # run)" "p # ps = (p # run) @ vs" "current + 1 + length run = current + length (p # run)"
        using 2 True by (simp_all add: all_losses_def)
      then show ?thesis using 2(3) True by (metis streak_loop.simps(2))
    next
      case 3
      have "p # ps = (p # us) @ run @ vs" using 3 by simp
      then show ?thesis using 3 True by (metis streak_loop.simps(2))
    qed
  next
    case False
    from 2(2) [OF False] consider "streak_loop ps 0 longest = longest"
      | run vs where "all_losses run" "ps = run @ vs" "streak_loop ps 0 longest = length run"
      | us run vs where "all_losses run" "ps = us @ run @ vs" "streak_loop ps 0 longest = length run"
      by (metis add_0)
    then show ?thesis
    proof cases
      case 2
      have "p # ps = [p] @ run @ vs" using 2 by simp
      then show ?thesis using 2 False by (metis streak_loop.simps(2))
    next
      case 3
      have "p # ps = (p # us) @ run @ vs" using 3 by simp
      then show ?thesis using 3 False by (metis streak_loop.simps(2))
    qed (use False in simp)
  qed
qed simp

lemma streak_is_longest:
  "(\<exists>run. loss_run ps run \<and> length run = streak_loop ps 0 0) \<and> (\<forall>run. loss_run ps run \<longrightarrow> length run \<le> streak_loop ps 0 0)"
proof
  have "loss_run ps []" by (auto simp: loss_run_def all_losses_def)
  with streak_loop_attained [of ps 0 0] show "\<exists>run. loss_run ps run \<and> length run = streak_loop ps 0 0"
    unfolding loss_run_def by (metis add_0 append_Nil list.size(3))
  show "\<forall>run. loss_run ps run \<longrightarrow> length run \<le> streak_loop ps 0 0"
    using streak_loop_upper by (auto simp: loss_run_def)
qed

subsection \<open>Grouping\<close>

definition bucket_total :: "(string, journal_entry list) dict \<Rightarrow> nat" where
  "bucket_total d = sum_list (map (length \<circ> snd) d)"

lemma bucket_total_dput:
  "dict_ok d \<Longrightarrow> bucket_total (dput k v d) + (case dget d k of None \<Rightarrow> 0 | Some w \<Rightarrow> length w) = bucket_total d + length v"
  by (induction d) (auto simp: bucket_total_def dict_ok_def split: option.splits)

lemma add_to_bucket_props:
  assumes "dict_ok d" "\<forall>(k, es) \<in> set d. es \<noteq> [] \<and> (\<forall>e \<in> set es. key e = k)"
  shows "dict_ok (add_to_bucket key e d)" "bucket_total (add_to_bucket key e d) = Suc (bucket_total d)"
    "\<forall>(k, es) \<in> set (add_to_bucket key e d). es \<noteq> [] \<and> (\<forall>e \<in> set es. key e = k)"
  using assms bucket_total_dput [OF assms(1), of "key e" "(case dget d (key e) of None \<Rightarrow> [] | Some es \<Rightarrow> es) @ [e]"]
  by (auto simp: add_to_bucket_def set_dput split: option.splits dest: map_of_SomeD)

lemma fold_bucket_props:
  assumes "dict_ok d" "\<forall>(k, es) \<in> set d. es \<noteq> [] \<and> (\<forall>e \<in> set es. key e = k)"
  shows "dict_ok (fold (add_to_bucket key) rows d) \<and> bucket_total (fold (add_to_bucket key) rows d) = bucket_total d + length rows \<and>
    (\<forall>(k, es) \<in> set (fold (add_to_bucket key) rows d). es \<noteq> [] \<and> (\<forall>e \<in> set es. key e = k))"
  using assms
proof (induction rows arbitrary: d)
  case (Cons e rows)
  from add_to_bucket_props [OF Cons.prems] show ?case using Cons.IH [of "add_to_bucket key e d"] by simp
qed simp

lemma analyze_total: "analyze_performance es = Inr r \<Longrightarrow> pe_total_trades r = length es"
  by (auto simp: analyze_performance_def res_bind_Inr_iff Let_def report_of_pnls_def)

text \<open>The groups partition the entries: names are distinct and no entry is lost or counted twice.\<close>

lemma group_rows_partition:
  assumes "group_rows key rows = Inr gs"
  shows "distinct (map fst gs) \<and> sum_list (map (pe_total_trades \<circ> snd) gs) = length rows"
proof -
  let ?d = "fold (add_to_bucket key) rows []"
  have ok: "dict_ok ?d" "bucket_total ?d = length rows"
    using fold_bucket_props [of "[]" key rows] by (simp_all add: bucket_total_def)
  from assms have all: "list_all2 (\<lambda>x y. fst x = fst y \<and> pe_total_trades (snd y) = length (snd x)) (sort_key fst ?d) gs"
    unfolding group_rows_def res_map_Inr_iff
    by (rule list_all2_mono) (auto simp: res_bind_Inr_iff dest: analyze_total)
  have names: "map fst (sort_key fst ?d) = map fst gs" "map (length \<circ> snd) (sort_key fst ?d) = map (pe_total_trades \<circ> snd) gs"
    using all by (simp_all add: list_eq_iff_nth_eq list_all2_conv_all_nth)
  have perm: "mset (map f (sort_key fst ?d)) = mset (map f ?d)" for f :: "string \<times> journal_entry list \<Rightarrow> 'b" by simp
  have "distinct (map fst (sort_key fst ?d))"
    using ok(1) perm [of fst] unfolding dict_ok_def by (metis mset_eq_imp_distinct_iff)
  moreover have "sum_list (map (length \<circ> snd) (sort_key fst ?d)) = bucket_total ?d"
    using perm [of "length \<circ> snd"] unfolding bucket_total_def by (metis sum_mset_sum_list)
  ultimately show ?thesis using names ok(2) by metis
qed

subsection \<open>What a report depends on\<close>

lemma report_counts:
  assumes "analyze_performance es = Inr r"
  shows "pe_wins r + pe_losses r + pe_breakeven r = pe_total_trades r" "pe_total_trades r = length es"
    "pe_max_consecutive_losses r \<le> pe_losses r"
proof -
  obtain average_r where r: "r = report_of_pnls (map je_realized_pnl (sort_key entry_key es)) average_r"
    using assms by (auto simp: analyze_performance_def res_bind_Inr_iff Let_def)
  let ?ps = "map je_realized_pnl (sort_key entry_key es)"
  have "length (filter (\<lambda>p. 0 < p) ps) + length (filter (\<lambda>p. p < 0) ps) \<le> length ps" for ps :: "rat list"
    by (induction ps) auto
  from this [of ?ps] show "pe_wins r + pe_losses r + pe_breakeven r = pe_total_trades r"
    by (simp add: r report_of_pnls_def Let_def)
  show "pe_total_trades r = length es" by (rule analyze_total [OF assms])
  obtain run us vs where run: "all_losses run" "?ps = us @ run @ vs" "length run = streak_loop ?ps 0 0"
    using streak_is_longest [of ?ps] by (auto simp: loss_run_def)
  have "filter (\<lambda>p. p < 0) run = run" using run(1) by (simp add: all_losses_def list_all_iff filter_id_conv)
  then have "length run \<le> length (filter (\<lambda>p. p < 0) ?ps)" by (simp add: run(2))
  then show "pe_max_consecutive_losses r \<le> pe_losses r" by (simp add: r report_of_pnls_def Let_def run(3))
qed

lemma sort_by_entry_key:
  assumes "mset es = mset fs" "distinct (map entry_key es)"
  shows "sort_key entry_key es = sort_key entry_key fs"
proof (rule sort_key_inj_key_eq)
  show "mset es = mset (sort_key entry_key fs)" using assms(1) by simp
  show "inj_on entry_key (set es)" using assms(2) by (simp add: distinct_map)
qed simp

lemma performance_order_independent:
  assumes "mset es = mset fs" "distinct (map entry_key es)"
  shows "analyze_performance es = analyze_performance fs"
    "analyze_detailed_performance text month starting_equity es = analyze_detailed_performance text month starting_equity fs"
  unfolding analyze_performance_def analyze_detailed_performance_def sort_by_entry_key [OF assms] by simp_all

end
