(* ===== verification/Backtest_Properties.thy ===== *)
theory Backtest_Properties
  imports Examples Backtest_Examples Walk_Forward Robustness Parameter_Stability Portfolio_Backtest Performance
begin

section \<open>Properties of the backtest and of the analytics\<close>

text \<open>
  The properties of \<^verbatim>\<open>src/app/backtest\<close> and \<^verbatim>\<open>src/app/analytics\<close>, each with a run on a small input
  (\<open>Backtest_Examples\<close>).
\<close>

subsection \<open>The backtest\<close>

text \<open>
  What a backtest runs on: preparing a source gives, for each of the four timeframes, the rows of the symbol in the order of
  time, and at least one.
\<close>

theorem prepared_rows_ordered:
  assumes "prepare symbol source = Inr candles" "tf \<in> set timeframe_order"
  shows "\<exists>rows. dget candles tf = Some rows \<and> rows \<noteq> [] \<and> (\<forall>c \<in> set rows. cd_symbol c = symbol) \<and>
    sorted (map (instant \<circ> cd_timestamp) rows)"
proof -
  obtain rows where r: "dget candles tf = Some (prepare_rows symbol rows)" "prepare_rows symbol rows \<noteq> []"
    using prepare_parts [OF assms] by blast
  moreover have "sorted (map (instant \<circ> cd_timestamp) (prepare_rows symbol rows))"
    unfolding prepare_rows_def by (rule sorted_ordered)
  moreover have "\<forall>c \<in> set (prepare_rows symbol rows). cd_symbol c = symbol" by (auto simp: prepare_rows_def ordered_def)
  ultimately show ?thesis by blast
qed

theorem prepared_rows_ordered_witness:
  "\<exists>rows. dget (bx_source [100, 101]) ''15m'' = Some rows \<and> rows \<noteq> [] \<and> (\<forall>c \<in> set rows. cd_symbol c = ''BTC'') \<and>
    sorted (map (instant \<circ> cd_timestamp) rows)"
  by (rule prepared_rows_ordered [OF bx_prepared(2)]) (simp add: timeframe_order_def)

text \<open>
  C9. The incremental snapshots are exact. Whatever decision times the cursor has been asked for, in whatever order, its next answer is
  that of the reference, which analyses from scratch the candles completed by then; for sources whose rows carry their timeframe and
  distinct times.
\<close>

theorem cursor_equals_reference:
  assumes "prepare symbol source = Inr candles" "source_fits symbol source"
  shows "snd (snapshots_at now (fold (\<lambda>t u. fst (snapshots_at t u)) earlier (cursor_new symbol candles))) =
    snapshots_at_reference symbol candles now"
  using cursor_answers [OF prepare_fit [OF assms]] .

theorem cursor_equals_reference_witness:
  "snd (snapshots_at (Aware 5) (fst (snapshots_at (Aware 99) (cursor_new ''BTC'' (bx_source [100, 101]))))) =
    snapshots_at_reference ''BTC'' (bx_source [100, 101]) (Aware 5)"
  using cursor_equals_reference [OF bx_prepared(2) bx_fits(2), of "Aware 5" "[Aware 99]"] by simp

text \<open>
  C10. No look-ahead. Two runs whose sources agree on the candles completed by a time close the same trades up to that time: entries,
  exits, prices, amounts and results, whatever comes later.
\<close>

theorem no_look_ahead:
  assumes "engine_run E symbol src1 start = Inr (r1, e1)" "engine_run E symbol src2 start = Inr (r2, e2)"
    and "source_fits symbol src1" "source_fits symbol src2"
    and "\<And>tf. tf \<in> set timeframe_order \<Longrightarrow>
      completed (timeframe_duration tf) T (prepare_rows symbol (the (dget src1 tf))) =
      completed (timeframe_duration tf) T (prepare_rows symbol (the (dget src2 tf)))"
  shows "filter (closed_by T) (br_trades r1) = filter (closed_by T) (br_trades r2)"
  using assms by (rule run_no_look_ahead)

theorem no_look_ahead_witness:
  "\<exists>r1 e1 r2 e2. engine_run bx_engine ''BTC'' (bx_source [100]) None = Inr (r1, e1) \<and>
    engine_run bx_engine ''BTC'' (bx_source [100, 101]) None = Inr (r2, e2) \<and>
    filter (closed_by (15 * 60 * 10 ^ 6)) (br_trades r1) = filter (closed_by (15 * 60 * 10 ^ 6)) (br_trades r2)"
proof -
  obtain r1 e1 where r1: "engine_run bx_engine ''BTC'' (bx_source [100]) None = Inr (r1, e1)" by (rule bx_run)
  obtain r2 e2 where r2: "engine_run bx_engine ''BTC'' (bx_source [100, 101]) None = Inr (r2, e2)" by (rule bx_run_longer)
  have "completed (timeframe_duration tf) (15 * 60 * 10 ^ 6) (prepare_rows ''BTC'' (the (dget (bx_source [100]) tf))) =
      completed (timeframe_duration tf) (15 * 60 * 10 ^ 6) (prepare_rows ''BTC'' (the (dget (bx_source [100, 101]) tf)))"
    if "tf \<in> set timeframe_order" for tf
    using that by (auto simp: timeframe_order_def bx_source_def bx_candle_def completed_def prepare_rows_def ordered_def
        timeframe_duration_def known_timeframes_def enumerate_eq_zip)
  with no_look_ahead [OF r1 r2 bx_fits] r1 r2 show ?thesis by blast
qed

text \<open>
  A gap through the stop pays. The distance to the stop is taken without its sign and a stop is filled at its own price: a long trade
  whose bar opens below its stop is entered there and closed in the same bar at the stop, with a profit.
\<close>

theorem gap_through_stop_pays:
  assumes "open_trade_with_reason cfg no_costs pid sg bar equity existing = Inr (Inr t)" "sg_direction sg = ''LONG''"
    and "0 < cd_open bar" "cd_open bar < sg_stop_loss sg" "cd_low bar \<le> cd_open bar"
    and "rnd (cd_open bar) = cd_open bar" "rnd (sg_stop_loss sg) = sg_stop_loss sg" "0 < bc_risk_per_trade cfg"
  shows "\<exists>e r. exit_loop no_costs symbol bar [t] equity = Inr (e, [], [r]) \<and> td_exit_reason r = ''STOP_LOSS'' \<and>
    td_exit_price r = sg_stop_loss sg \<and> 0 < td_realized_pnl r"
  by (rule gap_pays [OF assms])

theorem gap_through_stop_pays_witness:
  "\<exists>t e r. open_trade_with_reason default_bt_config no_costs ''id'' ex_signal (bx_candle ''15m'' 0 76) 10000 [] = Inr (Inr t) \<and>
    exit_loop no_costs ''BTC'' (bx_candle ''15m'' 0 76) [t] 10000 = Inr (e, [], [r]) \<and> td_exit_reason r = ''STOP_LOSS'' \<and>
    0 < td_realized_pnl r"
proof -
  let ?open = "open_trade_with_reason default_bt_config no_costs ''id'' ex_signal (bx_candle ''15m'' 0 76) 10000 []"
  have "\<exists>t. ?open = Inr (Inr t)"
    by (simp add: open_trade_with_reason_def no_costs_simps ex_signal_def bx_candle_def default_bt_config_def
        risk_budget_amount_def guard_def Let_def dec_eval)
  then obtain t where t: "?open = Inr (Inr t)" ..
  have "\<exists>e r. exit_loop no_costs ''BTC'' (bx_candle ''15m'' 0 76) [t] 10000 = Inr (e, [], [r]) \<and> td_exit_reason r = ''STOP_LOSS'' \<and>
      td_exit_price r = sg_stop_loss ex_signal \<and> 0 < td_realized_pnl r"
    by (rule gap_through_stop_pays [OF t]) (simp_all add: ex_signal_def bx_candle_def default_bt_config_def rnd_short)
  then show ?thesis using t by blast
qed

text \<open>
  The diagnostics account for the run. From the events alone, the report repeats the counts of the result: the rejections it is meant to
  reproduce, one opened trade per recorded trade, every ready signal attempted or pending at the end, and nothing left open.
\<close>

theorem diagnostics_account:
  assumes "engine_run E symbol source start = Inr (r, evs)"
  shows "let p = to_payload (fold record_event evs diagnostics_new) in
    dp_legacy_rejected p = br_rejected_signals r \<and> dp_trades_opened p = length (br_trades r) \<and>
    dp_ready p = dp_entry_attempts p + dp_pending_at_end p \<and> dp_pending_at_end p \<le> 1 \<and> br_open_positions_at_end r = 0"
  using run_diagnostics [OF assms] by (simp add: Let_def)

theorem diagnostics_account_witness:
  "\<exists>r evs. engine_run bx_engine ''BTC'' (bx_source [100, 101]) None = Inr (r, evs) \<and>
    dp_trades_opened (to_payload (fold record_event evs diagnostics_new)) = length (br_trades r)"
proof -
  obtain r evs where r: "engine_run bx_engine ''BTC'' (bx_source [100, 101]) None = Inr (r, evs)" by (rule bx_run_longer)
  with diagnostics_account [OF r] show ?thesis by (auto simp: Let_def)
qed

subsection \<open>Walk-forward and robustness\<close>

text \<open>
  C38. Laying out the windows ends. When the sizes and the step pass the checks, the loop ends with
  \<open>(n - train - test) div step + 1\<close> windows, one every \<open>step\<close>, each a training range followed at once by its test range, the last inside the data.
\<close>

theorem window_loop_ends:
  assumes "build_windows n train test step0 = Inr r"
  shows "let step = (case step0 of None \<Rightarrow> test | Some s \<Rightarrow> s); k = window_count n (train + test) step 0 in
    r = Some (map (\<lambda>i. window_at train test (int i * step)) [0..<k]) \<and> (\<forall>i < k. int i * step + (train + test) \<le> n)"
  using build_windows_returns [OF assms] window_fits by (simp add: Let_def)

theorem window_loop_ends_witness:
  "build_windows 10 4 2 None = Inr (Some [window_at 4 2 0, window_at 4 2 2, window_at 4 2 4])"
proof -
  have b: "build_windows 10 4 2 None = Inr (windows_loop 10 4 2 2)" by (simp add: build_windows_def)
  have "[0..<2] = [0, 1 :: nat]" by (simp add: upt_rec)
  with window_loop_ends [OF b] b show ?thesis by (simp add: window_count_def)
qed

text \<open>
  C11. Out of sample is out of sample. Every result of a walk-forward run belongs to one of its windows, and each of its trades is entered
  after the first test candle and left by the end of the last one.
\<close>

theorem out_of_sample_trades:
  assumes "walk_forward_run R symbol source train test step = Inr (Some (ws, rs))" "r \<in> set rs"
  shows "\<exists>w \<in> set ws. \<forall>d \<in> set (br_trades r). inside_window source w d"
  by (rule walk_forward_trades [OF assms])

definition bx_runner :: wf_runner where
  "bx_runner = \<lparr>wr_config = default_bt_config, wr_optimizer = None, wr_rules = default_rules, wr_ids = (\<lambda>_. ''id'')\<rparr>"

theorem out_of_sample_trades_witness:
  "\<exists>ws r rs. walk_forward_run bx_runner ''BTC'' (bx_source [100, 101]) 1 1 None = Inr (Some (ws, r # rs)) \<and>
    (\<exists>w \<in> set ws. \<forall>d \<in> set (br_trades r). inside_window (bx_source [100, 101]) w d)"
proof -
  let ?src = "bx_source [100, 101]" and ?w = "window_at 1 1 0"
  let ?run = "walk_forward_run bx_runner ''BTC'' ?src 1 1 None"
  have rows: "source_15m ?src = [bx_candle ''15m'' 0 100, bx_candle ''15m'' 15 101]"
    by (simp add: source_15m_def bx_source_def bx_candle_def ordered_def enumerate_eq_zip)
  have built: "build_windows 2 1 1 None = Inr (Some [?w])"
  proof -
    have b: "build_windows 2 1 1 None = Inr (windows_loop 2 1 1 1)" by (simp add: build_windows_def)
    with build_windows_returns(1) [OF b] show ?thesis by (simp add: window_count_def)
  qed
  have segments: "train_segment ''BTC'' ?src ?w = bx_source [100]" "oos_segment ''BTC'' ?src ?w = bx_source [100, 101]"
    by (simp_all add: train_segment_def oos_segment_def segment_def row_time_def rows window_at_def)
      (simp_all add: bx_source_def bx_candle_def ordered_def enumerate_eq_zip)
  have complete: "segment_complete (bx_source [100])" "segment_complete (bx_source [100, 101])"
    by (simp_all add: segment_complete_def bx_source_def timeframe_order_def)
  note engine = bx_make
  obtain r1 e1 where r1: "engine_run bx_engine ''BTC'' (bx_source [100]) None = Inr (r1, e1)" by (rule bx_run)
  obtain r e where r: "engine_run bx_engine ''BTC'' ?src (Some (row_time ?src (ww_test_start ?w))) = Inr (r, e)" by (rule bx_run_longer)
  have "run_window bx_runner ''BTC'' ?src ?w = Inr (Some r)"
    using r1 r by (simp add: run_window_def segments complete backtest_of_def select_config_def bx_runner_def engine)
  then have run: "?run = Inr (Some ([?w], r # []))" by (simp add: walk_forward_run_def rows built run_windows_def)
  with out_of_sample_trades [OF run] show ?thesis by simp
qed



text \<open>
  C39. Every sampling mode returns. With a generator whose draws are below their bounds, sampling a path ends, keeps its length and draws only
  from its results; the modes that do not bootstrap permute it.
\<close>

theorem sampling_ends:
  assumes "fair below" "sample_pnl_path below seeded pnl mode seed block_size = Inr r"
  shows "\<exists>path. r = Some path \<and> length path = length pnl \<and> set path \<subseteq> set pnl \<and>
    (permuting mode \<longrightarrow> mset path = mset pnl)"
  by (rule sample_returns [OF assms])

theorem sampling_ends_witness:
  "\<exists>path. sample_pnl_path (\<lambda>g n. (g mod n, g + 1)) nat [1, -2, 3] BLOCK_BOOTSTRAP 7 2 = Inr (Some path) \<and> length path = 3"
proof -
  have fair: "fair (\<lambda>g n. (g mod n, g + 1))" by (simp add: fair_def)
  obtain r where r: "sample_pnl_path (\<lambda>g n. (g mod n, g + 1)) nat [1, -2, 3] BLOCK_BOOTSTRAP 7 2 = Inr r"
    by (simp add: sample_pnl_path_def Let_def)
  from sampling_ends [OF fair r] r show ?thesis by auto
qed

text \<open>
  C23. \<^verbatim>\<open>WORST_FIRST\<close> is the worst. On amounts whose sums are exact, no order of the same results has a deeper drawdown than the one this mode
  returns.
\<close>

theorem worst_first_deepest:
  assumes "maximum_drawdown_percent path initial = Inr d" "mset path = mset pnl" "pnl \<noteq> []"
    and "on_grid k initial" "\<forall>v \<in> set pnl. on_grid k v" "initial + sum_list (map abs pnl) < 10 ^ 28 * p10 k"
  shows "\<exists>worst d'. sample_pnl_path below seeded pnl WORST_FIRST 0 1 = Inr (Some worst) \<and>
    maximum_drawdown_percent worst initial = Inr d' \<and> d \<le> d'"
proof -
  have i: "0 < initial" "d = path_drawdown path initial initial 0"
    using assms(1) by (auto simp: maximum_drawdown_percent_def guard_Inr_iff)
  then have "d \<le> path_drawdown (sort pnl) initial initial 0" using worst_first_is_worst assms by blast
  then show ?thesis using i assms(3) by (simp add: sample_pnl_path_def maximum_drawdown_percent_def)
qed

theorem worst_first_deepest_witness:
  "\<exists>worst d'. sample_pnl_path (\<lambda>g n. (0, g)) id [30, -20, -10] WORST_FIRST 0 1 = Inr (Some worst) \<and>
    maximum_drawdown_percent worst 100 = Inr d' \<and> path_drawdown [30, -20, -10] 100 100 0 \<le> d'"
proof (rule worst_first_deepest [where k = 0])
  show "maximum_drawdown_percent [30, -20, -10] 100 = Inr (path_drawdown [30, -20, -10] 100 100 0)"
    by (simp add: maximum_drawdown_percent_def)
  have "on_grid 0 (of_int z)" for z unfolding on_grid_def by (rule exI [of _ z]) (simp add: p10_def)
  from this [of 100] this [of 30] this [of "-20"] this [of "-10"]
  show "on_grid 0 100" "\<forall>v \<in> set [30, -20, -10]. on_grid 0 v" by simp_all
qed (simp_all add: p10_def)

text \<open>
  Two of the sampling modes are one. \<^verbatim>\<open>LOSS_CLUSTER\<close> sorts by the pair of the sign and the value, which is the order of the values:
  it returns the path of \<^verbatim>\<open>WORST_FIRST\<close>, and \<^verbatim>\<open>WIN_CLUSTER\<close> its reverse.
\<close>

theorem loss_cluster_is_worst_first:
  "sample_pnl_path below seeded pnl LOSS_CLUSTER seed block_size = sample_pnl_path below seeded pnl WORST_FIRST seed block_size"
  by (simp add: sample_pnl_path_def Let_def loss_cluster_worst_first)

text \<open>
  A Monte Carlo run is ordered. The worst, the median and the best of equities, returns and drawdowns are in order, no equity is below
  nothing and no drawdown above 100 percent.
\<close>

theorem monte_carlo_bounds:
  assumes "run_monte_carlo below seeded trades n seed initial0 x = Inr r" "rnd (mc_initial_equity r) = mc_initial_equity r"
  shows "0 \<le> mc_worst_final r \<and> mc_worst_final r \<le> mc_median_final r \<and> mc_median_final r \<le> mc_best_final r \<and>
    mc_worst_return r \<le> mc_median_return r \<and> mc_median_return r \<le> mc_best_return r \<and>
    0 \<le> mc_median_drawdown r \<and> mc_median_drawdown r \<le> mc_worst_drawdown r \<and> mc_worst_drawdown r \<le> 100"
  by (rule monte_carlo_ordered [OF assms])

definition bx_trade :: "rat \<Rightarrow> trade_record" where
  "bx_trade pnl = \<lparr>td_position_id = ''id'', td_symbol = ''BTC'', td_direction = ''LONG'', td_setup = ''S'', td_entry_time = Aware 0,
     td_entry_price = 100, td_exit_time = Aware 1, td_exit_price = 101, td_stop_loss = 95, td_target = 110, td_quantity = 1,
     td_total_amount = 100, td_leverage = 1, td_realized_pnl = pnl, td_commission = 0, td_exit_reason = ''TAKE_PROFIT'',
     td_funding_cost = 0\<rparr>"

definition bx_stress :: stress where
  "bx_stress = \<lparr>ss_bootstrap = False, ss_slippage_percent = 1, ss_commission_multiplier = 1\<rparr>"

theorem monte_carlo_bounds_witness:
  "\<exists>r. run_monte_carlo (\<lambda>g n. (g mod n, g + 1)) nat [bx_trade 10, bx_trade (-20)] 3 42 None bx_stress = Inr r \<and>
    0 \<le> mc_worst_final r \<and> mc_worst_drawdown r \<le> 100"
proof -
  obtain r where r: "run_monte_carlo (\<lambda>g n. (g mod n, g + 1)) nat [bx_trade 10, bx_trade (-20)] 3 42 None bx_stress = Inr r"
    by (simp add: run_monte_carlo_def bx_stress_def Let_def)
  then have "mc_initial_equity r = 10000" by (auto simp: run_monte_carlo_def bx_stress_def Let_def)
  with monte_carlo_bounds [OF r] r show ?thesis by (auto simp: rnd_short)
qed

text \<open>
  A passed stability report covers its sweep. Every parameter is tested, each at exactly the distinct values its perturbations give within
  its bounds, none at the baseline, and at every one the score falls by no more than the threshold.
\<close>

theorem stability_report_covers:
  assumes "qualify_parameter_stability fingerprint evaluator t specs = Inr r" "sr_passed r"
    and "\<forall>s \<in> set specs. sweep_validate s = Inr ()"
  shows "map ps_parameter (sr_results r) = map sw_name (sort_key sw_name specs) \<and>
    list_all2 (\<lambda>s p. set (map sp_value (ps_points p)) = bounded_value s ` set (sw_perturbations s) - {sw_baseline s} \<and>
      (\<forall>x \<in> set (ps_points p). within_bounds s (sp_value x) \<and> sp_degradation x \<le> sh_max_degradation t))
      (sort_key sw_name specs) (sr_results r)"
proof
  note parts = stability_report_parts [OF assms(1)]
  have "list_all2 (\<lambda>s p. sw_name s = ps_parameter p) (sort_key sw_name specs) (sr_results r)"
    by (rule list_all2_mono [OF parts(1)]) (simp add: tested_def)
  then show "map ps_parameter (sr_results r) = map sw_name (sort_key sw_name specs)"
    by (simp add: list_all2_map_eq)
  have passed: "\<forall>p \<in> set (sr_results r). ps_passed p" using parts(2) assms(2) by (simp add: list_all_iff)
  have covers: "set (map sp_value (ps_points p)) = bounded_value s ` set (sw_perturbations s) - {sw_baseline s} \<and>
      (\<forall>x \<in> set (ps_points p). within_bounds s (sp_value x) \<and> sp_degradation x \<le> sh_max_degradation t)"
    if "s \<in> set (sort_key sw_name specs)" "p \<in> set (sr_results r)" "tested t (sr_baseline_score r) s p" for s p
  proof -
    have v: "set (map sp_value (ps_points p)) = bounded_value s ` set (sw_perturbations s) - {sw_baseline s}"
      using that(3) scenario_values_complete [of s] by (simp add: tested_def)
    have "sweep_validate s = Inr ()" "ps_passed p" using that passed assms(3) by simp_all
    moreover have "\<forall>x \<in> set (ps_points p). \<exists>q. sp_value x = bounded_value s q" using v by auto
    ultimately have "\<forall>x \<in> set (ps_points p). within_bounds s (sp_value x) \<and> sp_degradation x \<le> sh_max_degradation t"
      using bounded_value_within [of s] that(3) unfolding tested_def by metis
    with v show ?thesis by blast
  qed
  show "list_all2 (\<lambda>s p. set (map sp_value (ps_points p)) = bounded_value s ` set (sw_perturbations s) - {sw_baseline s} \<and>
      (\<forall>x \<in> set (ps_points p). within_bounds s (sp_value x) \<and> sp_degradation x \<le> sh_max_degradation t))
      (sort_key sw_name specs) (sr_results r)"
    by (rule list.rel_mono_strong [OF parts(1)]) (rule covers)
qed

definition bx_sweep :: sweep_spec where
  "bx_sweep = \<lparr>sw_name = ''rr'', sw_baseline = 100, sw_perturbations = [10, -10], sw_mode = RELATIVE_PERCENT, sw_lower = Some 95,
     sw_upper = None\<rparr>"

theorem stability_report_covers_witness:
  "\<exists>r. qualify_parameter_stability (\<lambda>s t r. ''f'') (\<lambda>d. Inr 50) default_stability_thresholds [bx_sweep] = Inr r \<and>
    map ps_parameter (sr_results r) = [''rr'']"
proof -
  let ?q = "qualify_parameter_stability (\<lambda>s t r. ''f'') (\<lambda>d. Inr 50) default_stability_thresholds [bx_sweep]"
  have vals: "scenario_values bx_sweep = [(95, -10), (110, 10)]"
    by (simp add: scenario_values_def bx_sweep_def add_scenario_def bounded_value_def Let_def dec_eval)
  have "\<exists>r. ?q = Inr r \<and> sr_passed r"
    by (simp add: qualify_parameter_stability_def qualify_parameter_def vals sensitivity_of_def judge_parameter_def cliffs_def
        max_or_zero_def default_stability_thresholds_def guard_def Let_def dec_eval)
  then obtain r where r: "?q = Inr r" "sr_passed r" by blast
  have "sweep_validate bx_sweep = Inr ()" by (simp add: sweep_validate_def bx_sweep_def guard_def strip_eq_Nil_iff is_space_def)
  with stability_report_covers [OF r] r show ?thesis by (auto simp: bx_sweep_def)
qed

text \<open>
  C12. The portfolio backtest keeps one trade per symbol. In the result of any run, no symbol ever had two trades open, every trade is listed
  under its own symbol, and the count of all trades is the sum over the symbols.
\<close>

theorem portfolio_one_trade_per_symbol:
  assumes "portfolio_run P source = Inr r"
  shows "(\<forall>(symb, b) \<in> set (pr_results r). br_max_concurrent_positions b \<le> 1 \<and> (\<forall>t \<in> set (br_trades b). td_symbol t = symb)) \<and>
    pr_total_trades r = sum_list (map (\<lambda>x. length (br_trades (snd x))) (pr_results r))"
  using portfolio_run_fine [OF assms] by blast

definition bx_portfolio :: pf_engine where
  "bx_portfolio = \<lparr>pn_engine = bx_engine, pn_correlations = []\<rparr>"

theorem portfolio_one_trade_per_symbol_witness:
  "\<exists>r. portfolio_run bx_portfolio [(''BTC'', bx_source [100])] = Inr r \<and>
    pr_total_trades r = sum_list (map (\<lambda>x. length (br_trades (snd x))) (pr_results r))"
proof -
  have "\<exists>r. portfolio_run bx_portfolio [(''BTC'', bx_source [100])] = Inr r"
    by (simp add: portfolio_run_def bx_prepared)
      (simp add: bx_portfolio_def bx_eval timeline_def portfolio_start_def portfolio_step_def active_bars_def bar_at_def
        enter_symbol_def manage_symbol_def decide_symbol_def cursor_for_def finish_symbol_def symbol_result_def)
  then obtain r where r: "portfolio_run bx_portfolio [(''BTC'', bx_source [100])] = Inr r" ..
  with portfolio_one_trade_per_symbol [OF r] show ?thesis by blast
qed

subsection \<open>The analytics\<close>

text \<open>
  The losing streak is the longest. The loop of the report finds the length of a run of consecutive losses that occurs in the results, and
  no such run is longer.
\<close>

theorem streak_of_report:
  assumes "analyze_performance es = Inr r"
  defines "pnls \<equiv> map je_realized_pnl (sort_key entry_key es)"
  shows "(\<exists>run. loss_run pnls run \<and> length run = pe_max_consecutive_losses r) \<and>
    (\<forall>run. loss_run pnls run \<longrightarrow> length run \<le> pe_max_consecutive_losses r)"
proof -
  have "pe_max_consecutive_losses r = streak_loop pnls 0 0"
    using assms(1) by (auto simp: analyze_performance_def res_bind_Inr_iff Let_def report_of_pnls_def pnls_def)
  then show ?thesis using streak_is_longest [of pnls] by simp
qed

definition bx_entry :: "string \<Rightarrow> int \<Rightarrow> rat \<Rightarrow> journal_entry" where
  "bx_entry pid t pnl = \<lparr>je_position_id = pid, je_symbol = ''BTC'', je_side = LONG, je_entry_price = 100, je_exit_price = 101,
     je_stop_loss = 95, je_take_profit = None, je_total_amount = 100, je_quantity = 1, je_leverage = 1, je_realized_pnl = pnl,
     je_opened_at = Aware 0, je_closed_at = Aware t, je_close_reason = ''STOP'', je_cycle_id = None, je_decision_snapshot = None\<rparr>"

theorem streak_of_report_witness:
  "\<exists>r. analyze_performance [bx_entry ''b'' 2 (-1), bx_entry ''a'' 1 (-2)] = Inr r \<and>
    (\<exists>run. loss_run [-2, -1] run \<and> length run = pe_max_consecutive_losses r)"
proof -
  let ?es = "[bx_entry ''b'' 2 (-1), bx_entry ''a'' 1 (-2)]"
  have "\<exists>r. analyze_performance ?es = Inr r"
    by (simp add: analyze_performance_def bx_entry_def entry_key_def realized_r_multiple_def initial_risk_amount_def decision_of_def)
  then obtain r where r: "analyze_performance ?es = Inr r" ..
  with streak_of_report [OF r] show ?thesis by (auto simp: bx_entry_def entry_key_def)
qed

text \<open>
  A detailed report partitions the entries, and their order does not matter. In each of the five groupings the names are distinct and the
  trades of the groups add up to all entries; entries in another order give the same report.
\<close>

theorem detailed_report_partitions:
  assumes "analyze_detailed_performance text month equity es = Inr r"
  shows "(\<forall>gs \<in> {dr_by_setup r, dr_by_regime r, dr_by_direction r, dr_by_symbol r, dr_by_month r}.
      distinct (map fst gs) \<and> sum_list (map (pe_total_trades \<circ> snd) gs) = length es) \<and>
    (\<forall>fs. mset fs = mset es \<longrightarrow> distinct (map entry_key es) \<longrightarrow> analyze_detailed_performance text month equity fs = Inr r)"
proof
  let ?rows = "sort_key entry_key es"
  obtain k1 k2 k3 k4 k5 where g: "group_rows k1 ?rows = Inr (dr_by_setup r)" "group_rows k2 ?rows = Inr (dr_by_regime r)"
    "group_rows k3 ?rows = Inr (dr_by_direction r)" "group_rows k4 ?rows = Inr (dr_by_symbol r)"
    "group_rows k5 ?rows = Inr (dr_by_month r)"
    using assms by (auto simp: analyze_detailed_performance_def guard_Inr_iff res_bind_Inr_iff Let_def)
  show "\<forall>gs \<in> {dr_by_setup r, dr_by_regime r, dr_by_direction r, dr_by_symbol r, dr_by_month r}.
      distinct (map fst gs) \<and> sum_list (map (pe_total_trades \<circ> snd) gs) = length es"
    using group_rows_partition [OF g(1)] group_rows_partition [OF g(2)] group_rows_partition [OF g(3)]
      group_rows_partition [OF g(4)] group_rows_partition [OF g(5)] by simp
  show "\<forall>fs. mset fs = mset es \<longrightarrow> distinct (map entry_key es) \<longrightarrow> analyze_detailed_performance text month equity fs = Inr r"
    using performance_order_independent(2) [of es] assms by metis
qed

theorem detailed_report_partitions_witness:
  "\<exists>r. analyze_detailed_performance (\<lambda>_. '''') (\<lambda>_. ''m'') 100 [bx_entry ''b'' 2 (-1), bx_entry ''a'' 1 2] = Inr r \<and>
    sum_list (map (pe_total_trades \<circ> snd) (dr_by_symbol r)) = 2"
proof -
  let ?run = "analyze_detailed_performance (\<lambda>_. '''') (\<lambda>_. ''m'') 100 [bx_entry ''b'' 2 (-1), bx_entry ''a'' 1 2]"
  have "\<exists>r. ?run = Inr r"
    by (simp add: analyze_detailed_performance_def group_rows_def add_to_bucket_def analyze_performance_def bx_entry_def entry_key_def
        realized_r_multiple_def initial_risk_amount_def decision_of_def decision_value_def regime_name_def json_text_value_def
        side_text_def guard_def Let_def)
  then obtain r where r: "?run = Inr r" ..
  with detailed_report_partitions [OF r] show ?thesis by simp
qed

end
