(* ===== verification/Research.thy ===== *)
theory Research
  imports Walk_Forward Portfolio_Backtest Decimal_Text Storage "HOL-Library.Multiset"
begin

section \<open>Parameter research\<close>

text \<open>
  \<^verbatim>\<open>app/research\<close>: parameter spaces and their enumeration (\<^verbatim>\<open>models.py\<close>, \<^verbatim>\<open>parameter_space.py\<close>), objectives and constraints
  (\<^verbatim>\<open>objectives.py\<close>), the evaluators over the backtests (\<^verbatim>\<open>evaluator.py\<close>), the experiment runner (\<^verbatim>\<open>runner.py\<close>), the two
  registries (\<^verbatim>\<open>registry.py\<close>), the sensitivity report (\<^verbatim>\<open>sensitivity.py\<close>) and the dataset fingerprint (\<^verbatim>\<open>fingerprint.py\<close>).
  A parameter value keeps its type, and a \<^verbatim>\<open>Decimal\<close> its sign, digits and exponent, because duplicates are detected on the
  text; non-finite decimals are outside the type. SHA-256 over a JSON text is an argument, a function of the JSON value;
  so is the text of a computed decimal, and \<^verbatim>\<open>random.sample\<close>, a function of the seed, the population and the sample size.
\<close>

subsection \<open>Parameters\<close>

datatype parameter_value = PDecimal pydec | PInt int | PBool bool | PStr string

datatype search_method = GRID | RANDOM

datatype objective_metric = TOTAL_RETURN_PERCENT | WIN_RATE_PERCENT | RETURN_DRAWDOWN_RATIO

datatype parameter_role = STRATEGY_RULE

fun parameter_value_json :: "parameter_value \<Rightarrow> json" where
  "parameter_value_json (PBool b) = JObj [(''type'', JStr ''bool''), (''value'', JBool b)]"
| "parameter_value_json (PDecimal d) = JObj [(''type'', JStr ''decimal''), (''value'', JStr (dec_str d))]"
| "parameter_value_json (PInt i) = JObj [(''type'', JStr ''int''), (''value'', JNum (of_int i))]"
| "parameter_value_json (PStr s) = JObj [(''type'', JStr ''str''), (''value'', JStr s)]"

record parameter_definition =
  pd_name :: string
  pd_values :: "parameter_value list"
  pd_role :: parameter_role

definition definition_make :: "string \<Rightarrow> parameter_value list \<Rightarrow> parameter_role \<Rightarrow> parameter_definition res" where
  "definition_make name vs role =
     guard (strip name = []) (ValueError ''parameter name cannot be empty'')
     (guard (vs = []) (ValueError (''parameter '' @ name @ '' requires at least one value''))
     (guard (\<not> distinct (map parameter_value_json vs)) (ValueError (''parameter '' @ name @ '' contains duplicate values''))
       (Inr \<lparr>pd_name = name, pd_values = vs, pd_role = role\<rparr>)))"

record parameter_space =
  sp_definitions :: "parameter_definition list"

definition space_make :: "parameter_definition list \<Rightarrow> parameter_space res" where
  "space_make defs =
     (let sorted_defs = sort_key pd_name defs in
      guard (\<not> distinct (map pd_name sorted_defs)) (ValueError ''parameter names must be unique'')
        (Inr \<lparr>sp_definitions = sorted_defs\<rparr>))"

definition combination_count :: "parameter_space \<Rightarrow> nat" where
  "combination_count sp = foldl (\<lambda>n d. n * length (pd_values d)) 1 (sp_definitions sp)"

record parameter_set =
  ps_values :: "(string, parameter_value) dict"

definition set_make :: "(string \<times> parameter_value) list \<Rightarrow> parameter_set res" where
  "set_make vs =
     (let rows = sort_key fst vs in
      guard (\<not> distinct (map fst rows)) (ValueError ''parameter set contains duplicate names'')
        (Inr \<lparr>ps_values = rows\<rparr>))"

definition set_get :: "parameter_set \<Rightarrow> string \<Rightarrow> parameter_value option" where
  "set_get p name = dget (ps_values p) name"

definition parameter_payload :: "(string, parameter_value) dict \<Rightarrow> json" where
  "parameter_payload vs = JList (map (\<lambda>(n, v). JObj [(''name'', JStr n), (''value'', parameter_value_json v)]) vs)"

definition stable_key :: "(json \<Rightarrow> string) \<Rightarrow> parameter_set \<Rightarrow> string" where
  "stable_key sha p = sha (parameter_payload (ps_values p))"

subsection \<open>What research may change\<close>

definition allowed_parameters :: "string list" where
  "allowed_parameters = [''min_rr'', ''min_score'', ''min_confidence'']"

definition not_approved :: "string \<Rightarrow> 'a res" where
  "not_approved name = Inl (ValueError (''research parameter is not approved: '' @ name))"

definition validate_value :: "strategy_rules \<Rightarrow> string \<Rightarrow> parameter_value \<Rightarrow> unit res" where
  "validate_value baseline name value =
     (case value of
        PDecimal d \<Rightarrow>
          let v = dec_value d in
          if name = ''min_rr'' then
            guard (v < sr_min_rr baseline) (ValueError ''research cannot lower the declared minimum R:R'') (Inr ())
          else if name = ''min_score'' then
            guard (\<not> (sr_min_score baseline \<le> v \<and> v \<le> 100))
              (ValueError ''research min_score must stay between baseline and 100'') (Inr ())
          else if name = ''min_confidence'' then
            guard (\<not> (sr_min_confidence baseline \<le> v \<and> v \<le> 100))
              (ValueError ''research min_confidence must stay between baseline and 100'') (Inr ())
          else not_approved name
      | _ \<Rightarrow> Inl (TypeError (''strategy parameter '' @ name @ '' must use Decimal values'')))"

definition validate_named :: "strategy_rules \<Rightarrow> string \<Rightarrow> parameter_value list \<Rightarrow> unit res" where
  "validate_named baseline name vs =
     (if name \<notin> set allowed_parameters then not_approved name
      else res_bind (res_map (validate_value baseline name) vs) (\<lambda>us. Inr ()))"

definition validate_definition :: "strategy_rules \<Rightarrow> parameter_definition \<Rightarrow> unit res" where
  "validate_definition baseline d = validate_named baseline (pd_name d) (pd_values d)"

definition validate_space :: "strategy_rules \<Rightarrow> parameter_space \<Rightarrow> unit res" where
  "validate_space baseline sp =
     res_bind (res_map (validate_definition baseline) (sp_definitions sp)) (\<lambda>us. Inr ())"

definition validate_set :: "strategy_rules \<Rightarrow> parameter_set \<Rightarrow> unit res" where
  "validate_set baseline p =
     res_bind (res_map (\<lambda>(n, v). validate_named baseline n [v]) (ps_values p)) (\<lambda>us. Inr ())"

definition decimal_or :: "parameter_set \<Rightarrow> string \<Rightarrow> rat \<Rightarrow> rat res" where
  "decimal_or p name fallback =
     (case set_get p name of
        None \<Rightarrow> Inr fallback
      | Some (PDecimal d) \<Rightarrow> Inr (dec_value d)
      | Some v \<Rightarrow> Inl (TypeError (''strategy parameter '' @ name @ '' must be Decimal'')))"

definition strategy_rules_from_parameters :: "strategy_rules \<Rightarrow> strategy_rules \<Rightarrow> parameter_set \<Rightarrow> strategy_rules res" where
  "strategy_rules_from_parameters policy_baseline baseline p =
     res_bind (validate_set policy_baseline p) (\<lambda>u.
     res_bind (decimal_or p ''min_rr'' (sr_min_rr baseline)) (\<lambda>rr.
     res_bind (decimal_or p ''min_score'' (sr_min_score baseline)) (\<lambda>score.
     res_bind (decimal_or p ''min_confidence'' (sr_min_confidence baseline)) (\<lambda>confidence.
       Inr \<lparr>sr_min_rr = rr, sr_min_score = score, sr_min_confidence = confidence\<rparr>))))"

subsection \<open>Enumeration\<close>

fun index_loop :: "parameter_definition list \<Rightarrow> nat \<Rightarrow> (string, parameter_value) dict \<Rightarrow> (string, parameter_value) dict" where
  "index_loop [] remainder acc = acc"
| "index_loop (d # ds) remainder acc =
     index_loop ds (remainder div length (pd_values d))
       (dput (pd_name d) (pd_values d ! (remainder mod length (pd_values d))) acc)"

definition set_from_index :: "parameter_space \<Rightarrow> int \<Rightarrow> parameter_set res" where
  "set_from_index sp index =
     guard (index < 0 \<or> int (combination_count sp) \<le> index) (OtherError ''parameter combination index out of range'')
       (set_make (index_loop (rev (sp_definitions sp)) (nat index) []))"

definition grid_sets :: "parameter_definition list \<Rightarrow> parameter_set list res" where
  "grid_sets defs =
     res_map (\<lambda>combination. set_make (fold (\<lambda>(d, v). dput (pd_name d) v) (zip defs combination) []))
       (product_lists (map pd_values defs))"

definition enumerate_parameter_sets ::
  "(int \<Rightarrow> nat \<Rightarrow> nat \<Rightarrow> nat list) \<Rightarrow> parameter_space \<Rightarrow> search_method \<Rightarrow> int \<Rightarrow> int \<Rightarrow> parameter_set list res" where
  "enumerate_parameter_sets sample sp method max_trials seed =
     guard (max_trials \<le> 0) (ValueError ''max_trials must be positive'')
     (if sp_definitions sp = [] then Inr [\<lparr>ps_values = []\<rparr>]
      else let n = combination_count sp in
        case method of
          GRID \<Rightarrow> guard (max_trials < int n) (OtherError ''ResearchSpaceTooLargeError'') (grid_sets (sp_definitions sp))
        | RANDOM \<Rightarrow> res_map (\<lambda>i. set_from_index sp (int i)) (sample seed n (min (nat max_trials) n)))"

subsection \<open>The grid and its indices\<close>

text \<open>
  A definition list that went through the constructors: sorted distinct names, each with distinct values. The set with
  index \<open>i\<close> is the \<open>i\<close>-th of the grid: reading the index as a number in mixed radix enumerates the product.
\<close>

definition space_ok :: "parameter_definition list \<Rightarrow> bool" where
  "space_ok defs \<longleftrightarrow> sorted (map pd_name defs) \<and> distinct (map pd_name defs) \<and>
     (\<forall>d \<in> set defs. pd_values d \<noteq> [] \<and> distinct (pd_values d))"

definition grid :: "parameter_definition list \<Rightarrow> parameter_set list" where
  "grid defs = map (\<lambda>c. \<lparr>ps_values = zip (map pd_name defs) c\<rparr>) (product_lists (map pd_values defs))"

lemma definition_make_ok: "definition_make n vs r = Inr d \<Longrightarrow> pd_values d \<noteq> [] \<and> distinct (pd_values d)"
  by (auto simp: definition_make_def guard_simps distinct_map)

lemma space_make_ok:
  assumes "space_make defs = Inr sp" "\<forall>d \<in> set defs. pd_values d \<noteq> [] \<and> distinct (pd_values d)"
  shows "space_ok (sp_definitions sp)"
  using assms by (auto simp: space_make_def space_ok_def Let_def guard_simps)

lemma length_product_lists: "length (product_lists xss) = prod_list (map length xss)"
  by (induction xss) (simp_all add: length_concat comp_def sum_list_triv)

lemma count_fold: "foldl (\<lambda>n d. n * length (pd_values d)) m defs = m * prod_list (map (length \<circ> pd_values) defs)"
  by (induction defs arbitrary: m) (simp_all add: mult.assoc)

lemma combination_count_prod: "combination_count sp = prod_list (map (length \<circ> pd_values) (sp_definitions sp))"
  by (simp add: combination_count_def count_fold)

lemma nth_concat_blocks:
  assumes "\<forall>x \<in> set xs. length (f x) = n" "i < length xs * n"
  shows "concat (map f xs) ! i = f (xs ! (i div n)) ! (i mod n)"
  using assms
proof (induction xs arbitrary: i)
  case (Cons x xs)
  show ?case
  proof (cases "i < n")
    case True
    then show ?thesis using Cons.prems by (simp add: nth_append)
  next
    case False
    have n: "0 < n" using Cons.prems(2) by (cases n) auto
    have i: "i - n < length xs * n" using Cons.prems(2) False by auto
    have e: "i div n = Suc ((i - n) div n)" "i mod n = (i - n) mod n"
      using False n by (simp_all add: le_div_geq le_mod_geq)
    show ?thesis using Cons.prems(1) Cons.IH [OF _ i] False e by (simp add: nth_append)
  qed
qed simp

definition radix :: "parameter_definition list \<Rightarrow> nat" where
  "radix defs = prod_list (map (length \<circ> pd_values) defs)"

lemma radix_simps [simp]: "radix [] = 1" "radix (d # ds) = length (pd_values d) * radix ds" "radix (ds @ es) = radix ds * radix es"
  by (simp_all add: radix_def)

lemma radix_rev [simp]: "radix (rev ds) = radix ds"
  by (induction ds) simp_all

lemma product_nth:
  assumes "i < radix (d # ds)"
  shows "product_lists (map pd_values (d # ds)) ! i =
    pd_values d ! (i div radix ds) # product_lists (map pd_values ds) ! (i mod radix ds)"
proof -
  have len: "length (product_lists (map pd_values ds)) = radix ds"
    by (simp add: length_product_lists radix_def)
  have r: "0 < radix ds" using assms by (cases "radix ds") auto
  have "product_lists (map pd_values (d # ds)) ! i =
      map (Cons (pd_values d ! (i div radix ds))) (product_lists (map pd_values ds)) ! (i mod radix ds)"
    using nth_concat_blocks [of "pd_values d" "\<lambda>x. map (Cons x) (product_lists (map pd_values ds))" "radix ds" i] assms len by simp
  then show ?thesis using r len by simp
qed

lemma index_loop_mod: "index_loop ds (r mod radix ds) acc = index_loop ds r acc"
proof (induction ds arbitrary: r acc)
  case (Cons d ds)
  let ?l = "length (pd_values d)"
  have "(r mod (?l * radix ds)) mod ?l = r mod ?l" by (simp add: mod_mod_cancel)
  moreover have "(r mod (?l * radix ds)) div ?l = (r div ?l) mod radix ds"
    by (cases "?l = 0") (simp_all add: mod_mult2_eq div_add1_eq)
  ultimately show ?case using Cons.IH [of "r div ?l"] by simp
qed simp

lemma index_loop_snoc:
  "index_loop (ds @ [d]) r acc =
     dput (pd_name d) (pd_values d ! (r div radix ds mod length (pd_values d))) (index_loop ds r acc)"
  by (induction ds arbitrary: r acc) (simp_all add: div_mult2_eq)

lemma dput_fresh: "k \<notin> fst ` set d \<Longrightarrow> dput k v d = d @ [(k, v)]"
  by (induction d) auto

lemma index_loop_digits:
  assumes "distinct (map pd_name defs)" "i < radix defs"
  shows "index_loop (rev defs) i [] = rev (zip (map pd_name defs) (product_lists (map pd_values defs) ! i))"
  using assms
proof (induction defs arbitrary: i)
  case (Cons d ds)
  have r: "0 < radix ds" using Cons.prems(2) by (cases "radix ds") auto
  have small: "i div radix ds < length (pd_values d)"
    using Cons.prems(2) by (simp add: less_mult_imp_div_less)
  have IH: "index_loop (rev ds) i [] = rev (zip (map pd_name ds) (product_lists (map pd_values ds) ! (i mod radix ds)))"
    using Cons.IH [of "i mod radix ds"] Cons.prems(1) r index_loop_mod [of "rev ds" i "[]"] by simp
  have "fst ` set (zip (map pd_name ds) vs) \<subseteq> set (map pd_name ds)" for vs :: "parameter_value list"
    by (auto dest: set_zip_leftD)
  then have fresh: "pd_name d \<notin> fst ` set (index_loop (rev ds) i [])"
    using Cons.prems(1) unfolding IH set_rev by auto
  have "index_loop (rev (d # ds)) i [] = index_loop (rev ds) i [] @ [(pd_name d, pd_values d ! (i div radix ds))]"
    using fresh small by (simp add: index_loop_snoc dput_fresh)
  also have "\<dots> = rev (zip (map pd_name (d # ds)) (product_lists (map pd_values (d # ds)) ! i))"
    unfolding IH product_nth [OF Cons.prems(2)] by simp
  finally show ?case .
qed simp

lemma combination_length: "c \<in> set (product_lists (map pd_values defs)) \<Longrightarrow> length c = length defs"
  by (auto dest: in_set_product_lists_length)

lemma set_make_sorted:
  assumes "distinct (map fst rows)" "sorted (map fst rows)" "mset vs = mset rows"
  shows "set_make vs = Inr \<lparr>ps_values = rows\<rparr>"
proof -
  have "set vs = set rows" using assms(3) by (metis set_mset_mset)
  then have "inj_on fst (set vs)" using assms(1) by (simp add: distinct_map)
  then have "sort_key fst vs = rows" using assms(2,3) by (rule sort_key_inj_key_eq [rotated]) 
  then show ?thesis using assms(1) by (simp add: set_make_def)
qed

lemma set_from_index_grid:
  assumes ok: "space_ok (sp_definitions sp)" and i: "i < combination_count sp"
  shows "set_from_index sp (int i) = Inr (grid (sp_definitions sp) ! i)"
proof -
  let ?defs = "sp_definitions sp" and ?c = "product_lists (map pd_values (sp_definitions sp)) ! i"
  have r: "i < radix ?defs" using i by (simp add: combination_count_prod radix_def)
  have len: "length (product_lists (map pd_values ?defs)) = radix ?defs" by (simp add: length_product_lists radix_def)
  have c: "length ?c = length ?defs" by (rule combination_length) (simp add: len r)
  have d: "index_loop (rev ?defs) i [] = rev (zip (map pd_name ?defs) ?c)"
    by (rule index_loop_digits) (use ok r in \<open>simp_all add: space_ok_def\<close>)
  have "set_make (index_loop (rev ?defs) i []) = Inr \<lparr>ps_values = zip (map pd_name ?defs) ?c\<rparr>"
    by (rule set_make_sorted) (use ok c in \<open>simp_all add: space_ok_def d\<close>)
  then show ?thesis using i r len by (simp add: set_from_index_def grid_def)
qed

lemma fold_put_zip:
  assumes "distinct (map pd_name defs)" "fst ` set acc \<inter> set (map pd_name defs) = {}" "length c = length defs"
  shows "fold (\<lambda>(d, v). dput (pd_name d) v) (zip defs c) acc = acc @ zip (map pd_name defs) c"
  using assms
proof (induction defs arbitrary: c acc)
  case (Cons d ds)
  obtain v vs where c: "c = v # vs" using Cons.prems(3) by (cases c) auto
  have fresh: "pd_name d \<notin> fst ` set acc" using Cons.prems(2) by auto
  have dist: "distinct (map pd_name ds)" using Cons.prems(1) by simp
  have rest: "fst ` set (acc @ [(pd_name d, v)]) \<inter> set (map pd_name ds) = {}" using Cons.prems(1,2) by auto
  have len: "length vs = length ds" using Cons.prems(3) c by simp
  show ?case using Cons.IH [OF dist rest len] c fresh by (simp add: dput_fresh)
qed simp

lemma grid_sets_grid:
  assumes "space_ok defs"
  shows "grid_sets defs = Inr (grid defs)"
proof -
  have one: "set_make (fold (\<lambda>(d, v). dput (pd_name d) v) (zip defs c) []) = Inr \<lparr>ps_values = zip (map pd_name defs) c\<rparr>"
    if "c \<in> set (product_lists (map pd_values defs))" for c
    by (rule set_make_sorted)
      (use assms combination_length [OF that] in \<open>simp_all add: space_ok_def fold_put_zip\<close>)
  show ?thesis unfolding grid_sets_def grid_def res_map_Inr_iff list_all2_map2
    by (rule list.rel_refl_strong) (rule one)
qed

lemma grid_distinct:
  assumes "space_ok defs"
  shows "distinct (grid defs)"
proof -
  have "distinct (product_lists (map pd_values defs))"
    using assms by (intro distinct_product_lists) (auto simp: space_ok_def)
  moreover have "inj_on (\<lambda>c. \<lparr>ps_values = zip (map pd_name defs) c\<rparr>) (set (product_lists (map pd_values defs)))"
    by (rule inj_onI) (simp, metis combination_length length_map map_snd_zip)
  ultimately show ?thesis by (simp add: grid_def distinct_map)
qed

lemma grid_length: "length (grid defs) = radix defs"
  by (simp add: grid_def length_product_lists radix_def)

subsection \<open>Summaries and objectives\<close>

record evaluation_summary =
  es_total_return :: rat
  es_max_drawdown :: rat
  es_win_rate :: rat
  es_profit_factor :: profit_factor
  es_trade_count :: nat
  es_rejected_signals :: nat
  es_window_count :: nat

record research_evaluation =
  rv_summary :: evaluation_summary
  rv_windows :: "evaluation_summary list"

definition research_profit_factor :: "trade_record list \<Rightarrow> profit_factor" where
  "research_profit_factor rows =
     (let gross_profit = dsum (map td_realized_pnl (filter (\<lambda>t. 0 < td_realized_pnl t) rows));
          gross_loss = dsum (map (\<lambda>t. dneg (td_realized_pnl t)) (filter (\<lambda>t. td_realized_pnl t < 0) rows))
      in if 0 < gross_loss then Profit_Factor (ddiv gross_profit gross_loss)
         else if gross_profit = 0 then No_Trades_Factor else Infinite_Factor)"

definition summarize_backtest :: "bt_result \<Rightarrow> evaluation_summary" where
  "summarize_backtest r = \<lparr>es_total_return = br_total_return_percent r, es_max_drawdown = br_max_drawdown_percent r,
     es_win_rate = br_win_rate_percent r, es_profit_factor = br_profit_factor r, es_trade_count = length (br_trades r),
     es_rejected_signals = br_rejected_signals r, es_window_count = 0\<rparr>"

definition summarize_portfolio_backtest :: "pf_result \<Rightarrow> evaluation_summary" where
  "summarize_portfolio_backtest r =
     (let rs = map snd (pr_results r); trades = concat (map br_trades rs) in
      \<lparr>es_total_return = pr_total_return r, es_max_drawdown = pr_max_drawdown r, es_win_rate = win_rate trades,
       es_profit_factor = research_profit_factor trades, es_trade_count = pr_total_trades r,
       es_rejected_signals = sum_list (map br_rejected_signals rs), es_window_count = 0\<rparr>)"

definition summarize_backtests :: "bt_result list \<Rightarrow> evaluation_summary" where
  "summarize_backtests rows =
     (if rows = [] then \<lparr>es_total_return = 0, es_max_drawdown = 0, es_win_rate = 0, es_profit_factor = No_Trades_Factor,
        es_trade_count = 0, es_rejected_signals = 0, es_window_count = 0\<rparr>
      else let trades = concat (map br_trades rows) in
        \<lparr>es_total_return = ddiv (dsum (map br_total_return_percent rows)) (of_nat (length rows)),
         es_max_drawdown = Max (set (map br_max_drawdown_percent rows)), es_win_rate = win_rate trades,
         es_profit_factor = research_profit_factor trades, es_trade_count = length trades,
         es_rejected_signals = sum_list (map br_rejected_signals rows), es_window_count = length rows\<rparr>)"

definition objective_value :: "evaluation_summary \<Rightarrow> objective_metric \<Rightarrow> rat" where
  "objective_value s metric =
     (case metric of
        TOTAL_RETURN_PERCENT \<Rightarrow> es_total_return s
      | WIN_RATE_PERCENT \<Rightarrow> es_win_rate s
      | RETURN_DRAWDOWN_RATIO \<Rightarrow> ddiv (es_total_return s) (max (es_max_drawdown s) 1))"

record research_constraints =
  rcn_min_trades :: int
  rcn_max_drawdown :: "rat option"
  rcn_min_profit_factor :: "rat option"
  rcn_min_oos_windows :: int
  rcn_max_degradation :: "rat option"

definition constraints_make :: "research_constraints \<Rightarrow> research_constraints res" where
  "constraints_make k =
     guard (rcn_min_trades k < 0 \<or> rcn_min_oos_windows k < 0) (ValueError ''minimum counts must be non-negative'')
     (guard (case rcn_max_drawdown k of Some x \<Rightarrow> x < 0 | None \<Rightarrow> False)
       (ValueError ''max_drawdown_percent must be non-negative'')
     (guard (case rcn_min_profit_factor k of Some x \<Rightarrow> x < 0 | None \<Rightarrow> False)
       (ValueError ''min_profit_factor must be non-negative'')
     (guard (case rcn_max_degradation k of Some x \<Rightarrow> \<not> (0 \<le> x \<and> x \<le> 100) | None \<Rightarrow> False)
       (ValueError ''max_validation_degradation_percent must be in [0, 100]'') (Inr k))))"

fun factor_below :: "profit_factor \<Rightarrow> rat \<Rightarrow> bool" where
  "factor_below No_Trades_Factor m = True"
| "factor_below Infinite_Factor m = False"
| "factor_below (Profit_Factor f) m = (f < m)"

definition constraint_violations :: "evaluation_summary \<Rightarrow> research_constraints \<Rightarrow> string \<Rightarrow> bool \<Rightarrow> string list" where
  "constraint_violations s k prefix enforce_oos_windows =
     (if int (es_trade_count s) < rcn_min_trades k then [prefix @ '': trade count below minimum''] else []) @
     (case rcn_max_drawdown k of Some x \<Rightarrow> if x < es_max_drawdown s then [prefix @ '': max drawdown above limit''] else []
        | None \<Rightarrow> []) @
     (case rcn_min_profit_factor k of
        Some x \<Rightarrow> if factor_below (es_profit_factor s) x then [prefix @ '': profit factor below minimum''] else []
      | None \<Rightarrow> []) @
     (if enforce_oos_windows \<and> int (es_window_count s) < rcn_min_oos_windows k
      then [prefix @ '': OOS window count below minimum''] else [])"

definition validation_degradation :: "rat \<Rightarrow> rat \<Rightarrow> rat" where
  "validation_degradation training validation =
     (if training \<le> validation then 0
      else let denominator = dabs training in
        if denominator = 0 then 100 else max 0 (dmul (ddiv (dsub training validation) denominator) 100))"

subsection \<open>Evaluators\<close>

definition backtest_evaluator ::
  "string \<Rightarrow> (string, candle list) dict \<Rightarrow> bt_config \<Rightarrow> strategy_rules \<Rightarrow> datetime option \<Rightarrow> (nat \<Rightarrow> string)
    \<Rightarrow> parameter_set \<Rightarrow> research_evaluation res" where
  "backtest_evaluator symbol source cfg baseline start ids p =
     res_bind (strategy_rules_from_parameters baseline baseline p) (\<lambda>rules.
     res_bind (engine_make cfg rules ids) (\<lambda>E.
     res_bind (engine_run E symbol source start) (\<lambda>(r, evs).
       Inr \<lparr>rv_summary = summarize_backtest r, rv_windows = []\<rparr>)))"

definition portfolio_evaluator ::
  "(string, (string, candle list) dict) dict \<Rightarrow> bt_config \<Rightarrow> (string \<times> string, rat) dict \<Rightarrow> strategy_rules
    \<Rightarrow> (nat \<Rightarrow> string) \<Rightarrow> parameter_set \<Rightarrow> research_evaluation res" where
  "portfolio_evaluator source cfg correlations baseline ids p =
     res_bind (strategy_rules_from_parameters baseline baseline p) (\<lambda>rules.
     res_bind (engine_make cfg rules ids) (\<lambda>E.
     res_bind (portfolio_run \<lparr>pn_engine = E, pn_correlations = correlations\<rparr> source) (\<lambda>r.
       Inr \<lparr>rv_summary = summarize_portfolio_backtest r, rv_windows = []\<rparr>)))"

definition walk_forward_evaluator ::
  "string \<Rightarrow> (string, candle list) dict \<Rightarrow> int \<Rightarrow> int \<Rightarrow> int option \<Rightarrow> bt_config \<Rightarrow> strategy_rules \<Rightarrow> (nat \<Rightarrow> string)
    \<Rightarrow> parameter_set \<Rightarrow> research_evaluation option res" where
  "walk_forward_evaluator symbol source train test step cfg baseline ids p =
     res_bind (strategy_rules_from_parameters baseline baseline p) (\<lambda>rules.
     res_bind (walk_forward_run \<lparr>wr_config = cfg, wr_optimizer = None, wr_rules = rules, wr_ids = ids\<rparr>
         symbol source train test step) (\<lambda>r.
       Inr (map_option (\<lambda>(ws, rs).
         \<lparr>rv_summary = summarize_backtests rs, rv_windows = map summarize_backtest rs\<rparr>) r)))"

subsection \<open>Experiments\<close>

record dataset_manifest =
  dm_training :: string
  dm_validation :: "string option"
  dm_holdout :: "string option"

definition manifest_make :: "dataset_manifest \<Rightarrow> dataset_manifest res" where
  "manifest_make m =
     (let others = concat (map (case_option [] (\<lambda>x. [x])) [dm_validation m, dm_holdout m]) in
      guard (strip (dm_training m) = []) (ValueError ''training_fingerprint cannot be empty'')
      (guard (\<exists>f \<in> set others. strip f = []) (ValueError ''dataset fingerprints cannot be blank'')
      (guard (\<not> distinct (dm_training m # others))
        (ValueError ''training, validation and holdout fingerprints must be distinct'') (Inr m))))"

record experiment_spec =
  xs_name :: string
  xs_strategy_version :: string
  xs_datasets :: dataset_manifest
  xs_space :: parameter_space
  xs_objective :: objective_metric
  xs_search :: search_method
  xs_seed :: int
  xs_max_trials :: int
  xs_constraints :: research_constraints

definition spec_make :: "experiment_spec \<Rightarrow> experiment_spec res" where
  "spec_make x =
     guard (strip (xs_name x) = [] \<or> strip (xs_strategy_version x) = [])
       (ValueError ''experiment name and strategy_version are required'')
     (guard (xs_max_trials x \<le> 0) (ValueError ''max_trials must be positive'') (Inr x))"

fun metric_text :: "objective_metric \<Rightarrow> string" where
  "metric_text TOTAL_RETURN_PERCENT = ''TOTAL_RETURN_PERCENT''"
| "metric_text WIN_RATE_PERCENT = ''WIN_RATE_PERCENT''"
| "metric_text RETURN_DRAWDOWN_RATIO = ''RETURN_DRAWDOWN_RATIO''"

fun search_text :: "search_method \<Rightarrow> string" where
  "search_text GRID = ''GRID''"
| "search_text RANDOM = ''RANDOM''"

definition optional_text :: "(rat \<Rightarrow> string) \<Rightarrow> rat option \<Rightarrow> json" where
  "optional_text txt x = (case x of None \<Rightarrow> JNull | Some v \<Rightarrow> JStr (txt v))"

definition optional_string :: "string option \<Rightarrow> json" where
  "optional_string x = (case x of None \<Rightarrow> JNull | Some v \<Rightarrow> JStr v)"

definition datasets_json :: "dataset_manifest \<Rightarrow> json" where
  "datasets_json m = JObj [(''training'', JStr (dm_training m)), (''validation'', optional_string (dm_validation m)),
     (''holdout'', optional_string (dm_holdout m))]"

definition constraints_json :: "(rat \<Rightarrow> string) \<Rightarrow> research_constraints \<Rightarrow> json" where
  "constraints_json txt k = JObj [(''min_trades'', JNum (of_int (rcn_min_trades k))),
     (''max_drawdown_percent'', optional_text txt (rcn_max_drawdown k)),
     (''min_profit_factor'', optional_text txt (rcn_min_profit_factor k)),
     (''min_oos_windows'', JNum (of_int (rcn_min_oos_windows k))),
     (''max_validation_degradation_percent'', optional_text txt (rcn_max_degradation k))]"

definition definitions_json :: "parameter_space \<Rightarrow> json" where
  "definitions_json sp = JList (map (\<lambda>d. JObj [(''name'', JStr (pd_name d)), (''role'', JStr ''STRATEGY_RULE''),
     (''values'', JList (map parameter_value_json (pd_values d)))]) (sp_definitions sp))"

definition experiment_id :: "(json \<Rightarrow> string) \<Rightarrow> (rat \<Rightarrow> string) \<Rightarrow> experiment_spec \<Rightarrow> string" where
  "experiment_id sha txt x =
     sha (JObj [(''framework'', JStr ''phase-23-v1''), (''name'', JStr (xs_name x)),
       (''strategy_version'', JStr (xs_strategy_version x)), (''datasets'', datasets_json (xs_datasets x)),
       (''parameter_space'', definitions_json (xs_space x)), (''objective'', JStr (metric_text (xs_objective x))),
       (''search_method'', JStr (search_text (xs_search x))), (''seed'', JNum (of_int (xs_seed x))),
       (''max_trials'', JNum (of_int (xs_max_trials x))), (''constraints'', constraints_json txt (xs_constraints x))])"

record trial_result =
  tr_id :: string
  tr_parameters :: parameter_set
  tr_training :: research_evaluation
  tr_validation :: "research_evaluation option"
  tr_training_objective :: rat
  tr_selection_objective :: rat
  tr_degradation :: "rat option"
  tr_feasible :: bool
  tr_violations :: "string list"

record experiment_result =
  xr_spec :: experiment_spec
  xr_trials :: "trial_result list"
  xr_best :: "trial_result option"
  xr_created_at :: datetime

definition selection_summary :: "trial_result \<Rightarrow> evaluation_summary" where
  "selection_summary t = (case tr_validation t of Some v \<Rightarrow> rv_summary v | None \<Rightarrow> rv_summary (tr_training t))"

subsection \<open>The runner\<close>

record research_env =
  re_sha :: "json \<Rightarrow> string"
  re_txt :: "rat \<Rightarrow> string"
  re_sample :: "int \<Rightarrow> nat \<Rightarrow> nat \<Rightarrow> nat list"
  re_hash_text :: "string \<Rightarrow> string"
  re_policy :: strategy_rules

definition trial_id :: "research_env \<Rightarrow> experiment_spec \<Rightarrow> parameter_set \<Rightarrow> string" where
  "trial_id R x p =
     take 24 (re_hash_text R (experiment_id (re_sha R) (re_txt R) x @ '':'' @ stable_key (re_sha R) p))"

definition run_trial ::
  "research_env \<Rightarrow> experiment_spec \<Rightarrow> (parameter_set \<Rightarrow> research_evaluation res)
    \<Rightarrow> (parameter_set \<Rightarrow> research_evaluation res) option \<Rightarrow> parameter_set \<Rightarrow> trial_result res" where
  "run_trial R x train valid p =
     res_bind (validate_set (re_policy R) p) (\<lambda>u.
     res_bind (train p) (\<lambda>training.
     let objective = objective_value (rv_summary training) (xs_objective x);
         violations = constraint_violations (rv_summary training) (xs_constraints x) ''training'' (valid = None) in
     case valid of
       None \<Rightarrow> Inr \<lparr>tr_id = trial_id R x p, tr_parameters = p, tr_training = training, tr_validation = None,
         tr_training_objective = objective, tr_selection_objective = objective, tr_degradation = None,
         tr_feasible = (violations = []), tr_violations = violations\<rparr>
     | Some evaluate \<Rightarrow>
         res_bind (evaluate p) (\<lambda>validation.
         let selection = objective_value (rv_summary validation) (xs_objective x);
             degradation = validation_degradation objective selection;
             all_violations = violations @ constraint_violations (rv_summary validation) (xs_constraints x) ''validation'' True @
               (case rcn_max_degradation (xs_constraints x) of
                  Some limit \<Rightarrow> if limit < degradation then [''validation: objective degradation above limit''] else []
                | None \<Rightarrow> []) in
         Inr \<lparr>tr_id = trial_id R x p, tr_parameters = p, tr_training = training, tr_validation = Some validation,
           tr_training_objective = objective, tr_selection_objective = selection, tr_degradation = Some degradation,
           tr_feasible = (all_violations = []), tr_violations = all_violations\<rparr>)))"

definition trial_key :: "research_env \<Rightarrow> trial_result \<Rightarrow> rat \<times> rat \<times> int \<times> string" where
  "trial_key R t = (dneg (tr_selection_objective t), es_max_drawdown (selection_summary t),
     - int (es_trade_count (selection_summary t)), stable_key (re_sha R) (tr_parameters t))"

definition best_trial :: "research_env \<Rightarrow> trial_result list \<Rightarrow> trial_result option" where
  "best_trial R trials =
     (let feasible = filter tr_feasible trials in
      if feasible = [] then None else Some (hd (sort_key (trial_key R) feasible)))"

definition run_experiment ::
  "research_env \<Rightarrow> experiment_spec \<Rightarrow> (parameter_set \<Rightarrow> research_evaluation res)
    \<Rightarrow> (parameter_set \<Rightarrow> research_evaluation res) option \<Rightarrow> datetime option \<Rightarrow> datetime \<Rightarrow> experiment_result res" where
  "run_experiment R x train valid created_at now =
     res_bind (validate_space (re_policy R) (xs_space x)) (\<lambda>u.
     guard ((dm_validation (xs_datasets x) \<noteq> None) \<noteq> (valid \<noteq> None))
       (ValueError ''validation evaluator presence must match validation_fingerprint'')
     (res_bind (enumerate_parameter_sets (re_sample R) (xs_space x) (xs_search x) (xs_max_trials x) (xs_seed x)) (\<lambda>sets.
      res_bind (res_map (run_trial R x train valid) sets) (\<lambda>trials.
      let t = (case created_at of Some t \<Rightarrow> t | None \<Rightarrow> now) in
      guard (\<not> is_aware t) (ValueError ''created_at must be timezone-aware'')
        (Inr \<lparr>xr_spec = x, xr_trials = trials, xr_best = best_trial R trials, xr_created_at = t\<rparr>)))))"

subsection \<open>Sensitivity\<close>

record value_point =
  vp_value :: parameter_value
  vp_trials :: nat
  vp_mean :: rat
  vp_best :: rat
  vp_worst :: rat

record value_sensitivity =
  vs_name :: string
  vs_points :: "value_point list"
  vs_spread :: rat

text \<open>\<^verbatim>\<open>==\<close> on parameter values: numbers of any type are compared as numbers, and \<^verbatim>\<open>True\<close> is 1.\<close>

fun value_number :: "parameter_value \<Rightarrow> rat option" where
  "value_number (PDecimal d) = Some (dec_value d)"
| "value_number (PInt i) = Some (of_int i)"
| "value_number (PBool b) = Some (if b then 1 else 0)"
| "value_number (PStr s) = None"

definition values_equal :: "parameter_value \<Rightarrow> parameter_value \<Rightarrow> bool" where
  "values_equal a b =
     (case (value_number a, value_number b) of (Some x, Some y) \<Rightarrow> x = y | (None, None) \<Rightarrow> a = b | _ \<Rightarrow> False)"

definition matching_objectives :: "trial_result list \<Rightarrow> string \<Rightarrow> parameter_value \<Rightarrow> rat list" where
  "matching_objectives feasible name value =
     map tr_selection_objective (filter (\<lambda>t. case set_get (tr_parameters t) name of Some v \<Rightarrow> values_equal v value | None \<Rightarrow> False)
       feasible)"

definition value_point_of :: "trial_result list \<Rightarrow> string \<Rightarrow> parameter_value \<Rightarrow> value_point option" where
  "value_point_of feasible name value =
     (let matching = matching_objectives feasible name value in
      if matching = [] then None
      else Some \<lparr>vp_value = value, vp_trials = length matching, vp_mean = ddiv (dsum matching) (of_nat (length matching)),
        vp_best = Max (set matching), vp_worst = Min (set matching)\<rparr>)"

definition sensitivity_of_definition :: "trial_result list \<Rightarrow> parameter_definition \<Rightarrow> value_sensitivity" where
  "sensitivity_of_definition feasible d =
     (let ps = concat (map (\<lambda>v. case value_point_of feasible (pd_name d) v of None \<Rightarrow> [] | Some p \<Rightarrow> [p]) (pd_values d));
          means = map vp_mean ps
      in \<lparr>vs_name = pd_name d, vs_points = ps,
          vs_spread = (if means = [] then 0 else dsub (Max (set means)) (Min (set means)))\<rparr>)"

definition analyze_parameter_sensitivity :: "experiment_result \<Rightarrow> value_sensitivity list" where
  "analyze_parameter_sensitivity r =
     map (sensitivity_of_definition (filter tr_feasible (xr_trials r))) (sp_definitions (xs_space (xr_spec r)))"

subsection \<open>Registries\<close>

record stored_experiment =
  se_id :: string
  se_name :: string
  se_version :: string
  se_created_at :: string
  se_payload :: json

definition summary_payload :: "(rat \<Rightarrow> string) \<Rightarrow> evaluation_summary \<Rightarrow> json" where
  "summary_payload txt s = JObj [(''total_return_percent'', JStr (txt (es_total_return s))),
     (''max_drawdown_percent'', JStr (txt (es_max_drawdown s))), (''win_rate_percent'', JStr (txt (es_win_rate s))),
     (''profit_factor'', (case es_profit_factor s of No_Trades_Factor \<Rightarrow> JNull | Infinite_Factor \<Rightarrow> JStr ''Infinity''
        | Profit_Factor f \<Rightarrow> JStr (txt f))),
     (''trade_count'', JNum (of_nat (es_trade_count s))), (''rejected_signals'', JNum (of_nat (es_rejected_signals s))),
     (''window_count'', JNum (of_nat (es_window_count s)))]"

definition evaluation_payload :: "(rat \<Rightarrow> string) \<Rightarrow> research_evaluation \<Rightarrow> json" where
  "evaluation_payload txt e = JObj [(''summary'', summary_payload txt (rv_summary e)),
     (''windows'', JList (map (summary_payload txt) (rv_windows e)))]"

definition trial_payload :: "(rat \<Rightarrow> string) \<Rightarrow> trial_result \<Rightarrow> json" where
  "trial_payload txt t = JObj [(''trial_id'', JStr (tr_id t)), (''parameters'', parameter_payload (ps_values (tr_parameters t))),
     (''training'', evaluation_payload txt (tr_training t)),
     (''validation'', (case tr_validation t of Some v \<Rightarrow> evaluation_payload txt v | None \<Rightarrow> JNull)),
     (''training_objective'', JStr (txt (tr_training_objective t))),
     (''selection_objective'', JStr (txt (tr_selection_objective t))),
     (''validation_degradation_percent'', optional_text txt (tr_degradation t)),
     (''feasible'', JBool (tr_feasible t)), (''violations'', JList (map JStr (tr_violations t)))]"

definition serialize_experiment :: "(json \<Rightarrow> string) \<Rightarrow> (rat \<Rightarrow> string) \<Rightarrow> experiment_result \<Rightarrow> json" where
  "serialize_experiment sha txt r =
     (let x = xr_spec r in
      JObj [(''experiment_id'', JStr (experiment_id sha txt x)), (''name'', JStr (xs_name x)),
        (''strategy_version'', JStr (xs_strategy_version x)), (''datasets'', datasets_json (xs_datasets x)),
        (''objective'', JStr (metric_text (xs_objective x))), (''search_method'', JStr (search_text (xs_search x))),
        (''seed'', JNum (of_int (xs_seed x))), (''max_trials'', JNum (of_int (xs_max_trials x))),
        (''constraints'', constraints_json txt (xs_constraints x)), (''parameters'', definitions_json (xs_space x)),
        (''trials'', JList (map (trial_payload txt) (xr_trials r))),
        (''best_trial_id'', optional_string (map_option tr_id (xr_best r)))])"

definition stored_of :: "(json \<Rightarrow> string) \<Rightarrow> (rat \<Rightarrow> string) \<Rightarrow> (datetime \<Rightarrow> string) \<Rightarrow> experiment_result \<Rightarrow> stored_experiment" where
  "stored_of sha txt stamp r = \<lparr>se_id = experiment_id sha txt (xr_spec r), se_name = xs_name (xr_spec r),
     se_version = xs_strategy_version (xr_spec r), se_created_at = stamp (xr_created_at r),
     se_payload = serialize_experiment sha txt r\<rparr>"

definition experiment_conflict :: exn where
  "experiment_conflict = RuntimeError ''experiment id conflict with different result payload''"

definition mem_save_experiment ::
  "stored_experiment \<Rightarrow> (string, stored_experiment) dict \<Rightarrow> ((string, stored_experiment) dict, bool) sres" where
  "mem_save_experiment row d =
     (case dget d (se_id row) of
        Some existing \<Rightarrow> if se_payload existing \<noteq> se_payload row then (d, Inl experiment_conflict) else (d, Inr False)
      | None \<Rightarrow> (dput (se_id row) row d, Inr True))"

definition experiment_order :: "stored_experiment \<Rightarrow> string \<times> string" where
  "experiment_order row = (se_created_at row, se_id row)"

definition mem_list_experiments :: "(string, stored_experiment) dict \<Rightarrow> stored_experiment list" where
  "mem_list_experiments d = sort_key experiment_order (map snd d)"

text \<open>
  The SQLite registry keeps its rows in one table with the id as primary key. \<^verbatim>\<open>INSERT\<close> opens a transaction that the
  following \<^verbatim>\<open>commit\<close> ends; the connection is the pair of committed and current rows.
\<close>

record experiment_conn =
  ec_committed :: "stored_experiment list"
  ec_rows :: "stored_experiment list"

definition sql_get_experiment :: "experiment_conn \<Rightarrow> string \<Rightarrow> stored_experiment option" where
  "sql_get_experiment c k = find (\<lambda>row. se_id row = k) (ec_rows c)"

definition sql_insert_experiment :: "stored_experiment \<Rightarrow> experiment_conn \<Rightarrow> (experiment_conn, unit) sres" where
  "sql_insert_experiment row c =
     (if se_id row \<in> set (map se_id (ec_rows c))
      then (c, Inl (IntegrityError ''UNIQUE constraint failed: research_experiments.experiment_id''))
      else (c\<lparr>ec_rows := ec_rows c @ [row]\<rparr>, Inr ()))"

definition sql_save_experiment :: "stored_experiment \<Rightarrow> experiment_conn \<Rightarrow> (experiment_conn, bool) sres" where
  "sql_save_experiment row c =
     (case sql_get_experiment c (se_id row) of
        Some existing \<Rightarrow> if se_payload existing \<noteq> se_payload row then (c, Inl experiment_conflict) else (c, Inr False)
      | None \<Rightarrow> sbind (sql_insert_experiment row c) (\<lambda>u c1. (c1\<lparr>ec_committed := ec_rows c1\<rparr>, Inr True)))"

definition sql_list_experiments :: "experiment_conn \<Rightarrow> stored_experiment list" where
  "sql_list_experiments c = sort_key experiment_order (ec_rows c)"

definition run_and_register ::
  "research_env \<Rightarrow> (datetime \<Rightarrow> string) \<Rightarrow> experiment_spec \<Rightarrow> (parameter_set \<Rightarrow> research_evaluation res)
    \<Rightarrow> (parameter_set \<Rightarrow> research_evaluation res) option \<Rightarrow> datetime option \<Rightarrow> datetime
    \<Rightarrow> (string, stored_experiment) dict \<Rightarrow> ((string, stored_experiment) dict, experiment_result) sres" where
  "run_and_register R stamp x train valid created_at now d =
     sbind (d, run_experiment R x train valid created_at now) (\<lambda>r d1.
     sbind (mem_save_experiment (stored_of (re_sha R) (re_txt R) stamp r) d1) (\<lambda>b d2. (d2, Inr r)))"

subsection \<open>The dataset fingerprint\<close>

text \<open>\<^verbatim>\<open>normalize()\<close> rounds to the context precision; the plain text of the rounded number is an argument.\<close>

definition candle_payload :: "(rat \<Rightarrow> string) \<Rightarrow> (datetime \<Rightarrow> string) \<Rightarrow> candle \<Rightarrow> json" where
  "candle_payload plain stamp c = JObj [(''symbol'', JStr (cd_symbol c)), (''timeframe'', JStr (cd_timeframe c)),
     (''timestamp'', JStr (stamp (cd_timestamp c))), (''open'', JStr (plain (rnd (cd_open c)))),
     (''high'', JStr (plain (rnd (cd_high c)))), (''low'', JStr (plain (rnd (cd_low c)))),
     (''close'', JStr (plain (rnd (cd_close c)))), (''volume'', JStr (plain (rnd (cd_volume c))))]"

fun fingerprint_rows :: "(candle \<Rightarrow> json) \<Rightarrow> (datetime \<Rightarrow> string) \<Rightarrow> string \<Rightarrow> candle list \<Rightarrow> string list \<Rightarrow> json list res" where
  "fingerprint_rows payload stamp timeframe [] seen = Inr []"
| "fingerprint_rows payload stamp timeframe (c # cs) seen =
     guard (cd_timeframe c \<noteq> timeframe)
       (ValueError (''candle timeframe '' @ cd_timeframe c @ '' does not match dataset key '' @ timeframe))
     (guard (\<not> is_aware (cd_timestamp c)) (ValueError ''research candles must use timezone-aware timestamps'')
     (guard (stamp (cd_timestamp c) \<in> set seen)
       (ValueError (''duplicate research candle timestamp in '' @ timeframe @ '': '' @ stamp (cd_timestamp c)))
     (res_bind (fingerprint_rows payload stamp timeframe cs (stamp (cd_timestamp c) # seen)) (\<lambda>ps. Inr (payload c # ps)))))"

definition fingerprint_candles ::
  "(json \<Rightarrow> string) \<Rightarrow> (rat \<Rightarrow> string) \<Rightarrow> (datetime \<Rightarrow> string) \<Rightarrow> string \<Rightarrow> (string, candle list) dict \<Rightarrow> string res" where
  "fingerprint_candles sha plain stamp symbol source =
     guard (strip symbol = []) (ValueError ''symbol cannot be empty'')
     (res_bind (res_map (\<lambda>(tf, rows). fingerprint_rows (candle_payload plain stamp) stamp tf (prepare_rows symbol rows) [])
         (sort_key fst source)) (\<lambda>pss.
      guard (concat pss = []) (ValueError (''no candles found for '' @ symbol)) (Inr (sha (JList (concat pss))))))"

subsection \<open>What the policy lets through\<close>

definition rules_within :: "strategy_rules \<Rightarrow> strategy_rules \<Rightarrow> bool" where
  "rules_within baseline r \<longleftrightarrow> sr_min_rr baseline \<le> sr_min_rr r \<and>
     sr_min_score baseline \<le> sr_min_score r \<and> (sr_min_score r = sr_min_score baseline \<or> sr_min_score r \<le> 100) \<and>
     sr_min_confidence baseline \<le> sr_min_confidence r \<and>
     (sr_min_confidence r = sr_min_confidence baseline \<or> sr_min_confidence r \<le> 100)"

lemma validate_value_rr: "validate_value b ''min_rr'' (PDecimal d) = Inr () \<longleftrightarrow> sr_min_rr b \<le> dec_value d"
  by (simp add: validate_value_def guard_Inr_iff not_less)

lemma validate_value_score:
  "validate_value b ''min_score'' (PDecimal d) = Inr () \<longleftrightarrow> sr_min_score b \<le> dec_value d \<and> dec_value d \<le> 100"
  by (auto simp: validate_value_def guard_Inr_iff Let_def)

lemma validate_value_confidence:
  "validate_value b ''min_confidence'' (PDecimal d) = Inr () \<longleftrightarrow> sr_min_confidence b \<le> dec_value d \<and> dec_value d \<le> 100"
  by (auto simp: validate_value_def guard_Inr_iff Let_def)

lemma validate_named_Inr:
  "validate_named b n vs = Inr u \<longleftrightarrow> n \<in> set allowed_parameters \<and> (\<forall>v \<in> set vs. validate_value b n v = Inr ())"
proof (induction vs)
  case Nil
  then show ?case by (simp add: validate_named_def not_approved_def)
next
  case (Cons v vs)
  then show ?case by (cases "validate_value b n v")
      (auto simp: validate_named_def not_approved_def guard_simps split: if_splits)
qed

lemma validate_set_member:
  assumes "validate_set b p = Inr u" "(n, v) \<in> set (ps_values p)"
  shows "n \<in> set allowed_parameters \<and> validate_value b n v = Inr ()"
proof -
  obtain us where us: "res_map (\<lambda>(n, v). validate_named b n [v]) (ps_values p) = Inr us"
    using assms(1) by (auto simp: validate_set_def guard_simps)
  from assms(2) obtain i where i: "i < length (ps_values p)" "ps_values p ! i = (n, v)"
    by (auto simp: in_set_conv_nth)
  have "validate_named b n [v] = Inr (us ! i)"
    using list_all2_nthD [OF us [unfolded res_map_Inr_iff] i(1)] i(2) by simp
  then show ?thesis by (simp add: validate_named_Inr)
qed

lemma decimal_or_cases:
  assumes "validate_set b p = Inr u" "decimal_or p n x = Inr y"
  shows "y = x \<or> (\<exists>d. validate_value b n (PDecimal d) = Inr () \<and> y = dec_value d)"
proof (cases "set_get p n")
  case (Some v)
  then have "(n, v) \<in> set (ps_values p)" by (simp add: set_get_def map_of_SomeD)
  from validate_set_member [OF assms(1) this] Some assms(2) show ?thesis
    by (cases v) (auto simp: decimal_or_def)
qed (use assms(2) in \<open>simp add: decimal_or_def\<close>)

lemma rules_from_parameters_within:
  assumes "strategy_rules_from_parameters b b p = Inr r"
  shows "rules_within b r"
proof -
  obtain u where u: "validate_set b p = Inr u"
    and rr: "decimal_or p ''min_rr'' (sr_min_rr b) = Inr (sr_min_rr r)"
    and score: "decimal_or p ''min_score'' (sr_min_score b) = Inr (sr_min_score r)"
    and confidence: "decimal_or p ''min_confidence'' (sr_min_confidence b) = Inr (sr_min_confidence r)"
    using assms by (auto simp: strategy_rules_from_parameters_def guard_simps)
  from decimal_or_cases [OF u rr] have "sr_min_rr b \<le> sr_min_rr r" by (auto simp: validate_value_rr)
  moreover from decimal_or_cases [OF u score]
  have "sr_min_score b \<le> sr_min_score r \<and> (sr_min_score r = sr_min_score b \<or> sr_min_score r \<le> 100)"
    by (auto simp: validate_value_score)
  moreover from decimal_or_cases [OF u confidence]
  have "sr_min_confidence b \<le> sr_min_confidence r \<and> (sr_min_confidence r = sr_min_confidence b \<or> sr_min_confidence r \<le> 100)"
    by (auto simp: validate_value_confidence)
  ultimately show ?thesis by (simp add: rules_within_def)
qed

lemma decimal_or_total: "validate_set b p = Inr u \<Longrightarrow> \<exists>y. decimal_or p n x = Inr y"
proof (cases "set_get p n")
  case (Some v)
  assume "validate_set b p = Inr u"
  moreover from Some have "(n, v) \<in> set (ps_values p)" by (simp add: set_get_def map_of_SomeD)
  ultimately have "validate_value b n v = Inr ()" by (blast dest: validate_set_member)
  with Some show ?thesis by (cases v) (simp_all add: decimal_or_def validate_value_def)
qed (simp add: decimal_or_def)

lemma rules_from_parameters_total:
  assumes "validate_set b p = Inr u"
  shows "\<exists>r. strategy_rules_from_parameters b b p = Inr r"
  using decimal_or_total [OF assms, of "''min_rr''" "sr_min_rr b"] decimal_or_total [OF assms, of "''min_score''" "sr_min_score b"]
    decimal_or_total [OF assms, of "''min_confidence''" "sr_min_confidence b"] assms
  by (auto simp: strategy_rules_from_parameters_def)

subsection \<open>Trials\<close>

lemma run_trial_Inr:
  assumes "run_trial R x train valid p = Inr t"
  shows "tr_parameters t = p" "validate_set (re_policy R) p = Inr ()" "train p = Inr (tr_training t)"
    "tr_feasible t \<longleftrightarrow> tr_violations t = []" "tr_validation t = None \<longleftrightarrow> valid = None"
    "\<And>f. valid = Some f \<Longrightarrow> \<exists>v. tr_validation t = Some v \<and> f p = Inr v"
    "tr_selection_objective t = objective_value (selection_summary t) (xs_objective x)"
    "set (constraint_violations (selection_summary t) (xs_constraints x) (if valid = None then ''training'' else ''validation'') True)
       \<subseteq> set (tr_violations t)"
  using assms by (auto simp: run_trial_def guard_simps Let_def selection_summary_def split: option.splits)

lemma head_of_sort_least:
  assumes "t = hd (sort_key f xs)" "xs \<noteq> []"
  shows "t \<in> set xs \<and> (\<forall>y \<in> set xs. f t \<le> f y)"
proof -
  have ne: "sort_key f xs \<noteq> []" using assms(2) by (metis set_empty set_sort)
  then obtain z zs where z: "sort_key f xs = z # zs" by (cases "sort_key f xs") auto
  have "sorted (map f (z # zs))" using sorted_sort_key [of f xs] z by simp
  moreover have "set xs = set (z # zs)" using set_sort [of f xs] z by simp
  ultimately show ?thesis using assms(1) z by auto
qed

lemma best_trial_Some:
  assumes "best_trial R trials = Some t"
  shows "t \<in> set trials \<and> tr_feasible t \<and> (\<forall>y \<in> set trials. tr_feasible y \<longrightarrow> trial_key R t \<le> trial_key R y)"
proof -
  have f: "filter tr_feasible trials \<noteq> []" "t = hd (sort_key (trial_key R) (filter tr_feasible trials))"
    using assms by (auto simp: best_trial_def Let_def split: if_splits)
  from head_of_sort_least [OF f(2,1)] show ?thesis by auto
qed

lemma best_trial_None: "best_trial R trials = None \<longleftrightarrow> (\<forall>t \<in> set trials. \<not> tr_feasible t)"
  by (auto simp: best_trial_def Let_def filter_empty_conv)

lemma trial_key_objective: "trial_key R t \<le> trial_key R y \<Longrightarrow> rnd (tr_selection_objective y) \<le> rnd (tr_selection_objective t)"
  by (auto simp: trial_key_def less_eq_prod_def dneg_eq)

lemma constraint_violations_none:
  assumes "constraint_violations s k prefix True = []"
  shows "rcn_min_trades k \<le> int (es_trade_count s) \<and> rcn_min_oos_windows k \<le> int (es_window_count s) \<and>
    (\<forall>m. rcn_max_drawdown k = Some m \<longrightarrow> es_max_drawdown s \<le> m) \<and>
    (\<forall>m. rcn_min_profit_factor k = Some m \<longrightarrow> \<not> factor_below (es_profit_factor s) m)"
  using assms by (auto simp: constraint_violations_def split: if_splits option.splits)

lemma run_experiment_Inr:
  assumes "run_experiment R x train valid created now = Inr r"
  obtains sets where "enumerate_parameter_sets (re_sample R) (xs_space x) (xs_search x) (xs_max_trials x) (xs_seed x) = Inr sets"
    "list_all2 (\<lambda>p t. run_trial R x train valid p = Inr t) sets (xr_trials r)" "xr_best r = best_trial R (xr_trials r)"
    "xr_spec r = x"
  using assms by (auto simp: run_experiment_def guard_simps res_map_Inr_iff Let_def)

lemma run_experiment_trial:
  assumes "run_experiment R x train valid created now = Inr r" "t \<in> set (xr_trials r)"
  shows "run_trial R x train valid (tr_parameters t) = Inr t"
proof (rule run_experiment_Inr [OF assms(1)])
  fix sets assume l: "list_all2 (\<lambda>p t. run_trial R x train valid p = Inr t) sets (xr_trials r)"
  from assms(2) obtain i where i: "i < length (xr_trials r)" "xr_trials r ! i = t" by (auto simp: in_set_conv_nth)
  from list_all2_nthD2 [OF l i(1)] i(2) run_trial_Inr(1) show ?thesis by simp
qed

subsection \<open>Registries agree\<close>

definition experiments_inv :: "(string, stored_experiment) dict \<Rightarrow> bool" where
  "experiments_inv d \<longleftrightarrow> keyed se_id d"

definition experiment_conn_inv :: "experiment_conn \<Rightarrow> bool" where
  "experiment_conn_inv c \<longleftrightarrow> distinct (map se_id (ec_rows c)) \<and> ec_committed c = ec_rows c"

definition same_payload :: "stored_experiment \<Rightarrow> stored_experiment \<Rightarrow> bool" where
  "same_payload a b \<longleftrightarrow> se_payload a = se_payload b"

lemma find_id_None: "find (\<lambda>row. se_id row = k) rows = None \<longleftrightarrow> k \<notin> set (map se_id rows)"
  by (auto simp: find_None_iff)

text \<open>A new id never violates the primary key, so \<^verbatim>\<open>save\<close> has three outcomes.\<close>

lemma sql_get_None: "sql_get_experiment c k = None \<longleftrightarrow> k \<notin> set (map se_id (ec_rows c))"
  unfolding sql_get_experiment_def by (rule find_id_None)

lemma sql_save_cases:
  "sql_save_experiment row c =
     (case sql_get_experiment c (se_id row) of
        Some old \<Rightarrow> (c, if same_payload old row then Inr False else Inl experiment_conflict)
      | None \<Rightarrow> (c\<lparr>ec_rows := ec_rows c @ [row], ec_committed := ec_rows c @ [row]\<rparr>, Inr True))"
proof (cases "sql_get_experiment c (se_id row)")
  case None
  then have "se_id row \<notin> set (map se_id (ec_rows c))" by (simp add: sql_get_None)
  with None show ?thesis by (simp add: sql_save_experiment_def sql_insert_experiment_def)
qed (simp add: sql_save_experiment_def same_payload_def)

lemma sql_get_append:
  "sql_get_experiment (c\<lparr>ec_rows := ec_rows c @ [row], ec_committed := x\<rparr>) k =
     (case sql_get_experiment c k of Some r \<Rightarrow> Some r | None \<Rightarrow> if se_id row = k then Some row else None)"
  by (simp add: sql_get_experiment_def find_append split: option.split)

lemma sql_get_key: "sql_get_experiment c k = Some row \<Longrightarrow> se_id row = k"
  by (auto simp: sql_get_experiment_def dest: find_SomeD)

lemma mem_save_cases:
  "mem_save_experiment row d =
     (case dget d (se_id row) of
        Some old \<Rightarrow> (d, if same_payload old row then Inr False else Inl experiment_conflict)
      | None \<Rightarrow> (dput (se_id row) row d, Inr True))"
  by (simp add: mem_save_experiment_def same_payload_def split: option.split)

lemma mem_experiments_inv: "experiments_inv d \<Longrightarrow> experiments_inv (fst (mem_save_experiment row d))"
  by (cases "dget d (se_id row)") (simp_all add: mem_save_cases experiments_inv_def keyed_dput)

lemma mem_experiments_get:
  "dget (fst (mem_save_experiment row d)) k =
     (if dget d (se_id row) = None \<and> k = se_id row then Some row else dget d k)"
  by (cases "dget d (se_id row)") (simp_all add: mem_save_cases)

lemma mem_experiments_result:
  "snd (mem_save_experiment row d) =
     (case dget d (se_id row) of None \<Rightarrow> Inr True
      | Some old \<Rightarrow> if same_payload old row then Inr False else Inl experiment_conflict)"
  by (simp add: mem_save_cases split: option.split)

lemma mem_experiments_old: "dget d (se_id row) = Some old \<Longrightarrow> fst (mem_save_experiment row d) = d"
  by (simp add: mem_save_cases)

lemma mem_experiments_stored:
  "experiments_inv s \<Longrightarrow> snd (mem_save_experiment e s) = Inr b \<Longrightarrow> \<exists>e'. dget (fst (mem_save_experiment e s)) (se_id e) = Some e' \<and> same_payload e' e"
    by (cases "dget s (se_id e)") (auto simp: mem_experiments_get mem_experiments_result same_payload_def split: if_splits)
lemma mem_experiments_conflict:
  "experiments_inv s \<Longrightarrow> dget s (se_id e) = Some e' \<Longrightarrow> \<not> same_payload e' e \<Longrightarrow> fst (mem_save_experiment e s) = s \<and> (\<exists>x. snd (mem_save_experiment e s) = Inl x)"
 by (simp add: mem_experiments_old mem_experiments_result)
lemma mem_experiments_again:
  "experiments_inv s \<Longrightarrow> dget s (se_id e) = Some e' \<Longrightarrow> same_payload e' e \<Longrightarrow> dget (fst (mem_save_experiment e s)) (se_id e) = Some e' \<and> (\<exists>b. snd (mem_save_experiment e s) = Inr b)"
  using exI [of Not False] by (simp add: mem_experiments_old mem_experiments_result)
lemma mem_experiments_failed:
  "snd (mem_save_experiment e s) = Inl x \<Longrightarrow> fst (mem_save_experiment e s) = s"
    by (cases "dget s (se_id e)") (simp_all add: mem_experiments_old mem_experiments_result)

interpretation experiments: append_only_store mem_save_experiment dget se_id same_payload experiments_inv
proof (unfold_locales, goal_cases)
  case (1 s e) then show ?case by (rule mem_experiments_inv)
next
  case (2 s e b) then show ?case by (rule mem_experiments_stored)
next
  case (3 s k e) then show ?case by (simp add: mem_experiments_get)
next
  case (4 s e e') then show ?case by (rule mem_experiments_conflict)
next
  case (5 s e e') then show ?case by (rule mem_experiments_again)
next
  case (6 s e x) then show ?case by (intro mem_experiments_failed)
next
  case (7 s k e) then show ?case unfolding experiments_inv_def by (rule keyed_dget)
next
  case (8 e) show ?case by (simp add: same_payload_def)
qed

interpretation sql_experiments: append_only_store sql_save_experiment sql_get_experiment se_id same_payload experiment_conn_inv
proof unfold_locales
  fix s e k b e' x
  assume i: "experiment_conn_inv s"
  show "experiment_conn_inv (fst (sql_save_experiment e s))"
    using i sql_get_None [of s "se_id e"]
    by (cases "sql_get_experiment s (se_id e)") (simp_all add: sql_save_cases experiment_conn_inv_def)
  show "snd (sql_save_experiment e s) = Inr b \<Longrightarrow>
      \<exists>e'. sql_get_experiment (fst (sql_save_experiment e s)) (se_id e) = Some e' \<and> same_payload e' e"
    by (cases "sql_get_experiment s (se_id e)")
      (auto simp: sql_save_cases sql_get_append same_payload_def split: if_splits)
  show "k \<noteq> se_id e \<Longrightarrow> sql_get_experiment (fst (sql_save_experiment e s)) k = sql_get_experiment s k"
    by (cases "sql_get_experiment s (se_id e)") (auto simp: sql_save_cases sql_get_append split: option.splits)
  show "sql_get_experiment s (se_id e) = Some e' \<Longrightarrow> \<not> same_payload e' e \<Longrightarrow>
      fst (sql_save_experiment e s) = s \<and> (\<exists>x. snd (sql_save_experiment e s) = Inl x)"
    by (simp add: sql_save_cases)
  show "sql_get_experiment s (se_id e) = Some e' \<Longrightarrow> same_payload e' e \<Longrightarrow>
      sql_get_experiment (fst (sql_save_experiment e s)) (se_id e) = Some e' \<and> (\<exists>b. snd (sql_save_experiment e s) = Inr b)"
    using exI [of Not False] by (simp add: sql_save_cases)
  show "snd (sql_save_experiment e s) = Inl x \<Longrightarrow> fst (sql_save_experiment e s) = s"
    by (cases "sql_get_experiment s (se_id e)") (auto simp: sql_save_cases)
  show "sql_get_experiment s k = Some e \<Longrightarrow> se_id e = k"
    by (rule sql_get_key)
qed (simp add: same_payload_def)

definition same_experiments :: "experiment_conn \<Rightarrow> (string, stored_experiment) dict \<Rightarrow> bool" where
  "same_experiments c d \<longleftrightarrow> ec_rows c = map snd d \<and> ec_committed c = ec_rows c \<and> experiments_inv d"

lemma keyed_Cons: "keyed f (p # d) \<Longrightarrow> keyed f d \<and> f (snd p) = fst p"
  by (auto simp: keyed_def dict_ok_def)

lemma find_values: "keyed se_id d \<Longrightarrow> find (\<lambda>row. se_id row = k) (map snd d) = dget d k"
  by (induction d) (auto dest!: keyed_Cons)

lemma experiments_step:
  assumes "same_experiments c d"
  shows "snd (sql_save_experiment row c) = snd (mem_save_experiment row d) \<and>
    same_experiments (fst (sql_save_experiment row c)) (fst (mem_save_experiment row d))"
proof -
  have k: "keyed se_id d" and rows: "ec_rows c = map snd d" "ec_committed c = ec_rows c"
    using assms by (simp_all add: same_experiments_def experiments_inv_def)
  have g: "sql_get_experiment c (se_id row) = dget d (se_id row)"
    by (simp add: sql_get_experiment_def rows find_values [OF k])
  show ?thesis
  proof (cases "dget d (se_id row)")
    case None
    have "keyed se_id (dput (se_id row) row d)" using k by (simp add: keyed_dput)
    with None g rows show ?thesis
      by (simp add: sql_save_cases mem_save_experiment_def same_experiments_def experiments_inv_def fresh_dput)
  next
    case (Some old)
    with g assms show ?thesis by (simp add: sql_save_cases mem_save_experiment_def same_payload_def)
  qed
qed

fun save_all :: "('e \<Rightarrow> 's \<Rightarrow> 's \<times> 'r res) \<Rightarrow> 'e list \<Rightarrow> 's \<Rightarrow> 's \<times> 'r res list" where
  "save_all save [] s = (s, [])"
| "save_all save (e # es) s = (let x = save e s; y = save_all save es (fst x) in (fst y, snd x # snd y))"

lemma experiments_run:
  assumes "same_experiments c d"
  shows "snd (save_all sql_save_experiment rows c) = snd (save_all mem_save_experiment rows d) \<and>
    same_experiments (fst (save_all sql_save_experiment rows c)) (fst (save_all mem_save_experiment rows d))"
  using assms
proof (induction rows arbitrary: c d)
  case (Cons row rows)
  note step = experiments_step [OF Cons.prems, of row]
  from Cons.IH [OF conjunct2 [OF step]] conjunct1 [OF step] show ?case
    by (simp add: Let_def)
qed simp

lemma same_experiments_list: "same_experiments c d \<Longrightarrow> sql_list_experiments c = mem_list_experiments d"
  by (simp add: same_experiments_def sql_list_experiments_def mem_list_experiments_def)

subsection \<open>The fingerprint does not see the order of the rows\<close>

lemma fingerprint_rows_distinct:
  assumes "fingerprint_rows payload stamp tf cs seen = Inr ps"
  shows "distinct (map (\<lambda>c. stamp (cd_timestamp c)) cs) \<and> (\<forall>c \<in> set cs. is_aware (cd_timestamp c)) \<and>
    set seen \<inter> (\<lambda>c. stamp (cd_timestamp c)) ` set cs = {}"
  using assms
proof (induction cs arbitrary: seen ps)
  case (Cons c cs)
  obtain qs where q: "fingerprint_rows payload stamp tf cs (stamp (cd_timestamp c) # seen) = Inr qs"
    "is_aware (cd_timestamp c)" "stamp (cd_timestamp c) \<notin> set seen"
    using Cons.prems by (auto simp: guard_simps)
  from Cons.IH [OF q(1)] q(2,3) show ?case by auto
qed simp

lemma aware_instant_eq: "is_aware a \<Longrightarrow> is_aware b \<Longrightarrow> instant a = instant b \<Longrightarrow> a = b"
  by (cases a; cases b) auto

lemma prepare_rows_perm:
  assumes "fingerprint_rows payload stamp tf (prepare_rows symbol rows) [] = Inr ps" "mset rows' = mset rows"
  shows "prepare_rows symbol rows' = prepare_rows symbol rows"
proof -
  let ?P = "\<lambda>c. cd_symbol c = symbol"
  have same: "mset (filter ?P rows') = mset (filter ?P rows)" using assms(2) by simp
  have set_eq: "set (prepare_rows symbol rows) = set (filter ?P rows')"
    using same by (metis ordered_def prepare_rows_def set_mset_mset set_sort)
  from fingerprint_rows_distinct [OF assms(1)]
  have d: "inj_on (\<lambda>c. stamp (cd_timestamp c)) (set (filter ?P rows'))" "\<forall>c \<in> set (filter ?P rows'). is_aware (cd_timestamp c)"
    by (simp_all add: distinct_map set_eq)
  have inj: "inj_on (\<lambda>c. instant (cd_timestamp c)) (set (filter ?P rows'))"
  proof (rule inj_onI)
    fix a b assume m: "a \<in> set (filter ?P rows')" "b \<in> set (filter ?P rows')" "instant (cd_timestamp a) = instant (cd_timestamp b)"
    then have "cd_timestamp a = cd_timestamp b" using d(2) by (intro aware_instant_eq) auto
    then show "a = b" by (intro inj_onD [OF d(1) _ m(1,2)]) simp
  qed
  have "mset (filter ?P rows') = mset (ordered (filter ?P rows))" using same by (simp add: ordered_def)
  moreover have "sorted (map (\<lambda>c. instant (cd_timestamp c)) (ordered (filter ?P rows)))" by (simp add: ordered_def)
  ultimately show ?thesis unfolding prepare_rows_def ordered_def using inj sort_key_inj_key_eq by blast
qed

definition reordered :: "(string, candle list) dict \<Rightarrow> (string, candle list) dict \<Rightarrow> bool" where
  "reordered a b \<longleftrightarrow> mset (map fst a) = mset (map fst b) \<and>
     (\<forall>tf rows. dget a tf = Some rows \<longrightarrow> (\<exists>rows'. dget b tf = Some rows' \<and> mset rows' = mset rows))"

lemma sorted_entries:
  assumes "dict_ok (d :: (string, 'v) dict)"
  shows "sort_key fst d = map (\<lambda>k. (k, the (dget d k))) (sort (map fst d))"
proof (rule sort_key_inj_key_eq)
  let ?g = "\<lambda>k. (k, the (dget d k))"
  have "map (?g \<circ> fst) d = d" using assms by (intro map_idI) (auto simp: dict_ok_def)
  then have "map ?g (map fst d) = d" by simp
  then show "mset d = mset (map ?g (sort (map fst d)))" by (metis mset_map mset_sort)
  show "inj_on fst (set d)" using assms by (simp add: dict_ok_def distinct_map)
  show "sorted (map fst (map ?g (sort (map fst d))))" by (simp add: comp_def)
qed

lemma res_map_pairs: "res_map f (map g xs) = res_map (\<lambda>x. f (g x)) xs"
  by (induction xs) simp_all

lemma res_map_agree:
  assumes "res_map f xs = Inr ys" "\<And>x y. x \<in> set xs \<Longrightarrow> f x = Inr y \<Longrightarrow> g x = Inr y"
  shows "res_map g xs = Inr ys"
  using assms unfolding res_map_Inr_iff by (rule list.rel_mono_strong)

lemma fingerprint_reordered:
  assumes ok: "dict_ok source" "dict_ok source'" and re: "reordered source source'"
    and h: "fingerprint_candles sha plain stamp symbol source = Inr h"
  shows "fingerprint_candles sha plain stamp symbol source' = Inr h"
proof -
  let ?f = "\<lambda>(tf, rows). fingerprint_rows (candle_payload plain stamp) stamp tf (prepare_rows symbol rows) []"
  obtain pss where pss: "res_map ?f (sort_key fst source) = Inr pss"
    and rest: "strip symbol \<noteq> []" "concat pss \<noteq> []" "h = sha (JList (concat pss))"
    using h by (auto simp: fingerprint_candles_def guard_simps)
  have keys: "sort (map fst source') = sort (map fst source)"
    by (rule properties_for_sort) (use re in \<open>simp_all add: reordered_def\<close>)
  have entries: "sort_key fst source = map (\<lambda>k. (k, the (dget source k))) (sort (map fst source))"
    "sort_key fst source' = map (\<lambda>k. (k, the (dget source' k))) (sort (map fst source))"
    by (rule sorted_entries [OF ok(1)], rule sorted_entries [OF ok(2), unfolded keys])
  have "res_map ?f (sort_key fst source') = Inr pss"
  proof (unfold entries res_map_pairs, rule res_map_agree [OF pss [unfolded entries res_map_pairs]])
    fix k ps assume k: "k \<in> set (sort (map fst source))"
      and one: "?f (k, the (dget source k)) = Inr ps"
    then have "k \<in> dom (dget source)" by (simp add: dom_map_of_conv_image_fst)
    then obtain rows where rows: "dget source k = Some rows" by blast
    then obtain rows' where rows': "dget source' k = Some rows'" "mset rows' = mset rows"
      using re by (auto simp: reordered_def)
    have "prepare_rows symbol rows' = prepare_rows symbol rows"
      by (rule prepare_rows_perm [OF _ rows'(2)]) (use one rows in simp)
    with one rows rows'(1) show "?f (k, the (dget source' k)) = Inr ps" by simp
  qed
  with rest show ?thesis by (simp add: fingerprint_candles_def guard_def)
qed

subsection \<open>Enumerations\<close>

text \<open>What the documentation of \<^verbatim>\<open>random.sample\<close> promises: as many distinct members of the population as asked for.\<close>

definition samples :: "(int \<Rightarrow> nat \<Rightarrow> nat \<Rightarrow> nat list) \<Rightarrow> bool" where
  "samples sample \<longleftrightarrow> (\<forall>seed n k. k \<le> n \<longrightarrow> length (sample seed n k) = k \<and> distinct (sample seed n k) \<and>
     set (sample seed n k) \<subseteq> {..<n})"

lemma enumerate_grid:
  assumes "space_ok (sp_definitions sp)" "sp_definitions sp \<noteq> []" "0 < max_trials" "int (combination_count sp) \<le> max_trials"
  shows "enumerate_parameter_sets sample sp GRID max_trials seed = Inr (grid (sp_definitions sp))"
  using assms by (simp add: enumerate_parameter_sets_def grid_sets_grid)

lemma enumerate_random:
  assumes ok: "space_ok (sp_definitions sp)" "sp_definitions sp \<noteq> []" and "0 < max_trials" and s: "samples sample"
  shows "\<exists>is. distinct is \<and> set is \<subseteq> {..<combination_count sp} \<and> length is = min (nat max_trials) (combination_count sp) \<and>
    enumerate_parameter_sets sample sp RANDOM max_trials seed = Inr (map ((!) (grid (sp_definitions sp))) is)"
proof -
  let ?n = "combination_count sp"
  let ?is = "sample seed ?n (min (nat max_trials) ?n)"
  have i: "length ?is = min (nat max_trials) ?n" "distinct ?is" "set ?is \<subseteq> {..<?n}"
    using s by (auto simp: samples_def)
  have "set_from_index sp (int j) = Inr (grid (sp_definitions sp) ! j)" if "j \<in> set ?is" for j
    using i(3) that by (intro set_from_index_grid [OF ok(1)]) auto
  then have "res_map (\<lambda>j. set_from_index sp (int j)) ?is = Inr (map ((!) (grid (sp_definitions sp))) ?is)"
    unfolding res_map_Inr_iff list_all2_map2 by (intro list.rel_refl_strong) simp
  with i assms show ?thesis by (intro exI [of _ ?is]) (simp add: enumerate_parameter_sets_def Let_def)
qed

end
