(* ===== verification/Strategy_Validation.thy ===== *)
theory Strategy_Validation
  imports Research Robustness Performance
begin

section \<open>Validation of a strategy\<close>

text \<open>
  \<^verbatim>\<open>app/strategy_validation\<close>: the policy (\<^verbatim>\<open>models.py\<close>), stress of the costs (\<^verbatim>\<open>cost_stress.py\<close>), the chronological split
  (\<^verbatim>\<open>oos.py\<close>), performance by regime (\<^verbatim>\<open>regime.py\<close>), parameter stability (\<^verbatim>\<open>stability.py\<close>), forward observations
  (\<^verbatim>\<open>forward.py\<close>), the qualification gate (\<^verbatim>\<open>qualification.py\<close>) and the calibration of its thresholds (\<^verbatim>\<open>calibration.py\<close>).
  The texts of decimals and timestamps and SHA-256 are arguments.
\<close>

subsection \<open>Decimals with infinities\<close>

text \<open>
  The profit factor of a run without losses is \<^verbatim>\<open>Decimal("Infinity")\<close>, and it reaches the calibration. Arithmetic on infinities
  follows the default context: an operation without a value raises \<^verbatim>\<open>InvalidOperation\<close>.
\<close>

datatype xdec = NInf | Fin rat | PInf

fun xkey :: "xdec \<Rightarrow> int \<times> rat" where
  "xkey NInf = (0, 0)"
| "xkey (Fin x) = (1, x)"
| "xkey PInf = (2, 0)"

instantiation xdec :: linorder
begin

definition less_eq_xdec :: "xdec \<Rightarrow> xdec \<Rightarrow> bool" where
  "less_eq_xdec a b \<longleftrightarrow> xkey a \<le> xkey b"

definition less_xdec :: "xdec \<Rightarrow> xdec \<Rightarrow> bool" where
  "less_xdec a b \<longleftrightarrow> xkey a < xkey b"

instance
proof
  fix a b c :: xdec
  show "a \<le> b \<Longrightarrow> b \<le> a \<Longrightarrow> a = b"
    by (cases a; cases b) (simp_all add: less_eq_xdec_def less_eq_prod_def)
qed (auto simp: less_eq_xdec_def less_xdec_def)

end

definition invalid_operation :: "'a res" where
  "invalid_operation = Inl (OtherError ''InvalidOperation'')"

fun xadd :: "xdec \<Rightarrow> xdec \<Rightarrow> xdec res" where
  "xadd (Fin a) (Fin b) = Inr (Fin (dadd a b))"
| "xadd (Fin a) b = Inr b"
| "xadd a (Fin b) = Inr a"
| "xadd a b = (if a = b then Inr a else invalid_operation)"

fun xneg :: "xdec \<Rightarrow> xdec" where
  "xneg NInf = PInf"
| "xneg (Fin a) = Fin (- a)"
| "xneg PInf = NInf"

definition xsub :: "xdec \<Rightarrow> xdec \<Rightarrow> xdec res" where
  "xsub a b = xadd a (xneg b)"

fun xscale :: "xdec \<Rightarrow> rat \<Rightarrow> xdec res" where
  "xscale (Fin a) f = Inr (Fin (dmul a f))"
| "xscale a f = (if f = 0 then invalid_operation else if 0 < f then Inr a else Inr (xneg a))"

subsection \<open>Policy and report\<close>

record validation_check =
  vc_name :: string
  vc_passed :: bool
  vc_details :: string
  vc_critical :: bool

record validation_policy =
  po_min_oos_trades :: int
  po_min_oos_return :: rat
  po_min_oos_profit_factor :: xdec
  po_max_oos_drawdown :: rat
  po_min_windows :: int
  po_min_profitable_ratio :: rat
  po_min_mc_median :: rat
  po_max_mc_drawdown :: rat
  po_max_cost_degradation :: rat
  po_max_spread :: rat
  po_min_feasible_ratio :: rat
  po_min_regime_trades :: int
  po_min_regimes :: int
  po_min_forward :: int
  po_min_hit_rate :: rat
  po_min_forward_mean :: rat

definition default_validation_policy :: validation_policy where
  "default_validation_policy = \<lparr>po_min_oos_trades = 20, po_min_oos_return = 0, po_min_oos_profit_factor = Fin (105 / 100),
     po_max_oos_drawdown = 25, po_min_windows = 3, po_min_profitable_ratio = 60 / 100, po_min_mc_median = 0,
     po_max_mc_drawdown = 40, po_max_cost_degradation = 40, po_max_spread = 35 / 100, po_min_feasible_ratio = 50 / 100,
     po_min_regime_trades = 5, po_min_regimes = 2, po_min_forward = 20, po_min_hit_rate = 50, po_min_forward_mean = 0\<rparr>"

definition policy_make :: "validation_policy \<Rightarrow> validation_policy res" where
  "policy_make p =
     guard (\<exists>v \<in> set [po_min_oos_trades p, po_min_windows p, po_min_regime_trades p, po_min_regimes p, po_min_forward p]. v < 0)
       (ValueError ''validation minimum counts must be non-negative'')
     (guard (\<exists>v \<in> set [po_max_oos_drawdown p, po_max_mc_drawdown p, po_max_cost_degradation p, po_min_hit_rate p]. v < 0 \<or> 100 < v)
       (ValueError ''validation percentage thresholds must be in [0, 100]'')
     (guard (\<exists>v \<in> set [po_min_profitable_ratio p, po_max_spread p, po_min_feasible_ratio p]. v < 0 \<or> 1 < v)
       (ValueError ''validation ratio thresholds must be in [0, 1]'') (Inr p)))"

datatype validation_decision = QUALIFIED | HOLD

definition validation_decision_of :: "validation_check list \<Rightarrow> validation_decision" where
  "validation_decision_of checks =
     (if checks \<noteq> [] \<and> list_all (\<lambda>c. vc_passed c \<or> \<not> vc_critical c) checks then QUALIFIED else HOLD)"

subsection \<open>Stress of the costs\<close>

record stress_scenario =
  sn_name :: string
  sn_commission :: rat
  sn_spread :: rat
  sn_slippage :: rat
  sn_funding :: rat

definition scenario_make :: "stress_scenario \<Rightarrow> stress_scenario res" where
  "scenario_make x =
     guard (strip (sn_name x) = []) (ValueError ''stress scenario name cannot be blank'')
     (guard (sn_commission x < 0 \<or> sn_spread x < 0 \<or> sn_slippage x < 0) (ValueError ''stress costs must be non-negative'') (Inr x))"

record stress_outcome =
  so_scenario :: stress_scenario
  so_result :: bt_result
  so_degradation :: rat
  so_drawdown_increase :: rat

record cost_stress_report =
  sr_baseline :: bt_result
  sr_outcomes :: "stress_outcome list"

definition worst_degradation :: "cost_stress_report \<Rightarrow> rat" where
  "worst_degradation r = (if sr_outcomes r = [] then 0 else Max (set (map so_degradation (sr_outcomes r))))"

definition degradation_percent :: "rat \<Rightarrow> rat \<Rightarrow> rat" where
  "degradation_percent baseline stressed = max 0 (dmul (ddiv (dsub baseline stressed) (max (dabs baseline) 1)) 100)"

definition stressed_config :: "bt_config \<Rightarrow> stress_scenario \<Rightarrow> bt_config res" where
  "stressed_config base x =
     (let cfg = base\<lparr>bc_commission := sn_commission x, bc_spread := sn_spread x, bc_slippage := sn_slippage x,
        bc_funding_rate := sn_funding x\<rparr> in
      res_bind (bt_config_validate cfg) (\<lambda>u. Inr cfg))"

definition backtest_with ::
  "bt_config \<Rightarrow> strategy_rules \<Rightarrow> (nat \<Rightarrow> string) \<Rightarrow> string \<Rightarrow> (string, candle list) dict \<Rightarrow> datetime option \<Rightarrow> bt_result res" where
  "backtest_with cfg rules ids symbol source start =
     res_bind (engine_make cfg rules ids) (\<lambda>E. res_bind (engine_run E symbol source start) (\<lambda>(r, evs). Inr r))"

definition stress_outcome_of ::
  "(bt_config \<Rightarrow> bt_result res) \<Rightarrow> bt_config \<Rightarrow> bt_result \<Rightarrow> stress_scenario \<Rightarrow> stress_outcome res" where
  "stress_outcome_of backtest base baseline x =
     res_bind (stressed_config base x) (\<lambda>cfg. res_bind (backtest cfg) (\<lambda>r.
       Inr \<lparr>so_scenario = x, so_result = r,
         so_degradation = degradation_percent (br_total_return_percent baseline) (br_total_return_percent r),
         so_drawdown_increase = max 0 (dsub (br_max_drawdown_percent r) (br_max_drawdown_percent baseline))\<rparr>))"

definition run_cost_stress_validation ::
  "string \<Rightarrow> (string, candle list) dict \<Rightarrow> bt_config \<Rightarrow> stress_scenario list \<Rightarrow> strategy_rules \<Rightarrow> (nat \<Rightarrow> string)
    \<Rightarrow> datetime option \<Rightarrow> cost_stress_report res" where
  "run_cost_stress_validation symbol source base scenarios rules ids start =
     (let backtest = (\<lambda>cfg. backtest_with cfg rules ids symbol source start) in
      res_bind (backtest base) (\<lambda>baseline.
      res_bind (res_map (stress_outcome_of backtest base baseline) scenarios) (\<lambda>outcomes.
        Inr \<lparr>sr_baseline = baseline, sr_outcomes = outcomes\<rparr>)))"

subsection \<open>The chronological split\<close>

record chronological_split =
  cs_train_start :: datetime
  cs_train_end :: datetime
  cs_validation_start :: datetime
  cs_validation_end :: datetime
  cs_holdout_start :: datetime
  cs_holdout_end :: datetime

definition build_chronological_split :: "candle list \<Rightarrow> int \<Rightarrow> int \<Rightarrow> chronological_split res" where
  "build_chronological_split anchor train validation =
     (let rows = ordered anchor; stamp = (\<lambda>i. cd_timestamp (rows ! nat i)) in
      guard (train \<le> 0 \<or> validation \<le> 0) (ValueError ''train_size and validation_size must be positive'')
      (guard (int (length rows) \<le> train + validation)
        (ValueError ''anchor dataset does not leave a non-empty holdout segment'')
      (guard (\<not> distinct (map (\<lambda>c. instant (cd_timestamp c)) rows)) (ValueError ''anchor dataset contains duplicate timestamps'')
        (Inr \<lparr>cs_train_start = stamp 0, cs_train_end = stamp (train - 1), cs_validation_start = stamp train,
          cs_validation_end = stamp (train + validation - 1), cs_holdout_start = stamp (train + validation),
          cs_holdout_end = cd_timestamp (last rows)\<rparr>))))"

definition history_until :: "string \<Rightarrow> datetime \<Rightarrow> (string, candle list) dict \<Rightarrow> (string, candle list) dict" where
  "history_until symbol end_time source =
     map (\<lambda>(tf, rows). (tf, ordered (filter (\<lambda>c. cd_symbol c = symbol \<and> instant (cd_timestamp c) \<le> instant end_time) rows))) source"

record oos_result =
  ov_split :: chronological_split
  ov_training :: bt_result
  ov_validation :: bt_result
  ov_holdout :: bt_result

definition run_out_of_sample_validation ::
  "string \<Rightarrow> (string, candle list) dict \<Rightarrow> int \<Rightarrow> int \<Rightarrow> bt_config \<Rightarrow> strategy_rules \<Rightarrow> (nat \<Rightarrow> string) \<Rightarrow> oos_result res" where
  "run_out_of_sample_validation symbol source train validation cfg rules ids =
     (let anchor = filter (\<lambda>c. cd_symbol c = symbol) (case dget source ''15m'' of None \<Rightarrow> [] | Some rows \<Rightarrow> rows) in
      res_bind (build_chronological_split anchor train validation) (\<lambda>split.
      res_bind (backtest_with cfg rules ids symbol (history_until symbol (cs_train_end split) source) None) (\<lambda>training.
      res_bind (backtest_with cfg rules ids symbol (history_until symbol (cs_validation_end split) source)
          (Some (cs_validation_start split))) (\<lambda>validated.
      res_bind (backtest_with cfg rules ids symbol (history_until symbol (cs_holdout_end split) source)
          (Some (cs_holdout_start split))) (\<lambda>holdout.
        Inr \<lparr>ov_split = split, ov_training = training, ov_validation = validated, ov_holdout = holdout\<rparr>)))))"

subsection \<open>Performance by regime\<close>

record regime_interval =
  ri_label :: string
  ri_start :: datetime
  ri_end :: datetime

definition interval_make :: "regime_interval \<Rightarrow> regime_interval res" where
  "interval_make i =
     guard (strip (ri_label i) = []) (ValueError ''regime label cannot be blank'')
     (guard (instant (ri_end i) < instant (ri_start i)) (ValueError ''regime interval end cannot precede start'') (Inr i))"

record regime_performance =
  rp_label :: string
  rp_trade_count :: nat
  rp_total_pnl :: rat
  rp_win_rate :: rat
  rp_profit_factor :: "rat option"

definition label_for_trade :: "regime_interval list \<Rightarrow> trade_record \<Rightarrow> string" where
  "label_for_trade intervals t =
     (case find (\<lambda>i. instant (ri_start i) \<le> instant (td_entry_time t) \<and> instant (td_entry_time t) \<le> instant (ri_end i)) intervals of
        Some i \<Rightarrow> ri_label i
      | None \<Rightarrow> ''UNCLASSIFIED'')"

definition regime_profit_factor :: "trade_record list \<Rightarrow> rat option" where
  "regime_profit_factor trades =
     (let gains = dsum (map td_realized_pnl (filter (\<lambda>t. 0 < td_realized_pnl t) trades));
          lost = dneg (dsum (map td_realized_pnl (filter (\<lambda>t. td_realized_pnl t < 0) trades)))
      in if lost = 0 then (if gains = 0 then None else Some 999999) else Some (ddiv gains lost))"

definition add_to_group :: "('a \<Rightarrow> string) \<Rightarrow> 'a \<Rightarrow> (string, 'a list) dict \<Rightarrow> (string, 'a list) dict" where
  "add_to_group label x groups =
     dput (label x) ((case dget groups (label x) of None \<Rightarrow> [] | Some xs \<Rightarrow> xs) @ [x]) groups"

definition regime_performance_of :: "string \<times> trade_record list \<Rightarrow> regime_performance" where
  "regime_performance_of g =
     \<lparr>rp_label = fst g, rp_trade_count = length (snd g), rp_total_pnl = dsum (map td_realized_pnl (snd g)),
      rp_win_rate = dmul (ddiv (of_nat (length (filter (\<lambda>t. 0 < td_realized_pnl t) (snd g)))) (of_nat (length (snd g)))) 100,
      rp_profit_factor = regime_profit_factor (snd g)\<rparr>"

definition analyze_regime_performance :: "trade_record list \<Rightarrow> regime_interval list \<Rightarrow> regime_performance list" where
  "analyze_regime_performance trades intervals =
     map regime_performance_of (sort_key fst (fold (add_to_group (label_for_trade intervals)) trades []))"

definition regime_qualifies :: "int \<Rightarrow> xdec \<Rightarrow> regime_performance \<Rightarrow> bool" where
  "regime_qualifies min_trades min_factor p \<longleftrightarrow>
     min_trades \<le> int (rp_trade_count p) \<and> (case rp_profit_factor p of None \<Rightarrow> False | Some f \<Rightarrow> min_factor \<le> Fin f)"

definition qualified_regime_count :: "regime_performance list \<Rightarrow> int \<Rightarrow> xdec \<Rightarrow> nat" where
  "qualified_regime_count regimes min_trades min_factor = length (filter (regime_qualifies min_trades min_factor) regimes)"

subsection \<open>Stability of the parameters\<close>

record stability_item =
  si_name :: string
  si_spread :: rat
  si_stable :: bool

record research_stability =
  rs_feasible_ratio :: rat
  rs_items :: "stability_item list"

definition research_stable :: "research_stability \<Rightarrow> bool" where
  "research_stable r \<longleftrightarrow> rs_items r \<noteq> [] \<and> list_all si_stable (rs_items r)"

definition max_spread_of :: "research_stability \<Rightarrow> rat" where
  "max_spread_of r = (if rs_items r = [] then 0 else Max (set (map si_spread (rs_items r))))"

definition stability_item_of :: "rat \<Rightarrow> value_sensitivity \<Rightarrow> stability_item" where
  "stability_item_of limit p =
     (let reference = (if vs_points p = [] then 0 else Max (set (map (\<lambda>x. dabs (vp_mean x)) (vs_points p))));
          normalized = ddiv (vs_spread p) (max reference (1 / 10 ^ 8))
      in \<lparr>si_name = vs_name p, si_spread = normalized, si_stable = (normalized \<le> limit)\<rparr>)"

definition analyze_parameter_stability :: "experiment_result \<Rightarrow> rat \<Rightarrow> research_stability res" where
  "analyze_parameter_stability r limit =
     guard (limit < 0) (ValueError ''max_normalized_spread must be non-negative'')
     (Inr \<lparr>rs_feasible_ratio = (if xr_trials r = [] then 0
             else ddiv (of_nat (length (filter tr_feasible (xr_trials r)))) (of_nat (length (xr_trials r)))),
           rs_items = map (stability_item_of limit) (analyze_parameter_sensitivity r)\<rparr>)"

subsection \<open>Forward observations\<close>

datatype forward_mode = FORWARD_PAPER | FORWARD_SHADOW

record forward_observation =
  fo_signal_id :: string
  fo_timestamp :: datetime
  fo_symbol :: string
  fo_direction :: string
  fo_mode :: forward_mode
  fo_risk_approved :: bool
  fo_outcome :: "rat option"

definition observation_make :: "forward_observation \<Rightarrow> forward_observation res" where
  "observation_make x =
     guard (strip (fo_signal_id x) = [] \<or> strip (fo_symbol x) = []) (ValueError ''signal_id and symbol are required'')
     (guard (fo_direction x \<notin> {''LONG'', ''SHORT''}) (ValueError ''direction must be LONG or SHORT'')
     (guard (\<not> is_aware (fo_timestamp x)) (ValueError ''timestamp must be timezone-aware'') (Inr x)))"

record forward_report =
  fr_total :: nat
  fr_resolved :: nat
  fr_risk_approved :: nat
  fr_hit_rate :: rat
  fr_mean_return :: rat
  fr_max_losses :: nat
  fr_paper :: nat
  fr_shadow :: nat

definition forward_record ::
  "forward_observation \<Rightarrow> (string, forward_observation) dict \<Rightarrow> ((string, forward_observation) dict, unit) sres" where
  "forward_record x d =
     (case dget d (fo_signal_id x) of
        Some old \<Rightarrow> if old \<noteq> x then (d, Inl (ValueError (''conflicting forward observation: '' @ fo_signal_id x)))
                    else (dput (fo_signal_id x) x d, Inr ())
      | None \<Rightarrow> (dput (fo_signal_id x) x d, Inr ()))"

definition forward_report_of :: "(string, forward_observation) dict \<Rightarrow> forward_report" where
  "forward_report_of d =
     (let rows = sort_key (\<lambda>x. instant (fo_timestamp x)) (map snd d);
          resolved = filter (\<lambda>x. fo_risk_approved x \<and> fo_outcome x \<noteq> None) rows;
          outcomes = map (\<lambda>x. the (fo_outcome x)) resolved
      in \<lparr>fr_total = length rows, fr_resolved = length resolved, fr_risk_approved = length (filter fo_risk_approved rows),
          fr_hit_rate = (if resolved = [] then 0
            else dmul (ddiv (of_nat (length (filter (\<lambda>x. 0 < x) outcomes))) (of_nat (length resolved))) 100),
          fr_mean_return = (if resolved = [] then 0 else ddiv (dsum outcomes) (of_nat (length resolved))),
          fr_max_losses = streak_loop outcomes 0 0,
          fr_paper = length (filter (\<lambda>x. fo_mode x = FORWARD_PAPER) rows),
          fr_shadow = length (filter (\<lambda>x. fo_mode x = FORWARD_SHADOW) rows)\<rparr>)"

subsection \<open>The gate\<close>

record validation_evidence =
  ev_holdout :: "bt_result option"
  ev_walk_forward :: "bt_result list option"
  ev_monte_carlo :: "monte_carlo_result option"
  ev_cost_stress :: "cost_stress_report option"
  ev_stability :: "research_stability option"
  ev_regime :: "regime_performance list option"
  ev_forward :: "forward_report option"

definition check_of :: "string \<Rightarrow> bool \<Rightarrow> string \<Rightarrow> validation_check" where
  "check_of name passed details = \<lparr>vc_name = name, vc_passed = passed, vc_details = details, vc_critical = True\<rparr>"

fun factor_text :: "(rat \<Rightarrow> string) \<Rightarrow> profit_factor \<Rightarrow> string" where
  "factor_text txt No_Trades_Factor = ''None''"
| "factor_text txt Infinite_Factor = ''Infinity''"
| "factor_text txt (Profit_Factor f) = txt f"

fun xfactor :: "profit_factor \<Rightarrow> xdec option" where
  "xfactor No_Trades_Factor = None"
| "xfactor Infinite_Factor = Some PInf"
| "xfactor (Profit_Factor f) = Some (Fin f)"

definition check_holdout :: "(rat \<Rightarrow> string) \<Rightarrow> validation_policy \<Rightarrow> bt_result option \<Rightarrow> validation_check" where
  "check_holdout txt p result =
     (case result of
        None \<Rightarrow> check_of ''holdout_oos'' False ''holdout evidence is missing''
      | Some r \<Rightarrow> check_of ''holdout_oos''
          (po_min_oos_trades p \<le> int (length (br_trades r)) \<and> po_min_oos_return p \<le> br_total_return_percent r \<and>
           br_max_drawdown_percent r \<le> po_max_oos_drawdown p \<and> (case xfactor (br_profit_factor r) of None \<Rightarrow> False | Some f \<Rightarrow> po_min_oos_profit_factor p \<le> f))
          (''trades='' @ nat_digits (length (br_trades r)) @ '' return='' @ txt (br_total_return_percent r) @ ''% drawdown='' @
           txt (br_max_drawdown_percent r) @ ''% profit_factor='' @ factor_text txt (br_profit_factor r)))"

definition profitable_ratio :: "bt_result list \<Rightarrow> rat" where
  "profitable_ratio rs =
     ddiv (of_nat (length (filter (\<lambda>r. 0 < br_total_return_percent r) rs))) (of_nat (length rs))"

definition check_walk_forward :: "(rat \<Rightarrow> string) \<Rightarrow> validation_policy \<Rightarrow> bt_result list option \<Rightarrow> validation_check" where
  "check_walk_forward txt p result =
     (case result of
        None \<Rightarrow> check_of ''walk_forward'' False ''walk-forward evidence is missing''
      | Some rs \<Rightarrow>
          let ratio = (if rs = [] then 0 else profitable_ratio rs) in
          check_of ''walk_forward'' (po_min_windows p \<le> int (length rs) \<and> po_min_profitable_ratio p \<le> ratio)
            (''windows='' @ nat_digits (length rs) @ '' profitable_ratio='' @ txt ratio))"

definition check_monte_carlo :: "(rat \<Rightarrow> string) \<Rightarrow> validation_policy \<Rightarrow> monte_carlo_result option \<Rightarrow> validation_check" where
  "check_monte_carlo txt p result =
     (case result of
        None \<Rightarrow> check_of ''monte_carlo'' False ''Monte Carlo evidence is missing''
      | Some m \<Rightarrow> check_of ''monte_carlo''
          (0 < mc_simulations m \<and> po_min_mc_median p \<le> mc_median_return m \<and> mc_worst_drawdown m \<le> po_max_mc_drawdown p)
          (''simulations='' @ txt (of_int (mc_simulations m)) @ '' median_return='' @ txt (mc_median_return m) @
           ''% worst_drawdown='' @ txt (mc_worst_drawdown m) @ ''%''))"

definition check_cost_stress :: "(rat \<Rightarrow> string) \<Rightarrow> validation_policy \<Rightarrow> cost_stress_report option \<Rightarrow> validation_check" where
  "check_cost_stress txt p report =
     (case report of
        None \<Rightarrow> check_of ''cost_stress'' False ''cost-stress evidence is missing''
      | Some r \<Rightarrow> check_of ''cost_stress'' (sr_outcomes r \<noteq> [] \<and> worst_degradation r \<le> po_max_cost_degradation p)
          (''worst_return_degradation='' @ txt (worst_degradation r) @ ''% scenarios='' @ nat_digits (length (sr_outcomes r))))"

definition check_parameter_stability ::
  "(rat \<Rightarrow> string) \<Rightarrow> validation_policy \<Rightarrow> research_stability option \<Rightarrow> validation_check" where
  "check_parameter_stability txt p report =
     (case report of
        None \<Rightarrow> check_of ''parameter_stability'' False ''parameter-stability evidence is missing''
      | Some r \<Rightarrow> check_of ''parameter_stability''
          (research_stable r \<and> max_spread_of r \<le> po_max_spread p \<and> po_min_feasible_ratio p \<le> rs_feasible_ratio r)
          (''feasible_trial_ratio='' @ txt (rs_feasible_ratio r) @ '' max_normalized_spread='' @ txt (max_spread_of r)))"

definition check_regimes :: "validation_policy \<Rightarrow> regime_performance list option \<Rightarrow> validation_check" where
  "check_regimes p report =
     (case report of
        None \<Rightarrow> check_of ''regime_coverage'' False ''regime evidence is missing''
      | Some rs \<Rightarrow>
          let qualified = qualified_regime_count rs (po_min_regime_trades p) (po_min_oos_profit_factor p) in
          check_of ''regime_coverage'' (po_min_regimes p \<le> int qualified)
            (''qualified_regimes='' @ nat_digits qualified @ '' total_regimes='' @ nat_digits (length rs)))"

definition check_forward :: "(rat \<Rightarrow> string) \<Rightarrow> validation_policy \<Rightarrow> forward_report option \<Rightarrow> validation_check" where
  "check_forward txt p report =
     (case report of
        None \<Rightarrow> check_of ''forward_validation'' False ''forward evidence is missing''
      | Some r \<Rightarrow> check_of ''forward_validation''
          (po_min_forward p \<le> int (fr_resolved r) \<and> po_min_hit_rate p \<le> fr_hit_rate r \<and> po_min_forward_mean p \<le> fr_mean_return r)
          (''resolved='' @ nat_digits (fr_resolved r) @ '' hit_rate='' @ txt (fr_hit_rate r) @ ''% mean_return='' @
           txt (fr_mean_return r) @ ''%''))"

definition qualification_evaluate :: "(rat \<Rightarrow> string) \<Rightarrow> validation_policy \<Rightarrow> validation_evidence \<Rightarrow> validation_check list" where
  "qualification_evaluate txt p e =
     [check_holdout txt p (ev_holdout e), check_walk_forward txt p (ev_walk_forward e), check_monte_carlo txt p (ev_monte_carlo e),
      check_cost_stress txt p (ev_cost_stress e), check_parameter_stability txt p (ev_stability e),
      check_regimes p (ev_regime e), check_forward txt p (ev_forward e)]"

subsection \<open>Calibration\<close>

datatype threshold_direction = HIGHER_IS_BETTER | LOWER_IS_BETTER

datatype calibration_status = CALIBRATED | CALIBRATION_HOLD

record calibration_observation =
  ca_sample_id :: string
  ca_as_of :: datetime
  ca_oos_return :: "rat option"
  ca_oos_profit_factor :: "xdec option"
  ca_oos_drawdown :: "rat option"
  ca_profitable_ratio :: "rat option"
  ca_mc_median :: "rat option"
  ca_mc_drawdown :: "rat option"
  ca_cost_degradation :: "rat option"
  ca_spread :: "rat option"
  ca_feasible_ratio :: "rat option"
  ca_hit_rate :: "rat option"
  ca_forward_mean :: "rat option"

definition outside :: "rat \<Rightarrow> rat \<Rightarrow> rat option \<Rightarrow> bool" where
  "outside lo hi x = (case x of None \<Rightarrow> False | Some v \<Rightarrow> \<not> (lo \<le> v \<and> v \<le> hi))"

definition calibration_observation_make :: "calibration_observation \<Rightarrow> calibration_observation res" where
  "calibration_observation_make x =
     guard (strip (ca_sample_id x) = []) (ValueError ''calibration sample_id cannot be blank'')
     (guard (\<not> is_aware (ca_as_of x)) (ValueError ''calibration as_of must be timezone-aware'')
     (guard ((case ca_oos_profit_factor x of None \<Rightarrow> False | Some v \<Rightarrow> v < Fin 0) \<or>
         (\<exists>v \<in> set (found_values [ca_oos_drawdown x, ca_mc_drawdown x, ca_cost_degradation x, ca_spread x]). v < 0)) (ValueError ''calibration loss/risk metrics must be non-negative'')
     (guard (outside 0 1 (ca_profitable_ratio x) \<or> outside 0 1 (ca_feasible_ratio x))
       (ValueError ''calibration ratios must be in [0, 1]'')
     (guard (outside 0 100 (ca_hit_rate x)) (ValueError ''forward_hit_rate_percent must be in [0, 100]'') (Inr x)))))"

definition observation_from_evidence :: "string \<Rightarrow> datetime \<Rightarrow> validation_evidence \<Rightarrow> calibration_observation res" where
  "observation_from_evidence sample_id as_of e =
     (let resolved = (case ev_forward e of Some f \<Rightarrow> if 0 < fr_resolved f then Some f else None | None \<Rightarrow> None);
          stable = (case ev_stability e of Some s \<Rightarrow> if rs_items s \<noteq> [] then Some s else None | None \<Rightarrow> None);
          simulated = (case ev_monte_carlo e of Some m \<Rightarrow> if 0 < mc_simulations m then Some m else None | None \<Rightarrow> None);
          stressed = (case ev_cost_stress e of Some r \<Rightarrow> if sr_outcomes r \<noteq> [] then Some r else None | None \<Rightarrow> None);
          windows = (case ev_walk_forward e of Some rs \<Rightarrow> if rs \<noteq> [] then Some rs else None | None \<Rightarrow> None)
      in calibration_observation_make
          \<lparr>ca_sample_id = sample_id, ca_as_of = as_of, ca_oos_return = map_option br_total_return_percent (ev_holdout e),
           ca_oos_profit_factor = (case ev_holdout e of None \<Rightarrow> None | Some r \<Rightarrow> xfactor (br_profit_factor r)),
           ca_oos_drawdown = map_option br_max_drawdown_percent (ev_holdout e),
           ca_profitable_ratio = map_option profitable_ratio windows,
           ca_mc_median = map_option mc_median_return simulated, ca_mc_drawdown = map_option mc_worst_drawdown simulated,
           ca_cost_degradation = map_option worst_degradation stressed, ca_spread = map_option max_spread_of stable,
           ca_feasible_ratio = map_option rs_feasible_ratio stable, ca_hit_rate = map_option fr_hit_rate resolved,
           ca_forward_mean = map_option fr_mean_return resolved\<rparr>)"

record calibration_config =
  cc_min_samples :: int
  cc_min_metric_samples :: int
  cc_lower :: rat
  cc_upper :: rat

definition calibration_config_make :: "calibration_config \<Rightarrow> calibration_config res" where
  "calibration_config_make c =
     guard (cc_min_samples c < 1 \<or> cc_min_metric_samples c < 1) (ValueError ''calibration sample minimums must be positive'')
     (guard (\<not> (0 \<le> cc_lower c \<and> cc_lower c \<le> 50 / 100)) (ValueError ''lower_quantile must be in [0, 0.50]'')
     (guard (\<not> (50 / 100 \<le> cc_upper c \<and> cc_upper c \<le> 1)) (ValueError ''upper_quantile must be in [0.50, 1]'')
     (guard (cc_upper c \<le> cc_lower c) (ValueError ''lower_quantile must be less than upper_quantile'') (Inr c))))"

record calibrated_threshold =
  ct_name :: string
  ct_direction :: threshold_direction
  ct_baseline :: xdec
  ct_empirical :: xdec
  ct_applied :: xdec
  ct_sample_count :: nat

definition tightened :: "calibrated_threshold \<Rightarrow> bool" where
  "tightened t = (case ct_direction t of HIGHER_IS_BETTER \<Rightarrow> ct_baseline t < ct_applied t
     | LOWER_IS_BETTER \<Rightarrow> ct_applied t < ct_baseline t)"

record calibration_report =
  cl_status :: calibration_status
  cl_source_count :: nat
  cl_eligible_count :: nat
  cl_fingerprint :: string
  cl_thresholds :: "calibrated_threshold list"
  cl_reasons :: "string list"
  cl_policy :: "validation_policy option"

definition require_policy :: "calibration_report \<Rightarrow> validation_policy res" where
  "require_policy r =
     (case (cl_policy r, cl_status r) of
        (Some p, CALIBRATED) \<Rightarrow> Inr p
      | _ \<Rightarrow> Inl (ValueError ''calibration report does not contain an approved policy''))"

definition quantile :: "xdec list \<Rightarrow> rat \<Rightarrow> xdec res" where
  "quantile vs q =
     guard (vs = []) (ValueError ''quantile requires at least one value'')
     (let rows = sort vs; n = length rows in
      if n = 1 then Inr (rows ! 0)
      else
        let position = dmul (of_nat (n - 1)) q; lower_index = nat \<lfloor>dtrunc position\<rfloor>;
            upper_index = min (lower_index + 1) (n - 1); fraction = dsub position (of_nat lower_index) in
        guard (n \<le> lower_index) (OtherError ''list index out of range'')
          (res_bind (xsub (rows ! upper_index) (rows ! lower_index)) (\<lambda>width.
           res_bind (xscale width fraction) (\<lambda>part. xadd (rows ! lower_index) part))))"

record metric_input =
  mi_name :: string
  mi_direction :: threshold_direction
  mi_baseline :: xdec
  mi_values :: "xdec list"
  mi_quantile :: rat

definition calibrate_metric :: "calibration_config \<Rightarrow> metric_input \<Rightarrow> calibrated_threshold option res" where
  "calibrate_metric cfg m =
     (if int (length (mi_values m)) < cc_min_metric_samples cfg then Inr None
      else res_bind (quantile (mi_values m) (mi_quantile m)) (\<lambda>empirical.
        Inr (Some \<lparr>ct_name = mi_name m, ct_direction = mi_direction m, ct_baseline = mi_baseline m, ct_empirical = empirical,
          ct_applied = (case mi_direction m of HIGHER_IS_BETTER \<Rightarrow> max (mi_baseline m) empirical
             | LOWER_IS_BETTER \<Rightarrow> min (mi_baseline m) empirical),
          ct_sample_count = length (mi_values m)\<rparr>)))"

definition metric_inputs :: "validation_policy \<Rightarrow> calibration_config \<Rightarrow> calibration_observation list \<Rightarrow> metric_input list" where
  "metric_inputs b c xs =
     (let higher = (\<lambda>name base f. \<lparr>mi_name = name, mi_direction = HIGHER_IS_BETTER, mi_baseline = Fin base,
            mi_values = map Fin (found_values (map f xs)), mi_quantile = cc_lower c\<rparr>);
          lower = (\<lambda>name base f. \<lparr>mi_name = name, mi_direction = LOWER_IS_BETTER, mi_baseline = Fin base,
            mi_values = map Fin (found_values (map f xs)), mi_quantile = cc_upper c\<rparr>)
      in [higher ''min_oos_return_percent'' (po_min_oos_return b) ca_oos_return,
          \<lparr>mi_name = ''min_oos_profit_factor'', mi_direction = HIGHER_IS_BETTER, mi_baseline = po_min_oos_profit_factor b,
            mi_values = found_values (map ca_oos_profit_factor xs), mi_quantile = cc_lower c\<rparr>,
          lower ''max_oos_drawdown_percent'' (po_max_oos_drawdown b) ca_oos_drawdown,
          higher ''min_profitable_walk_forward_ratio'' (po_min_profitable_ratio b) ca_profitable_ratio,
          higher ''min_monte_carlo_median_return_percent'' (po_min_mc_median b) ca_mc_median,
          lower ''max_monte_carlo_worst_drawdown_percent'' (po_max_mc_drawdown b) ca_mc_drawdown,
          lower ''max_cost_stress_degradation_percent'' (po_max_cost_degradation b) ca_cost_degradation,
          lower ''max_parameter_normalized_spread'' (po_max_spread b) ca_spread,
          higher ''min_feasible_trial_ratio'' (po_min_feasible_ratio b) ca_feasible_ratio,
          higher ''min_forward_hit_rate_percent'' (po_min_hit_rate b) ca_hit_rate,
          higher ''min_forward_mean_return_percent'' (po_min_forward_mean b) ca_forward_mean])"

definition metric_reason :: "(rat \<Rightarrow> string) \<Rightarrow> calibration_config \<Rightarrow> metric_input \<times> calibrated_threshold option \<Rightarrow> string list" where
  "metric_reason txt c x =
     (case snd x of
        Some t \<Rightarrow> []
      | None \<Rightarrow> [''insufficient_metric_samples:'' @ mi_name (fst x) @ '':'' @ nat_digits (length (mi_values (fst x))) @ ''<'' @
          txt (of_int (cc_min_metric_samples c))])"

fun xtext :: "(rat \<Rightarrow> string) \<Rightarrow> xdec \<Rightarrow> string" where
  "xtext txt NInf = ''-Infinity''"
| "xtext txt (Fin v) = txt v"
| "xtext txt PInf = ''Infinity''"

definition observation_json :: "(rat \<Rightarrow> string) \<Rightarrow> (datetime \<Rightarrow> string) \<Rightarrow> calibration_observation \<Rightarrow> json" where
  "observation_json txt stamp x =
     JObj [(''sample_id'', JStr (ca_sample_id x)), (''as_of'', JStr (stamp (ca_as_of x))),
       (''oos_return_percent'', optional_text txt (ca_oos_return x)),
       (''oos_profit_factor'', optional_string (map_option (xtext txt) (ca_oos_profit_factor x))),
       (''oos_drawdown_percent'', optional_text txt (ca_oos_drawdown x)),
       (''profitable_walk_forward_ratio'', optional_text txt (ca_profitable_ratio x)),
       (''monte_carlo_median_return_percent'', optional_text txt (ca_mc_median x)),
       (''monte_carlo_worst_drawdown_percent'', optional_text txt (ca_mc_drawdown x)),
       (''cost_stress_degradation_percent'', optional_text txt (ca_cost_degradation x)),
       (''parameter_normalized_spread'', optional_text txt (ca_spread x)),
       (''feasible_trial_ratio'', optional_text txt (ca_feasible_ratio x)),
       (''forward_hit_rate_percent'', optional_text txt (ca_hit_rate x)),
       (''forward_mean_return_percent'', optional_text txt (ca_forward_mean x))]"

definition dataset_fingerprint ::
  "(json \<Rightarrow> string) \<Rightarrow> (rat \<Rightarrow> string) \<Rightarrow> (datetime \<Rightarrow> string) \<Rightarrow> calibration_observation list \<Rightarrow> string" where
  "dataset_fingerprint sha txt stamp xs =
     sha (JList (map (observation_json txt stamp) (sort_key (\<lambda>x. (ca_sample_id x, instant (ca_as_of x))) xs)))"

fun unique_ids :: "calibration_observation list \<Rightarrow> string list \<Rightarrow> unit res" where
  "unique_ids [] seen = Inr ()"
| "unique_ids (x # xs) seen =
     guard (ca_sample_id x \<in> set seen) (ValueError (''duplicate calibration sample_id: '' @ ca_sample_id x))
       (unique_ids xs (ca_sample_id x # seen))"

definition applied_value :: "calibrated_threshold list \<Rightarrow> string \<Rightarrow> xdec res" where
  "applied_value ts name =
     (case dget (rev (map (\<lambda>t. (ct_name t, ct_applied t)) ts)) name of None \<Rightarrow> Inl (KeyError name) | Some v \<Rightarrow> Inr v)"

text \<open>
  Only the profit factor can be infinite: the other metrics of an observation are finite numbers in the model, so their
  thresholds are.
\<close>

definition finite_value :: "calibrated_threshold list \<Rightarrow> string \<Rightarrow> rat res" where
  "finite_value ts name =
     res_bind (applied_value ts name) (\<lambda>v. case v of Fin x \<Rightarrow> Inr x | _ \<Rightarrow> invalid_operation)"

definition applied_policy :: "validation_policy \<Rightarrow> calibrated_threshold list \<Rightarrow> validation_policy res" where
  "applied_policy b ts =
     (let get = finite_value ts in
      res_bind (get ''min_oos_return_percent'') (\<lambda>v1. res_bind (applied_value ts ''min_oos_profit_factor'') (\<lambda>v2.
      res_bind (get ''max_oos_drawdown_percent'') (\<lambda>v3. res_bind (get ''min_profitable_walk_forward_ratio'') (\<lambda>v4.
      res_bind (get ''min_monte_carlo_median_return_percent'') (\<lambda>v5. res_bind (get ''max_monte_carlo_worst_drawdown_percent'') (\<lambda>v6.
      res_bind (get ''max_cost_stress_degradation_percent'') (\<lambda>v7. res_bind (get ''max_parameter_normalized_spread'') (\<lambda>v8.
      res_bind (get ''min_feasible_trial_ratio'') (\<lambda>v9. res_bind (get ''min_forward_hit_rate_percent'') (\<lambda>v10.
      res_bind (get ''min_forward_mean_return_percent'') (\<lambda>v11.
        policy_make (b\<lparr>po_min_oos_return := v1, po_min_oos_profit_factor := v2, po_max_oos_drawdown := v3,
          po_min_profitable_ratio := v4, po_min_mc_median := v5, po_max_mc_drawdown := v6, po_max_cost_degradation := v7,
          po_max_spread := v8, po_min_feasible_ratio := v9, po_min_hit_rate := v10, po_min_forward_mean := v11\<rparr>)))))))))))))"

record calibrator_env =
  ce_sha :: "json \<Rightarrow> string"
  ce_txt :: "rat \<Rightarrow> string"
  ce_stamp :: "datetime \<Rightarrow> string"

definition eligible :: "datetime option \<Rightarrow> calibration_observation list \<Rightarrow> calibration_observation list" where
  "eligible cutoff xs = filter (\<lambda>x. case cutoff of None \<Rightarrow> True | Some t \<Rightarrow> instant (ca_as_of x) < instant t) xs"

definition calibrate ::
  "calibrator_env \<Rightarrow> validation_policy \<Rightarrow> calibration_config \<Rightarrow> calibration_observation list \<Rightarrow> datetime option
    \<Rightarrow> calibration_report res" where
  "calibrate V b c source cutoff =
     res_bind (unique_ids source []) (\<lambda>u.
     guard (case cutoff of None \<Rightarrow> False | Some t \<Rightarrow> \<not> is_aware t) (ValueError ''calibration cutoff must be timezone-aware'')
     (let xs = eligible cutoff source; ms = metric_inputs b c xs;
          cohort = (if int (length xs) < cc_min_samples c
            then [''insufficient_calibration_cohort:'' @ nat_digits (length xs) @ ''<'' @ ce_txt V (of_int (cc_min_samples c))] else [])
      in res_bind (res_map (calibrate_metric c) ms) (\<lambda>ts.
        let reasons = cohort @ concat (map (metric_reason (ce_txt V) c) (zip ms ts)); thresholds = found_values ts;
            report = \<lparr>cl_status = CALIBRATION_HOLD, cl_source_count = length source, cl_eligible_count = length xs,
              cl_fingerprint = dataset_fingerprint (ce_sha V) (ce_txt V) (ce_stamp V) xs, cl_thresholds = thresholds,
              cl_reasons = reasons, cl_policy = None\<rparr> in
        if reasons \<noteq> [] then Inr report
        else res_bind (applied_policy b thresholds) (\<lambda>p. Inr (report\<lparr>cl_status := CALIBRATED, cl_policy := Some p\<rparr>)))))"

definition engine_from_calibration :: "calibration_report \<Rightarrow> validation_policy res" where
  "engine_from_calibration r = require_policy r"

subsection \<open>Interpolation between observations\<close>

lemma rnd_tie_down: "rnd (p10 k * (1 + 5 / 10 ^ 28)) = p10 k"
proof -
  let ?x = "p10 k * (1 + 5 / 10 ^ 28)"
  have d: "decade ?x = k"
  proof (rule decade_unique)
    have "p10 (k + 1) = p10 k * 10" by (simp add: p10_add p10_def [of 1])
    moreover have "p10 k * (1 + 5 / 10 ^ 28) < p10 k * 10" by (rule mult_strict_left_mono) simp_all
    ultimately show "?x < p10 (k + 1)" by simp
    show "p10 k \<le> ?x" using mult_left_mono [of 1 "1 + 5 / 10 ^ 28" "p10 k"] by simp
  qed simp
  have e: "p10 k = p10 (k - 27) * 10 ^ 27" using p10_add [of "k - 27" 27] by (simp add: p10_def [of 27])
  have q: "?x / p10 (k - 27) = 10 ^ 27 + 1 / 2" unfolding e by (simp add: field_simps)
  have "\<lfloor>(10 ^ 27 + 1 / 2 :: rat)\<rfloor> = 10 ^ 27" by (rule floor_unique) simp_all
  then have h: "half_even (10 ^ 27 + 1 / 2) = 10 ^ 27" unfolding half_even_def by (simp add: Let_def)
  have "0 < ?x" by (simp add: mult_pos_pos add_pos_pos)
  then show ?thesis unfolding rnd_def rnd_prec_def using d h q e by (simp add: Let_def)
qed

lemma interpolation_upper:
  assumes "0 \<le> l" "l \<le> u" "u \<le> p10 k" "0 \<le> f" "f \<le> 1"
  shows "dadd l (dmul (dsub u l) f) \<le> p10 k"
proof -
  have w0: "0 \<le> dsub u l" using assms(2) by simp
  have "dmul (dsub u l) f \<le> dsub u l"
    unfolding dmul_def
  proof (rule dec.le_fixed)
    show "dsub u l * f \<le> dsub u l" using w0 assms(5) mult_left_le [of f "dsub u l"] by simp
    show "rnd (dsub u l) = dsub u l" by (simp add: dsub_def dec.idem)
  qed
  moreover have "dsub u l \<le> (u - l) * (1 + 5 / 10 ^ 28)"
  proof -
    have "rnd (u - l) - (u - l) \<le> \<bar>u - l\<bar> * (5 / 10 ^ 28)"
      by (rule order_trans [OF abs_ge_self rnd_rel_error])
    moreover have "\<bar>u - l\<bar> = u - l" using assms(2) by simp
    ultimately show ?thesis unfolding dsub_def by (simp add: ring_distribs)
  qed
  moreover have "(u - l) * (5 / 10 ^ 28) \<le> p10 k * (5 / 10 ^ 28)"
    using assms(1,3) by (intro mult_right_mono) simp_all
  ultimately have "l + dmul (dsub u l) f \<le> p10 k * (1 + 5 / 10 ^ 28)"
    using assms(3) by (simp add: algebra_simps)
  then have "rnd (l + dmul (dsub u l) f) \<le> rnd (p10 k * (1 + 5 / 10 ^ 28))" by (rule dec.mono)
  then show ?thesis by (simp only: dadd_def rnd_tie_down)
qed


lemma interpolation_lower:
  assumes "0 \<le> l" "l \<le> u" "0 \<le> f"
  shows "0 \<le> dadd l (dmul (dsub u l) f)"
  using assms by (simp add: dadd_def dec.nonneg_iff)

lemma Fin_le [simp]: "Fin a \<le> Fin b \<longleftrightarrow> a \<le> b"
  by (simp add: less_eq_xdec_def less_eq_prod_def)

lemma Fin_less [simp]: "Fin a < Fin b \<longleftrightarrow> a < b"
  by (simp add: less_xdec_def less_prod_def)

lemma PInf_top [simp]: "a \<le> PInf"
  by (cases a) (simp_all add: less_eq_xdec_def less_eq_prod_def)

lemma PInf_le [simp]: "PInf \<le> a \<longleftrightarrow> a = PInf"
  by (cases a) (simp_all add: less_eq_xdec_def less_eq_prod_def)

lemma max_Fin [simp]: "max (Fin a) (Fin b) = Fin (max a b)" "min (Fin a) (Fin b) = Fin (min a b)"
  by (simp_all add: max_def min_def)

lemma sort_Fin: "sort (map Fin xs) = map Fin (sort xs)"
proof (rule properties_for_sort)
  have "sorted_wrt (\<lambda>x y. Fin x \<le> Fin y) (sort xs)" using sorted_sort [of xs] by simp
  then show "sorted (map Fin (sort xs))" by (simp only: sorted_map)
qed simp

text \<open>The indices of the interpolation stay in the list.\<close>

lemma quantile_position:
  assumes "2 \<le> n" "n < 10 ^ 28" "0 \<le> q" "q \<le> 1"
  defines "position \<equiv> dmul (of_nat (n - 1)) q"
  shows "nat \<lfloor>dtrunc position\<rfloor> < n" "0 \<le> dsub position (of_nat (nat \<lfloor>dtrunc position\<rfloor>))"
    "dsub position (of_nat (nat \<lfloor>dtrunc position\<rfloor>)) \<le> 1"
proof -
  have p0: "0 \<le> position" using assms(3) by (simp add: position_def)
  have fixed: "rnd (of_nat (n - 1)) = of_nat (n - 1)"
    using rnd_of_int [of "int (n - 1)"] assms(2) by simp
  have "of_nat (n - 1) * q \<le> of_nat (n - 1)" using assms(3,4) by (simp add: mult_left_le)
  then have p1: "position \<le> of_nat (n - 1)" unfolding position_def dmul_def by (rule dec.le_fixed) (rule fixed)
  have t: "dtrunc position = of_int \<lfloor>position\<rfloor>" using p0 by (simp add: dtrunc_def)
  have f0: "0 \<le> \<lfloor>position\<rfloor>" using p0 by simp
  have i: "(of_nat (nat \<lfloor>dtrunc position\<rfloor>) :: rat) = of_int \<lfloor>position\<rfloor>" unfolding t using f0 by simp
  have "\<lfloor>position\<rfloor> \<le> int (n - 1)" using p1 floor_mono [of position "of_nat (n - 1)"] by simp
  then show "nat \<lfloor>dtrunc position\<rfloor> < n" unfolding t using assms(1) by simp
  show "0 \<le> dsub position (of_nat (nat \<lfloor>dtrunc position\<rfloor>))" unfolding i by simp
  have "position - of_int \<lfloor>position\<rfloor> \<le> 1" using floor_correct [of position] by linarith
  then show "dsub position (of_nat (nat \<lfloor>dtrunc position\<rfloor>)) \<le> 1"
    unfolding i dsub_def by (rule dec.le_fixed) simp
qed

lemma quantile_finite:
  assumes "xs \<noteq> []" "length xs < 10 ^ 28" "0 \<le> q" "q \<le> 1"
  shows "\<exists>e. quantile (map Fin xs) q = Inr (Fin e) \<and> (0 \<le> Min (set xs) \<longrightarrow> 0 \<le> e) \<and>
    (\<forall>k. 0 \<le> Min (set xs) \<longrightarrow> Max (set xs) \<le> p10 k \<longrightarrow> e \<le> p10 k)"
proof (cases "length xs = 1")
  case True
  then obtain x where "xs = [x]" by (auto simp: length_Suc_conv)
  then show ?thesis by (simp add: quantile_def)
next
  case False
  then have n: "2 \<le> length xs" using assms(1) by (cases xs) (auto simp: Suc_le_eq)
  let ?n = "length xs" and ?rows = "sort xs"
  let ?p = "dmul (of_nat (?n - 1)) q"
  let ?i = "nat \<lfloor>dtrunc ?p\<rfloor>"
  let ?u = "min (?i + 1) (?n - 1)" and ?f = "dsub ?p (of_nat ?i)"
  note pos = quantile_position [OF n assms(2,3,4)]
  let ?e = "dadd (?rows ! ?i) (dmul (dsub (?rows ! ?u) (?rows ! ?i)) ?f)"
  have u: "?u < ?n" "?i \<le> ?u" using pos(1) n by auto
  have mono: "?rows ! ?i \<le> ?rows ! ?u" using u by (intro sorted_nth_mono) simp_all
  have in_set: "?rows ! ?i \<in> set xs" "?rows ! ?u \<in> set xs"
    using nth_mem [of ?i ?rows] nth_mem [of ?u ?rows] pos(1) u(1) by simp_all
  have "quantile (map Fin xs) q = Inr (Fin ?e)"
    using False assms(1) pos(1) u(1) unfolding quantile_def sort_Fin
    by (simp add: Let_def xsub_def dadd_def dsub_def dmul_def)
  moreover have "0 \<le> Min (set xs) \<Longrightarrow> 0 \<le> ?rows ! ?i" using in_set(1) by (meson List.finite_set Min_le order_trans)
  moreover have "Max (set xs) \<le> p10 k \<Longrightarrow> ?rows ! ?u \<le> p10 k" for k
    using in_set(2) by (meson List.finite_set Max_ge order_trans)
  ultimately show ?thesis using interpolation_lower [OF _ mono pos(2)] interpolation_upper [OF _ mono _ pos(2,3)] by blast
qed

subsection \<open>A stricter policy qualifies less\<close>

definition at_least_as_strict :: "validation_policy \<Rightarrow> validation_policy \<Rightarrow> bool" where
  "at_least_as_strict p b \<longleftrightarrow>
     po_min_oos_trades b \<le> po_min_oos_trades p \<and> po_min_oos_return b \<le> po_min_oos_return p \<and>
     po_min_oos_profit_factor b \<le> po_min_oos_profit_factor p \<and> po_max_oos_drawdown p \<le> po_max_oos_drawdown b \<and>
     po_min_windows b \<le> po_min_windows p \<and> po_min_profitable_ratio b \<le> po_min_profitable_ratio p \<and>
     po_min_mc_median b \<le> po_min_mc_median p \<and> po_max_mc_drawdown p \<le> po_max_mc_drawdown b \<and>
     po_max_cost_degradation p \<le> po_max_cost_degradation b \<and> po_max_spread p \<le> po_max_spread b \<and>
     po_min_feasible_ratio b \<le> po_min_feasible_ratio p \<and> po_min_regime_trades b \<le> po_min_regime_trades p \<and>
     po_min_regimes b \<le> po_min_regimes p \<and> po_min_forward b \<le> po_min_forward p \<and>
     po_min_hit_rate b \<le> po_min_hit_rate p \<and> po_min_forward_mean b \<le> po_min_forward_mean p"

lemma check_of_passed [simp]: "vc_passed (check_of n b d) = b" "vc_critical (check_of n b d)"
  by (simp_all add: check_of_def)

lemma qualified_regimes_mono:
  assumes "m \<le> m'" "f \<le> f'"
  shows "qualified_regime_count rs m' f' \<le> qualified_regime_count rs m f"
proof -
  have "regime_qualifies m' f' r \<Longrightarrow> regime_qualifies m f r" for r
    using assms by (auto simp: regime_qualifies_def split: option.splits intro: order_trans)
  then show ?thesis unfolding qualified_regime_count_def by (induction rs) auto
qed

lemma check_holdout_mono:
  "at_least_as_strict p b \<Longrightarrow> vc_passed (check_holdout txt p r) \<Longrightarrow> vc_passed (check_holdout txt b r)"
  by (cases r) (auto simp: check_holdout_def at_least_as_strict_def split: option.splits intro: order_trans)

lemma check_walk_forward_mono:
  "at_least_as_strict p b \<Longrightarrow> vc_passed (check_walk_forward txt p r) \<Longrightarrow> vc_passed (check_walk_forward txt b r)"
  by (cases r) (auto simp: check_walk_forward_def at_least_as_strict_def Let_def)

lemma check_monte_carlo_mono:
  "at_least_as_strict p b \<Longrightarrow> vc_passed (check_monte_carlo txt p r) \<Longrightarrow> vc_passed (check_monte_carlo txt b r)"
  by (cases r) (auto simp: check_monte_carlo_def at_least_as_strict_def)

lemma check_cost_stress_mono:
  "at_least_as_strict p b \<Longrightarrow> vc_passed (check_cost_stress txt p r) \<Longrightarrow> vc_passed (check_cost_stress txt b r)"
  by (cases r) (auto simp: check_cost_stress_def at_least_as_strict_def)

lemma check_parameter_stability_mono:
  "at_least_as_strict p b \<Longrightarrow> vc_passed (check_parameter_stability txt p r) \<Longrightarrow> vc_passed (check_parameter_stability txt b r)"
  by (cases r) (auto simp: check_parameter_stability_def at_least_as_strict_def)

lemma check_regimes_mono:
  assumes "at_least_as_strict p b" "vc_passed (check_regimes p r)"
  shows "vc_passed (check_regimes b r)"
proof (cases r)
  case (Some rs)
  have "qualified_regime_count rs (po_min_regime_trades p) (po_min_oos_profit_factor p)
      \<le> qualified_regime_count rs (po_min_regime_trades b) (po_min_oos_profit_factor b)"
    using assms(1) by (intro qualified_regimes_mono) (simp_all add: at_least_as_strict_def)
  with assms Some show ?thesis by (auto simp: check_regimes_def at_least_as_strict_def Let_def)
qed (use assms in \<open>simp add: check_regimes_def\<close>)

lemma check_forward_mono:
  "at_least_as_strict p b \<Longrightarrow> vc_passed (check_forward txt p r) \<Longrightarrow> vc_passed (check_forward txt b r)"
  by (cases r) (auto simp: check_forward_def at_least_as_strict_def)

lemmas checks_mono = check_holdout_mono check_walk_forward_mono check_monte_carlo_mono check_cost_stress_mono
  check_parameter_stability_mono check_regimes_mono check_forward_mono

lemma checks_critical [simp]:
  "vc_critical (check_holdout txt p h)" "vc_critical (check_walk_forward txt p w)" "vc_critical (check_monte_carlo txt p m)"
  "vc_critical (check_cost_stress txt p c)" "vc_critical (check_parameter_stability txt p s)" "vc_critical (check_regimes p r)"
  "vc_critical (check_forward txt p f)"
  by (simp_all add: check_holdout_def check_walk_forward_def check_monte_carlo_def check_cost_stress_def
      check_parameter_stability_def check_regimes_def check_forward_def Let_def split: option.split)

lemma qualified_iff:
  "validation_decision_of (qualification_evaluate txt p e) = QUALIFIED \<longleftrightarrow>
     (\<forall>c \<in> set (qualification_evaluate txt p e). vc_passed c)"
  by (simp add: validation_decision_of_def qualification_evaluate_def)

lemma qualified_mono:
  assumes "at_least_as_strict p b" "validation_decision_of (qualification_evaluate txt p e) = QUALIFIED"
  shows "validation_decision_of (qualification_evaluate txt b e) = QUALIFIED"
proof -
  from assms(2) have "\<forall>c \<in> set (qualification_evaluate txt p e). vc_passed c" by (simp only: qualified_iff)
  then have "\<forall>c \<in> set (qualification_evaluate txt b e). vc_passed c"
    unfolding qualification_evaluate_def by (simp add: checks_mono [OF assms(1)])
  then show ?thesis by (simp only: qualified_iff)
qed

subsection \<open>Calibration tightens\<close>

definition threshold_of :: "metric_input \<Rightarrow> calibrated_threshold \<Rightarrow> bool" where
  "threshold_of m t \<longleftrightarrow> ct_name t = mi_name m \<and>
     (case mi_direction m of HIGHER_IS_BETTER \<Rightarrow> mi_baseline m \<le> ct_applied t
      | LOWER_IS_BETTER \<Rightarrow> ct_applied t \<le> mi_baseline m)"

lemma calibrate_metric_threshold: "calibrate_metric c m = Inr (Some t) \<Longrightarrow> threshold_of m t"
  by (auto simp: calibrate_metric_def threshold_of_def guard_simps split: if_splits threshold_direction.splits)

lemma found_values_set: "x \<in> set (found_values xs) \<longleftrightarrow> Some x \<in> set xs"
  by (induction xs) (auto simp: found_values_def split: option.splits)

lemma thresholds_of_metrics:
  assumes "res_map (calibrate_metric c) ms = Inr ts" "t \<in> set (found_values ts)"
  shows "\<exists>m \<in> set ms. calibrate_metric c m = Inr (Some t)"
proof -
  from assms(2) have "Some t \<in> set ts" by (simp only: found_values_set)
  then obtain i where i: "i < length ts" "ts ! i = Some t" by (auto simp: in_set_conv_nth)
  note l = assms(1) [unfolded res_map_Inr_iff]
  from list_all2_nthD2 [OF l i(1)] i(2) list_all2_lengthD [OF l] i(1) show ?thesis by (metis nth_mem)
qed

lemma applied_value_member: "applied_value ts n = Inr v \<Longrightarrow> \<exists>t \<in> set ts. ct_name t = n \<and> ct_applied t = v"
  by (auto simp: applied_value_def split: option.splits dest!: map_of_SomeD)

lemma finite_value_applied: "finite_value ts n = Inr v \<Longrightarrow> applied_value ts n = Inr (Fin v)"
  unfolding finite_value_def res_bind_Inr_iff by (elim exE conjE) (case_tac x, simp_all add: invalid_operation_def)

text \<open>The metric behind a name.\<close>

lemma metric_named:
  assumes "m \<in> set (metric_inputs b c xs)"
  shows "mi_name m = ''min_oos_return_percent'' \<Longrightarrow> mi_direction m = HIGHER_IS_BETTER \<and> mi_baseline m = Fin (po_min_oos_return b)"
    "mi_name m = ''min_oos_profit_factor'' \<Longrightarrow> mi_direction m = HIGHER_IS_BETTER \<and> mi_baseline m = po_min_oos_profit_factor b"
    "mi_name m = ''max_oos_drawdown_percent'' \<Longrightarrow> mi_direction m = LOWER_IS_BETTER \<and> mi_baseline m = Fin (po_max_oos_drawdown b)"
    "mi_name m = ''min_profitable_walk_forward_ratio'' \<Longrightarrow> mi_direction m = HIGHER_IS_BETTER \<and> mi_baseline m = Fin (po_min_profitable_ratio b)"
    "mi_name m = ''min_monte_carlo_median_return_percent'' \<Longrightarrow> mi_direction m = HIGHER_IS_BETTER \<and> mi_baseline m = Fin (po_min_mc_median b)"
    "mi_name m = ''max_monte_carlo_worst_drawdown_percent'' \<Longrightarrow> mi_direction m = LOWER_IS_BETTER \<and> mi_baseline m = Fin (po_max_mc_drawdown b)"
    "mi_name m = ''max_cost_stress_degradation_percent'' \<Longrightarrow> mi_direction m = LOWER_IS_BETTER \<and> mi_baseline m = Fin (po_max_cost_degradation b)"
    "mi_name m = ''max_parameter_normalized_spread'' \<Longrightarrow> mi_direction m = LOWER_IS_BETTER \<and> mi_baseline m = Fin (po_max_spread b)"
    "mi_name m = ''min_feasible_trial_ratio'' \<Longrightarrow> mi_direction m = HIGHER_IS_BETTER \<and> mi_baseline m = Fin (po_min_feasible_ratio b)"
    "mi_name m = ''min_forward_hit_rate_percent'' \<Longrightarrow> mi_direction m = HIGHER_IS_BETTER \<and> mi_baseline m = Fin (po_min_hit_rate b)"
    "mi_name m = ''min_forward_mean_return_percent'' \<Longrightarrow> mi_direction m = HIGHER_IS_BETTER \<and> mi_baseline m = Fin (po_min_forward_mean b)"
  using assms by (auto simp: metric_inputs_def)

definition thresholds_fit :: "validation_policy \<Rightarrow> calibration_config \<Rightarrow> calibration_observation list \<Rightarrow> calibrated_threshold list \<Rightarrow> bool" where
  "thresholds_fit b c xs ts \<longleftrightarrow> (\<forall>t \<in> set ts. \<exists>m \<in> set (metric_inputs b c xs). threshold_of m t)"

lemma applied_higher:
  assumes "thresholds_fit b c xs ts" "applied_value ts n = Inr v"
    "\<And>m. m \<in> set (metric_inputs b c xs) \<Longrightarrow> mi_name m = n \<Longrightarrow> mi_direction m = HIGHER_IS_BETTER \<and> mi_baseline m = x"
  shows "x \<le> v"
proof -
  obtain t where t: "t \<in> set ts" "ct_name t = n" "ct_applied t = v" using applied_value_member [OF assms(2)] by blast
  then obtain m where m: "m \<in> set (metric_inputs b c xs)" "threshold_of m t" using assms(1) by (auto simp: thresholds_fit_def)
  with t assms(3) [OF m(1)] show ?thesis by (simp add: threshold_of_def)
qed

lemma applied_lower:
  assumes "thresholds_fit b c xs ts" "applied_value ts n = Inr v"
    "\<And>m. m \<in> set (metric_inputs b c xs) \<Longrightarrow> mi_name m = n \<Longrightarrow> mi_direction m = LOWER_IS_BETTER \<and> mi_baseline m = x"
  shows "v \<le> x"
proof -
  obtain t where t: "t \<in> set ts" "ct_name t = n" "ct_applied t = v" using applied_value_member [OF assms(2)] by blast
  then obtain m where m: "m \<in> set (metric_inputs b c xs)" "threshold_of m t" using assms(1) by (auto simp: thresholds_fit_def)
  with t assms(3) [OF m(1)] show ?thesis by (simp add: threshold_of_def)
qed

lemma policy_make_Inr: "policy_make p = Inr q \<Longrightarrow> q = p"
  by (auto simp: policy_make_def guard_simps)

lemma applied_policy_Inr:
  assumes "applied_policy b ts = Inr p"
  shows "finite_value ts ''min_oos_return_percent'' = Inr (po_min_oos_return p) \<and>
    applied_value ts ''min_oos_profit_factor'' = Inr (po_min_oos_profit_factor p) \<and>
    finite_value ts ''max_oos_drawdown_percent'' = Inr (po_max_oos_drawdown p) \<and>
    finite_value ts ''min_profitable_walk_forward_ratio'' = Inr (po_min_profitable_ratio p) \<and>
    finite_value ts ''min_monte_carlo_median_return_percent'' = Inr (po_min_mc_median p) \<and>
    finite_value ts ''max_monte_carlo_worst_drawdown_percent'' = Inr (po_max_mc_drawdown p) \<and>
    finite_value ts ''max_cost_stress_degradation_percent'' = Inr (po_max_cost_degradation p) \<and>
    finite_value ts ''max_parameter_normalized_spread'' = Inr (po_max_spread p) \<and>
    finite_value ts ''min_feasible_trial_ratio'' = Inr (po_min_feasible_ratio p) \<and>
    finite_value ts ''min_forward_hit_rate_percent'' = Inr (po_min_hit_rate p) \<and>
    finite_value ts ''min_forward_mean_return_percent'' = Inr (po_min_forward_mean p) \<and>
    po_min_oos_trades p = po_min_oos_trades b \<and> po_min_windows p = po_min_windows b \<and>
    po_min_regime_trades p = po_min_regime_trades b \<and> po_min_regimes p = po_min_regimes b \<and> po_min_forward p = po_min_forward b"
  using assms unfolding applied_policy_def Let_def res_bind_Inr_iff by (elim exE conjE) (drule policy_make_Inr, simp)

lemma applied_policy_strict:
  assumes f: "thresholds_fit b c xs ts" and p: "applied_policy b ts = Inr p"
  shows "at_least_as_strict p b"
proof -
  note i = applied_policy_Inr [OF p]
  note v = i [THEN conjunct1, THEN finite_value_applied]
  have "Fin (po_min_oos_return b) \<le> Fin (po_min_oos_return p)"
    by (rule applied_higher [OF f _ metric_named(1)]) (use i finite_value_applied in blast)+
  moreover have "po_min_oos_profit_factor b \<le> po_min_oos_profit_factor p"
    by (rule applied_higher [OF f _ metric_named(2)]) (use i in blast)+
  moreover have "Fin (po_max_oos_drawdown p) \<le> Fin (po_max_oos_drawdown b)"
    by (rule applied_lower [OF f _ metric_named(3)]) (use i finite_value_applied in blast)+
  moreover have "Fin (po_min_profitable_ratio b) \<le> Fin (po_min_profitable_ratio p)"
    by (rule applied_higher [OF f _ metric_named(4)]) (use i finite_value_applied in blast)+
  moreover have "Fin (po_min_mc_median b) \<le> Fin (po_min_mc_median p)"
    by (rule applied_higher [OF f _ metric_named(5)]) (use i finite_value_applied in blast)+
  moreover have "Fin (po_max_mc_drawdown p) \<le> Fin (po_max_mc_drawdown b)"
    by (rule applied_lower [OF f _ metric_named(6)]) (use i finite_value_applied in blast)+
  moreover have "Fin (po_max_cost_degradation p) \<le> Fin (po_max_cost_degradation b)"
    by (rule applied_lower [OF f _ metric_named(7)]) (use i finite_value_applied in blast)+
  moreover have "Fin (po_max_spread p) \<le> Fin (po_max_spread b)"
    by (rule applied_lower [OF f _ metric_named(8)]) (use i finite_value_applied in blast)+
  moreover have "Fin (po_min_feasible_ratio b) \<le> Fin (po_min_feasible_ratio p)"
    by (rule applied_higher [OF f _ metric_named(9)]) (use i finite_value_applied in blast)+
  moreover have "Fin (po_min_hit_rate b) \<le> Fin (po_min_hit_rate p)"
    by (rule applied_higher [OF f _ metric_named(10)]) (use i finite_value_applied in blast)+
  moreover have "Fin (po_min_forward_mean b) \<le> Fin (po_min_forward_mean p)"
    by (rule applied_higher [OF f _ metric_named(11)]) (use i finite_value_applied in blast)+
  ultimately show ?thesis using i by (simp add: at_least_as_strict_def)
qed

lemma calibrate_Inr:
  assumes "calibrate V b c source cutoff = Inr r"
  shows "\<exists>ts. res_map (calibrate_metric c) (metric_inputs b c (eligible cutoff source)) = Inr ts \<and> cl_thresholds r = found_values ts \<and>
    (cl_policy r = None \<longleftrightarrow> cl_status r = CALIBRATION_HOLD) \<and>
    (\<forall>p. cl_policy r = Some p \<longrightarrow> applied_policy b (found_values ts) = Inr p)"
  using assms by (auto simp: calibrate_def guard_simps Let_def split: if_splits)

lemma calibrated_strict:
  assumes "calibrate V b c source cutoff = Inr r" "cl_policy r = Some p"
  shows "at_least_as_strict p b"
proof -
  obtain ts where ts: "res_map (calibrate_metric c) (metric_inputs b c (eligible cutoff source)) = Inr ts"
    "applied_policy b (found_values ts) = Inr p"
    using calibrate_Inr [OF assms(1)] assms(2) by blast
  have "thresholds_fit b c (eligible cutoff source) (found_values ts)"
    using thresholds_of_metrics [OF ts(1)] calibrate_metric_threshold unfolding thresholds_fit_def by blast
  then show ?thesis using ts(2) by (rule applied_policy_strict)
qed

subsection \<open>Calibration returns\<close>

definition observation_ok :: "calibration_observation \<Rightarrow> bool" where
  "observation_ok x \<longleftrightarrow> calibration_observation_make x = Inr x \<and> ca_oos_profit_factor x \<notin> {Some NInf, Some PInf}"

definition values_in :: "rat option \<Rightarrow> ('a \<Rightarrow> rat option) \<Rightarrow> 'a list \<Rightarrow> bool" where
  "values_in hi f xs \<longleftrightarrow> (\<forall>y \<in> set (found_values (map f xs)). 0 \<le> y \<and> (case hi of None \<Rightarrow> True | Some h \<Rightarrow> y \<le> h))"

lemma observation_ranges:
  assumes "\<forall>x \<in> set xs. observation_ok x"
  shows "values_in None ca_oos_drawdown xs" "values_in None ca_mc_drawdown xs" "values_in None ca_cost_degradation xs"
    "values_in None ca_spread xs" "values_in (Some 1) ca_profitable_ratio xs" "values_in (Some 1) ca_feasible_ratio xs"
    "values_in (Some 100) ca_hit_rate xs"
proof -
  have o: "\<not> (\<exists>v \<in> set (found_values [ca_oos_drawdown x, ca_mc_drawdown x, ca_cost_degradation x, ca_spread x]). v < 0)"
    "\<not> outside 0 1 (ca_profitable_ratio x)" "\<not> outside 0 1 (ca_feasible_ratio x)" "\<not> outside 0 100 (ca_hit_rate x)"
    if "x \<in> set xs" for x
  proof -
    have "calibration_observation_make x = Inr x" using that assms by (simp add: observation_ok_def)
    note m = this [unfolded calibration_observation_make_def guard_Inr_iff]
    show "\<not> (\<exists>v \<in> set (found_values [ca_oos_drawdown x, ca_mc_drawdown x, ca_cost_degradation x, ca_spread x]). v < 0)"
      "\<not> outside 0 1 (ca_profitable_ratio x)" "\<not> outside 0 1 (ca_feasible_ratio x)" "\<not> outside 0 100 (ca_hit_rate x)"
      using m by blast+
  qed
  have n: "values_in None f xs" if "\<And>x v. x \<in> set xs \<Longrightarrow> f x = Some v \<Longrightarrow> \<not> v < 0" for f
    using that by (force simp: values_in_def found_values_set not_less)
  have r: "values_in (Some h) f xs" if "\<And>x. x \<in> set xs \<Longrightarrow> \<not> outside 0 h (f x)" for f h
    using that by (force simp: values_in_def found_values_set outside_def split: option.splits)
  have s: "\<not> v < 0" if "x \<in> set xs" "Some v \<in> {ca_oos_drawdown x, ca_mc_drawdown x, ca_cost_degradation x, ca_spread x}" for x v
    using o(1) [OF that(1)] that(2) by (force simp: found_values_set)
  show "values_in None ca_oos_drawdown xs" "values_in None ca_mc_drawdown xs" "values_in None ca_cost_degradation xs"
    "values_in None ca_spread xs"
    by (rule n, erule s, simp)+
  show "values_in (Some 1) ca_profitable_ratio xs" "values_in (Some 1) ca_feasible_ratio xs" "values_in (Some 100) ca_hit_rate xs"
    by (rule r, erule o)+
qed

lemma length_found_values: "length (found_values xs) \<le> length xs"
  by (induction xs) (auto simp: found_values_def split: option.splits)

definition config_ok :: "calibration_config \<Rightarrow> bool" where
  "config_ok c \<longleftrightarrow> 1 \<le> cc_min_metric_samples c \<and> 0 \<le> cc_lower c \<and> cc_lower c \<le> 1 \<and> 0 \<le> cc_upper c \<and> cc_upper c \<le> 1"

lemma config_make_ok: "calibration_config_make c = Inr c' \<Longrightarrow> config_ok c"
  by (auto simp: calibration_config_make_def config_ok_def guard_Inr_iff)

lemma calibrate_metric_finite:
  assumes "mi_values m = map Fin vs" "length vs < 10 ^ 28" "1 \<le> cc_min_metric_samples c" "0 \<le> mi_quantile m" "mi_quantile m \<le> 1"
  shows "\<exists>t. calibrate_metric c m = Inr t \<and> (\<forall>t'. t = Some t' \<longrightarrow> (\<exists>e.
    ct_applied t' = (case mi_direction m of HIGHER_IS_BETTER \<Rightarrow> max (mi_baseline m) (Fin e) | LOWER_IS_BETTER \<Rightarrow> min (mi_baseline m) (Fin e)) \<and>
    ((\<forall>y \<in> set vs. 0 \<le> y) \<longrightarrow> 0 \<le> e) \<and> (\<forall>k. (\<forall>y \<in> set vs. 0 \<le> y \<and> y \<le> p10 k) \<longrightarrow> e \<le> p10 k)))"
proof (cases "int (length vs) < cc_min_metric_samples c")
  case True
  then show ?thesis using assms(1) by (simp add: calibrate_metric_def)
next
  case False
  then have ne: "vs \<noteq> []" using assms(3) by auto
  obtain e where e: "quantile (map Fin vs) (mi_quantile m) = Inr (Fin e)" "0 \<le> Min (set vs) \<longrightarrow> 0 \<le> e"
    "\<forall>k. 0 \<le> Min (set vs) \<longrightarrow> Max (set vs) \<le> p10 k \<longrightarrow> e \<le> p10 k"
    using quantile_finite [OF ne assms(2,4,5)] by blast
  have "(\<forall>y \<in> set vs. 0 \<le> y) \<Longrightarrow> 0 \<le> Min (set vs)" "(\<forall>y \<in> set vs. y \<le> b) \<Longrightarrow> Max (set vs) \<le> b" for b
    using ne by simp_all
  with e(2,3) have "((\<forall>y \<in> set vs. 0 \<le> y) \<longrightarrow> 0 \<le> e) \<and> (\<forall>k. (\<forall>y \<in> set vs. 0 \<le> y \<and> y \<le> p10 k) \<longrightarrow> e \<le> p10 k)" by blast
  with e(1) False assms(1) show ?thesis by (simp add: calibrate_metric_def) (rule exI [of _ e], simp)
qed

text \<open>When no metric is short of samples, every name is found in the table of applied values.\<close>

lemma metric_names_distinct: "distinct (map mi_name (metric_inputs b c xs))"
  by (simp add: metric_inputs_def)

lemma map_found_values:
  assumes "list_all2 (\<lambda>m t. calibrate_metric c m = Inr t) ms ts" "\<forall>t \<in> set ts. t \<noteq> None"
  shows "map ct_name (found_values ts) = map mi_name ms"
  using assms
proof (induction rule: list_all2_induct)
  case (Cons m ms t ts)
  then obtain t' where t': "t = Some t'" by auto
  with Cons.hyps(1) have "ct_name t' = mi_name m" using calibrate_metric_threshold by (auto simp: threshold_of_def)
  with Cons t' show ?case by (simp add: found_values_def)
qed (simp add: found_values_def)

lemma applied_value_found:
  assumes ms: "res_map (calibrate_metric c) (metric_inputs b c xs) = Inr ts" "\<forall>t \<in> set ts. t \<noteq> None"
    and m: "m \<in> set (metric_inputs b c xs)"
  shows "\<exists>t. calibrate_metric c m = Inr (Some t) \<and> applied_value (found_values ts) (mi_name m) = Inr (ct_applied t)"
proof -
  note l = ms(1) [unfolded res_map_Inr_iff]
  obtain i where i: "i < length (metric_inputs b c xs)" "metric_inputs b c xs ! i = m" using m by (auto simp: in_set_conv_nth)
  have t: "calibrate_metric c m = Inr (ts ! i)" using list_all2_nthD [OF l i(1)] i(2) by simp
  have "ts ! i \<in> set ts" using i(1) list_all2_lengthD [OF l] by simp
  then obtain t' where t': "ts ! i = Some t'" "t' \<in> set (found_values ts)" using ms(2) by (auto simp: found_values_set)
  have names: "map ct_name (found_values ts) = map mi_name (metric_inputs b c xs)" by (rule map_found_values [OF l ms(2)])
  have "distinct (map ct_name (found_values ts))" unfolding names by (rule metric_names_distinct)
  moreover have "map fst (rev (map (\<lambda>t. (ct_name t, ct_applied t)) (found_values ts))) = rev (map ct_name (found_values ts))"
    by (simp add: rev_map comp_def)
  ultimately have d: "distinct (map fst (rev (map (\<lambda>t. (ct_name t, ct_applied t)) (found_values ts))))"
    by (simp only: distinct_rev)
  have name: "ct_name t' = mi_name m" using t t'(1) calibrate_metric_threshold by (auto simp: threshold_of_def)
  have "(mi_name m, ct_applied t') \<in> set (rev (map (\<lambda>t. (ct_name t, ct_applied t)) (found_values ts)))"
    using t'(2) name by force
  with d have "dget (rev (map (\<lambda>t. (ct_name t, ct_applied t)) (found_values ts))) (mi_name m) = Some (ct_applied t')" by simp
  with t t'(1) show ?thesis by (simp add: applied_value_def)
qed

lemma finite_value_found:
  assumes ms: "res_map (calibrate_metric c) (metric_inputs b c xs) = Inr ts" "\<forall>t \<in> set ts. t \<noteq> None"
    and m: "m \<in> set (metric_inputs b c xs)" "mi_name m = n" "mi_values m = map Fin (found_values (map f xs))" "mi_baseline m = Fin x"
    and c: "config_ok c" "mi_quantile m \<in> {cc_lower c, cc_upper c}" and small: "length xs < 10 ^ 28"
  shows "\<exists>e. finite_value (found_values ts) n =
      Inr (case mi_direction m of HIGHER_IS_BETTER \<Rightarrow> max x e | LOWER_IS_BETTER \<Rightarrow> min x e) \<and>
    (values_in None f xs \<longrightarrow> 0 \<le> e) \<and> (\<forall>k. values_in (Some (p10 k)) f xs \<longrightarrow> e \<le> p10 k)"
proof -
  obtain t where t: "calibrate_metric c m = Inr (Some t)" "applied_value (found_values ts) (mi_name m) = Inr (ct_applied t)"
    using applied_value_found [OF ms m(1)] by blast
  have len: "length (found_values (map f xs)) < 10 ^ 28" using length_found_values [of "map f xs"] small by simp
  have c1: "1 \<le> cc_min_metric_samples c" using c(1) by (simp add: config_ok_def)
  have q: "0 \<le> mi_quantile m" "mi_quantile m \<le> 1" using c by (auto simp: config_ok_def)
  from calibrate_metric_finite [OF m(3) len c1 q] t(1)
  obtain e where e: "ct_applied t = (case mi_direction m of HIGHER_IS_BETTER \<Rightarrow> max (mi_baseline m) (Fin e)
      | LOWER_IS_BETTER \<Rightarrow> min (mi_baseline m) (Fin e))"
    "(\<forall>y \<in> set (found_values (map f xs)). 0 \<le> y) \<longrightarrow> 0 \<le> e"
    "\<forall>k. (\<forall>y \<in> set (found_values (map f xs)). 0 \<le> y \<and> y \<le> p10 k) \<longrightarrow> e \<le> p10 k" by auto
  show ?thesis using t(2) e m(2,4) by (intro exI [of _ e]) (auto simp: finite_value_def values_in_def split: threshold_direction.split)
qed


lemma validation_policy_bounds:
  assumes "policy_make b = Inr b"
  shows "0 \<le> po_min_oos_trades b \<and> 0 \<le> po_min_windows b \<and> 0 \<le> po_min_regime_trades b \<and> 0 \<le> po_min_regimes b \<and> 0 \<le> po_min_forward b \<and>
    0 \<le> po_max_oos_drawdown b \<and> po_max_oos_drawdown b \<le> 100 \<and> 0 \<le> po_max_mc_drawdown b \<and> po_max_mc_drawdown b \<le> 100 \<and>
    0 \<le> po_max_cost_degradation b \<and> po_max_cost_degradation b \<le> 100 \<and> 0 \<le> po_min_hit_rate b \<and> po_min_hit_rate b \<le> 100 \<and>
    0 \<le> po_min_profitable_ratio b \<and> po_min_profitable_ratio b \<le> 1 \<and> 0 \<le> po_max_spread b \<and> po_max_spread b \<le> 1 \<and>
    0 \<le> po_min_feasible_ratio b \<and> po_min_feasible_ratio b \<le> 1"
  using assms unfolding policy_make_def guard_Inr_iff by (simp add: not_less not_le)

lemma policy_make_ok:
  assumes "0 \<le> po_min_oos_trades b \<and> 0 \<le> po_min_windows b \<and> 0 \<le> po_min_regime_trades b \<and> 0 \<le> po_min_regimes b \<and> 0 \<le> po_min_forward b"
    "0 \<le> po_max_oos_drawdown b \<and> po_max_oos_drawdown b \<le> 100 \<and> 0 \<le> po_max_mc_drawdown b \<and> po_max_mc_drawdown b \<le> 100 \<and>
    0 \<le> po_max_cost_degradation b \<and> po_max_cost_degradation b \<le> 100 \<and> 0 \<le> po_min_hit_rate b \<and> po_min_hit_rate b \<le> 100"
    "0 \<le> po_min_profitable_ratio b \<and> po_min_profitable_ratio b \<le> 1 \<and> 0 \<le> po_max_spread b \<and> po_max_spread b \<le> 1 \<and>
    0 \<le> po_min_feasible_ratio b \<and> po_min_feasible_ratio b \<le> 1"
  shows "policy_make b = Inr b"
  unfolding policy_make_def guard_Inr_iff using assms by (simp add: not_less not_le)

lemma p10_01: "p10 0 = 1" "p10 2 = 100"
  by (simp_all add: p10_def)

lemma applied_policy_total:
  assumes ms: "res_map (calibrate_metric c) (metric_inputs b c xs) = Inr ts" "\<forall>t \<in> set ts. t \<noteq> None"
    and c: "config_ok c" and small: "length xs < 10 ^ 28" and ok: "\<forall>x \<in> set xs. observation_ok x" and b: "policy_make b = Inr b"
  shows "\<exists>p. applied_policy b (found_values ts) = Inr p"
proof -
  note found = finite_value_found [OF ms _ _ _ _ c _ small]
  note ranges = observation_ranges [OF ok]
  let ?ts = "found_values ts"
  obtain e1 where e1: "finite_value ?ts ''min_oos_return_percent'' = Inr (max (po_min_oos_return b) e1)"
    using found [of "metric_inputs b c xs ! 0" "''min_oos_return_percent''" ca_oos_return "po_min_oos_return b"]
    by (simp add: metric_inputs_def) blast
  obtain e3 where e3: "finite_value ?ts ''max_oos_drawdown_percent'' = Inr (min (po_max_oos_drawdown b) e3)" "0 \<le> e3"
    using found [of "metric_inputs b c xs ! 2" "''max_oos_drawdown_percent''" ca_oos_drawdown "po_max_oos_drawdown b"] ranges(1)
    by (simp add: metric_inputs_def) blast
  obtain e4 where e4: "finite_value ?ts ''min_profitable_walk_forward_ratio'' = Inr (max (po_min_profitable_ratio b) e4)" "e4 \<le> 1"
    using found [of "metric_inputs b c xs ! 3" "''min_profitable_walk_forward_ratio''" ca_profitable_ratio "po_min_profitable_ratio b"] ranges(5)
    by (simp add: metric_inputs_def) (metis p10_01(1))
  obtain e5 where e5: "finite_value ?ts ''min_monte_carlo_median_return_percent'' = Inr (max (po_min_mc_median b) e5)"
    using found [of "metric_inputs b c xs ! 4" "''min_monte_carlo_median_return_percent''" ca_mc_median "po_min_mc_median b"]
    by (simp add: metric_inputs_def) blast
  obtain e6 where e6: "finite_value ?ts ''max_monte_carlo_worst_drawdown_percent'' = Inr (min (po_max_mc_drawdown b) e6)" "0 \<le> e6"
    using found [of "metric_inputs b c xs ! 5" "''max_monte_carlo_worst_drawdown_percent''" ca_mc_drawdown "po_max_mc_drawdown b"] ranges(2)
    by (simp add: metric_inputs_def) blast
  obtain e7 where e7: "finite_value ?ts ''max_cost_stress_degradation_percent'' = Inr (min (po_max_cost_degradation b) e7)" "0 \<le> e7"
    using found [of "metric_inputs b c xs ! 6" "''max_cost_stress_degradation_percent''" ca_cost_degradation "po_max_cost_degradation b"] ranges(3)
    by (simp add: metric_inputs_def) blast
  obtain e8 where e8: "finite_value ?ts ''max_parameter_normalized_spread'' = Inr (min (po_max_spread b) e8)" "0 \<le> e8"
    using found [of "metric_inputs b c xs ! 7" "''max_parameter_normalized_spread''" ca_spread "po_max_spread b"] ranges(4)
    by (simp add: metric_inputs_def) blast
  obtain e9 where e9: "finite_value ?ts ''min_feasible_trial_ratio'' = Inr (max (po_min_feasible_ratio b) e9)" "e9 \<le> 1"
    using found [of "metric_inputs b c xs ! 8" "''min_feasible_trial_ratio''" ca_feasible_ratio "po_min_feasible_ratio b"] ranges(6)
    by (simp add: metric_inputs_def) (metis p10_01(1))
  obtain e10 where e10: "finite_value ?ts ''min_forward_hit_rate_percent'' = Inr (max (po_min_hit_rate b) e10)" "e10 \<le> 100"
    using found [of "metric_inputs b c xs ! 9" "''min_forward_hit_rate_percent''" ca_hit_rate "po_min_hit_rate b"] ranges(7)
    by (simp add: metric_inputs_def) (metis p10_01(2))
  obtain e11 where e11: "finite_value ?ts ''min_forward_mean_return_percent'' = Inr (max (po_min_forward_mean b) e11)"
    using found [of "metric_inputs b c xs ! 10" "''min_forward_mean_return_percent''" ca_forward_mean "po_min_forward_mean b"]
    by (simp add: metric_inputs_def) blast
  obtain e2 where e2: "applied_value ?ts ''min_oos_profit_factor'' = Inr e2"
    using applied_value_found [OF ms, of "metric_inputs b c xs ! 1"] by (simp add: metric_inputs_def) blast
  note bounds = validation_policy_bounds [OF b]
  show ?thesis
    unfolding applied_policy_def Let_def e1 e2 e3(1) e4(1) e5 e6(1) e7(1) e8(1) e9(1) e10(1) e11 res_bind_simps
    by (rule exI, rule policy_make_ok)
      (use bounds e3(2) e4(2) e6(2) e7(2) e8(2) e9(2) e10(2) in \<open>simp_all add: min_def max_def\<close>)
qed


lemma metric_values:
  assumes "m \<in> set (metric_inputs b c xs)"
  shows "mi_quantile m \<in> {cc_lower c, cc_upper c} \<and>
    ((\<exists>f. mi_values m = map Fin (found_values (map f xs))) \<or> mi_values m = found_values (map ca_oos_profit_factor xs))"
  using assms by (auto simp: metric_inputs_def)

lemma finite_factors:
  assumes "\<forall>x \<in> set xs. ca_oos_profit_factor x \<notin> {Some NInf, Some PInf}"
  shows "\<exists>vs. found_values (map ca_oos_profit_factor xs) = map Fin vs \<and> length vs \<le> length xs"
proof -
  have "\<forall>v \<in> set (found_values (map ca_oos_profit_factor xs)). \<exists>x. v = Fin x"
  proof
    fix v assume "v \<in> set (found_values (map ca_oos_profit_factor xs))"
    then obtain x where "x \<in> set xs" "ca_oos_profit_factor x = Some v" by (auto simp: found_values_set)
    with assms show "\<exists>x. v = Fin x" by (cases v) auto
  qed
  then obtain vs where vs: "found_values (map ca_oos_profit_factor xs) = map Fin vs"
    unfolding ex_map_conv [symmetric] by blast
  with length_found_values [of "map ca_oos_profit_factor xs"] show ?thesis by auto
qed

lemma calibrate_metric_total:
  assumes "m \<in> set (metric_inputs b c xs)" "config_ok c" "length xs < 10 ^ 28"
    "\<forall>x \<in> set xs. ca_oos_profit_factor x \<notin> {Some NInf, Some PInf}"
  shows "\<exists>t. calibrate_metric c m = Inr t"
proof -
  obtain vs where vs: "mi_values m = map Fin vs" "length vs \<le> length xs"
    using metric_values [OF assms(1)] finite_factors [OF assms(4)] length_found_values length_map by metis
  have c1: "1 \<le> cc_min_metric_samples c" using assms(2) by (simp add: config_ok_def)
  have q: "0 \<le> mi_quantile m" "mi_quantile m \<le> 1" using metric_values [OF assms(1)] assms(2) by (auto simp: config_ok_def)
  have len: "length vs < 10 ^ 28" using vs(2) assms(3) by simp
  from calibrate_metric_finite [OF vs(1) len c1 q] show ?thesis by blast
qed

lemma unique_ids_ok: "distinct (map ca_sample_id xs) \<Longrightarrow> set seen \<inter> ca_sample_id ` set xs = {} \<Longrightarrow> unique_ids xs seen = Inr ()"
  by (induction xs arbitrary: seen) auto

lemma no_reason_found:
  assumes "list_all2 R ms ts" "concat (map (metric_reason txt c) (zip ms ts)) = []"
  shows "\<forall>t \<in> set ts. t \<noteq> None"
  using assms by (induction rule: list_all2_induct) (auto simp: metric_reason_def split: option.splits)

lemma calibrate_total:
  assumes ids: "distinct (map ca_sample_id source)" and cut: "\<forall>t. cutoff = Some t \<longrightarrow> is_aware t"
    and ok: "\<forall>x \<in> set source. observation_ok x" and small: "length source < 10 ^ 28"
    and c: "calibration_config_make c = Inr c" and b: "policy_make b = Inr b"
  shows "\<exists>r. calibrate V b c source cutoff = Inr r"
proof -
  let ?xs = "eligible cutoff source"
  have ok': "\<forall>x \<in> set ?xs. observation_ok x" using ok by (simp add: eligible_def)
  have len: "length ?xs < 10 ^ 28"
    unfolding eligible_def by (rule le_less_trans [OF length_filter_le small])
  note cok = config_make_ok [OF c]
  have "\<forall>m \<in> set (metric_inputs b c ?xs). \<exists>t. calibrate_metric c m = Inr t"
    using calibrate_metric_total [OF _ cok len] ok' by (simp add: observation_ok_def)
  then obtain ts where ts: "res_map (calibrate_metric c) (metric_inputs b c ?xs) = Inr ts" by (blast dest: res_map_total)
  have u: "unique_ids source [] = Inr ()" using ids by (simp add: unique_ids_ok)
  have g: "\<not> (case cutoff of None \<Rightarrow> False | Some t \<Rightarrow> \<not> is_aware t)" using cut by (cases cutoff) auto
  show ?thesis
  proof (cases "concat (map (metric_reason (ce_txt V) c) (zip (metric_inputs b c ?xs) ts)) = []")
    case True
    from no_reason_found [OF ts [unfolded res_map_Inr_iff] True] have all: "\<forall>t \<in> set ts. t \<noteq> None" .
    obtain p where "applied_policy b (found_values ts) = Inr p"
      using applied_policy_total [OF ts all cok len ok' b] by blast
    with ts u g show ?thesis unfolding calibrate_def Let_def by (simp add: guard_def)
  next
    case False
    with ts u g show ?thesis unfolding calibrate_def Let_def by (simp add: guard_def del: concat_eq_Nil_conv)
  qed
qed

text \<open>
  A cohort of strategies without a losing trade: every profit factor is infinite, and interpolating between two infinities
  is an invalid operation.
\<close>

lemma quantile_infinite: "2 \<le> n \<Longrightarrow> n < 10 ^ 28 \<Longrightarrow> 0 \<le> q \<Longrightarrow> q \<le> 1 \<Longrightarrow> quantile (replicate n PInf) q = invalid_operation"
proof -
  assume n: "2 \<le> n" "n < 10 ^ 28" "0 \<le> q" "q \<le> 1"
  have s: "sort (replicate n PInf) = replicate n PInf" by (rule sort_key_id_if_sorted) (simp add: sorted_replicate)
  note pos = quantile_position [OF n]
  let ?i = "nat \<lfloor>dtrunc (dmul (of_nat (n - 1)) q)\<rfloor>"
  have u: "min (?i + 1) (n - 1) < n" using n(1) by simp
  show ?thesis using n(1) pos(1) u unfolding quantile_def s Let_def
    by (simp add: xsub_def invalid_operation_def)
qed

lemma calibrate_infinite:
  assumes ids: "distinct (map ca_sample_id source)" and inf: "\<forall>x \<in> set source. ca_oos_profit_factor x = Some PInf"
    and n: "2 \<le> length source" "length source < 10 ^ 28" "cc_min_metric_samples c \<le> int (length source)"
    and c: "calibration_config_make c = Inr c"
  shows "calibrate V b c source None = invalid_operation"
proof -
  let ?ms = "metric_inputs b c source"
  note cok = config_make_ok [OF c]
  have e: "eligible None source = source" by (simp add: eligible_def)
  have u: "unique_ids source [] = Inr ()" using ids by (simp add: unique_ids_ok)
  have vs: "found_values (map ca_oos_profit_factor source) = replicate (length source) PInf"
    using inf by (induction source) (simp_all add: found_values_def)
  obtain m1 m2 ms where ms: "?ms = m1 # m2 # ms" "mi_values m1 = map Fin (found_values (map ca_oos_return source))"
    "mi_quantile m1 = cc_lower c" "mi_values m2 = found_values (map ca_oos_profit_factor source)" "mi_quantile m2 = cc_lower c"
    by (simp add: metric_inputs_def)
  have q: "0 \<le> cc_lower c" "cc_lower c \<le> 1" "1 \<le> cc_min_metric_samples c" using cok by (simp_all add: config_ok_def)
  have len: "length (found_values (map ca_oos_return source)) < 10 ^ 28"
    using length_found_values [of "map ca_oos_return source"] n(2) by simp
  have q1: "0 \<le> mi_quantile m1" "mi_quantile m1 \<le> 1" using q ms(3) by simp_all
  from calibrate_metric_finite [OF ms(2) len q(3) q1] obtain t where t: "calibrate_metric c m1 = Inr t" by blast
  have bad: "calibrate_metric c m2 = invalid_operation"
    using n(3) quantile_infinite [OF n(1,2) q(1,2)] by (simp add: calibrate_metric_def ms(4,5) vs invalid_operation_def)
  have "res_map (calibrate_metric c) ?ms = invalid_operation" unfolding ms(1) using t bad by (simp add: invalid_operation_def)
  with u show ?thesis by (simp add: calibrate_def Let_def e invalid_operation_def)
qed

subsection \<open>Stress of the costs\<close>

lemma degradation_nonneg: "0 \<le> degradation_percent a b"
  by (simp add: degradation_percent_def)

text \<open>Running a scenario with the costs of the base configuration reports no degradation.\<close>

lemma degradation_self: "degradation_percent a a = 0"
  by (simp add: degradation_percent_def dsub_def dmul_def ddiv_def dec.zero)

subsection \<open>The split\<close>

lemma split_order:
  assumes "build_chronological_split anchor train validation = Inr s"
  shows "instant (cs_train_start s) \<le> instant (cs_train_end s) \<and> instant (cs_train_end s) < instant (cs_validation_start s) \<and>
    instant (cs_validation_start s) \<le> instant (cs_validation_end s) \<and> instant (cs_validation_end s) < instant (cs_holdout_start s) \<and>
    instant (cs_holdout_start s) \<le> instant (cs_holdout_end s)"
proof -
  let ?rows = "ordered anchor" and ?t = "\<lambda>i. instant (cd_timestamp (ordered anchor ! i))"
  have s: "0 < train" "0 < validation" "train + validation < int (length ?rows)"
    "distinct (map (\<lambda>c. instant (cd_timestamp c)) ?rows)"
    "s = \<lparr>cs_train_start = cd_timestamp (?rows ! nat 0), cs_train_end = cd_timestamp (?rows ! nat (train - 1)),
       cs_validation_start = cd_timestamp (?rows ! nat train), cs_validation_end = cd_timestamp (?rows ! nat (train + validation - 1)),
       cs_holdout_start = cd_timestamp (?rows ! nat (train + validation)), cs_holdout_end = cd_timestamp (last ?rows)\<rparr>"
    using assms by (auto simp: build_chronological_split_def guard_Inr_iff Let_def)
  have sorted: "sorted (map (\<lambda>c. instant (cd_timestamp c)) ?rows)" by (simp add: ordered_def)
  have le: "?t i \<le> ?t j" if "i \<le> j" "j < length ?rows" for i j
    using sorted_nth_mono [OF sorted that(1)] that by simp
  have less: "?t i < ?t j" if "i < j" "j < length ?rows" for i j
  proof -
    have "?t i \<noteq> ?t j" using that s(4) by (auto simp: distinct_conv_nth)
    with le [of i j] that show ?thesis by simp
  qed
  have l: "last ?rows = ?rows ! (length ?rows - 1)" using s(1-3) by (intro last_conv_nth) auto
  show ?thesis unfolding s(5) l using s(1-3) by (auto intro!: le less)
qed

lemma history_rows:
  assumes "dget (history_until symbol t source) tf = Some rows" "c \<in> set rows"
  shows "cd_symbol c = symbol \<and> instant (cd_timestamp c) \<le> instant t"
proof -
  have "dget (history_until symbol t source) tf = map_option (\<lambda>rows. ordered (filter (\<lambda>c. cd_symbol c = symbol \<and>
      instant (cd_timestamp c) \<le> instant t) rows)) (dget source tf)"
    unfolding history_until_def by (induction source) auto
  with assms show ?thesis by (auto simp: ordered_def)
qed

lemma backtest_with_run: "backtest_with cfg rules ids symbol source start = Inr r \<Longrightarrow>
  \<exists>E evs. engine_run E symbol source start = Inr (r, evs)"
  by (auto simp: backtest_with_def res_bind_Inr_iff)

definition quarter_hour :: int where
  "quarter_hour = 15 * 60 * 10 ^ 6"

lemma segment_trades:
  assumes "backtest_with cfg rules ids symbol (history_until symbol t source) (Some start) = Inr r" "d \<in> set (br_trades r)"
  shows "instant start \<le> instant (td_entry_time d) \<and> instant (td_exit_time d) \<le> instant t + quarter_hour"
proof -
  obtain E evs where "engine_run E symbol (history_until symbol t source) (Some start) = Inr (r, evs)"
    using backtest_with_run [OF assms(1)] by blast
  from run_trades_in_window [OF this assms(2)] obtain rows bar where "instant start \<le> instant (td_entry_time d)"
    "dget (history_until symbol t source) ''15m'' = Some rows" "bar \<in> set rows"
    "instant (td_exit_time d) = instant (cd_timestamp bar) + 15 * 60 * 10 ^ 6" by blast
  with history_rows [OF this(2,3)] show ?thesis by (simp add: quarter_hour_def)
qed

lemma out_of_sample_segments:
  assumes "run_out_of_sample_validation symbol source train validation cfg rules ids = Inr r"
  shows "(\<exists>anchor. build_chronological_split anchor train validation = Inr (ov_split r)) \<and>
    (\<forall>d \<in> set (br_trades (ov_validation r)). instant (cs_validation_start (ov_split r)) \<le> instant (td_entry_time d) \<and>
       instant (td_exit_time d) \<le> instant (cs_validation_end (ov_split r)) + quarter_hour) \<and>
    (\<forall>d \<in> set (br_trades (ov_holdout r)). instant (cs_holdout_start (ov_split r)) \<le> instant (td_entry_time d) \<and>
       instant (td_exit_time d) \<le> instant (cs_holdout_end (ov_split r)) + quarter_hour)"
proof -
  obtain anchor split training validated holdout where s: "build_chronological_split anchor train validation = Inr split"
    "backtest_with cfg rules ids symbol (history_until symbol (cs_validation_end split) source) (Some (cs_validation_start split)) = Inr validated"
    "backtest_with cfg rules ids symbol (history_until symbol (cs_holdout_end split) source) (Some (cs_holdout_start split)) = Inr holdout"
    "r = \<lparr>ov_split = split, ov_training = training, ov_validation = validated, ov_holdout = holdout\<rparr>"
    using assms unfolding run_out_of_sample_validation_def Let_def res_bind_Inr_iff by blast
  from s(1) segment_trades [OF s(2)] segment_trades [OF s(3)] show ?thesis unfolding s(4) by auto
qed

subsection \<open>Regimes\<close>

definition group_sizes :: "(string, 'a list) dict \<Rightarrow> nat" where
  "group_sizes g = sum_list (map (\<lambda>x. length (snd x)) g)"

lemma group_sizes_put:
  "group_sizes (dput k xs g) + length (case dget g k of None \<Rightarrow> [] | Some ys \<Rightarrow> ys) = group_sizes g + length xs"
  by (induction g) (auto simp: group_sizes_def)

lemma group_sizes_add: "group_sizes (add_to_group f x g) = group_sizes g + 1"
  using group_sizes_put [of "f x" "(case dget g (f x) of None \<Rightarrow> [] | Some xs \<Rightarrow> xs) @ [x]" g] by (simp add: add_to_group_def)

lemma group_sizes_fold: "group_sizes (fold (add_to_group f) xs g) = group_sizes g + length xs"
  by (induction xs arbitrary: g) (simp_all add: group_sizes_add)

lemma groups_ok: "dict_ok g \<Longrightarrow> dict_ok (fold (add_to_group f) xs g)"
  by (induction xs arbitrary: g) (auto simp: add_to_group_def)

lemma groups_hold:
  "dget (fold (add_to_group f) xs g) k =
     (if filter (\<lambda>x. f x = k) xs = [] then dget g k
      else Some ((case dget g k of None \<Rightarrow> [] | Some ys \<Rightarrow> ys) @ filter (\<lambda>x. f x = k) xs))"
proof (induction xs arbitrary: g)
  case (Cons x xs)
  have "dget (add_to_group f x g) k =
      (if f x = k then Some ((case dget g k of None \<Rightarrow> [] | Some ys \<Rightarrow> ys) @ [x]) else dget g k)"
    by (auto simp: add_to_group_def)
  with Cons.IH [of "add_to_group f x g"] show ?case by (cases "f x = k") simp_all
qed simp

lemma sum_sort_key: "sum_list (map h (sort_key f xs)) = (sum_list (map h xs) :: nat)"
  by (metis mset_map mset_sort sum_mset_sum_list)

lemma regime_counts: "sum_list (map rp_trade_count (analyze_regime_performance trades intervals)) = length trades"
proof -
  have "map rp_trade_count (analyze_regime_performance trades intervals) =
      map (\<lambda>x. length (snd x)) (sort_key fst (fold (add_to_group (label_for_trade intervals)) trades []))"
    by (simp add: analyze_regime_performance_def regime_performance_of_def comp_def)
  then have "sum_list (map rp_trade_count (analyze_regime_performance trades intervals)) =
      group_sizes (fold (add_to_group (label_for_trade intervals)) trades [])"
    by (simp only: sum_sort_key group_sizes_def)
  then show ?thesis by (simp only: group_sizes_fold) (simp add: group_sizes_def)
qed

lemma regime_rows:
  assumes "p \<in> set (analyze_regime_performance trades intervals)"
  shows "rp_trade_count p = length (filter (\<lambda>t. label_for_trade intervals t = rp_label p) trades) \<and> 0 < rp_trade_count p"
proof -
  let ?g = "fold (add_to_group (label_for_trade intervals)) trades []"
  obtain g where g: "g \<in> set ?g" "p = regime_performance_of g"
    using assms by (auto simp: analyze_regime_performance_def)
  have "dict_ok ?g" by (rule groups_ok) simp
  then have "dget ?g (fst g) = Some (snd g)" using g(1) by (cases g) (simp add: dict_ok_def)
  then have "snd g = filter (\<lambda>t. label_for_trade intervals t = fst g) trades" "snd g \<noteq> []"
    by (auto simp: groups_hold split: if_splits)
  then show ?thesis by (simp add: g(2) regime_performance_of_def)
qed

subsection \<open>Forward observations\<close>

definition forward_inv :: "(string, forward_observation) dict \<Rightarrow> bool" where
  "forward_inv d \<longleftrightarrow> keyed fo_signal_id d"

lemma forward_cases:
  "forward_record x d =
     (case dget d (fo_signal_id x) of
        Some old \<Rightarrow> if old = x then (dput (fo_signal_id x) x d, Inr ())
                    else (d, Inl (ValueError (''conflicting forward observation: '' @ fo_signal_id x)))
      | None \<Rightarrow> (dput (fo_signal_id x) x d, Inr ()))"
  by (simp add: forward_record_def split: option.split)

interpretation forward: append_only_store forward_record dget fo_signal_id "(=)" forward_inv
proof (unfold_locales, goal_cases)
  case (1 s e) then show ?case
    by (cases "dget s (fo_signal_id e)") (simp_all add: forward_cases forward_inv_def keyed_dput)
next
  case (2 s e b) then show ?case by (cases "dget s (fo_signal_id e)") (simp_all add: forward_cases split: if_splits)
next
  case (3 s k e) then show ?case by (cases "dget s (fo_signal_id e)") (simp_all add: forward_cases)
next
  case (4 s e e') then show ?case by (simp add: forward_cases)
next
  case (5 s e e') then show ?case by (simp add: forward_cases)
next
  case (6 s e x) then show ?case by (cases "dget s (fo_signal_id e)") (simp_all add: forward_cases split: if_splits)
next
  case (7 s k e) then show ?case unfolding forward_inv_def by (rule keyed_dget)
qed simp

lemma forward_report_bounds:
  "fr_resolved (forward_report_of d) \<le> fr_risk_approved (forward_report_of d) \<and>
   fr_risk_approved (forward_report_of d) \<le> fr_total (forward_report_of d) \<and> fr_total (forward_report_of d) = length d \<and>
   fr_paper (forward_report_of d) + fr_shadow (forward_report_of d) = length d \<and>
   0 \<le> fr_hit_rate (forward_report_of d) \<and> fr_hit_rate (forward_report_of d) \<le> 100"
proof -
  let ?rows = "sort_key (\<lambda>x. instant (fo_timestamp x)) (map snd d)"
  let ?resolved = "filter (\<lambda>x. fo_risk_approved x \<and> fo_outcome x \<noteq> None) ?rows"
  have sub: "length (filter (\<lambda>x. P x \<and> Q x) xs) \<le> length (filter P xs)" for P Q and xs :: "forward_observation list"
    by (induction xs) auto
  have "length (filter (\<lambda>x. fo_mode x = FORWARD_PAPER) xs) + length (filter (\<lambda>x. fo_mode x = FORWARD_SHADOW) xs) = length xs" for xs
  proof (induction xs)
    case (Cons x xs) then show ?case by (cases "fo_mode x") auto
  qed simp
  from this [of ?rows] have modes: "fr_paper (forward_report_of d) + fr_shadow (forward_report_of d) = length d"
    by (simp add: forward_report_of_def Let_def)
  have rate: "0 \<le> fr_hit_rate (forward_report_of d) \<and> fr_hit_rate (forward_report_of d) \<le> 100"
  proof (cases "?resolved = []")
    case True
    then show ?thesis unfolding forward_report_of_def Let_def by (simp only: if_True forward_report.simps) simp
  next
    case False
    have "length (filter (\<lambda>x. 0 < x) (map (\<lambda>x. the (fo_outcome x)) ?resolved)) \<le> length ?resolved"
      using length_filter_le [of "\<lambda>x. 0 < x" "map (\<lambda>x. the (fo_outcome x)) ?resolved"] by (simp only: length_map)
    then have le: "(of_nat (length (filter (\<lambda>x. 0 < x) (map (\<lambda>x. the (fo_outcome x)) ?resolved))) :: rat) \<le> of_nat (length ?resolved)"
      by (simp only: of_nat_le_iff)
    have pos: "(0 :: rat) < of_nat (length ?resolved)" using False by (simp only: of_nat_0_less_iff length_greater_0_conv not_False_eq_True)
    show ?thesis using False percent_range [OF _ le pos]
      unfolding forward_report_of_def Let_def by (simp only: if_False forward_report.simps of_nat_0_le_iff)
  qed
  show ?thesis using modes rate sub [of fo_risk_approved "\<lambda>x. fo_outcome x \<noteq> None" ?rows] length_filter_le [of fo_risk_approved ?rows]
    by (simp add: forward_report_of_def Let_def)
qed

end
