(* ===== verification/Research_Properties.thy ===== *)
theory Research_Properties
  imports Strategy_Validation Examples Backtest_Examples
begin

section \<open>Properties of research and strategy validation\<close>

text \<open>
  What the search, the registries, the out-of-sample split, the gate and the calibration of its thresholds promise, each
  with a closed instance.
\<close>

subsection \<open>The search\<close>

definition ex_two_five :: parameter_value where
  "ex_two_five = PDecimal \<lparr>dl_negative = False, dl_coefficient = 25, dl_exponent = - 1\<rparr>"

definition ex_three :: parameter_value where
  "ex_three = PDecimal \<lparr>dl_negative = False, dl_coefficient = 3, dl_exponent = 0\<rparr>"

definition ex_ninety :: parameter_value where
  "ex_ninety = PDecimal \<lparr>dl_negative = False, dl_coefficient = 90, dl_exponent = 0\<rparr>"

definition ex_space :: parameter_space where
  "ex_space = \<lparr>sp_definitions =
     [\<lparr>pd_name = ''min_rr'', pd_values = [ex_two_five, ex_three], pd_role = STRATEGY_RULE\<rparr>,
      \<lparr>pd_name = ''min_score'', pd_values = [ex_ninety], pd_role = STRATEGY_RULE\<rparr>]\<rparr>"

lemma ex_space_ok: "space_ok (sp_definitions ex_space)"
  by (simp add: space_ok_def ex_space_def ex_two_five_def ex_three_def ex_ninety_def)

definition ex_sample :: "int \<Rightarrow> nat \<Rightarrow> nat \<Rightarrow> nat list" where
  "ex_sample seed n k = rev [0..<k]"




definition ex_research :: research_env where
  "ex_research = \<lparr>re_sha = (\<lambda>j. ''''), re_txt = (\<lambda>x. ''''), re_sample = ex_sample, re_hash_text = (\<lambda>s. s), re_policy = default_rules\<rparr>"

definition ex_spec :: experiment_spec where
  "ex_spec = \<lparr>xs_name = ''rr'', xs_strategy_version = ''v1'',
     xs_datasets = \<lparr>dm_training = ''a'', dm_validation = None, dm_holdout = None\<rparr>, xs_space = ex_space,
     xs_objective = TOTAL_RETURN_PERCENT, xs_search = GRID, xs_seed = 42, xs_max_trials = 100,
     xs_constraints = \<lparr>rcn_min_trades = 1, rcn_max_drawdown = Some 20, rcn_min_profit_factor = None, rcn_min_oos_windows = 0,
       rcn_max_degradation = None\<rparr>\<rparr>"

definition ex_evaluate :: "parameter_set \<Rightarrow> research_evaluation res" where
  "ex_evaluate p = Inr \<lparr>rv_summary = \<lparr>es_total_return = (if set_get p ''min_rr'' = Some ex_three then 7 else 4),
     es_max_drawdown = 10, es_win_rate = 50, es_profit_factor = Infinite_Factor, es_trade_count = 9, es_rejected_signals = 0,
     es_window_count = 0\<rparr>, rv_windows = []\<rparr>"

definition ex_trial :: "parameter_value \<Rightarrow> rat \<Rightarrow> trial_result" where
  "ex_trial v ret =
     (let p = \<lparr>ps_values = [(''min_rr'', v), (''min_score'', ex_ninety)]\<rparr>;
          e = \<lparr>rv_summary = \<lparr>es_total_return = ret, es_max_drawdown = 10, es_win_rate = 50, es_profit_factor = Infinite_Factor,
            es_trade_count = 9, es_rejected_signals = 0, es_window_count = 0\<rparr>, rv_windows = []\<rparr> in
      \<lparr>tr_id = '':'', tr_parameters = p, tr_training = e, tr_validation = None, tr_training_objective = ret,
       tr_selection_objective = ret, tr_degradation = None, tr_feasible = True, tr_violations = []\<rparr>)"

lemmas ex_values = ex_two_five_def ex_three_def ex_ninety_def dec_value_def p10_def

lemma ex_validated:
  "validate_space default_rules ex_space = Inr ()"
  "validate_set default_rules \<lparr>ps_values = [(''min_rr'', ex_two_five), (''min_score'', ex_ninety)]\<rparr> = Inr ()"
  "validate_set default_rules \<lparr>ps_values = [(''min_rr'', ex_three), (''min_score'', ex_ninety)]\<rparr> = Inr ()"
  by (simp_all add: validate_space_def validate_definition_def validate_set_def validate_named_def validate_value_def
      allowed_parameters_def ex_space_def ex_values default_rules_def)

lemma ex_grid: "enumerate_parameter_sets ex_sample ex_space GRID 100 42 =
  Inr [\<lparr>ps_values = [(''min_rr'', ex_two_five), (''min_score'', ex_ninety)]\<rparr>,
       \<lparr>ps_values = [(''min_rr'', ex_three), (''min_score'', ex_ninety)]\<rparr>]"
proof -
  have "enumerate_parameter_sets ex_sample ex_space GRID 100 42 = Inr (grid (sp_definitions ex_space))"
    by (rule enumerate_grid [OF ex_space_ok]) (simp_all add: ex_space_def combination_count_def)
  then show ?thesis by (simp add: grid_def ex_space_def)
qed

lemma ex_trials:
  "run_trial ex_research ex_spec ex_evaluate None \<lparr>ps_values = [(''min_rr'', ex_two_five), (''min_score'', ex_ninety)]\<rparr> =
     Inr (ex_trial ex_two_five 4)"
  "run_trial ex_research ex_spec ex_evaluate None \<lparr>ps_values = [(''min_rr'', ex_three), (''min_score'', ex_ninety)]\<rparr> =
     Inr (ex_trial ex_three 7)"
proof -
  have d: "ex_two_five \<noteq> ex_three" by (simp add: ex_two_five_def ex_three_def)
  have policy: "re_policy ex_research = default_rules" by (simp add: ex_research_def)
  show "run_trial ex_research ex_spec ex_evaluate None \<lparr>ps_values = [(''min_rr'', ex_two_five), (''min_score'', ex_ninety)]\<rparr> =
     Inr (ex_trial ex_two_five 4)"
    unfolding run_trial_def policy ex_validated ex_evaluate_def using d
    by (simp add: set_get_def ex_trial_def trial_id_def experiment_id_def stable_key_def ex_research_def ex_spec_def
        objective_value_def constraint_violations_def)
  show "run_trial ex_research ex_spec ex_evaluate None \<lparr>ps_values = [(''min_rr'', ex_three), (''min_score'', ex_ninety)]\<rparr> =
     Inr (ex_trial ex_three 7)"
    unfolding run_trial_def policy ex_validated ex_evaluate_def
    by (simp add: set_get_def ex_trial_def trial_id_def experiment_id_def stable_key_def ex_research_def ex_spec_def
        objective_value_def constraint_violations_def)
qed

definition ex_experiment :: experiment_result where
  "ex_experiment = \<lparr>xr_spec = ex_spec, xr_trials = [ex_trial ex_two_five 4, ex_trial ex_three 7],
     xr_best = Some (ex_trial ex_three 7), xr_created_at = Aware 0\<rparr>"

lemma ex_run: "run_experiment ex_research ex_spec ex_evaluate None (Some (Aware 0)) (Aware 1) = Inr ex_experiment"
proof -
  have parts: "re_policy ex_research = default_rules" "re_sample ex_research = ex_sample" "xs_space ex_spec = ex_space"
    "xs_search ex_spec = GRID" "xs_max_trials ex_spec = 100" "xs_seed ex_spec = 42" "dm_validation (xs_datasets ex_spec) = None"
    by (simp_all add: ex_research_def ex_spec_def)
  have best: "best_trial ex_research [ex_trial ex_two_five 4, ex_trial ex_three 7] = Some (ex_trial ex_three 7)"
    by (simp add: best_trial_def ex_trial_def trial_key_def dneg_def rnd_short)
  show ?thesis unfolding run_experiment_def parts ex_validated ex_grid
    by (simp add: ex_trials best ex_experiment_def)
qed

text \<open>
  C16. Research never loosens the rules of the strategy: the parameters of every trial of a run turn into strategy rules
  whose minimum reward-to-risk ratio, score and confidence are at least those of the declared baseline.
\<close>

theorem research_never_loosens:
  assumes "run_experiment R x train valid created now = Inr r" "t \<in> set (xr_trials r)"
  shows "\<exists>rules. strategy_rules_from_parameters (re_policy R) (re_policy R) (tr_parameters t) = Inr rules \<and>
    rules_within (re_policy R) rules"
proof -
  have "validate_set (re_policy R) (tr_parameters t) = Inr ()"
    using run_experiment_trial [OF assms] by (rule run_trial_Inr(2))
  with rules_from_parameters_total rules_from_parameters_within show ?thesis by blast
qed

theorem research_never_loosens_witness:
  "\<exists>rules. strategy_rules_from_parameters default_rules default_rules (tr_parameters (ex_trial ex_three 7)) = Inr rules \<and>
     rules_within default_rules rules"
  using research_never_loosens [OF ex_run, of "ex_trial ex_three 7"] by (simp add: ex_experiment_def ex_research_def)

text \<open>
  C17. The best trial of a run is one of its trials, breaks no constraint of the specification, and no other feasible
  trial has a higher selection objective; there is none exactly when no trial is feasible.
\<close>

theorem best_trial_is_best:
  assumes "run_experiment R x train valid created now = Inr r"
  shows "(xr_best r = None \<longleftrightarrow> (\<forall>t \<in> set (xr_trials r). tr_violations t \<noteq> [])) \<and>
    (\<forall>b. xr_best r = Some b \<longrightarrow> b \<in> set (xr_trials r) \<and> tr_violations b = [] \<and>
       rcn_min_trades (xs_constraints x) \<le> int (es_trade_count (selection_summary b)) \<and>
       (\<forall>m. rcn_max_drawdown (xs_constraints x) = Some m \<longrightarrow> es_max_drawdown (selection_summary b) \<le> m) \<and>
       (\<forall>t \<in> set (xr_trials r). tr_violations t = [] \<longrightarrow> rnd (tr_selection_objective t) \<le> rnd (tr_selection_objective b)))"
proof -
  have feasible: "tr_feasible t \<longleftrightarrow> tr_violations t = []" if "t \<in> set (xr_trials r)" for t
    using run_experiment_trial [OF assms that] by (rule run_trial_Inr(4))
  have best: "xr_best r = best_trial R (xr_trials r)" using assms by (rule run_experiment_Inr)
  show ?thesis
  proof (intro conjI allI impI)
    show "xr_best r = None \<longleftrightarrow> (\<forall>t \<in> set (xr_trials r). tr_violations t \<noteq> [])"
      unfolding best best_trial_None using feasible by blast
  next
    fix b assume "xr_best r = Some b"
    note b = best_trial_Some [OF this [unfolded best]]
    then have mem: "b \<in> set (xr_trials r)" and ok: "tr_violations b = []" using feasible by auto
    note trial = run_experiment_trial [OF assms mem]
    have "constraint_violations (selection_summary b) (xs_constraints x) (if valid = None then ''training'' else ''validation'') True = []"
      using run_trial_Inr(8) [OF trial] ok by simp
    note k = constraint_violations_none [OF this]
    show "b \<in> set (xr_trials r)" "tr_violations b = []" by (fact mem, fact ok)
    show "rcn_min_trades (xs_constraints x) \<le> int (es_trade_count (selection_summary b))" using k by blast
    show "\<And>m. rcn_max_drawdown (xs_constraints x) = Some m \<Longrightarrow> es_max_drawdown (selection_summary b) \<le> m" using k by blast
    show "\<forall>t \<in> set (xr_trials r). tr_violations t = [] \<longrightarrow> rnd (tr_selection_objective t) \<le> rnd (tr_selection_objective b)"
      using b feasible trial_key_objective by blast
  qed
qed

theorem best_trial_is_best_witness:
  "rnd (tr_selection_objective (ex_trial ex_two_five 4)) \<le> rnd (tr_selection_objective (ex_trial ex_three 7))"
  using best_trial_is_best [OF ex_run] by (simp add: ex_experiment_def ex_trial_def)

text \<open>
  The two registries give the same answers: from registries that hold the same experiments, any sequence of saves has
  the same results, conflicts included, and leaves the same list, and everything the SQLite registry accepted is committed.
\<close>

theorem registries_agree:
  assumes "same_experiments c d"
  shows "snd (save_all sql_save_experiment rows c) = snd (save_all mem_save_experiment rows d) \<and>
    sql_list_experiments (fst (save_all sql_save_experiment rows c)) =
      mem_list_experiments (fst (save_all mem_save_experiment rows d)) \<and>
    ec_committed (fst (save_all sql_save_experiment rows c)) = map snd (fst (save_all mem_save_experiment rows d))"
  using experiments_run [OF assms, of rows] same_experiments_list by (auto simp: same_experiments_def)

definition ex_registry_row :: "string \<Rightarrow> stored_experiment" where
  "ex_registry_row p = \<lparr>se_id = ''id'', se_name = ''rr'', se_version = ''v1'', se_created_at = ''t'', se_payload = JStr p\<rparr>"

theorem registries_agree_witness:
  "snd (save_all sql_save_experiment [ex_registry_row ''a'', ex_registry_row ''a'', ex_registry_row ''b''] \<lparr>ec_committed = [], ec_rows = []\<rparr>) =
     [Inr True, Inr False, Inl experiment_conflict]"
proof -
  have "same_experiments \<lparr>ec_committed = [], ec_rows = []\<rparr> []" by (simp add: same_experiments_def experiments_inv_def)
  from registries_agree [OF this, of "[ex_registry_row ''a'', ex_registry_row ''a'', ex_registry_row ''b'']"] show ?thesis
    by (simp add: mem_save_experiment_def ex_registry_row_def)
qed

text \<open>
  The fingerprint of a dataset does not depend on the order in which its timeframes and its rows are listed: a source
  with the same rows in another order gets the same fingerprint.
\<close>

theorem fingerprint_order_free:
  assumes "dict_ok source" "dict_ok source'" "reordered source source'"
    "fingerprint_candles sha plain stamp symbol source = Inr h"
  shows "fingerprint_candles sha plain stamp symbol source' = Inr h"
  by (rule fingerprint_reordered [OF assms])

theorem fingerprint_order_free_witness:
  "fingerprint_candles (\<lambda>j. ''h'') (\<lambda>x. '''') (\<lambda>t. if t = Aware 0 then ''a'' else ''b'') ''BTC''
     [(''15m'', [bx_candle ''15m'' 15 101, bx_candle ''15m'' 0 100])] = Inr ''h''"
proof -
  let ?a = "[(''15m'', [bx_candle ''15m'' 0 100, bx_candle ''15m'' 15 101])]"
    and ?b = "[(''15m'', [bx_candle ''15m'' 15 101, bx_candle ''15m'' 0 100])]"
    and ?stamp = "\<lambda>t. if t = Aware 0 then ''a'' else ''b''"
  have ok: "dict_ok ?a" "dict_ok ?b" "reordered ?a ?b" by (simp_all add: dict_ok_def reordered_def)
  have "fingerprint_candles (\<lambda>j. ''h'') (\<lambda>x. '''') ?stamp ''BTC'' ?a = Inr ''h''"
    by (simp add: fingerprint_candles_def prepare_rows_def ordered_def bx_candle_def strip_def is_space_def)
  from fingerprint_order_free [OF ok this] show ?thesis .
qed

subsection \<open>Out of sample\<close>

text \<open>
  Training, validation and holdout do not overlap: the segments of the split follow one another, a trade of the
  validation run is entered no earlier than its segment and left at most one bar after it, and a trade of the holdout run is
  entered after the last validation bar.
\<close>

theorem holdout_untouched:
  assumes "run_out_of_sample_validation symbol source train validation cfg rules ids = Inr r"
  shows "instant (cs_train_end (ov_split r)) < instant (cs_validation_start (ov_split r)) \<and>
    instant (cs_validation_end (ov_split r)) < instant (cs_holdout_start (ov_split r)) \<and>
    (\<forall>d \<in> set (br_trades (ov_validation r)). instant (cs_train_end (ov_split r)) < instant (td_entry_time d) \<and>
       instant (td_exit_time d) \<le> instant (cs_validation_end (ov_split r)) + quarter_hour) \<and>
    (\<forall>d \<in> set (br_trades (ov_holdout r)). instant (cs_validation_end (ov_split r)) < instant (td_entry_time d))"
proof -
  obtain anchor where a: "build_chronological_split anchor train validation = Inr (ov_split r)"
    using out_of_sample_segments [OF assms] by blast
  from out_of_sample_segments [OF assms] split_order [OF a] show ?thesis by force
qed

theorem holdout_untouched_witness:
  "\<exists>r. run_out_of_sample_validation ''BTC'' (bx_source [100, 101, 102]) 1 1 default_bt_config default_rules (\<lambda>_. ''id'') = Inr r \<and>
    (\<forall>d \<in> set (br_trades (ov_holdout r)). instant (cs_validation_end (ov_split r)) < instant (td_entry_time d))"
proof -
  let ?src = "bx_source [100, 101, 102]" and ?t = "\<lambda>m. Aware (m * 60 * 10 ^ 6)"
  let ?run = "run_out_of_sample_validation ''BTC'' ?src 1 1 default_bt_config default_rules (\<lambda>_. ''id'')"
  let ?split = "\<lparr>cs_train_start = ?t 0, cs_train_end = ?t 0, cs_validation_start = ?t 15, cs_validation_end = ?t 15,
    cs_holdout_start = ?t 30, cs_holdout_end = ?t 30\<rparr>"
  have rows: "dget ?src ''15m'' = Some [bx_candle ''15m'' 0 100, bx_candle ''15m'' 15 101, bx_candle ''15m'' 30 102]"
    by (simp add: bx_source_def enumerate_eq_zip)
  have anchor: "filter (\<lambda>c. cd_symbol c = ''BTC'') [bx_candle ''15m'' 0 100, bx_candle ''15m'' 15 101, bx_candle ''15m'' 30 102] =
      [bx_candle ''15m'' 0 100, bx_candle ''15m'' 15 101, bx_candle ''15m'' 30 102]" by (simp add: bx_candle_def)
  have split: "build_chronological_split [bx_candle ''15m'' 0 100, bx_candle ''15m'' 15 101, bx_candle ''15m'' 30 102] 1 1 = Inr ?split"
    by (simp add: build_chronological_split_def ordered_def bx_candle_def)
  have history: "history_until ''BTC'' (?t 0) ?src = bx_source [100]" "history_until ''BTC'' (?t 15) ?src = bx_source [100, 101]"
    "history_until ''BTC'' (?t 30) ?src = ?src"
    by (simp_all add: history_until_def bx_source_def bx_candle_def ordered_def enumerate_eq_zip)
  obtain r1 e1 where r1: "engine_run bx_engine ''BTC'' (bx_source [100]) None = Inr (r1, e1)" by (rule bx_run)
  obtain r2 e2 where r2: "engine_run bx_engine ''BTC'' (bx_source [100, 101]) (Some (?t 15)) = Inr (r2, e2)" by (rule bx_run_longer)
  obtain r3 e3 where r3: "engine_run bx_engine ''BTC'' ?src (Some (?t 30)) = Inr (r3, e3)" by (rule bx_run_longest)
  have "?run = Inr \<lparr>ov_split = ?split, ov_training = r1, ov_validation = r2, ov_holdout = r3\<rparr>"
    using r1 r2 r3 unfolding run_out_of_sample_validation_def rows option.case anchor Let_def split res_bind_simps
      chronological_split.simps history backtest_with_def bx_make by simp
  with holdout_untouched [OF this] show ?thesis by blast
qed

subsection \<open>The gate and its thresholds\<close>

definition ex_calibrator :: calibrator_env where
  "ex_calibrator = \<lparr>ce_sha = (\<lambda>j. ''''), ce_txt = (\<lambda>x. ''''), ce_stamp = (\<lambda>t. '''')\<rparr>"

definition ex_baseline :: validation_policy where
  "ex_baseline = default_validation_policy\<lparr>po_min_oos_trades := 0, po_min_windows := 1, po_min_regimes := 0, po_min_forward := 1\<rparr>"

definition ex_calibration :: calibration_config where
  "ex_calibration = \<lparr>cc_min_samples = 1, cc_min_metric_samples = 1, cc_lower = 25 / 100, cc_upper = 75 / 100\<rparr>"

definition ex_observation :: "xdec \<Rightarrow> string \<Rightarrow> calibration_observation" where
  "ex_observation factor n = \<lparr>ca_sample_id = n, ca_as_of = Aware 0, ca_oos_return = Some 5, ca_oos_profit_factor = Some factor,
     ca_oos_drawdown = Some 10, ca_profitable_ratio = Some 1, ca_mc_median = Some 3, ca_mc_drawdown = Some 20,
     ca_cost_degradation = Some 10, ca_spread = Some (1 / 10), ca_feasible_ratio = Some 1, ca_hit_rate = Some 60,
     ca_forward_mean = Some 1\<rparr>"

definition ex_tightened :: validation_policy where
  "ex_tightened = ex_baseline\<lparr>po_min_oos_return := 5, po_min_oos_profit_factor := Fin 2, po_max_oos_drawdown := 10,
     po_min_profitable_ratio := 1, po_min_mc_median := 3, po_max_mc_drawdown := 20, po_max_cost_degradation := 10,
     po_max_spread := 1 / 10, po_min_feasible_ratio := 1, po_min_hit_rate := 60, po_min_forward_mean := 1\<rparr>"

lemma ex_calibrated:
  "\<exists>r. calibrate ex_calibrator ex_baseline ex_calibration [ex_observation (Fin 2) ''s''] None = Inr r \<and>
     cl_policy r = Some ex_tightened \<and> cl_status r = CALIBRATED"
proof -
  let ?xs = "[ex_observation (Fin 2) ''s'']"
  have q: "quantile [v] p = Inr v" for v p by (simp add: quantile_def)
  have m: "calibrate_metric ex_calibration \<lparr>mi_name = n, mi_direction = d, mi_baseline = b, mi_values = [v], mi_quantile = p\<rparr> =
      Inr (Some \<lparr>ct_name = n, ct_direction = d, ct_baseline = b, ct_empirical = v,
        ct_applied = (case d of HIGHER_IS_BETTER \<Rightarrow> max b v | LOWER_IS_BETTER \<Rightarrow> min b v), ct_sample_count = 1\<rparr>)" for n d b v p
    by (cases d) (simp_all add: calibrate_metric_def ex_calibration_def q)
  have e: "eligible None ?xs = ?xs" by (simp add: eligible_def)
  have v: "found_values [Some y] = [y]" for y :: 'b by (simp add: found_values_def)
  show ?thesis unfolding calibrate_def e Let_def
    by (simp add: metric_inputs_def Let_def ex_observation_def v m metric_reason_def)
      (simp add: found_values_def applied_policy_def Let_def finite_value_def applied_value_def ex_calibration_def
        policy_make_def guard_def ex_baseline_def ex_tightened_def default_validation_policy_def)
qed

definition ex_bt_result :: bt_result where
  "ex_bt_result = \<lparr>br_initial_equity = 1, br_final_equity = 1, br_trades = [], br_rejected_signals = 0, br_open_positions_at_end = 0,
     br_max_drawdown_percent = 10, br_win_rate_percent = 0, br_profit_factor = Profit_Factor 2, br_total_return_percent = 5,
     br_max_concurrent_positions = 0\<rparr>"

definition ex_evidence :: validation_evidence where
  "ex_evidence = \<lparr>ev_holdout = Some ex_bt_result, ev_walk_forward = Some [ex_bt_result],
     ev_monte_carlo = Some \<lparr>mc_simulations = 1, mc_initial_equity = 1, mc_median_final = 1, mc_worst_final = 1, mc_best_final = 1,
       mc_median_return = 3, mc_worst_return = 3, mc_best_return = 3, mc_median_drawdown = 20, mc_worst_drawdown = 20\<rparr>,
     ev_cost_stress = Some \<lparr>sr_baseline = ex_bt_result, sr_outcomes = [\<lparr>so_scenario = \<lparr>sn_name = ''x'', sn_commission = 0, sn_spread = 0,
       sn_slippage = 0, sn_funding = 0\<rparr>, so_result = ex_bt_result, so_degradation = 10, so_drawdown_increase = 0\<rparr>]\<rparr>,
     ev_stability = Some \<lparr>rs_feasible_ratio = 1, rs_items = [\<lparr>si_name = ''p'', si_spread = 1 / 10, si_stable = True\<rparr>]\<rparr>,
     ev_regime = Some [],
     ev_forward = Some \<lparr>fr_total = 1, fr_resolved = 1, fr_risk_approved = 1, fr_hit_rate = 60, fr_mean_return = 1, fr_max_losses = 0,
       fr_paper = 1, fr_shadow = 0\<rparr>\<rparr>"

text \<open>
  C13. Calibration only tightens the gate: a strategy whose evidence qualifies under the policy of a calibration report
  qualifies under the baseline the report was made from.
\<close>

theorem calibrated_gate_never_looser:
  assumes "calibrate V b c source cutoff = Inr r" "engine_from_calibration r = Inr p"
    "validation_decision_of (qualification_evaluate txt p e) = QUALIFIED"
  shows "validation_decision_of (qualification_evaluate txt b e) = QUALIFIED"
proof -
  have "cl_policy r = Some p" using assms(2)
    by (auto simp: engine_from_calibration_def require_policy_def split: option.splits calibration_status.splits)
  with assms(1) have "at_least_as_strict p b" by (rule calibrated_strict)
  then show ?thesis using assms(3) by (rule qualified_mono)
qed

theorem calibrated_gate_never_looser_witness:
  "validation_decision_of (qualification_evaluate (\<lambda>x. '''') ex_baseline ex_evidence) = QUALIFIED"
proof -
  obtain r where r: "calibrate ex_calibrator ex_baseline ex_calibration [ex_observation (Fin 2) ''s''] None = Inr r"
    "cl_policy r = Some ex_tightened" "cl_status r = CALIBRATED" using ex_calibrated by blast
  have p: "engine_from_calibration r = Inr ex_tightened" using r(2,3) by (simp add: engine_from_calibration_def require_policy_def)
  have "validation_decision_of (qualification_evaluate (\<lambda>x. '''') ex_tightened ex_evidence) = QUALIFIED"
    unfolding qualified_iff
    by (simp add: qualification_evaluate_def check_holdout_def check_walk_forward_def check_monte_carlo_def
        check_cost_stress_def check_parameter_stability_def check_regimes_def check_forward_def ex_evidence_def ex_bt_result_def
        ex_tightened_def ex_baseline_def default_validation_policy_def profitable_ratio_def worst_degradation_def max_spread_of_def
        research_stable_def qualified_regime_count_def ddiv_def Let_def)
  with calibrated_gate_never_looser [OF r(1) p] show ?thesis by blast
qed

text \<open>
  C14. Calibration returns: for observations that passed their constructor, have distinct ids and finite profit factors, a
  valid configuration and a valid baseline, every quantile is interpolated inside its list and the tightened policy is again
  within its bounds, whatever the rounding.
\<close>

theorem calibration_returns:
  assumes "distinct (map ca_sample_id source)" "\<forall>t. cutoff = Some t \<longrightarrow> is_aware t" "\<forall>x \<in> set source. observation_ok x"
    "length source < 10 ^ 28" "calibration_config_make c = Inr c" "policy_make b = Inr b"
  shows "\<exists>r. calibrate V b c source cutoff = Inr r \<and> (cl_policy r = None \<longleftrightarrow> cl_status r = CALIBRATION_HOLD)"
  using calibrate_total [OF assms] calibrate_Inr by blast

lemma ex_made: "calibration_config_make ex_calibration = Inr ex_calibration" "policy_make ex_baseline = Inr ex_baseline"
  by (simp_all add: calibration_config_make_def ex_calibration_def guard_def policy_make_def ex_baseline_def default_validation_policy_def)

theorem calibration_returns_witness:
  "\<exists>r. calibrate ex_calibrator ex_baseline ex_calibration [ex_observation (Fin 2) ''s'', ex_observation (Fin 3) ''t''] (Some (Aware 9)) = Inr r"
proof -
  have "\<forall>x \<in> set [ex_observation (Fin 2) ''s'', ex_observation (Fin 3) ''t'']. observation_ok x"
    by (simp add: observation_ok_def calibration_observation_make_def guard_def ex_observation_def found_values_def outside_def
        strip_def is_space_def)
  with calibration_returns [of "[ex_observation (Fin 2) ''s'', ex_observation (Fin 3) ''t'']" "Some (Aware 9)" ex_calibration ex_baseline ex_calibrator]
  show ?thesis using ex_made by (auto simp: ex_observation_def)
qed

text \<open>
  Calibration fails on flawless cohorts: when every strategy of the cohort has an infinite profit factor (no losing
  trade), interpolating the quantile subtracts infinity from infinity, and calibration raises instead of returning a report.
\<close>

theorem infinite_factors_block_calibration:
  assumes "distinct (map ca_sample_id source)" "\<forall>x \<in> set source. ca_oos_profit_factor x = Some PInf" "2 \<le> length source"
    "length source < 10 ^ 28" "cc_min_metric_samples c \<le> int (length source)" "calibration_config_make c = Inr c"
  shows "calibrate V b c source None = Inl (OtherError ''InvalidOperation'')"
  using calibrate_infinite [OF assms] by (simp add: invalid_operation_def)

theorem infinite_factors_block_calibration_witness:
  "calibrate ex_calibrator ex_baseline ex_calibration [ex_observation PInf ''s'', ex_observation PInf ''t''] None =
     Inl (OtherError ''InvalidOperation'')"
  by (rule infinite_factors_block_calibration) (use ex_made in \<open>simp_all add: ex_observation_def ex_calibration_def\<close>)

text \<open>
  Every trade counts in exactly one regime: each row of the report has the trades its label was given to, at least
  one, and the rows together have all of them.
\<close>

theorem regimes_partition_trades:
  "sum_list (map rp_trade_count (analyze_regime_performance trades intervals)) = length trades \<and>
   list_all (\<lambda>p. rp_trade_count p = length (filter (\<lambda>t. label_for_trade intervals t = rp_label p) trades) \<and> 0 < rp_trade_count p)
     (analyze_regime_performance trades intervals)"
  unfolding list_all_iff using regime_counts regime_rows by blast

end
