(* ===== verification/Qualification.thy ===== *)
theory Qualification
  imports Strategy_Validation Parameter_Stability
begin

section \<open>Qualification of backtests\<close>

text \<open>
  The evidence a strategy needs before it counts as qualified, \<^verbatim>\<open>app/backtest/\<close>: cost stress (\<^verbatim>\<open>cost_robustness.py\<close>), stability
  over regimes and time (\<^verbatim>\<open>regime_time_robustness.py\<close>), the matrix of a thousand experiments (\<^verbatim>\<open>qualification_matrix.py\<close>), the
  statistics of a batch of runs (\<^verbatim>\<open>qualification_batch.py\<close>) and the final decision (\<^verbatim>\<open>final_qualification.py\<close>). Decimals are
  finite here, so the \<^verbatim>\<open>is_finite()\<close> checks have no branch. The digest \<open>sha\<close> of a JSON value (SHA-256 of its canonical text) and
  the plain text \<open>plain\<close> of a decimal (\<^verbatim>\<open>format(value, "f")\<close>) are arguments.
\<close>

subsection \<open>Cost stress\<close>

record cost_assumption =
  cs_scenario_id :: string
  cs_fee :: rat
  cs_funding :: rat
  cs_slippage :: rat
  cs_impact :: rat

definition cost_assumption_make :: "cost_assumption \<Rightarrow> cost_assumption res" where
  "cost_assumption_make a =
     guard (strip (cs_scenario_id a) = []) (ValueError ''scenario_id must be non-empty'')
     (guard (cs_fee a < 0) (ValueError ''fee_percent must be non-negative'')
     (guard (cs_slippage a < 0) (ValueError ''slippage_percent must be non-negative'')
     (guard (cs_impact a < 0) (ValueError ''market_impact_percent must be non-negative'') (Inr a))))"

definition total_cost_percent :: "cost_assumption \<Rightarrow> rat" where
  "total_cost_percent a = dadd (dadd (dadd (cs_fee a) (cs_funding a)) (cs_slippage a)) (cs_impact a)"

record cost_thresholds =
  ch_min_count :: int
  ch_min_fraction :: rat
  ch_max_degradation :: rat
  ch_min_net_edge :: rat
  ch_max_scenarios :: int

definition default_cost_thresholds :: cost_thresholds where
  "default_cost_thresholds =
     \<lparr>ch_min_count = 4, ch_min_fraction = 1, ch_max_degradation = 60, ch_min_net_edge = 0, ch_max_scenarios = 512\<rparr>"

definition cost_thresholds_make :: "cost_thresholds \<Rightarrow> cost_thresholds res" where
  "cost_thresholds_make t =
     guard (ch_min_count t < 1) (ValueError ''min_scenario_count must be positive'')
     (guard (ch_max_scenarios t < 1 \<or> 100000 < ch_max_scenarios t) (ValueError ''max_scenarios must be in [1, 100000]'')
     (guard (ch_max_scenarios t < ch_min_count t) (ValueError ''min_scenario_count must not exceed max_scenarios'')
     (guard (\<not> (0 \<le> ch_min_fraction t \<and> ch_min_fraction t \<le> 1)) (ValueError ''min_stable_scenario_fraction must be in [0, 1]'')
     (guard (ch_max_degradation t < 0) (ValueError ''max_net_edge_degradation_percent must be non-negative'') (Inr t)))))"

record cost_result =
  cz_scenario_id :: string
  cz_total_cost :: rat
  cz_net_edge :: rat
  cz_degradation :: rat
  cz_retained :: rat
  cz_fee_increase :: rat
  cz_funding_increase :: rat
  cz_slippage_increase :: rat
  cz_impact_increase :: rat
  cz_passed :: bool

record cost_report =
  cq_gross_edge :: rat
  cq_baseline_cost :: rat
  cq_baseline_net :: rat
  cq_results :: "cost_result list"
  cq_fraction :: rat
  cq_worst_net :: rat
  cq_worst_degradation :: rat
  cq_passed :: bool
  cq_fingerprint :: string

definition assumption_from_backtest_model :: "cost_model \<Rightarrow> string \<Rightarrow> int \<Rightarrow> rat \<Rightarrow> string \<Rightarrow> cost_assumption res" where
  "assumption_from_backtest_model model direction held_minutes impact scenario_id =
     guard (held_minutes < 0) (ValueError ''held_minutes must be non-negative'')
     (guard (direction \<notin> {''LONG'', ''SHORT''}) (ValueError (''Unsupported direction: '' @ direction))
     (let funding = ddiv (dmul (cm_funding_rate model) (of_int held_minutes)) 1440;
          signed = (if direction = ''SHORT'' then dneg funding else funding)
      in cost_assumption_make
           \<lparr>cs_scenario_id = scenario_id, cs_fee = dmul (cm_commission model) 2, cs_funding = signed,
            cs_slippage = dmul (cm_slippage model) 2, cs_impact = impact\<rparr>))"

definition stress_improves :: "string \<Rightarrow> string \<Rightarrow> exn" where
  "stress_improves scenario_id name =
     ValueError (''stress scenario '' @ [CHR 0x27] @ scenario_id @ [CHR 0x27] @ '' improves '' @ name @
       ''; cost stress must be adverse or equal'')"

definition require_adverse_or_equal :: "cost_assumption \<Rightarrow> cost_assumption \<Rightarrow> unit res" where
  "require_adverse_or_equal b s =
     guard (cs_fee s < cs_fee b) (stress_improves (cs_scenario_id s) ''fee_percent'')
     (guard (cs_funding s < cs_funding b) (stress_improves (cs_scenario_id s) ''funding_percent'')
     (guard (cs_slippage s < cs_slippage b) (stress_improves (cs_scenario_id s) ''slippage_percent'')
     (guard (cs_impact s < cs_impact b) (stress_improves (cs_scenario_id s) ''market_impact_percent'') (Inr ()))))"

definition cost_result_json :: "(rat \<Rightarrow> string) \<Rightarrow> cost_result \<Rightarrow> json" where
  "cost_result_json plain x =
     JObj [(''scenario_id'', JStr (cz_scenario_id x)), (''total_cost_percent'', JStr (plain (cz_total_cost x))),
       (''net_edge_percent'', JStr (plain (cz_net_edge x))), (''net_edge_degradation_percent'', JStr (plain (cz_degradation x))),
       (''retained_net_edge_fraction'', JStr (plain (cz_retained x))), (''fee_increase_percent'', JStr (plain (cz_fee_increase x))),
       (''funding_increase_percent'', JStr (plain (cz_funding_increase x))),
       (''slippage_increase_percent'', JStr (plain (cz_slippage_increase x))),
       (''market_impact_increase_percent'', JStr (plain (cz_impact_increase x))), (''passed'', JBool (cz_passed x))]"

definition cost_fingerprint ::
  "(json \<Rightarrow> string) \<Rightarrow> (rat \<Rightarrow> string) \<Rightarrow> rat \<Rightarrow> cost_assumption \<Rightarrow> cost_thresholds \<Rightarrow> cost_result list \<Rightarrow> rat \<Rightarrow> rat \<Rightarrow> rat \<Rightarrow> bool \<Rightarrow> string" where
  "cost_fingerprint sha plain gross b t results fraction worst_net worst_degr passed =
     sha (JObj
       [(''gross_edge_percent'', JStr (plain gross)),
        (''baseline'', JObj
          [(''scenario_id'', JStr (cs_scenario_id b)), (''fee_percent'', JStr (plain (cs_fee b))),
           (''funding_percent'', JStr (plain (cs_funding b))), (''slippage_percent'', JStr (plain (cs_slippage b))),
           (''market_impact_percent'', JStr (plain (cs_impact b))), (''total_cost_percent'', JStr (plain (total_cost_percent b)))]),
        (''thresholds'', JObj
          [(''min_scenario_count'', JNum (of_int (ch_min_count t))), (''min_stable_scenario_fraction'', JStr (plain (ch_min_fraction t))),
           (''max_net_edge_degradation_percent'', JStr (plain (ch_max_degradation t))),
           (''min_net_edge_percent'', JStr (plain (ch_min_net_edge t))), (''max_scenarios'', JNum (of_int (ch_max_scenarios t)))]),
        (''stable_scenario_fraction'', JStr (plain fraction)), (''worst_net_edge_percent'', JStr (plain worst_net)),
        (''worst_net_edge_degradation_percent'', JStr (plain worst_degr)), (''passed'', JBool passed),
        (''scenarios'', JList (map (cost_result_json plain) results))])"

definition cost_scenario_result :: "rat \<Rightarrow> cost_assumption \<Rightarrow> cost_thresholds \<Rightarrow> rat \<Rightarrow> cost_assumption \<Rightarrow> cost_result res" where
  "cost_scenario_result gross b t baseline_net s =
     res_bind (require_adverse_or_equal b s) (\<lambda>_.
     (let net = dsub gross (total_cost_percent s);
          degradation = max 0 (dmul (ddiv (dsub baseline_net net) baseline_net) 100)
      in Inr \<lparr>cz_scenario_id = cs_scenario_id s, cz_total_cost = total_cost_percent s, cz_net_edge = net,
           cz_degradation = degradation, cz_retained = ddiv net baseline_net,
           cz_fee_increase = dsub (cs_fee s) (cs_fee b), cz_funding_increase = dsub (cs_funding s) (cs_funding b),
           cz_slippage_increase = dsub (cs_slippage s) (cs_slippage b), cz_impact_increase = dsub (cs_impact s) (cs_impact b),
           cz_passed = (ch_min_net_edge t \<le> net \<and> degradation \<le> ch_max_degradation t)\<rparr>))"

definition qualify_cost_robustness ::
  "(json \<Rightarrow> string) \<Rightarrow> (rat \<Rightarrow> string) \<Rightarrow> rat \<Rightarrow> cost_assumption \<Rightarrow> cost_assumption list \<Rightarrow> cost_thresholds \<Rightarrow> cost_report res" where
  "qualify_cost_robustness sha plain gross b scenarios t =
     guard (gross \<le> 0) (ValueError ''gross_edge_percent must be positive'')
     (guard (int (length scenarios) < ch_min_count t) (ValueError ''insufficient cost stress scenarios'')
     (guard (ch_max_scenarios t < int (length scenarios)) (ValueError ''cost stress scenario count exceeds max_scenarios'')
     (guard (\<not> distinct (map cs_scenario_id scenarios)) (ValueError ''stress scenario_id values must be unique'')
     (guard (cs_scenario_id b \<in> set (map cs_scenario_id scenarios))
       (ValueError ''baseline scenario_id must not be reused by stress scenarios'')
     (let baseline_net = dsub gross (total_cost_percent b) in
      guard (baseline_net \<le> 0) (ValueError ''baseline net edge must be positive'')
      (res_bind (res_map (cost_scenario_result gross b t baseline_net) (sort_key cs_scenario_id scenarios)) (\<lambda>results.
        let fraction = ddiv (of_nat (length (filter cz_passed results))) (of_nat (length results));
            worst_net = Min (set (map cz_net_edge results));
            worst_degr = Max (set (map cz_degradation results));
            passed = (ch_min_fraction t \<le> fraction)
        in Inr \<lparr>cq_gross_edge = gross, cq_baseline_cost = total_cost_percent b, cq_baseline_net = baseline_net,
             cq_results = results, cq_fraction = fraction, cq_worst_net = worst_net, cq_worst_degradation = worst_degr,
             cq_passed = passed,
             cq_fingerprint = cost_fingerprint sha plain gross b t results fraction worst_net worst_degr passed\<rparr>)))))))"

subsection \<open>Regimes and time\<close>

record time_slice =
  rt_slice_id :: string
  rt_regime :: string
  rt_start :: int
  rt_end :: int
  rt_score :: rat
  rt_samples :: int
  rt_series :: string

definition time_slice_make :: "time_slice \<Rightarrow> time_slice res" where
  "time_slice_make s =
     guard (strip (rt_slice_id s) = []) (ValueError ''slice_id must be non-empty'')
     (guard (strip (rt_regime s) = []) (ValueError ''regime must be non-empty'')
     (guard (strip (rt_series s) = []) (ValueError ''series_id must be non-empty'')
     (guard (rt_start s < 0) (ValueError ''start_index must be non-negative'')
     (guard (rt_end s \<le> rt_start s) (ValueError ''end_index must be greater than start_index'')
     (guard (rt_samples s < 1) (ValueError ''sample_count must be positive'') (Inr s))))))"

record regime_time_thresholds =
  rh_min_regimes :: int
  rh_min_slices :: int
  rh_min_per_regime :: int
  rh_min_relative :: rat
  rh_max_spread :: rat
  rh_weak_floor :: rat
  rh_min_stable :: rat
  rh_max_degradation :: rat
  rh_max_weak_run :: int
  rh_max_slices :: int

definition default_regime_time_thresholds :: regime_time_thresholds where
  "default_regime_time_thresholds =
     \<lparr>rh_min_regimes = 2, rh_min_slices = 4, rh_min_per_regime = 2, rh_min_relative = 60, rh_max_spread = 50, rh_weak_floor = 60,
      rh_min_stable = 3 / 4, rh_max_degradation = 50, rh_max_weak_run = 2, rh_max_slices = 2048\<rparr>"

definition regime_time_thresholds_make :: "regime_time_thresholds \<Rightarrow> regime_time_thresholds res" where
  "regime_time_thresholds_make t =
     guard (\<exists>v \<in> {rh_min_regimes t, rh_min_slices t, rh_min_per_regime t, rh_max_slices t}. v < 1)
       (ValueError ''count thresholds must be positive'')
     (guard (100000 < rh_max_slices t) (ValueError ''max_slices must not exceed 100000'')
     (guard (rh_max_weak_run t < 0) (ValueError ''max_consecutive_weak_slices must be non-negative'')
     (guard (rh_min_relative t < 0) (ValueError ''min_regime_relative_score_percent must be non-negative'')
     (guard (rh_max_spread t < 0) (ValueError ''max_regime_spread_percent must be non-negative'')
     (guard (rh_weak_floor t < 0) (ValueError ''weak_slice_floor_percent must be non-negative'')
     (guard (\<not> (0 \<le> rh_min_stable t \<and> rh_min_stable t \<le> 1)) (ValueError ''min_stable_time_fraction must be in [0, 1]'')
     (guard (rh_max_degradation t < 0) (ValueError ''max_time_degradation_percent must be non-negative'') (Inr t))))))))"

record regime_robustness =
  rz_regime :: string
  rz_slices :: nat
  rz_samples :: int
  rz_score :: rat
  rz_relative :: rat
  rz_degradation :: rat
  rz_passed :: bool

record regime_time_report =
  rq_overall :: rat
  rq_regimes :: "regime_robustness list"
  rq_spread :: rat
  rq_stable_fraction :: rat
  rq_worst_degradation :: rat
  rq_weak_run :: nat
  rq_slice_count :: nat
  rq_passed :: bool
  rq_fingerprint :: string

definition weighted_score :: "time_slice list \<Rightarrow> rat" where
  "weighted_score xs =
     ddiv (dsum (map (\<lambda>x. dmul (rt_score x) (of_int (rt_samples x))) xs)) (of_int (sum_list (map rt_samples xs)))"

definition relative_percent :: "rat \<Rightarrow> rat \<Rightarrow> rat" where
  "relative_percent overall score = dmul (ddiv score overall) 100"

definition shortfall_percent :: "rat \<Rightarrow> rat \<Rightarrow> rat" where
  "shortfall_percent overall score = max 0 (dmul (ddiv (dsub overall score) overall) 100)"

text \<open>The loop of \<^verbatim>\<open>_longest_weak_run\<close>: \<open>current\<close> and \<open>longest\<close> run, and the series of the slice before.\<close>

fun weak_run_loop :: "(time_slice \<Rightarrow> bool) \<Rightarrow> time_slice list \<Rightarrow> nat \<Rightarrow> nat \<Rightarrow> string option \<Rightarrow> nat" where
  "weak_run_loop weak [] current longest previous = longest"
| "weak_run_loop weak (x # xs) current longest previous =
     (let c0 = (if Some (rt_series x) \<noteq> previous then 0 else current)
      in if weak x then weak_run_loop weak xs (c0 + 1) (max longest (c0 + 1)) (Some (rt_series x))
         else weak_run_loop weak xs 0 longest (Some (rt_series x)))"

definition longest_weak_run :: "time_slice list \<Rightarrow> rat \<Rightarrow> rat \<Rightarrow> nat" where
  "longest_weak_run xs overall floor_percent =
     weak_run_loop (\<lambda>x. relative_percent overall (rt_score x) < floor_percent) xs 0 0 None"

definition slice_json :: "(rat \<Rightarrow> string) \<Rightarrow> time_slice \<Rightarrow> json" where
  "slice_json plain x =
     JObj [(''slice_id'', JStr (rt_slice_id x)), (''series_id'', JStr (rt_series x)), (''regime'', JStr (rt_regime x)),
       (''start_index'', JNum (of_int (rt_start x))), (''end_index'', JNum (of_int (rt_end x))),
       (''score'', JStr (plain (rt_score x))), (''sample_count'', JNum (of_int (rt_samples x)))]"

definition regime_json :: "(rat \<Rightarrow> string) \<Rightarrow> regime_robustness \<Rightarrow> json" where
  "regime_json plain x =
     JObj [(''regime'', JStr (rz_regime x)), (''slice_count'', JNum (of_nat (rz_slices x))),
       (''sample_count'', JNum (of_int (rz_samples x))), (''weighted_score'', JStr (plain (rz_score x))),
       (''relative_score_percent'', JStr (plain (rz_relative x))), (''degradation_percent'', JStr (plain (rz_degradation x))),
       (''passed'', JBool (rz_passed x))]"

definition regime_time_fingerprint ::
  "(json \<Rightarrow> string) \<Rightarrow> (rat \<Rightarrow> string) \<Rightarrow> time_slice list \<Rightarrow> regime_time_thresholds \<Rightarrow> regime_time_report \<Rightarrow> string" where
  "regime_time_fingerprint sha plain xs t r =
     sha (JObj
       [(''overall_score'', JStr (plain (rq_overall r))), (''passed'', JBool (rq_passed r)),
        (''regime_spread_percent'', JStr (plain (rq_spread r))), (''stable_time_fraction'', JStr (plain (rq_stable_fraction r))),
        (''worst_time_degradation_percent'', JStr (plain (rq_worst_degradation r))),
        (''max_consecutive_weak_slices'', JNum (of_nat (rq_weak_run r))),
        (''thresholds'', JObj
          [(''min_regime_count'', JNum (of_int (rh_min_regimes t))), (''min_time_slice_count'', JNum (of_int (rh_min_slices t))),
           (''min_slices_per_regime'', JNum (of_int (rh_min_per_regime t))),
           (''min_regime_relative_score_percent'', JStr (plain (rh_min_relative t))),
           (''max_regime_spread_percent'', JStr (plain (rh_max_spread t))), (''weak_slice_floor_percent'', JStr (plain (rh_weak_floor t))),
           (''min_stable_time_fraction'', JStr (plain (rh_min_stable t))),
           (''max_time_degradation_percent'', JStr (plain (rh_max_degradation t))),
           (''max_consecutive_weak_slices'', JNum (of_int (rh_max_weak_run t))), (''max_slices'', JNum (of_int (rh_max_slices t)))]),
        (''slices'', JList (map (slice_json plain) xs)), (''regimes'', JList (map (regime_json plain) (rq_regimes r)))])"

definition slice_order :: "time_slice \<Rightarrow> string \<times> int \<times> int \<times> string" where
  "slice_order x = (rt_series x, rt_start x, rt_end x, rt_slice_id x)"

fun overlapping :: "time_slice list \<Rightarrow> bool" where
  "overlapping (x # y # xs) \<longleftrightarrow> (rt_series y = rt_series x \<and> rt_start y < rt_end x) \<or> overlapping (y # xs)"
| "overlapping _ \<longleftrightarrow> False"

definition judge_regime :: "regime_time_thresholds \<Rightarrow> rat \<Rightarrow> string \<times> time_slice list \<Rightarrow> regime_robustness" where
  "judge_regime t overall g =
     (let score = weighted_score (snd g); relative = relative_percent overall score
      in \<lparr>rz_regime = fst g, rz_slices = length (snd g), rz_samples = sum_list (map rt_samples (snd g)), rz_score = score,
          rz_relative = relative, rz_degradation = shortfall_percent overall score,
          rz_passed = (rh_min_per_regime t \<le> int (length (snd g)) \<and> rh_min_relative t \<le> relative)\<rparr>)"

definition judge_slices :: "regime_time_thresholds \<Rightarrow> time_slice list \<Rightarrow> rat \<Rightarrow> regime_robustness list \<Rightarrow> regime_time_report" where
  "judge_slices t xs overall regimes =
     (let scores = set (map rz_score regimes);
          spread = dmul (ddiv (dsub (Max scores) (Min scores)) overall) 100;
          stable = length (filter (\<lambda>v. rh_weak_floor t \<le> v) (map (relative_percent overall \<circ> rt_score) xs));
          fraction = ddiv (of_nat stable) (of_nat (length xs));
          worst = max_or_zero (map (shortfall_percent overall \<circ> rt_score) xs);
          run = longest_weak_run xs overall (rh_weak_floor t)
      in \<lparr>rq_overall = overall, rq_regimes = regimes, rq_spread = spread, rq_stable_fraction = fraction,
          rq_worst_degradation = worst, rq_weak_run = run, rq_slice_count = length xs,
          rq_passed = (list_all rz_passed regimes \<and> spread \<le> rh_max_spread t \<and> rh_min_stable t \<le> fraction \<and>
            worst \<le> rh_max_degradation t \<and> int run \<le> rh_max_weak_run t),
          rq_fingerprint = ''''\<rparr>)"

definition qualify_regime_time_robustness ::
  "(json \<Rightarrow> string) \<Rightarrow> (rat \<Rightarrow> string) \<Rightarrow> time_slice list \<Rightarrow> regime_time_thresholds \<Rightarrow> regime_time_report res" where
  "qualify_regime_time_robustness sha plain xs t =
     guard (int (length xs) < rh_min_slices t) (ValueError ''insufficient time slices for robustness qualification'')
     (guard (rh_max_slices t < int (length xs)) (ValueError ''time slice count exceeds max_slices'')
     (guard (\<not> distinct (map rt_slice_id xs)) (ValueError ''slice_id values must be unique'')
     (let ordered = sort_key slice_order xs in
      guard (overlapping ordered) (ValueError ''time slices within a series must not overlap'')
      (let regimes = fold (add_to_group rt_regime) ordered [] in
       guard (int (length regimes) < rh_min_regimes t) (ValueError ''insufficient regime diversity for robustness qualification'')
       (let overall = weighted_score ordered in
        guard (overall \<le> 0) (ValueError ''overall weighted score must be positive'')
        (let r = judge_slices t ordered overall (map (judge_regime t overall) (sort_key fst regimes))
         in Inr (r\<lparr>rq_fingerprint := regime_time_fingerprint sha plain ordered t r\<rparr>)))))))"

subsection \<open>The matrix of experiments\<close>

text \<open>
  An executor returns bytes, something that is not bytes, or raises; \<open>digest\<close> is the SHA-256 of bytes and \<open>exn_text\<close> the text
  \<^verbatim>\<open>f"{exc.__class__.__name__}:{str(exc)}"\<close> of an exception. \<^verbatim>\<open>pool.map\<close> returns the results in the order of the runs, whatever
  the number of workers.
\<close>

record matrix_dimensions =
  md_datasets :: "string list"
  md_splits :: "string list"
  md_seeds :: "int list"
  md_strategies :: "string list"
  md_configs :: "string list"
  md_costs :: "string list"

definition matrix_dimensions_make :: "matrix_dimensions \<Rightarrow> matrix_dimensions res" where
  "matrix_dimensions_make d =
     guard (md_datasets d = [] \<or> md_splits d = [] \<or> md_seeds d = [] \<or> md_strategies d = [] \<or> md_configs d = [] \<or> md_costs d = [])
       (ValueError ''all matrix dimensions must be non-empty'')
     (guard (\<not> distinct (md_seeds d) \<or> (\<exists>s \<in> set (md_seeds d). s < 0))
       (ValueError ''matrix seeds must be unique and non-negative'') (Inr d))"

record matrix_run =
  mx_index :: int
  mx_dataset :: string
  mx_split :: string
  mx_seed :: int
  mx_strategy :: string
  mx_config :: string
  mx_cost :: string
  mx_sha :: string

datatype executor_output = Output_Bytes string | Output_Other

record matrix_result =
  my_run :: matrix_run
  my_status :: string
  my_sha :: "string option"
  my_error :: "string option"

record matrix_report =
  mz_expected :: int
  mz_completed :: nat
  mz_successful :: nat
  mz_failed :: nat
  mz_matrix_sha :: string
  mz_evidence_sha :: string
  mz_results :: "matrix_result list"

definition required_runs :: int where
  "required_runs = 1000"

definition experiment_identity :: "(json \<Rightarrow> string) \<Rightarrow> matrix_run \<Rightarrow> string" where
  "experiment_identity sha r =
     sha (JObj [(''config'', JStr (mx_config r)), (''cost'', JStr (mx_cost r)), (''dataset'', JStr (mx_dataset r)),
       (''seed'', JNum (of_int (mx_seed r))), (''split'', JStr (mx_split r)), (''strategy'', JStr (mx_strategy r))])"

definition matrix_combinations :: "matrix_dimensions \<Rightarrow> (string \<times> string \<times> int \<times> string \<times> string \<times> string) list" where
  "matrix_combinations d =
     List.product (md_datasets d) (List.product (md_splits d) (List.product (md_seeds d)
       (List.product (md_strategies d) (List.product (md_configs d) (md_costs d)))))"

definition matrix_run_of :: "(json \<Rightarrow> string) \<Rightarrow> int \<times> string \<times> string \<times> int \<times> string \<times> string \<times> string \<Rightarrow> matrix_run" where
  "matrix_run_of sha x =
     (case x of (i, dataset, split, seed, strategy, config, cost) \<Rightarrow>
       let provisional = \<lparr>mx_index = i, mx_dataset = dataset, mx_split = split, mx_seed = seed, mx_strategy = strategy,
             mx_config = config, mx_cost = cost, mx_sha = ''''\<rparr>
       in provisional\<lparr>mx_sha := experiment_identity sha provisional\<rparr>)"

definition build_matrix :: "(json \<Rightarrow> string) \<Rightarrow> (int \<Rightarrow> string) \<Rightarrow> matrix_dimensions \<Rightarrow> matrix_run list res" where
  "build_matrix sha itxt d =
     (let cardinality = int (length (md_datasets d)) * int (length (md_splits d)) * int (length (md_seeds d)) *
            int (length (md_strategies d)) * int (length (md_configs d)) * int (length (md_costs d)) in
      guard (cardinality \<noteq> required_runs)
        (ValueError (''matrix cardinality mismatch:'' @ itxt cardinality @ ''!='' @ itxt required_runs))
      (let runs = map (matrix_run_of sha) (zip (map int [0..<nat cardinality]) (matrix_combinations d)) in
       guard (\<not> distinct (map mx_sha runs)) (ValueError ''matrix contains duplicate experiment identities'') (Inr runs)))"

definition execute_run ::
  "(string \<Rightarrow> string) \<Rightarrow> (exn \<Rightarrow> string) \<Rightarrow> (matrix_run \<Rightarrow> executor_output res) \<Rightarrow> matrix_run \<Rightarrow> matrix_result" where
  "execute_run digest exn_text executor r =
     (case res_bind (executor r) (\<lambda>out. case out of Output_Bytes b \<Rightarrow> Inr b
             | Output_Other \<Rightarrow> Inl (TypeError ''matrix executor must return canonical bytes'')) of
        Inr b \<Rightarrow> \<lparr>my_run = r, my_status = ''SUCCESS'', my_sha = Some (digest b), my_error = None\<rparr>
      | Inl e \<Rightarrow> \<lparr>my_run = r, my_status = ''FAILED'', my_sha = None, my_error = Some (exn_text e)\<rparr>)"

definition matrix_result_json :: "matrix_result \<Rightarrow> json" where
  "matrix_result_json x =
     JObj [(''experiment'', JStr (mx_sha (my_run x))), (''result'', optional_string (my_sha x)), (''status'', JStr (my_status x)),
       (''error'', optional_string (my_error x))]"

definition execute_matrix ::
  "(json \<Rightarrow> string) \<Rightarrow> (string \<Rightarrow> string) \<Rightarrow> (int \<Rightarrow> string) \<Rightarrow> (exn \<Rightarrow> string) \<Rightarrow> (matrix_run \<Rightarrow> executor_output res) \<Rightarrow> int
    \<Rightarrow> matrix_run list \<Rightarrow> matrix_report res" where
  "execute_matrix sha digest itxt exn_text executor max_workers runs =
     guard (int (length runs) \<noteq> required_runs)
       (ValueError (''run count mismatch:'' @ itxt (int (length runs)) @ ''!='' @ itxt required_runs))
     (guard (max_workers < 1) (ValueError ''max_workers must be positive'')
     (guard (map mx_index runs \<noteq> map int [0..<length runs]) (ValueError ''matrix indexes must be contiguous and ordered'')
     (guard (\<exists>r \<in> set runs. mx_sha r \<noteq> experiment_identity sha r) (ValueError ''matrix experiment identity is invalid'')
     (guard (\<not> distinct (map mx_sha runs)) (ValueError ''matrix experiment identities must be unique'')
     (let results = map (execute_run digest exn_text executor) runs;
          successful = length (filter (\<lambda>x. my_status x = ''SUCCESS'') results)
      in Inr \<lparr>mz_expected = required_runs, mz_completed = length results, mz_successful = successful,
           mz_failed = length results - successful, mz_matrix_sha = sha (JList (map (JStr \<circ> mx_sha) runs)),
           mz_evidence_sha = sha (JList (map matrix_result_json results)), mz_results = results\<rparr>)))))"

subsection \<open>The statistics of a batch\<close>

datatype batch_decision =
    Batch_Qualified
  | Batch_Qualified_With_Limits
  | Batch_Insufficient_Sample
  | Batch_Overfit_Suspected
  | Batch_Failed_Statistical

fun batch_decision_value :: "batch_decision \<Rightarrow> string" where
  "batch_decision_value Batch_Qualified = ''QUALIFIED''"
| "batch_decision_value Batch_Qualified_With_Limits = ''QUALIFIED_WITH_LIMITS''"
| "batch_decision_value Batch_Insufficient_Sample = ''INSUFFICIENT_SAMPLE''"
| "batch_decision_value Batch_Overfit_Suspected = ''OVERFIT_SUSPECTED''"
| "batch_decision_value Batch_Failed_Statistical = ''FAILED_STATISTICAL_QUALIFICATION''"

record qualification_run =
  qu_run_id :: string
  qu_dataset :: string
  qu_split :: string
  qu_seed :: int
  qu_strategy :: string
  qu_config :: string
  qu_cost :: string
  qu_trades :: int
  qu_wins :: int
  qu_gross_profit :: rat
  qu_gross_loss :: rat
  qu_net_pnl :: rat
  qu_drawdown :: rat

definition qualification_run_make :: "qualification_run \<Rightarrow> qualification_run res" where
  "qualification_run_make r =
     guard (qu_run_id r = [] \<or> qu_dataset r = [] \<or> qu_strategy r = [] \<or> qu_config r = [] \<or> qu_cost r = [])
       (ValueError ''run identity and fingerprints are required'')
     (guard (qu_split r \<notin> {''IS'', ''VALIDATION'', ''OOS'', ''WALK_FORWARD''}) (ValueError ''unsupported qualification split'')
     (guard (qu_seed r < 0) (ValueError ''seed must be non-negative'')
     (guard (qu_trades r < 0 \<or> qu_wins r < 0 \<or> qu_trades r < qu_wins r) (ValueError ''invalid trade counts'')
     (guard (qu_gross_profit r < 0 \<or> qu_gross_loss r < 0 \<or> qu_drawdown r < 0)
       (ValueError ''profit, loss and drawdown magnitudes must be non-negative'') (Inr r)))))"

definition run_identity :: "qualification_run \<Rightarrow> string \<times> string \<times> string \<times> string \<times> string \<times> int" where
  "run_identity r = (qu_dataset r, qu_split r, qu_strategy r, qu_config r, qu_cost r, qu_seed r)"

definition run_expectancy :: "qualification_run \<Rightarrow> rat option" where
  "run_expectancy r = (if qu_trades r \<noteq> 0 then Some (ddiv (qu_net_pnl r) (of_int (qu_trades r))) else None)"

definition run_profit_factor :: "qualification_run \<Rightarrow> rat option" where
  "run_profit_factor r = (if 0 < qu_gross_loss r then Some (ddiv (qu_gross_profit r) (qu_gross_loss r)) else None)"

record batch_policy =
  bp_min_runs :: int
  bp_min_is :: int
  bp_min_oos :: int
  bp_min_trades :: int
  bp_min_profit_factor :: rat
  bp_max_drawdown :: rat
  bp_max_degradation :: rat

definition default_batch_policy :: batch_policy where
  "default_batch_policy =
     \<lparr>bp_min_runs = 1000, bp_min_is = 200, bp_min_oos = 200, bp_min_trades = 1000, bp_min_profit_factor = 110 / 100,
      bp_max_drawdown = 25, bp_max_degradation = 35 / 100\<rparr>"

definition batch_policy_make :: "batch_policy \<Rightarrow> batch_policy res" where
  "batch_policy_make p =
     guard (\<exists>v \<in> {bp_min_runs p, bp_min_is p, bp_min_oos p, bp_min_trades p}. v < 1)
       (ValueError ''qualification minimum counts must be positive'')
     (guard (bp_min_profit_factor p \<le> 0) (ValueError ''minimum profit factor must be positive'')
     (guard (bp_max_drawdown p < 0) (ValueError ''maximum drawdown must be non-negative'')
     (guard (\<not> (0 \<le> bp_max_degradation p \<and> bp_max_degradation p \<le> 1)) (ValueError ''expectancy degradation must be in [0, 1]'')
       (Inr p))))"

record batch_report =
  ba_decision :: batch_decision
  ba_runs :: int
  ba_is_runs :: int
  ba_oos_runs :: int
  ba_trades :: int
  ba_win_rate :: rat
  ba_profit_factor :: "rat option"
  ba_mean_expectancy :: "rat option"
  ba_aggregate_expectancy :: "rat option"
  ba_ci_low :: "rat option"
  ba_ci_high :: "rat option"
  ba_p95_drawdown :: rat
  ba_reasons :: "string list"

text \<open>
  \<^verbatim>\<open>math.ceil(float(percentile) * len(ordered))\<close> in binary64: \<open>p95\<close> is the double nearest to 0.95, and a product that is at least one
  half is rounded to 53 significant bits, half to even.
\<close>

fun bit_len :: "nat \<Rightarrow> nat" where
  "bit_len n = (if n = 0 then 0 else Suc (bit_len (n div 2)))"

declare bit_len.simps [simp del]

definition double_of :: "rat \<Rightarrow> rat" where
  "double_of x = (let k = 53 - int (bit_len (nat \<lfloor>x\<rfloor>)) in of_int (half_even (x * 2 powi k)) / 2 powi k)"

definition p95 :: rat where
  "p95 = 8556839292003942 / 2 ^ 53"

definition percentile_of :: "rat list \<Rightarrow> rat \<Rightarrow> rat" where
  "percentile_of xs p =
     (let ordered = sort xs; index = \<lceil>double_of (p * of_nat (length ordered))\<rceil> - 1
      in ordered ! nat (max 0 (min index (int (length ordered) - 1))))"

text \<open>\<^verbatim>\<open>statistics.median\<close> over decimals.\<close>

definition median_of :: "rat list \<Rightarrow> rat" where
  "median_of xs =
     (let s = sort xs; n = length xs
      in if odd n then s ! (n div 2) else ddiv (dadd (s ! (n div 2 - 1)) (s ! (n div 2))) 2)"

definition confidence_interval :: "rat list \<Rightarrow> rat option \<Rightarrow> (rat \<times> rat) option" where
  "confidence_interval observed mean_value =
     (case mean_value of
        None \<Rightarrow> None
      | Some m \<Rightarrow>
          if length observed < 2 then None
          else let variance = ddiv (dsum (map (\<lambda>v. dsquare (dsub v m)) observed)) (of_nat (length observed - 1));
                   margin = dmul (196 / 100) (dsqrt (ddiv variance (of_nat (length observed))))
               in Some (dsub m margin, dadd m margin))"

definition batch_verdict ::
  "batch_policy \<Rightarrow> nat \<Rightarrow> nat \<Rightarrow> nat \<Rightarrow> int \<Rightarrow> rat list \<Rightarrow> rat list \<Rightarrow> rat option \<Rightarrow> rat option \<Rightarrow> rat option \<Rightarrow> rat \<Rightarrow>
    batch_decision \<times> string list" where
  "batch_verdict p n n_is n_oos trades is_expectancies observed factor aggregate ci_low p95_drawdown =
     (if int n < bp_min_runs p \<or> int n_is < bp_min_is p \<or> int n_oos < bp_min_oos p
      then (Batch_Insufficient_Sample, [''minimum independent IS/OOS run count not met''])
      else if trades < bp_min_trades p \<or> ci_low = None
      then (Batch_Insufficient_Sample, [''minimum OOS trade sample not met''])
      else if is_expectancies = [] \<or> observed = []
      then (Batch_Insufficient_Sample, [''usable IS/OOS expectancy evidence is missing''])
      else
        let is_median = median_of is_expectancies; oos_median = median_of observed;
            degradation = (if 0 < is_median then max 0 (ddiv (dsub is_median oos_median) is_median) else 0)
        in if bp_max_degradation p < degradation
           then (Batch_Overfit_Suspected, [''IS to OOS expectancy degradation exceeds policy''])
           else if factor = None \<or> the factor < bp_min_profit_factor p \<or> aggregate = None \<or> the aggregate \<le> 0 \<or>
             the ci_low \<le> 0 \<or> bp_max_drawdown p < p95_drawdown
           then (Batch_Failed_Statistical, [''OOS statistical or risk gate failed''])
           else (Batch_Qualified, []))"

definition batch_report_of :: "qualification_run list \<Rightarrow> batch_policy \<Rightarrow> batch_report" where
  "batch_report_of items p =
     (let in_sample = filter (\<lambda>r. qu_split r = ''IS'') items;
          oos = filter (\<lambda>r. qu_split r \<in> {''OOS'', ''WALK_FORWARD''}) items;
          trades = sum_list (map qu_trades oos);
          wins = sum_list (map qu_wins oos);
          gross_profit = dsum (map qu_gross_profit oos);
          gross_loss = dsum (map qu_gross_loss oos);
          net_pnl = dsum (map qu_net_pnl oos);
          win_rate = (if trades \<noteq> 0 then dmul (ddiv (of_int wins) (of_int trades)) 100 else 0);
          factor = (if 0 < gross_loss then Some (ddiv gross_profit gross_loss) else None);
          aggregate = (if trades \<noteq> 0 then Some (ddiv net_pnl (of_int trades)) else None);
          observed = found_values (map run_expectancy oos);
          mean_value = (if observed = [] then None else Some (ddiv (dsum observed) (of_nat (length observed))));
          ci = confidence_interval observed mean_value;
          p95_drawdown = (if oos = [] then 0 else percentile_of (map qu_drawdown oos) p95);
          verdict = batch_verdict p (length items) (length in_sample) (length oos) trades
            (found_values (map run_expectancy in_sample)) observed factor aggregate (map_option fst ci) p95_drawdown
      in \<lparr>ba_decision = fst verdict, ba_runs = int (length items), ba_is_runs = int (length in_sample),
           ba_oos_runs = int (length oos), ba_trades = trades, ba_win_rate = win_rate, ba_profit_factor = factor,
           ba_mean_expectancy = mean_value, ba_aggregate_expectancy = aggregate, ba_ci_low = map_option fst ci,
           ba_ci_high = map_option snd ci, ba_p95_drawdown = p95_drawdown, ba_reasons = snd verdict\<rparr>)"

definition qualify_batch :: "qualification_run list \<Rightarrow> batch_policy \<Rightarrow> batch_report res" where
  "qualify_batch items p =
     guard (\<not> distinct (map qu_run_id items)) (ValueError ''duplicate qualification run_id'')
     (guard (\<not> distinct (map run_identity items)) (ValueError ''duplicate qualification experiment identity'')
     (Inr (batch_report_of items p)))"

subsection \<open>The final decision\<close>

datatype final_decision =
    Final_Qualified
  | Final_Incomplete_Evidence
  | Final_Failed_Phase
  | Final_Failed_Statistical

fun final_decision_value :: "final_decision \<Rightarrow> string" where
  "final_decision_value Final_Qualified = ''QUALIFIED''"
| "final_decision_value Final_Incomplete_Evidence = ''INCOMPLETE_EVIDENCE''"
| "final_decision_value Final_Failed_Phase = ''FAILED_PHASE_EVIDENCE''"
| "final_decision_value Final_Failed_Statistical = ''FAILED_STATISTICAL_QUALIFICATION''"

definition required_phases :: "string list" where
  "required_phases = [''48.1'', ''48.2'', ''48.3'', ''48.4'', ''48.5'', ''48.6'', ''48.7'', ''48.8'']"

definition is_lower_hex :: "nat \<Rightarrow> string \<Rightarrow> bool" where
  "is_lower_hex n s \<longleftrightarrow> length s = n \<and> s = lower s \<and> list_all (\<lambda>c. c \<in> set ''0123456789abcdef'') s"

record qualification_identity =
  qi_dataset :: string
  qi_strategy :: string
  qi_config :: string
  qi_revision :: string

definition qualification_identity_make :: "qualification_identity \<Rightarrow> qualification_identity res" where
  "qualification_identity_make q =
     guard (strip (qi_dataset q) = []) (ValueError ''dataset_version must be non-empty'')
     (guard (strip (qi_strategy q) = []) (ValueError ''strategy_fingerprint must be non-empty'')
     (guard (strip (qi_config q) = []) (ValueError ''config_fingerprint must be non-empty'')
     (guard (\<not> is_lower_hex 40 (qi_revision q)) (ValueError ''code_revision must be a 40-character lowercase Git SHA'')
       (Inr q))))"

record phase_evidence =
  pe_phase :: string
  pe_passed :: bool
  pe_fingerprint :: string
  pe_count :: int

definition phase_evidence_make :: "phase_evidence \<Rightarrow> phase_evidence res" where
  "phase_evidence_make e =
     guard (strip (pe_phase e) = []) (ValueError ''phase_id must be non-empty'')
     (guard (\<not> is_lower_hex 64 (pe_fingerprint e))
       (ValueError ''evidence_fingerprint must be a 64-character lowercase SHA-256'')
     (guard (pe_count e < 1) (ValueError ''evidence_count must be positive'') (Inr e)))"

record final_policy =
  fp_min_runs :: int
  fp_min_is :: int
  fp_min_oos :: int
  fp_min_trades :: int
  fp_min_profit_factor :: rat
  fp_max_drawdown :: rat

definition default_final_policy :: final_policy where
  "default_final_policy =
     \<lparr>fp_min_runs = 1000, fp_min_is = 200, fp_min_oos = 200, fp_min_trades = 1000, fp_min_profit_factor = 110 / 100,
      fp_max_drawdown = 25\<rparr>"

definition final_policy_make :: "final_policy \<Rightarrow> final_policy res" where
  "final_policy_make p =
     guard (\<exists>v \<in> {fp_min_runs p, fp_min_is p, fp_min_oos p, fp_min_trades p}. v < 1)
       (ValueError ''final qualification minimum counts must be positive'')
     (guard (fp_min_profit_factor p \<le> 0) (ValueError ''minimum_profit_factor must be positive'')
     (guard (fp_max_drawdown p < 0) (ValueError ''maximum_p95_drawdown_percent must be non-negative'') (Inr p)))"

record final_report =
  fq_identity :: qualification_identity
  fq_decision :: final_decision
  fq_evidence :: "phase_evidence list"
  fq_batch :: batch_report
  fq_reasons :: "string list"
  fq_fingerprint :: string

definition final_passed :: "final_report \<Rightarrow> bool" where
  "final_passed r \<longleftrightarrow> fq_decision r = Final_Qualified"

definition validate_batch_metrics :: "batch_report \<Rightarrow> unit res" where
  "validate_batch_metrics r =
     guard (\<exists>v \<in> {ba_runs r, ba_is_runs r, ba_oos_runs r, ba_trades r}. v < 0)
       (ValueError ''batch qualification counts must be non-negative'') (Inr ())"

definition reason_if :: "bool \<Rightarrow> string \<Rightarrow> string list" where
  "reason_if c s = (if c then [s] else [])"

definition statistical_gate_reasons :: "batch_report \<Rightarrow> final_policy \<Rightarrow> string list" where
  "statistical_gate_reasons r p =
     reason_if (ba_decision r \<noteq> Batch_Qualified) (''batch decision is '' @ batch_decision_value (ba_decision r) @ '', not QUALIFIED'') @
     reason_if (ba_runs r < fp_min_runs p) ''minimum 1000-run qualification evidence not met'' @
     reason_if (ba_is_runs r < fp_min_is p) ''minimum in-sample run count not met'' @
     reason_if (ba_oos_runs r < fp_min_oos p) ''minimum OOS/walk-forward run count not met'' @
     reason_if (ba_trades r < fp_min_trades p) ''minimum OOS trade sample not met'' @
     reason_if (case ba_profit_factor r of None \<Rightarrow> True | Some f \<Rightarrow> f < fp_min_profit_factor p)
       ''profit factor is below final qualification policy'' @
     reason_if (case ba_aggregate_expectancy r of None \<Rightarrow> True | Some e \<Rightarrow> e \<le> 0) ''aggregate OOS expectancy is not positive'' @
     reason_if (case ba_ci_low r of None \<Rightarrow> True | Some l \<Rightarrow> l \<le> 0) ''95% expectancy confidence lower bound is not positive'' @
     reason_if (fp_max_drawdown p < ba_p95_drawdown r) ''p95 drawdown exceeds final qualification policy''"

definition evidence_json :: "phase_evidence \<Rightarrow> json" where
  "evidence_json e = JObj [(''phase_id'', JStr (pe_phase e)), (''passed'', JBool (pe_passed e)),
     (''evidence_fingerprint'', JStr (pe_fingerprint e)), (''evidence_count'', JNum (of_int (pe_count e)))]"

definition batch_json :: "(rat \<Rightarrow> string) \<Rightarrow> batch_report \<Rightarrow> json" where
  "batch_json plain r =
     JObj [(''decision'', JStr (batch_decision_value (ba_decision r))), (''run_count'', JNum (of_int (ba_runs r))),
       (''is_run_count'', JNum (of_int (ba_is_runs r))), (''oos_run_count'', JNum (of_int (ba_oos_runs r))),
       (''total_trades'', JNum (of_int (ba_trades r))), (''win_rate_percent'', JStr (plain (ba_win_rate r))),
       (''profit_factor'', optional_text plain (ba_profit_factor r)), (''mean_expectancy'', optional_text plain (ba_mean_expectancy r)),
       (''aggregate_expectancy'', optional_text plain (ba_aggregate_expectancy r)),
       (''expectancy_ci95_low'', optional_text plain (ba_ci_low r)), (''expectancy_ci95_high'', optional_text plain (ba_ci_high r)),
       (''p95_drawdown_percent'', JStr (plain (ba_p95_drawdown r))), (''reasons'', JList (map JStr (ba_reasons r)))]"

definition manifest_fingerprint ::
  "(json \<Rightarrow> string) \<Rightarrow> (rat \<Rightarrow> string) \<Rightarrow> qualification_identity \<Rightarrow> final_decision \<Rightarrow> phase_evidence list \<Rightarrow> batch_report
    \<Rightarrow> final_policy \<Rightarrow> string list \<Rightarrow> string" where
  "manifest_fingerprint sha plain q decision evidence batch p reasons =
     sha (JObj
       [(''schema'', JStr ''phase-48.9-final-qualification-v1''),
        (''identity'', JObj [(''dataset_version'', JStr (qi_dataset q)), (''strategy_fingerprint'', JStr (qi_strategy q)),
          (''config_fingerprint'', JStr (qi_config q)), (''code_revision'', JStr (qi_revision q))]),
        (''decision'', JStr (final_decision_value decision)), (''required_phases'', JList (map JStr required_phases)),
        (''phase_evidence'', JList (map evidence_json evidence)), (''batch_report'', batch_json plain batch),
        (''policy'', JObj [(''minimum_runs'', JNum (of_int (fp_min_runs p))), (''minimum_is_runs'', JNum (of_int (fp_min_is p))),
          (''minimum_oos_runs'', JNum (of_int (fp_min_oos p))), (''minimum_total_trades'', JNum (of_int (fp_min_trades p))),
          (''minimum_profit_factor'', JStr (plain (fp_min_profit_factor p))),
          (''maximum_p95_drawdown_percent'', JStr (plain (fp_max_drawdown p)))]),
        (''reasons'', JList (map JStr reasons))])"

definition final_verdict :: "string list \<Rightarrow> string list \<Rightarrow> string list \<Rightarrow> final_decision \<times> string list" where
  "final_verdict missing failing statistical =
     (if missing \<noteq> [] then (Final_Incomplete_Evidence, [''missing phase evidence: '' @ join '', '' missing])
      else if failing \<noteq> [] then (Final_Failed_Phase, [''failed phase evidence: '' @ join '', '' failing])
      else if statistical \<noteq> [] then (Final_Failed_Statistical, statistical)
      else (Final_Qualified, []))"

definition qualify_phase_48 ::
  "(json \<Rightarrow> string) \<Rightarrow> (rat \<Rightarrow> string) \<Rightarrow> qualification_identity \<Rightarrow> phase_evidence list \<Rightarrow> batch_report \<Rightarrow> final_policy
    \<Rightarrow> final_report res" where
  "qualify_phase_48 sha plain q evidence batch p =
     res_bind (validate_batch_metrics batch) (\<lambda>_.
     (let ids = map pe_phase evidence in
      guard (\<not> distinct ids) (ValueError ''phase evidence IDs must be unique'')
      (let unknown = sort (remdups (filter (\<lambda>i. i \<notin> set required_phases) ids)) in
       guard (unknown \<noteq> []) (ValueError (''unknown Phase 48 evidence IDs: '' @ join '', '' unknown))
       (let by_phase = map (\<lambda>e. (pe_phase e, e)) evidence;
            ordered = found_values (map (dget by_phase) required_phases);
            missing = filter (\<lambda>ph. dget by_phase ph = None) required_phases;
            failing = map pe_phase (filter (\<lambda>e. \<not> pe_passed e) ordered);
            verdict = final_verdict missing failing (statistical_gate_reasons batch p)
        in Inr \<lparr>fq_identity = q, fq_decision = fst verdict, fq_evidence = ordered, fq_batch = batch, fq_reasons = snd verdict,
             fq_fingerprint = manifest_fingerprint sha plain q (fst verdict) ordered batch p (snd verdict)\<rparr>))))"

definition render_statistical_report :: "(rat \<Rightarrow> string) \<Rightarrow> (int \<Rightarrow> string) \<Rightarrow> final_report \<Rightarrow> string" where
  "render_statistical_report plain itxt r =
     (let b = fq_batch r;
          num = (\<lambda>v. case v of None \<Rightarrow> ''None'' | Some x \<Rightarrow> plain x);
          head =
            [''# Phase 48 Final Statistical Qualification'', '''',
             ''**Decision:** '' @ final_decision_value (fq_decision r),
             ''**Manifest fingerprint:** `'' @ fq_fingerprint r @ ''`'', '''',
             ''## Qualification Identity'', '''',
             ''- Dataset version: `'' @ qi_dataset (fq_identity r) @ ''`'',
             ''- Strategy fingerprint: `'' @ qi_strategy (fq_identity r) @ ''`'',
             ''- Config fingerprint: `'' @ qi_config (fq_identity r) @ ''`'',
             ''- Code revision: `'' @ qi_revision (fq_identity r) @ ''`'', '''',
             ''## Statistical Summary'', '''',
             ''- Batch decision: `'' @ batch_decision_value (ba_decision b) @ ''`'',
             ''- Runs: '' @ itxt (ba_runs b) @ '' (IS '' @ itxt (ba_is_runs b) @ '', OOS/WF '' @ itxt (ba_oos_runs b) @ '')'',
             ''- OOS trades: '' @ itxt (ba_trades b),
             ''- Profit factor: '' @ num (ba_profit_factor b),
             ''- Aggregate expectancy: '' @ num (ba_aggregate_expectancy b),
             ''- Expectancy 95% CI: ['' @ num (ba_ci_low b) @ '', '' @ num (ba_ci_high b) @ '']'',
             ''- P95 drawdown: '' @ plain (ba_p95_drawdown b) @ ''%'', '''',
             ''## Phase Evidence'', '''',
             ''| Phase | PASS | Evidence Count | Fingerprint |'',
             ''| --- | --- | ---: | --- |''];
          rows = map (\<lambda>e. ''| '' @ pe_phase e @ '' | '' @ (if pe_passed e then ''YES'' else ''NO'') @ '' | '' @ itxt (pe_count e) @
            '' | `'' @ pe_fingerprint e @ ''` |'') (fq_evidence r);
          reasons = (if fq_reasons r \<noteq> [] then map (\<lambda>s. ''- '' @ s) (fq_reasons r)
            else [''- All required Phase 48 evidence and statistical gates passed.''])
      in join [CHR 0x0A] (head @ rows @ ['''', ''## Reasons'', ''''] @ reasons) @ [CHR 0x0A])"

subsection \<open>The matrix runs every combination once\<close>

definition combination_of :: "matrix_run \<Rightarrow> string \<times> string \<times> int \<times> string \<times> string \<times> string" where
  "combination_of r = (mx_dataset r, mx_split r, mx_seed r, mx_strategy r, mx_config r, mx_cost r)"

lemma matrix_run_of_fields [simp]:
  "mx_index (matrix_run_of sha x) = fst x"
  "combination_of (matrix_run_of sha x) = snd x"
  "mx_sha (matrix_run_of sha x) = experiment_identity sha (matrix_run_of sha x)"
  by (auto simp: matrix_run_of_def combination_of_def Let_def experiment_identity_def split: prod.splits)

lemma identity_of_combination: "combination_of r = combination_of r' \<Longrightarrow> experiment_identity sha r = experiment_identity sha r'"
  by (simp add: combination_of_def experiment_identity_def)

lemma length_combinations:
  "length (matrix_combinations d) = length (md_datasets d) * length (md_splits d) * length (md_seeds d) *
     length (md_strategies d) * length (md_configs d) * length (md_costs d)"
  by (simp add: matrix_combinations_def)

lemma build_matrix_runs:
  assumes "build_matrix sha itxt d = Inr runs"
  shows "map combination_of runs = matrix_combinations d" "map mx_index runs = map int [0..<1000]"
    "length runs = 1000" "distinct (map mx_sha runs)" "\<forall>r \<in> set runs. mx_sha r = experiment_identity sha r"
proof -
  let ?c = "int (length (md_datasets d)) * int (length (md_splits d)) * int (length (md_seeds d)) *
    int (length (md_strategies d)) * int (length (md_configs d)) * int (length (md_costs d))"
  from assms have c: "?c = 1000" and distinct: "distinct (map mx_sha runs)"
    and r: "runs = map (matrix_run_of sha) (zip (map int [0..<nat ?c]) (matrix_combinations d))"
    unfolding build_matrix_def Let_def guard_Inr_iff sum.inject required_runs_def by blast+
  have runs: "runs = map (matrix_run_of sha) (zip (map int [0..<1000]) (matrix_combinations d))" using r c by simp
  have "int (length (matrix_combinations d)) = 1000" using c by (simp add: length_combinations)
  then have len: "length (matrix_combinations d) = 1000" by simp
  show "map combination_of runs = matrix_combinations d" "map mx_index runs = map int [0..<1000]"
    using len by (simp_all add: runs comp_def map_snd_zip map_fst_zip del: upt_rec_numeral)
  show "length runs = 1000" using len by (simp add: runs)
  show "distinct (map mx_sha runs)" by (rule distinct)
  show "\<forall>r \<in> set runs. mx_sha r = experiment_identity sha r" by (auto simp: runs)
qed

lemma build_matrix_distinct:
  assumes "build_matrix sha itxt d = Inr runs"
  shows "distinct (matrix_combinations d)"
proof -
  note b = build_matrix_runs [OF assms]
  have "inj_on combination_of (set runs)"
  proof (rule inj_onI)
    fix r r' assume r: "r \<in> set runs" "r' \<in> set runs" "combination_of r = combination_of r'"
    then have "mx_sha r = mx_sha r'" using b(5) identity_of_combination by metis
    with r(1,2) b(4) show "r = r'" by (metis distinct_map inj_onD)
  qed
  moreover have "distinct runs" using b(4) by (simp add: distinct_map)
  ultimately show ?thesis by (simp add: b(1) [symmetric] distinct_map)
qed

lemma distinct_product_parts: "distinct (List.product xs ys) \<Longrightarrow> xs \<noteq> [] \<Longrightarrow> ys \<noteq> [] \<Longrightarrow> distinct xs \<and> distinct ys"
proof (induction xs)
  case (Cons x xs)
  then have ys: "distinct ys" "set (map (Pair x) ys) \<inter> set (List.product xs ys) = {}"
    by (auto simp: distinct_map)
  then have "x \<notin> set xs" using Cons.prems(3) by (cases ys) auto
  with Cons ys show ?case by (cases "xs = []") auto
qed simp

lemma product_ne: "xs \<noteq> [] \<Longrightarrow> ys \<noteq> [] \<Longrightarrow> List.product xs ys \<noteq> []"
  by (cases xs; cases ys) simp_all

lemma matrix_dimensions_distinct:
  assumes "build_matrix sha itxt d = Inr runs"
  shows "distinct (md_datasets d) \<and> distinct (md_splits d) \<and> distinct (md_seeds d) \<and> distinct (md_strategies d) \<and>
    distinct (md_configs d) \<and> distinct (md_costs d)"
proof -
  have "length (matrix_combinations d) = 1000" using build_matrix_runs(1,3) [OF assms] by (metis length_map)
  then have ne: "md_datasets d \<noteq> []" "md_splits d \<noteq> []" "md_seeds d \<noteq> []" "md_strategies d \<noteq> []" "md_configs d \<noteq> []" "md_costs d \<noteq> []"
    unfolding length_combinations by fastforce+
  note p1 = product_ne [OF ne(5,6)]
  note p2 = product_ne [OF ne(4) p1]
  note p3 = product_ne [OF ne(3) p2]
  note p4 = product_ne [OF ne(2) p3]
  note d1 = distinct_product_parts [OF build_matrix_distinct [OF assms, unfolded matrix_combinations_def] ne(1) p4]
  note d2 = distinct_product_parts [OF conjunct2 [OF d1] ne(2) p3]
  note d3 = distinct_product_parts [OF conjunct2 [OF d2] ne(3) p2]
  note d4 = distinct_product_parts [OF conjunct2 [OF d3] ne(4) p1]
  note d5 = distinct_product_parts [OF conjunct2 [OF d4] ne(5,6)]
  show ?thesis using d1 d2 d3 d4 d5 by blast
qed

lemma execute_run_fields [simp]:
  "my_run (execute_run digest exn_text executor r) = r"
  "my_status (execute_run digest exn_text executor r) =
     (if \<exists>b. executor r = Inr (Output_Bytes b) then ''SUCCESS'' else ''FAILED'')"
  by (auto simp: execute_run_def res_bind_def split: sum.splits executor_output.splits)

lemma execute_matrix_returns:
  assumes "build_matrix sha itxt d = Inr runs" "1 \<le> max_workers"
  shows "execute_matrix sha digest itxt exn_text executor max_workers runs =
    (let results = map (execute_run digest exn_text executor) runs;
         successful = length (filter (\<lambda>x. my_status x = ''SUCCESS'') results)
     in Inr \<lparr>mz_expected = 1000, mz_completed = 1000, mz_successful = successful, mz_failed = 1000 - successful,
          mz_matrix_sha = sha (JList (map (JStr \<circ> mx_sha) runs)), mz_evidence_sha = sha (JList (map matrix_result_json results)),
          mz_results = results\<rparr>)"
  using build_matrix_runs [OF assms(1)] assms(2)
  by (simp add: execute_matrix_def guard_def required_runs_def Let_def)

subsection \<open>What a qualification promises\<close>

definition gates_met :: "batch_report \<Rightarrow> final_policy \<Rightarrow> bool" where
  "gates_met r p \<longleftrightarrow> ba_decision r = Batch_Qualified \<and> fp_min_runs p \<le> ba_runs r \<and> fp_min_is p \<le> ba_is_runs r \<and>
     fp_min_oos p \<le> ba_oos_runs r \<and> fp_min_trades p \<le> ba_trades r \<and>
     (\<exists>f. ba_profit_factor r = Some f \<and> fp_min_profit_factor p \<le> f) \<and>
     (\<exists>e. ba_aggregate_expectancy r = Some e \<and> 0 < e) \<and> (\<exists>l. ba_ci_low r = Some l \<and> 0 < l) \<and>
     ba_p95_drawdown r \<le> fp_max_drawdown p"

lemma reason_if_Nil [simp]: "reason_if c s = [] \<longleftrightarrow> \<not> c"
  by (simp add: reason_if_def)

lemma no_gate_reasons_iff: "statistical_gate_reasons r p = [] \<longleftrightarrow> gates_met r p"
  by (cases "ba_profit_factor r"; cases "ba_aggregate_expectancy r"; cases "ba_ci_low r")
    (simp_all add: statistical_gate_reasons_def gates_met_def not_less not_le)

lemma evidence_lookup:
  assumes "distinct (map pe_phase evidence)"
  shows "dget (map (\<lambda>e. (pe_phase e, e)) evidence) ph = Some e \<longleftrightarrow> e \<in> set evidence \<and> pe_phase e = ph"
proof -
  have "distinct (map fst (map (\<lambda>e. (pe_phase e, e)) evidence))" using assms by (simp add: comp_def)
  then have "dget (map (\<lambda>e. (pe_phase e, e)) evidence) ph = Some e \<longleftrightarrow> (ph, e) \<in> set (map (\<lambda>e. (pe_phase e, e)) evidence)"
    by (rule map_of_eq_Some_iff)
  then show ?thesis by auto
qed

lemma final_verdict_cases:
  "fst (final_verdict missing failing statistical) = Final_Qualified \<longleftrightarrow> missing = [] \<and> failing = [] \<and> statistical = []"
  "snd (final_verdict missing failing statistical) = [] \<longleftrightarrow> missing = [] \<and> failing = [] \<and> statistical = []"
  by (simp_all add: final_verdict_def)

definition phases_passed :: "phase_evidence list \<Rightarrow> bool" where
  "phases_passed evidence \<longleftrightarrow> (\<forall>ph \<in> set required_phases. \<exists>e \<in> set evidence. pe_phase e = ph \<and> pe_passed e)"

lemma qualify_phase_48_parts:
  assumes "qualify_phase_48 sha plain q evidence batch p = Inr r"
  obtains ordered missing failing where
    "distinct (map pe_phase evidence)" "set (map pe_phase evidence) \<subseteq> set required_phases"
    "ordered = found_values (map (dget (map (\<lambda>e. (pe_phase e, e)) evidence)) required_phases)"
    "missing = filter (\<lambda>ph. dget (map (\<lambda>e. (pe_phase e, e)) evidence) ph = None) required_phases"
    "failing = map pe_phase (filter (\<lambda>e. \<not> pe_passed e) ordered)"
    "fq_evidence r = ordered" "fq_batch r = batch" "fq_identity r = q"
    "fq_decision r = fst (final_verdict missing failing (statistical_gate_reasons batch p))"
    "fq_reasons r = snd (final_verdict missing failing (statistical_gate_reasons batch p))"
proof
  let ?by = "map (\<lambda>e. (pe_phase e, e)) evidence"
  let ?ordered = "found_values (map (dget ?by) required_phases)"
  show "?ordered = found_values (map (dget ?by) required_phases)" ..
  show "filter (\<lambda>ph. dget ?by ph = None) required_phases = filter (\<lambda>ph. dget ?by ph = None) required_phases" ..
  show "map pe_phase (filter (\<lambda>e. \<not> pe_passed e) ?ordered) = map pe_phase (filter (\<lambda>e. \<not> pe_passed e) ?ordered)" ..
  note a = assms [unfolded qualify_phase_48_def Let_def res_bind_Inr_iff guard_Inr_iff]
  show "distinct (map pe_phase evidence)" using a by blast
  have "sort (remdups (filter (\<lambda>i. i \<notin> set required_phases) (map pe_phase evidence))) = []" using a by blast
  then have "set (sort (remdups (filter (\<lambda>i. i \<notin> set required_phases) (map pe_phase evidence)))) = {}" by simp
  then show "set (map pe_phase evidence) \<subseteq> set required_phases" by auto
  show "fq_evidence r = ?ordered" "fq_batch r = batch" "fq_identity r = q"
    "fq_decision r = fst (final_verdict (filter (\<lambda>ph. dget ?by ph = None) required_phases)
       (map pe_phase (filter (\<lambda>e. \<not> pe_passed e) ?ordered)) (statistical_gate_reasons batch p))"
    "fq_reasons r = snd (final_verdict (filter (\<lambda>ph. dget ?by ph = None) required_phases)
       (map pe_phase (filter (\<lambda>e. \<not> pe_passed e) ?ordered)) (statistical_gate_reasons batch p))"
    using a by force+
qed

lemma final_decision_exact:
  assumes "qualify_phase_48 sha plain q evidence batch p = Inr r"
  shows "final_passed r \<longleftrightarrow> phases_passed evidence \<and> gates_met batch p"
    and "fq_reasons r = [] \<longleftrightarrow> final_passed r" and "set (fq_evidence r) = set evidence"
proof -
  from assms obtain ordered missing failing where
    p: "distinct (map pe_phase evidence)" "set (map pe_phase evidence) \<subseteq> set required_phases"
    "ordered = found_values (map (dget (map (\<lambda>e. (pe_phase e, e)) evidence)) required_phases)"
    "missing = filter (\<lambda>ph. dget (map (\<lambda>e. (pe_phase e, e)) evidence) ph = None) required_phases"
    "failing = map pe_phase (filter (\<lambda>e. \<not> pe_passed e) ordered)" "fq_evidence r = ordered"
    "fq_decision r = fst (final_verdict missing failing (statistical_gate_reasons batch p))"
    "fq_reasons r = snd (final_verdict missing failing (statistical_gate_reasons batch p))"
    by (rule qualify_phase_48_parts)
  note look = evidence_lookup [OF p(1)]
  have set_o: "set ordered = set evidence"
  proof (rule set_eqI)
    fix e
    have "e \<in> set ordered \<longleftrightarrow> (\<exists>ph \<in> set required_phases. dget (map (\<lambda>e. (pe_phase e, e)) evidence) ph = Some e)"
      unfolding p(3) found_values_set set_map image_iff by (simp add: eq_commute)
    also have "\<dots> \<longleftrightarrow> e \<in> set evidence" unfolding look using p(2) by auto
    finally show "e \<in> set ordered \<longleftrightarrow> e \<in> set evidence" .
  qed
  have "missing = [] \<longleftrightarrow> (\<forall>ph \<in> set required_phases. \<exists>e. dget (map (\<lambda>e. (pe_phase e, e)) evidence) ph = Some e)"
    unfolding p(4) filter_empty_conv not_None_eq ..
  then have missing: "missing = [] \<longleftrightarrow> (\<forall>ph \<in> set required_phases. \<exists>e \<in> set evidence. pe_phase e = ph)"
    unfolding look by blast
  have failing: "failing = [] \<longleftrightarrow> (\<forall>e \<in> set evidence. pe_passed e)"
    unfolding p(5) map_is_Nil_conv filter_empty_conv set_o by simp
  have phases: "missing = [] \<and> failing = [] \<longleftrightarrow> phases_passed evidence"
    unfolding missing failing phases_passed_def
  proof (intro iffI conjI ballI)
    fix ph assume "(\<forall>ph \<in> set required_phases. \<exists>e \<in> set evidence. pe_phase e = ph) \<and> (\<forall>e \<in> set evidence. pe_passed e)"
      "ph \<in> set required_phases"
    then show "\<exists>e \<in> set evidence. pe_phase e = ph \<and> pe_passed e" by blast
  next
    fix ph assume "\<forall>ph \<in> set required_phases. \<exists>e \<in> set evidence. pe_phase e = ph \<and> pe_passed e" "ph \<in> set required_phases"
    then show "\<exists>e \<in> set evidence. pe_phase e = ph" by blast
  next
    fix e assume a: "\<forall>ph \<in> set required_phases. \<exists>e \<in> set evidence. pe_phase e = ph \<and> pe_passed e" "e \<in> set evidence"
    then have "pe_phase e \<in> set required_phases" using p(2) by auto
    with a(1) obtain e' where e': "e' \<in> set evidence" "pe_phase e' = pe_phase e" "pe_passed e'" by blast
    have "e' = e" using p(1) e'(1,2) a(2) by (simp add: distinct_map inj_on_def)
    with e'(3) show "pe_passed e" by simp
  qed
  show "final_passed r \<longleftrightarrow> phases_passed evidence \<and> gates_met batch p"
    unfolding final_passed_def p(7) final_verdict_cases no_gate_reasons_iff phases [symmetric] by blast
  show "fq_reasons r = [] \<longleftrightarrow> final_passed r" unfolding final_passed_def p(7,8) final_verdict_cases ..
  show "set (fq_evidence r) = set evidence" by (simp add: p(6) set_o)
qed

text \<open>A batch that qualified under a policy at least as strict meets every statistical gate of the final policy.\<close>

definition policy_within :: "final_policy \<Rightarrow> batch_policy \<Rightarrow> bool" where
  "policy_within f p \<longleftrightarrow> fp_min_runs f \<le> bp_min_runs p \<and> fp_min_is f \<le> bp_min_is p \<and> fp_min_oos f \<le> bp_min_oos p \<and>
     fp_min_trades f \<le> bp_min_trades p \<and> fp_min_profit_factor f \<le> bp_min_profit_factor p \<and> bp_max_drawdown p \<le> fp_max_drawdown f"

lemma verdict_qualified:
  assumes "fst (batch_verdict p n n_is n_oos trades is_exp observed factor aggregate ci_low dd) = Batch_Qualified"
  shows "bp_min_runs p \<le> int n" "bp_min_is p \<le> int n_is" "bp_min_oos p \<le> int n_oos" "bp_min_trades p \<le> trades"
    "\<exists>f. factor = Some f \<and> bp_min_profit_factor p \<le> f" "\<exists>e. aggregate = Some e \<and> 0 < e" "\<exists>l. ci_low = Some l \<and> 0 < l"
    "dd \<le> bp_max_drawdown p"
  using assms by (auto simp: batch_verdict_def Let_def not_less not_le split: if_splits)

lemma qualified_batch_meets_gates:
  assumes "qualify_batch items p = Inr r" "ba_decision r = Batch_Qualified" "policy_within f p"
  shows "gates_met r f"
proof -
  have r: "r = batch_report_of items p" using assms(1) by (simp add: qualify_batch_def guard_Inr_iff)
  note q = verdict_qualified [OF assms(2) [unfolded r batch_report_of_def Let_def batch_report.simps]]
  note f = assms(3) [unfolded policy_within_def]
  note fields = r batch_report_of_def Let_def batch_report.simps
  show ?thesis unfolding gates_met_def
  proof (intro conjI)
    show "ba_decision r = Batch_Qualified" by (rule assms(2))
    show "fp_min_runs f \<le> ba_runs r" "fp_min_is f \<le> ba_is_runs r" "fp_min_oos f \<le> ba_oos_runs r" "fp_min_trades f \<le> ba_trades r"
      "ba_p95_drawdown r \<le> fp_max_drawdown f"
      unfolding fields using q(1,2,3,4,8) f by linarith+
    show "\<exists>e. ba_aggregate_expectancy r = Some e \<and> 0 < e" "\<exists>l. ba_ci_low r = Some l \<and> 0 < l"
      unfolding fields by (rule q(6), rule q(7))
    show "\<exists>x. ba_profit_factor r = Some x \<and> fp_min_profit_factor f \<le> x"
      unfolding fields using q(5) f by (meson order_trans)
  qed
qed

subsection \<open>Slices do not overlap and weak runs are counted exactly\<close>

definition disjoint_slices :: "time_slice \<Rightarrow> time_slice \<Rightarrow> bool" where
  "disjoint_slices x y \<longleftrightarrow> (rt_series x = rt_series y \<longrightarrow> rt_end x \<le> rt_start y)"

lemma not_overlapping_disjoint:
  assumes "sorted (map slice_order xs)" "\<forall>x \<in> set xs. rt_start x < rt_end x" "\<not> overlapping xs"
  shows "sorted_wrt disjoint_slices xs"
  using assms
proof (induction xs rule: overlapping.induct)
  case (1 x y xs)
  then have IH: "sorted_wrt disjoint_slices (y # xs)" by simp
  have xy: "disjoint_slices x y" using "1.prems"(3) by (auto simp: disjoint_slices_def)
  have "disjoint_slices x z" if z: "z \<in> set xs" for z
  proof (cases "rt_series x = rt_series z")
    case True
    have "slice_order x \<le> slice_order y" "slice_order y \<le> slice_order z" using "1.prems"(1) z by auto
    then have "rt_series x \<le> rt_series y" "rt_series y \<le> rt_series z" by (auto simp: slice_order_def less_eq_prod_simp)
    with True have s: "rt_series y = rt_series x" "rt_series y = rt_series z" by auto
    then have "rt_end x \<le> rt_start y" "rt_start y < rt_end y" "rt_end y \<le> rt_start z"
      using xy IH z "1.prems"(2) by (auto simp: disjoint_slices_def)
    then show ?thesis by (simp add: disjoint_slices_def)
  qed (simp add: disjoint_slices_def)
  with xy IH show ?case by simp
qed simp_all

text \<open>The run that starts at the head of a list, and the longest run that starts anywhere in it.\<close>

definition run_from :: "(time_slice \<Rightarrow> bool) \<Rightarrow> string \<Rightarrow> time_slice list \<Rightarrow> nat" where
  "run_from weak s xs = length (takeWhile (\<lambda>y. weak y \<and> rt_series y = s) xs)"

fun best_run :: "(time_slice \<Rightarrow> bool) \<Rightarrow> time_slice list \<Rightarrow> nat" where
  "best_run weak [] = 0"
| "best_run weak (x # xs) = max (run_from weak (rt_series x) (x # xs)) (best_run weak xs)"

lemma run_from_le_best: "run_from weak s xs \<le> best_run weak xs"
  by (cases xs) (auto simp: run_from_def)

lemma weak_run_loop_best:
  "c \<le> l \<Longrightarrow> weak_run_loop weak xs c l (Some s) =
     max l (max (if run_from weak s xs = 0 then 0 else c + run_from weak s xs) (best_run weak xs))"
proof (induction xs arbitrary: c l s)
  case (Cons x xs)
  have bound: "run_from weak (rt_series x) xs \<le> best_run weak xs" by (rule run_from_le_best)
  consider "weak x" "rt_series x = s" | "weak x" "rt_series x \<noteq> s" | "\<not> weak x" by blast
  then show ?case
  proof cases
    case 1
    then have "run_from weak s (x # xs) = Suc (run_from weak s xs)" "run_from weak (rt_series x) (x # xs) = Suc (run_from weak s xs)"
      by (simp_all add: run_from_def)
    with 1 Cons.prems bound Cons.IH [of "c + 1" "max l (c + 1)" s] show ?thesis by (simp add: Let_def max_def)
  next
    case 2
    then have "run_from weak s (x # xs) = 0" "run_from weak (rt_series x) (x # xs) = Suc (run_from weak (rt_series x) xs)"
      by (simp_all add: run_from_def)
    with 2 Cons.prems bound Cons.IH [of 1 "max l 1" "rt_series x"] show ?thesis by (simp add: Let_def max_def)
  next
    case 3
    then have "run_from weak s (x # xs) = 0" "run_from weak (rt_series x) (x # xs) = 0" by (simp_all add: run_from_def)
    with 3 Cons.prems bound Cons.IH [of 0 l "rt_series x"] show ?thesis by (simp add: Let_def max_def)
  qed
qed (simp add: run_from_def)

lemma longest_is_best:
  "longest_weak_run xs overall f = best_run (\<lambda>x. relative_percent overall (rt_score x) < f) xs"
proof (cases xs)
  case (Cons x rest)
  let ?w = "\<lambda>x. relative_percent overall (rt_score x) < f"
  have "weak_run_loop ?w (x # rest) 0 0 None = weak_run_loop ?w (x # rest) 0 0 (Some (rt_series x))" by simp
  then show ?thesis using weak_run_loop_best [of 0 0 ?w "x # rest" "rt_series x"] run_from_le_best [of ?w "rt_series x" "x # rest"]
    by (simp add: longest_weak_run_def Cons max_def)
qed (simp add: longest_weak_run_def)

text \<open>A block of weak slices: consecutive, of one series.\<close>

definition weak_block :: "(time_slice \<Rightarrow> bool) \<Rightarrow> time_slice list \<Rightarrow> time_slice list \<Rightarrow> bool" where
  "weak_block weak xs zs \<longleftrightarrow> (\<exists>ys ws. xs = ys @ zs @ ws) \<and> (\<exists>s. \<forall>z \<in> set zs. weak z \<and> rt_series z = s)"

lemma takeWhile_prefix_length: "\<forall>z \<in> set zs. P z \<Longrightarrow> length zs \<le> length (takeWhile P (zs @ ws))"
  by (induction zs) auto

lemma best_run_append: "best_run weak xs \<le> best_run weak (ys @ xs)"
  by (induction ys) (auto simp: max.coboundedI2)

lemma weak_block_le_best:
  assumes "weak_block weak xs zs"
  shows "length zs \<le> best_run weak xs"
proof -
  from assms obtain ys ws s where b: "xs = ys @ zs @ ws" "\<forall>z \<in> set zs. weak z \<and> rt_series z = s"
    unfolding weak_block_def by blast
  have "length zs \<le> run_from weak s (zs @ ws)" unfolding run_from_def by (rule takeWhile_prefix_length) (use b(2) in simp)
  also have "\<dots> \<le> best_run weak (zs @ ws)" by (rule run_from_le_best)
  also have "\<dots> \<le> best_run weak xs" unfolding b(1) by (rule best_run_append)
  finally show ?thesis .
qed

lemma weak_block_Cons: "weak_block weak xs zs \<Longrightarrow> weak_block weak (x # xs) zs"
  unfolding weak_block_def by (metis append_Cons)

lemma best_run_attained: "\<exists>zs. weak_block weak xs zs \<and> length zs = best_run weak xs"
proof (induction xs)
  case (Cons x xs)
  let ?P = "\<lambda>y. weak y \<and> rt_series y = rt_series x"
  have "weak_block weak (x # xs) (takeWhile ?P (x # xs))"
    unfolding weak_block_def
    by (intro conjI exI [of _ "[]"] exI [of _ "dropWhile ?P (x # xs)"] exI [of _ "rt_series x"] ballI)
      (auto simp del: takeWhile.simps dropWhile.simps dest: set_takeWhileD)
  moreover from Cons obtain zs where "weak_block weak (x # xs) zs" "length zs = best_run weak xs" using weak_block_Cons by blast
  ultimately show ?case by (cases "run_from weak (rt_series x) (x # xs) \<le> best_run weak xs") (auto simp: run_from_def max_def)
qed (simp add: weak_block_def)

lemma regime_time_parts:
  assumes "qualify_regime_time_robustness sha plain xs t = Inr r"
  shows "\<not> overlapping (sort_key slice_order xs)" "0 < rq_overall r"
    "rq_weak_run r = longest_weak_run (sort_key slice_order xs) (rq_overall r) (rh_weak_floor t)"
    "rq_passed r \<Longrightarrow> int (rq_weak_run r) \<le> rh_max_weak_run t"
    "rq_passed r \<Longrightarrow> rq_worst_degradation r \<le> rh_max_degradation t"
    "rq_worst_degradation r = max_or_zero (map (shortfall_percent (rq_overall r) \<circ> rt_score) (sort_key slice_order xs))"
  using assms unfolding qualify_regime_time_robustness_def Let_def guard_Inr_iff judge_slices_def
  by auto

subsection \<open>Cost stress\<close>

lemma stressed_cost_at_least:
  assumes "require_adverse_or_equal b s = Inr ()"
  shows "total_cost_percent b \<le> total_cost_percent s"
  using assms by (simp add: require_adverse_or_equal_def guard_Inr_iff not_less total_cost_percent_def dadd_mono)

lemma stressed_result:
  assumes "cost_scenario_result gross b t (dsub gross (total_cost_percent b)) s = Inr x"
  shows "cz_net_edge x \<le> dsub gross (total_cost_percent b)" "cz_net_edge x = dsub gross (total_cost_percent s)"
    "cz_scenario_id x = cs_scenario_id s"
    "cz_passed x \<longleftrightarrow> ch_min_net_edge t \<le> cz_net_edge x \<and> cz_degradation x \<le> ch_max_degradation t" "0 \<le> cz_degradation x"
proof -
  from assms have a: "require_adverse_or_equal b s = Inr ()" and x: "cz_net_edge x = dsub gross (total_cost_percent s)"
    "cz_scenario_id x = cs_scenario_id s" "0 \<le> cz_degradation x"
    "cz_passed x \<longleftrightarrow> ch_min_net_edge t \<le> cz_net_edge x \<and> cz_degradation x \<le> ch_max_degradation t"
    by (auto simp: cost_scenario_result_def res_bind_Inr_iff Let_def)
  show "cz_net_edge x \<le> dsub gross (total_cost_percent b)"
    unfolding x(1) using stressed_cost_at_least [OF a] by (rule dsub_mono [OF order_refl])
qed (use assms in \<open>auto simp: cost_scenario_result_def res_bind_Inr_iff Let_def\<close>)

text \<open>The rounded fraction of a count is one exactly when the count is complete.\<close>

lemma rounded_fraction_one:
  assumes "k \<le> n" "0 < n" "n \<le> 10 ^ 20"
  shows "1 \<le> ddiv (of_nat k) (of_nat n) \<longleftrightarrow> k = n"
proof
  assume one: "1 \<le> ddiv (of_nat k :: rat) (of_nat n)"
  show "k = n"
  proof (rule ccontr)
    assume "k \<noteq> n"
    with assms have k: "k + 1 \<le> n" by simp
    have n: "(0 :: rat) < of_nat n" "(of_nat n :: rat) \<le> 10 ^ 20" using assms(2,3)
      by (simp, metis of_nat_le_iff of_nat_numeral of_nat_power)
    have "ddiv (of_nat k) (of_nat n) \<le> (of_nat k / of_nat n :: rat) * (1 + eps)" by (rule ddiv_upper) simp_all
    with one have "1 \<le> (of_nat k / of_nat n :: rat) * (1 + eps)" by linarith
    then have "of_nat n \<le> (of_nat k :: rat) * (1 + eps)" using n(1) by (simp add: field_simps)
    also have "\<dots> \<le> (of_nat n - 1) * (1 + eps)" using k
      by (intro mult_right_mono) (simp_all add: le_diff_eq of_nat_Suc [symmetric] del: of_nat_Suc)
    finally have "1 \<le> (of_nat n :: rat) * eps - eps" by (simp add: algebra_simps)
    moreover have "(of_nat n :: rat) * eps \<le> 10 ^ 20 * eps" using n(2) by (intro mult_right_mono) simp_all
    moreover have "(10 :: rat) ^ 20 * eps < 1" by (simp add: eps_def)
    moreover have "0 < eps" by simp
    ultimately show False by linarith
  qed
next
  assume "k = n"
  then show "1 \<le> ddiv (of_nat k :: rat) (of_nat n)" using assms(2) by (simp add: ddiv_def)
qed

lemma cost_report_parts:
  assumes "qualify_cost_robustness sha plain gross b scenarios t = Inr r" "cost_thresholds_make t = Inr t"
  shows "list_all2 (\<lambda>s x. cost_scenario_result gross b t (dsub gross (total_cost_percent b)) s = Inr x)
      (sort_key cs_scenario_id scenarios) (cq_results r)"
    "0 < length (cq_results r)" "length (cq_results r) \<le> 100000"
    "cq_fraction r = ddiv (of_nat (length (filter cz_passed (cq_results r)))) (of_nat (length (cq_results r)))"
    "cq_passed r \<longleftrightarrow> ch_min_fraction t \<le> cq_fraction r" "cq_baseline_net r = dsub gross (total_cost_percent b)"
    "0 < cq_baseline_net r" "cq_worst_net r = Min (set (map cz_net_edge (cq_results r)))"
proof -
  have a: "ch_min_count t \<le> int (length scenarios)" "int (length scenarios) \<le> ch_max_scenarios t"
    "res_map (cost_scenario_result gross b t (dsub gross (total_cost_percent b))) (sort_key cs_scenario_id scenarios) = Inr (cq_results r)"
    "cq_fraction r = ddiv (of_nat (length (filter cz_passed (cq_results r)))) (of_nat (length (cq_results r)))"
    "cq_passed r \<longleftrightarrow> ch_min_fraction t \<le> cq_fraction r" "cq_baseline_net r = dsub gross (total_cost_percent b)"
    "0 < cq_baseline_net r" "cq_worst_net r = Min (set (map cz_net_edge (cq_results r)))"
    using assms(1) unfolding qualify_cost_robustness_def Let_def guard_Inr_iff res_bind_Inr_iff by auto
  have t: "1 \<le> ch_min_count t" "ch_max_scenarios t \<le> 100000"
    using assms(2) unfolding cost_thresholds_make_def guard_Inr_iff by auto
  show l: "list_all2 (\<lambda>s x. cost_scenario_result gross b t (dsub gross (total_cost_percent b)) s = Inr x)
      (sort_key cs_scenario_id scenarios) (cq_results r)"
    using a(3) by (simp add: res_map_Inr_iff)
  have "length (cq_results r) = length scenarios" using list_all2_lengthD [OF l] by simp
  with a(1,2) t show "0 < length (cq_results r)" "length (cq_results r) \<le> 100000" by (cases scenarios; simp)+
qed (use assms(1) in \<open>auto simp: qualify_cost_robustness_def Let_def guard_Inr_iff res_bind_Inr_iff\<close>)

end
