(* ===== verification/Attribution.thy ===== *)
theory Attribution
  imports Backtest_Diagnostics Strategy_Validation
begin

section \<open>Attribution of a backtest\<close>

text \<open>
  \<^verbatim>\<open>app/backtest/regime_attribution.py\<close> and \<^verbatim>\<open>counterfactual_attribution.py\<close>: the events and the trades of a run are counted by the
  regime of the last completed day, by gate and by direction, and the counts are checked against the diagnostics of the run.
  Sums of profits are taken in a context of 128 digits. The texts of timestamps (\<open>stamp\<close>) and decimals (\<open>txt\<close>), which only error
  messages show, are arguments; the labels and explanations that are constants of the payload are left out of the records.
\<close>

subsection \<open>The wide context\<close>

definition wide :: "rat \<Rightarrow> rat" where
  "wide = rnd_prec 128"

interpretation wide: decimal_context wide
proof
  have p: "(0 :: nat) < 128" by simp
  show "wide x \<le> wide y" if "x \<le> y" for x y
    using rnd_prec_mono [OF that p] by (simp add: wide_def)
  show "wide (- x) = - wide x" for x by (simp add: wide_def rnd_prec_minus)
  show "wide (wide x) = wide x" for x
    using rnd_prec_representable [OF p, of x] rnd_prec_exact by (auto simp: wide_def representable_def)
  show "0 < wide x" if "0 < x" for x
    using rnd_prec_pos [OF that p] by (simp add: wide_def)
qed

definition precise_sum :: "rat list \<Rightarrow> rat" where
  "precise_sum xs = foldl (\<lambda>s x. wide (s + x)) 0 xs"

subsection \<open>The daily timeline\<close>

record regime_point =
  rgp_effective :: datetime
  rgp_regime :: string
  rgp_volatility :: string

fun plus_day :: "datetime \<Rightarrow> datetime" where
  "plus_day (Aware t) = Aware (t + 86400 * 10 ^ 6)"
| "plus_day (Naive t) = Naive (t + 86400 * 10 ^ 6)"

definition regime_point_of :: "candle list \<Rightarrow> candle \<Rightarrow> regime_point" where
  "regime_point_of history c =
     (let regime = classify_regime history (analyze_trend history)
      in \<lparr>rgp_effective = plus_day (cd_timestamp c), rgp_regime = rg_regime regime, rgp_volatility = rg_volatility regime\<rparr>)"

fun timeline_loop :: "candle list \<Rightarrow> candle list \<Rightarrow> regime_point list" where
  "timeline_loop history [] = []"
| "timeline_loop history (c # cs) = regime_point_of (history @ [c]) c # timeline_loop (history @ [c]) cs"

definition build_daily_regime_timeline :: "candle list \<Rightarrow> regime_point list" where
  "build_daily_regime_timeline daily = timeline_loop [] (sort_key (\<lambda>c. instant (cd_timestamp c)) daily)"

text \<open>\<^verbatim>\<open>bisect_right\<close> with a key, between \<open>lo\<close> and \<open>hi\<close>.\<close>

function bisect_right :: "('a \<Rightarrow> int) \<Rightarrow> 'a list \<Rightarrow> int \<Rightarrow> nat \<Rightarrow> nat \<Rightarrow> nat" where
  "bisect_right key xs x lo hi =
     (if lo < hi
      then let mid = (lo + hi) div 2
           in if x < key (xs ! mid) then bisect_right key xs x lo mid else bisect_right key xs x (mid + 1) hi
      else lo)"
  by pat_completeness auto
termination by (relation "measure (\<lambda>(key, xs, x, lo, hi). hi - lo)") auto

declare bisect_right.simps [simp del]

definition bucket_for :: "(datetime \<Rightarrow> string) \<Rightarrow> datetime \<Rightarrow> regime_point list \<Rightarrow> regime_point res" where
  "bucket_for stamp t regimes =
     guard (regimes = []) (ValueError ''regime timeline is empty'')
     (let index = int (bisect_right (instant \<circ> rgp_effective) regimes (instant t) 0 (length regimes)) - 1 in
      guard (index < 0) (ValueError (''no completed daily regime is available at '' @ stamp t)) (Inr (regimes ! nat index)))"

definition combined_label :: "regime_point \<Rightarrow> string" where
  "combined_label p = rgp_regime p @ ''|'' @ rgp_volatility p"

subsection \<open>Trades and events by regime\<close>

record bucket_metrics =
  bm_trades :: nat
  bm_wins :: nat
  bm_losses :: nat
  bm_breakeven :: nat
  bm_win_rate :: rat
  bm_net_pnl :: rat
  bm_net_percent :: rat
  bm_profit_factor :: "rat option"

definition wide_profit_factor :: "trade_record list \<Rightarrow> rat option" where
  "wide_profit_factor rows =
     (let positive = precise_sum (filter (\<lambda>x. 0 < x) (map td_realized_pnl rows));
          negative = precise_sum (filter (\<lambda>x. x < 0) (map td_realized_pnl rows))
      in if negative < 0 then Some (wide (positive / wide \<bar>negative\<bar>))
         else if 0 < positive then None else if rows = [] then None else Some 0)"

definition wide_win_rate :: "trade_record list \<Rightarrow> rat" where
  "wide_win_rate rows =
     (if rows = [] then 0
      else wide (wide (of_nat (length (filter (\<lambda>x. 0 < x) (map td_realized_pnl rows))) / of_nat (length rows)) * 100))"

definition summarize_bucket :: "rat \<Rightarrow> trade_record list \<Rightarrow> bucket_metrics" where
  "summarize_bucket initial_equity rows =
     (let pnls = map td_realized_pnl rows;
          wins = length (filter (\<lambda>x. 0 < x) pnls); losses = length (filter (\<lambda>x. x < 0) pnls); net = precise_sum pnls
      in \<lparr>bm_trades = length rows, bm_wins = wins, bm_losses = losses, bm_breakeven = length pnls - wins - losses,
          bm_win_rate = wide_win_rate rows, bm_net_pnl = net,
          bm_net_percent = (if 0 < initial_equity then wide (wide (net / initial_equity) * 100) else 0),
          bm_profit_factor = wide_profit_factor rows\<rparr>)"

definition summarize_groups :: "rat \<Rightarrow> (regime_point \<Rightarrow> string) \<Rightarrow> (regime_point \<times> trade_record) list \<Rightarrow> (string, bucket_metrics) dict" where
  "summarize_groups initial_equity label placed_trades =
     map (\<lambda>g. (fst g, summarize_bucket initial_equity (map snd (snd g))))
       (sort_key fst (fold (add_to_group (label \<circ> fst)) placed_trades []))"

definition place :: "(datetime \<Rightarrow> string) \<Rightarrow> regime_point list \<Rightarrow> ('a \<Rightarrow> datetime) \<Rightarrow> 'a \<Rightarrow> (regime_point \<times> 'a) res" where
  "place stamp regimes time_of x = res_bind (bucket_for stamp (time_of x) regimes) (\<lambda>p. Inr (p, x))"

definition trade_metrics ::
  "(datetime \<Rightarrow> string) \<Rightarrow> trade_record list \<Rightarrow> regime_point list \<Rightarrow> rat
    \<Rightarrow> ((string, bucket_metrics) dict \<times> (string, bucket_metrics) dict) res" where
  "trade_metrics stamp trades regimes initial_equity =
     res_bind (res_map (place stamp regimes td_entry_time) trades) (\<lambda>ps.
       Inr (summarize_groups initial_equity rgp_regime ps, summarize_groups initial_equity combined_label ps))"

definition decision_codes :: "string list" where
  "decision_codes = [''DECISION_NO_SNAPSHOT'', ''STRATEGY_PRE_SIGNAL_REJECT'', ''STRATEGY_SIGNAL_REJECT'', ''READY_FOR_RISK_REVIEW'']"

type_synonym counters = "(string, counter) dict"

definition counter_of :: "string \<Rightarrow> counters \<Rightarrow> counter" where
  "counter_of k d = (case dget d k of None \<Rightarrow> [] | Some c \<Rightarrow> c)"

definition tally_event :: "(regime_point \<Rightarrow> string) \<Rightarrow> regime_point \<times> bt_event \<Rightarrow> counters \<Rightarrow> counters" where
  "tally_event label x d =
     (let k = label (fst x); code = bv_code (snd x); c = bump code (counter_of k d)
      in dput k (if code \<in> set decision_codes then bump ''DECISION_POINTS'' c else c) d)"

definition serialize :: "counters \<Rightarrow> counters" where
  "serialize d = map (\<lambda>(k, c). (k, sorted_items c)) (sort_key fst d)"

record regime_attribution =
  rga_by_regime :: counters
  rga_by_volatility :: counters
  rga_by_combined :: counters
  rga_trades_by_regime :: "(string, bucket_metrics) dict"
  rga_trades_by_combined :: "(string, bucket_metrics) dict"

definition attribute_regime_evidence ::
  "(datetime \<Rightarrow> string) \<Rightarrow> bt_event list \<Rightarrow> trade_record list \<Rightarrow> regime_point list \<Rightarrow> rat \<Rightarrow> regime_attribution res" where
  "attribute_regime_evidence stamp events trades regimes initial_equity =
     res_bind (res_map (place stamp regimes bv_timestamp) events) (\<lambda>es.
     res_bind (trade_metrics stamp trades regimes initial_equity) (\<lambda>(by_regime, by_combined).
       Inr \<lparr>rga_by_regime = serialize (fold (tally_event rgp_regime) es []),
            rga_by_volatility = serialize (fold (tally_event rgp_volatility) es []),
            rga_by_combined = serialize (fold (tally_event combined_label) es []),
            rga_trades_by_regime = by_regime, rga_trades_by_combined = by_combined\<rparr>))"

definition code_total :: "string \<Rightarrow> counters \<Rightarrow> nat" where
  "code_total c d = sum_list (map (\<lambda>k. count_of (snd k) c) d)"

definition pnl_mismatch :: "(rat \<Rightarrow> string) \<Rightarrow> string \<Rightarrow> rat \<Rightarrow> rat \<Rightarrow> exn" where
  "pnl_mismatch txt what attributed actual =
     RuntimeError (what @ '' attribution PnL accounting mismatch: attributed='' @ txt attributed @ '' actual='' @ txt actual)"

definition validate_regime_attribution ::
  "(rat \<Rightarrow> string) \<Rightarrow> regime_attribution \<Rightarrow> nat \<Rightarrow> nat \<Rightarrow> nat \<Rightarrow> nat \<Rightarrow> trade_record list \<Rightarrow> unit res" where
  "validate_regime_attribution txt p decision_points ready entry_rejections trade_count trades =
     guard (code_total ''DECISION_POINTS'' (rga_by_regime p) \<noteq> decision_points)
       (RuntimeError ''regime attribution decision-point accounting mismatch'')
     (guard (code_total ''READY_FOR_RISK_REVIEW'' (rga_by_regime p) \<noteq> ready)
       (RuntimeError ''regime attribution READY accounting mismatch'')
     (guard (code_total ''ENTRY_REJECT'' (rga_by_regime p) \<noteq> entry_rejections)
       (RuntimeError ''regime attribution entry-rejection accounting mismatch'')
     (guard (code_total ''TRADE_OPENED'' (rga_by_regime p) \<noteq> trade_count)
       (RuntimeError ''regime attribution trade-open accounting mismatch'')
     (guard (sum_list (map (bm_trades \<circ> snd) (rga_trades_by_regime p)) \<noteq> trade_count)
       (RuntimeError ''regime attribution closed-trade accounting mismatch'')
     (let attributed = precise_sum (map (bm_net_pnl \<circ> snd) (rga_trades_by_regime p)); actual = precise_sum (map td_realized_pnl trades)
      in guard (attributed \<noteq> actual) (pnl_mismatch txt ''regime'' attributed actual) (Inr ()))))))"

subsection \<open>Attribution by gate and direction\<close>

record trade_summary =
  tz_trades :: nat
  tz_wins :: nat
  tz_losses :: nat
  tz_breakeven :: nat
  tz_win_rate :: rat
  tz_net_pnl :: rat
  tz_profit_factor :: "rat option"

definition trade_summary_of :: "trade_record list \<Rightarrow> trade_summary" where
  "trade_summary_of rows =
     (let pnls = map td_realized_pnl rows; wins = length (filter (\<lambda>x. 0 < x) pnls); losses = length (filter (\<lambda>x. x < 0) pnls)
      in \<lparr>tz_trades = length rows, tz_wins = wins, tz_losses = losses, tz_breakeven = length pnls - wins - losses,
          tz_win_rate = wide_win_rate rows, tz_net_pnl = precise_sum pnls, tz_profit_factor = wide_profit_factor rows\<rparr>)"

record quality =
  ql_min :: rat
  ql_max :: rat
  ql_average :: rat

definition signal_quality :: "(strategy_signal \<Rightarrow> rat) \<Rightarrow> bt_event list \<Rightarrow> quality option" where
  "signal_quality field events =
     (let vs = found_values (map (\<lambda>e. map_option field (bv_signal e)) events)
      in if vs = [] then None
         else Some \<lparr>ql_min = Min (set vs), ql_max = Max (set vs), ql_average = wide (precise_sum vs / of_nat (length vs))\<rparr>)"

definition post_signal_gates :: "(string \<times> string) list" where
  "post_signal_gates = [(''R:R below minimum'', ''MIN_RR''), (''score below minimum'', ''MIN_SCORE''),
     (''confidence below minimum'', ''MIN_CONFIDENCE'')]"

record gate_tally =
  gt_pre :: counter
  gt_occurrences :: counter
  gt_single :: counter
  gt_single_direction :: counters
  gt_ready :: counter
  gt_entry :: counter
  gt_entry_direction :: counters
  gt_entry_events :: "(string, bt_event list) dict"
  gt_post_direction :: counter
  gt_multi :: nat

definition gate_tally_new :: gate_tally where
  "gate_tally_new = \<lparr>gt_pre = [], gt_occurrences = [], gt_single = [], gt_single_direction = [], gt_ready = [], gt_entry = [],
     gt_entry_direction = [], gt_entry_events = [], gt_post_direction = [], gt_multi = 0\<rparr>"

definition event_direction :: "bt_event \<Rightarrow> string option" where
  "event_direction e = map_option sg_direction (bv_signal e)"

definition bump_direction :: "bt_event \<Rightarrow> counter \<Rightarrow> counter" where
  "bump_direction e c = (case event_direction e of None \<Rightarrow> c | Some d \<Rightarrow> bump d c)"

definition bump_within :: "string \<Rightarrow> bt_event \<Rightarrow> counters \<Rightarrow> counters" where
  "bump_within k e d = (case event_direction e of None \<Rightarrow> d | Some x \<Rightarrow> dput k (bump x (counter_of k d)) d)"

definition entry_reason :: "bt_event \<Rightarrow> string \<Rightarrow> gate_tally \<Rightarrow> gate_tally" where
  "entry_reason e reason g =
     g\<lparr>gt_entry := bump reason (gt_entry g),
       gt_entry_events := dput reason ((case dget (gt_entry_events g) reason of None \<Rightarrow> [] | Some es \<Rightarrow> es) @ [e]) (gt_entry_events g),
       gt_entry_direction := bump_within reason e (gt_entry_direction g)\<rparr>"

definition gate_step :: "bt_event \<Rightarrow> gate_tally \<Rightarrow> gate_tally" where
  "gate_step e g =
     (if bv_code e = ''STRATEGY_PRE_SIGNAL_REJECT'' then g\<lparr>gt_pre := fold bump (bv_reasons e) (gt_pre g)\<rparr>
      else if bv_code e = ''STRATEGY_SIGNAL_REJECT'' then
        (let g1 = g\<lparr>gt_post_direction := bump_direction e (gt_post_direction g),
               gt_multi := (if 1 < length (bv_reasons e) then gt_multi g + 1 else gt_multi g),
               gt_occurrences := fold bump (bv_reasons e) (gt_occurrences g)\<rparr>
         in case bv_reasons e of
              [reason] \<Rightarrow> (case dget post_signal_gates reason of
                  None \<Rightarrow> g1
                | Some gate \<Rightarrow> g1\<lparr>gt_single := bump gate (gt_single g1), gt_single_direction := bump_within gate e (gt_single_direction g1)\<rparr>)
            | _ \<Rightarrow> g1)
      else if bv_code e = ''READY_FOR_RISK_REVIEW'' then g\<lparr>gt_ready := bump_direction e (gt_ready g)\<rparr>
      else if bv_code e = ''ENTRY_REJECT'' then fold (entry_reason e) (bv_reasons e) g
      else g)"

record direction_flow =
  dfl_post :: nat
  dfl_ready :: nat
  dfl_entry :: nat
  dfl_opened :: nat
  dfl_summary :: trade_summary

record post_gate =
  pg_reason :: string
  pg_occurrences :: nat
  pg_candidates :: nat
  pg_by_direction :: counter

record risk_gate =
  kg_candidates :: nat
  kg_by_direction :: counter
  kg_rr :: "quality option"
  kg_score :: "quality option"
  kg_confidence :: "quality option"

record gate_attribution =
  ga_pre :: counter
  ga_post_gates :: "(string, post_gate) dict"
  ga_multi :: nat
  ga_risk_gates :: "(string, risk_gate) dict"
  ga_flow :: "(string, direction_flow) dict"

definition flow_directions :: "gate_tally \<Rightarrow> trade_record list \<Rightarrow> string list" where
  "flow_directions g trades =
     sort (remdups (map fst (gt_ready g) @ map fst (gt_post_direction g) @ map td_direction trades @
       concat (map (map fst \<circ> snd) (gt_entry_direction g))))"

definition flow_of :: "gate_tally \<Rightarrow> trade_record list \<Rightarrow> string \<Rightarrow> direction_flow" where
  "flow_of g trades d =
     (let mine = filter (\<lambda>t. td_direction t = d) trades
      in \<lparr>dfl_post = count_of (gt_post_direction g) d, dfl_ready = count_of (gt_ready g) d,
          dfl_entry = code_total d (gt_entry_direction g), dfl_opened = length mine, dfl_summary = trade_summary_of mine\<rparr>)"

definition build_counterfactual_gate_attribution :: "bt_event list \<Rightarrow> trade_record list \<Rightarrow> gate_attribution" where
  "build_counterfactual_gate_attribution events trades =
     (let g = fold gate_step events gate_tally_new
      in \<lparr>ga_pre = sorted_items (gt_pre g),
          ga_post_gates = map (\<lambda>(reason, gate). (gate,
            \<lparr>pg_reason = reason, pg_occurrences = count_of (gt_occurrences g) reason, pg_candidates = count_of (gt_single g) gate,
             pg_by_direction = sorted_items (counter_of gate (gt_single_direction g))\<rparr>)) post_signal_gates,
          ga_multi = gt_multi g,
          ga_risk_gates = map (\<lambda>reason. let es = (case dget (gt_entry_events g) reason of None \<Rightarrow> [] | Some es \<Rightarrow> es) in (reason,
            \<lparr>kg_candidates = count_of (gt_entry g) reason, kg_by_direction = sorted_items (counter_of reason (gt_entry_direction g)),
             kg_rr = signal_quality sg_rr es, kg_score = signal_quality sg_score es, kg_confidence = signal_quality sg_confidence es\<rparr>))
            (sort (map fst (gt_entry g))),
          ga_flow = map (\<lambda>d. (d, flow_of g trades d)) (flow_directions g trades)\<rparr>)"

definition validate_counterfactual_gate_attribution ::
  "(rat \<Rightarrow> string) \<Rightarrow> gate_attribution \<Rightarrow> nat \<Rightarrow> nat \<Rightarrow> nat \<Rightarrow> trade_record list \<Rightarrow> unit res" where
  "validate_counterfactual_gate_attribution txt p ready entry_rejections trade_count trades =
     guard (sum_list (map (dfl_ready \<circ> snd) (ga_flow p)) \<noteq> ready)
       (RuntimeError ''counterfactual attribution READY accounting mismatch'')
     (guard (sum_list (map (dfl_entry \<circ> snd) (ga_flow p)) \<noteq> entry_rejections)
       (RuntimeError ''counterfactual attribution entry-rejection accounting mismatch'')
     (guard (sum_list (map (dfl_opened \<circ> snd) (ga_flow p)) \<noteq> trade_count)
       (RuntimeError ''counterfactual attribution trade-open accounting mismatch'')
     (let attributed = precise_sum (map (tz_net_pnl \<circ> dfl_summary \<circ> snd) (ga_flow p)); actual = precise_sum (map td_realized_pnl trades)
      in guard (attributed \<noteq> actual) (pnl_mismatch txt ''counterfactual'' attributed actual) (Inr ()))))"

subsection \<open>The bucket of a time is the analysis of the days completed by then\<close>

lemma bisect_right_spec:
  assumes "sorted (map key xs)" "lo \<le> hi" "hi \<le> length xs" "\<forall>i < lo. key (xs ! i) \<le> x"
    "\<forall>i. hi \<le> i \<and> i < length xs \<longrightarrow> x < key (xs ! i)"
  shows "bisect_right key xs x lo hi \<le> length xs \<and> (\<forall>i < bisect_right key xs x lo hi. key (xs ! i) \<le> x) \<and>
    (\<forall>i. bisect_right key xs x lo hi \<le> i \<and> i < length xs \<longrightarrow> x < key (xs ! i))"
  using assms
proof (induction key xs x lo hi rule: bisect_right.induct)
  case (1 key xs x lo hi)
  show ?case
  proof (cases "lo < hi")
    case True
    let ?mid = "(lo + hi) div 2"
    have mid: "lo \<le> ?mid" "?mid < hi" "?mid < length xs" using True "1.prems"(3) by auto
    have order: "key (xs ! i) \<le> key (xs ! j)" if "i \<le> j" "j < length xs" for i j
      using sorted_nth_mono [OF "1.prems"(1) that(1)] that by simp
    show ?thesis
    proof (cases "x < key (xs ! ?mid)")
      case below: True
      have "\<forall>i. ?mid \<le> i \<and> i < length xs \<longrightarrow> x < key (xs ! i)" using below order by (meson less_le_trans)
      with "1.IH"(1) [OF True refl below] mid "1.prems"(1,4) show ?thesis
        using True below by (subst (1 2 3) bisect_right.simps) simp
    next
      case above: False
      have "\<forall>i < Suc ?mid. key (xs ! i) \<le> x" using above order mid(3) by (meson leI less_Suc_eq_le order_trans)
      with "1.IH"(2) [OF True refl above] mid "1.prems"(1,3,5) show ?thesis
        using True above by (subst (1 2 3) bisect_right.simps) simp
    qed
  next
    case False
    with "1.prems" show ?thesis by (subst (1 2 3) bisect_right.simps) simp
  qed
qed

lemma timeline_loop_nth:
  "length (timeline_loop h cs) = length cs"
  "i < length cs \<Longrightarrow> timeline_loop h cs ! i = regime_point_of (h @ take (Suc i) cs) (cs ! i)"
proof -
  show "length (timeline_loop h cs) = length cs" by (induction cs arbitrary: h) simp_all
  show "i < length cs \<Longrightarrow> timeline_loop h cs ! i = regime_point_of (h @ take (Suc i) cs) (cs ! i)"
  proof (induction cs arbitrary: h i)
    case (Cons c cs)
    then show ?case by (cases i) simp_all
  qed simp
qed

lemma effective_instant: "instant (rgp_effective (regime_point_of h c)) = instant (cd_timestamp c) + 86400 * 10 ^ 6"
  by (cases "cd_timestamp c") (simp_all add: regime_point_of_def Let_def)

lemma sorted_filter_take:
  assumes "n \<le> length xs" "\<forall>i < n. P (xs ! i)" "\<forall>i. n \<le> i \<and> i < length xs \<longrightarrow> \<not> P (xs ! i)"
  shows "filter P xs = take n xs"
proof -
  have "filter P (take n xs) = take n xs" using assms(1,2) by (auto simp: filter_id_conv in_set_conv_nth)
  moreover have "filter P (drop n xs) = []" using assms(3) by (auto simp: filter_empty_conv in_set_conv_nth)
  moreover have "filter P xs = filter P (take n xs) @ filter P (drop n xs)" by (metis append_take_drop_id filter_append)
  ultimately show ?thesis by simp
qed

definition completed_days :: "int \<Rightarrow> candle list \<Rightarrow> candle list" where
  "completed_days t daily = filter (\<lambda>c. instant (cd_timestamp c) + 86400 * 10 ^ 6 \<le> t) (sort_key (\<lambda>c. instant (cd_timestamp c)) daily)"

lemma bucket_is_completed:
  "bucket_for stamp t (build_daily_regime_timeline daily) =
     (let days = completed_days (instant t) daily
      in if daily = [] then Inl (ValueError ''regime timeline is empty'')
         else if days = [] then Inl (ValueError (''no completed daily regime is available at '' @ stamp t))
         else Inr (regime_point_of days (last days)))"
proof -
  let ?os = "sort_key (\<lambda>c. instant (cd_timestamp c)) daily"
  let ?tl = "build_daily_regime_timeline daily"
  let ?key = "instant \<circ> rgp_effective"
  have len: "length ?tl = length ?os" by (simp add: build_daily_regime_timeline_def timeline_loop_nth(1))
  have nth: "?tl ! i = regime_point_of (take (Suc i) ?os) (?os ! i)" if "i < length ?os" for i
    unfolding build_daily_regime_timeline_def using timeline_loop_nth(2) [OF that, of "[]"] by simp
  have keys: "?key (?tl ! i) = instant (cd_timestamp (?os ! i)) + 86400 * 10 ^ 6" if "i < length ?os" for i
    using nth [OF that] by (simp add: effective_instant)
  have "map ?key ?tl = map (\<lambda>c. instant (cd_timestamp c) + 86400 * 10 ^ 6) ?os"
    using len keys by (simp add: list_eq_iff_nth_eq)
  moreover have "sorted (map (\<lambda>c. instant (cd_timestamp c) + 86400 * 10 ^ 6) ?os)"
    using sorted_sort_key [of "\<lambda>c. instant (cd_timestamp c)" daily] by (simp add: sorted_map)
  ultimately have sorted: "sorted (map ?key ?tl)" by simp
  let ?n = "bisect_right ?key ?tl (instant t) 0 (length ?tl)"
  note spec = bisect_right_spec [OF sorted, of 0 "length ?tl" "instant t", simplified]
  have days: "completed_days (instant t) daily = take ?n ?os"
    unfolding completed_days_def
  proof (rule sorted_filter_take)
    show "?n \<le> length ?os" using spec len by simp
    show "\<forall>i < ?n. instant (cd_timestamp (?os ! i)) + 86400 * 10 ^ 6 \<le> instant t"
      using spec len keys by (metis (no_types, lifting) comp_apply less_le_trans)
    show "\<forall>i. ?n \<le> i \<and> i < length ?os \<longrightarrow> \<not> instant (cd_timestamp (?os ! i)) + 86400 * 10 ^ 6 \<le> instant t"
      using spec len keys by (metis (no_types, lifting) comp_apply not_le)
  qed
  show ?thesis
  proof (cases "daily = []")
    case True
    then show ?thesis by (simp add: bucket_for_def build_daily_regime_timeline_def)
  next
    case False
    then have ne: "?tl \<noteq> []" "?os \<noteq> []" using len by (metis length_0_conv length_sort)+
    show ?thesis
    proof (cases "?n = 0")
      case True
      then show ?thesis using False ne by (simp add: bucket_for_def days Let_def)
    next
      case n: False
      then have i: "?n - 1 < length ?os" "Suc (?n - 1) = ?n" using spec len by auto
      have "last (take ?n ?os) = ?os ! (?n - 1)" using take_Suc_conv_app_nth [OF i(1)] unfolding i(2) by simp
      moreover have "take ?n ?os \<noteq> []" using n ne by simp
      moreover have "nat (int ?n - 1) = ?n - 1" using n by simp
      ultimately show ?thesis using False ne n nth [OF i(1)] i(2) by (simp add: bucket_for_def days Let_def guard_def)
    qed
  qed
qed

subsection \<open>Sums that the wide context keeps exact\<close>

definition fits_wide :: "int \<Rightarrow> rat list \<Rightarrow> bool" where
  "fits_wide k xs \<longleftrightarrow> list_all (on_grid k) xs \<and> sum_list (map abs xs) < 10 ^ 128 * p10 k"

lemma wide_exact:
  assumes "on_grid k x" "\<bar>x\<bar> < 10 ^ 128 * p10 k"
  shows "wide x = x"
proof -
  obtain m where m: "x = of_int m * p10 k" using assms(1) by (auto simp: on_grid_def)
  have "of_int \<bar>m\<bar> * p10 k < 10 ^ 128 * p10 k" using assms(2) p10_pos [of k] by (simp add: m abs_mult)
  then have "(of_int \<bar>m\<bar> :: rat) < of_int (10 ^ 128)" using p10_pos [of k] by simp
  then have "\<bar>m\<bar> < 10 ^ 128" by (simp only: of_int_less_iff)
  then show ?thesis unfolding wide_def by (rule rnd_prec_exact [OF m])
qed

lemma precise_fold_exact:
  "list_all (on_grid k) xs \<Longrightarrow> on_grid k a \<Longrightarrow> \<bar>a\<bar> + sum_list (map abs xs) < 10 ^ 128 * p10 k \<Longrightarrow>
     foldl (\<lambda>s x. wide (s + x)) a xs = a + sum_list xs"
proof (induction xs arbitrary: a)
  case (Cons x xs)
  have ax: "on_grid k (a + x)" using Cons.prems by (simp add: on_grid_add)
  have nonneg: "0 \<le> sum_list (map abs xs)" by (rule sum_list_nonneg) auto
  have "\<bar>a + x\<bar> + sum_list (map abs xs) < 10 ^ 128 * p10 k" using Cons.prems(3) abs_triangle_ineq [of a x] by simp
  moreover from this nonneg have "wide (a + x) = a + x" by (intro wide_exact [OF ax]) linarith
  ultimately show ?case using Cons.IH [OF _ ax] Cons.prems(1) by (simp add: add.assoc)
qed simp

lemma on_grid_zero: "on_grid k 0"
  by (auto simp: on_grid_def intro: exI [of _ 0])

lemma precise_sum_exact: "fits_wide k xs \<Longrightarrow> precise_sum xs = sum_list xs"
  using precise_fold_exact [of k xs 0] by (simp add: precise_sum_def fits_wide_def on_grid_zero)

lemma on_grid_sum: "list_all (on_grid k) xs \<Longrightarrow> on_grid k (sum_list xs)"
  by (induction xs) (simp_all add: on_grid_add on_grid_zero)

text \<open>Splitting the profits into groups and summing the sums of the groups loses nothing.\<close>

lemma sum_abs_groups: "sum_list (map abs (map sum_list gs)) \<le> sum_list (map abs (concat gs))" for gs :: "rat list list"
proof (induction gs)
  case (Cons g gs)
  have "\<bar>sum_list g\<bar> \<le> sum_list (map abs g)" by (rule sum_list_abs)
  with Cons show ?case by simp
qed simp

lemma fits_wide_perm: "mset xs = mset ys \<Longrightarrow> fits_wide k xs \<Longrightarrow> fits_wide k ys"
proof -
  assume m: "mset xs = mset ys" "fits_wide k xs"
  have "set xs = set ys" using m(1) by (rule mset_eq_setD)
  moreover have "sum_list (map abs xs) = sum_list (map abs ys)" using m(1) by (metis mset_map sum_mset_sum_list)
  ultimately show ?thesis using m(2) by (simp add: fits_wide_def list_all_iff)
qed

lemma fits_wide_groups:
  assumes "fits_wide k (concat gs)"
  shows "\<forall>g \<in> set gs. fits_wide k g" "fits_wide k (map sum_list gs)"
proof -
  have "fits_wide k g" if "g \<in> set gs" for g
  proof -
    have nonneg: "0 \<le> sum_list (map abs xs)" for xs :: "rat list" by (rule sum_list_nonneg) auto
    obtain as bs where gs: "gs = as @ g # bs" using \<open>g \<in> set gs\<close> by (meson split_list)
    then have "sum_list (map abs (concat gs)) = sum_list (map abs (concat as)) + sum_list (map abs g) + sum_list (map abs (concat bs))"
      by simp
    with nonneg [of "concat as"] nonneg [of "concat bs"] assms \<open>g \<in> set gs\<close> show ?thesis
      by (auto simp: fits_wide_def list_all_iff)
  qed
  then show "\<forall>g \<in> set gs. fits_wide k g" ..
  then have "list_all (on_grid k) (map sum_list gs)" by (auto simp: list_all_iff fits_wide_def intro!: on_grid_sum [unfolded list_all_iff])
  then show "fits_wide k (map sum_list gs)" using assms sum_abs_groups [of gs] by (auto simp: fits_wide_def)
qed

lemma precise_sum_groups:
  assumes "fits_wide k xs" "mset (concat gs) = mset xs"
  shows "precise_sum (map precise_sum gs) = precise_sum xs"
proof -
  have f: "fits_wide k (concat gs)" using fits_wide_perm [OF assms(2) [symmetric] assms(1)] .
  have m: "map precise_sum gs = map sum_list gs" by (intro map_cong refl) (use fits_wide_groups(1) [OF f] precise_sum_exact in blast)
  have "precise_sum (map precise_sum gs) = sum_list (map sum_list gs)"
    unfolding m by (rule precise_sum_exact [OF fits_wide_groups(2) [OF f]])
  also have "\<dots> = sum_list (concat gs)" by (induction gs) simp_all
  also have "\<dots> = sum_list xs" using assms(2) by (metis sum_mset_sum_list)
  also have "\<dots> = precise_sum xs" using precise_sum_exact [OF assms(1)] by simp
  finally show ?thesis .
qed

subsection \<open>Groups hold every element once\<close>

lemma mset_put:
  "mset (concat (map snd (dput k (ys @ [x]) g))) = mset (concat (map snd g)) + {#x#}"
  if "dict_ok g" "ys = (case dget g k of None \<Rightarrow> [] | Some xs \<Rightarrow> xs)"
  using that by (induction g) (auto simp: dict_ok_def split: option.splits)

lemma groups_mset: "dict_ok g \<Longrightarrow> mset (concat (map snd (fold (add_to_group f) xs g))) = mset (concat (map snd g)) + mset xs"
proof (induction xs arbitrary: g)
  case (Cons x xs)
  have "dict_ok (add_to_group f x g)" using groups_ok [of g f "[x]"] Cons.prems by simp
  then show ?case using Cons.IH [of "add_to_group f x g"] mset_put [OF Cons.prems refl, of "f x" x]
    by (simp add: add_to_group_def)
qed simp

lemma mset_concat_perm: "mset gs = mset hs \<Longrightarrow> mset (concat gs) = mset (concat hs)"
  by (metis mset_concat mset_map sum_mset_sum_list)

lemma filters_mset:
  "distinct ds \<Longrightarrow> f ` set xs \<subseteq> set ds \<Longrightarrow> mset (concat (map (\<lambda>d. filter (\<lambda>x. f x = d) xs) ds)) = mset xs"
proof (induction ds arbitrary: xs)
  case (Cons d ds)
  have m: "map (\<lambda>e. filter (\<lambda>x. f x = e) xs) ds = map (\<lambda>e. filter (\<lambda>x. f x = e) (filter (\<lambda>x. f x \<noteq> d) xs)) ds"
  proof (rule map_cong [OF refl])
    fix e assume "e \<in> set ds"
    then have "e \<noteq> d" using Cons.prems(1) by auto
    then have "(\<lambda>x. f x \<noteq> d \<and> f x = e) = (\<lambda>x. f x = e)" by auto
    then show "filter (\<lambda>x. f x = e) xs = filter (\<lambda>x. f x = e) (filter (\<lambda>x. f x \<noteq> d) xs)"
      by (simp only: filter_filter)
  qed
  have "mset (concat (map (\<lambda>e. filter (\<lambda>x. f x = e) (filter (\<lambda>x. f x \<noteq> d) xs)) ds)) = mset (filter (\<lambda>x. f x \<noteq> d) xs)"
    using Cons.prems by (intro Cons.IH) auto
  then have "mset (concat (map (\<lambda>e. filter (\<lambda>x. f x = e) xs) ds)) = mset (filter (\<lambda>x. f x \<noteq> d) xs)" unfolding m .
  moreover have "mset xs = mset (filter (\<lambda>x. f x = d) xs) + mset (filter (\<lambda>x. f x \<noteq> d) xs)"
    unfolding mset_filter by (rule multiset_partition)
  ultimately show ?case by (simp only: list.map concat.simps mset_append)
qed simp

subsection \<open>Counters add up\<close>

definition nested_counters_ok :: "counters \<Rightarrow> bool" where
  "nested_counters_ok d \<longleftrightarrow> dict_ok d \<and> (\<forall>c \<in> set (map snd d). dict_ok c)"

lemma dict_ok_bump: "dict_ok c \<Longrightarrow> dict_ok (bump k c)"
  by (simp add: bump_def dict_ok_dput)

lemma counter_of_ok: "nested_counters_ok d \<Longrightarrow> dict_ok (counter_of k d)"
  by (force simp: nested_counters_ok_def counter_of_def split: option.splits dest: map_of_SomeD)

lemma counters_ok_put: "nested_counters_ok d \<Longrightarrow> dict_ok c \<Longrightarrow> nested_counters_ok (dput k c d)"
  using set_dput [of d k c] by (auto simp: nested_counters_ok_def dict_ok_dput)

lemma sum_put:
  "dict_ok d \<Longrightarrow> h [] = 0 \<Longrightarrow>
     sum_list (map (h \<circ> snd) (dput k c d)) + h (counter_of k d) = sum_list (map (h \<circ> snd) d) + (h c :: nat)"
proof (induction d)
  case (Cons p d)
  obtain a b where p: "p = (a, b)" by (cases p)
  show ?case
  proof (cases "k = a")
    case True
    then show ?thesis by (simp add: p counter_of_def)
  next
    case False
    then show ?thesis using Cons by (simp add: p counter_of_def dict_ok_def)
  qed
qed (simp add: counter_of_def)

lemma code_total_put: "dict_ok d \<Longrightarrow> code_total x (dput k c d) + count_of (counter_of k d) x = code_total x d + count_of c x"
  using sum_put [of d "\<lambda>c. count_of c x" k c] by (simp add: code_total_def comp_def count_of_def)

lemma count_of_sorted: "dict_ok c \<Longrightarrow> count_of (sorted_items c) x = count_of c x"
proof -
  assume c: "dict_ok c"
  have "distinct (map fst (sort_key fst c))" using c by (simp add: dict_ok_def distinct_map)
  then have "dget (sort_key fst c) = dget c" using c by (subst map_of_inject_set) (simp_all add: dict_ok_def)
  then show ?thesis by (simp add: count_of_def sorted_items_def)
qed

lemma code_total_serialize:
  assumes "nested_counters_ok d"
  shows "code_total x (serialize d) = code_total x d"
proof -
  have "code_total x (serialize d) = sum_list (map (\<lambda>p. count_of (sorted_items (snd p)) x) (sort_key fst d))"
    by (simp add: code_total_def serialize_def comp_def split_def)
  also have "\<dots> = sum_list (map (\<lambda>p. count_of (sorted_items (snd p)) x) d)" by (rule sum_sort_key)
  also have "\<dots> = code_total x d"
    unfolding code_total_def using assms count_of_sorted
    by (intro arg_cong [of _ _ sum_list] map_cong refl) (auto simp: nested_counters_ok_def)
  finally show ?thesis .
qed

subsection \<open>The regime attribution accounts for every event and trade\<close>

definition event_weight :: "string \<Rightarrow> bt_event \<Rightarrow> nat" where
  "event_weight c e = (if bv_code e = c then 1 else 0) +
     (if bv_code e \<in> set decision_codes \<and> c = ''DECISION_POINTS'' then 1 else 0)"

lemma tally_event_step:
  assumes "nested_counters_ok d"
  shows "nested_counters_ok (tally_event label x d)" "code_total c (tally_event label x d) = code_total c d + event_weight c (snd x)"
proof -
  let ?k = "label (fst x)" and ?code = "bv_code (snd x)"
  let ?b = "bump ?code (counter_of ?k d)"
  let ?c = "if ?code \<in> set decision_codes then bump ''DECISION_POINTS'' ?b else ?b"
  have t: "tally_event label x d = dput ?k ?c d" by (simp add: tally_event_def Let_def)
  have "dict_ok ?c" using counter_of_ok [OF assms, of ?k] by (simp add: dict_ok_bump)
  then show "nested_counters_ok (tally_event label x d)" unfolding t by (rule counters_ok_put [OF assms])
  have "count_of ?c c = count_of (counter_of ?k d) c + event_weight c (snd x)"
    by (simp add: count_of_bump event_weight_def)
  with code_total_put [of d c ?k ?c] assms show "code_total c (tally_event label x d) = code_total c d + event_weight c (snd x)"
    unfolding t by (simp add: nested_counters_ok_def)
qed

lemma tally_total:
  "nested_counters_ok d \<Longrightarrow> nested_counters_ok (fold (tally_event label) es d) \<and>
     code_total c (fold (tally_event label) es d) = code_total c d + sum_list (map (event_weight c \<circ> snd) es)"
proof (induction es arbitrary: d)
  case (Cons x es)
  show ?case using Cons.IH [OF tally_event_step(1) [OF Cons.prems, of label x]] tally_event_step(2) [OF Cons.prems, of c label x]
    by simp
qed simp

lemma placed_elements: "res_map (place stamp regimes time_of) xs = Inr ps \<Longrightarrow> map snd ps = xs"
  by (induction xs arbitrary: ps) (auto simp: res_bind_Inr_iff place_def)

lemma weight_coded: "c \<noteq> ''DECISION_POINTS'' \<Longrightarrow> sum_list (map (event_weight c) evs) = coded c evs"
  by (induction evs) (auto simp: event_weight_def coded_def)

lemma weight_decisions:
  assumes "coded ''DECISION_POINTS'' evs = 0"
  shows "sum_list (map (event_weight ''DECISION_POINTS'') evs) = sum_list (map (\<lambda>c. coded c evs) decision_codes)"
  using assms
proof (induction evs)
  case (Cons e evs)
  have "sum_list (map (\<lambda>c. coded c (e # evs)) decision_codes) =
      (if bv_code e \<in> set decision_codes then 1 else 0) + sum_list (map (\<lambda>c. coded c evs) decision_codes)"
    by (auto simp: decision_codes_def coded_def)
  with Cons show ?case by (auto simp: event_weight_def coded_def split: if_splits)
qed (simp add: coded_def decision_codes_def)

lemma summarized_counts: "sum_list (map (bm_trades \<circ> snd) (summarize_groups eq label ps)) = length ps"
proof -
  let ?G = "fold (add_to_group (label \<circ> fst)) ps []"
  have "sum_list (map (bm_trades \<circ> snd) (summarize_groups eq label ps)) = sum_list (map (\<lambda>g. length (snd g)) (sort_key fst ?G))"
    by (simp add: summarize_groups_def comp_def summarize_bucket_def Let_def)
  also have "\<dots> = group_sizes ?G" by (simp only: sum_sort_key group_sizes_def)
  also have "\<dots> = length ps" by (simp only: group_sizes_fold) (simp add: group_sizes_def)
  finally show ?thesis .
qed

lemma summarized_pnl:
  assumes "fits_wide k (map (td_realized_pnl \<circ> snd) ps)"
  shows "precise_sum (map (bm_net_pnl \<circ> snd) (summarize_groups eq label ps)) = precise_sum (map (td_realized_pnl \<circ> snd) ps)"
proof -
  let ?G = "fold (add_to_group (label \<circ> fst)) ps []"
  let ?f = "td_realized_pnl \<circ> snd"
  have nets: "map (bm_net_pnl \<circ> snd) (summarize_groups eq label ps) = map precise_sum (map (map ?f) (map snd (sort_key fst ?G)))"
    by (simp add: summarize_groups_def summarize_bucket_def Let_def comp_def)
  have "mset (map snd (sort_key fst ?G)) = mset (map snd ?G)" by (metis mset_map mset_sort)
  then have "mset (concat (map snd (sort_key fst ?G))) = mset (concat (map snd ?G))" by (rule mset_concat_perm)
  also have "\<dots> = mset ps" using groups_mset [of "[]" "label \<circ> fst" ps] by simp
  finally have "mset (map ?f (concat (map snd (sort_key fst ?G)))) = mset (map ?f ps)" by (metis mset_map)
  then have "mset (concat (map (map ?f) (map snd (sort_key fst ?G)))) = mset (map ?f ps)" by (simp only: map_concat)
  then show ?thesis unfolding nets by (rule precise_sum_groups [OF assms])
qed

lemma regime_attribution_valid:
  assumes "attribute_regime_evidence stamp evs trades regimes eq = Inr p" "fits_wide k (map td_realized_pnl trades)"
    "coded ''DECISION_POINTS'' evs = 0" "coded ''TRADE_OPENED'' evs = length trades"
  shows "validate_regime_attribution txt p (sum_list (map (\<lambda>c. coded c evs) decision_codes)) (coded ''READY_FOR_RISK_REVIEW'' evs)
    (coded ''ENTRY_REJECT'' evs) (length trades) trades = Inr ()"
proof -
  obtain es ps where e: "res_map (place stamp regimes bv_timestamp) evs = Inr es" "res_map (place stamp regimes td_entry_time) trades = Inr ps"
    "rga_by_regime p = serialize (fold (tally_event rgp_regime) es [])" "rga_trades_by_regime p = summarize_groups eq rgp_regime ps"
    using assms(1) by (auto simp: attribute_regime_evidence_def trade_metrics_def res_bind_Inr_iff)
  have ok: "nested_counters_ok []" by (simp add: nested_counters_ok_def)
  have evs: "map snd es = evs" "map snd ps = trades" by (rule placed_elements, rule e(1), rule placed_elements, rule e(2))
  have total: "code_total c (rga_by_regime p) = sum_list (map (event_weight c) evs)" for c
    using tally_total [OF ok, of rgp_regime es c] code_total_serialize [of "fold (tally_event rgp_regime) es []" c]
    unfolding e(3) evs(1) [symmetric] by (simp add: code_total_def)
  have pnls: "map (td_realized_pnl \<circ> snd) ps = map td_realized_pnl trades" unfolding evs(2) [symmetric] by simp
  have net: "precise_sum (map (bm_net_pnl \<circ> snd) (rga_trades_by_regime p)) = precise_sum (map td_realized_pnl trades)"
    using summarized_pnl [of k ps eq rgp_regime] assms(2) unfolding e(4) pnls by blast
  have count: "sum_list (map (bm_trades \<circ> snd) (rga_trades_by_regime p)) = length trades"
    unfolding e(4) summarized_counts evs(2) [symmetric] by simp
  show ?thesis
    by (simp add: validate_regime_attribution_def Let_def guard_def total weight_decisions [OF assms(3)] weight_coded assms(4) net count)
qed

subsection \<open>The gate attribution accounts for every event and trade\<close>

definition signed_event :: "bt_event \<Rightarrow> bool" where
  "signed_event e \<longleftrightarrow> (bv_code e \<in> {''READY_FOR_RISK_REVIEW'', ''ENTRY_REJECT''} \<longrightarrow> bv_signal e \<noteq> None) \<and>
     (bv_code e = ''ENTRY_REJECT'' \<longrightarrow> length (bv_reasons e) = 1)"

definition counter_total :: "counter \<Rightarrow> nat" where
  "counter_total c = sum_list (map snd c)"

definition counters_total :: "counters \<Rightarrow> nat" where
  "counters_total d = sum_list (map (counter_total \<circ> snd) d)"

lemma counter_total_bump: "dict_ok c \<Longrightarrow> counter_total (bump k c) = counter_total c + 1"
proof (induction c)
  case (Cons p c)
  obtain a b where p: "p = (a, b)" by (cases p)
  show ?case
  proof (cases "k = a")
    case False
    then have "bump k (p # c) = p # bump k c" by (simp add: p bump_def count_of_def)
    then show ?thesis using Cons by (simp add: counter_total_def dict_ok_def)
  qed (simp add: p counter_total_def bump_def count_of_def)
qed (simp add: counter_total_def bump_def count_of_def)

lemma counters_total_put: "dict_ok d \<Longrightarrow> counters_total (dput k c d) + counter_total (counter_of k d) = counters_total d + counter_total c"
  using sum_put [of d counter_total k c] by (simp add: counters_total_def counter_total_def comp_def)

lemma bump_within_total:
  assumes "nested_counters_ok d"
  shows "nested_counters_ok (bump_within k e d)"
    "counters_total (bump_within k e d) = counters_total d + (if bv_signal e = None then 0 else 1)"
proof -
  note ok = counter_of_ok [OF assms, of k]
  show "nested_counters_ok (bump_within k e d)"
    using assms counters_ok_put [OF assms dict_ok_bump [OF ok]] by (auto simp: bump_within_def split: option.splits)
  show "counters_total (bump_within k e d) = counters_total d + (if bv_signal e = None then 0 else 1)"
  proof (cases "bv_signal e")
    case (Some sg)
    have "counters_total (bump_within k e d) + counter_total (counter_of k d) =
        counters_total d + counter_total (bump (sg_direction sg) (counter_of k d))"
      using counters_total_put [of d k "bump (sg_direction sg) (counter_of k d)"] assms Some
      by (simp add: bump_within_def event_direction_def nested_counters_ok_def)
    then show ?thesis using Some counter_total_bump [OF ok, of "sg_direction sg"] by simp
  qed (simp add: bump_within_def event_direction_def)
qed

definition tally_ok :: "gate_tally \<Rightarrow> bool" where
  "tally_ok g \<longleftrightarrow> dict_ok (gt_ready g) \<and> nested_counters_ok (gt_entry_direction g)"

lemma gate_step_total:
  assumes "tally_ok g" "signed_event e"
  shows "tally_ok (gate_step e g) \<and>
    counter_total (gt_ready (gate_step e g)) = counter_total (gt_ready g) + coded ''READY_FOR_RISK_REVIEW'' [e] \<and>
    counters_total (gt_entry_direction (gate_step e g)) = counters_total (gt_entry_direction g) + coded ''ENTRY_REJECT'' [e]"
proof -
  consider "bv_code e = ''READY_FOR_RISK_REVIEW''" | "bv_code e = ''ENTRY_REJECT''"
    | "bv_code e \<noteq> ''READY_FOR_RISK_REVIEW''" "bv_code e \<noteq> ''ENTRY_REJECT''" by blast
  then show ?thesis
  proof cases
    case 1
    then obtain sg where "bv_signal e = Some sg" using assms(2) by (auto simp: signed_event_def)
    with 1 assms(1) show ?thesis
      by (simp add: gate_step_def bump_direction_def event_direction_def counter_total_bump tally_ok_def dict_ok_bump)
  next
    case 2
    then obtain reason where r: "bv_reasons e = [reason]" "bv_signal e \<noteq> None"
      using assms(2) by (auto simp: signed_event_def length_Suc_conv)
    with 2 assms(1) bump_within_total [of "gt_entry_direction g" reason e] show ?thesis
      by (simp add: gate_step_def entry_reason_def tally_ok_def)
  next
    case 3
    have "gt_ready (gate_step e g) = gt_ready g" "gt_entry_direction (gate_step e g) = gt_entry_direction g"
      using 3 by (simp_all add: gate_step_def Let_def split: list.splits option.splits)
    then show ?thesis using 3 assms(1) by (simp add: tally_ok_def)
  qed
qed

lemma gate_tally_total:
  "tally_ok g \<Longrightarrow> \<forall>e \<in> set evs. signed_event e \<Longrightarrow> tally_ok (fold gate_step evs g) \<and>
     counter_total (gt_ready (fold gate_step evs g)) = counter_total (gt_ready g) + coded ''READY_FOR_RISK_REVIEW'' evs \<and>
     counters_total (gt_entry_direction (fold gate_step evs g)) =
       counters_total (gt_entry_direction g) + coded ''ENTRY_REJECT'' evs"
proof (induction evs arbitrary: g)
  case (Cons e evs)
  have s: "tally_ok (gate_step e g) \<and>
      counter_total (gt_ready (gate_step e g)) = counter_total (gt_ready g) + coded ''READY_FOR_RISK_REVIEW'' [e] \<and>
      counters_total (gt_entry_direction (gate_step e g)) = counters_total (gt_entry_direction g) + coded ''ENTRY_REJECT'' [e]"
    using gate_step_total Cons.prems by simp
  have c: "coded c (e # evs) = coded c [e] + coded c evs" for c by (simp add: coded_def)
  show ?case using Cons.IH [of "gate_step e g"] s Cons.prems(2) unfolding c by simp
qed simp

text \<open>Reading a counter at distinct keys that include all of its own adds up to its total.\<close>

lemma counter_read_total:
  "dict_ok c \<Longrightarrow> distinct ds \<Longrightarrow> set (map fst c) \<subseteq> set ds \<Longrightarrow> sum_list (map (count_of c) ds) = counter_total c"
proof (induction c)
  case (Cons p c)
  obtain a b where p: "p = (a, b)" by (cases p)
  have a: "a \<in> set ds" "count_of c a = 0" "dict_ok c" "set (map fst c) \<subseteq> set ds"
    using Cons.prems by (auto simp: p dict_ok_def count_of_def map_of_eq_None_iff [THEN iffD2])
  have "count_of (p # c) = (\<lambda>x. (if x = a then b else 0) + count_of c x)" using a(2) by (auto simp: p count_of_def fun_eq_iff)
  then have "sum_list (map (count_of (p # c)) ds) = sum_list (map (\<lambda>x. if x = a then b else 0) ds) + sum_list (map (count_of c) ds)"
    by (simp add: sum_list_addf)
  moreover have "sum_list (map (\<lambda>x. if x = a then b else 0) ds) = b"
    using Cons.prems(2) a(1) by (simp add: sum_list_distinct_conv_sum_set)
  ultimately show ?case using Cons.IH [OF a(3) Cons.prems(2) a(4)] by (simp add: p counter_total_def)
qed (simp add: counter_total_def count_of_def)

lemma counters_read_total:
  "\<forall>c \<in> set (map snd d). dict_ok c \<and> set (map fst c) \<subseteq> set ds \<Longrightarrow> distinct ds \<Longrightarrow>
     sum_list (map (\<lambda>x. code_total x d) ds) = counters_total d"
proof (induction d)
  case (Cons p d)
  have "sum_list (map (\<lambda>x. code_total x (p # d)) ds) = sum_list (map (count_of (snd p)) ds) + sum_list (map (\<lambda>x. code_total x d) ds)"
    by (simp add: code_total_def sum_list_addf)
  then show ?case using Cons counter_read_total [of "snd p" ds] by (simp add: counters_total_def)
qed (simp add: code_total_def counters_total_def)

lemma gate_attribution_valid:
  assumes "\<forall>e \<in> set evs. signed_event e" "fits_wide k (map td_realized_pnl trades)"
  shows "validate_counterfactual_gate_attribution txt (build_counterfactual_gate_attribution evs trades)
    (coded ''READY_FOR_RISK_REVIEW'' evs) (coded ''ENTRY_REJECT'' evs) (length trades) trades = Inr ()"
proof -
  let ?g = "fold gate_step evs gate_tally_new"
  let ?ds = "flow_directions ?g trades"
  have t: "tally_ok ?g" "counter_total (gt_ready ?g) = coded ''READY_FOR_RISK_REVIEW'' evs"
    "counters_total (gt_entry_direction ?g) = coded ''ENTRY_REJECT'' evs"
    using gate_tally_total [of gate_tally_new evs] assms(1)
    by (auto simp: gate_tally_new_def tally_ok_def nested_counters_ok_def counter_total_def counters_total_def)
  have d: "distinct ?ds" "set (map fst (gt_ready ?g)) \<subseteq> set ?ds" "td_direction ` set trades \<subseteq> set ?ds"
    "\<forall>c \<in> set (map snd (gt_entry_direction ?g)). set (map fst c) \<subseteq> set ?ds"
    by (auto simp: flow_directions_def)
  have flow: "ga_flow (build_counterfactual_gate_attribution evs trades) = map (\<lambda>d. (d, flow_of ?g trades d)) ?ds"
    by (simp add: build_counterfactual_gate_attribution_def Let_def)
  have ready: "sum_list (map (count_of (gt_ready ?g)) ?ds) = coded ''READY_FOR_RISK_REVIEW'' evs"
    using counter_read_total [OF _ d(1,2)] t by (simp add: tally_ok_def)
  have entry: "sum_list (map (\<lambda>x. code_total x (gt_entry_direction ?g)) ?ds) = coded ''ENTRY_REJECT'' evs"
    using counters_read_total [OF _ d(1), of "gt_entry_direction ?g"] t d(4) by (simp add: tally_ok_def nested_counters_ok_def)
  have groups: "mset (concat (map (\<lambda>d. filter (\<lambda>t. td_direction t = d) trades) ?ds)) = mset trades"
    by (rule filters_mset [OF d(1,3)])
  then have "length (concat (map (\<lambda>d. filter (\<lambda>t. td_direction t = d) trades) ?ds)) = length trades" by (rule mset_eq_length)
  then have opened: "sum_list (map (\<lambda>d. length (filter (\<lambda>t. td_direction t = d) trades)) ?ds) = length trades"
    by (simp add: length_concat comp_def)
  have "mset (map td_realized_pnl (concat (map (\<lambda>d. filter (\<lambda>t. td_direction t = d) trades) ?ds))) = mset (map td_realized_pnl trades)"
    using groups by (metis mset_map)
  then have "mset (concat (map (map td_realized_pnl) (map (\<lambda>d. filter (\<lambda>t. td_direction t = d) trades) ?ds))) = mset (map td_realized_pnl trades)"
    by (simp only: map_concat)
  from precise_sum_groups [OF assms(2) this]
  have net: "precise_sum (map (\<lambda>d. precise_sum (map td_realized_pnl (filter (\<lambda>t. td_direction t = d) trades))) ?ds) =
      precise_sum (map td_realized_pnl trades)" by (simp add: comp_def)
  show ?thesis
    by (simp add: validate_counterfactual_gate_attribution_def flow comp_def flow_of_def Let_def trade_summary_of_def guard_def
        ready entry opened net)
qed

subsection \<open>The events of the engine\<close>

definition emits_signed :: "bt_state \<Rightarrow> bool" where
  "emits_signed s \<longleftrightarrow> list_all (\<lambda>e. signed_event e \<and> bv_code e \<noteq> ''DECISION_POINTS'') (bs_events s)"

lemma emit_signed:
  "emits_signed s \<Longrightarrow> signed_event \<lparr>bv_timestamp = t, bv_code = c, bv_reasons = rs, bv_signal = sg\<rparr> \<Longrightarrow> c \<noteq> ''DECISION_POINTS'' \<Longrightarrow>
     emits_signed (emit t c sg rs s)"
  by (simp add: emits_signed_def emit_def)

lemma enter_pending_signed: "enter_pending E start bar s = Inr s' \<Longrightarrow> emits_signed s \<Longrightarrow> emits_signed s'"
  by (auto simp: enter_pending_def emits_signed_def emit_def signed_event_def res_bind_def split: option.splits if_splits sum.splits)

lemma manage_bar_signed: "manage_bar E symbol bar s = Inr s' \<Longrightarrow> emits_signed s \<Longrightarrow> emits_signed s'"
  by (auto simp: manage_bar_def emits_signed_def res_bind_Inr_iff)

lemma decide_signed: "decide E start bar snaps s = Inr s' \<Longrightarrow> emits_signed s \<Longrightarrow> emits_signed s'"
  by (auto simp: decide_def emits_signed_def emit_def signed_event_def split: option.splits if_splits sum.splits)

lemma engine_loop_signed:
  assumes "engine_loop E symbol start bars x = Inr y" "emits_signed (fst x)"
  shows "emits_signed (fst y)"
  using assms
proof (induction bars arbitrary: x)
  case (Cons bar bars)
  then obtain z where z: "engine_bar E symbol start bar x = Inr z" "engine_loop E symbol start bars z = Inr y"
    by (auto simp: res_bind_Inr_iff)
  from z(1) obtain s1 s2 snaps where s: "enter_pending E start bar (fst x) = Inr s1" "manage_bar E symbol bar s1 = Inr s2"
    "decide E start bar snaps s2 = Inr (fst z)" by (rule engine_bar_parts)
  have "emits_signed (fst z)"
    using decide_signed [OF s(3) manage_bar_signed [OF s(2) enter_pending_signed [OF s(1) Cons.prems(2)]]] .
  then show ?case using Cons.IH z(2) by blast
qed simp

lemma finish_run_signed: "finish_run E symbol bar s = Inr s' \<Longrightarrow> emits_signed s \<Longrightarrow> emits_signed s'"
  by (auto simp: finish_run_def emits_signed_def emit_def signed_event_def res_bind_Inr_iff Let_def split: if_splits)

lemma payload_counts:
  "dp_decision_points (to_payload (fold record_event evs diagnostics_new)) = sum_list (map (\<lambda>c. coded c evs) decision_codes)"
  "dp_ready (to_payload (fold record_event evs diagnostics_new)) = coded ''READY_FOR_RISK_REVIEW'' evs"
  "dp_entry_rejections (to_payload (fold record_event evs diagnostics_new)) = coded ''ENTRY_REJECT'' evs"
  "dp_trades_opened (to_payload (fold record_event evs diagnostics_new)) = coded ''TRADE_OPENED'' evs"
proof -
  have "count_of (dg_events diagnostics_new) c = 0" for c by (simp add: diagnostics_new_def count_of_def)
  then have n: "count_of (dg_events (fold record_event evs diagnostics_new)) = (\<lambda>c. coded c evs)"
    by (simp add: recorded_counts fun_eq_iff)
  show "dp_decision_points (to_payload (fold record_event evs diagnostics_new)) = sum_list (map (\<lambda>c. coded c evs) decision_codes)"
    "dp_ready (to_payload (fold record_event evs diagnostics_new)) = coded ''READY_FOR_RISK_REVIEW'' evs"
    "dp_entry_rejections (to_payload (fold record_event evs diagnostics_new)) = coded ''ENTRY_REJECT'' evs"
    "dp_trades_opened (to_payload (fold record_event evs diagnostics_new)) = coded ''TRADE_OPENED'' evs"
    by (simp_all add: to_payload_def Let_def n decision_codes_def)
qed

lemma run_events:
  assumes "engine_run E symbol source start = Inr (r, evs)"
  shows "\<forall>e \<in> set evs. signed_event e" "coded ''DECISION_POINTS'' evs = 0" "coded ''TRADE_OPENED'' evs = length (br_trades r)"
proof -
  obtain candles x s where x: "engine_loop E symbol start (the (dget candles ''15m'')) (bt_start E, cursor_new symbol candles) = Inr x"
    "finish_run E symbol (last (the (dget candles ''15m''))) (fst x) = Inr s" "evs = bs_events s"
    using assms by (auto simp: engine_run_def res_bind_Inr_iff Let_def)
  have "emits_signed (bt_start E)" by (simp add: emits_signed_def bt_start_def)
  then have "emits_signed s" using engine_loop_signed [OF x(1)] finish_run_signed [OF x(2)] by simp
  then show "\<forall>e \<in> set evs. signed_event e" "coded ''DECISION_POINTS'' evs = 0"
    by (auto simp: emits_signed_def x(3) list_all_iff coded_def)
  show "coded ''TRADE_OPENED'' evs = length (br_trades r)"
    using run_diagnostics [OF assms] payload_counts(4) [of evs] by simp
qed

end
