(* ===== verification/Qualification_Properties.thy ===== *)
theory Qualification_Properties
  imports Qualification Attribution Backtest_Examples
begin

section \<open>Properties of the qualification of backtests\<close>

text \<open>
  What the attribution of a run, the robustness checks, the matrix of experiments and the final decision promise, each with a
  closed instance.
\<close>

subsection \<open>Attribution\<close>

lemma place_returns:
  assumes "completed_days (instant (f x)) daily \<noteq> []"
  shows "\<exists>y. place stamp (build_daily_regime_timeline daily) f x = Inr y"
proof -
  have "daily \<noteq> []" using assms by (auto simp: completed_days_def)
  with assms show ?thesis by (simp add: place_def bucket_is_completed Let_def)
qed

lemma attribution_returns:
  assumes "\<forall>e \<in> set evs. completed_days (instant (bv_timestamp e)) daily \<noteq> []"
    "\<forall>t \<in> set trades. completed_days (instant (td_entry_time t)) daily \<noteq> []"
  shows "\<exists>a. attribute_regime_evidence stamp evs trades (build_daily_regime_timeline daily) eq = Inr a"
proof -
  obtain es where es: "res_map (place stamp (build_daily_regime_timeline daily) bv_timestamp) evs = Inr es"
    using res_map_total [of evs "place stamp (build_daily_regime_timeline daily) bv_timestamp"] assms(1) place_returns [of bv_timestamp]
    by metis
  obtain ps where ps: "res_map (place stamp (build_daily_regime_timeline daily) td_entry_time) trades = Inr ps"
    using res_map_total [of trades "place stamp (build_daily_regime_timeline daily) td_entry_time"] assms(2) place_returns [of td_entry_time]
    by metis
  show ?thesis by (simp add: attribute_regime_evidence_def trade_metrics_def es ps)
qed

text \<open>
  C19. The evidence of a baseline run is accounted for. For every run of the engine whose events and trades each have a completed
  day before them, and whose profits fit the wide context, the attribution to regimes returns, and both attributions pass the
  checks against the diagnostics of the same run: no decision, signal, rejection, trade or profit is lost or counted twice.
\<close>

theorem baseline_evidence_accounted:
  assumes "engine_run E symbol source start = Inr (r, evs)"
    and "\<forall>e \<in> set evs. completed_days (instant (bv_timestamp e)) daily \<noteq> []"
    and "\<forall>t \<in> set (br_trades r). completed_days (instant (td_entry_time t)) daily \<noteq> []"
    and "fits_wide k (map td_realized_pnl (br_trades r))"
    and "p = to_payload (fold record_event evs diagnostics_new)"
  shows "\<exists>a. attribute_regime_evidence stamp evs (br_trades r) (build_daily_regime_timeline daily) (br_initial_equity r) = Inr a \<and>
    validate_regime_attribution txt a (dp_decision_points p) (dp_ready p) (dp_entry_rejections p) (length (br_trades r)) (br_trades r)
      = Inr () \<and>
    validate_counterfactual_gate_attribution txt (build_counterfactual_gate_attribution evs (br_trades r)) (dp_ready p)
      (dp_entry_rejections p) (length (br_trades r)) (br_trades r) = Inr ()"
proof -
  note ev = run_events [OF assms(1)]
  obtain a where a: "attribute_regime_evidence stamp evs (br_trades r) (build_daily_regime_timeline daily) (br_initial_equity r) = Inr a"
    using attribution_returns [OF assms(2,3)] by blast
  from regime_attribution_valid [OF a assms(4) ev(2,3)] gate_attribution_valid [OF ev(1) assms(4)] a
  show ?thesis unfolding assms(5) payload_counts by blast
qed

definition ex_day :: candle where
  "ex_day = bx_candle ''1d'' (- 2880) 1"

lemma bx_run_events:
  "\<exists>r evs. engine_run bx_engine ''BTC'' (bx_source [100, 101]) None = Inr (r, evs) \<and> br_trades r = [] \<and>
     length evs = 2 \<and> (\<forall>e \<in> set evs. 0 \<le> instant (bv_timestamp e))"
  by (simp add: engine_run_def bx_prepared) (simp add: bx_eval)

theorem baseline_evidence_accounted_witness:
  "\<exists>r evs a. engine_run bx_engine ''BTC'' (bx_source [100, 101]) None = Inr (r, evs) \<and> length evs = 2 \<and>
    attribute_regime_evidence (\<lambda>_. '''') evs [] (build_daily_regime_timeline [ex_day]) (br_initial_equity r) = Inr a"
proof -
  obtain r evs where r: "engine_run bx_engine ''BTC'' (bx_source [100, 101]) None = Inr (r, evs)" "br_trades r = []" "length evs = 2"
    "\<forall>e \<in> set evs. 0 \<le> instant (bv_timestamp e)" using bx_run_events by blast
  have d: "\<forall>e \<in> set evs. completed_days (instant (bv_timestamp e)) [ex_day] \<noteq> []"
    using r(4) by (force simp: completed_days_def ex_day_def bx_candle_def)
  have t: "\<forall>t \<in> set (br_trades r). completed_days (instant (td_entry_time t)) [ex_day] \<noteq> []"
    and f: "fits_wide 0 (map td_realized_pnl (br_trades r))"
    by (simp_all add: r(2) fits_wide_def)
  from baseline_evidence_accounted [OF r(1) d t f refl, of "\<lambda>_. ''''" "\<lambda>_. ''''"] r(1,3) show ?thesis
    unfolding r(2) by blast
qed

text \<open>
  The regime of a time is found by binary search in the timeline, and it is the analysis of exactly the daily candles completed
  by that time; without one the search is refused.
\<close>

theorem regime_of_completed_days:
  "bucket_for stamp t (build_daily_regime_timeline daily) =
     (let days = completed_days (instant t) daily
      in if daily = [] then Inl (ValueError ''regime timeline is empty'')
         else if days = [] then Inl (ValueError (''no completed daily regime is available at '' @ stamp t))
         else Inr (regime_point_of days (last days)))"
  by (rule bucket_is_completed)

subsection \<open>The matrix\<close>

text \<open>
  C20. An executed matrix covers the product of its dimensions: its runs are the combinations, each once, every run has a result in
  the order of the matrix whatever the executor returns or raises, exactly the runs that returned bytes are successes, and the
  counts add up to the thousand required runs.
\<close>

theorem matrix_runs_every_combination:
  assumes "build_matrix sha itxt d = Inr runs" "1 \<le> max_workers"
  shows "\<exists>r. execute_matrix sha digest itxt exn_text executor max_workers runs = Inr r \<and>
    map combination_of runs = matrix_combinations d \<and> distinct (matrix_combinations d) \<and> map my_run (mz_results r) = runs \<and>
    mz_completed r = 1000 \<and> mz_successful r + mz_failed r = 1000 \<and>
    mz_successful r = length (filter (\<lambda>x. \<exists>b. executor x = Inr (Output_Bytes b)) runs)"
proof -
  let ?results = "map (execute_run digest exn_text executor) runs"
  have count: "length (filter (\<lambda>x. my_status x = ''SUCCESS'') ?results) = length (filter (\<lambda>x. \<exists>b. executor x = Inr (Output_Bytes b)) runs)"
    by (induction runs) simp_all
  have "length (filter (\<lambda>x. \<exists>b. executor x = Inr (Output_Bytes b)) runs) \<le> 1000"
    using build_matrix_runs(3) [OF assms(1)] length_filter_le by metis
  moreover have "map my_run ?results = runs" by (simp add: comp_def)
  ultimately show ?thesis
    unfolding execute_matrix_returns [OF assms] Let_def count using build_matrix_runs(1) [OF assms(1)] build_matrix_distinct [OF assms(1)]
    by (auto intro!: exI)
qed

definition ex_dimensions :: matrix_dimensions where
  "ex_dimensions = \<lparr>md_datasets = [''d''], md_splits = [''IS''], md_seeds = map int [0..<1000], md_strategies = [''s''],
     md_configs = [''c''], md_costs = [''x'']\<rparr>"

text \<open>A digest that only reads the seed.\<close>

fun ex_digest :: "json \<Rightarrow> string" where
  "ex_digest (JObj [_, _, _, (_, JNum seed), _, _]) = replicate (nat \<lfloor>seed\<rfloor>) CHR ''x''"
| "ex_digest _ = ''''"

definition ex_matrix_run :: "int \<Rightarrow> matrix_run" where
  "ex_matrix_run i = \<lparr>mx_index = i, mx_dataset = ''d'', mx_split = ''IS'', mx_seed = i, mx_strategy = ''s'', mx_config = ''c'',
     mx_cost = ''x'', mx_sha = replicate (nat i) CHR ''x''\<rparr>"

lemma ex_matrix: "build_matrix ex_digest (\<lambda>_. '''') ex_dimensions = Inr (map (ex_matrix_run \<circ> int) [0..<1000])"
proof -
  let ?p = "\<lambda>i. (''d'', ''IS'', int i, ''s'', ''c'', ''x'')"
  have prod: "List.product xs [y] = map (\<lambda>x. (x, y)) xs" for xs :: "'a list" and y :: 'b by (induction xs) simp_all
  have "List.product [x] ys = map (Pair x) ys" for x :: 'a and ys :: "'b list" by simp
  then have combos: "matrix_combinations ex_dimensions = map ?p [0..<1000]"
    by (simp add: matrix_combinations_def ex_dimensions_def prod comp_def del: upt_rec_numeral)
  have run: "matrix_run_of ex_digest (int i, ?p i) = ex_matrix_run (int i)" for i
    by (simp add: matrix_run_of_def ex_matrix_run_def experiment_identity_def)
  have "zip (map int [0..<1000]) (map ?p [0..<1000]) = map (\<lambda>i. (int i, ?p i)) [0..<1000]"
    by (simp only: zip_map_map zip_same_conv_map map_map comp_def split_def fst_conv snd_conv)
  then have runs: "map (matrix_run_of ex_digest) (zip (map int [0..<1000]) (matrix_combinations ex_dimensions)) =
      map (ex_matrix_run \<circ> int) [0..<1000]"
    by (simp only: combos map_map comp_def run)
  have "inj_on (\<lambda>i. replicate i CHR ''x'') (set [0..<1000])" by (rule inj_onI) (metis length_replicate)
  then have "distinct (map (\<lambda>i. replicate i CHR ''x'') [0..<1000])" by (simp only: distinct_map distinct_upt simp_thms)
  then have distinct: "distinct (map mx_sha (map (ex_matrix_run \<circ> int) [0..<1000]))"
    by (simp only: map_map comp_def ex_matrix_run_def matrix_run.simps nat_int)
  have card: "int (length (md_datasets ex_dimensions)) * int (length (md_splits ex_dimensions)) * int (length (md_seeds ex_dimensions)) *
      int (length (md_strategies ex_dimensions)) * int (length (md_configs ex_dimensions)) * int (length (md_costs ex_dimensions)) = 1000"
    by (simp add: ex_dimensions_def del: upt_rec_numeral)
  show ?thesis
    unfolding build_matrix_def Let_def card required_runs_def using runs distinct
    by (simp only: guard_def if_False simp_thms nat_numeral if_True not_False_eq_True)
qed

theorem matrix_runs_every_combination_witness:
  "\<exists>r. execute_matrix ex_digest (\<lambda>b. b) (\<lambda>_. '''') (\<lambda>_. '''')
      (\<lambda>x. if mx_seed x = 0 then Inl (ValueError ''no data'') else Inr (Output_Bytes ''ok'')) 8 (map (ex_matrix_run \<circ> int) [0..<1000]) = Inr r \<and>
    mz_completed r = 1000 \<and> mz_successful r + mz_failed r = 1000"
  using matrix_runs_every_combination [OF ex_matrix, of 8 "\<lambda>b. b" "\<lambda>_. ''''"
    "\<lambda>x. if mx_seed x = 0 then Inl (ValueError ''no data'') else Inr (Output_Bytes ''ok'')"] by fastforce

subsection \<open>Robustness over regimes and time\<close>

text \<open>
  C21. What a report on regimes and time says is exact. The slices of a series that the check accepted do not overlap, the weak run it
  reports is the length of the longest block of consecutive weak slices of one series (one exists, none is longer), and in a
  passed report no block is longer and no slice falls shorter of the overall score than the thresholds allow.
\<close>

theorem regime_time_report_exact:
  fixes xs t sha plain r
  defines "os \<equiv> sort_key slice_order xs"
  defines "weak \<equiv> \<lambda>x. relative_percent (rq_overall r) (rt_score x) < rh_weak_floor t"
  assumes "qualify_regime_time_robustness sha plain xs t = Inr r" "\<forall>x \<in> set xs. time_slice_make x = Inr x"
  shows "sorted_wrt disjoint_slices os \<and> (\<exists>zs. weak_block weak os zs \<and> length zs = rq_weak_run r) \<and>
    (\<forall>zs. weak_block weak os zs \<longrightarrow> length zs \<le> rq_weak_run r) \<and>
    (rq_passed r \<longrightarrow> int (rq_weak_run r) \<le> rh_max_weak_run t \<and>
      (\<forall>x \<in> set xs. shortfall_percent (rq_overall r) (rt_score x) \<le> rh_max_degradation t))"
proof -
  note p = regime_time_parts [OF assms(3)]
  have "\<forall>x \<in> set os. rt_start x < rt_end x"
    using assms(4) by (auto simp: os_def time_slice_make_def guard_Inr_iff)
  then have disjoint: "sorted_wrt disjoint_slices os"
    using p(1) unfolding os_def by (intro not_overlapping_disjoint) simp_all
  have run: "rq_weak_run r = best_run weak os" unfolding p(3) longest_is_best os_def weak_def ..
  have "shortfall_percent (rq_overall r) (rt_score x) \<le> rq_worst_degradation r" if "x \<in> set xs" for x
    unfolding p(6) using that by (intro max_or_zero_ge) auto
  with p(5) have short: "rq_passed r \<Longrightarrow> x \<in> set xs \<Longrightarrow> shortfall_percent (rq_overall r) (rt_score x) \<le> rh_max_degradation t" for x
    by (meson order_trans)
  show ?thesis using disjoint best_run_attained [of weak os] weak_block_le_best [of weak os] p(4) short unfolding run by blast
qed

definition ex_slice :: "string \<Rightarrow> string \<Rightarrow> int \<Rightarrow> rat \<Rightarrow> time_slice" where
  "ex_slice i regime start score = \<lparr>rt_slice_id = i, rt_regime = regime, rt_start = start, rt_end = start + 1, rt_score = score,
     rt_samples = 1, rt_series = ''G''\<rparr>"

definition ex_slices :: "time_slice list" where
  "ex_slices = [ex_slice ''a'' ''UP'' 0 10, ex_slice ''b'' ''UP'' 1 10, ex_slice ''c'' ''DOWN'' 2 10, ex_slice ''d'' ''DOWN'' 3 10]"

lemma ex_slices_sorted: "sort_key slice_order ex_slices = ex_slices"
  by (rule sort_key_id_if_sorted) (simp add: ex_slices_def ex_slice_def slice_order_def less_eq_prod_simp)

lemma ex_regime_time:
  "\<exists>r. qualify_regime_time_robustness (\<lambda>_. '''') (\<lambda>_. '''') ex_slices default_regime_time_thresholds = Inr r \<and> rq_passed r"
proof -
  have groups: "sort_key fst (fold (add_to_group rt_regime) ex_slices []) =
      [(''DOWN'', [ex_slice ''c'' ''DOWN'' 2 10, ex_slice ''d'' ''DOWN'' 3 10]), (''UP'', [ex_slice ''a'' ''UP'' 0 10, ex_slice ''b'' ''UP'' 1 10])]"
    by (simp add: ex_slices_def ex_slice_def add_to_group_def)
  have len: "length (fold (add_to_group rt_regime) ex_slices []) = 2" by (simp add: ex_slices_def ex_slice_def add_to_group_def)
  have overall: "weighted_score ex_slices = 10"
    by (simp add: weighted_score_def ex_slices_def ex_slice_def dec_eval)
  show ?thesis
    unfolding qualify_regime_time_robustness_def Let_def ex_slices_sorted groups len overall
    by (simp add: ex_slices_def ex_slice_def default_regime_time_thresholds_def guard_def judge_slices_def judge_regime_def
        weighted_score_def relative_percent_def shortfall_percent_def longest_weak_run_def max_or_zero_def dec_eval Let_def)
qed

theorem regime_time_report_exact_witness:
  "\<exists>r. qualify_regime_time_robustness (\<lambda>_. '''') (\<lambda>_. '''') ex_slices default_regime_time_thresholds = Inr r \<and>
    sorted_wrt disjoint_slices ex_slices \<and> int (rq_weak_run r) \<le> 2"
proof -
  obtain r where r: "qualify_regime_time_robustness (\<lambda>_. '''') (\<lambda>_. '''') ex_slices default_regime_time_thresholds = Inr r" "rq_passed r"
    using ex_regime_time by blast
  have "\<forall>x \<in> set ex_slices. time_slice_make x = Inr x"
    by (simp add: ex_slices_def ex_slice_def time_slice_make_def guard_def strip_eq_Nil_iff is_space_def)
  from regime_time_report_exact [OF r(1) this] r show ?thesis
    unfolding ex_slices_sorted by (simp add: default_regime_time_thresholds_def)
qed

subsection \<open>Cost stress\<close>

text \<open>
  C22. Under the default fraction a cost report passes exactly when every scenario keeps the required net edge and degradation: the
  rounded fraction of passed scenarios does not reach one while a scenario fails. No stress scenario has a better net edge than
  the baseline.
\<close>

theorem cost_report_passes_iff_all_pass:
  assumes "qualify_cost_robustness sha plain gross b scenarios t = Inr r" "cost_thresholds_make t = Inr t" "ch_min_fraction t = 1"
  shows "(cq_passed r \<longleftrightarrow> (\<forall>x \<in> set (cq_results r). ch_min_net_edge t \<le> cz_net_edge x \<and> cz_degradation x \<le> ch_max_degradation t)) \<and>
    (\<forall>x \<in> set (cq_results r). cz_net_edge x \<le> cq_baseline_net r) \<and>
    map cz_scenario_id (cq_results r) = map cs_scenario_id (sort_key cs_scenario_id scenarios)"
proof -
  note p = cost_report_parts [OF assms(1,2)]
  let ?B = "dsub gross (total_cost_percent b)"
  have each: "\<exists>s. cost_scenario_result gross b t ?B s = Inr x" if "x \<in> set (cq_results r)" for x
    using p(1) that by (auto simp: list_all2_conv_all_nth in_set_conv_nth)
  have passed: "cz_passed x \<longleftrightarrow> ch_min_net_edge t \<le> cz_net_edge x \<and> cz_degradation x \<le> ch_max_degradation t"
    and net: "cz_net_edge x \<le> cq_baseline_net r" if "x \<in> set (cq_results r)" for x
    using each [OF that] stressed_result(1,4) unfolding p(6) by blast+
  have "length (filter cz_passed (cq_results r)) \<le> length (cq_results r)" by (rule length_filter_le)
  then have "cq_passed r \<longleftrightarrow> length (filter cz_passed (cq_results r)) = length (cq_results r)"
    unfolding p(4,5) assms(3) by (rule rounded_fraction_one) (use p(2,3) in simp_all)
  also have "\<dots> \<longleftrightarrow> (\<forall>x \<in> set (cq_results r). cz_passed x)"
    by (metis filter_id_conv length_filter_less less_irrefl)
  finally have all: "cq_passed r \<longleftrightarrow> (\<forall>x \<in> set (cq_results r). cz_passed x)" .
  have "list_all2 (\<lambda>s x. cs_scenario_id s = cz_scenario_id x) (sort_key cs_scenario_id scenarios) (cq_results r)"
    by (rule list_all2_mono [OF p(1)]) (simp add: stressed_result(3))
  then have "map cz_scenario_id (cq_results r) = map cs_scenario_id (sort_key cs_scenario_id scenarios)"
    by (rule list_all2_map_eq)
  with all passed net show ?thesis by blast
qed

definition ex_costs :: "string \<Rightarrow> rat \<Rightarrow> cost_assumption" where
  "ex_costs i fee = \<lparr>cs_scenario_id = i, cs_fee = fee, cs_funding = 0, cs_slippage = 1, cs_impact = 0\<rparr>"

definition ex_cost_thresholds :: cost_thresholds where
  "ex_cost_thresholds = default_cost_thresholds\<lparr>ch_min_count := 2\<rparr>"

theorem cost_report_passes_iff_all_pass_witness:
  "\<exists>r. qualify_cost_robustness (\<lambda>_. '''') (\<lambda>_. '''') 12 (ex_costs ''base'' 1) [ex_costs ''s1'' 2, ex_costs ''s2'' 4] ex_cost_thresholds = Inr r \<and>
    cq_passed r \<and> (\<forall>x \<in> set (cq_results r). cz_net_edge x \<le> cq_baseline_net r)"
proof -
  let ?q = "qualify_cost_robustness (\<lambda>_. '''') (\<lambda>_. '''') 12 (ex_costs ''base'' 1) [ex_costs ''s1'' 2, ex_costs ''s2'' 4] ex_cost_thresholds"
  have "\<exists>r. ?q = Inr r \<and> cq_passed r"
    by (simp add: qualify_cost_robustness_def ex_costs_def ex_cost_thresholds_def default_cost_thresholds_def guard_def Let_def
        total_cost_percent_def cost_scenario_result_def require_adverse_or_equal_def dec_eval)
  then obtain r where r: "?q = Inr r" "cq_passed r" by blast
  have "cost_thresholds_make ex_cost_thresholds = Inr ex_cost_thresholds" "ch_min_fraction ex_cost_thresholds = 1"
    by (simp_all add: cost_thresholds_make_def ex_cost_thresholds_def default_cost_thresholds_def guard_def)
  from cost_report_passes_iff_all_pass [OF r(1) this] r show ?thesis by blast
qed

subsection \<open>The final decision\<close>

definition ex_phase :: "string \<Rightarrow> phase_evidence" where
  "ex_phase i = \<lparr>pe_phase = i, pe_passed = True, pe_fingerprint = replicate 64 CHR ''a'', pe_count = 1\<rparr>"

definition ex_identity :: qualification_identity where
  "ex_identity = \<lparr>qi_dataset = ''d1'', qi_strategy = ''s'', qi_config = ''c'', qi_revision = replicate 40 CHR ''b''\<rparr>"

definition ex_lenient :: batch_policy where
  "ex_lenient = \<lparr>bp_min_runs = 3, bp_min_is = 1, bp_min_oos = 2, bp_min_trades = 8, bp_min_profit_factor = 110 / 100,
     bp_max_drawdown = 25, bp_max_degradation = 35 / 100\<rparr>"

definition ex_final_policy :: final_policy where
  "ex_final_policy = \<lparr>fp_min_runs = 3, fp_min_is = 1, fp_min_oos = 2, fp_min_trades = 8, fp_min_profit_factor = 110 / 100,
     fp_max_drawdown = 25\<rparr>"

definition ex_qualification_run :: "string \<Rightarrow> string \<Rightarrow> qualification_run" where
  "ex_qualification_run i split = \<lparr>qu_run_id = i, qu_dataset = ''d'', qu_split = split, qu_seed = 0, qu_strategy = ''s'', qu_config = ''c'',
     qu_cost = i, qu_trades = 4, qu_wins = 3, qu_gross_profit = 10, qu_gross_loss = 2, qu_net_pnl = 8, qu_drawdown = 5\<rparr>"

definition ex_runs :: "qualification_run list" where
  "ex_runs = [ex_qualification_run ''a'' ''IS'', ex_qualification_run ''b'' ''OOS'', ex_qualification_run ''c'' ''WALK_FORWARD'']"

lemma ex_percentile: "percentile_of [5, 5] p95 = 5"
proof -
  have "nat (max 0 (min i 1)) < 2" for i :: int by linarith
  moreover have "n < 2 \<Longrightarrow> [5, 5 :: rat] ! n = 5" for n by (cases n) (simp_all add: less_Suc_eq numeral_2_eq_2)
  ultimately show ?thesis by (simp add: percentile_of_def Let_def)
qed

lemma ex_batch: "\<exists>b. qualify_batch ex_runs ex_lenient = Inr b \<and> ba_decision b = Batch_Qualified \<and> ba_trades b = 8"
  by (simp add: qualify_batch_def batch_report_of_def ex_runs_def ex_qualification_run_def run_identity_def guard_def Let_def
      run_expectancy_def found_values_def confidence_interval_def dsquare_def dsqrt_def batch_verdict_def ex_lenient_def
      median_of_def ex_percentile dec_eval)

text \<open>
  C18. The final decision is fail closed: a strategy is qualified exactly when each of the eight phases has evidence that passed and
  the batch meets every statistical gate of the policy. Otherwise the report says why, and it shows all the evidence it was given.
\<close>

theorem final_qualification_fail_closed:
  assumes "qualify_phase_48 sha plain q evidence batch p = Inr r"
  shows "(final_passed r \<longleftrightarrow>
      (\<forall>ph \<in> set required_phases. \<exists>e \<in> set evidence. pe_phase e = ph \<and> pe_passed e) \<and>
      ba_decision batch = Batch_Qualified \<and> fp_min_runs p \<le> ba_runs batch \<and> fp_min_is p \<le> ba_is_runs batch \<and>
      fp_min_oos p \<le> ba_oos_runs batch \<and> fp_min_trades p \<le> ba_trades batch \<and>
      (\<exists>f. ba_profit_factor batch = Some f \<and> fp_min_profit_factor p \<le> f) \<and>
      (\<exists>e. ba_aggregate_expectancy batch = Some e \<and> 0 < e) \<and> (\<exists>l. ba_ci_low batch = Some l \<and> 0 < l) \<and>
      ba_p95_drawdown batch \<le> fp_max_drawdown p) \<and>
    (fq_reasons r = [] \<longleftrightarrow> final_passed r) \<and> set (fq_evidence r) = set evidence"
  using final_decision_exact [OF assms] unfolding gates_met_def phases_passed_def by blast

definition ex_report :: batch_report where
  "ex_report = \<lparr>ba_decision = Batch_Qualified, ba_runs = 1000, ba_is_runs = 400, ba_oos_runs = 600, ba_trades = 2000, ba_win_rate = 60,
     ba_profit_factor = Some 2, ba_mean_expectancy = Some 1, ba_aggregate_expectancy = Some 1, ba_ci_low = Some 1,
     ba_ci_high = Some 2, ba_p95_drawdown = 20, ba_reasons = []\<rparr>"

lemma ex_qualified:
  "0 \<le> ba_runs b \<Longrightarrow> 0 \<le> ba_is_runs b \<Longrightarrow> 0 \<le> ba_oos_runs b \<Longrightarrow> 0 \<le> ba_trades b \<Longrightarrow>
     \<exists>r. qualify_phase_48 sha plain ex_identity (map ex_phase required_phases) b p = Inr r"
  by (simp add: qualify_phase_48_def validate_batch_metrics_def guard_def required_phases_def ex_phase_def Let_def)

lemma ex_phases: "phases_passed (map ex_phase required_phases)"
  by (simp add: phases_passed_def required_phases_def ex_phase_def)

theorem final_qualification_fail_closed_witness:
  "\<exists>r. qualify_phase_48 (\<lambda>_. '''') (\<lambda>_. '''') ex_identity (map ex_phase required_phases) ex_report default_final_policy = Inr r \<and>
    final_passed r \<and> fq_reasons r = []"
proof -
  obtain r where r: "qualify_phase_48 (\<lambda>_. '''') (\<lambda>_. '''') ex_identity (map ex_phase required_phases) ex_report default_final_policy = Inr r"
    using ex_qualified [of ex_report] by (simp add: ex_report_def) blast
  with final_qualification_fail_closed [OF r] ex_phases show ?thesis
    by (simp add: phases_passed_def ex_report_def default_final_policy_def)
qed

text \<open>
  Batch and final policy fit together: for a batch judged under a policy at least as strict as the final one, as the two default
  policies are, the statistical gates of the final decision never overrule the batch, and the decision is QUALIFIED exactly when
  the batch is and all eight phases passed.
\<close>

theorem qualified_batch_decides:
  assumes "qualify_batch items bp = Inr b" "policy_within p bp" "qualify_phase_48 sha plain q evidence b p = Inr r"
  shows "final_passed r \<longleftrightarrow> phases_passed evidence \<and> ba_decision b = Batch_Qualified"
  using final_decision_exact(1) [OF assms(3)] qualified_batch_meets_gates [OF assms(1) _ assms(2)]
  by (auto simp: gates_met_def)

lemma default_policies_agree: "policy_within default_final_policy default_batch_policy"
  by (simp add: policy_within_def default_final_policy_def default_batch_policy_def)

theorem qualified_batch_decides_witness:
  "\<exists>b r. qualify_batch ex_runs ex_lenient = Inr b \<and>
    qualify_phase_48 (\<lambda>_. '''') (\<lambda>_. '''') ex_identity (map ex_phase required_phases) b ex_final_policy = Inr r \<and> final_passed r"
proof -
  obtain b where b: "qualify_batch ex_runs ex_lenient = Inr b" "ba_decision b = Batch_Qualified" "ba_trades b = 8"
    using ex_batch by blast
  have within: "policy_within ex_final_policy ex_lenient" by (simp add: policy_within_def ex_final_policy_def ex_lenient_def)
  have "b = batch_report_of ex_runs ex_lenient" using b(1) by (simp add: qualify_batch_def guard_Inr_iff)
  then have "0 \<le> ba_runs b" "0 \<le> ba_is_runs b" "0 \<le> ba_oos_runs b" by (simp_all add: batch_report_of_def Let_def)
  then obtain r where r: "qualify_phase_48 (\<lambda>_. '''') (\<lambda>_. '''') ex_identity (map ex_phase required_phases) b ex_final_policy = Inr r"
    using ex_qualified [of b "\<lambda>_. ''''" "\<lambda>_. ''''" ex_final_policy] b(3) by auto
  with qualified_batch_decides [OF b(1) within r] ex_phases b show ?thesis by blast
qed

end
