(* ===== verification/Spec2Isabelle.thy ===== *)
theory Spec2Isabelle
  imports Application_Properties Backtest_Properties Research_Properties Qualification_Properties
begin

text \<open>
  \<^bold>\<open>Trading System V3: a verification development of the trading core.\<close>

  The program is a paper-trading system in Python. A cycle reads candles (\<^verbatim>\<open>src/app/data\<close>), computes indicators
  and a market snapshot (\<^verbatim>\<open>src/app/market\<close>), evaluates a strategy (\<^verbatim>\<open>src/app/strategy\<close>), assesses risk and portfolio
  limits (\<^verbatim>\<open>src/app/risk\<close>, \<^verbatim>\<open>src/app/portfolio\<close>), submits paper orders (\<^verbatim>\<open>src/app/execution\<close>), manages exits and
  settles closed positions (\<^verbatim>\<open>src/app/position\<close>), writes a journal (\<^verbatim>\<open>src/app/journal\<close>), keeps everything in one SQLite
  database (\<^verbatim>\<open>src/app/storage\<close>) and repairs it at start (\<^verbatim>\<open>src/app/recovery\<close>).

  \<^bold>\<open>Numbers.\<close> All amounts are Python \<^verbatim>\<open>Decimal\<close>s in the default context. They are exact rationals here and each
  operation rounds its exact result to 28 significant digits, half to even (\<open>Decimal28\<close>: \<open>dadd\<close>, \<open>dsub\<close>, \<open>dmul\<close>,
  \<open>ddiv\<close>); the exponent range and the special values are not modelled. What the client proofs need of rounding
  (monotone, odd, idempotent, sign preserving) is the locale \<open>decimal_context\<close>, interpreted on \<open>rnd\<close> and on the context of
  128 digits in which \<open>Attribution\<close> sums profits.

  \<^bold>\<open>Effects.\<close> A call that may raise returns \<open>'a res\<close>, an exception or a value; a call that changes a repository
  returns the new state beside it (\<open>sres\<close>), so that what was written before an exception stays visible. Clocks and price
  providers are arguments: a value, or a function of the number of calls made before. The SQLite connection is a pair of
  databases, the committed and the current one; autocommit is an argument of the repository operations.

  \<^bold>\<open>Theories.\<close>
  \<open>Prelude\<close>: results, guards, state results, strings, dictionaries, times.
  \<open>Decimal28\<close>: decimal arithmetic.
  \<open>Interfaces\<close>: the locales \<open>append_only_store\<close> and \<open>guarded_machine\<close>.
  \<open>Core_Model\<close>: \<^verbatim>\<open>src/app/core\<close>: positions, profit and loss, stop monitor, lifecycle.
  \<open>Universe_Model\<close>: \<^verbatim>\<open>src/app/universe\<close>: contracts, instruments, eligibility, registry, symbol mapping.
  \<open>Market_Analysis\<close>: \<^verbatim>\<open>src/app/market\<close>: indicators, trend, structure, liquidity, regime.
  \<open>Strategy\<close>: \<^verbatim>\<open>src/app/strategy\<close>: evidence, scores, levels, the strategy engine.
  \<open>Risk\<close>, \<open>Portfolio\<close>: \<^verbatim>\<open>src/app/risk\<close> and \<^verbatim>\<open>src/app/portfolio\<close>.
  \<open>Execution\<close>: orders, fills, paper executor, in-memory repositories, pending orders, reservations.
  \<open>Position_Manager\<close>: exits and trailing stops.
  \<open>Journal\<close>: journal entries and the journal service.
  \<open>Storage\<close>: the SQLite repositories, their invariant and their refinement of the in-memory repositories.
  \<open>Paper_Trading\<close>: the atomic fill, the paper runtime and the pending queue over the database.
  \<open>Settlement\<close>: the settlement of a closed position in one transaction.
  \<open>Recovery\<close>: the start-up repair of positions from fills and its state machine.
  \<open>Decimal_Text\<close>: the text of a decimal and the stored equity column.
  \<open>Live_Operation\<close>: \<^verbatim>\<open>src/app/live_operation\<close>: activation, circuit breaker, incidents, live risk, the gateway, the runtime.
  \<open>Market_Stream\<close>, \<open>Market_Quality\<close>, \<open>Provider_Router\<close>: \<^verbatim>\<open>src/app/data\<close>: trade and candle streams, the candle builder,
  quality, freshness and service levels, reconciliation of providers, circuits, retries, routing, the hot cache.
  \<open>Opportunity\<close>: \<^verbatim>\<open>src/app/context\<close> and the pipeline of \<^verbatim>\<open>src/app/application\<close>: context, strategy stage, hard gates,
  ranking, prepared orders.
  \<open>Runtime_Cycle\<close>: \<^verbatim>\<open>src/app/runtime\<close>, \<^verbatim>\<open>runtime_cycle.py\<close> and its wiring: one cycle over database, account, audits,
  evaluation history and selection queue.
  \<open>Incremental\<close>, \<open>Snapshot_Cursor\<close>: \<^verbatim>\<open>src/app/backtest/incremental_snapshots.py\<close>: the incremental market state, proved to
  give the analysis of all candles so far, and the cursor over four timeframes.
  \<open>Backtest\<close>, \<open>Backtest_Diagnostics\<close>, \<open>Portfolio_Backtest\<close>: \<^verbatim>\<open>src/app/backtest\<close>: the engine with costs, metrics and events,
  the report over the events, the engine over several symbols.
  \<open>Walk_Forward\<close>, \<open>Robustness\<close>, \<open>Parameter_Stability\<close>: walk-forward windows and runs, sealed out-of-sample plans, sampling modes,
  Monte Carlo, parameter sweeps. The random generator, the digest and the evaluator are arguments.
  \<open>Performance\<close>: \<^verbatim>\<open>src/app/analytics\<close>: reports over journal entries.
  \<open>Research\<close>: \<^verbatim>\<open>src/app/research\<close>: parameter spaces and their enumeration, the policy of what research may change,
  objectives, the experiment runner and its registries, sensitivity, the dataset fingerprint.
  \<open>Strategy_Validation\<close>: \<^verbatim>\<open>src/app/strategy_validation\<close>: cost stress, the chronological split, regimes, stability, forward
  observations, the qualification gate and the calibration of its thresholds. Profit factors may be infinite there.
  \<open>Qualification\<close>: \<^verbatim>\<open>src/app/backtest\<close>: \<^verbatim>\<open>cost_robustness.py\<close>, \<^verbatim>\<open>regime_time_robustness.py\<close>, \<^verbatim>\<open>qualification_matrix.py\<close>,
  \<^verbatim>\<open>qualification_batch.py\<close> and \<^verbatim>\<open>final_qualification.py\<close>: the evidence for and the decision on a strategy.
  \<open>Attribution\<close>: \<^verbatim>\<open>regime_attribution.py\<close> and \<^verbatim>\<open>counterfactual_attribution.py\<close>: the events and trades of a run by regime, gate and
  direction; the bucket of a time is proved to be the analysis of the days completed by it, and the accounting checks to pass.
  \<open>Examples\<close>, \<open>Strategy_Examples\<close>, \<open>Backtest_Examples\<close>: concrete inputs for the witnesses.
  \<open>Data_And_Live\<close>, \<open>Application_Properties\<close>, \<open>Backtest_Properties\<close>, \<open>Research_Properties\<close>,
  \<open>Qualification_Properties\<close>: the properties of the live gateway, of the market data path, of the cycle and of the pipeline, of the
  backtest and of the analytics, of research and of strategy validation, of the qualification; the other properties are here.

  \<^bold>\<open>Bounds and loops.\<close> Most loops of the modelled code consume a list and are structural. Two do not, the layout of the walk-forward
  windows and the block bootstrap: they are \<open>while_option\<close>s, and that they end is proved (\<open>windows_loop_returns\<close>,
  \<open>block_loop_returns\<close>). The binary search of \<open>Attribution\<close> is a \<open>function\<close> whose interval shrinks. The integer square root of
  \<open>Market_Analysis\<close> runs a fixed number of bisection steps, enough for the 58-digit integers a 28-digit root needs
  (\<open>isqrt_correct\<close>).

  \<^bold>\<open>Not modelled.\<close> Network and file access, the HTTP interface, the language-model assistant, logging, the
  command-line scripts, and the schema statements of SQLite. What the manifest lists as not modelled is outside this
  development.
\<close>

section \<open>Risk\<close>

text \<open>
  C1. A signal that \<^verbatim>\<open>assess_risk\<close> approves was ready for review and respects every limit at once: its leverage is
  at most the contract's, its quantity and notional are positive and reach the contract's minimum notional, its risk
  percentage is within the per-trade limit, the open, reserved and new risk together are within the aggregate budget,
  the correlated risk with it is within the correlated budget, and the Storm loss and the futures share are within theirs.
\<close>

theorem approved_within_limits:
  assumes "assess_risk acc ps sg ins c leverage policy provider correlated reserved = Inr a" "ra_approved a"
  shows "sg_state sg = READY_FOR_RISK_REVIEW \<and> ra_reasons a = [] \<and>
    \<not> opt_holds (\<lambda>m. m < leverage) (cs_max_leverage c) \<and> 0 < ra_quantity a \<and> 0 < ra_total_amount a \<and>
    \<not> opt_holds (\<lambda>m. ra_total_amount a < m) (cs_min_notional c) \<and>
    ra_risk_percent a \<le> rp_per_trade policy \<and>
    ra_aggregate_risk a \<le> ddiv (dmul (account_equity acc) (rp_aggregate policy)) 100 \<and>
    ra_aggregate_risk a = dadd (dadd (ra_existing_open_risk a) reserved) (ra_new_risk a) \<and>
    aggregate_open_risk ps = Inr (ra_existing_open_risk a) \<and>
    dadd correlated (ra_new_risk a) \<le> ddiv (dmul (account_equity acc) (rp_correlated policy)) 100 \<and>
    \<not> opt_holds (\<lambda>l. rp_storm policy < l) (ra_storm_sl_loss_percent a) \<and>
    ra_futures_capital_percent a \<le> rp_futures policy"
  using assms(1)
proof (cases rule: assess_risk_cases)
  case early
  with assms(2) show ?thesis by simp
next
  case sized
  from sized(9) assms(2) have nil: "ra_reasons a = []" by simp
  show ?thesis using sized(1-4) nil sized(8)
    by (simp add: sized_assessment_def no_reasons_iff)
qed

theorem approved_within_limits_witness:
  "ra_risk_percent ex_assessment \<le> 1 \<and> ra_aggregate_risk ex_assessment \<le> 400"
  using approved_within_limits [OF ex_assess] by (simp add: ex_assessment_def ex_fields ex_equity dec_eval)

text \<open>
  C2. The sizing never risks more than it was told to: whatever the 28-digit roundings of its seven divisions and
  products do, the money at risk between entry and stop of the quantity it returns is at most the requested percentage
  of the equity, up to a relative error of one part in ten to the 26.
\<close>

theorem sizing_risk_bounded:
  assumes "calculate_position_size equity entry stop leverage percent c = Inr (q, t)"
    and "candidate_risk_amount t entry stop leverage = Inr r"
  shows "0 \<le> r \<and> r \<le> equity * percent / 100 * (1 + 1 / 10 ^ 26)"
  using sized_risk [OF assms] candidate_risk_nonneg [OF assms(2)] by simp

theorem sizing_risk_bounded_witness: "0 \<le> (100::rat) \<and> (100::rat) \<le> 10000 * 1 / 100 * (1 + 1 / 10 ^ 26)"
  using sizing_risk_bounded [OF ex_size ex_budgets(6)] by simp

section \<open>Settlement\<close>

text \<open>
  C3. The books stay whole over any sequence of settlements, applied, repeated or refused, each in one transaction: the
  ledger is a chain in which every entry starts at the equity the one before it ended with and adds its own profit or
  loss without going below zero, and the stored equity is the end of that chain.
\<close>

theorem books_whole:
  assumes "books_ok initial (st_conn s)"
  shows "books_ok initial (st_conn (fold (\<lambda>(p, cyc, now) s. fst (settle p cyc now s)) runs s))"
  using assms by (rule settle_run_books)

theorem books_whole_witness:
  "books_ok 10000 (st_conn (fold (\<lambda>(p, cyc, now) s. fst (settle p cyc now s))
     [(example_closed ''A'' third, None, Aware 2), (example_closed ''A'' third, None, Aware 3)] example_start))"
  by (rule books_whole) (simp add: books_ok_def example_start_def settled_def db_empty_def)

text \<open>
  A settlement is all or nothing: when it raises, at any of its four writes, the account in memory and both the
  committed and the current database are what they were.
\<close>

theorem settlement_atomic:
  assumes "settled (st_conn s)" "settle p cyc now s = (s', Inl e)"
  shows "s' = s"
  using assms by (rule settle_atomic)

theorem settlement_atomic_witness:
  "fst (settle (example_closed ''A'' third\<lparr>pos_status := POS_OPEN\<rparr>) None (Aware 2) example_start) = example_start"
proof -
  have "settle (example_closed ''A'' third\<lparr>pos_status := POS_OPEN\<rparr>) None (Aware 2) example_start =
      (example_start, Inl (ValueError ''cannot settle an open position''))"
    by (simp add: settle_def example_closed_def is_open_def)
  moreover have "settled (st_conn example_start)" by (simp add: example_start_def settled_def)
  ultimately show ?thesis using settlement_atomic by (metis fst_conv)
qed

text \<open>
  Settling the same closed position again right away is answered from the ledger with the same amounts, marked as
  not applied, and changes nothing, whatever cycle and time the second call carries.
\<close>

theorem settle_idempotent:
  assumes "settle p cyc now s = (s', Inr r)" "sm_applied r"
  shows "settle p cyc2 now2 s' = (s', Inr (r\<lparr>sm_applied := False\<rparr>))"
  using assms by (rule settle_again)

text \<open>The first settlement of the example: a third of a unit on 10000.\<close>

lemma ex_first_settlement:
  obtains s1 r1 where "settle (example_closed ''A'' third) None (Aware 2) example_start = (s1, Inr r1)" "sm_applied r1"
  using equities_part by blast

theorem settle_idempotent_witness:
  "\<exists>s1 r1. settle (example_closed ''A'' third) None (Aware 2) example_start = (s1, Inr r1) \<and>
     settle (example_closed ''A'' third) (Some ''cycle-9'') (Aware 7) s1 = (s1, Inr (r1\<lparr>sm_applied := False\<rparr>))"
proof -
  obtain s1 r1 where s1: "settle (example_closed ''A'' third) None (Aware 2) example_start = (s1, Inr r1)" "sm_applied r1"
    by (rule ex_first_settlement)
  show ?thesis using s1 settle_idempotent [OF s1, of "Some ''cycle-9''" "Aware 7"] by blast
qed


text \<open>
  They cannot part while every amount lies on one decimal grid that fits 28 digits: an applied settlement whose
  starting equity, realized total and profit are multiples of the same power of ten leaves the account and the database
  with the same equity.
\<close>

theorem settlement_keeps_sync_on_grid:
  assumes "settle p cyc now s = (s', Inr r)" "sm_applied r"
    and "on_grid k (acc_starting_equity (st_account s))" "on_grid k (acc_realized_pnl (st_account s))"
    and "on_grid k (sm_realized_pnl r)"
    and "\<bar>acc_starting_equity (st_account s)\<bar> + \<bar>acc_realized_pnl (st_account s)\<bar> + \<bar>sm_realized_pnl r\<bar>
      < 10 ^ 28 * p10 k"
  shows "in_sync s'"
  using assms by (rule settle_keeps_sync)

text \<open>A whole number of units on the example account settles and stays in sync.\<close>

definition ex_settled :: "string \<Rightarrow> rat \<Rightarrow> settlement_result" where
  "ex_settled pid before = \<lparr>sm_position_id = pid, sm_realized_pnl = 5, sm_equity_before = before,
     sm_equity_after = before + 5, sm_applied = True\<rparr>"

lemma ex_two_settlements:
  obtains s1 s2 where "settle (example_closed ''A'' 5) None (Aware 2) example_start = (s1, Inr (ex_settled ''A'' 10000))"
    "settle (example_closed ''B'' 5) None (Aware 3) s1 = (s2, Inr (ex_settled ''B'' 10005))"
proof -
  let ?A = "example_closed ''A'' 5" and ?B = "example_closed ''B'' 5"
  have inv: "conn_inv (st_conn example_start)" "ledger_named (st_conn example_start)" "settled (st_conn example_start)"
    by (simp_all add: example_start_def conn_inv_def db_inv_def db_empty_def ledger_named_def settled_def dict_ok_def)
  have none: "sql_ledger_get (st_conn example_start) (pos_id ?A) = None"
    "sql_get_journal (st_conn example_start) (pos_id ?A) = None"
    by (simp_all add: example_start_def sql_ledger_get_def ledger_find_def sql_get_journal_def db_empty_def)
  have eq: "sql_load_equity (st_conn example_start) = Inr 10000" "account_equity (st_account example_start) = 10000"
    by (simp_all add: example_start_def sql_load_equity_def account_equity_def dec_eval)
  have d: "dadd 10000 5 = 10005" "dadd 10005 5 = 10010" "dadd 0 5 = 5" by (simp_all add: dec_eval)
  have f: "pos_id (example_closed i 5) = i" "pos_realized_pnl (example_closed i 5) = Some 5" "\<not> is_open (example_closed i 5)"
    for i by (simp_all add: example_closed_def is_open_def)
  obtain jA where jA: "from_position ?A None = Inr jA" using example_journals [of "''A''" 5] by (auto simp: is_space_def)
  obtain jB where jB: "from_position ?B None = Inr jB" using example_journals [of "''B''" 5] by (auto simp: is_space_def)
  obtain s1 lA where s1: "settle ?A None (Aware 2) example_start = (s1, Inr (ex_settled ''A'' 10000))"
    "st_account s1 = apply_realized_pnl (st_account example_start) 5" "settled (st_conn s1)" "conn_inv (st_conn s1)"
    "ledger_named (st_conn s1)" "cn_current (st_conn s1) = settled_db ?A 10005 lA jA (cn_current (st_conn example_start))"
    "le_position_id lA = ''A''" "le_ledger_id lA = settlement_id ''A''"
    using settle_succeeds [OF inv none eq f(2) _ _ jA, of "Aware 2", unfolded f d] by (auto simp: ex_settled_def)
  have none1: "sql_ledger_get (st_conn s1) (pos_id ?B) = None" "sql_get_journal (st_conn s1) (pos_id ?B) = None"
    using s1(6,7,8) from_position_Inr(2) [OF jA]
    by (simp_all add: f sql_ledger_get_def ledger_find_def sql_get_journal_def settled_db_def example_start_def db_empty_def)
  have eq1: "sql_load_equity (st_conn s1) = Inr 10005" "account_equity (st_account s1) = 10005"
    using s1(2,6)
    by (simp_all add: d sql_load_equity_def settled_db_def account_equity_def apply_realized_pnl_def example_start_def)
  obtain s2 where "settle ?B None (Aware 3) s1 = (s2, Inr (ex_settled ''B'' 10005))"
    using settle_succeeds [OF s1(4,5,3) none1 eq1 f(2) _ _ jB, of "Aware 3", unfolded f d]
    by (auto simp: ex_settled_def)
  with s1(1) show thesis by (rule that)
qed

theorem settlement_keeps_sync_on_grid_witness:
  "\<exists>s1 r1. settle (example_closed ''A'' 5) None (Aware 2) example_start = (s1, Inr r1) \<and> in_sync s1"
proof -
  obtain s1 where s1: "settle (example_closed ''A'' 5) None (Aware 2) example_start = (s1, Inr (ex_settled ''A'' 10000))"
    by (rule ex_two_settlements)
  have "in_sync s1"
    by (rule settlement_keeps_sync_on_grid [OF s1, of 0])
      (auto simp: ex_settled_def example_start_def on_grid_def p10_def
        intro: exI [of _ 10000] exI [of _ 0] exI [of _ 5])
  then show ?thesis using s1 by blast
qed

text \<open>
  Settling an earlier position again after another one has moved the equity is not idempotent: the replay compares
  the stored equity with the one its ledger entry recorded and raises, although nothing is wrong with the books.
\<close>

theorem late_replay_refused:
  assumes "settle p cyc now s = (s1, Inr r)" "sm_applied r"
    and "settle q cyc' now' s1 = (s2, Inr r')" "sm_applied r'"
    and "sm_equity_after r' \<noteq> sm_equity_after r"
  shows "settle p cyc2 now2 s2 =
    (s2, Inl (ValueError (''account state conflicts with ledger for position '' @ pos_id p)))"
  using assms by (rule settle_again_late)

theorem late_replay_refused_witness:
  "\<exists>s2. settle (example_closed ''A'' 5) None (Aware 9) s2 =
     (s2, Inl (ValueError ''account state conflicts with ledger for position A''))"
proof -
  obtain s1 s2 where "settle (example_closed ''A'' 5) None (Aware 2) example_start = (s1, Inr (ex_settled ''A'' 10000))"
    "settle (example_closed ''B'' 5) None (Aware 3) s1 = (s2, Inr (ex_settled ''B'' 10005))"
    by (rule ex_two_settlements)
  from late_replay_refused [OF this(1) _ this(2)] have late: "settle (example_closed ''A'' 5) None (Aware 9) s2 =
      (s2, Inl (ValueError ''account state conflicts with ledger for position A''))"
    by (simp add: ex_settled_def example_closed_def)
  show ?thesis by (rule exI [of _ s2]) (rule late)
qed

section \<open>Paper orders\<close>

text \<open>
  Storing a fill is one transaction: when any of its three writes raises, the result, the fill and the position are
  all undone and the database is what it was.
\<close>

theorem fill_atomic:
  assumes "settled c" "snd (apply_fill False o1 r fid comm c) = Inl e"
  shows "fst (apply_fill False o1 r fid comm c) = c"
  using assms by (rule apply_fill_atomic)

theorem fill_atomic_witness:
  "fst (apply_fill False (ex_order ''o1'') (fill_at (ex_order ''o1'') 100 (Aware 5)) ''f'' 0 ex_empty) = ex_empty"
proof -
  let ?o = "ex_order ''o1''" and ?r = "fill_at (ex_order ''o1'') 100 (Aware 5)"
  have p: "prepare_fill ?o ?r ''f'' 0 \<noteq> Inl e" for e
    by (simp add: prepare_fill_def position_from_fill_def guard_def fill_at_def ex_order_def fill_make_def
        require_aware_def dec_eval strip_eq_Nil_iff is_space_def)
  then have "snd (apply_fill False ?o ?r ''f'' 0 ex_empty) = Inl (ValueError ''Unknown order: o1'')"
    by (cases "prepare_fill ?o ?r ''f'' 0")
      (auto simp: apply_fill_def sql_save_result_def ex_empty_def db_empty_def fill_at_def)
  then show ?thesis using fill_atomic ex_empty_ok(3) by blast
qed

text \<open>
  C6. A new order is answered, and the answer is in the committed database: over every database that satisfies its
  invariant, the first submission of an order returns a result of that order; a filled one has exactly its position and
  its fill stored beside it, an accepted one waits in the queue.
\<close>

theorem new_order_answered:
  assumes "conn_inv (ps_conn s)" "fills_named (ps_conn s)"
    and "dget (db_orders (cn_current (ps_conn s))) (or_id o1) = None"
  shows "\<exists>s' x. first_submission policy o1 quote now later s = (s', Inr x) \<and> sr_order x = o1 \<and>
    answered (ps_conn s') o1 (sr_result x) \<and> (sr_pending x \<longleftrightarrow> ot_status (sr_result x) = ORD_ACCEPTED)"
  using first_submission_answers [OF assms] by metis

theorem new_order_answered_witness:
  "\<exists>s' x. first_submission \<lparr>xp_paper_enabled = True, xp_shadow_enabled = True\<rparr> (ex_order ''o1'') (Inr 99)
     (Aware 1) (Aware 2) \<lparr>ps_seen = {}, ps_conn = ex_empty\<rparr> = (s', Inr x) \<and> sr_order x = ex_order ''o1'' \<and>
     answered (ps_conn s') (ex_order ''o1'') (sr_result x) \<and> (sr_pending x \<longleftrightarrow> ot_status (sr_result x) = ORD_ACCEPTED)"
  by (rule new_order_answered) (simp_all add: ex_empty_ok)

text \<open>
  Submitting an answered order again, with any quote at any time, returns the stored result and changes neither an
  order, a fill nor a position: no second fill and no second position.
\<close>

theorem resubmission_idempotent:
  assumes "answered (ps_conn s) o1 r" "or_id o1 \<noteq> []"
  shows "\<exists>s'. submit_order policy o1 quote now later s =
      (s', Inr \<lparr>sr_order = o1, sr_result = r, sr_atomic = None, sr_pending = (ot_status r = ORD_ACCEPTED)\<rparr>) \<and>
    ps_seen s' = ps_seen s \<and> answered (ps_conn s') o1 r \<and>
    db_orders (cn_current (ps_conn s')) = db_orders (cn_current (ps_conn s)) \<and>
    db_fills (cn_current (ps_conn s')) = db_fills (cn_current (ps_conn s)) \<and>
    db_positions (cn_current (ps_conn s')) = db_positions (cn_current (ps_conn s))"
  using resubmit_same [OF assms] by metis

text \<open>The order that rests in the example queue has been answered.\<close>

lemma ex_queue_answered: "answered (ex_queue ORD_ACCEPTED) (ex_order ''o1'') (rest (ex_order ''o1''))"
  by (simp add: answered_def ex_queue_ok sql_get_order_def order_of_row_def ex_row_def rest_def)
    (simp add: ex_queue_def Let_def ex_pending_row_def)

theorem resubmission_idempotent_witness:
  "\<exists>s'. submit_order \<lparr>xp_paper_enabled = True, xp_shadow_enabled = True\<rparr> (ex_order ''o1'') (Inr 99) (Aware 8) (Aware 9)
     \<lparr>ps_seen = {''o1''}, ps_conn = ex_queue ORD_ACCEPTED\<rparr> =
     (s', Inr \<lparr>sr_order = ex_order ''o1'', sr_result = rest (ex_order ''o1''), sr_atomic = None, sr_pending = True\<rparr>)"
  using resubmission_idempotent [of "\<lparr>ps_seen = {''o1''}, ps_conn = ex_queue ORD_ACCEPTED\<rparr>" "ex_order ''o1''"
      "rest (ex_order ''o1'')"] ex_queue_answered by fastforce

text \<open>
  C24. A limit order that heads the queue is filled at its limit as soon as the quote reaches it: its row is filled, its
  position is open at the limit price with the ordered quantity, and it leaves the queue, all committed.
\<close>

theorem queued_order_fills:
  assumes "quote = Inr price" "0 < price" "order_ok (pd_order p)" "or_type (pd_order p) = LIMIT"
    and "or_requested_price (pd_order p) = Some limit" "favourable (or_side (pd_order p)) limit price"
    and "dget (db_orders (cn_current c)) (or_id (pd_order p)) = Some row" "ow_request row = pd_order p"
      "ow_status row = ORD_ACCEPTED"
    and "dget (db_fills (cn_current c)) (fill_id_of (or_id (pd_order p))) = None"
  shows "\<exists>c'. pending_one sql_ports p quote now c = (c', Inr (Some (fill_at (pd_order p) limit now))) \<and>
    settled c' \<and> dget (db_pending (cn_current c')) (or_id (pd_order p)) = None \<and>
    sql_get_order c' (or_id (pd_order p)) = Some (pd_order p, Some (fill_at (pd_order p) limit now)) \<and>
    (\<exists>pos. dget (db_positions (cn_current c')) (or_id (pd_order p)) = Some pos \<and> is_open pos \<and>
       pos_entry_price pos = limit \<and> pos_quantity pos = or_quantity (pd_order p))"
  using pending_one_fills [OF assms] by metis

theorem queued_order_fills_witness:
  "\<exists>c'. pending_one sql_ports (ex_pending ''o1'') (Inr 99) (Aware 5) (ex_queue ORD_ACCEPTED) =
      (c', Inr (Some (fill_at (ex_order ''o1'') 100 (Aware 5)))) \<and> dget (db_pending (cn_current c')) ''o1'' = None"
  using queued_order_fills [of "Inr 99" 99 "ex_pending ''o1''" 100 "ex_queue ORD_ACCEPTED" "ex_row ''o1'' ORD_ACCEPTED" "Aware 5"]
  by (fastforce simp: ex_order_ok favourable_def ex_queue_ok ex_row_def)

text \<open>
  The fill of a queued order is committed before its row leaves the queue. A crash between the two leaves a filled
  order at the head of the queue, and every later check at which the quote still reaches the limit raises on it, at
  whatever time, without changing anything: no order behind it is checked again.
\<close>

theorem crash_wedges_queue:
  assumes "sql_pending_active c = Inr (p # ps)" "quotes 0 (or_symbol (pd_order p)) = Inr price" "0 < price"
    and "order_ok (pd_order p)" "or_type (pd_order p) = LIMIT"
    and "or_requested_price (pd_order p) = Some limit" "favourable (or_side (pd_order p)) limit price"
    and "dget (db_orders (cn_current c)) (or_id (pd_order p)) = Some row" "ow_status row = ORD_FILLED"
      "ow_filled_at row = Some t" "t \<noteq> clock 0"
    and "settled c"
  shows "check_pending_queue quotes clock c =
    (c, Inl (ValueError (''Conflicting result for order: '' @ or_id (pd_order p))))"
  using assms by (rule pending_check_wedged)

theorem crash_wedges_queue_witness:
  "check_pending_queue (\<lambda>_ _. Inr 99) (\<lambda>_. Aware 6) (ex_queue ORD_FILLED) =
    (ex_queue ORD_FILLED, Inl (ValueError ''Conflicting result for order: o1''))"
  using crash_wedges_queue [OF ex_queue_ok(4) [of ORD_FILLED], where quotes = "\<lambda>_ _. Inr 99" and price = 99
      and limit = 100 and row = "ex_row ''o1'' ORD_FILLED" and t = "Aware 5" and clock = "\<lambda>_. Aware 6"]
  by (simp add: ex_order_ok favourable_def ex_queue_ok ex_row_def)

section \<open>Recovery\<close>

text \<open>
  C25. Recovery never overwrites: whatever orders it inspects, also when it stops at an exception, the repaired database
  differs in its positions only, every position that was stored is still there unchanged, and every new position is the one
  its order's only fill opens.
\<close>

theorem recovery_only_adds:
  assumes "reconcile ids c = (c', x)" "conn_inv c"
  shows "only_positions_added c c' \<and> conn_inv c'"
  using assms reconcile_loop_frame [of ids 0 "[]" c]
  by (cases "reconcile_loop ids 0 [] c") (auto simp: reconcile_def sbind_def split: sum.splits prod.splits)

text \<open>
  Recovery is complete and idempotent: once a reconciliation has returned, a second one over the same orders
  repairs nothing, changes nothing and reports the issues that are left.
\<close>

theorem recovery_complete:
  assumes "reconcile ids c = (c', Inr r)" "conn_inv c"
  shows "\<exists>issues. reconcile ids c' = (c', Inr \<lparr>rr_inspected = length ids, rr_repaired = 0, rr_issues = issues\<rparr>)"
proof -
  obtain n js where l: "reconcile_loop ids 0 [] c = (c', Inr (n, js))"
    using assms(1) by (cases "reconcile_loop ids 0 [] c") (auto simp: reconcile_def sbind_def split: sum.splits prod.splits)
  obtain js' where "reconcile_loop ids 0 [] c' = (c', Inr (0, js'))"
    using reconcile_loop_nothing [OF reconcile_loop_done [OF l assms(2)], of 0 "[]"] by blast
  then show ?thesis by (simp add: reconcile_def sbind_def)
qed

text \<open>
  The recovery service cannot report a problem: when reconciliation finds an issue, the move from validating to
  degraded is not in the transition table, the run raises instead of returning its report and the machine stays validating.
\<close>

theorem recovery_issues_raise:
  assumes "reconcile ids c = (c', Inr result)" "rr_issues result \<noteq> []"
  shows "recovery_run ids (RV_STARTING, c) = ((RV_VALIDATING, c'), Inl (ValueError ''invalid recovery transition''))"
  using assms by (rule recovery_run_issues)

text \<open>An unknown order is an issue; the filled order of the example queue has no fill, which is another.\<close>

lemma ex_reconcile:
  "reconcile [''o9''] ex_empty = (ex_empty, Inr \<lparr>rr_inspected = 1, rr_repaired = 0,
     rr_issues = [\<lparr>ri_order_id = ''o9'', ri_kind = MISSING_ORDER, ri_detail = ''order record not found''\<rparr>]\<rparr>)"
  by (simp add: reconcile_def inspect_order_def sql_get_order_def ex_empty_ok sbind_def)

theorem recovery_only_adds_witness: "only_positions_added ex_empty ex_empty \<and> conn_inv ex_empty"
  using recovery_only_adds [OF ex_reconcile ex_empty_ok(1)] .

theorem recovery_complete_witness:
  "\<exists>issues. reconcile [''o9''] ex_empty = (ex_empty, Inr \<lparr>rr_inspected = 1, rr_repaired = 0, rr_issues = issues\<rparr>)"
  using recovery_complete [OF ex_reconcile ex_empty_ok(1)] by simp

theorem recovery_issues_raise_witness:
  "recovery_run [''o9''] (RV_STARTING, ex_empty) =
     ((RV_VALIDATING, ex_empty), Inl (ValueError ''invalid recovery transition''))"
  by (rule recovery_issues_raise [OF ex_reconcile]) simp

section \<open>Storage\<close>

text \<open>
  C27. The database invariant holds in every state: starting from a database whose rows are keyed by their ids and whose
  fills and queue rows name stored orders, any sequence of repository operations, commits and rollbacks, with or without
  autocommit, keeps the current and the committed database so.
\<close>

theorem database_invariant:
  assumes "conn_inv c"
  shows "conn_inv (fold (store_op_run auto) ops c)"
  using assms by (rule conn_inv_run)

theorem database_invariant_witness:
  "conn_inv (fold (store_op_run False) [OpSaveRequest (ex_order ''o1''), OpPendingSave (ex_pending ''o1''), OpCommit,
     OpPendingRemove ''o1'', OpRollback] ex_empty)"
  by (rule database_invariant) (rule ex_empty_ok)

text \<open>
  A fill is written once: over any sequence of later fills, conflicting ones included, a stored fill is read back
  as it was first stored.
\<close>

theorem fills_immutable:
  assumes "conn_inv c" "sql_get_fill c k = Some f"
  shows "sql_get_fill (fold (\<lambda>x c. fst (sql_save_fill auto x c)) fs c) k = Some f"
  using sql_fills.immutable_run [OF assms] by blast

definition ex_fill :: fill where
  "ex_fill = \<lparr>fl_id = ''f1'', fl_order_id = ''o1'', fl_symbol = ''BTCUSDT'', fl_side = LONG, fl_quantity = 2,
     fl_price = 100, fl_commission = 0, fl_filled_at = Aware 5\<rparr>"

definition ex_filled :: connection where
  "ex_filled = (let d = db_empty\<lparr>db_orders := [(''o1'', ex_row ''o1'' ORD_FILLED)], db_fills := [(''f1'', ex_fill)]\<rparr>
     in \<lparr>cn_committed = d, cn_current = d\<rparr>)"

lemma ex_filled_ok: "conn_inv ex_filled" "sql_get_fill ex_filled ''f1'' = Some ex_fill"
  by (simp_all add: ex_filled_def Let_def conn_inv_def db_inv_def db_empty_def keyed_def dict_ok_def sql_get_fill_def
      ex_fill_def ex_row_def)

theorem fills_immutable_witness:
  "sql_get_fill (fold (\<lambda>x c. fst (sql_save_fill True x c)) [ex_fill\<lparr>fl_price := 101\<rparr>] ex_filled) ''f1'' = Some ex_fill"
  by (rule fills_immutable [OF ex_filled_ok])

text \<open>
  The account ledger has one entry per position: once a position has one, saving any other entry for it raises and
  changes nothing.
\<close>

theorem ledger_once_per_position:
  assumes "conn_inv c" "snd (sql_save_ledger auto e c) = Inr b" "le_position_id x = le_position_id e" "x \<noteq> e"
  shows "\<exists>err. sql_save_ledger auto x (fst (sql_save_ledger auto e c)) = (fst (sql_save_ledger auto e c), Inl err)"
  using sql_ledger.no_overwrite [OF assms(1-3)] assms(4) by blast

definition ex_ledger :: ledger_entry where
  "ex_ledger = \<lparr>le_ledger_id = ''settlement:A'', le_position_id = ''A'', le_cycle_id = None, le_realized_pnl = 5,
     le_equity_before = 10000, le_equity_after = 10005, le_created_at = Aware 2\<rparr>"

definition ex_closed :: connection where
  "ex_closed = (let d = db_empty\<lparr>db_positions := [(''A'', example_closed ''A'' 5)]\<rparr>
     in \<lparr>cn_committed = d, cn_current = d\<rparr>)"

lemma ex_closed_ok: "conn_inv ex_closed" "snd (sql_save_ledger True ex_ledger ex_closed) = Inr True"
  by (simp_all add: ex_closed_def Let_def conn_inv_def db_inv_def db_empty_def keyed_def dict_ok_def example_closed_def
      sql_save_ledger_def ledger_find_def sql_position_exists_def ex_ledger_def)

theorem ledger_once_per_position_witness:
  "\<exists>err. sql_save_ledger True (ex_ledger\<lparr>le_equity_after := 0\<rparr>) (fst (sql_save_ledger True ex_ledger ex_closed)) =
     (fst (sql_save_ledger True ex_ledger ex_closed), Inl err)"
  by (rule ledger_once_per_position [OF ex_closed_ok]) (simp_all add: ex_ledger_def)



text \<open>
  A final result is final: whatever requests and results are saved afterwards, a stored order that is filled,
  rejected or cancelled keeps exactly its result.
\<close>

theorem final_result_kept:
  assumes "dget (os_results s) k = Some r" "terminal_status (ot_status r)"
  shows "dget (os_results (fold order_op_run ops s)) k = Some r"
proof -
  obtain r' where r': "dget (os_results (fold order_op_run ops s)) k = Some r'"
    "r' = r \<or> allowed_transition\<^sup>+\<^sup>+ (ot_status r) (ot_status r')"
    using mem_order_run [OF assms(1)] by blast
  then show ?thesis using terminal_no_move [OF assms(2)] by (metis tranclpD)
qed

theorem final_result_kept_witness:
  "dget (os_results (fold order_op_run [SaveResult (rest (ex_order ''o1''))]
     \<lparr>os_requests = [(''o1'', ex_order ''o1'')], os_results = [(''o1'', reject (ex_order ''o1'') None)]\<rparr>)) ''o1'' =
   Some (reject (ex_order ''o1'') None)"
  by (rule final_result_kept) (simp_all add: terminal_status_def)

section \<open>Order execution\<close>

text \<open>
  C29. The paper executor fills an order at most once and never at a worse price than its limit: over any sequence of
  submissions with any quotes the filled order ids are distinct and new, and a filled order was valid and, when it is a
  limit order, filled at its limit with the quote on the favourable side.
\<close>

theorem paper_fills_once_and_favourably:
  assumes "submit_all xs seen = (seen', rs)" "paper_submit o1 q now seen' = (seen2, r)" "ot_status r = ORD_FILLED"
  shows "distinct (ot_id r # filled_ids rs) \<and> set (filled_ids rs) \<inter> seen = {} \<and> order_ok o1 \<and>
    (\<exists>price. q = Inr price \<and> 0 < price \<and>
      r = fill_at o1 (if or_type o1 = LIMIT then the (or_requested_price o1) else price) now \<and>
      (or_type o1 = LIMIT \<longrightarrow> favourable (or_side o1) (the (or_requested_price o1)) price))"
proof -
  note f = paper_submit_filled [OF assms(2,3)] and once = submit_all_at_most_once [OF assms(1)]
  have "ot_id r = or_id o1" using f(4) by auto
  then have "ot_id r \<notin> set (filled_ids rs)" using f(2) once by auto
  then show ?thesis using once f(1,4) by simp
qed

lemma ex_submit: "paper_submit (ex_order ''o1'') (Inr 99) (Aware 5) {} = ({''o1''}, fill_at (ex_order ''o1'') 100 (Aware 5))"
  using ex_order_ok validate_order_iff [of "ex_order ''o1''"]
  by (simp add: paper_submit_def market_price_def limit_result_def)

theorem paper_fills_once_and_favourably_witness:
  "order_ok (ex_order ''o1'') \<and> favourable LONG 100 99"
  using paper_fills_once_and_favourably [of "[]" "{}" "{}" "[]", OF _ ex_submit]
  by (auto simp: fill_at_def)

section \<open>Positions and exits\<close>

text \<open>
  The sign of the realized profit is that of the price move in the position's direction, and turning a long position
  into a short one negates it exactly: no rounding turns a profit into a loss.
\<close>

theorem pnl_sign_and_mirror:
  assumes "calculate_realized_pnl p x = Inr v" "0 < pos_total_amount p"
  shows "(0 < v \<longleftrightarrow> (if pos_side p = LONG then pos_entry_price p < x else x < pos_entry_price p)) \<and>
    (v < 0 \<longleftrightarrow> (if pos_side p = LONG then x < pos_entry_price p else pos_entry_price p < x)) \<and>
    (pos_side p = LONG \<longrightarrow> calculate_realized_pnl (p\<lparr>pos_side := SHORT\<rparr>) x = Inr (- v))"
  using pnl_sign [OF assms] pnl_short_mirror [of p x v] assms(1) by blast

theorem pnl_sign_and_mirror_witness: "0 < third"
  using pnl_sign_and_mirror [OF third_is_profit, of "''A''" 5] by (simp add: example_closed_def)

text \<open>
  C30. A management pass changes no position but by one of its four outcomes: a position that is not open is left alone;
  an open one is held as it is, closed at its stop, closed at its target, or gets a stop that is only ever tighter and is
  not crossed by the price that moved it. An exception in the middle leaves the positions after it untouched.
\<close>

theorem management_outcomes:
  assumes "manage_open_positions ps prices clock policy = (ps', r)"
  shows "list_all2 (managed_from policy) ps ps'"
  using assms manage_loop_frame by (auto simp: manage_open_positions_def)

text \<open>
  The counters of a management pass add up: it monitors every open position, closes as many as it reports, each by
  its stop or its target, and the positions still open are the others.
\<close>

theorem management_counts:
  assumes "manage_open_positions ps prices clock policy = (ps', Inr m)"
  shows "mg_monitored m = length (filter is_open ps) \<and>
    mg_closed m + length (filter is_open ps') = length (filter is_open ps) \<and>
    mg_closed m = mg_stop_loss_exits m + mg_take_profit_exits m \<and> length (mg_results m) = mg_closed m"
  using manage_loop_counts [OF assms [unfolded manage_open_positions_def]]
  by (auto simp: counters_ok_def mg_zero_def)

definition ex_open :: position where
  "ex_open = (example_closed ''P'' 0)\<lparr>pos_status := POS_OPEN, pos_closed_at := None, pos_exit_price := None,
     pos_realized_pnl := None, pos_close_reason := None\<rparr>"

lemma ex_managed:
  "manage_open_positions [ex_open] (\<lambda>_ _. Inr 3) (\<lambda>_. Aware 5)
     \<lparr>xe_trailing_enabled = False, xe_trailing_distance_percent = 1\<rparr> = ([ex_open], Inr (mg_zero\<lparr>mg_monitored := 1\<rparr>))"
  by (simp add: manage_open_positions_def ex_open_def example_closed_def manage_one_def guard_def stop_was_crossed_def
      take_profit_crossed_def update_trailing_stop_def mg_zero_def)

theorem management_outcomes_witness:
  "list_all2 (managed_from \<lparr>xe_trailing_enabled = False, xe_trailing_distance_percent = 1\<rparr>) [ex_open] [ex_open]"
  by (rule management_outcomes [OF ex_managed])

theorem management_counts_witness: "1 = length (filter is_open [ex_open])"
  using management_counts [OF ex_managed] by (simp add: mg_zero_def)

section \<open>Journal\<close>

text \<open>
  Journal reconciliation is complete and destroys nothing: when it returns, every position of the list has an entry
  that is exactly the one its closing record gives, and every entry that was there before is unchanged.
\<close>

theorem journal_complete:
  assumes "reconcile_journal dget mem_save_entry ps c s = (s', Inr c')" "entries_inv s"
  shows "entries_inv s' \<and> (\<forall>k x. dget s k = Some x \<longrightarrow> dget s' k = Some x) \<and>
    (\<forall>p \<in> set ps. \<exists>e. dget s' (pos_id p) = Some e \<and> from_position p (je_cycle_id e) = Inr e)"
  using assms by (rule reconcile_journal_complete)

text \<open>
  A position that was opened journalably and closed by the manager with a reason can always be journalled: the
  journal raises for none of them.
\<close>

theorem closed_positions_journal:
  assumes "close_position p price reason now = Inr (p', r)" "journalable p" "0 < price"
    and "strip reason \<noteq> []" "is_aware now" "instant (pos_opened_at p) \<le> instant now"
    and "\<not> opt_holds (\<lambda>c. strip c = []) c"
  shows "\<exists>e. from_position p' c = Inr e \<and> je_realized_pnl e = pcr_realized_pnl r \<and> je_exit_price e = price"
proof -
  obtain e where e: "from_position p' c = Inr e" using closed_position_journals [OF assms] by blast
  have "pos_realized_pnl p' = Some (pcr_realized_pnl r)" "pos_exit_price p' = Some price"
    using close_position_Inr [OF assms(1)] by simp_all
  then show ?thesis using e from_position_Inr [OF e] by auto
qed

lemma ex_stopped:
  "\<exists>p' r. close_position ex_open 2 ''STOP_LOSS'' (Aware 5) = Inr (p', r)"
  by (simp add: close_position_def calculate_realized_pnl_def ex_open_def example_closed_def)

theorem closed_positions_journal_witness:
  "\<exists>p' r e. close_position ex_open 2 ''STOP_LOSS'' (Aware 5) = Inr (p', r) \<and> from_position p' None = Inr e \<and>
     je_exit_price e = 2"
proof -
  obtain p' r where c: "close_position ex_open 2 ''STOP_LOSS'' (Aware 5) = Inr (p', r)" using ex_stopped by blast
  have "journalable ex_open"
    by (simp add: journalable_def ex_open_def example_closed_def strip_eq_Nil_iff is_space_def snapshot_check_def
        opt_holds_def)
  from closed_positions_journal [OF c this, of None] show ?thesis using c
    by (auto simp: strip_eq_Nil_iff is_space_def ex_open_def example_closed_def opt_holds_def)
qed

theorem journal_complete_witness:
  "\<exists>s' c'. reconcile_journal dget mem_save_entry [example_closed ''A'' third] \<lparr>rc_inspected = 0, rc_created = 0,
       rc_existing = 0\<rparr> [] = (s', Inr c') \<and> (\<exists>e. dget s' ''A'' = Some e)"
proof -
  obtain j where j: "from_position (example_closed ''A'' third) None = Inr j"
    using example_journals [of "''A''" third] by (auto simp: is_space_def)
  have r: "reconcile_journal dget mem_save_entry [example_closed ''A'' third]
      \<lparr>rc_inspected = 0, rc_created = 0, rc_existing = 0\<rparr> [] =
    ([(je_position_id j, j)], Inr \<lparr>rc_inspected = 1, rc_created = 1, rc_existing = 0\<rparr>)"
    by (simp add: reconcile_one_def j mem_save_entry_def sbind_def)
  have "pos_id (example_closed ''A'' third) = ''A''" by (simp add: example_closed_def)
  moreover have "entries_inv []" by (simp add: entries_inv_def dict_ok_def)
  ultimately have "\<exists>e. dget [(je_position_id j, j)] ''A'' = Some e"
    using journal_complete [OF r] by (metis list.set_intros(1))
  with r show ?thesis by blast
qed

section \<open>Portfolio\<close>

text \<open>
  The portfolio gate is monotone: when it approves a candidate, it approves one with less risk and everything else
  the same, whatever is rounded on the way.
\<close>

theorem portfolio_gate_monotone:
  assumes "assess_portfolio equity ps r n k policy nf reserved cand matrix = Inr a" "pa_approved a" "0 \<le> r'" "r' \<le> r"
  shows "\<exists>b. assess_portfolio equity ps r' n k policy nf reserved cand matrix = Inr b \<and> pa_approved b"
  using assms by (rule assess_portfolio_mono)

text \<open>
  An approved candidate keeps the three portfolio limits, and the correlated risk that is checked is never less
  than the candidate's own risk, when that is a 28-digit decimal.
\<close>

theorem portfolio_approval_limits:
  assumes "assess_portfolio equity ps r n k policy nf reserved cand matrix = Inr a" "pa_approved a" "rnd r = r"
  shows "pa_aggregate_risk_percent a \<le> pp_aggregate policy \<and> pa_correlated_risk_percent a \<le> pp_correlated policy \<and>
    pa_futures_capital_percent a \<le> pp_futures policy \<and> r \<le> pa_correlated_risk a"
proof -
  obtain existing where h: "correlation_of cand matrix r ps existing k = Inr (pa_correlated_risk a, pa_correlation_members a)"
    "pa_reasons a = portfolio_reasons policy (pa_aggregate_risk_percent a) (pa_correlated_risk_percent a)
       (pa_futures_capital_percent a)" "pa_approved a \<longleftrightarrow> pa_reasons a = []"
    using assess_portfolio_Inr [OF assms(1)] by metis
  show ?thesis using h assms(2) correlation_of_ge [OF h(1) assms(3)] portfolio_reasons_Nil by metis
qed

definition ex_portfolio_policy :: portfolio_policy where
  "ex_portfolio_policy = \<lparr>pp_aggregate = 4, pp_correlated = 2, pp_futures = 50\<rparr>"

lemma ex_portfolio:
  "\<exists>a. assess_portfolio 10000 [] 100 2000 0 ex_portfolio_policy 0 0 None None = Inr a \<and> pa_approved a"
  by (simp add: assess_portfolio_def guard_def portfolio_policy_validate_def ex_portfolio_policy_def percent_ok_def
      total_risk_def correlation_of_def correlated_risk_def correlation_risk_multiplier_def validate_correlation_def
      percent_of_def open_futures_def total_notional_def portfolio_reasons_def Let_def dec_eval)

theorem portfolio_gate_monotone_witness:
  "\<exists>b. assess_portfolio 10000 [] 50 2000 0 ex_portfolio_policy 0 0 None None = Inr b \<and> pa_approved b"
  using ex_portfolio portfolio_gate_monotone [of 10000 "[]" 100 2000 0 ex_portfolio_policy 0 0 None None _ 50] by auto

theorem portfolio_approval_limits_witness:
  "\<exists>a. assess_portfolio 10000 [] 100 2000 0 ex_portfolio_policy 0 0 None None = Inr a \<and> 100 \<le> pa_correlated_risk a"
  using ex_portfolio portfolio_approval_limits [of 10000 "[]" 100 2000 0 ex_portfolio_policy 0 0 None None]
  by (auto simp: rnd_short)

text \<open>
  The exposure snapshot is consistent: the net exposure never exceeds the gross one in size, the futures collateral
  never exceeds the collateral, and gross and risk are not negative, although each is rounded at every position.
\<close>

theorem exposure_consistent:
  assumes "build_exposure_snapshot ps equity pending classes quotes = Inr x"
  shows "\<bar>xs_net x\<bar> \<le> xs_gross x \<and> 0 \<le> xs_futures x \<and> xs_futures x \<le> xs_collateral x \<and> 0 \<le> xs_risk x"
proof -
  obtain s where s: "snapshot_loop classes quotes ps exposure_zero = Inr s" "xs_net x = xs_net s" "xs_gross x = xs_gross s"
    "xs_futures x = xs_futures s" "xs_collateral x = xs_collateral s" "xs_risk x = xs_risk s"
    using assms by (auto simp: build_exposure_snapshot_def guard_Inr_iff res_bind_Inr_iff)
  have "exposure_inv s" using s(1) exposure_zero_inv by (rule snapshot_loop_inv)
  then show ?thesis using s by (simp add: exposure_inv_def abs_le_iff)
qed

lemma ex_exposure: "\<exists>x. build_exposure_snapshot [] 10000 0 [] [] = Inr x"
  by (simp add: build_exposure_snapshot_def guard_def)

theorem exposure_consistent_witness:
  "\<exists>x. build_exposure_snapshot [] 10000 0 [] [] = Inr x \<and> \<bar>xs_net x\<bar> \<le> xs_gross x"
  using ex_exposure exposure_consistent by blast

section \<open>Strategy and market\<close>

text \<open>
  A signal is ready for the risk review exactly when its reward-to-risk ratio, its score and its confidence reach
  the rules' minima, and its ratio is the rounded quotient of the planned reward and risk.
\<close>

theorem ready_iff_gates:
  assumes "evaluate_strategy d f h q rules = Inr s"
  shows "(sg_state s = READY_FOR_RISK_REVIEW \<longleftrightarrow>
      sr_min_rr rules \<le> sg_rr s \<and> sr_min_score rules \<le> sg_score s \<and> sr_min_confidence rules \<le> sg_confidence s) \<and>
    (\<exists>rr. calculate_risk_reward (sg_entry s) (sg_stop_loss s) (sg_target s) (sg_direction s) = Inr rr \<and>
      sg_rr s = rr_ratio rr)"
proof -
  obtain rr where rr: "calculate_risk_reward (sg_entry s) (sg_stop_loss s) (sg_target s) (sg_direction s) = Inr rr"
    "sg_rr s = rr_ratio rr" "sg_reasons s = gate_reasons rules (sg_rr s) (sg_score s) (sg_confidence s)"
    "sg_state s = (if sg_reasons s = [] then READY_FOR_RISK_REVIEW else STRATEGY_REJECTED)"
    using evaluate_strategy_parts [OF assms] by metis
  then show ?thesis using gate_reasons_Nil_iff [of rules "sg_rr s" "sg_score s" "sg_confidence s"] by auto
qed

theorem ready_iff_gates_witness:
  "\<exists>s. example_signal 100 4 95 = Inr s \<and> 5 / 2 \<le> sg_rr s \<and> 90 \<le> sg_score s"
proof -
  obtain s where s: "example_signal 100 4 95 = Inr s" "sg_state s = READY_FOR_RISK_REVIEW" using example_ready by blast
  from ready_iff_gates [OF s(1) [unfolded example_signal_def Let_def]] s show ?thesis
    by (auto simp: default_rules_def)
qed



section \<open>Totality of the risk gate and the instrument registry\<close>

text \<open>
  The risk assessment answers: with a valid policy and contract, positive equity, leverage and levels, and open
  positions whose amounts are valid, it returns an assessment, an approval or a rejection, and never raises.
\<close>

theorem risk_assessment_answers:
  assumes "risk_policy_validate policy = Inr ()" "0 \<le> reserved" "0 \<le> correlated"
    and "0 < account_equity acc" "0 < leverage" "contract_validate c = Inr ()"
    and "0 < sg_entry sg" "0 < sg_stop_loss sg" "sg_entry sg \<noteq> sg_stop_loss sg"
    and "list_all risk_inputs_ok ps"
  shows "\<exists>a. assess_risk acc ps sg ins c leverage policy provider correlated reserved = Inr a \<and>
    (ra_approved a \<longleftrightarrow> ra_reasons a = [])"
  using assess_risk_answers [OF assms] assess_risk_reasons by blast

theorem risk_assessment_answers_witness:
  "\<exists>a. assess_risk ex_account [] ex_signal ex_instrument ex_contract 3 default_policy (Some ''Storm'') 0 0 = Inr a \<and>
     (ra_approved a \<longleftrightarrow> ra_reasons a = [])"
  by (rule risk_assessment_answers)
    (simp_all add: default_policy_valid ex_equity ex_contract_valid ex_signal_fields)

text \<open>
  An instrument added to the registry is found again under its symbol in any letter case, and the registry never
  holds two instruments of one symbol.
\<close>

theorem registry_finds_added:
  assumes "registry_add [] is = Inr reg" "i \<in> set is" "upper s = upper (in_symbol i)"
  shows "registry_get reg s = Inr i \<and> distinct (map (upper \<circ> in_symbol) is) \<and> registry_ok reg"
proof -
  have d: "distinct (map (upper \<circ> in_symbol) is)" using assms(1) by (rule registry_add_distinct)
  have "find (\<lambda>x. upper (in_symbol x) = upper (in_symbol i)) is = Some i"
    using d assms(2) by (induction "is") auto
  then have "dget reg (upper (in_symbol i)) = Some i" using registry_add_lookup [OF assms(1)] by simp
  moreover have "registry_ok reg" using registry_add_ok [OF _ assms(1)] by (simp add: registry_ok_def dict_ok_def)
  ultimately show ?thesis using d assms(3) by (simp add: registry_get_def)
qed

theorem registry_finds_added_witness:
  "\<exists>reg. registry_add [] [ex_instrument] = Inr reg \<and> registry_get reg ''btcUSDT'' = Inr ex_instrument"
proof -
  have "instrument_validate ex_instrument = Inr ()"
    by (simp add: instrument_validate_def ex_instrument_def guard_def strip_eq_Nil_iff is_space_def opt_holds_def)
  then obtain reg where "registry_add [] [ex_instrument] = Inr reg"
    using registry_add_Cons_Inr [of "[]" ex_instrument "[]"] by auto
  moreover have "upper ''btcUSDT'' = upper (in_symbol ex_instrument)"
    by (simp add: ex_instrument_def upper_def upper_char_def) code_simp
  ultimately show ?thesis using registry_finds_added [of "[ex_instrument]" reg ex_instrument "''btcUSDT''"] by auto
qed

section \<open>A plan the strategy cannot meet\<close>

text \<open>
  The strategy plans every target at 2.5 times the risk and demands a ratio of at least 2.5, but it divides the
  rounded reward by the rounded risk: with an average true range of 25 fourteenths, an entry of 100 and a support of 55 the
  ratio comes back as 2.499999999999999999999999999 and the signal is rejected for that alone, while the same market with
  an average true range of 4 and a support of 95 is ready.
\<close>

theorem planned_ratio_rejected:
  "(\<exists>sg. example_signal 100 (ddiv 25 14) 55 = Inr sg \<and> sg_rr sg = 5 / 2 - 1 / 10 ^ 27 \<and>
      sg_state sg = STRATEGY_REJECTED \<and> sg_reasons sg = [''R:R below minimum'']) \<and>
   (\<exists>sg. example_signal 100 4 95 = Inr sg \<and> sg_rr sg = 5 / 2 \<and> sg_state sg = READY_FOR_RISK_REVIEW)"
proof -
  have "odd_rr = 5 / 2 - 1 / 10 ^ 27" by (simp add: odd_rr_def p10_def)
  then show ?thesis unfolding odd_values(1) using example_rounded_away example_ready by metis
qed

text \<open>
  On a price grid the plan is met exactly: when entry and stop are multiples of one power of ten with at most 26
  digits, the target lies exactly 2.5 times the risk above the entry and the ratio is exactly 2.5.
\<close>

theorem planned_ratio_exact_on_grid:
  assumes "entry = of_int a * p10 g" "stop = of_int b * p10 g" "\<bar>a\<bar> < 10 ^ 26" "\<bar>b\<bar> < 10 ^ 26" "b < a"
    and "long_levels entry support buffer = Some (entry, stop, t)"
  shows "t = entry + 5 / 2 * (entry - stop) \<and> (\<exists>rr. calculate_risk_reward entry stop t ''LONG'' = Inr rr \<and> rr_ratio rr = 5 / 2)"
proof -
  have t: "t = dadd entry (dmul (dsub entry stop) (5 / 2))"
    using assms(6) by (auto simp: long_levels_def Let_def split: if_splits)
  note x = long_levels_exact [OF assms(1-5)]
  have "0 < p10 g" by (simp add: p10_def)
  then have lt: "stop < entry" using assms(1,2,5) by simp
  have t': "t = entry + 5 / 2 * (entry - stop)" using t x(1) by simp
  have s: "0 < dsub entry stop" "0 < dsub t entry"
    using lt unfolding t' dsub_def dec.pos_iff by simp_all
  then show ?thesis using x by (simp add: t calculate_risk_reward_def guard_def)
qed

theorem planned_ratio_exact_on_grid_witness:
  "\<exists>rr. calculate_risk_reward 100 94 115 ''LONG'' = Inr rr \<and> rr_ratio rr = 5 / 2"
  using planned_ratio_exact_on_grid [of 100 100 0 94 94 95 1 115]
  by (simp add: long_levels_def p10_def dec_eval)

end
